(* ===== verification/Prelude.thy ===== *)
theory Prelude
  imports Complex_Main "HOL-Library.Monad_Syntax"
begin

text \<open>
  Shared vocabulary of the development: the program's error codes and the result type of a
  fallible function, Rust's checked, saturating and truncating integer operations, public
  keys, the generic interface of a state machine whose operations keep an invariant, and the
  arithmetic lemmas that the components share.

  Machine integers are natural numbers (\<open>u16\<close>, \<open>u32\<close>, \<open>u64\<close>, \<open>u128\<close>) or integers
  (\<open>i64\<close>, \<open>i128\<close>) with the width written out in every operation that can leave the range:
  a checked operation returns \<open>None\<close> exactly where Rust's does, a saturating one is cut at
  the bound, and an \<open>as\<close> cast is a remainder.
\<close>

section \<open>Integer types and their operations\<close>

type_synonym u8 = nat
type_synonym u16 = nat
type_synonym u32 = nat
type_synonym u64 = nat
type_synonym u128 = nat
type_synonym i64 = int
type_synonym i128 = int
type_synonym pubkey = nat

named_theorems int_defs "definitions of the integer operations and bounds"
named_theorems const_defs "definitions of the numeric constants of the program"

definition u16_max :: nat where [int_defs]: "u16_max = 65535"
definition u32_max :: nat where [int_defs]: "u32_max = 4294967295"
definition u64_max :: nat where [int_defs]: "u64_max = 18446744073709551615"
definition u128_max :: nat where
  [int_defs]: "u128_max = 340282366920938463463374607431768211455"
definition i64_min :: int where [int_defs]: "i64_min = - 9223372036854775808"
definition i64_max :: int where [int_defs]: "i64_max = 9223372036854775807"

definition checked_add :: "nat \<Rightarrow> nat \<Rightarrow> nat \<Rightarrow> nat option" where
  "checked_add mx a b = (if a + b \<le> mx then Some (a + b) else None)"

definition checked_mul :: "nat \<Rightarrow> nat \<Rightarrow> nat \<Rightarrow> nat option" where
  "checked_mul mx a b = (if a * b \<le> mx then Some (a * b) else None)"

definition checked_sub :: "nat \<Rightarrow> nat \<Rightarrow> nat option" where
  "checked_sub a b = (if b \<le> a then Some (a - b) else None)"

definition checked_div :: "nat \<Rightarrow> nat \<Rightarrow> nat option" where
  "checked_div a b = (if b = 0 then None else Some (a div b))"

definition checked_pow :: "nat \<Rightarrow> nat \<Rightarrow> nat \<Rightarrow> nat option" where
  "checked_pow mx a n = (if a ^ n \<le> mx then Some (a ^ n) else None)"

definition saturating_sub :: "nat \<Rightarrow> nat \<Rightarrow> nat" where
  "saturating_sub a b = a - b"

definition saturating_add :: "nat \<Rightarrow> nat \<Rightarrow> nat \<Rightarrow> nat" where
  "saturating_add mx a b = min mx (a + b)"

definition saturating_mul :: "nat \<Rightarrow> nat \<Rightarrow> nat \<Rightarrow> nat" where
  "saturating_mul mx a b = min mx (a * b)"

text \<open>\<open>x as u64\<close> from a wider unsigned type, and \<open>t as u64\<close> from an \<open>i64\<close>.\<close>

definition as_u64 :: "nat \<Rightarrow> u64" where
  "as_u64 x = x mod 2 ^ 64"

definition i64_as_u64 :: "i64 \<Rightarrow> u64" where
  "i64_as_u64 t = nat (t mod 2 ^ 64)"

definition i64_as_u128 :: "i64 \<Rightarrow> u128" where
  "i64_as_u128 t = nat (t mod 2 ^ 128)"

definition try_from_u64 :: "nat \<Rightarrow> u64 option" where
  "try_from_u64 x = (if x \<le> u64_max then Some x else None)"

definition try_from_i64 :: "int \<Rightarrow> i64 option" where
  "try_from_i64 x = (if i64_min \<le> x \<and> x \<le> i64_max then Some x else None)"

definition checked_sub_i64 :: "i64 \<Rightarrow> i64 \<Rightarrow> i64 option" where
  "checked_sub_i64 a b = (if i64_min \<le> a - b \<and> a - b \<le> i64_max then Some (a - b) else None)"

definition saturating_mul_i64 :: "i64 \<Rightarrow> i64 \<Rightarrow> i64" where
  "saturating_mul_i64 a b = max i64_min (min i64_max (a * b))"

text \<open>The all-zero key, which the program uses for an empty slot.\<close>

definition default_pubkey :: pubkey where
  "default_pubkey = 0"

section \<open>Errors and results\<close>

text \<open>
  An error is a variant of the enum \<open>OnreError\<close>, by its position in the source (the custom
  error code is that position plus 6000), or one of the failures the source does not name:
  \<open>AnchorConstraint\<close> is an account constraint without a custom error (\<open>has_one\<close>, an address
  or seeds check, a missing account), \<open>TokenProgramError\<close> an error returned by the token
  program, and \<open>Panic\<close> an arithmetic panic (division by zero, an overflow caught by
  \<open>overflow-checks\<close>, \<open>unwrap\<close> on nothing). The abbreviations are the enum's variants in
  the order of the source.
\<close>

datatype error =
    OnreError nat
  | AnchorConstraint
  | TokenProgramError nat
  | Panic

abbreviation MathOverflow :: error where "MathOverflow \<equiv> OnreError 0"
abbreviation MaxSupplyExceeded :: error where "MaxSupplyExceeded \<equiv> OnreError 1"
abbreviation MaxMintAmountExceeded :: error where "MaxMintAmountExceeded \<equiv> OnreError 2"
abbreviation TransferFeeNotSupported :: error where "TransferFeeNotSupported \<equiv> OnreError 3"
abbreviation ZeroPriceNotAllowed :: error where "ZeroPriceNotAllowed \<equiv> OnreError 4"
abbreviation DecimalsExceedMax :: error where "DecimalsExceedMax \<equiv> OnreError 5"
abbreviation ResultOverflow :: error where "ResultOverflow \<equiv> OnreError 6"
abbreviation Expired :: error where "Expired \<equiv> OnreError 7"
abbreviation WrongProgram :: error where "WrongProgram \<equiv> OnreError 8"
abbreviation WrongUser :: error where "WrongUser \<equiv> OnreError 9"
abbreviation MissingEd25519Ix :: error where "MissingEd25519Ix \<equiv> OnreError 10"
abbreviation WrongIxProgram :: error where "WrongIxProgram \<equiv> OnreError 11"
abbreviation BadEd25519Accounts :: error where "BadEd25519Accounts \<equiv> OnreError 12"
abbreviation MalformedEd25519Ix :: error where "MalformedEd25519Ix \<equiv> OnreError 13"
abbreviation MultipleSigs :: error where "MultipleSigs \<equiv> OnreError 14"
abbreviation WrongAuthority :: error where "WrongAuthority \<equiv> OnreError 15"
abbreviation MsgMismatch :: error where "MsgMismatch \<equiv> OnreError 16"
abbreviation MsgDeserialize :: error where "MsgDeserialize \<equiv> OnreError 17"
abbreviation InvalidFee :: error where "InvalidFee \<equiv> OnreError 18"
abbreviation InvalidTokenInMint :: error where "InvalidTokenInMint \<equiv> OnreError 19"
abbreviation InvalidTokenOutMint :: error where "InvalidTokenOutMint \<equiv> OnreError 20"
abbreviation VectorNotFound :: error where "VectorNotFound \<equiv> OnreError 21"
abbreviation StartTimeInPast :: error where "StartTimeInPast \<equiv> OnreError 22"
abbreviation InvalidBoss :: error where "InvalidBoss \<equiv> OnreError 23"
abbreviation KillSwitchActivated :: error where "KillSwitchActivated \<equiv> OnreError 24"
abbreviation PermissionlessNotAllowed :: error where "PermissionlessNotAllowed \<equiv> OnreError 25"
abbreviation InvalidMarketStatsPda :: error where "InvalidMarketStatsPda \<equiv> OnreError 26"
abbreviation MarketStatsNotWritable :: error where "MarketStatsNotWritable \<equiv> OnreError 27"
abbreviation InvalidInstructionsSysvar :: error where "InvalidInstructionsSysvar \<equiv> OnreError 28"
abbreviation InvalidPermissionlessTokenOutAccount :: error where "InvalidPermissionlessTokenOutAccount \<equiv> OnreError 29"
abbreviation InvalidUserTokenOutAccount :: error where "InvalidUserTokenOutAccount \<equiv> OnreError 30"
abbreviation InvalidBossTokenInAccount :: error where "InvalidBossTokenInAccount \<equiv> OnreError 31"
abbreviation InvalidTimeRange :: error where "InvalidTimeRange \<equiv> OnreError 32"
abbreviation ZeroValue :: error where "ZeroValue \<equiv> OnreError 33"
abbreviation DuplicateStartTime :: error where "DuplicateStartTime \<equiv> OnreError 34"
abbreviation TooManyVectors :: error where "TooManyVectors \<equiv> OnreError 35"
abbreviation InvalidAPR :: error where "InvalidAPR \<equiv> OnreError 36"
abbreviation InvalidPriceFixDuration :: error where "InvalidPriceFixDuration \<equiv> OnreError 37"
abbreviation InvalidVaultAuthority :: error where "InvalidVaultAuthority \<equiv> OnreError 38"
abbreviation InvalidMintAuthority :: error where "InvalidMintAuthority \<equiv> OnreError 39"
abbreviation OfferNotFound :: error where "OfferNotFound \<equiv> OnreError 40"
abbreviation NoActiveVector :: error where "NoActiveVector \<equiv> OnreError 41"
abbreviation OverflowError :: error where "OverflowError \<equiv> OnreError 42"
abbreviation ApprovalRequired :: error where "ApprovalRequired \<equiv> OnreError 43"
abbreviation AccountFull :: error where "AccountFull \<equiv> OnreError 44"
abbreviation InvalidTokenProgram :: error where "InvalidTokenProgram \<equiv> OnreError 45"
abbreviation InvalidOnycMint :: error where "InvalidOnycMint \<equiv> OnreError 46"
abbreviation InvalidMarketStatsOwner :: error where "InvalidMarketStatsOwner \<equiv> OnreError 47"
abbreviation InvalidMarketStatsData :: error where "InvalidMarketStatsData \<equiv> OnreError 48"
abbreviation InvalidCirculatingSupplyExcludedAccounts :: error where "InvalidCirculatingSupplyExcludedAccounts \<equiv> OnreError 49"
abbreviation InvalidCirculatingSupplyExcludedAccountsOwner :: error where "InvalidCirculatingSupplyExcludedAccountsOwner \<equiv> OnreError 50"
abbreviation InvalidCirculatingSupplyExcludedAccountsData :: error where "InvalidCirculatingSupplyExcludedAccountsData \<equiv> OnreError 51"
abbreviation InvalidCirculatingSupplyExcludedBalance :: error where "InvalidCirculatingSupplyExcludedBalance \<equiv> OnreError 52"
abbreviation InvalidCirculatingSupplyExcludedBalanceOwner :: error where "InvalidCirculatingSupplyExcludedBalanceOwner \<equiv> OnreError 53"
abbreviation InvalidCirculatingSupplyExcludedBalanceData :: error where "InvalidCirculatingSupplyExcludedBalanceData \<equiv> OnreError 54"
abbreviation MissingExcludedTokenAccount :: error where "MissingExcludedTokenAccount \<equiv> OnreError 55"
abbreviation TooManyExcludedTokenAccounts :: error where "TooManyExcludedTokenAccounts \<equiv> OnreError 56"
abbreviation InvalidExcludedTokenAccount :: error where "InvalidExcludedTokenAccount \<equiv> OnreError 57"
abbreviation DuplicateExcludedAccountOwner :: error where "DuplicateExcludedAccountOwner \<equiv> OnreError 58"
abbreviation Overflow :: error where "Overflow \<equiv> OnreError 59"
abbreviation InvalidMainOffer :: error where "InvalidMainOffer \<equiv> OnreError 60"
abbreviation DivByZero :: error where "DivByZero \<equiv> OnreError 61"
abbreviation InvalidVaultAccount :: error where "InvalidVaultAccount \<equiv> OnreError 62"
abbreviation BossAlreadySet :: error where "BossAlreadySet \<equiv> OnreError 63"
abbreviation WrongBoss :: error where "WrongBoss \<equiv> OnreError 64"
abbreviation WrongOwner :: error where "WrongOwner \<equiv> OnreError 65"
abbreviation ImmutableProgram :: error where "ImmutableProgram \<equiv> OnreError 66"
abbreviation WrongProgramData :: error where "WrongProgramData \<equiv> OnreError 67"
abbreviation MissingProgramData :: error where "MissingProgramData \<equiv> OnreError 68"
abbreviation DeserializeProgramDataFailed :: error where "DeserializeProgramDataFailed \<equiv> OnreError 69"
abbreviation NotProgramData :: error where "NotProgramData \<equiv> OnreError 70"
abbreviation InvalidPermissionlessAccountName :: error where "InvalidPermissionlessAccountName \<equiv> OnreError 71"
abbreviation BothApproversFilled :: error where "BothApproversFilled \<equiv> OnreError 72"
abbreviation InvalidApprover :: error where "InvalidApprover \<equiv> OnreError 73"
abbreviation ApproverAlreadyExists :: error where "ApproverAlreadyExists \<equiv> OnreError 74"
abbreviation OnlyBossCanDisable :: error where "OnlyBossCanDisable \<equiv> OnreError 75"
abbreviation UnauthorizedToEnable :: error where "UnauthorizedToEnable \<equiv> OnreError 76"
abbreviation NotAnApprover :: error where "NotAnApprover \<equiv> OnreError 77"
abbreviation InvalidStateOwner :: error where "InvalidStateOwner \<equiv> OnreError 78"
abbreviation InvalidStatePda :: error where "InvalidStatePda \<equiv> OnreError 79"
abbreviation InvalidStateData :: error where "InvalidStateData \<equiv> OnreError 80"
abbreviation UnauthorizedSigner :: error where "UnauthorizedSigner \<equiv> OnreError 81"
abbreviation LamportOverflow :: error where "LamportOverflow \<equiv> OnreError 82"
abbreviation NoBossProposal :: error where "NoBossProposal \<equiv> OnreError 83"
abbreviation NotProposedBoss :: error where "NotProposedBoss \<equiv> OnreError 84"
abbreviation InvalidBossAddress :: error where "InvalidBossAddress \<equiv> OnreError 85"
abbreviation NoChange :: error where "NoChange \<equiv> OnreError 86"
abbreviation AdminAlreadyExists :: error where "AdminAlreadyExists \<equiv> OnreError 87"
abbreviation MaxAdminsReached :: error where "MaxAdminsReached \<equiv> OnreError 88"
abbreviation AdminNotFound :: error where "AdminNotFound \<equiv> OnreError 89"
abbreviation ProgramNotMintAuthority :: error where "ProgramNotMintAuthority \<equiv> OnreError 90"
abbreviation NoMintAuthority :: error where "NoMintAuthority \<equiv> OnreError 91"
abbreviation BossNotMintAuthority :: error where "BossNotMintAuthority \<equiv> OnreError 92"
abbreviation Unauthorized :: error where "Unauthorized \<equiv> OnreError 93"
abbreviation ZeroBalance :: error where "ZeroBalance \<equiv> OnreError 94"
abbreviation InsufficientBalance :: error where "InsufficientBalance \<equiv> OnreError 95"
abbreviation ArithmeticOverflow :: error where "ArithmeticOverflow \<equiv> OnreError 96"
abbreviation InvalidMint :: error where "InvalidMint \<equiv> OnreError 97"
abbreviation InvalidRedemptionOffer :: error where "InvalidRedemptionOffer \<equiv> OnreError 98"
abbreviation ArithmeticUnderflow :: error where "ArithmeticUnderflow \<equiv> OnreError 99"
abbreviation InvalidRedeemer :: error where "InvalidRedeemer \<equiv> OnreError 100"
abbreviation InvalidWorker :: error where "InvalidWorker \<equiv> OnreError 101"
abbreviation InvalidRedeemerTokenAccount :: error where "InvalidRedeemerTokenAccount \<equiv> OnreError 102"
abbreviation OfferMismatch :: error where "OfferMismatch \<equiv> OnreError 103"
abbreviation OfferMintMismatch :: error where "OfferMintMismatch \<equiv> OnreError 104"
abbreviation InvalidRedemptionOfferOwner :: error where "InvalidRedemptionOfferOwner \<equiv> OnreError 105"
abbreviation InvalidRedemptionOfferData :: error where "InvalidRedemptionOfferData \<equiv> OnreError 106"
abbreviation InvalidFeeDestinationTokenInAccount :: error where "InvalidFeeDestinationTokenInAccount \<equiv> OnreError 107"
abbreviation InvalidOfferVaultOnycAccount :: error where "InvalidOfferVaultOnycAccount \<equiv> OnreError 108"
abbreviation InvalidVaultTokenInAccount :: error where "InvalidVaultTokenInAccount \<equiv> OnreError 109"
abbreviation InvalidVaultTokenOutAccount :: error where "InvalidVaultTokenOutAccount \<equiv> OnreError 110"
abbreviation InvalidAmount :: error where "InvalidAmount \<equiv> OnreError 111"
abbreviation OfferDisabled :: error where "OfferDisabled \<equiv> OnreError 112"
abbreviation RedemptionOfferDisabled :: error where "RedemptionOfferDisabled \<equiv> OnreError 113"
abbreviation UnauthorizedToDisableOffer :: error where "UnauthorizedToDisableOffer \<equiv> OnreError 114"
abbreviation OnlyBossCanEnableOffer :: error where "OnlyBossCanEnableOffer \<equiv> OnreError 115"
abbreviation AmountExceedsRemaining :: error where "AmountExceedsRemaining \<equiv> OnreError 116"
abbreviation InvalidFeeDestination :: error where "InvalidFeeDestination \<equiv> OnreError 117"
abbreviation InvalidConfigurableVault :: error where "InvalidConfigurableVault \<equiv> OnreError 118"
abbreviation InvalidConfigurableVaultOwner :: error where "InvalidConfigurableVaultOwner \<equiv> OnreError 119"
abbreviation InvalidConfigurableVaultData :: error where "InvalidConfigurableVaultData \<equiv> OnreError 120"
abbreviation InvalidConfigurableVaultKind :: error where "InvalidConfigurableVaultKind \<equiv> OnreError 121"
abbreviation MissingConfigurableVaultDestination :: error where "MissingConfigurableVaultDestination \<equiv> OnreError 122"
abbreviation InvalidConfigurableVaultTokenAccount :: error where "InvalidConfigurableVaultTokenAccount \<equiv> OnreError 123"
abbreviation InvalidBufferStateAccount :: error where "InvalidBufferStateAccount \<equiv> OnreError 124"
abbreviation InvalidTimestamp :: error where "InvalidTimestamp \<equiv> OnreError 125"
abbreviation MinimumOutNotMet :: error where "MinimumOutNotMet \<equiv> OnreError 126"
abbreviation InvalidSwapPair :: error where "InvalidSwapPair \<equiv> OnreError 127"
abbreviation InvalidPropAmmPairState :: error where "InvalidPropAmmPairState \<equiv> OnreError 128"
abbreviation PropAmmPairDisabled :: error where "PropAmmPairDisabled \<equiv> OnreError 129"
abbreviation InvalidTargetNav :: error where "InvalidTargetNav \<equiv> OnreError 130"
abbreviation InvalidAssetAdjustmentAmount :: error where "InvalidAssetAdjustmentAmount \<equiv> OnreError 131"
abbreviation NoBurnNeeded :: error where "NoBurnNeeded \<equiv> OnreError 132"
abbreviation InsufficientCacheBalance :: error where "InsufficientCacheBalance \<equiv> OnreError 133"
abbreviation InsufficientFeeBalance :: error where "InsufficientFeeBalance \<equiv> OnreError 134"
abbreviation InvalidFeeRecipient :: error where "InvalidFeeRecipient \<equiv> OnreError 135"
abbreviation InvalidBurnTarget :: error where "InvalidBurnTarget \<equiv> OnreError 136"

datatype 'a result = Ok 'a | Err error

definition and_then :: "'a result \<Rightarrow> ('a \<Rightarrow> 'b result) \<Rightarrow> 'b result" where
  "and_then r k = (case r of Ok x \<Rightarrow> k x | Err e \<Rightarrow> Err e)"

definition require :: "bool \<Rightarrow> error \<Rightarrow> 'a result \<Rightarrow> 'a result" where
  "require c e k = (if c then k else Err e)"

definition ok_or :: "'a option \<Rightarrow> error \<Rightarrow> 'a result" where
  "ok_or x e = (case x of None \<Rightarrow> Err e | Some y \<Rightarrow> Ok y)"

definition map_err :: "'a result \<Rightarrow> error \<Rightarrow> 'a result" where
  "map_err r e = (case r of Ok x \<Rightarrow> Ok x | Err _ \<Rightarrow> Err e)"

definition is_ok :: "'a result \<Rightarrow> bool" where
  "is_ok r = (case r of Ok _ \<Rightarrow> True | Err _ \<Rightarrow> False)"

text \<open>
  Inversion of a successful run: with these equations the simplifier turns
  \<open>f x = Ok y\<close> into the chain of successful steps.
\<close>

lemma and_then_simps [simp]:
  "and_then (Ok x) k = k x"
  "and_then (Err e) k = Err e"
  by (simp_all add: and_then_def)

lemma and_then_eq_Ok [simp]:
  "and_then r k = Ok y \<longleftrightarrow> (\<exists>x. r = Ok x \<and> k x = Ok y)"
  by (cases r) auto

lemma require_eq_Ok [simp]: "require c e k = Ok y \<longleftrightarrow> c \<and> k = Ok y"
  by (simp add: require_def)

lemma require_simps [simp]:
  "require True e k = k"
  "require False e k = Err e"
  by (simp_all add: require_def)

lemma ok_or_simps [simp]:
  "ok_or (Some x) e = Ok x"
  "ok_or None e = Err e"
  by (simp_all add: ok_or_def)

lemma ok_or_eq_Ok [simp]: "ok_or x e = Ok y \<longleftrightarrow> x = Some y"
  by (simp add: ok_or_def split: option.splits)

lemma map_err_simps [simp]:
  "map_err (Ok x) e = Ok x"
  "map_err (Err e') e = Err e"
  by (simp_all add: map_err_def)

lemma map_err_eq_Ok [simp]: "map_err r e = Ok y \<longleftrightarrow> r = Ok y"
  by (cases r) auto

lemma is_ok_iff: "is_ok r \<longleftrightarrow> (\<exists>x. r = Ok x)"
  by (cases r) (auto simp: is_ok_def)

text \<open>
  Congruence rules for evaluating closed terms: the continuation is left alone until the step
  before it is a value.
\<close>

lemma bind_weak_cong: "x = y \<Longrightarrow> Option.bind x f = Option.bind y f"
  by simp

lemma and_then_weak_cong: "x = y \<Longrightarrow> and_then x f = and_then y f"
  by simp

lemma require_weak_cong: "c = d \<Longrightarrow> require c e k = require d e k"
  by simp

lemmas eval_congs = bind_weak_cong and_then_weak_cong require_weak_cong

section \<open>Facts about the integer operations\<close>

lemma checked_add_eq_Some [simp]:
  "checked_add mx a b = Some c \<longleftrightarrow> c = a + b \<and> a + b \<le> mx"
  by (auto simp: checked_add_def)

lemma checked_mul_eq_Some [simp]:
  "checked_mul mx a b = Some c \<longleftrightarrow> c = a * b \<and> a * b \<le> mx"
  by (auto simp: checked_mul_def)

lemma checked_sub_eq_Some [simp]:
  "checked_sub a b = Some c \<longleftrightarrow> c = a - b \<and> b \<le> a"
  by (auto simp: checked_sub_def)

lemma checked_div_eq_Some [simp]:
  "checked_div a b = Some c \<longleftrightarrow> c = a div b \<and> b \<noteq> 0"
  by (auto simp: checked_div_def)

lemma checked_pow_eq_Some [simp]:
  "checked_pow mx a n = Some c \<longleftrightarrow> c = a ^ n \<and> a ^ n \<le> mx"
  by (auto simp: checked_pow_def)

lemma try_from_u64_eq_Some [simp]: "try_from_u64 x = Some y \<longleftrightarrow> y = x \<and> x \<le> u64_max"
  by (auto simp: try_from_u64_def)

lemma try_from_i64_eq_Some [simp]:
  "try_from_i64 x = Some y \<longleftrightarrow> y = x \<and> i64_min \<le> x \<and> x \<le> i64_max"
  by (auto simp: try_from_i64_def)

lemma checked_sub_i64_eq_Some [simp]:
  "checked_sub_i64 a b = Some c \<longleftrightarrow> c = a - b \<and> i64_min \<le> a - b \<and> a - b \<le> i64_max"
  by (auto simp: checked_sub_i64_def)

lemma as_u64_id: "x \<le> u64_max \<Longrightarrow> as_u64 x = x"
  by (simp add: as_u64_def u64_max_def)

lemma as_u64_bound: "as_u64 x \<le> u64_max"
proof -
  have "x mod 18446744073709551616 < 18446744073709551616" by (rule mod_less_divisor) simp
  then show ?thesis by (simp add: as_u64_def u64_max_def)
qed

lemma u64_max_le_u128_max: "u64_max \<le> u128_max"
  by (simp add: int_defs)

lemma u64_mul_fits_u128: "a \<le> u64_max \<Longrightarrow> b \<le> u64_max \<Longrightarrow> a * b \<le> u128_max"
  using mult_le_mono [of a u64_max b u64_max] by (simp add: int_defs)

lemma mul_div_le: "b \<le> c \<Longrightarrow> a * b div c \<le> (a::nat)"
proof (cases "c = 0")
  case False
  assume "b \<le> c"
  then have "a * b div c \<le> a * c div c" by (intro div_le_mono mult_le_mono2)
  with False show ?thesis by simp
qed simp

section \<open>State machines with an invariant\<close>

text \<open>
  A component with state is an operation function \<open>exec\<close> on operation values and a
  well-formedness invariant. A failing instruction is rolled back by the runtime, so a run
  over a list of operations skips the failing ones. The lemmas of the locale hold for every
  component that proves the one-operation law.
\<close>

definition commit :: "'s \<Rightarrow> 's result \<Rightarrow> 's" where
  "commit s r = (case r of Ok s' \<Rightarrow> s' | Err _ \<Rightarrow> s)"

primrec run_ops :: "('op \<Rightarrow> 's \<Rightarrow> 's result) \<Rightarrow> 'op list \<Rightarrow> 's \<Rightarrow> 's" where
  "run_ops exec [] s = s"
| "run_ops exec (c # cs) s = run_ops exec cs (commit s (exec c s))"

lemma commit_simps [simp]: "commit s (Ok s') = s'" "commit s (Err e) = s"
  by (simp_all add: commit_def)

lemma run_ops_append: "run_ops exec (cs @ ds) s = run_ops exec ds (run_ops exec cs s)"
  by (induction cs arbitrary: s) auto

text \<open>
  Where an invariant needs something of the operations (a halted program, machine integers in
  range), the run is guarded: every operation of the list satisfies \<open>ok\<close>.
\<close>

locale guarded_machine =
  fixes exec :: "'op \<Rightarrow> 's \<Rightarrow> 's result"
    and inv :: "'s \<Rightarrow> bool"
    and ok :: "'op \<Rightarrow> bool"
  assumes step_inv: "ok c \<Longrightarrow> inv s \<Longrightarrow> exec c s = Ok s' \<Longrightarrow> inv s'"
begin

lemma guarded_commit_inv: "ok c \<Longrightarrow> inv s \<Longrightarrow> inv (commit s (exec c s))"
  by (cases "exec c s") (auto intro: step_inv)

lemma guarded_run_inv: "list_all ok cs \<Longrightarrow> inv s \<Longrightarrow> inv (run_ops exec cs s)"
  by (induction cs arbitrary: s) (auto intro: guarded_commit_inv)

end

locale invariant_machine =
  fixes exec :: "'op \<Rightarrow> 's \<Rightarrow> 's result"
    and inv :: "'s \<Rightarrow> bool"
  assumes exec_inv: "inv s \<Longrightarrow> exec c s = Ok s' \<Longrightarrow> inv s'"

text \<open>A machine with an unconditional invariant is a guarded one in which every operation is allowed.\<close>

sublocale invariant_machine \<subseteq> guarded_machine exec inv "\<lambda>_. True"
  by unfold_locales (rule exec_inv)

context invariant_machine
begin

lemma run_inv: "inv s \<Longrightarrow> inv (run_ops exec cs s)"
  by (rule guarded_run_inv) (simp_all add: list_all_iff)

end

end
