(* ===== verification/Governance.thy ===== *)
theory Governance
  imports Prelude
begin

text \<open>
  The global \<open>State\<close> account (\<open>state.rs\<close>) and the instructions that write it
  (\<open>initialization/initialize.rs\<close>, \<open>state_operations/*.rs\<close>), with the authorisation of the
  targeted disable (\<open>targeted_disable.rs\<close>). A signer is the public key that Anchor has
  checked; \<open>has_one = boss\<close> is the comparison of the signer with the stored boss.
\<close>

section \<open>State and initialization\<close>

definition MAX_ADMINS :: nat where [const_defs]: "MAX_ADMINS = 20"

record state =
  s_boss :: pubkey
  s_proposed_boss :: pubkey
  s_is_killed :: bool
  s_onyc_mint :: pubkey
  s_admins :: "pubkey list"
  s_approver1 :: pubkey
  s_approver2 :: pubkey
  s_bump :: u8
  s_max_supply :: u64
  s_worker :: pubkey
  s_max_mint_amount :: u64
  s_main_offer :: pubkey

text \<open>A freshly allocated account: every byte is zero.\<close>

definition zero_state :: state where
  "zero_state = \<lparr>s_boss = default_pubkey, s_proposed_boss = default_pubkey, s_is_killed = False,
     s_onyc_mint = default_pubkey, s_admins = replicate MAX_ADMINS default_pubkey,
     s_approver1 = default_pubkey, s_approver2 = default_pubkey, s_bump = 0, s_max_supply = 0,
     s_worker = default_pubkey, s_max_mint_amount = 0, s_main_offer = default_pubkey\<rparr>"

text \<open>
  The loader's account of the program: its owner, and the \<open>ProgramData\<close> account with the
  result of the loader's own deserialization. The loader id and the program-data address
  belong to the Solana runtime and are arguments.
\<close>

datatype loader_state = ProgramData "pubkey option" | OtherLoaderState

record program_data_account =
  pd_key :: pubkey
  pd_owner :: pubkey
  pd_content :: "loader_state option"

definition get_upgrade_authority ::
  "pubkey \<Rightarrow> pubkey \<Rightarrow> pubkey \<Rightarrow> program_data_account option \<Rightarrow> pubkey option result" where
  "get_upgrade_authority bpf_loader expected_pd owner program_data =
     (if owner = bpf_loader then
        and_then (ok_or program_data MissingProgramData) (\<lambda>pd.
        require (pd_owner pd = bpf_loader) WrongOwner (
        require (expected_pd = pd_key pd) WrongProgramData (
        and_then (ok_or (pd_content pd) AnchorConstraint) (\<lambda>st.
        case st of
          ProgramData upgrade_authority_address \<Rightarrow> Ok upgrade_authority_address
        | OtherLoaderState \<Rightarrow> Err NotProgramData))))
      else Err WrongOwner)"

text \<open>
  The account is created with \<open>init\<close>, so an existing state account is rejected by Anchor;
  \<open>existing\<close> is the content of the state address before the instruction.
\<close>

definition initialize ::
  "pubkey \<Rightarrow> pubkey \<Rightarrow> pubkey \<Rightarrow> program_data_account option \<Rightarrow> pubkey \<Rightarrow> pubkey \<Rightarrow> u8 \<Rightarrow>
   state option \<Rightarrow> state result" where
  "initialize bpf_loader expected_pd owner program_data boss onyc_mint bump existing =
     require (existing = None) AnchorConstraint (
     and_then (get_upgrade_authority bpf_loader expected_pd owner program_data) (\<lambda>authority.
     require (case authority of Some a \<Rightarrow> boss = a | None \<Rightarrow> True) WrongOwner (
     let state = zero_state in
     require (s_boss state = default_pubkey) BossAlreadySet (
     Ok (state\<lparr>s_boss := boss, s_is_killed := False, s_onyc_mint := onyc_mint,
               s_admins := replicate MAX_ADMINS default_pubkey,
               s_approver1 := default_pubkey, s_approver2 := default_pubkey, s_bump := bump,
               s_max_supply := 0, s_max_mint_amount := 0, s_proposed_boss := default_pubkey,
               s_worker := default_pubkey\<rparr>)))))"

section \<open>Operations\<close>

text \<open>The first-match loops over the fixed admin array: overwrite the first \<open>x\<close> with \<open>y\<close>.\<close>

fun replace_first :: "'a \<Rightarrow> 'a \<Rightarrow> 'a list \<Rightarrow> 'a list option" where
  "replace_first x y [] = None"
| "replace_first x y (a # as) =
     (if a = x then Some (y # as) else map_option ((#) a) (replace_first x y as))"

definition propose_boss :: "pubkey \<Rightarrow> pubkey \<Rightarrow> state \<Rightarrow> state result" where
  "propose_boss signer new_boss s =
     require (signer = s_boss s) AnchorConstraint (
     require (new_boss \<noteq> default_pubkey) InvalidBossAddress (
     Ok (s\<lparr>s_proposed_boss := new_boss\<rparr>)))"

definition accept_boss :: "pubkey \<Rightarrow> state \<Rightarrow> state result" where
  "accept_boss signer s =
     require (s_proposed_boss s \<noteq> default_pubkey) NoBossProposal (
     require (signer = s_proposed_boss s) NotProposedBoss (
     Ok (s\<lparr>s_boss := s_proposed_boss s, s_proposed_boss := default_pubkey\<rparr>)))"

definition add_admin :: "pubkey \<Rightarrow> pubkey \<Rightarrow> state \<Rightarrow> state result" where
  "add_admin signer new_admin s =
     require (signer = s_boss s) AnchorConstraint (
     require (new_admin \<notin> set (s_admins s)) AdminAlreadyExists (
     case replace_first default_pubkey new_admin (s_admins s) of
       Some admins \<Rightarrow> Ok (s\<lparr>s_admins := admins\<rparr>)
     | None \<Rightarrow> Err MaxAdminsReached))"

definition remove_admin :: "pubkey \<Rightarrow> pubkey \<Rightarrow> state \<Rightarrow> state result" where
  "remove_admin signer admin_to_remove s =
     require (signer = s_boss s) AnchorConstraint (
     case replace_first admin_to_remove default_pubkey (s_admins s) of
       Some admins \<Rightarrow> Ok (s\<lparr>s_admins := admins\<rparr>)
     | None \<Rightarrow> Err AdminNotFound)"

definition clear_admins :: "pubkey \<Rightarrow> state \<Rightarrow> state result" where
  "clear_admins signer s =
     require (signer = s_boss s) AnchorConstraint (
     Ok (s\<lparr>s_admins := replicate MAX_ADMINS default_pubkey\<rparr>))"

definition set_kill_switch :: "pubkey \<Rightarrow> bool \<Rightarrow> state \<Rightarrow> state result" where
  "set_kill_switch signer enable s =
     (let boss_signed = (s_boss s = signer);
          admin_signed = (signer \<in> set (s_admins s))
      in if enable then
           require (boss_signed \<or> admin_signed) UnauthorizedToEnable
             (Ok (s\<lparr>s_is_killed := True\<rparr>))
         else
           require boss_signed OnlyBossCanDisable (Ok (s\<lparr>s_is_killed := False\<rparr>)))"

definition add_approver :: "pubkey \<Rightarrow> pubkey \<Rightarrow> state \<Rightarrow> state result" where
  "add_approver signer approver s =
     require (signer = s_boss s) AnchorConstraint (
     if approver = default_pubkey then Err InvalidApprover
     else if s_approver1 s = approver \<or> s_approver2 s = approver then Err ApproverAlreadyExists
     else if s_approver1 s = default_pubkey then Ok (s\<lparr>s_approver1 := approver\<rparr>)
     else if s_approver2 s = default_pubkey then Ok (s\<lparr>s_approver2 := approver\<rparr>)
     else Err BothApproversFilled)"

definition remove_approver :: "pubkey \<Rightarrow> pubkey \<Rightarrow> state \<Rightarrow> state result" where
  "remove_approver signer approver s =
     require (signer = s_boss s) AnchorConstraint (
     if approver = default_pubkey then Err InvalidApprover
     else if s_approver1 s = approver then Ok (s\<lparr>s_approver1 := default_pubkey\<rparr>)
     else if s_approver2 s = approver then Ok (s\<lparr>s_approver2 := default_pubkey\<rparr>)
     else Err NotAnApprover)"

definition set_worker :: "pubkey \<Rightarrow> pubkey \<Rightarrow> state \<Rightarrow> state result" where
  "set_worker signer new_worker s =
     require (signer = s_boss s) AnchorConstraint (
     require (new_worker \<noteq> s_worker s) NoChange (
     Ok (s\<lparr>s_worker := new_worker\<rparr>)))"

text \<open>\<open>offer_token_out_mint\<close> is the field of the offer account loaded at \<open>offer_key\<close>.\<close>

definition set_main_offer :: "pubkey \<Rightarrow> pubkey \<Rightarrow> pubkey \<Rightarrow> state \<Rightarrow> state result" where
  "set_main_offer signer offer_key offer_token_out_mint s =
     require (signer = s_boss s) AnchorConstraint (
     require (offer_token_out_mint = s_onyc_mint s) InvalidTokenOutMint (
     require (offer_key \<noteq> s_main_offer s) NoChange (
     Ok (s\<lparr>s_main_offer := offer_key\<rparr>))))"

definition set_onyc_mint :: "pubkey \<Rightarrow> pubkey \<Rightarrow> state \<Rightarrow> state result" where
  "set_onyc_mint signer mint s =
     require (signer = s_boss s) AnchorConstraint (Ok (s\<lparr>s_onyc_mint := mint\<rparr>))"

definition configure_max_supply :: "pubkey \<Rightarrow> u64 \<Rightarrow> state \<Rightarrow> state result" where
  "configure_max_supply signer max_supply s =
     require (signer = s_boss s) AnchorConstraint (Ok (s\<lparr>s_max_supply := max_supply\<rparr>))"

definition configure_max_mint_amount :: "pubkey \<Rightarrow> u64 \<Rightarrow> state \<Rightarrow> state result" where
  "configure_max_mint_amount signer max_mint_amount s =
     require (signer = s_boss s) AnchorConstraint
       (Ok (s\<lparr>s_max_mint_amount := max_mint_amount\<rparr>))"

definition authorize_targeted_disable :: "state \<Rightarrow> pubkey \<Rightarrow> bool \<Rightarrow> unit result" where
  "authorize_targeted_disable s signer disabled =
     (let boss_signed = (s_boss s = signer);
          admin_signed = (signer \<in> set (s_admins s))
      in if disabled then require (boss_signed \<or> admin_signed) UnauthorizedToDisableOffer (Ok ())
         else require boss_signed OnlyBossCanEnableOffer (Ok ()))"

text \<open>
  One governance instruction with its signer, for sequences of instructions. \<open>close_state\<close> is
  not among them: it removes the account altogether.
\<close>

datatype gov_op =
    ProposeBoss pubkey pubkey
  | AcceptBoss pubkey
  | AddAdmin pubkey pubkey
  | RemoveAdmin pubkey pubkey
  | ClearAdmins pubkey
  | SetKillSwitch pubkey bool
  | AddApprover pubkey pubkey
  | RemoveApprover pubkey pubkey
  | SetWorker pubkey pubkey
  | SetMainOffer pubkey pubkey pubkey
  | SetOnycMint pubkey pubkey
  | ConfigureMaxSupply pubkey u64
  | ConfigureMaxMintAmount pubkey u64

fun exec_gov :: "gov_op \<Rightarrow> state \<Rightarrow> state result" where
  "exec_gov (ProposeBoss k b) s = propose_boss k b s"
| "exec_gov (AcceptBoss k) s = accept_boss k s"
| "exec_gov (AddAdmin k a) s = add_admin k a s"
| "exec_gov (RemoveAdmin k a) s = remove_admin k a s"
| "exec_gov (ClearAdmins k) s = clear_admins k s"
| "exec_gov (SetKillSwitch k e) s = set_kill_switch k e s"
| "exec_gov (AddApprover k a) s = add_approver k a s"
| "exec_gov (RemoveApprover k a) s = remove_approver k a s"
| "exec_gov (SetWorker k w) s = set_worker k w s"
| "exec_gov (SetMainOffer k a m) s = set_main_offer k a m s"
| "exec_gov (SetOnycMint k m) s = set_onyc_mint k m s"
| "exec_gov (ConfigureMaxSupply k m) s = configure_max_supply k m s"
| "exec_gov (ConfigureMaxMintAmount k m) s = configure_max_mint_amount k m s"

fun gov_signer :: "gov_op \<Rightarrow> pubkey" where
  "gov_signer (ProposeBoss k b) = k"
| "gov_signer (AcceptBoss k) = k"
| "gov_signer (AddAdmin k a) = k"
| "gov_signer (RemoveAdmin k a) = k"
| "gov_signer (ClearAdmins k) = k"
| "gov_signer (SetKillSwitch k e) = k"
| "gov_signer (AddApprover k a) = k"
| "gov_signer (RemoveApprover k a) = k"
| "gov_signer (SetWorker k w) = k"
| "gov_signer (SetMainOffer k a m) = k"
| "gov_signer (SetOnycMint k m) = k"
| "gov_signer (ConfigureMaxSupply k m) = k"
| "gov_signer (ConfigureMaxMintAmount k m) = k"

lemmas gov_op_defs =
  propose_boss_def accept_boss_def add_admin_def remove_admin_def clear_admins_def
  set_kill_switch_def add_approver_def remove_approver_def set_worker_def set_main_offer_def
  set_onyc_mint_def configure_max_supply_def configure_max_mint_amount_def

section \<open>The admin array\<close>

definition live_admins :: "pubkey list \<Rightarrow> pubkey list" where
  "live_admins = filter (\<lambda>a. a \<noteq> default_pubkey)"

lemma replace_first_length: "replace_first x y as = Some bs \<Longrightarrow> length bs = length as"
  by (induction as arbitrary: bs) (auto split: if_splits)

lemma replace_first_split:
  "replace_first x y as = Some bs \<Longrightarrow>
     \<exists>us vs. as = us @ x # vs \<and> bs = us @ y # vs \<and> x \<notin> set us"
proof (induction as arbitrary: bs)
  case (Cons a as)
  show ?case
  proof (cases "a = x")
    case True
    with Cons.prems have "a # as = [] @ x # as \<and> bs = [] @ y # as \<and> x \<notin> set []" by simp
    then show ?thesis by blast
  next
    case False
    with Cons.prems obtain cs where "replace_first x y as = Some cs" and bs: "bs = a # cs" by auto
    with Cons.IH obtain us vs where "as = us @ x # vs" "cs = us @ y # vs" "x \<notin> set us" by blast
    with bs False have "a # as = (a # us) @ x # vs \<and> bs = (a # us) @ y # vs \<and> x \<notin> set (a # us)"
      by simp
    then show ?thesis by blast
  qed
qed simp

lemma replace_first_at: "x \<notin> set us \<Longrightarrow> replace_first x y (us @ x # vs) = Some (us @ y # vs)"
  by (induction us) auto

lemma replace_first_None_iff: "replace_first x y as = None \<longleftrightarrow> x \<notin> set as"
  by (induction as) auto

section \<open>Well-formed governance state\<close>

text \<open>
  The array keeps its length, no key is stored twice in it, the boss is set, and the two
  approver slots never hold the same key.
\<close>

definition state_wf :: "state \<Rightarrow> bool" where
  "state_wf s \<longleftrightarrow>
     length (s_admins s) = MAX_ADMINS \<and> distinct (live_admins (s_admins s)) \<and>
     s_boss s \<noteq> default_pubkey \<and>
     (s_approver1 s = s_approver2 s \<longrightarrow> s_approver1 s = default_pubkey)"

lemma add_slot_distinct:
  "replace_first default_pubkey k as = Some bs \<Longrightarrow> k \<notin> set as \<Longrightarrow>
   distinct (live_admins as) \<Longrightarrow> distinct (live_admins bs)"
  by (drule replace_first_split) (auto simp: live_admins_def)

lemma remove_slot_distinct:
  "replace_first k default_pubkey as = Some bs \<Longrightarrow>
   distinct (live_admins as) \<Longrightarrow> distinct (live_admins bs)"
  by (drule replace_first_split) (auto simp: live_admins_def split: if_splits)

lemma live_admins_empty [simp]: "live_admins (replicate n default_pubkey) = []"
  by (simp add: live_admins_def)

lemma exec_gov_wf: "state_wf s \<Longrightarrow> exec_gov c s = Ok s' \<Longrightarrow> state_wf s'"
  by (cases c)
    (auto simp: gov_op_defs state_wf_def Let_def require_def
      dest: replace_first_length add_slot_distinct remove_slot_distinct
      split: if_splits option.splits)

interpretation gov: invariant_machine exec_gov state_wf
  by unfold_locales (rule exec_gov_wf)

lemma initialize_wf:
  assumes "initialize l e w pd boss mint bump existing = Ok s" and "boss \<noteq> default_pubkey"
  shows "state_wf s"
  using assms by (auto simp: initialize_def state_wf_def Let_def)

section \<open>Who may change what\<close>

lemma exec_gov_signer:
  "exec_gov c s = Ok s' \<Longrightarrow>
     gov_signer c = s_boss s \<or>
     (gov_signer c = s_proposed_boss s \<and> c = AcceptBoss (gov_signer c)) \<or>
     (gov_signer c \<in> set (s_admins s) \<and> s' = s\<lparr>s_is_killed := True\<rparr>)"
  by (cases c) (auto simp: gov_op_defs require_def Let_def split: if_splits)

lemma exec_gov_boss_change:
  "exec_gov c s = Ok s' \<Longrightarrow> s_boss s' \<noteq> s_boss s \<Longrightarrow>
     c = AcceptBoss (s_proposed_boss s) \<and> s_boss s' = s_proposed_boss s \<and>
     s_proposed_boss s \<noteq> default_pubkey"
  by (cases c) (auto simp: gov_op_defs require_def Let_def split: if_splits option.splits)

lemma exec_gov_proposal_change:
  "exec_gov c s = Ok s' \<Longrightarrow> s_proposed_boss s' \<noteq> s_proposed_boss s \<Longrightarrow>
     c = ProposeBoss (s_boss s) (s_proposed_boss s') \<or> s_proposed_boss s' = default_pubkey"
  by (cases c) (auto simp: gov_op_defs require_def Let_def split: if_splits option.splits)

lemma exec_gov_kill_change:
  "exec_gov c s = Ok s' \<Longrightarrow> s_is_killed s' \<noteq> s_is_killed s \<Longrightarrow>
     c = SetKillSwitch (gov_signer c) (s_is_killed s') \<and>
     (gov_signer c = s_boss s \<or> (s_is_killed s' \<and> gov_signer c \<in> set (s_admins s)))"
  by (cases c) (auto simp: gov_op_defs require_def Let_def split: if_splits option.splits)

text \<open>
  A run is taken apart at the instructions that hand the office over. A pending proposal always
  goes back to a proposal by the boss who is still in office, because an acceptance clears it.
\<close>

lemma commit_cases: "commit s r = s \<or> r = Ok (commit s r)"
  by (cases r) auto

lemma run_snoc: "run_ops exec_gov (cs @ [c]) s =
    commit (run_ops exec_gov cs s) (exec_gov c (run_ops exec_gov cs s))"
  by (simp add: run_ops_append)

lemma exec_gov_boss_clears:
  "exec_gov c s = Ok s' \<Longrightarrow> s_boss s' \<noteq> s_boss s \<Longrightarrow> s_proposed_boss s' = default_pubkey"
  by (cases c) (auto simp: gov_op_defs require_def Let_def split: if_splits option.splits)

definition proposed_in_office :: "gov_op list \<Rightarrow> state \<Rightarrow> bool" where
  "proposed_in_office cs s \<longleftrightarrow> (\<exists>cs1 cs2.
     cs = cs1 @ ProposeBoss (s_boss (run_ops exec_gov cs1 s))
                  (s_proposed_boss (run_ops exec_gov cs s)) # cs2 \<and>
     s_boss (run_ops exec_gov cs1 s) = s_boss (run_ops exec_gov cs s))"

definition handed_over :: "gov_op list \<Rightarrow> state \<Rightarrow> pubkey \<Rightarrow> bool" where
  "handed_over cs s new \<longleftrightarrow> (\<exists>cs1 cs2 cs3 old.
     cs = cs1 @ ProposeBoss old new # cs2 @ AcceptBoss new # cs3 \<and>
     s_boss (run_ops exec_gov cs1 s) = old \<and>
     s_boss (run_ops exec_gov (cs1 @ ProposeBoss old new # cs2) s) = old \<and>
     s_proposed_boss (run_ops exec_gov (cs1 @ ProposeBoss old new # cs2) s) = new \<and>
     new \<noteq> default_pubkey)"

lemma proposed_in_office_step:
  assumes "exec_gov c (run_ops exec_gov cs s) = Ok t'" and "s_proposed_boss t' \<noteq> default_pubkey"
    and IH: "s_proposed_boss (run_ops exec_gov cs s) = default_pubkey \<or> proposed_in_office cs s"
  shows "proposed_in_office (cs @ [c]) s"
proof -
  let ?t = "run_ops exec_gov cs s"
  have run: "run_ops exec_gov (cs @ [c]) s = t'" by (simp add: run_snoc assms(1))
  have boss: "s_boss t' = s_boss ?t" using exec_gov_boss_clears [OF assms(1)] assms(2) by blast
  show ?thesis
  proof (cases "s_proposed_boss t' = s_proposed_boss ?t")
    case True
    with IH assms(2) obtain cs1 cs2 where
      "cs = cs1 @ ProposeBoss (s_boss (run_ops exec_gov cs1 s)) (s_proposed_boss ?t) # cs2"
      "s_boss (run_ops exec_gov cs1 s) = s_boss ?t"
      unfolding proposed_in_office_def by auto
    with True boss show ?thesis
      unfolding proposed_in_office_def run by (intro exI [of _ cs1] exI [of _ "cs2 @ [c]"]) simp
  next
    case False
    with exec_gov_proposal_change [OF assms(1)] assms(2)
    have "c = ProposeBoss (s_boss ?t) (s_proposed_boss t')" by blast
    with boss show ?thesis
      unfolding proposed_in_office_def run by (intro exI [of _ cs] exI [of _ "[]"]) simp
  qed
qed

lemma run_proposed_in_office:
  assumes "s_proposed_boss s = default_pubkey"
  shows "s_proposed_boss (run_ops exec_gov cs s) = default_pubkey \<or> proposed_in_office cs s"
proof (induction cs rule: rev_induct)
  case Nil
  with assms show ?case by simp
next
  case (snoc c cs)
  show ?case
  proof (cases "exec_gov c (run_ops exec_gov cs s)")
    case (Ok t')
    with proposed_in_office_step [OF Ok _ snoc.IH] show ?thesis by (auto simp: run_snoc)
  next
    case (Err x)
    then have e: "run_ops exec_gov (cs @ [c]) s = run_ops exec_gov cs s" by (simp add: run_snoc)
    from snoc.IH show ?thesis unfolding proposed_in_office_def e
      by (metis append_Cons append_assoc)
  qed
qed

lemma accepted_handover:
  assumes "proposed_in_office cs s"
    and "exec_gov (AcceptBoss new) (run_ops exec_gov cs s) = Ok t'"
  shows "handed_over (cs @ [AcceptBoss new]) s new"
proof -
  let ?t = "run_ops exec_gov cs s"
  from assms(2) have new: "new = s_proposed_boss ?t" "new \<noteq> default_pubkey"
    by (auto simp: accept_boss_def require_def split: if_splits)
  from assms(1) obtain cs1 cs2 where
    "cs = cs1 @ ProposeBoss (s_boss (run_ops exec_gov cs1 s)) (s_proposed_boss ?t) # cs2"
    "s_boss (run_ops exec_gov cs1 s) = s_boss ?t"
    unfolding proposed_in_office_def by blast
  with new show ?thesis unfolding handed_over_def
    by (intro exI [of _ cs1] exI [of _ cs2] exI [of _ "[]"] exI [of _ "s_boss ?t"]) simp
qed

lemma handed_over_snoc: "handed_over cs s new \<Longrightarrow> handed_over (cs @ [c]) s new"
  unfolding handed_over_def by (metis append_Cons append_assoc)

lemma run_handover:
  assumes "s_proposed_boss s = default_pubkey"
  shows "s_boss (run_ops exec_gov cs s) = s_boss s \<or>
    handed_over cs s (s_boss (run_ops exec_gov cs s))"
proof (induction cs rule: rev_induct)
  case Nil
  show ?case by simp
next
  case (snoc c cs)
  let ?t = "run_ops exec_gov cs s" and ?t' = "run_ops exec_gov (cs @ [c]) s"
  show ?case
  proof (cases "s_boss ?t' = s_boss ?t")
    case True
    with snoc.IH handed_over_snoc show ?thesis by auto
  next
    case False
    then obtain t' where ok: "exec_gov c ?t = Ok t'" and t': "?t' = t'"
      by (cases "exec_gov c ?t") (auto simp: run_snoc)
    from exec_gov_boss_change [OF ok] False t'
    have c: "c = AcceptBoss (s_boss t')" "s_proposed_boss ?t \<noteq> default_pubkey" by auto
    with run_proposed_in_office [OF assms, of cs] accepted_handover ok t' show ?thesis by auto
  qed
qed

section \<open>Properties\<close>

text \<open>Governance state stays well formed: after \<open>initialize\<close> by a real key, every sequence
  of governance instructions, successful or rejected, leaves an admin array of exactly
  \<open>MAX_ADMINS\<close> slots without duplicates, a boss that is set, and two different approvers.\<close>

theorem governance_stays_well_formed:
  assumes "initialize bpf_loader expected_pd owner program_data boss onyc_mint bump None = Ok s"
    and "boss \<noteq> default_pubkey"
  shows "state_wf (run_ops exec_gov cs s)"
  using assms by (intro gov.run_inv initialize_wf)

theorem governance_stays_well_formed_witness:
  "state_wf (run_ops exec_gov [AddAdmin 7 9, AddAdmin 7 9, ProposeBoss 7 8, AcceptBoss 8]
     (zero_state\<lparr>s_boss := 7, s_onyc_mint := 5, s_bump := 255\<rparr>))"
  by (rule governance_stays_well_formed
      [where bpf_loader = 1 and expected_pd = 2 and owner = 1 and boss = 7 and onyc_mint = 5 and
        bump = 255 and program_data =
          "Some \<lparr>pd_key = 2, pd_owner = 1, pd_content = Some (ProgramData (Some 7))\<rparr>"])
    (simp_all add: initialize_def get_upgrade_authority_def zero_state_def Let_def
      default_pubkey_def)

text \<open>C13: Two-step handover: along any run that starts without a pending proposal, a boss at
  the end who is not the starting boss was proposed by the boss then in office, in a proposal
  that succeeded, and later accepted, successfully, while that proposal was pending and the
  proposer was still in office.\<close>

theorem boss_needs_proposal_and_acceptance:
  assumes "s_proposed_boss s = default_pubkey"
    and "s_boss (run_ops exec_gov cs s) = new" and "new \<noteq> s_boss s"
  shows "\<exists>cs1 cs2 cs3 old s1 s2.
    cs = cs1 @ ProposeBoss old new # cs2 @ AcceptBoss new # cs3 \<and>
    s_boss (run_ops exec_gov cs1 s) = old \<and>
    exec_gov (ProposeBoss old new) (run_ops exec_gov cs1 s) = Ok s1 \<and>
    s_boss (run_ops exec_gov cs2 s1) = old \<and> s_proposed_boss (run_ops exec_gov cs2 s1) = new \<and>
    exec_gov (AcceptBoss new) (run_ops exec_gov cs2 s1) = Ok s2 \<and> s_boss s2 = new"
proof -
  from run_handover [OF assms(1), of cs] assms(2,3) obtain cs1 cs2 cs3 old where
    cs: "cs = cs1 @ ProposeBoss old new # cs2 @ AcceptBoss new # cs3"
    and old: "s_boss (run_ops exec_gov cs1 s) = old" and new: "new \<noteq> default_pubkey"
    and mid: "s_boss (run_ops exec_gov (cs1 @ ProposeBoss old new # cs2) s) = old"
      "s_proposed_boss (run_ops exec_gov (cs1 @ ProposeBoss old new # cs2) s) = new"
    unfolding handed_over_def by auto
  define s1 where "s1 = run_ops exec_gov cs1 s \<lparr>s_proposed_boss := new\<rparr>"
  have ok: "exec_gov (ProposeBoss old new) (run_ops exec_gov cs1 s) = Ok s1"
    using old new by (simp add: propose_boss_def s1_def)
  then have "run_ops exec_gov (cs1 @ ProposeBoss old new # cs2) s = run_ops exec_gov cs2 s1"
    by (simp add: run_ops_append)
  with mid have mid': "s_boss (run_ops exec_gov cs2 s1) = old"
    "s_proposed_boss (run_ops exec_gov cs2 s1) = new" by simp_all
  with new obtain s2 where "exec_gov (AcceptBoss new) (run_ops exec_gov cs2 s1) = Ok s2"
    "s_boss s2 = new" by (simp add: accept_boss_def)
  with cs old ok mid' show ?thesis by blast
qed

theorem boss_needs_proposal_and_acceptance_witness:
  "\<exists>cs1 cs2 cs3 old s1 s2.
    [ProposeBoss 9 9, ProposeBoss 7 8, AcceptBoss 9, AcceptBoss 8] =
      cs1 @ ProposeBoss old 8 # cs2 @ AcceptBoss 8 # cs3 \<and>
    s_boss (run_ops exec_gov cs1 (zero_state\<lparr>s_boss := 7\<rparr>)) = old \<and>
    exec_gov (ProposeBoss old 8) (run_ops exec_gov cs1 (zero_state\<lparr>s_boss := 7\<rparr>)) = Ok s1 \<and>
    s_boss (run_ops exec_gov cs2 s1) = old \<and> s_proposed_boss (run_ops exec_gov cs2 s1) = 8 \<and>
    exec_gov (AcceptBoss 8) (run_ops exec_gov cs2 s1) = Ok s2 \<and> s_boss s2 = 8"
  by (rule boss_needs_proposal_and_acceptance)
    (simp_all add: gov_op_defs default_pubkey_def zero_state_def)

text \<open>Only the boss can lift the kill switch, and only the boss or a listed admin can set
  it; no other governance instruction touches it.\<close>

theorem kill_switch_authority:
  assumes "exec_gov c s = Ok s'" and "s_is_killed s' \<noteq> s_is_killed s"
  shows "c = SetKillSwitch (gov_signer c) (s_is_killed s') \<and>
    (if s_is_killed s' then gov_signer c = s_boss s \<or> gov_signer c \<in> set (s_admins s)
     else gov_signer c = s_boss s)"
  using exec_gov_kill_change [OF assms] by auto

theorem kill_switch_authority_witness:
  "SetKillSwitch 9 True = SetKillSwitch (gov_signer (SetKillSwitch 9 True)) True \<and>
   (9::nat) \<in> {9, 0}"
proof -
  let ?s = "zero_state\<lparr>s_boss := 7, s_admins := [9, 0]\<rparr>"
  have "exec_gov (SetKillSwitch 9 True) ?s = Ok (?s\<lparr>s_is_killed := True\<rparr>)"
    by (simp add: set_kill_switch_def Let_def)
  from kill_switch_authority [OF this] show ?thesis by (simp add: zero_state_def)
qed

text \<open>An admin that was added can be removed again, and the pair of instructions is a round
  trip on the array: the slot is empty again, the other slots are unchanged, and the removed
  key is no longer an admin.\<close>

theorem add_then_remove_admin:
  assumes "add_admin b k s = Ok s'" and "k \<noteq> default_pubkey"
  shows "k \<in> set (s_admins s') \<and> remove_admin b k s' = Ok s"
proof -
  from assms(1) have k: "k \<notin> set (s_admins s)" and b: "b = s_boss s" by (auto simp: add_admin_def)
  from assms(1) obtain us vs where s: "s_admins s = us @ default_pubkey # vs"
    and s': "s' = s\<lparr>s_admins := us @ k # vs\<rparr>"
    by (auto simp: add_admin_def split: option.splits dest!: replace_first_split)
  from k s have "replace_first k default_pubkey (us @ k # vs) = Some (us @ default_pubkey # vs)"
    by (intro replace_first_at) simp
  with s s' b show ?thesis by (simp add: remove_admin_def flip: s)
qed

theorem add_then_remove_admin_witness:
  "remove_admin 7 9 (zero_state\<lparr>s_boss := 7, s_admins := [3, 9, 0]\<rparr>) =
     Ok (zero_state\<lparr>s_boss := 7, s_admins := [3, 0, 0]\<rparr>)"
  using add_then_remove_admin
    [of 7 9 "zero_state\<lparr>s_boss := 7, s_admins := [3, 0, 0]\<rparr>"
        "zero_state\<lparr>s_boss := 7, s_admins := [3, 9, 0]\<rparr>"]
  by (simp add: add_admin_def default_pubkey_def)

text \<open>\<open>set_onyc_mint\<close> replaces the ONyc mint and leaves \<open>main_offer\<close> as it is, so the
  requirement that the main offer sells the ONyc mint, which \<open>set_main_offer\<close> enforces, does
  not survive the change of the mint.\<close>

theorem set_onyc_mint_keeps_main_offer:
  assumes "set_main_offer b offer_key out_mint s = Ok s1" and "set_onyc_mint b m s1 = Ok s2"
    and "m \<noteq> out_mint"
  shows "s_main_offer s2 = offer_key \<and> s_onyc_mint s2 \<noteq> out_mint"
proof -
  from assms(1) have s1: "s1 = s\<lparr>s_main_offer := offer_key\<rparr>" by (simp add: set_main_offer_def)
  from assms(2) have s2: "s2 = s1\<lparr>s_onyc_mint := m\<rparr>" by (simp add: set_onyc_mint_def)
  show ?thesis using assms(3) by (simp add: s1 s2)
qed

theorem set_onyc_mint_keeps_main_offer_witness:
  "s_main_offer (zero_state\<lparr>s_boss := 7, s_onyc_mint := 6, s_main_offer := 11\<rparr>) = 11 \<and>
   s_onyc_mint (zero_state\<lparr>s_boss := 7, s_onyc_mint := 6, s_main_offer := 11\<rparr>) \<noteq> 5"
  using set_onyc_mint_keeps_main_offer
    [of 7 11 5 "zero_state\<lparr>s_boss := 7, s_onyc_mint := 5\<rparr>"
        "zero_state\<lparr>s_boss := 7, s_onyc_mint := 5, s_main_offer := 11\<rparr>" 6
        "zero_state\<lparr>s_boss := 7, s_onyc_mint := 6, s_main_offer := 11\<rparr>"]
  by (simp add: set_main_offer_def set_onyc_mint_def zero_state_def default_pubkey_def)

end
