(* ===== verification/Math_Utils.thy ===== *)
theory Math_Utils
  imports Prelude
begin

text \<open>
  The fixed-point helpers of \<open>utils/math_utils.rs\<close>: ceiling division, basis points,
  multiply-and-divide with half-up rounding and exponentiation by squaring, each with the
  exact condition under which it returns a value, and the accuracy of the rounded power.
\<close>

section \<open>Definitions\<close>

definition ceil_div_u128 :: "u128 \<Rightarrow> u128 \<Rightarrow> u128 option" where
  "ceil_div_u128 numerator denominator =
     (if denominator = 0 then None
      else do {
        d \<leftarrow> checked_sub denominator 1;
        adjusted \<leftarrow> checked_add u128_max numerator d;
        checked_div adjusted denominator
      })"

definition mul_basis_points_floor :: "u64 \<Rightarrow> u16 \<Rightarrow> u64 option" where
  "mul_basis_points_floor amount basis_points =
     do {
       m \<leftarrow> checked_mul u128_max amount basis_points;
       q \<leftarrow> checked_div m 10000;
       try_from_u64 q
     }"

definition mul_div_round_u128 :: "u128 \<Rightarrow> u128 \<Rightarrow> u128 \<Rightarrow> u128 option" where
  "mul_div_round_u128 a b denom =
     do {
       prod \<leftarrow> checked_mul u128_max a b;
       adj \<leftarrow> checked_add u128_max prod (denom div 2);
       checked_div adj denom
     }"

text \<open>The loop of \<open>pow_fixed\<close>: \<open>acc\<close>, \<open>base\<close> and \<open>exp\<close> are its variables.\<close>

fun pow_fixed_loop :: "u128 \<Rightarrow> u128 \<Rightarrow> u128 \<Rightarrow> u64 \<Rightarrow> u128 option" where
  "pow_fixed_loop scale acc base expn =
     (if expn = 0 then Some acc
      else do {
        acc' \<leftarrow> (if odd expn then mul_div_round_u128 acc base scale else Some acc);
        base' \<leftarrow> (if expn div 2 > 0 then mul_div_round_u128 base base scale else Some base);
        pow_fixed_loop scale acc' base' (expn div 2)
      })"

definition pow_fixed :: "u128 \<Rightarrow> u64 \<Rightarrow> u128 \<Rightarrow> u128 option" where
  "pow_fixed base expn scale = pow_fixed_loop scale scale base expn"

declare pow_fixed_loop.simps [simp del]

section \<open>When the helpers return, and what\<close>

lemma ceil_div_u128_eq_Some:
  "ceil_div_u128 n d = Some q \<longleftrightarrow>
     d \<noteq> 0 \<and> n + (d - 1) \<le> u128_max \<and> q = (n + (d - 1)) div d"
  by (auto simp: ceil_div_u128_def bind_eq_Some_conv)

lemma ceil_div_bounds:
  assumes "0 < (d::nat)" and "q = (n + (d - 1)) div d"
  shows "n \<le> q * d" and "q * d < n + d"
proof -
  have e: "q * d + (n + (d - 1)) mod d = n + (d - 1)"
    using assms(2) by simp
  have "(n + (d - 1)) mod d < d" using assms(1) by simp
  with e assms(1) show "n \<le> q * d" by linarith
  from e assms(1) show "q * d < n + d" by linarith
qed

lemma ceil_div_le_self:
  assumes "n \<le> m * d" and "0 < (d::nat)"
  shows "(n + (d - 1)) div d \<le> m"
proof -
  have "((n + (d - 1)) div d) * d < n + d" using ceil_div_bounds(2) [OF assms(2)] by blast
  also have "\<dots> \<le> (m + 1) * d" using assms(1) by (simp add: algebra_simps)
  finally have "((n + (d - 1)) div d) * d < (m + 1) * d" .
  then have "(n + (d - 1)) div d < m + 1" by (simp only: mult_less_cancel2)
  then show ?thesis by linarith
qed

lemma mul_basis_points_floor_eq_Some:
  assumes "amount \<le> u64_max" and "bps \<le> 10000"
  shows "mul_basis_points_floor amount bps = Some (amount * bps div 10000)"
proof -
  have "amount * bps div 10000 \<le> amount" by (rule mul_div_le) (use assms in simp)
  moreover have "amount * bps \<le> u128_max"
    using assms by (intro u64_mul_fits_u128) (simp_all add: int_defs)
  ultimately show ?thesis
    using assms by (simp add: mul_basis_points_floor_def bind_eq_Some_conv)
qed

lemma mul_div_round_eq_Some:
  "mul_div_round_u128 a b d = Some r \<longleftrightarrow>
     d \<noteq> 0 \<and> a * b + d div 2 \<le> u128_max \<and> r = (a * b + d div 2) div d"
  by (auto simp: mul_div_round_u128_def bind_eq_Some_conv)

lemma mul_div_round_bounds:
  assumes "mul_div_round_u128 a b d = Some r"
  shows "r * d \<le> a * b + d div 2" and "a * b + d div 2 < r * d + d"
proof -
  from assms have d: "0 < d" and r: "r = (a * b + d div 2) div d"
    by (auto simp: mul_div_round_eq_Some)
  then show "r * d \<le> a * b + d div 2" by (simp add: mult.commute)
  show "a * b + d div 2 < r * d + d"
    using d unfolding r by (metis add.commute dividend_less_div_times)
qed

lemma mul_div_round_mono:
  assumes "mul_div_round_u128 a b d = Some r" "mul_div_round_u128 a' b' d = Some r'"
    and "a \<le> a'" "b \<le> b'"
  shows "r \<le> r'"
  using assms by (auto simp: mul_div_round_eq_Some intro!: div_le_mono mult_le_mono)

lemma mul_div_round_ge:
  assumes "mul_div_round_u128 a b d = Some r" and "d \<le> b"
  shows "a \<le> r"
proof -
  from assms have "0 < d" and r: "r = (a * b + d div 2) div d"
    by (auto simp: mul_div_round_eq_Some)
  then have "a = a * d div d" by simp
  also have "\<dots> \<le> r" unfolding r using assms(2)
    by (intro div_le_mono) (simp add: trans_le_add1)
  finally show ?thesis .
qed

lemma mul_div_round_le:
  assumes "mul_div_round_u128 a b d = Some r" and "b \<le> d" and "even d"
  shows "r \<le> a"
proof -
  from assms have d: "0 < d" and r: "r = (a * b + d div 2) div d"
    by (auto simp: mul_div_round_eq_Some)
  from d assms(3) have "d div 2 < d" by simp
  moreover have "a * b \<le> a * d" using assms(2) by (rule mult_le_mono2)
  ultimately have "a * b + d div 2 < a * d + d" by linarith
  then have "a * b + d div 2 < Suc a * d" by simp
  then have "r < Suc a" unfolding r by (simp add: less_mult_imp_div_less)
  then show ?thesis by simp
qed

section \<open>The power loop\<close>

lemma pow_fixed_loop_0 [simp]: "pow_fixed_loop s acc base 0 = Some acc"
  by (simp add: pow_fixed_loop.simps)

text \<open>One turn of the loop, inverted: the shape every induction over the loop uses.\<close>

lemma pow_fixed_loop_step:
  assumes "pow_fixed_loop s acc base e = Some r" and "e \<noteq> 0"
  obtains acc' base' where
    "(if odd e then mul_div_round_u128 acc base s else Some acc) = Some acc'"
    "(if e div 2 > 0 then mul_div_round_u128 base base s else Some base) = Some base'"
    "pow_fixed_loop s acc' base' (e div 2) = Some r"
  using assms by (subst (asm) pow_fixed_loop.simps) (auto simp: bind_eq_Some_conv)

lemma pow_fixed_loop_ge:
  "pow_fixed_loop s acc base e = Some r \<Longrightarrow> s \<le> base \<Longrightarrow> acc \<le> r"
proof (induction e arbitrary: acc base rule: less_induct)
  case (less e)
  show ?case
  proof (cases "e = 0")
    case True
    with less.prems show ?thesis by simp
  next
    case False
    from less.prems(1) False obtain acc' base' where
      a: "(if odd e then mul_div_round_u128 acc base s else Some acc) = Some acc'" and
      b: "(if e div 2 > 0 then mul_div_round_u128 base base s else Some base) = Some base'" and
      r: "pow_fixed_loop s acc' base' (e div 2) = Some r"
      by (rule pow_fixed_loop_step)
    from a less.prems(2) have "acc \<le> acc'"
      by (auto split: if_splits intro: mul_div_round_ge)
    moreover from b less.prems(2) have "s \<le> base'"
      by (auto split: if_splits dest: mul_div_round_ge)
    with less.IH [OF _ r] False have "acc' \<le> r" by simp
    ultimately show ?thesis by simp
  qed
qed

lemma pow_fixed_ge_scale: "pow_fixed base e s = Some r \<Longrightarrow> s \<le> base \<Longrightarrow> s \<le> r"
  unfolding pow_fixed_def by (rule pow_fixed_loop_ge)

lemma pow_fixed_0 [simp]: "pow_fixed base 0 s = Some s"
  by (simp add: pow_fixed_def)

lemma pow_fixed_loop_mono:
  "pow_fixed_loop s acc base e = Some r \<Longrightarrow> pow_fixed_loop s acc' base' e = Some r' \<Longrightarrow>
   acc \<le> acc' \<Longrightarrow> base \<le> base' \<Longrightarrow> r \<le> r'"
proof (induction e arbitrary: acc base acc' base' rule: less_induct)
  case (less e)
  show ?case
  proof (cases "e = 0")
    case True
    with less.prems show ?thesis by simp
  next
    case False
    from less.prems(1) False obtain a1 b1 where
      1: "(if odd e then mul_div_round_u128 acc base s else Some acc) = Some a1"
      "(if e div 2 > 0 then mul_div_round_u128 base base s else Some base) = Some b1"
      "pow_fixed_loop s a1 b1 (e div 2) = Some r"
      by (rule pow_fixed_loop_step)
    from less.prems(2) False obtain a2 b2 where
      2: "(if odd e then mul_div_round_u128 acc' base' s else Some acc') = Some a2"
      "(if e div 2 > 0 then mul_div_round_u128 base' base' s else Some base') = Some b2"
      "pow_fixed_loop s a2 b2 (e div 2) = Some r'"
      by (rule pow_fixed_loop_step)
    have "a1 \<le> a2" using 1(1) 2(1) less.prems(3,4)
      by (auto split: if_splits intro: mul_div_round_mono)
    moreover have "b1 \<le> b2" using 1(2) 2(2) less.prems(4)
      by (auto split: if_splits intro: mul_div_round_mono)
    ultimately show ?thesis using less.IH [OF _ 1(3) 2(3)] False by simp
  qed
qed

lemma pow_fixed_mono_base:
  "pow_fixed base e s = Some r \<Longrightarrow> pow_fixed base' e s = Some r' \<Longrightarrow> base \<le> base' \<Longrightarrow> r \<le> r'"
  unfolding pow_fixed_def by (erule (1) pow_fixed_loop_mono) simp_all

section \<open>Accuracy of the rounded power\<close>

text \<open>
  One rounding changes a product of factors that are at least one by at most half a unit of
  the last place, so by a relative error of at most \<open>1 / (2 * scale)\<close>. The bounds compose
  multiplicatively along the loop.
\<close>

abbreviation half_ulp :: "nat \<Rightarrow> real" where
  "half_ulp s \<equiv> 1 / (2 * real s)"

lemma mul_div_round_relative_error:
  assumes "mul_div_round_u128 a b s = Some r" and "s \<le> a" and "s \<le> b" and "even s"
  shows "real a * (real b / real s) * (1 - half_ulp s) \<le> real r"
    and "real r \<le> real a * (real b / real s) * (1 + half_ulp s)"
proof -
  from assms(1) have s: "0 < s" by (auto simp: mul_div_round_eq_Some)
  obtain h where h: "s = 2 * h" using assms(4) by blast
  have up: "real r * real s \<le> real a * real b + real s / 2"
    using mul_div_round_bounds(1) [OF assms(1)] h
    by (metis (no_types, opaque_lifting) nonzero_mult_div_cancel_left of_nat_add of_nat_le_iff
        of_nat_mult of_nat_numeral zero_neq_numeral)
  have lo: "real a * real b - real s / 2 \<le> real r * real s"
  proof -
    have "a * b \<le> r * s + h"
      using mul_div_round_bounds(2) [OF assms(1)] h by simp
    then have "real (a * b) \<le> real (r * s + h)" by (rule of_nat_mono)
    then show ?thesis using h by simp
  qed
  have "s * s \<le> a * b" using assms(2,3) by (rule mult_le_mono)
  then have "real s * real s \<le> real a * real b" by (metis of_nat_le_iff of_nat_mult)
  then have half: "real s / 2 \<le> real a * real b * half_ulp s"
    using s by (simp add: field_simps)
  have "real a * real b * (1 - half_ulp s) \<le> real r * real s"
    using lo half by (simp add: algebra_simps)
  then show "real a * (real b / real s) * (1 - half_ulp s) \<le> real r"
    using s by (simp add: field_simps)
  have "real r * real s \<le> real a * real b * (1 + half_ulp s)"
    using up half by (simp add: algebra_simps)
  then show "real r \<le> real a * (real b / real s) * (1 + half_ulp s)"
    using s by (simp add: field_simps)
qed

text \<open>
  The exact value at a loop state is \<open>acc * (base / scale) ^ e\<close>. Half the exponent is spent
  on the squared base, whose error counts that many times, and at most one error goes into
  the accumulator, so \<open>2 * e\<close> roundings bound the whole loop.
\<close>

lemma pow_loop_upper:
  fixes u :: real
  assumes "1 \<le> u" and "0 \<le> A" and "0 \<le> x" and "0 \<le> y"
    and a: "A' \<le> A * x ^ o' * u ^ o'"
    and b: "y \<le> x * x * u"
    and r: "R \<le> A' * y ^ h * u ^ (2 * h)"
    and e: "e = 2 * h + o'"
  shows "R \<le> A * x ^ e * u ^ (2 * e)"
proof -
  have bh: "y ^ h \<le> (x * x * u) ^ h" using b assms(4) by (intro power_mono)
  have "R \<le> (A * x ^ o' * u ^ o') * (x * x * u) ^ h * u ^ (2 * h)"
    by (rule order_trans [OF r]) (intro mult_right_mono mult_mono a bh; use assms in simp)
  also have "\<dots> = A * x ^ e * u ^ (3 * h + o')"
    by (simp add: e power_mult_distrib power_add power_mult power2_eq_square power3_eq_cube)
  also have "\<dots> \<le> A * x ^ e * u ^ (2 * e)"
    using assms e by (intro mult_left_mono power_increasing) simp_all
  finally show ?thesis .
qed

lemma pow_loop_lower:
  fixes v :: real
  assumes "v \<le> 1" and "0 \<le> v" and "0 \<le> A" and "0 \<le> x" and "0 \<le> A'"
    and a: "A * x ^ o' * v ^ o' \<le> A'"
    and b: "x * x * v \<le> y"
    and r: "A' * y ^ h * v ^ (2 * h) \<le> R"
    and e: "e = 2 * h + o'"
  shows "A * x ^ e * v ^ (2 * e) \<le> R"
proof -
  have bh: "(x * x * v) ^ h \<le> y ^ h" using b assms by (intro power_mono) simp_all
  have "A * x ^ e * v ^ (2 * e) \<le> A * x ^ e * v ^ (3 * h + o')"
    using assms e by (intro mult_left_mono power_decreasing) simp_all
  also have "\<dots> = (A * x ^ o' * v ^ o') * (x * x * v) ^ h * v ^ (2 * h)"
    by (simp add: e power_mult_distrib power_add power_mult power2_eq_square power3_eq_cube)
  also have "\<dots> \<le> A' * y ^ h * v ^ (2 * h)"
    by (intro mult_right_mono mult_mono a bh; use assms in simp)
  also note r
  finally show ?thesis .
qed

lemma pow_fixed_loop_accuracy:
  assumes "even s" and "0 < s"
  shows "pow_fixed_loop s acc base e = Some r \<Longrightarrow> s \<le> acc \<Longrightarrow> s \<le> base \<Longrightarrow>
    real acc * (real base / real s) ^ e * (1 - half_ulp s) ^ (2 * e) \<le> real r \<and>
    real r \<le> real acc * (real base / real s) ^ e * (1 + half_ulp s) ^ (2 * e)"
proof (induction e arbitrary: acc base rule: less_induct)
  case (less e)
  show ?case
  proof (cases "e = 0")
    case True
    with less.prems show ?thesis by simp
  next
    case False
    define o' where "o' = e mod 2"
    have e: "e = 2 * (e div 2) + o'" by (simp add: o'_def)
    have "1 \<le> 2 * real s" using assms(2) by simp
    then have eps: "1 \<le> 1 + half_ulp s" "1 - half_ulp s \<le> 1" "0 \<le> 1 - half_ulp s"
      by (simp_all add: field_simps)
    from less.prems(1) False obtain acc' base' where
      a: "(if odd e then mul_div_round_u128 acc base s else Some acc) = Some acc'" and
      b: "(if e div 2 > 0 then mul_div_round_u128 base base s else Some base) = Some base'" and
      r: "pow_fixed_loop s acc' base' (e div 2) = Some r"
      by (rule pow_fixed_loop_step)
    have "acc \<le> acc'" "base \<le> base'"
      using a b less.prems(3) by (auto split: if_splits intro: mul_div_round_ge)
    then have IH:
      "real acc' * (real base' / real s) ^ (e div 2) * (1 - half_ulp s) ^ (2 * (e div 2)) \<le> real r"
      "real r \<le> real acc' * (real base' / real s) ^ (e div 2) * (1 + half_ulp s) ^ (2 * (e div 2))"
      using less.IH [OF _ r] less.prems False by (auto intro: order_trans)
    have acc: "real acc * (real base / real s) ^ o' * (1 - half_ulp s) ^ o' \<le> real acc'"
      "real acc' \<le> real acc * (real base / real s) ^ o' * (1 + half_ulp s) ^ o'"
      using a less.prems(2,3) assms(1) mul_div_round_relative_error [of acc base s acc']
      by (auto simp: o'_def odd_iff_mod_2_eq_one even_iff_mod_2_eq_zero split: if_splits)
    show ?thesis
    proof (cases "e div 2 > 0")
      case True
      with b have "mul_div_round_u128 base base s = Some base'" by simp
      note step = mul_div_round_relative_error [OF this less.prems(3,3) assms(1)]
      have "(real base / real s) * (real base / real s) * (1 - half_ulp s) \<le> real base' / real s"
        "real base' / real s \<le> (real base / real s) * (real base / real s) * (1 + half_ulp s)"
        using step [THEN divide_right_mono, of "real s"] by (simp_all add: mult.assoc)
      then show ?thesis
        using pow_loop_upper [OF eps(1) _ _ _ acc(2) _ IH(2) e]
          pow_loop_lower [OF eps(2,3) _ _ _ acc(1) _ IH(1) e] by simp
    next
      case h: False
      with r e have "acc' = r" "e = o'" by auto
      moreover have "(1 + half_ulp s) ^ e \<le> (1 + half_ulp s) ^ (2 * e)"
        "(1 - half_ulp s) ^ (2 * e) \<le> (1 - half_ulp s) ^ e"
        using eps by (auto intro: power_increasing power_decreasing simp del: divide_le_eq_1)
      ultimately show ?thesis using acc
        by (auto intro: order_trans [OF mult_left_mono] order_trans [OF _ mult_left_mono])
    qed
  qed
qed

lemma pow_fixed_accuracy:
  assumes "pow_fixed base e s = Some r" and "even s" and "0 < s" and "s \<le> base"
  shows "real s * (real base / real s) ^ e * (1 - half_ulp s) ^ (2 * e) \<le> real r"
    and "real r \<le> real s * (real base / real s) ^ e * (1 + half_ulp s) ^ (2 * e)"
  using pow_fixed_loop_accuracy [OF assms(2,3), of s base e r] assms(1,4)
  by (simp_all add: pow_fixed_def)

end
