(* ===== verification/Offer_Pricing.thy ===== *)
theory Offer_Pricing
  imports Math_Utils
begin

text \<open>
  Offers and their prices: the \<open>Offer\<close> and \<open>OfferVector\<close> accounts
  (\<open>offer/offer_state.rs\<close>), the choice of the active vector and the stepped, daily
  compounded price (\<open>offer/offer_utils.rs\<close>), the derived valuations
  (\<open>market_info/offer_valuation_utils.rs\<close>) and the APY (\<open>market_info/get_apy.rs\<close>).
\<close>

section \<open>Accounts\<close>

definition MAX_VECTORS :: nat where [const_defs]: "MAX_VECTORS = 10"

record offer_vector =
  v_start_time :: u64
  v_base_time :: u64
  v_base_price :: u64
  v_apr :: u64
  v_price_fix_duration :: u64

definition default_vector :: offer_vector where
  "default_vector = \<lparr>v_start_time = 0, v_base_time = 0, v_base_price = 0, v_apr = 0,
     v_price_fix_duration = 0\<rparr>"

record offer =
  o_token_in_mint :: pubkey
  o_token_out_mint :: pubkey
  o_vectors :: "offer_vector list"
  o_fee_basis_points :: u16
  o_bump :: u8
  o_needs_approval :: u8
  o_allow_permissionless :: u8
  o_disabled :: u8
  o_fee_basis_points_permissionless :: u16

definition needs_approval :: "offer \<Rightarrow> bool" where
  "needs_approval offer \<longleftrightarrow> o_needs_approval offer \<noteq> 0"

definition set_approval :: "bool \<Rightarrow> offer \<Rightarrow> offer" where
  "set_approval b offer = offer\<lparr>o_needs_approval := (if b then 1 else 0)\<rparr>"

definition allow_permissionless :: "offer \<Rightarrow> bool" where
  "allow_permissionless offer \<longleftrightarrow> o_allow_permissionless offer \<noteq> 0"

definition set_permissionless :: "bool \<Rightarrow> offer \<Rightarrow> offer" where
  "set_permissionless b offer = offer\<lparr>o_allow_permissionless := (if b then 1 else 0)\<rparr>"

definition is_disabled :: "offer \<Rightarrow> bool" where
  "is_disabled offer \<longleftrightarrow> o_disabled offer \<noteq> 0"

definition set_disabled :: "bool \<Rightarrow> offer \<Rightarrow> offer" where
  "set_disabled b offer = offer\<lparr>o_disabled := (if b then 1 else 0)\<rparr>"

definition require_enabled :: "offer \<Rightarrow> unit result" where
  "require_enabled offer = require (\<not> is_disabled offer) OfferDisabled (Ok ())"

definition require_mints :: "offer \<Rightarrow> pubkey \<Rightarrow> pubkey \<Rightarrow> unit result" where
  "require_mints offer token_in_mint token_out_mint =
     require (o_token_in_mint offer = token_in_mint) InvalidTokenInMint (
     require (o_token_out_mint offer = token_out_mint) InvalidTokenOutMint (Ok ()))"

section \<open>Vector selection\<close>

text \<open>
  Rust's \<open>Iterator::max_by_key\<close> returns the last of several maximal elements,
  \<open>min_by_key\<close> the first of several minimal ones.
\<close>

fun max_by_key :: "('a \<Rightarrow> nat) \<Rightarrow> 'a list \<Rightarrow> 'a option" where
  "max_by_key f [] = None"
| "max_by_key f (x # xs) =
     (case max_by_key f xs of None \<Rightarrow> Some x | Some y \<Rightarrow> Some (if f x \<le> f y then y else x))"

fun min_by_key :: "('a \<Rightarrow> nat) \<Rightarrow> 'a list \<Rightarrow> 'a option" where
  "min_by_key f [] = None"
| "min_by_key f (x # xs) =
     (case min_by_key f xs of None \<Rightarrow> Some x | Some y \<Rightarrow> Some (if f x \<le> f y then x else y))"

definition find_active_vector_at :: "offer \<Rightarrow> u64 \<Rightarrow> offer_vector result" where
  "find_active_vector_at offer time =
     ok_or (max_by_key v_start_time
              (filter (\<lambda>v. v_start_time v \<noteq> 0 \<and> v_start_time v \<le> time) (o_vectors offer)))
       NoActiveVector"

fun position_from :: "nat \<Rightarrow> ('a \<Rightarrow> bool) \<Rightarrow> 'a list \<Rightarrow> nat option" where
  "position_from i p [] = None"
| "position_from i p (x # xs) = (if p x then Some i else position_from (Suc i) p xs)"

definition find_vector_index_by_start_time :: "offer \<Rightarrow> u64 \<Rightarrow> nat option" where
  "find_vector_index_by_start_time offer start_time =
     position_from 0 (\<lambda>v. v_start_time v = start_time) (o_vectors offer)"

definition find_next_vector_after :: "offer \<Rightarrow> u64 \<Rightarrow> offer_vector option" where
  "find_next_vector_after offer current_time =
     min_by_key v_start_time (filter (\<lambda>v. v_start_time v > current_time) (o_vectors offer))"

definition find_previous_vector :: "offer \<Rightarrow> u64 \<Rightarrow> offer_vector option" where
  "find_previous_vector offer current_vector_start_time =
     max_by_key v_start_time
       (filter (\<lambda>v. v_start_time v \<noteq> 0 \<and> v_start_time v < current_vector_start_time)
         (o_vectors offer))"

section \<open>Prices\<close>

definition INT_SCALE :: u128 where [const_defs]: "INT_SCALE = 1000000000000000000"
definition SECONDS_IN_DAY :: u64 where [const_defs]: "SECONDS_IN_DAY = 86400"
definition APR_SCALE :: u128 where [const_defs]: "APR_SCALE = 1000000"

text \<open>The factor of one day, shared by the price and its callers' proofs.\<close>

definition daily_factor_of :: "u64 \<Rightarrow> u128 result" where
  "daily_factor_of apr =
     and_then (ok_or (checked_mul u128_max INT_SCALE apr) OverflowError) (\<lambda>m.
     and_then (ok_or (checked_add u128_max m ((APR_SCALE * 365) div 2)) OverflowError) (\<lambda>a.
     and_then (ok_or (checked_div a (APR_SCALE * 365)) OverflowError) (\<lambda>daily_increment.
     ok_or (checked_add u128_max INT_SCALE daily_increment) OverflowError)))"

definition calculate_vector_price :: "u64 \<Rightarrow> u64 \<Rightarrow> u64 \<Rightarrow> u64 result" where
  "calculate_vector_price apr base_price elapsed_time =
     (if apr = 0 \<or> elapsed_time = 0 then Ok base_price
      else
        and_then (daily_factor_of apr) (\<lambda>daily_factor.
        let full_days = elapsed_time div SECONDS_IN_DAY;
            remaining_seconds = elapsed_time mod SECONDS_IN_DAY
        in
        and_then (ok_or (pow_fixed daily_factor full_days INT_SCALE) OverflowError)
          (\<lambda>full_day_factor.
        and_then (ok_or (mul_div_round_u128 base_price full_day_factor INT_SCALE) OverflowError)
          (\<lambda>full_day_price.
        if remaining_seconds = 0 then
          if full_day_price > u64_max then Err OverflowError else Ok (as_u64 full_day_price)
        else
          and_then (ok_or (mul_div_round_u128 full_day_price daily_factor INT_SCALE)
              OverflowError) (\<lambda>next_day_price.
          and_then (ok_or (checked_sub next_day_price full_day_price) OverflowError)
            (\<lambda>daily_delta.
          and_then (ok_or (mul_div_round_u128 daily_delta remaining_seconds SECONDS_IN_DAY)
              OverflowError) (\<lambda>partial_day_delta.
          and_then (ok_or (checked_add u128_max full_day_price partial_day_delta) OverflowError)
            (\<lambda>price.
          if price > u64_max then Err OverflowError else Ok (as_u64 price)))))))))"

text \<open>\<open>elapsed_since_start / price_fix_duration\<close> panics for a zero duration.\<close>

definition calculate_step_price_at :: "u64 \<Rightarrow> u64 \<Rightarrow> u64 \<Rightarrow> u64 \<Rightarrow> u64 \<Rightarrow> u64 result" where
  "calculate_step_price_at apr base_price base_time price_fix_duration time =
     require (base_time \<le> time) NoActiveVector (
     let elapsed_since_start = saturating_sub time base_time in
     and_then (ok_or (checked_div elapsed_since_start price_fix_duration) Panic)
       (\<lambda>current_step.
     and_then (ok_or (checked_add u64_max current_step 1) OverflowError) (\<lambda>k.
     and_then (ok_or (checked_mul u64_max k price_fix_duration) OverflowError)
       (\<lambda>step_end_time.
     calculate_vector_price apr base_price step_end_time))))"

definition calculate_current_step_price :: "i64 \<Rightarrow> u64 \<Rightarrow> u64 \<Rightarrow> u64 \<Rightarrow> u64 \<Rightarrow> u64 result" where
  "calculate_current_step_price unix_timestamp apr base_price base_time price_fix_duration =
     calculate_step_price_at apr base_price base_time price_fix_duration
       (i64_as_u64 unix_timestamp)"

section \<open>Valuation\<close>

definition get_active_vector_and_current_price :: "offer \<Rightarrow> u64 \<Rightarrow> (offer_vector \<times> u64) result"
  where
  "get_active_vector_and_current_price offer current_time =
     and_then (find_active_vector_at offer current_time) (\<lambda>active_vector.
     and_then (calculate_step_price_at (v_apr active_vector) (v_base_price active_vector)
         (v_base_time active_vector) (v_price_fix_duration active_vector) current_time)
       (\<lambda>current_price. Ok (active_vector, current_price)))"

definition compute_offer_current_price :: "offer \<Rightarrow> u64 \<Rightarrow> u64 result" where
  "compute_offer_current_price offer current_time =
     and_then (get_active_vector_and_current_price offer current_time) (\<lambda>(_, current_price).
     Ok current_price)"

definition compute_vector_price_at_time :: "offer_vector \<Rightarrow> u64 \<Rightarrow> u64 result" where
  "compute_vector_price_at_time vector at_time =
     calculate_step_price_at (v_apr vector) (v_base_price vector) (v_base_time vector)
       (v_price_fix_duration vector) at_time"

text \<open>The difference of two \<open>u64\<close> always fits an \<open>i128\<close>.\<close>

definition compute_signed_price_delta :: "u64 \<Rightarrow> u64 \<Rightarrow> i64 result" where
  "compute_signed_price_delta current_price previous_price =
     ok_or (try_from_i64 (int current_price - int previous_price)) OverflowError"

record nav_adjustment_snapshot =
  nas_current_price :: u64
  nas_previous_price :: "u64 option"
  nas_adjustment :: i64

definition get_nav_adjustment_snapshot :: "offer \<Rightarrow> offer_vector \<Rightarrow> nav_adjustment_snapshot result"
  where
  "get_nav_adjustment_snapshot offer active_vector =
     and_then (compute_vector_price_at_time active_vector (v_start_time active_vector))
       (\<lambda>current_price.
     case find_previous_vector offer (v_start_time active_vector) of
       Some previous_vector \<Rightarrow>
         and_then (compute_vector_price_at_time previous_vector (v_start_time active_vector))
           (\<lambda>previous_price.
         and_then (compute_signed_price_delta current_price previous_price) (\<lambda>adjustment.
         Ok \<lparr>nas_current_price = current_price, nas_previous_price = Some previous_price,
             nas_adjustment = adjustment\<rparr>))
     | None \<Rightarrow>
         and_then (ok_or (try_from_i64 (int current_price)) OverflowError) (\<lambda>adjustment.
         Ok \<lparr>nas_current_price = current_price, nas_previous_price = None,
             nas_adjustment = adjustment\<rparr>))"

text \<open>\<open>current_step + 1\<close> is an unchecked addition that panics on overflow.\<close>

definition compute_next_price_change_timestamp :: "offer \<Rightarrow> offer_vector \<Rightarrow> u64 \<Rightarrow> u64 result"
  where
  "compute_next_price_change_timestamp offer active_vector current_time =
     (let elapsed_since_base = saturating_sub current_time (v_base_time active_vector) in
      and_then (ok_or (checked_div elapsed_since_base (v_price_fix_duration active_vector)) Panic)
        (\<lambda>current_step.
      and_then (ok_or (checked_add u64_max current_step 1) Panic) (\<lambda>k.
      and_then (ok_or (checked_mul u64_max k (v_price_fix_duration active_vector)) OverflowError)
        (\<lambda>offset.
      and_then (ok_or (checked_add u64_max (v_base_time active_vector) offset) OverflowError)
        (\<lambda>next_interval_timestamp.
      Ok (case find_next_vector_after offer current_time of
            Some vector \<Rightarrow> min next_interval_timestamp (v_start_time vector)
          | None \<Rightarrow> next_interval_timestamp))))))"

record offer_valuation_snapshot =
  ovs_active_vector :: offer_vector
  ovs_current_price :: u64
  ovs_next_price_change_timestamp :: u64

definition get_offer_valuation_snapshot :: "offer \<Rightarrow> u64 \<Rightarrow> offer_valuation_snapshot result" where
  "get_offer_valuation_snapshot offer current_time =
     and_then (get_active_vector_and_current_price offer current_time)
       (\<lambda>(active_vector, current_price).
     and_then (compute_next_price_change_timestamp offer active_vector current_time) (\<lambda>ts.
     Ok \<lparr>ovs_active_vector = active_vector, ovs_current_price = current_price,
         ovs_next_price_change_timestamp = ts\<rparr>))"

definition calculate_apy_from_apr :: "u64 \<Rightarrow> u64 result" where
  "calculate_apy_from_apr apr =
     and_then (ok_or (checked_mul u128_max INT_SCALE apr) Overflow) (\<lambda>num.
     and_then (ok_or (checked_mul u128_max 1000000 365) Overflow) (\<lambda>den.
     and_then (ok_or (checked_add u128_max num (den div 2)) Overflow) (\<lambda>a.
     and_then (ok_or (checked_div a den) DivByZero) (\<lambda>incr.
     and_then (ok_or (checked_add u128_max INT_SCALE incr) Overflow) (\<lambda>base.
     and_then (ok_or (pow_fixed base 365 INT_SCALE) Overflow) (\<lambda>pow.
     and_then (ok_or (checked_sub pow INT_SCALE) Overflow) (\<lambda>apy_int.
     and_then (ok_or (mul_div_round_u128 apy_int 1000000 INT_SCALE) Overflow)
       (\<lambda>apy_scaled_u128.
     if apy_scaled_u128 > u64_max then Err Overflow else Ok (as_u64 apy_scaled_u128)))))))))"

definition get_apy :: "offer \<Rightarrow> i64 \<Rightarrow> u64 result" where
  "get_apy offer unix_timestamp =
     and_then (find_active_vector_at offer (i64_as_u64 unix_timestamp)) (\<lambda>active_vector.
     calculate_apy_from_apr (v_apr active_vector))"

section \<open>The active vector\<close>

lemma max_by_key_None [simp]: "max_by_key f xs = None \<longleftrightarrow> xs = []"
  by (cases xs) (auto split: option.splits)

lemma max_by_key_Some:
  "max_by_key f xs = Some m \<Longrightarrow> m \<in> set xs \<and> (\<forall>x \<in> set xs. f x \<le> f m)"
  by (induction xs arbitrary: m) (fastforce split: option.splits if_splits)+

lemma min_by_key_None [simp]: "min_by_key f xs = None \<longleftrightarrow> xs = []"
  by (cases xs) (auto split: option.splits)

lemma min_by_key_Some:
  "min_by_key f xs = Some m \<Longrightarrow> m \<in> set xs \<and> (\<forall>x \<in> set xs. f m \<le> f x)"
  by (induction xs arbitrary: m) (fastforce split: option.splits if_splits)+

definition eligible :: "u64 \<Rightarrow> offer_vector \<Rightarrow> bool" where
  "eligible time v \<longleftrightarrow> v_start_time v \<noteq> 0 \<and> v_start_time v \<le> time"

lemma find_active_vector_eq:
  "find_active_vector_at offer time =
     ok_or (max_by_key v_start_time (filter (eligible time) (o_vectors offer))) NoActiveVector"
  by (simp add: find_active_vector_at_def eligible_def [abs_def])

lemma find_active_vector_Ok:
  assumes "find_active_vector_at offer time = Ok v"
  shows "v \<in> set (o_vectors offer)" and "eligible time v"
    and "\<And>w. w \<in> set (o_vectors offer) \<Longrightarrow> eligible time w \<Longrightarrow> v_start_time w \<le> v_start_time v"
  using assms by (auto simp: find_active_vector_eq dest!: max_by_key_Some)

lemma find_active_vector_Err:
  "find_active_vector_at offer time = Err e \<longleftrightarrow>
     e = NoActiveVector \<and> (\<forall>v \<in> set (o_vectors offer). \<not> eligible time v)"
  by (cases "max_by_key v_start_time (filter (eligible time) (o_vectors offer))")
    (auto simp: find_active_vector_eq filter_empty_conv dest!: max_by_key_Some)

text \<open>Nothing but the eligible vectors matters: no vector starting in between, no change.\<close>

lemma find_active_vector_stable:
  assumes "t \<le> t'" and "\<And>v. v \<in> set (o_vectors offer) \<Longrightarrow> t < v_start_time v \<Longrightarrow> t' < v_start_time v"
  shows "find_active_vector_at offer t' = find_active_vector_at offer t"
proof -
  have "filter (eligible t') (o_vectors offer) = filter (eligible t) (o_vectors offer)"
    using assms by (intro filter_cong) (force simp: eligible_def)+
  then show ?thesis by (simp add: find_active_vector_eq)
qed

section \<open>The compounded price\<close>

lemma INT_SCALE_simps [simp]: "0 < INT_SCALE" "even INT_SCALE" "INT_SCALE \<noteq> 0"
  by (simp_all add: const_defs)

lemma SECONDS_IN_DAY_simps [simp]: "0 < SECONDS_IN_DAY" "even SECONDS_IN_DAY"
  by (simp_all add: const_defs)

lemma daily_factor_Ok:
  assumes "daily_factor_of apr = Ok f"
  shows "f = INT_SCALE + (INT_SCALE * apr + 182500000) div 365000000" and "INT_SCALE \<le> f"
  using assms by (auto simp: daily_factor_of_def APR_SCALE_def)

lemma daily_factor_total: "apr \<le> u64_max \<Longrightarrow> \<exists>f. daily_factor_of apr = Ok f"
proof -
  assume apr: "apr \<le> u64_max"
  let ?n = "INT_SCALE * apr + 182500000"
  have n: "?n \<le> 20000000000000000000000000000000000000"
    using apr by (simp add: const_defs int_defs)
  moreover have "?n div 365000000 \<le> ?n" by simp
  ultimately have "?n div 365000000 \<le> 20000000000000000000000000000000000000" by linarith
  with n show ?thesis by (simp add: daily_factor_of_def APR_SCALE_def int_defs INT_SCALE_def)
qed

lemma daily_factor_mono:
  "daily_factor_of a = Ok f \<Longrightarrow> daily_factor_of b = Ok g \<Longrightarrow> a \<le> b \<Longrightarrow> f \<le> g"
  by (auto dest!: daily_factor_Ok(1) intro!: div_le_mono)

text \<open>
  A successful price, taken apart: the price at the start of the day, the price one day later,
  and the interpolated part of the difference.
\<close>

definition price_parts :: "u64 \<Rightarrow> u64 \<Rightarrow> u64 \<Rightarrow> u128 \<Rightarrow> u128 \<Rightarrow> u128 \<Rightarrow> u128 \<Rightarrow> bool" where
  "price_parts apr bp el f fdf fdp delta \<longleftrightarrow>
     daily_factor_of apr = Ok f \<and>
     pow_fixed f (el div SECONDS_IN_DAY) INT_SCALE = Some fdf \<and>
     mul_div_round_u128 bp fdf INT_SCALE = Some fdp \<and>
     (if el mod SECONDS_IN_DAY = 0 then delta = 0
      else \<exists>ndp. mul_div_round_u128 fdp f INT_SCALE = Some ndp \<and> fdp \<le> ndp \<and>
        mul_div_round_u128 (ndp - fdp) (el mod SECONDS_IN_DAY) SECONDS_IN_DAY = Some delta)"

lemma vector_price_parts:
  assumes "calculate_vector_price apr bp el = Ok p" and "apr \<noteq> 0" and "el \<noteq> 0"
  obtains f fdf fdp delta where "price_parts apr bp el f fdf fdp delta"
    and "p = fdp + delta" and "p \<le> u64_max"
proof (cases "el mod SECONDS_IN_DAY = 0")
  case True
  from assms True obtain f fdf where "price_parts apr bp el f fdf p 0" "p \<le> u64_max"
    by (auto simp: calculate_vector_price_def Let_def as_u64_id price_parts_def split: if_splits)
  then show ?thesis by (intro that) auto
next
  case False
  from assms False obtain f fdf fdp delta where "price_parts apr bp el f fdf fdp delta"
    "p = fdp + delta" "p \<le> u64_max"
    by (auto simp: calculate_vector_price_def Let_def as_u64_id price_parts_def split: if_splits)
  then show ?thesis by (rule that)
qed

lemma price_parts_ge_base: "price_parts apr bp el f fdf fdp delta \<Longrightarrow> bp \<le> fdp"
  unfolding price_parts_def
  by (metis daily_factor_Ok(2) mul_div_round_ge pow_fixed_ge_scale)

lemma vector_price_ge_base: "calculate_vector_price apr bp el = Ok p \<Longrightarrow> bp \<le> p"
proof (cases "apr = 0 \<or> el = 0")
  case False
  assume p: "calculate_vector_price apr bp el = Ok p"
  from False have "apr \<noteq> 0" "el \<noteq> 0" by auto
  from vector_price_parts [OF p this] show ?thesis
    by (metis price_parts_ge_base trans_le_add1)
qed (auto simp: calculate_vector_price_def)

lemma vector_price_le_u64_max:
  "calculate_vector_price apr bp el = Ok p \<Longrightarrow> bp \<le> u64_max \<Longrightarrow> p \<le> u64_max"
proof (cases "apr = 0 \<or> el = 0")
  case False
  assume p: "calculate_vector_price apr bp el = Ok p"
  from False have "apr \<noteq> 0" "el \<noteq> 0" by auto
  from vector_price_parts [OF p this] show ?thesis by blast
qed (auto simp: calculate_vector_price_def)

text \<open>Within one day the price never falls.\<close>

lemma price_parts_mono_in_day:
  assumes P: "price_parts apr bp el f fdf fdp d" and Q: "price_parts apr bp el' f' fdf' fdp' d'"
    and day: "el div SECONDS_IN_DAY = el' div SECONDS_IN_DAY"
    and m: "el mod SECONDS_IN_DAY \<le> el' mod SECONDS_IN_DAY"
  shows "fdp' = fdp" and "d \<le> d'"
proof -
  have f: "f' = f" and fdp: "fdp' = fdp" using P Q day by (auto simp: price_parts_def)
  then show "fdp' = fdp" by simp
  show "d \<le> d'"
  proof (cases "el mod SECONDS_IN_DAY = 0")
    case False
    with m have "el' mod SECONDS_IN_DAY \<noteq> 0" by simp
    with P Q False m f fdp show ?thesis
      by (auto simp: price_parts_def intro: mul_div_round_mono)
  qed (use P in \<open>simp add: price_parts_def\<close>)
qed

lemma vector_price_mono_in_day:
  assumes p: "calculate_vector_price apr bp el = Ok p"
    and q: "calculate_vector_price apr bp el' = Ok q"
    and "el \<le> el'" and day: "el div SECONDS_IN_DAY = el' div SECONDS_IN_DAY"
  shows "p \<le> q"
proof (cases "apr = 0 \<or> el = 0")
  case True
  then show ?thesis
    using p vector_price_ge_base [OF q] by (auto simp: calculate_vector_price_def)
next
  case False
  with assms(3) have nz: "apr \<noteq> 0" "el \<noteq> 0" "el' \<noteq> 0" by auto
  have m: "el mod SECONDS_IN_DAY \<le> el' mod SECONDS_IN_DAY"
    using assms(3) day by (metis add_le_cancel_left mult_div_mod_eq)
  obtain f fdf fdp d where P: "price_parts apr bp el f fdf fdp d" "p = fdp + d"
    using vector_price_parts [OF p nz(1,2)] by metis
  obtain f' fdf' fdp' d' where Q: "price_parts apr bp el' f' fdf' fdp' d'" "q = fdp' + d'"
    using vector_price_parts [OF q nz(1,3)] by metis
  show ?thesis using price_parts_mono_in_day [OF P(1) Q(1) day m] P(2) Q(2) by simp
qed

text \<open>The interpolated price stays between the prices of its day and of the next one.\<close>

lemma price_parts_le_next_day:
  assumes P: "price_parts apr bp el f fdf fdp d" and n: "mul_div_round_u128 fdp f INT_SCALE = Some ndp"
  shows "fdp + d \<le> ndp"
proof -
  have le: "fdp \<le> ndp" using mul_div_round_ge [OF n] daily_factor_Ok(2) P
    by (auto simp: price_parts_def)
  have "d \<le> ndp - fdp"
  proof (cases "el mod SECONDS_IN_DAY = 0")
    case False
    with P n have "mul_div_round_u128 (ndp - fdp) (el mod SECONDS_IN_DAY) SECONDS_IN_DAY = Some d"
      by (auto simp: price_parts_def)
    then show ?thesis by (rule mul_div_round_le) (simp_all add: less_imp_le)
  qed (use P in \<open>simp add: price_parts_def\<close>)
  with le show ?thesis by simp
qed

text \<open>On day boundaries the price is the daily compounded price, up to the rounding error.\<close>

lemma vector_price_accuracy:
  assumes p: "calculate_vector_price apr bp (days * SECONDS_IN_DAY) = Ok p"
    and "apr \<noteq> 0" and "days \<noteq> 0" and f: "daily_factor_of apr = Ok f"
  shows "real bp * (real f / real INT_SCALE) ^ days * (1 - half_ulp INT_SCALE) ^ (2 * days) - 1 / 2
      \<le> real p"
    and "real p
      \<le> real bp * (real f / real INT_SCALE) ^ days * (1 + half_ulp INT_SCALE) ^ (2 * days) + 1 / 2"
proof -
  let ?S = "real INT_SCALE"
  have el: "days * SECONDS_IN_DAY \<noteq> 0" using assms(3) by (simp add: const_defs)
  have "days * SECONDS_IN_DAY mod SECONDS_IN_DAY = 0"
    and d: "days * SECONDS_IN_DAY div SECONDS_IN_DAY = days" by (simp_all add: const_defs)
  with vector_price_parts [OF p assms(2) el] f obtain fdf where
    pow: "pow_fixed f days INT_SCALE = Some fdf" and r: "mul_div_round_u128 bp fdf INT_SCALE = Some p"
    by (auto simp: price_parts_def)
  have S: "0 < ?S" by (simp add: INT_SCALE_def)
  have "p * INT_SCALE \<le> bp * fdf + INT_SCALE div 2" "bp * fdf \<le> p * INT_SCALE + INT_SCALE div 2"
    using mul_div_round_bounds [OF r] by (simp_all add: INT_SCALE_def)
  then have "real (p * INT_SCALE) \<le> real (bp * fdf + INT_SCALE div 2)"
    "real (bp * fdf) \<le> real (p * INT_SCALE + INT_SCALE div 2)"
    by (simp_all only: of_nat_le_iff)
  then have "real p * ?S \<le> real bp * real fdf + ?S / 2" "real bp * real fdf \<le> real p * ?S + ?S / 2"
    by (simp_all add: INT_SCALE_def)
  then have b: "real p \<le> real bp * (real fdf / ?S) + 1 / 2" "real bp * (real fdf / ?S) - 1 / 2 \<le> real p"
    using S by (simp_all add: field_simps)
  have "(real f / ?S) ^ days * (1 - half_ulp INT_SCALE) ^ (2 * days) \<le> real fdf / ?S"
    "real fdf / ?S \<le> (real f / ?S) ^ days * (1 + half_ulp INT_SCALE) ^ (2 * days)"
    using pow_fixed_accuracy [OF pow] daily_factor_Ok(2) [OF f] S
    by (simp_all only: INT_SCALE_simps pos_le_divide_eq pos_divide_le_eq mult.commute mult.assoc
        mult.left_commute simp_thms)
  then have "real bp * ((real f / ?S) ^ days * (1 - half_ulp INT_SCALE) ^ (2 * days))
      \<le> real bp * (real fdf / ?S)"
    "real bp * (real fdf / ?S)
      \<le> real bp * ((real f / ?S) ^ days * (1 + half_ulp INT_SCALE) ^ (2 * days))"
    by (simp_all only: mult_left_mono of_nat_0_le_iff)
  with b show
    "real bp * (real f / ?S) ^ days * (1 - half_ulp INT_SCALE) ^ (2 * days) - 1 / 2 \<le> real p"
    "real p \<le> real bp * (real f / ?S) ^ days * (1 + half_ulp INT_SCALE) ^ (2 * days) + 1 / 2"
    by (simp_all only: mult.assoc)
qed

section \<open>The stepped price\<close>

lemma step_price_Ok:
  "calculate_step_price_at apr bp bt d t = Ok p \<longleftrightarrow>
     bt \<le> t \<and> d \<noteq> 0 \<and> (t - bt) div d + 1 \<le> u64_max \<and> ((t - bt) div d + 1) * d \<le> u64_max \<and>
     calculate_vector_price apr bp (((t - bt) div d + 1) * d) = Ok p"
  by (auto simp: calculate_step_price_at_def Let_def saturating_sub_def)

lemma step_price_same_interval:
  assumes "bt \<le> t" and "bt \<le> t'" and "(t - bt) div d = (t' - bt) div d"
  shows "calculate_step_price_at apr bp bt d t = calculate_step_price_at apr bp bt d t'"
  using assms by (simp add: calculate_step_price_at_def Let_def saturating_sub_def checked_div_def)

lemma step_price_ge_base: "calculate_step_price_at apr bp bt d t = Ok p \<Longrightarrow> bp \<le> p"
  by (auto simp: step_price_Ok dest: vector_price_ge_base)

lemma in_interval_div:
  assumes "(a::nat) \<le> t" and "t < (a div d + 1) * d" and "d \<noteq> 0"
  shows "t div d = a div d"
proof -
  have "a div d \<le> t div d" using assms(1) by (rule div_le_mono)
  moreover have "t div d < a div d + 1" using assms(2) by (simp add: less_mult_imp_div_less)
  ultimately show ?thesis by simp
qed

lemma vector_price_no_panic: "calculate_vector_price apr bp el \<noteq> Err Panic"
  by (auto simp: calculate_vector_price_def daily_factor_of_def Let_def and_then_def ok_or_def
      split: result.splits option.splits if_splits)

lemma step_price_no_panic: "d \<noteq> 0 \<Longrightarrow> calculate_step_price_at apr bp bt d t \<noteq> Err Panic"
  using vector_price_no_panic
  by (auto simp: calculate_step_price_at_def Let_def and_then_def ok_or_def require_def
      checked_div_def split: result.splits option.splits if_splits)

lemma active_price_Ok:
  "get_active_vector_and_current_price offer t = Ok (v, p) \<longleftrightarrow>
     find_active_vector_at offer t = Ok v \<and> compute_vector_price_at_time v t = Ok p"
  by (auto simp: get_active_vector_and_current_price_def compute_vector_price_at_time_def)

lemma current_price_Ok:
  "compute_offer_current_price offer t = Ok p \<longleftrightarrow>
     (\<exists>v. find_active_vector_at offer t = Ok v \<and> compute_vector_price_at_time v t = Ok p)"
  by (force simp: compute_offer_current_price_def active_price_Ok)

section \<open>Validity of the stored vectors\<close>

text \<open>
  What \<open>add_offer_vector\<close> checks of every vector it stores. A valid offer has a positive price
  whenever it has one, and computing the price never divides by zero.
\<close>

definition vector_ok :: "offer_vector \<Rightarrow> bool" where
  "vector_ok v \<longleftrightarrow> v_start_time v \<noteq> 0 \<longrightarrow>
     0 < v_base_time v \<and> 0 < v_base_price v \<and> 0 < v_price_fix_duration v"

definition vectors_ok :: "offer \<Rightarrow> bool" where
  "vectors_ok offer \<longleftrightarrow> (\<forall>v \<in> set (o_vectors offer). vector_ok v)"

lemma active_vector_ok:
  assumes "vectors_ok offer" and "find_active_vector_at offer t = Ok v"
  shows "0 < v_base_time v" and "0 < v_base_price v" and "0 < v_price_fix_duration v"
  using assms find_active_vector_Ok [OF assms(2)]
  by (auto simp: vectors_ok_def vector_ok_def eligible_def)

lemma current_price_pos:
  assumes "vectors_ok offer" and "compute_offer_current_price offer t = Ok p"
  shows "0 < p"
proof -
  from assms(2) obtain v where "find_active_vector_at offer t = Ok v"
    and "compute_vector_price_at_time v t = Ok p" by (auto simp: current_price_Ok)
  with active_vector_ok [OF assms(1), of t v] show ?thesis
    by (auto simp: compute_vector_price_at_time_def dest!: step_price_ge_base)
qed

lemma current_price_no_panic:
  assumes "vectors_ok offer"
  shows "compute_offer_current_price offer t \<noteq> Err Panic"
proof (cases "find_active_vector_at offer t")
  case (Ok v)
  with active_vector_ok [OF assms Ok]
  have "compute_vector_price_at_time v t \<noteq> Err Panic"
    by (simp add: compute_vector_price_at_time_def step_price_no_panic)
  with Ok show ?thesis
    by (auto simp: compute_offer_current_price_def get_active_vector_and_current_price_def
        compute_vector_price_at_time_def and_then_def split: result.splits)
next
  case (Err e)
  then have "e = NoActiveVector" by (simp add: find_active_vector_Err)
  with Err show ?thesis
    by (simp add: compute_offer_current_price_def get_active_vector_and_current_price_def)
qed

section \<open>The next price change\<close>

lemma next_vector_after:
  "find_next_vector_after offer now = None \<Longrightarrow> v \<in> set (o_vectors offer) \<Longrightarrow> v_start_time v \<le> now"
  "find_next_vector_after offer now = Some w \<Longrightarrow> v \<in> set (o_vectors offer) \<Longrightarrow>
     now < v_start_time v \<Longrightarrow> v_start_time w \<le> v_start_time v"
  "find_next_vector_after offer now = Some w \<Longrightarrow> now < v_start_time w"
  by (auto simp: find_next_vector_after_def filter_empty_conv not_less dest!: min_by_key_Some)

lemma next_change_Ok:
  assumes "compute_next_price_change_timestamp offer v now = Ok ts"
  defines "k \<equiv> (now - v_base_time v) div v_price_fix_duration v"
  shows "v_price_fix_duration v \<noteq> 0"
    and "ts \<le> v_base_time v + (k + 1) * v_price_fix_duration v"
    and "\<And>w. w \<in> set (o_vectors offer) \<Longrightarrow> now < v_start_time w \<Longrightarrow> ts \<le> v_start_time w"
  using assms(1) unfolding compute_next_price_change_timestamp_def k_def
  by (auto simp: Let_def saturating_sub_def split: option.splits
      dest: next_vector_after(1) next_vector_after(2))

lemma price_constant_until_next_change:
  assumes s: "get_offer_valuation_snapshot offer now = Ok snap"
    and t: "now \<le> t" "t < ovs_next_price_change_timestamp snap"
  shows "get_active_vector_and_current_price offer t =
    Ok (ovs_active_vector snap, ovs_current_price snap)"
proof -
  let ?v = "ovs_active_vector snap" and ?p = "ovs_current_price snap"
  have v: "find_active_vector_at offer now = Ok ?v"
    and p: "compute_vector_price_at_time ?v now = Ok ?p"
    and ts: "compute_next_price_change_timestamp offer ?v now =
      Ok (ovs_next_price_change_timestamp snap)"
    using s by (auto simp: get_offer_valuation_snapshot_def active_price_Ok)
  have "find_active_vector_at offer t = Ok ?v"
    using find_active_vector_stable [OF t(1)] next_change_Ok(3) [OF ts] t(2) v
    by (metis order_less_le_trans)
  moreover have b: "v_base_time ?v \<le> now"
    using p by (simp add: compute_vector_price_at_time_def step_price_Ok)
  have "(t - v_base_time ?v) div v_price_fix_duration ?v =
      (now - v_base_time ?v) div v_price_fix_duration ?v"
    using next_change_Ok(1,2) [OF ts] t b by (intro in_interval_div) auto
  then have "compute_vector_price_at_time ?v t = Ok ?p"
    using p b t(1) unfolding compute_vector_price_at_time_def
    by (subst step_price_same_interval [of _ _ now]) auto
  ultimately show ?thesis by (simp add: active_price_Ok)
qed

section \<open>APY\<close>

lemma apy_parts:
  assumes "calculate_apy_from_apr apr = Ok apy"
  obtains f pow where "daily_factor_of apr = Ok f" and "pow_fixed f 365 INT_SCALE = Some pow"
    and "mul_div_round_u128 (pow - INT_SCALE) 1000000 INT_SCALE = Some apy" and "INT_SCALE \<le> pow"
  using assms
  by (auto simp: calculate_apy_from_apr_def daily_factor_of_def APR_SCALE_def as_u64_id
      split: if_splits)

lemma apy_mono:
  assumes "calculate_apy_from_apr a = Ok x" and "calculate_apy_from_apr b = Ok y" and "a \<le> b"
  shows "x \<le> y"
proof -
  obtain f p where 1: "daily_factor_of a = Ok f" "pow_fixed f 365 INT_SCALE = Some p"
    "mul_div_round_u128 (p - INT_SCALE) 1000000 INT_SCALE = Some x"
    using apy_parts [OF assms(1)] by metis
  obtain g q where 2: "daily_factor_of b = Ok g" "pow_fixed g 365 INT_SCALE = Some q"
    "mul_div_round_u128 (q - INT_SCALE) 1000000 INT_SCALE = Some y"
    using apy_parts [OF assms(2)] by metis
  have "p \<le> q" using 1(2) 2(2) daily_factor_mono [OF 1(1) 2(1) assms(3)]
    by (rule pow_fixed_mono_base)
  then show ?thesis by (intro mul_div_round_mono [OF 1(3) 2(3)]) auto
qed

section \<open>Properties\<close>

lemmas price_eval_simps =
  calculate_vector_price_def daily_factor_of_def pow_fixed_def pow_fixed_loop.simps
  mul_div_round_u128_def checked_mul_def checked_add_def checked_sub_def checked_div_def
  as_u64_def int_defs const_defs calculate_step_price_at_def saturating_sub_def

text \<open>C10: The price on a day boundary refines the documented formula
  \<open>base_price * (1 + apr / (APR_SCALE * 365)) ^ days\<close>: with the daily factor rounded to 18
  decimals, the integer price differs from the exact daily compounding by at most half a unit
  of the result plus a relative error of half a unit of the 18th decimal per rounding, of
  which there are at most two for every day.\<close>

theorem vector_price_refines_daily_compounding:
  assumes "calculate_vector_price apr base_price (days * SECONDS_IN_DAY) = Ok p"
    and "apr \<noteq> 0" and "days \<noteq> 0"
  shows "\<exists>f. f = INT_SCALE + (INT_SCALE * apr + 182500000) div 365000000 \<and>
    real base_price * (real f / real INT_SCALE) ^ days * (1 - 1 / (2 * real INT_SCALE)) ^ (2 * days)
      - 1 / 2 \<le> real p \<and>
    real p \<le> real base_price * (real f / real INT_SCALE) ^ days *
      (1 + 1 / (2 * real INT_SCALE)) ^ (2 * days) + 1 / 2"
proof -
  have "days * SECONDS_IN_DAY \<noteq> 0" using assms(3) by (simp add: const_defs)
  from vector_price_parts [OF assms(1,2) this] obtain f where f: "daily_factor_of apr = Ok f"
    by (auto simp: price_parts_def)
  then show ?thesis
    using vector_price_accuracy [OF assms f] daily_factor_Ok(1) [OF f] by blast
qed

theorem vector_price_refines_daily_compounding_witness:
  "\<exists>f. f = INT_SCALE + (INT_SCALE * 97600 + 182500000) div 365000000 \<and>
    real 1000000000 * (real f / real INT_SCALE) ^ 2 * (1 - 1 / (2 * real INT_SCALE)) ^ (2 * 2)
      - 1 / 2 \<le> real 1000534866 \<and>
    real 1000534866 \<le> real 1000000000 * (real f / real INT_SCALE) ^ 2 *
      (1 + 1 / (2 * real INT_SCALE)) ^ (2 * 2) + 1 / 2"
proof (rule vector_price_refines_daily_compounding)
  show "calculate_vector_price 97600 1000000000 (2 * SECONDS_IN_DAY) = Ok 1000534866"
    by (simp add: price_eval_simps)
qed simp_all

text \<open>C30: The announced time of the next price change is correct: from the moment of a
  valuation snapshot until just before its \<open>next_price_change_timestamp\<close>, the active vector
  and the price are exactly the ones of the snapshot.\<close>

theorem price_fixed_until_announced_change:
  assumes "get_offer_valuation_snapshot offer now = Ok snap"
    and "now \<le> t" and "t < ovs_next_price_change_timestamp snap"
  shows "get_active_vector_and_current_price offer t =
    Ok (ovs_active_vector snap, ovs_current_price snap)"
  using assms by (rule price_constant_until_next_change)

definition sample_vector :: offer_vector where
  "sample_vector = \<lparr>v_start_time = 1000, v_base_time = 1000, v_base_price = 1000000000,
     v_apr = 97600, v_price_fix_duration = 86400\<rparr>"

definition sample_offer :: offer where
  "sample_offer = \<lparr>o_token_in_mint = 21, o_token_out_mint = 22,
     o_vectors = sample_vector # replicate 9 default_vector, o_fee_basis_points = 50, o_bump = 254,
     o_needs_approval = 0, o_allow_permissionless = 1, o_disabled = 0,
     o_fee_basis_points_permissionless = 100\<rparr>"

lemma sample_active: "1000 \<le> t \<Longrightarrow> find_active_vector_at sample_offer t = Ok sample_vector"
  by (simp add: find_active_vector_at_def sample_offer_def sample_vector_def default_vector_def)

lemma sample_snapshot:
  "get_offer_valuation_snapshot sample_offer 5000 =
     Ok \<lparr>ovs_active_vector = sample_vector, ovs_current_price = 1000267397,
         ovs_next_price_change_timestamp = 87400\<rparr>"
proof -
  have "find_next_vector_after sample_offer 5000 = None"
    by (simp add: find_next_vector_after_def sample_offer_def sample_vector_def
        default_vector_def)
  then show ?thesis
    by (simp add: get_offer_valuation_snapshot_def get_active_vector_and_current_price_def
        sample_active compute_next_price_change_timestamp_def price_eval_simps
        cong: eval_congs)
      (simp add: sample_vector_def price_eval_simps cong: eval_congs)
qed

theorem price_fixed_until_announced_change_witness:
  "get_active_vector_and_current_price sample_offer 87399 = Ok (sample_vector, 1000267397)"
  using price_fixed_until_announced_change [OF sample_snapshot, of 87399] by simp

text \<open>Selection of the active vector: a returned vector is stored, non-empty, started and
  has the latest start time of all started ones; the error \<open>NoActiveVector\<close> is returned
  exactly when no stored vector has started.\<close>

theorem active_vector_is_latest_started:
  "case find_active_vector_at offer time of
     Ok v \<Rightarrow> v \<in> set (o_vectors offer) \<and> v_start_time v \<noteq> 0 \<and> v_start_time v \<le> time \<and>
       (\<forall>w \<in> set (o_vectors offer).
          v_start_time w \<noteq> 0 \<and> v_start_time w \<le> time \<longrightarrow> v_start_time w \<le> v_start_time v)
   | Err e \<Rightarrow> e = NoActiveVector \<and>
       (\<forall>w \<in> set (o_vectors offer). v_start_time w = 0 \<or> time < v_start_time w)"
proof (cases "find_active_vector_at offer time")
  case (Ok v)
  from find_active_vector_Ok [OF Ok] show ?thesis by (simp add: Ok eligible_def)
next
  case (Err e)
  moreover from this have "e = NoActiveVector \<and> (\<forall>w \<in> set (o_vectors offer). \<not> eligible time w)"
    by (simp add: find_active_vector_Err)
  ultimately show ?thesis by (auto simp: eligible_def)
qed

theorem active_vector_is_latest_started_witness:
  "sample_vector \<in> set (o_vectors sample_offer) \<and> v_start_time sample_vector \<noteq> 0 \<and>
   v_start_time sample_vector \<le> 5000"
  using active_vector_is_latest_started [of sample_offer 5000] by (simp add: sample_active)

text \<open>Growth: a price is never below the base price of its vector, and inside one day of
  elapsed time it never decreases.\<close>

theorem vector_price_grows_within_a_day:
  assumes "calculate_vector_price apr base_price t = Ok p"
    and "calculate_vector_price apr base_price t' = Ok q"
    and "t \<le> t'" and "t div SECONDS_IN_DAY = t' div SECONDS_IN_DAY"
  shows "base_price \<le> p \<and> p \<le> q"
  using vector_price_ge_base [OF assms(1)] vector_price_mono_in_day [OF assms] by simp

theorem vector_price_grows_within_a_day_witness:
  "(1000000000::nat) \<le> 1000011142 \<and> (1000011142::nat) \<le> 1000066849"
  by (rule vector_price_grows_within_a_day [where apr = 97600 and t = 3600 and t' = 21600])
    (simp_all add: price_eval_simps)

text \<open>With the vectors that \<open>add_offer_vector\<close> accepts, the current price of an offer is
  positive whenever there is one, and computing it never panics (no division by a zero
  \<open>price_fix_duration\<close>).\<close>

theorem valid_offer_price_positive_and_panic_free:
  assumes "vectors_ok offer"
  shows "(\<forall>p. compute_offer_current_price offer t = Ok p \<longrightarrow> 0 < p) \<and>
    compute_offer_current_price offer t \<noteq> Err Panic"
  using current_price_pos [OF assms] current_price_no_panic [OF assms] by blast

theorem valid_offer_price_positive_and_panic_free_witness:
  "compute_offer_current_price sample_offer 5000 \<noteq> Err Panic"
proof -
  have "vectors_ok sample_offer"
    by (simp add: vectors_ok_def vector_ok_def sample_offer_def sample_vector_def default_vector_def)
  from valid_offer_price_positive_and_panic_free [OF this] show ?thesis by blast
qed

text \<open>The APY is monotone in the APR, and it is the 365-day compounding of the same daily
  factor that prices use: it is the rounded growth of \<open>pow_fixed daily_factor 365\<close> over one.\<close>

theorem apy_monotone_and_compounds_daily_factor:
  assumes "calculate_apy_from_apr apr = Ok apy" and "calculate_apy_from_apr apr' = Ok apy'"
    and "apr \<le> apr'"
  shows "apy \<le> apy' \<and>
    (\<exists>f pow. daily_factor_of apr = Ok f \<and> pow_fixed f 365 INT_SCALE = Some pow \<and>
       INT_SCALE \<le> pow \<and> mul_div_round_u128 (pow - INT_SCALE) 1000000 INT_SCALE = Some apy)"
  using apy_mono [OF assms] apy_parts [OF assms(1)] by metis

theorem apy_monotone_and_compounds_daily_factor_witness:
  "(0::nat) \<le> 105156 \<and>
    (\<exists>f pow. daily_factor_of 0 = Ok f \<and> pow_fixed f 365 INT_SCALE = Some pow \<and>
       INT_SCALE \<le> pow \<and> mul_div_round_u128 (pow - INT_SCALE) 1000000 INT_SCALE = Some 0)"
  by (rule apy_monotone_and_compounds_daily_factor [where apr' = 100000])
    (simp_all add: price_eval_simps calculate_apy_from_apr_def cong: eval_congs)

end
