(* ===== verification/Offer_Admin.thy ===== *)
theory Offer_Admin
  imports Governance Offer_Pricing
begin

text \<open>
  The boss's and admins' instructions on an offer (\<open>offer/make_offer.rs\<close>,
  \<open>add_offer_vector.rs\<close>, \<open>delete_offer_vector.rs\<close>, \<open>delete_all_offer_vectors.rs\<close>,
  \<open>update_offer_fee.rs\<close>, \<open>update_offer_permissionless_fee.rs\<close>, \<open>set_offer_disabled.rs\<close>):
  the offer invariant, that every sequence of these instructions keeps it, and what adding and
  deleting a vector does to the price in force.

  An offer lives at the address derived from its two mints, so the model hands the instruction
  the account stored for the mints it names; the remaining checks of the account structs are
  the comparisons with the mints inside the account and of the signer with the boss.
\<close>

section \<open>Definitions\<close>

definition MAX_ALLOWED_FEE_BPS :: u16 where [const_defs]: "MAX_ALLOWED_FEE_BPS = 1000"

record offer_accounts =
  oa_token_in_mint :: pubkey
  oa_token_out_mint :: pubkey
  oa_boss :: pubkey

definition check_offer_accounts :: "state \<Rightarrow> offer_accounts \<Rightarrow> offer \<Rightarrow> unit result" where
  "check_offer_accounts st a offer =
     require (oa_token_in_mint a = o_token_in_mint offer) InvalidTokenInMint (
     require (oa_token_out_mint a = o_token_out_mint offer) InvalidTokenOutMint (
     require (oa_boss a = s_boss st) AnchorConstraint (Ok ())))"

definition zero_offer :: offer where
  "zero_offer = \<lparr>o_token_in_mint = default_pubkey, o_token_out_mint = default_pubkey,
     o_vectors = replicate MAX_VECTORS default_vector, o_fee_basis_points = 0, o_bump = 0,
     o_needs_approval = 0, o_allow_permissionless = 0, o_disabled = 0,
     o_fee_basis_points_permissionless = 0\<rparr>"

text \<open>\<open>existing\<close> is the account at the offer address; \<open>init\<close> rejects an existing one.\<close>

definition make_offer ::
  "state \<Rightarrow> offer_accounts \<Rightarrow> u8 \<Rightarrow> u16 \<Rightarrow> bool \<Rightarrow> bool \<Rightarrow> offer option \<Rightarrow> offer result" where
  "make_offer st a bump fee_basis_points approval permissionless existing =
     require (existing = None) AnchorConstraint (
     require (oa_boss a = s_boss st) AnchorConstraint (
     require (fee_basis_points \<le> MAX_ALLOWED_FEE_BPS) InvalidFee (
     Ok (set_disabled False (set_permissionless permissionless (set_approval approval
           (zero_offer\<lparr>o_token_in_mint := oa_token_in_mint a,
                       o_token_out_mint := oa_token_out_mint a,
                       o_fee_basis_points := fee_basis_points\<rparr>)))\<lparr>o_bump := bump\<rparr>))))"

definition validate_inputs ::
  "u64 \<Rightarrow> u64 \<Rightarrow> u64 \<Rightarrow> u64 \<Rightarrow> u64 \<Rightarrow> offer \<Rightarrow> unit result" where
  "validate_inputs start_time base_time base_price price_fix_duration current_time offer =
     require (start_time \<ge> current_time) StartTimeInPast (
     require (base_time > 0) ZeroValue (
     require (base_price > 0) ZeroValue (
     require (price_fix_duration > 0) ZeroValue (
     let existing_start_times =
       map v_start_time (filter (\<lambda>v. v_start_time v \<noteq> 0) (o_vectors offer))
     in
     require (start_time \<notin> set existing_start_times) DuplicateStartTime (
     case max_by_key (\<lambda>t. t) existing_start_times of
       Some latest_start_time \<Rightarrow> require (start_time > latest_start_time) InvalidTimeRange (Ok ())
     | None \<Rightarrow> Ok ())))))"

text \<open>\<open>active_vector?.start_time - 1\<close> is an unchecked subtraction that panics at zero.\<close>

definition clean_old_vectors :: "offer \<Rightarrow> offer_vector \<Rightarrow> u64 \<Rightarrow> offer result" where
  "clean_old_vectors offer new_vector current_time =
     (case (if v_start_time new_vector = current_time then Ok new_vector
            else find_active_vector_at offer current_time) of
        Err _ \<Rightarrow> Ok offer
      | Ok active_vector \<Rightarrow>
          let active_start = v_start_time active_vector in
          and_then (ok_or (checked_sub active_start 1) Panic) (\<lambda>before.
          let prev_start = (case find_active_vector_at offer before of
                              Ok v \<Rightarrow> v_start_time v
                            | Err _ \<Rightarrow> 0)
          in Ok (offer\<lparr>o_vectors :=
               map (\<lambda>v. if v_start_time v \<noteq> 0 \<and> v_start_time v \<noteq> active_start \<and>
                           v_start_time v \<noteq> prev_start \<and> v_start_time v < active_start
                         then default_vector else v) (o_vectors offer)\<rparr>)))"

definition add_offer_vector ::
  "state \<Rightarrow> offer_accounts \<Rightarrow> i64 \<Rightarrow> u64 option \<Rightarrow> u64 \<Rightarrow> u64 \<Rightarrow> u64 \<Rightarrow> u64 \<Rightarrow> offer \<Rightarrow> offer result"
  where
  "add_offer_vector st a unix_timestamp start_time_opt base_time base_price apr
     price_fix_duration offer =
     and_then (check_offer_accounts st a offer) (\<lambda>_.
     let current_time = i64_as_u64 unix_timestamp;
         start_time = (case start_time_opt of Some t \<Rightarrow> t | None \<Rightarrow> max current_time base_time)
     in
     and_then (validate_inputs start_time base_time base_price price_fix_duration current_time offer)
       (\<lambda>_.
     let new_vector = \<lparr>v_start_time = start_time, v_base_time = base_time,
           v_base_price = base_price, v_apr = apr, v_price_fix_duration = price_fix_duration\<rparr>
     in
     and_then (clean_old_vectors offer new_vector current_time) (\<lambda>offer.
     and_then (ok_or (find_vector_index_by_start_time offer 0) TooManyVectors) (\<lambda>empty_slot_index.
     Ok (offer\<lparr>o_vectors := (o_vectors offer)[empty_slot_index := new_vector]\<rparr>)))))"

definition delete_offer_vector ::
  "state \<Rightarrow> offer_accounts \<Rightarrow> i64 \<Rightarrow> u64 \<Rightarrow> offer \<Rightarrow> offer result" where
  "delete_offer_vector st a unix_timestamp vector_start_time offer =
     and_then (check_offer_accounts st a offer) (\<lambda>_.
     require (vector_start_time > i64_as_u64 unix_timestamp) StartTimeInPast (
     and_then (ok_or (find_vector_index_by_start_time offer vector_start_time) VectorNotFound)
       (\<lambda>vector_index.
     Ok (offer\<lparr>o_vectors := (o_vectors offer)[vector_index := default_vector]\<rparr>))))"

text \<open>The loop overwrites every non-empty slot and counts them (in a \<open>u8\<close>, at most ten).\<close>

definition delete_all_offer_vectors :: "state \<Rightarrow> offer_accounts \<Rightarrow> offer \<Rightarrow> (offer \<times> u8) result"
  where
  "delete_all_offer_vectors st a offer =
     and_then (check_offer_accounts st a offer) (\<lambda>_.
     Ok (offer\<lparr>o_vectors :=
           map (\<lambda>v. if v_start_time v \<noteq> 0 then default_vector else v) (o_vectors offer)\<rparr>,
         length (filter (\<lambda>v. v_start_time v \<noteq> 0) (o_vectors offer))))"

definition update_offer_fee :: "state \<Rightarrow> offer_accounts \<Rightarrow> u16 \<Rightarrow> offer \<Rightarrow> offer result" where
  "update_offer_fee st a new_fee_basis_points offer =
     and_then (check_offer_accounts st a offer) (\<lambda>_.
     require (new_fee_basis_points \<le> MAX_ALLOWED_FEE_BPS) InvalidFee (
     Ok (offer\<lparr>o_fee_basis_points := new_fee_basis_points\<rparr>)))"

definition update_offer_permissionless_fee ::
  "state \<Rightarrow> offer_accounts \<Rightarrow> u16 \<Rightarrow> offer \<Rightarrow> offer result" where
  "update_offer_permissionless_fee st a new_fee offer =
     and_then (check_offer_accounts st a offer) (\<lambda>_.
     require (new_fee \<le> MAX_ALLOWED_FEE_BPS) InvalidFee (
     Ok (offer\<lparr>o_fee_basis_points_permissionless := new_fee\<rparr>)))"

definition set_offer_disabled :: "state \<Rightarrow> pubkey \<Rightarrow> bool \<Rightarrow> offer \<Rightarrow> offer result" where
  "set_offer_disabled st signer disabled offer =
     and_then (authorize_targeted_disable st signer disabled) (\<lambda>_.
     Ok (set_disabled disabled offer))"

datatype offer_op =
    AddVector offer_accounts i64 "u64 option" u64 u64 u64 u64
  | DeleteVector offer_accounts i64 u64
  | DeleteAllVectors offer_accounts
  | UpdateFee offer_accounts u16
  | UpdatePermissionlessFee offer_accounts u16
  | SetDisabled pubkey bool

fun exec_offer :: "state \<Rightarrow> offer_op \<Rightarrow> offer \<Rightarrow> offer result" where
  "exec_offer st (AddVector a now s bt bp apr d) offer = add_offer_vector st a now s bt bp apr d offer"
| "exec_offer st (DeleteVector a now t) offer = delete_offer_vector st a now t offer"
| "exec_offer st (DeleteAllVectors a) offer =
     and_then (delete_all_offer_vectors st a offer) (\<lambda>(offer', _). Ok offer')"
| "exec_offer st (UpdateFee a fee) offer = update_offer_fee st a fee offer"
| "exec_offer st (UpdatePermissionlessFee a fee) offer = update_offer_permissionless_fee st a fee offer"
| "exec_offer st (SetDisabled k d) offer = set_offer_disabled st k d offer"

section \<open>The offer invariant\<close>

definition start_times :: "offer_vector list \<Rightarrow> u64 list" where
  "start_times vs = filter (\<lambda>t. t \<noteq> 0) (map v_start_time vs)"

definition offer_wf :: "offer \<Rightarrow> bool" where
  "offer_wf offer \<longleftrightarrow>
     length (o_vectors offer) = MAX_VECTORS \<and> vectors_ok offer \<and>
     distinct (start_times (o_vectors offer)) \<and>
     o_fee_basis_points offer \<le> MAX_ALLOWED_FEE_BPS \<and>
     o_fee_basis_points_permissionless offer \<le> MAX_ALLOWED_FEE_BPS"

lemma start_times_simps [simp]:
  "start_times [] = []"
  "start_times (v # vs) = (if v_start_time v = 0 then start_times vs
                           else v_start_time v # start_times vs)"
  "start_times (us @ vs) = start_times us @ start_times vs"
  by (simp_all add: start_times_def)

lemma default_vector_simps [simp]: "v_start_time default_vector = 0" "vector_ok default_vector"
  by (simp_all add: default_vector_def vector_ok_def)

lemma set_start_times:
  "set (start_times vs) = {v_start_time v | v. v \<in> set vs \<and> v_start_time v \<noteq> 0}"
  by (auto simp: start_times_def)

text \<open>Clearing slots keeps the invariant of the array.\<close>

lemma clear_slots:
  "distinct (start_times vs) \<Longrightarrow>
     distinct (start_times (map (\<lambda>v. if P v then default_vector else v) vs)) \<and>
     set (start_times (map (\<lambda>v. if P v then default_vector else v) vs)) \<subseteq> set (start_times vs)"
  by (induction vs) auto

lemma position_from_Some:
  "position_from i p xs = Some j \<Longrightarrow>
     \<exists>us x vs. xs = us @ x # vs \<and> j = i + length us \<and> p x \<and> (\<forall>u \<in> set us. \<not> p u)"
proof (induction xs arbitrary: i)
  case (Cons x xs)
  show ?case
  proof (cases "p x")
    case True
    with Cons.prems have "x # xs = [] @ x # xs \<and> j = i + length ([]::'a list) \<and> p x" by simp
    then show ?thesis by fastforce
  next
    case False
    with Cons obtain us y vs where "xs = us @ y # vs" "j = Suc i + length us" "p y"
      "\<forall>u \<in> set us. \<not> p u" by fastforce
    with False have "x # xs = (x # us) @ y # vs \<and> j = i + length (x # us) \<and> p y \<and>
        (\<forall>u \<in> set (x # us). \<not> p u)" by auto
    then show ?thesis by blast
  qed
qed simp

lemma position_from_None: "position_from i p xs = None \<longleftrightarrow> (\<forall>x \<in> set xs. \<not> p x)"
  by (induction xs arbitrary: i) auto

lemma vector_index_split:
  assumes "find_vector_index_by_start_time offer t = Some i"
  obtains us v vs where "o_vectors offer = us @ v # vs" and "i = length us" and "v_start_time v = t"
    and "\<forall>u \<in> set us. v_start_time u \<noteq> t"
  using assms position_from_Some [of 0 "\<lambda>v. v_start_time v = t" "o_vectors offer" i]
  by (auto simp: find_vector_index_by_start_time_def)

section \<open>Adding a vector\<close>

lemma validate_inputs_Ok:
  "validate_inputs s bt bp d now offer = Ok () \<longleftrightarrow>
     now \<le> s \<and> 0 < bt \<and> 0 < bp \<and> 0 < d \<and> (\<forall>t \<in> set (start_times (o_vectors offer)). t < s)"
  (is "?L \<longleftrightarrow> ?R")
proof -
  let ?ts = "map v_start_time (filter (\<lambda>v. v_start_time v \<noteq> 0) (o_vectors offer))"
  have ts: "?ts = start_times (o_vectors offer)"
    by (simp add: start_times_def filter_map o_def)
  show ?thesis
  proof (cases "max_by_key (\<lambda>t. t) ?ts")
    case None
    then show ?thesis unfolding validate_inputs_def Let_def ts [symmetric] by auto
  next
    case (Some m)
    from max_by_key_Some [OF Some] have m: "m \<in> set ?ts" "\<forall>t \<in> set ?ts. t \<le> m" by auto
    then have "(s \<notin> set ?ts \<and> m < s) \<longleftrightarrow> (\<forall>t \<in> set ?ts. t < s)" by (auto intro: le_less_trans)
    then show ?thesis using Some unfolding validate_inputs_def Let_def ts [symmetric] by auto
  qed
qed

definition keep_vector :: "u64 \<Rightarrow> u64 \<Rightarrow> offer_vector \<Rightarrow> bool" where
  "keep_vector active prev v \<longleftrightarrow> \<not> (v_start_time v \<noteq> 0 \<and> v_start_time v \<noteq> active \<and>
     v_start_time v \<noteq> prev \<and> v_start_time v < active)"

lemma clean_old_vectors_cases:
  assumes "clean_old_vectors offer nv now = Ok offer'"
  obtains (unchanged) e where "offer' = offer" and "v_start_time nv \<noteq> now"
      and "find_active_vector_at offer now = Err e"
  | (cleaned) active prev where
      "offer' = offer\<lparr>o_vectors :=
         map (\<lambda>v. if \<not> keep_vector active prev v then default_vector else v) (o_vectors offer)\<rparr>"
      and "if v_start_time nv = now then active = now
           else \<exists>v. find_active_vector_at offer now = Ok v \<and> active = v_start_time v"
      and "active \<noteq> 0"
      and "prev = (case find_active_vector_at offer (active - 1) of
             Ok v \<Rightarrow> v_start_time v | Err _ \<Rightarrow> 0)"
  using assms
  by (auto simp: clean_old_vectors_def Let_def keep_vector_def split: if_splits result.splits)

lemma clean_old_vectors_frame:
  assumes "clean_old_vectors offer nv now = Ok offer'"
  obtains P where "offer' = offer\<lparr>o_vectors :=
    map (\<lambda>v. if P v then default_vector else v) (o_vectors offer)\<rparr>"
  using assms
proof (cases rule: clean_old_vectors_cases)
  case unchanged
  then show ?thesis by (intro that [of "\<lambda>_. False"]) simp
qed (rule that)

lemma add_offer_vector_Ok:
  assumes "add_offer_vector st a ts s_opt bt bp apr d offer = Ok offer'"
  defines "now \<equiv> i64_as_u64 ts"
  defines "s \<equiv> (case s_opt of Some t \<Rightarrow> t | None \<Rightarrow> max now bt)"
  defines "nv \<equiv> \<lparr>v_start_time = s, v_base_time = bt, v_base_price = bp, v_apr = apr,
     v_price_fix_duration = d\<rparr>"
  obtains cleaned us e vs where "validate_inputs s bt bp d now offer = Ok ()"
    and "clean_old_vectors offer nv now = Ok cleaned"
    and "o_vectors cleaned = us @ e # vs" and "v_start_time e = 0"
    and "offer' = cleaned\<lparr>o_vectors := us @ nv # vs\<rparr>"
proof -
  from assms(1) obtain cleaned i where *: "validate_inputs s bt bp d now offer = Ok ()"
    "clean_old_vectors offer nv now = Ok cleaned"
    "find_vector_index_by_start_time cleaned 0 = Some i"
    "offer' = cleaned\<lparr>o_vectors := (o_vectors cleaned)[i := nv]\<rparr>"
    unfolding add_offer_vector_def Let_def now_def s_def nv_def by auto
  from *(3) show ?thesis
    by (rule vector_index_split) (use * that in auto)
qed

text \<open>The other direction: which calls are accepted. Cleaning never panics when the new start is
  not zero, and it leaves every empty slot empty.\<close>

lemma clean_old_vectors_total:
  assumes "v_start_time nv \<noteq> 0"
  obtains cleaned where "clean_old_vectors offer nv now = Ok cleaned"
proof -
  have "\<exists>c. clean_old_vectors offer nv now = Ok c"
    using assms find_active_vector_Ok(2) [of offer now]
    by (auto simp: clean_old_vectors_def Let_def eligible_def checked_sub_def
        split: result.splits if_splits)
  then show ?thesis using that by blast
qed

lemma add_offer_vector_accepts:
  assumes "check_offer_accounts st a offer = Ok ()" and "i64_as_u64 ts \<le> s" and "0 < s"
    and "0 < bt" and "0 < bp" and "0 < d" and "\<forall>v \<in> set (o_vectors offer). v_start_time v < s"
    and "\<exists>v \<in> set (o_vectors offer). v_start_time v = 0"
  shows "\<exists>offer'. add_offer_vector st a ts (Some s) bt bp apr d offer = Ok offer'"
proof -
  let ?nv = "\<lparr>v_start_time = s, v_base_time = bt, v_base_price = bp, v_apr = apr,
    v_price_fix_duration = d\<rparr>"
  from assms(3) obtain c where c: "clean_old_vectors offer ?nv (i64_as_u64 ts) = Ok c"
    using clean_old_vectors_total [of ?nv offer "i64_as_u64 ts"] by auto
  then obtain P where vs: "c = offer\<lparr>o_vectors :=
      map (\<lambda>v. if P v then default_vector else v) (o_vectors offer)\<rparr>"
    by (rule clean_old_vectors_frame)
  from assms(8) obtain e where "e \<in> set (o_vectors offer)" and "v_start_time e = 0" by blast
  then have "(if P e then default_vector else e) \<in> set (o_vectors c)"
    "v_start_time (if P e then default_vector else e) = 0"
    by (simp_all add: vs default_vector_def)
  then have "\<exists>v \<in> set (o_vectors c). v_start_time v = 0" by blast
  then obtain i where i: "find_vector_index_by_start_time c 0 = Some i"
    using position_from_None [of 0 "\<lambda>v. v_start_time v = 0" "o_vectors c"]
    by (auto simp: find_vector_index_by_start_time_def)
  have "validate_inputs s bt bp d (i64_as_u64 ts) offer = Ok ()"
    using assms by (auto simp: validate_inputs_Ok start_times_def)
  with c i assms(1) show ?thesis by (simp add: add_offer_vector_def)
qed

lemma add_offer_vector_wf:
  assumes wf: "offer_wf offer" and ok: "add_offer_vector st a ts s_opt bt bp apr d offer = Ok offer'"
  shows "offer_wf offer'"
  using ok
proof (rule add_offer_vector_Ok)
  fix cleaned us e vs
  let ?now = "i64_as_u64 ts"
  let ?s = "case s_opt of Some t \<Rightarrow> t | None \<Rightarrow> max ?now bt"
  let ?nv = "\<lparr>v_start_time = ?s, v_base_time = bt, v_base_price = bp, v_apr = apr,
    v_price_fix_duration = d\<rparr>"
  assume v: "validate_inputs ?s bt bp d ?now offer = Ok ()"
    and c: "clean_old_vectors offer ?nv ?now = Ok cleaned"
    and sp: "o_vectors cleaned = us @ e # vs" and e: "v_start_time e = 0"
    and offer': "offer' = cleaned\<lparr>o_vectors := us @ ?nv # vs\<rparr>"
  from c obtain P where P: "cleaned = offer\<lparr>o_vectors :=
      map (\<lambda>v. if P v then default_vector else v) (o_vectors offer)\<rparr>"
    by (rule clean_old_vectors_frame)
  have d: "distinct (start_times (us @ e # vs))"
    and sub: "set (start_times (us @ e # vs)) \<subseteq> set (start_times (o_vectors offer))"
    using clear_slots [of "o_vectors offer" P] wf sp P by (auto simp: offer_wf_def)
  have len: "length (us @ e # vs) = MAX_VECTORS" using wf P sp [symmetric] by (simp add: offer_wf_def)
  have ok: "\<forall>v \<in> set (us @ e # vs). vector_ok v"
    using wf P sp [symmetric] by (auto simp: offer_wf_def vectors_ok_def)
  have "vector_ok ?nv" using v by (simp add: validate_inputs_Ok vector_ok_def)
  moreover have "?s \<notin> set (start_times (us @ e # vs))"
    using v sub by (auto simp: validate_inputs_Ok)
  ultimately show ?thesis
    using wf d e len ok P by (auto simp: offer_wf_def offer' vectors_ok_def)
qed

lemma delete_offer_vector_wf:
  assumes wf: "offer_wf offer" and ok: "delete_offer_vector st a ts t offer = Ok offer'"
  shows "offer_wf offer'"
proof -
  from ok obtain i where i: "find_vector_index_by_start_time offer t = Some i"
    and offer': "offer' = offer\<lparr>o_vectors := (o_vectors offer)[i := default_vector]\<rparr>"
    by (auto simp: delete_offer_vector_def)
  from i show ?thesis
    by (rule vector_index_split) (use wf offer' in \<open>auto simp: offer_wf_def vectors_ok_def split: if_splits\<close>)
qed

lemma delete_all_offer_vectors_wf:
  assumes "offer_wf offer" and "delete_all_offer_vectors st a offer = Ok (offer', n)"
  shows "offer_wf offer'"
  using assms clear_slots [of "o_vectors offer" "\<lambda>v. v_start_time v \<noteq> 0"]
  by (auto simp: delete_all_offer_vectors_def offer_wf_def vectors_ok_def)

lemma offer_fields_wf:
  assumes "offer_wf offer"
  shows "update_offer_fee st a fee offer = Ok offer' \<Longrightarrow> offer_wf offer'"
    and "update_offer_permissionless_fee st a fee offer = Ok offer' \<Longrightarrow> offer_wf offer'"
    and "set_offer_disabled st k dis offer = Ok offer' \<Longrightarrow> offer_wf offer'"
  using assms
  by (auto simp: update_offer_fee_def update_offer_permissionless_fee_def set_offer_disabled_def
      set_disabled_def offer_wf_def vectors_ok_def)

lemma exec_offer_wf: "offer_wf offer \<Longrightarrow> exec_offer st c offer = Ok offer' \<Longrightarrow> offer_wf offer'"
  by (cases c)
    (auto dest: add_offer_vector_wf delete_offer_vector_wf delete_all_offer_vectors_wf offer_fields_wf)

interpretation ofm: invariant_machine "exec_offer st" offer_wf for st
  by unfold_locales (rule exec_offer_wf)

section \<open>Effect on the active vector\<close>

lemma distinct_start_times_unique:
  "distinct (start_times vs) \<Longrightarrow> v \<in> set vs \<Longrightarrow> w \<in> set vs \<Longrightarrow>
     v_start_time v = v_start_time w \<Longrightarrow> v_start_time v \<noteq> 0 \<Longrightarrow> v = w"
  by (induction vs) (auto simp: set_start_times split: if_splits)

lemma find_active_vector_unique:
  assumes d: "distinct (start_times (o_vectors offer))"
    and v: "v \<in> set (o_vectors offer)" "eligible t v"
    and mx: "\<And>w. w \<in> set (o_vectors offer) \<Longrightarrow> eligible t w \<Longrightarrow> v_start_time w \<le> v_start_time v"
  shows "find_active_vector_at offer t = Ok v"
proof (cases "find_active_vector_at offer t")
  case (Ok w)
  have "v_start_time v = v_start_time w"
    using find_active_vector_Ok [OF Ok] v mx by (simp add: order_antisym)
  then have "v = w"
    using d v find_active_vector_Ok(1) [OF Ok] by (intro distinct_start_times_unique) (auto simp: eligible_def)
  with Ok show ?thesis by simp
next
  case (Err e)
  with v show ?thesis by (auto simp: find_active_vector_Err)
qed

text \<open>What an accepted vector does to the stored ones, in the words of the two lemmas below.\<close>

definition accepted_start :: "i64 \<Rightarrow> u64 option \<Rightarrow> u64 \<Rightarrow> u64" where
  "accepted_start ts s_opt bt = (case s_opt of Some t \<Rightarrow> t | None \<Rightarrow> max (i64_as_u64 ts) bt)"

lemma add_offer_vector_contents:
  assumes "add_offer_vector st a ts s_opt bt bp apr d offer = Ok offer'"
  defines "now \<equiv> i64_as_u64 ts"
  defines "s \<equiv> accepted_start ts s_opt bt"
  defines "nv \<equiv> \<lparr>v_start_time = s, v_base_time = bt, v_base_price = bp, v_apr = apr,
     v_price_fix_duration = d\<rparr>"
  obtains (unchanged) e where "now < s" and "find_active_vector_at offer now = Err e"
      and "\<And>w. v_start_time w \<noteq> 0 \<Longrightarrow>
        w \<in> set (o_vectors offer') \<longleftrightarrow> w = nv \<or> w \<in> set (o_vectors offer)"
  | (cleaned) active prev where
      "if s = now then active = now
       else now < s \<and> (\<exists>v. find_active_vector_at offer now = Ok v \<and> active = v_start_time v)"
      and "\<And>w. v_start_time w \<noteq> 0 \<Longrightarrow>
        w \<in> set (o_vectors offer') \<longleftrightarrow> w = nv \<or> (w \<in> set (o_vectors offer) \<and> keep_vector active prev w)"
  using assms(1)
proof (rule add_offer_vector_Ok)
  fix cl us e vs
  assume v: "validate_inputs (case s_opt of Some t \<Rightarrow> t | None \<Rightarrow> max (i64_as_u64 ts) bt) bt bp d
      (i64_as_u64 ts) offer = Ok ()"
    and c: "clean_old_vectors offer \<lparr>v_start_time = case s_opt of Some t \<Rightarrow> t | None \<Rightarrow>
        max (i64_as_u64 ts) bt, v_base_time = bt, v_base_price = bp, v_apr = apr,
        v_price_fix_duration = d\<rparr> (i64_as_u64 ts) = Ok cl"
    and sp: "o_vectors cl = us @ e # vs" and e: "v_start_time e = 0"
    and o': "offer' = cl\<lparr>o_vectors := us @ \<lparr>v_start_time = case s_opt of Some t \<Rightarrow> t | None \<Rightarrow>
        max (i64_as_u64 ts) bt, v_base_time = bt, v_base_price = bp, v_apr = apr,
        v_price_fix_duration = d\<rparr> # vs\<rparr>"
  have o'': "offer' = cl\<lparr>o_vectors := us @ nv # vs\<rparr>"
    using o' unfolding nv_def s_def accepted_start_def by simp
  have c': "clean_old_vectors offer nv now = Ok cl"
    using c unfolding nv_def s_def accepted_start_def now_def by simp
  have s: "now \<le> s" using v unfolding s_def now_def accepted_start_def by (simp add: validate_inputs_Ok)
  have mem: "w \<in> set (o_vectors offer') \<longleftrightarrow> w = nv \<or> w \<in> set (o_vectors cl)"
    if "v_start_time w \<noteq> 0" for w
    using that e by (auto simp: o'' sp)
  from c' show thesis
  proof (cases rule: clean_old_vectors_cases)
    case (unchanged x)
    then show thesis using s mem by (intro that(1)) (auto simp: nv_def)
  next
    case (cleaned active prev)
    have "w \<in> set (o_vectors cl) \<longleftrightarrow> w \<in> set (o_vectors offer) \<and> keep_vector active prev w"
      if "v_start_time w \<noteq> 0" for w
      using that cleaned(1) by (auto simp: image_iff)
    with cleaned(2) s mem show thesis
      by (intro that(2) [of active prev]) (auto simp: nv_def split: if_splits)
  qed
qed

lemma add_offer_vector_earlier:
  assumes "add_offer_vector st a ts s_opt bt bp apr d offer = Ok offer'"
    and "w \<in> set (o_vectors offer)" and "v_start_time w \<noteq> 0"
  shows "v_start_time w < accepted_start ts s_opt bt"
  using assms(1)
  by (rule add_offer_vector_Ok)
    (use assms(2,3) in \<open>auto simp: validate_inputs_Ok set_start_times accepted_start_def\<close>)

lemma added_vector_active_from_start:
  assumes wf: "offer_wf offer" and ok: "add_offer_vector st a ts s_opt bt bp apr d offer = Ok offer'"
    and t: "accepted_start ts s_opt bt \<le> t" and nz: "accepted_start ts s_opt bt \<noteq> 0"
  shows "find_active_vector_at offer' t =
    Ok \<lparr>v_start_time = accepted_start ts s_opt bt, v_base_time = bt, v_base_price = bp,
        v_apr = apr, v_price_fix_duration = d\<rparr>" (is "_ = Ok ?nv")
proof (rule find_active_vector_unique)
  show "distinct (start_times (o_vectors offer'))"
    using add_offer_vector_wf [OF wf ok] by (simp add: offer_wf_def)
  have mem: "?nv \<in> set (o_vectors offer')"
    "\<And>w. w \<in> set (o_vectors offer') \<Longrightarrow> v_start_time w \<noteq> 0 \<Longrightarrow> w \<noteq> ?nv \<Longrightarrow> w \<in> set (o_vectors offer)"
    using ok by (rule add_offer_vector_contents; use nz in force)+
  from mem(1) show "?nv \<in> set (o_vectors offer')" .
  show "eligible t ?nv" using t nz by (simp add: eligible_def)
  fix w assume "w \<in> set (o_vectors offer')" "eligible t w"
  with mem(2) add_offer_vector_earlier [OF ok] show "v_start_time w \<le> v_start_time ?nv"
    by (cases "w = ?nv") (auto simp: eligible_def less_imp_le)
qed

lemma added_vector_keeps_active_before_start:
  assumes wf: "offer_wf offer" and ok: "add_offer_vector st a ts s_opt bt bp apr d offer = Ok offer'"
    and t: "i64_as_u64 ts \<le> t" "t < accepted_start ts s_opt bt"
  shows "find_active_vector_at offer' t = find_active_vector_at offer t"
proof -
  have sub: "\<And>w. w \<in> set (o_vectors offer') \<Longrightarrow> eligible t w \<Longrightarrow> w \<in> set (o_vectors offer)"
    using ok by (rule add_offer_vector_contents) (use t in \<open>fastforce simp: eligible_def\<close>)+
  show ?thesis
  proof (cases "find_active_vector_at offer t")
    case (Ok v)
    note act = find_active_vector_Ok [OF Ok]
    have "v \<in> set (o_vectors offer')"
      using ok
    proof (cases rule: add_offer_vector_contents)
      case (cleaned active prev)
      with t obtain u where u: "find_active_vector_at offer (i64_as_u64 ts) = Ok u"
        "active = v_start_time u" by (auto split: if_splits)
      have "active \<le> v_start_time v"
        using act(3) [of u] find_active_vector_Ok [OF u(1)] u(2) t(1) by (auto simp: eligible_def)
      then have "keep_vector active prev v" by (simp add: keep_vector_def)
      with cleaned(2) act show ?thesis by (auto simp: eligible_def)
    qed (use act in \<open>auto simp: eligible_def\<close>)
    then have "find_active_vector_at offer' t = Ok v"
      using add_offer_vector_wf [OF wf ok] act sub
      by (intro find_active_vector_unique) (auto simp: offer_wf_def)
    with Ok show ?thesis by simp
  next
    case (Err e)
    then have "find_active_vector_at offer' t = Err e"
      using sub by (auto simp: find_active_vector_Err)
    with Err show ?thesis by simp
  qed
qed

lemma filter_started_card:
  assumes "distinct (start_times vs)"
    and "\<And>v. v \<in> set vs \<Longrightarrow> eligible t v \<Longrightarrow> v_start_time v \<in> A" and "finite A"
  shows "length (filter (eligible t) vs) \<le> card A"
proof -
  let ?f = "map v_start_time (filter (eligible t) vs)"
  have "distinct ?f"
    using assms(1) by (induction vs) (auto simp: set_start_times eligible_def split: if_splits)
  moreover have "set ?f \<subseteq> A" using assms(2) by auto
  ultimately have "length ?f \<le> card A"
    using card_mono [OF assms(3), of "set ?f"] distinct_card [of ?f] by simp
  then show ?thesis by simp
qed

lemma add_retains_two_started:
  assumes wf: "offer_wf offer" and ok: "add_offer_vector st a ts s_opt bt bp apr d offer = Ok offer'"
  shows "length (filter (eligible (i64_as_u64 ts)) (o_vectors offer')) \<le> 2"
proof -
  let ?now = "i64_as_u64 ts"
  have d: "distinct (start_times (o_vectors offer'))"
    using add_offer_vector_wf [OF wf ok] by (simp add: offer_wf_def)
  from ok obtain active prev where
    "\<And>v. v \<in> set (o_vectors offer') \<Longrightarrow> eligible ?now v \<Longrightarrow> v_start_time v \<in> {active, prev}"
  proof (cases rule: add_offer_vector_contents)
    case (unchanged e)
    then have "\<not> eligible ?now v" if "v \<in> set (o_vectors offer')" for v
      using that by (fastforce simp: eligible_def find_active_vector_Err)
    then show ?thesis using that by blast
  next
    case (cleaned active prev)
    have "v_start_time v \<in> {active, prev}"
      if "v \<in> set (o_vectors offer')" "eligible ?now v" for v
      using that cleaned find_active_vector_Ok(3) [of offer ?now _ v]
      by (fastforce simp: eligible_def keep_vector_def split: if_splits)
    then show ?thesis using that by blast
  qed
  from filter_started_card [OF d this] have "length (filter (eligible ?now) (o_vectors offer')) \<le> card {active, prev}"
    by simp
  also have "\<dots> \<le> 2" by (cases "active = prev") simp_all
  finally show ?thesis .
qed

lemma delete_offer_vector_active:
  assumes "delete_offer_vector st a ts t0 offer = Ok offer'" and "t < t0"
  shows "find_active_vector_at offer' t = find_active_vector_at offer t"
proof -
  from assms(1) obtain i where i: "find_vector_index_by_start_time offer t0 = Some i"
    and o': "offer' = offer\<lparr>o_vectors := (o_vectors offer)[i := default_vector]\<rparr>"
    by (auto simp: delete_offer_vector_def)
  from i show ?thesis
    by (rule vector_index_split)
      (use assms(2) o' in \<open>simp add: find_active_vector_eq eligible_def\<close>)
qed

lemma make_offer_wf:
  assumes "make_offer st a bump fee approval permissionless existing = Ok offer"
  shows "offer_wf offer"
proof -
  have "start_times (replicate n default_vector) = []" for n by (induction n) auto
  then show ?thesis
    using assms
    by (auto simp: make_offer_def offer_wf_def vectors_ok_def zero_offer_def set_disabled_def
        set_permissionless_def set_approval_def const_defs)
qed

section \<open>Properties\<close>

text \<open>An offer made by the boss stays well formed under every sequence of offer
  instructions by anybody: ten slots, distinct start times, no stored vector with a zero base
  time, base price or step duration, and both fees at most 10 percent.\<close>

theorem offer_instructions_keep_offer_well_formed:
  assumes "make_offer st a bump fee approval permissionless None = Ok offer"
  shows "offer_wf (run_ops (exec_offer st') ops offer)"
  using assms by (intro ofm.run_inv make_offer_wf)

definition sample_state :: state where
  "sample_state = zero_state\<lparr>s_boss := 7, s_onyc_mint := 22, s_admins := 9 # replicate 19 0\<rparr>"

definition sample_accounts :: offer_accounts where
  "sample_accounts = \<lparr>oa_token_in_mint = 21, oa_token_out_mint = 22, oa_boss = 7\<rparr>"

definition made_offer :: offer where
  "made_offer = zero_offer\<lparr>o_token_in_mint := 21, o_token_out_mint := 22, o_fee_basis_points := 50,
     o_allow_permissionless := 1, o_bump := 254\<rparr>"

lemma make_sample:
  "make_offer sample_state sample_accounts 254 50 False True None = Ok made_offer"
  by (simp add: make_offer_def sample_state_def sample_accounts_def made_offer_def zero_offer_def
      set_disabled_def set_permissionless_def set_approval_def const_defs)

theorem offer_instructions_keep_offer_well_formed_witness:
  "offer_wf (run_ops (exec_offer sample_state)
     [AddVector sample_accounts 1000 None 1000 1000000000 97600 86400, SetDisabled 9 True] made_offer)"
  by (rule offer_instructions_keep_offer_well_formed [OF make_sample])

text \<open>C29: A vector takes over exactly at its start time: after an accepted
  \<open>add_offer_vector\<close>, the new vector is the active one at every later time, and until its
  start the active vector is the one it would have been without it, whatever the clean-up
  removed.\<close>

theorem added_vector_takes_over_at_its_start:
  assumes "offer_wf offer" and "add_offer_vector st a ts s_opt bt bp apr d offer = Ok offer'"
    and "i64_as_u64 ts \<le> t" and "accepted_start ts s_opt bt \<noteq> 0"
  shows "find_active_vector_at offer' t =
    (if accepted_start ts s_opt bt \<le> t
     then Ok \<lparr>v_start_time = accepted_start ts s_opt bt, v_base_time = bt, v_base_price = bp,
              v_apr = apr, v_price_fix_duration = d\<rparr>
     else find_active_vector_at offer t)"
  using added_vector_active_from_start [OF assms(1,2) _ assms(4)]
    added_vector_keeps_active_before_start [OF assms(1,2,3)] by (simp add: not_le)

definition one_vector_offer :: offer where
  "one_vector_offer = made_offer\<lparr>o_vectors := sample_vector # replicate 9 default_vector\<rparr>"

lemmas offer_eval_simps =
  add_offer_vector_def validate_inputs_def clean_old_vectors_def check_offer_accounts_def
  find_active_vector_at_def find_vector_index_by_start_time_def default_vector_def sample_vector_def
  sample_state_def sample_accounts_def made_offer_def zero_offer_def one_vector_offer_def
  i64_as_u64_def const_defs

lemma ten_slots: "replicate 10 x = x # replicate 9 x"
proof -
  have "(10::nat) = Suc 9" by simp
  then show ?thesis by (simp only: replicate_Suc)
qed

lemma made_offer_wf: "offer_wf made_offer"
proof -
  have "start_times (replicate n default_vector) = []" for n by (induction n) auto
  then show ?thesis
    by (simp add: offer_wf_def made_offer_def zero_offer_def vectors_ok_def const_defs)
qed

lemma add_sample_vector:
  "add_offer_vector sample_state sample_accounts 1000 None 1000 1000000000 97600 86400 made_offer =
     Ok one_vector_offer"
  by (simp add: offer_eval_simps ten_slots Let_def cong: eval_congs)

theorem added_vector_takes_over_at_its_start_witness:
  "find_active_vector_at one_vector_offer 5000 = Ok sample_vector"
  using added_vector_takes_over_at_its_start [OF made_offer_wf add_sample_vector, of 5000]
  by (simp add: accepted_start_def i64_as_u64_def sample_vector_def)

text \<open>The clean-up of \<open>add_offer_vector\<close> bounds the history: after a successful call at
  most two of the stored vectors have started, the active one and its predecessor, so the
  remaining slots are free for future vectors.\<close>

theorem add_vector_leaves_two_started:
  assumes "offer_wf offer" and "add_offer_vector st a ts s_opt bt bp apr d offer = Ok offer'"
  shows "length (filter (\<lambda>v. v_start_time v \<noteq> 0 \<and> v_start_time v \<le> i64_as_u64 ts)
    (o_vectors offer')) \<le> 2"
  using add_retains_two_started [OF assms] by (simp add: eligible_def [abs_def])

theorem add_vector_leaves_two_started_witness:
  "length (filter (\<lambda>v. v_start_time v \<noteq> 0 \<and> v_start_time v \<le> i64_as_u64 1000)
    (o_vectors one_vector_offer)) \<le> 2"
  by (rule add_vector_leaves_two_started [OF made_offer_wf add_sample_vector])

text \<open>Deleting a vector never changes the price in force: it is only possible for a vector
  that has not started, and at every time before that vector's start the active vector is the
  same as before the deletion.\<close>

theorem delete_vector_keeps_price_in_force:
  assumes "delete_offer_vector st a ts start offer = Ok offer'"
  shows "i64_as_u64 ts < start \<and>
    (\<forall>t < start. get_active_vector_and_current_price offer' t =
       get_active_vector_and_current_price offer t)"
  using assms delete_offer_vector_active [OF assms]
  by (auto simp: delete_offer_vector_def get_active_vector_and_current_price_def)

theorem delete_vector_keeps_price_in_force_witness:
  "get_active_vector_and_current_price made_offer 999 =
     get_active_vector_and_current_price one_vector_offer 999"
proof -
  have "delete_offer_vector sample_state sample_accounts 500 1000 one_vector_offer = Ok made_offer"
    by (simp add: offer_eval_simps delete_offer_vector_def ten_slots cong: eval_congs)
  from delete_vector_keeps_price_in_force [OF this] show ?thesis by simp
qed

text \<open>C40: A vector that has started may have no price: from the boss, on an offer with an empty
  slot, \<open>add_offer_vector\<close> accepts every start that is not in the past and comes after the stored
  ones, whatever the base time, and when the base time is later the offer has an active vector
  from the start on while every price computation fails with \<open>NoActiveVector\<close> until the base
  time.\<close>

theorem started_vector_without_price:
  assumes "offer_wf offer" and "check_offer_accounts st a offer = Ok ()"
    and "i64_as_u64 ts \<le> s" and "0 < s" and "0 < bp" and "0 < d"
    and "\<forall>v \<in> set (o_vectors offer). v_start_time v < s"
    and "\<exists>v \<in> set (o_vectors offer). v_start_time v = 0"
    and "s < bt"
  shows "\<exists>offer'. add_offer_vector st a ts (Some s) bt bp apr d offer = Ok offer' \<and>
    (\<forall>t. s \<le> t \<and> t < bt \<longrightarrow> is_ok (find_active_vector_at offer' t) \<and>
      compute_offer_current_price offer' t = Err NoActiveVector)"
proof -
  from assms obtain offer' where
    ok: "add_offer_vector st a ts (Some s) bt bp apr d offer = Ok offer'"
    using add_offer_vector_accepts [of st a offer ts s bt bp d apr] by auto
  have "is_ok (find_active_vector_at offer' t) \<and>
      compute_offer_current_price offer' t = Err NoActiveVector" if "s \<le> t" "t < bt" for t
    using added_vector_active_from_start [OF assms(1) ok, of t] that assms(4)
    by (simp add: accepted_start_def is_ok_def compute_offer_current_price_def
        get_active_vector_and_current_price_def calculate_step_price_at_def)
  with ok show ?thesis by blast
qed

theorem started_vector_without_price_witness:
  "\<exists>offer'. add_offer_vector sample_state sample_accounts 1000 (Some 1000) 9000 1000000000 97600
      86400 made_offer = Ok offer' \<and>
    (\<forall>t. 1000 \<le> t \<and> t < 9000 \<longrightarrow> is_ok (find_active_vector_at offer' t) \<and>
      compute_offer_current_price offer' t = Err NoActiveVector)"
  by (rule started_vector_without_price [OF made_offer_wf])
    (simp_all add: offer_eval_simps ten_slots Let_def cong: eval_congs)

end
