(* ===== verification/Token_Ops.thy ===== *)
theory Token_Ops
  imports Math_Utils
begin

text \<open>
  Token amounts and token movements (\<open>utils/token_utils.rs\<close>): the conversion of an input
  amount at a price, the fee split, the supply and mint caps, and the routing of a token
  exchange.

  The token program is not part of the repository. Its three instructions are fields of the
  parameter \<open>spl\<close>, a function each from the ledger to the ledger or an error, and
  \<open>spl_laws\<close> states what the program relies on when they succeed: a transfer moves the amount
  between two accounts, a mint adds it to an account and to the supply, a burn removes it from
  both, and none of them runs an account or a supply below zero or past \<open>u64\<close>.
\<close>

section \<open>Amounts\<close>

definition MAX_BASIS_POINTS :: u16 where [const_defs]: "MAX_BASIS_POINTS = 10000"
definition PRICE_DECIMALS :: u8 where [const_defs]: "PRICE_DECIMALS = 9"
definition MAX_TOKEN_DECIMALS :: u8 where [const_defs]: "MAX_TOKEN_DECIMALS = 18"

definition calculate_token_out_amount :: "u64 \<Rightarrow> u64 \<Rightarrow> u8 \<Rightarrow> u8 \<Rightarrow> u64 result" where
  "calculate_token_out_amount token_in_amount price token_in_decimals token_out_decimals =
     require (price > 0) ZeroPriceNotAllowed (
     require (token_in_decimals \<le> MAX_TOKEN_DECIMALS) DecimalsExceedMax (
     require (token_out_decimals \<le> MAX_TOKEN_DECIMALS) DecimalsExceedMax (
     and_then (ok_or (checked_mul u128_max token_in_amount
         (10 ^ (token_out_decimals + PRICE_DECIMALS))) MathOverflow) (\<lambda>numerator.
     and_then (ok_or (checked_mul u128_max price (10 ^ token_in_decimals)) MathOverflow)
       (\<lambda>denominator.
     let r = numerator div denominator in
     require (r \<le> u64_max) ResultOverflow (
     require (r > 0) InvalidAmount (
     Ok (as_u64 r))))))))"

record calculate_fee_result =
  fr_token_in_fee_amount :: u64
  fr_token_in_net_amount :: u64

definition calculate_fees :: "u64 \<Rightarrow> u16 \<Rightarrow> calculate_fee_result result" where
  "calculate_fees token_in_amount fee_basis_points =
     and_then (ok_or (checked_mul u128_max token_in_amount fee_basis_points) MathOverflow)
       (\<lambda>fee_numerator.
     and_then (ok_or (ceil_div_u128 fee_numerator MAX_BASIS_POINTS) MathOverflow) (\<lambda>fee.
     let token_fee_amount = as_u64 fee in
     and_then (ok_or (checked_sub token_in_amount token_fee_amount) MathOverflow)
       (\<lambda>token_net_amount.
     Ok \<lparr>fr_token_in_fee_amount = token_fee_amount, fr_token_in_net_amount = token_net_amount\<rparr>)))"

definition validate_max_supply :: "u64 \<Rightarrow> u64 \<Rightarrow> u64 \<Rightarrow> unit result" where
  "validate_max_supply current_supply amount max_supply =
     (if max_supply > 0 then
        and_then (ok_or (checked_add u64_max current_supply amount) MathOverflow) (\<lambda>new_supply.
        require (new_supply \<le> max_supply) MaxSupplyExceeded (Ok ()))
      else Ok ())"

section \<open>The ledger and the token program\<close>

text \<open>Balances by token account address, supplies by mint address.\<close>

record ledger =
  l_bal :: "pubkey \<Rightarrow> u64"
  l_supply :: "pubkey \<Rightarrow> u64"

text \<open>
  A loaded mint account and the token program that owns it. \<open>m_supply\<close> is the supply at the time the account was loaded, which a
  \<open>reload\<close> brings up to date; \<open>m_epoch_fee\<close> is the current epoch's transfer fee (basis points,
  maximum) when the mint has the transfer-fee extension.
\<close>

record mint =
  m_key :: pubkey
  m_owner :: pubkey
  m_decimals :: u8
  m_mint_authority :: "pubkey option"
  m_supply :: u64
  m_epoch_fee :: "(u16 \<times> u64) option"

definition reload :: "ledger \<Rightarrow> mint \<Rightarrow> mint" where
  "reload L m = m\<lparr>m_supply := l_supply L (m_key m)\<rparr>"

record spl_token =
  transfer_checked :: "ledger \<Rightarrow> pubkey \<Rightarrow> pubkey \<Rightarrow> pubkey \<Rightarrow> pubkey \<Rightarrow> u64 \<Rightarrow> u8 \<Rightarrow> ledger result"
  mint_to_checked :: "ledger \<Rightarrow> pubkey \<Rightarrow> pubkey \<Rightarrow> pubkey \<Rightarrow> u64 \<Rightarrow> u8 \<Rightarrow> ledger result"
  burn_checked :: "ledger \<Rightarrow> pubkey \<Rightarrow> pubkey \<Rightarrow> pubkey \<Rightarrow> u64 \<Rightarrow> u8 \<Rightarrow> ledger result"

definition credit :: "pubkey \<Rightarrow> u64 \<Rightarrow> (pubkey \<Rightarrow> u64) \<Rightarrow> pubkey \<Rightarrow> u64" where
  "credit a n f = f(a := f a + n)"

definition debit :: "pubkey \<Rightarrow> u64 \<Rightarrow> (pubkey \<Rightarrow> u64) \<Rightarrow> pubkey \<Rightarrow> u64" where
  "debit a n f = f(a := f a - n)"

definition spl_laws :: "spl_token \<Rightarrow> bool" where
  "spl_laws spl \<longleftrightarrow>
     (\<forall>L m src dst auth n dec L'. transfer_checked spl L m src dst auth n dec = Ok L' \<longrightarrow>
        n \<le> l_bal L src \<and> L' = L\<lparr>l_bal := credit dst n (debit src n (l_bal L))\<rparr>) \<and>
     (\<forall>L m dst auth n dec L'. mint_to_checked spl L m dst auth n dec = Ok L' \<longrightarrow>
        l_supply L m + n \<le> u64_max \<and>
        L' = L\<lparr>l_bal := credit dst n (l_bal L), l_supply := credit m n (l_supply L)\<rparr>) \<and>
     (\<forall>L m src auth n dec L'. burn_checked spl L m src auth n dec = Ok L' \<longrightarrow>
        n \<le> l_bal L src \<and> n \<le> l_supply L m \<and>
        L' = L\<lparr>l_bal := debit src n (l_bal L), l_supply := debit m n (l_supply L)\<rparr>)"

definition transfer_tokens ::
  "spl_token \<Rightarrow> mint \<Rightarrow> pubkey \<Rightarrow> pubkey \<Rightarrow> pubkey \<Rightarrow> u64 \<Rightarrow> ledger \<Rightarrow> ledger result" where
  "transfer_tokens spl mint from_account to_account authority amount L =
     transfer_checked spl L (m_key mint) from_account to_account authority amount (m_decimals mint)"

definition mint_tokens ::
  "spl_token \<Rightarrow> mint \<Rightarrow> pubkey \<Rightarrow> pubkey \<Rightarrow> u64 \<Rightarrow> u64 \<Rightarrow> u64 \<Rightarrow> ledger \<Rightarrow> ledger result" where
  "mint_tokens spl mint to_account authority amount max_supply max_mint_amount L =
     require (max_mint_amount > 0 \<longrightarrow> amount \<le> max_mint_amount) MaxMintAmountExceeded (
     and_then (validate_max_supply (m_supply mint) amount max_supply) (\<lambda>_.
     mint_to_checked spl L (m_key mint) to_account authority amount (m_decimals mint)))"

definition burn_tokens ::
  "spl_token \<Rightarrow> mint \<Rightarrow> pubkey \<Rightarrow> pubkey \<Rightarrow> u64 \<Rightarrow> ledger \<Rightarrow> ledger result" where
  "burn_tokens spl mint from_account authority amount L =
     burn_checked spl L (m_key mint) from_account authority amount (m_decimals mint)"

definition program_controls_mint :: "mint \<Rightarrow> pubkey \<Rightarrow> bool" where
  "program_controls_mint mint mint_authority_pda \<longleftrightarrow> m_mint_authority mint = Some mint_authority_pda"

definition has_transfer_fee :: "mint \<Rightarrow> bool" where
  "has_transfer_fee mint =
     (case m_epoch_fee mint of
        Some (transfer_fee_basis_points, maximum_fee) \<Rightarrow>
          transfer_fee_basis_points > 0 \<or> maximum_fee > 0
      | None \<Rightarrow> False)"

section \<open>The token exchange\<close>

record exec_token_ops_params =
  p_token_in_mint :: mint
  p_token_in_net_amount :: u64
  p_token_in_fee_amount :: u64
  p_token_in_authority :: pubkey
  p_token_in_source_account :: pubkey
  p_token_in_destination_account :: pubkey
  p_token_in_refill_destination_account :: "pubkey option"
  p_token_in_refill_amount :: u64
  p_token_in_fee_destination_account :: pubkey
  p_token_in_burn_account :: pubkey
  p_token_in_burn_authority :: pubkey
  p_token_out_mint :: mint
  p_token_out_amount :: u64
  p_token_out_authority :: pubkey
  p_token_out_source_account :: pubkey
  p_token_out_destination_account :: pubkey
  p_mint_authority_pda :: pubkey
  p_token_out_max_supply :: u64
  p_token_out_max_mint_amount :: u64

text \<open>Step 1, the payment: burn the net amount, or split it between refill and proceeds.\<close>

definition pay_token_in :: "spl_token \<Rightarrow> exec_token_ops_params \<Rightarrow> ledger \<Rightarrow> ledger result" where
  "pay_token_in spl p L =
     (let from_source = (\<lambda>dst n. transfer_tokens spl (p_token_in_mint p)
            (p_token_in_source_account p) dst (p_token_in_authority p) n);
          pay_fee = (\<lambda>L. if p_token_in_fee_amount p > 0
            then from_source (p_token_in_fee_destination_account p) (p_token_in_fee_amount p) L
            else Ok L)
      in
      if program_controls_mint (p_token_in_mint p) (p_mint_authority_pda p) then
        require (p_token_in_refill_amount p = 0) InvalidAmount (
        and_then (from_source (p_token_in_burn_account p) (p_token_in_net_amount p) L) (\<lambda>L.
        and_then (burn_tokens spl (p_token_in_mint p) (p_token_in_burn_account p)
            (p_token_in_burn_authority p) (p_token_in_net_amount p) L) (\<lambda>L.
        pay_fee L)))
      else
        require (p_token_in_refill_amount p \<le> p_token_in_net_amount p) InvalidAmount (
        and_then (ok_or (checked_sub (p_token_in_net_amount p) (p_token_in_refill_amount p))
            ArithmeticUnderflow) (\<lambda>proceeds_amount.
        and_then (if p_token_in_refill_amount p > 0
            then and_then (ok_or (p_token_in_refill_destination_account p)
                InvalidVaultTokenInAccount) (\<lambda>refill_destination.
              from_source refill_destination (p_token_in_refill_amount p) L)
            else Ok L) (\<lambda>L.
        and_then (if proceeds_amount > 0
            then from_source (p_token_in_destination_account p) proceeds_amount L
            else Ok L) (\<lambda>L.
        pay_fee L)))))"

text \<open>Step 2, the distribution: mint to the user, or pay from the vault.\<close>

definition distribute_token_out :: "spl_token \<Rightarrow> exec_token_ops_params \<Rightarrow> ledger \<Rightarrow> ledger result"
  where
  "distribute_token_out spl p L =
     (if program_controls_mint (p_token_out_mint p) (p_mint_authority_pda p) then
        mint_tokens spl (p_token_out_mint p) (p_token_out_destination_account p)
          (p_mint_authority_pda p) (p_token_out_amount p) (p_token_out_max_supply p)
          (p_token_out_max_mint_amount p) L
      else
        transfer_tokens spl (p_token_out_mint p) (p_token_out_source_account p)
          (p_token_out_destination_account p) (p_token_out_authority p) (p_token_out_amount p) L)"

definition execute_token_operations :: "spl_token \<Rightarrow> exec_token_ops_params \<Rightarrow> ledger \<Rightarrow> ledger result"
  where
  "execute_token_operations spl p L =
     require (\<not> has_transfer_fee (p_token_in_mint p)) TransferFeeNotSupported (
     require (\<not> has_transfer_fee (p_token_out_mint p)) TransferFeeNotSupported (
     and_then (pay_token_in spl p L) (\<lambda>L.
     distribute_token_out spl p L)))"

section \<open>The token program at work\<close>

lemma transfer_tokens_Ok:
  assumes "spl_laws spl" and "transfer_tokens spl m src dst auth n L = Ok L'"
  shows "n \<le> l_bal L src" and "L' = L\<lparr>l_bal := credit dst n (debit src n (l_bal L))\<rparr>"
  using assms unfolding spl_laws_def transfer_tokens_def by auto

lemma burn_tokens_Ok:
  assumes "spl_laws spl" and "burn_tokens spl m src auth n L = Ok L'"
  shows "n \<le> l_bal L src" and "n \<le> l_supply L (m_key m)"
    and "L' = L\<lparr>l_bal := debit src n (l_bal L), l_supply := debit (m_key m) n (l_supply L)\<rparr>"
  using assms unfolding spl_laws_def burn_tokens_def by auto

lemma validate_max_supply_Ok:
  "validate_max_supply cur n mx = Ok () \<longleftrightarrow> (0 < mx \<longrightarrow> cur + n \<le> u64_max \<and> cur + n \<le> mx)"
  by (auto simp: validate_max_supply_def)

lemma mint_tokens_Ok:
  assumes "spl_laws spl" and "mint_tokens spl m dst auth n max_supply max_mint L = Ok L'"
  shows "l_supply L (m_key m) + n \<le> u64_max"
    and "L' = L\<lparr>l_bal := credit dst n (l_bal L), l_supply := credit (m_key m) n (l_supply L)\<rparr>"
    and "0 < max_mint \<Longrightarrow> n \<le> max_mint"
    and "0 < max_supply \<Longrightarrow> m_supply m + n \<le> max_supply"
  using assms unfolding spl_laws_def mint_tokens_def
  by (auto simp: validate_max_supply_Ok)

lemma credit_debit_simps [simp]:
  "credit a n f a = f a + n" "b \<noteq> a \<Longrightarrow> credit a n f b = f b"
  "debit a n f a = f a - n" "b \<noteq> a \<Longrightarrow> debit a n f b = f b"
  by (simp_all add: credit_def debit_def)

section \<open>Fees\<close>

lemma calculate_fees_Ok:
  assumes "calculate_fees amount bps = Ok r"
  shows "fr_token_in_fee_amount r + fr_token_in_net_amount r = amount"
  using assms by (auto simp: calculate_fees_def Let_def)

lemma calculate_fees_total:
  assumes a: "amount \<le> u64_max" and b: "bps \<le> MAX_BASIS_POINTS"
  defines "fee \<equiv> (amount * bps + 9999) div 10000"
  shows "calculate_fees amount bps =
      Ok \<lparr>fr_token_in_fee_amount = fee, fr_token_in_net_amount = amount - fee\<rparr>"
    and "fee \<le> amount"
proof -
  have "amount * bps \<le> amount * 10000" using b by (simp add: const_defs)
  then have "(amount * bps + (10000 - 1)) div 10000 \<le> amount" by (rule ceil_div_le_self) simp
  then show fee: "fee \<le> amount" by (simp add: fee_def)
  have m: "amount * bps + 9999 \<le> u128_max"
    using a b mult_le_mono [of amount u64_max bps 10000] by (simp add: const_defs int_defs)
  then have "ceil_div_u128 (amount * bps) MAX_BASIS_POINTS = Some fee"
    by (simp add: ceil_div_u128_eq_Some fee_def const_defs)
  with m fee a show "calculate_fees amount bps =
      Ok \<lparr>fr_token_in_fee_amount = fee, fr_token_in_net_amount = amount - fee\<rparr>"
    by (simp add: calculate_fees_def as_u64_id checked_sub_def checked_mul_def)
qed

text \<open>
  The contract every fee computation of the program shares: what is charged and what is left
  add up to what was paid. The clients' facts follow once and for all.
\<close>

locale fee_policy =
  fixes charge :: "'c \<Rightarrow> u64 \<Rightarrow> calculate_fee_result result"
  assumes charge_splits: "charge c amount = Ok r \<Longrightarrow>
    fr_token_in_fee_amount r + fr_token_in_net_amount r = amount"
begin

lemma fee_le: "charge c amount = Ok r \<Longrightarrow> fr_token_in_fee_amount r \<le> amount"
  by (drule charge_splits) simp

lemma net_le: "charge c amount = Ok r \<Longrightarrow> fr_token_in_net_amount r \<le> amount"
  by (drule charge_splits) simp

lemma net_eq: "charge c amount = Ok r \<Longrightarrow> fr_token_in_net_amount r = amount - fr_token_in_fee_amount r"
  by (drule charge_splits) simp

end

interpretation plain_fee: fee_policy "\<lambda>bps amount. calculate_fees amount bps"
  by unfold_locales (rule calculate_fees_Ok)

section \<open>Conversion\<close>

lemma token_out_amount_Ok:
  "calculate_token_out_amount amount price d_in d_out = Ok r \<longleftrightarrow>
     0 < price \<and> d_in \<le> 18 \<and> d_out \<le> 18 \<and> amount * 10 ^ (d_out + 9) \<le> u128_max \<and>
     price * 10 ^ d_in \<le> u128_max \<and> r = amount * 10 ^ (d_out + 9) div (price * 10 ^ d_in) \<and>
     0 < r \<and> r \<le> u64_max"
  by (auto simp: calculate_token_out_amount_def Let_def as_u64_id const_defs)


lemma fee_ceiling_bounds:
  assumes "calculate_fees amount bps = Ok r" and "amount \<le> u64_max" and "bps \<le> MAX_BASIS_POINTS"
  shows "amount * bps \<le> fr_token_in_fee_amount r * 10000"
    and "fr_token_in_fee_amount r * 10000 < amount * bps + 10000"
  using assms calculate_fees_total(1) [OF assms(2,3)] by auto

text \<open>
  For every amount that fits in 64 bits and every fee of at most 100%, \<open>calculate_fees\<close>
  returns a result; fee and net amount add up to the amount paid exactly, and the fee is the
  smallest whole number of tokens that is at least the stated share, so rounding favours the
  protocol by less than one base unit.
\<close>

theorem fee_split_exact_and_rounded_up:
  assumes "amount \<le> u64_max" and "bps \<le> MAX_BASIS_POINTS"
  shows "\<exists>r. calculate_fees amount bps = Ok r \<and>
    fr_token_in_fee_amount r + fr_token_in_net_amount r = amount \<and>
    amount * bps \<le> fr_token_in_fee_amount r * 10000 \<and>
    fr_token_in_fee_amount r * 10000 < amount * bps + 10000"
proof -
  obtain r where r: "calculate_fees amount bps = Ok r"
    using calculate_fees_total(1) [OF assms] by blast
  show ?thesis
    using r plain_fee.charge_splits [OF r] fee_ceiling_bounds [OF r assms] by blast
qed

theorem fee_split_exact_and_rounded_up_witness:
  "\<exists>r. calculate_fees 1001 500 = Ok r \<and>
    fr_token_in_fee_amount r + fr_token_in_net_amount r = 1001 \<and>
    1001 * 500 \<le> fr_token_in_fee_amount r * 10000 \<and>
    fr_token_in_fee_amount r * 10000 < 1001 * 500 + 10000"
  using fee_split_exact_and_rounded_up [of 1001 500] by (simp add: const_defs int_defs)

lemma div_add_div_le: "a div k + b div k \<le> (a + b) div (k::nat)"
  by (cases "k = 0") (simp_all add: less_eq_div_iff_mult_less_eq add_mult_distrib add_mono)

text \<open>
  The tokens \<open>calculate_token_out_amount\<close> pays out are worth at most what was paid in at the
  price, and one base unit more would be worth more than that; and splitting a purchase in two
  never pays out more than making it at once.
\<close>

theorem token_out_never_overpays:
  assumes "calculate_token_out_amount a price d_in d_out = Ok r"
    and "calculate_token_out_amount b price d_in d_out = Ok s"
    and "calculate_token_out_amount (a + b) price d_in d_out = Ok t"
  shows "r * price * 10 ^ d_in \<le> a * 10 ^ (d_out + 9) \<and>
    a * 10 ^ (d_out + 9) < (r + 1) * price * 10 ^ d_in \<and> r + s \<le> t"
proof -
  define k n where "k = price * 10 ^ d_in" and "n = (10::nat) ^ (d_out + 9)"
  have k: "0 < k" and r: "r = a * n div k" and s: "s = b * n div k" and t: "t = (a + b) * n div k"
    using assms by (auto simp: token_out_amount_Ok k_def n_def)
  have "r * k \<le> a * n" by (simp add: r)
  moreover have "a * n < (r + 1) * k"
    unfolding r using dividend_less_div_times [OF k, of "a * n"] by (simp add: algebra_simps)
  moreover have "r + s \<le> t"
    unfolding r s t using div_add_div_le [of "a * n" k "b * n"] by (simp add: algebra_simps)
  ultimately show ?thesis by (simp add: k_def n_def mult.assoc add_mult_distrib)
qed

theorem token_out_never_overpays_witness:
  "500 * 2000000000 * 10 ^ 6 \<le> (1000::nat) * 10 ^ (6 + 9) \<and>
   (1000::nat) * 10 ^ (6 + 9) < (500 + 1) * 2000000000 * 10 ^ 6 \<and>
   calculate_token_out_amount 1000 2000000000 6 6 = Ok 500 \<and> 500 + 500 \<le> (1000::nat)"
proof -
  have "calculate_token_out_amount 1000 2000000000 6 6 = Ok 500"
    and "calculate_token_out_amount (1000 + 1000) 2000000000 6 6 = Ok 1000"
    by (simp_all add: token_out_amount_Ok int_defs)
  then show ?thesis using token_out_never_overpays [of 1000 2000000000 6 6 500 1000 500 1000] by simp
qed

section \<open>Routing of the exchange\<close>

text \<open>
  Every instruction changes balances and supplies by signed amounts, whichever accounts
  coincide; \<open>part b n\<close> is \<open>n\<close> where \<open>b\<close> holds.
\<close>

definition part :: "bool \<Rightarrow> u64 \<Rightarrow> int" where
  "part b n = (if b then int n else 0)"

lemma part_simps [simp]: "part True n = int n" "part False n = 0" "part b 0 = 0"
  by (simp_all add: part_def)

lemma int_credit: "int (credit d n f a) = int (f a) + part (a = d) n"
  by (simp add: credit_def part_def)

lemma int_debit: "n \<le> f d \<Longrightarrow> int (debit d n f a) = int (f a) - part (a = d) n"
  by (simp add: debit_def part_def)

lemma transfer_tokens_effect:
  assumes "spl_laws spl" and "transfer_tokens spl m src dst auth n L = Ok L'"
  shows "int (l_bal L' a) = int (l_bal L a) + part (a = dst) n - part (a = src) n"
    and "l_supply L' = l_supply L"
  using transfer_tokens_Ok [OF assms] by (simp_all add: int_credit int_debit)

lemma burn_tokens_effect:
  assumes "spl_laws spl" and "burn_tokens spl m src auth n L = Ok L'"
  shows "int (l_bal L' a) = int (l_bal L a) - part (a = src) n"
    and "int (l_supply L' k) = int (l_supply L k) - part (k = m_key m) n"
  using burn_tokens_Ok [OF assms] by (simp_all add: int_debit)

lemma mint_tokens_effect:
  assumes "spl_laws spl" and "mint_tokens spl m dst auth n max_supply max_mint L = Ok L'"
  shows "int (l_bal L' a) = int (l_bal L a) + part (a = dst) n"
    and "int (l_supply L' k) = int (l_supply L k) + part (k = m_key m) n"
  using mint_tokens_Ok(2) [OF assms] by (simp_all add: int_credit)

lemma optional_transfer_effect:
  assumes "spl_laws spl"
    and "(if 0 < n then transfer_tokens spl m src dst auth n L else Ok L) = Ok L'"
  shows "int (l_bal L' a) = int (l_bal L a) + part (a = dst) n - part (a = src) n"
    and "l_supply L' = l_supply L"
  using assms transfer_tokens_effect [OF assms(1)] by (auto split: if_splits)

lemma refill_transfer_effect:
  assumes "spl_laws spl"
    and "(if 0 < n then and_then (ok_or dst e) (\<lambda>d. transfer_tokens spl m src d auth n L) else Ok L)
      = Ok L'"
  shows "int (l_bal L' a) = int (l_bal L a) + part (dst = Some a) n - part (a = src) n"
    and "l_supply L' = l_supply L"
proof -
  consider "n = 0" "L' = L" | d where "dst = Some d" "transfer_tokens spl m src d auth n L = Ok L'"
    using assms(2) by (auto split: if_splits)
  then have "int (l_bal L' a) = int (l_bal L a) + part (dst = Some a) n - part (a = src) n
    \<and> l_supply L' = l_supply L"
  proof cases
    case (2 d)
    show ?thesis using transfer_tokens_effect [OF assms(1) 2(2)] 2(1) by (simp add: eq_commute [of d])
  qed simp
  then show "int (l_bal L' a) = int (l_bal L a) + part (dst = Some a) n - part (a = src) n"
    and "l_supply L' = l_supply L"
    by simp_all
qed

lemma pay_token_in_burn_effect:
  assumes laws: "spl_laws spl" and ok: "pay_token_in spl p L = Ok L'"
    and ctl: "program_controls_mint (p_token_in_mint p) (p_mint_authority_pda p)"
  shows "int (l_bal L' a) = int (l_bal L a)
      - part (a = p_token_in_source_account p) (p_token_in_net_amount p + p_token_in_fee_amount p)
      + part (a = p_token_in_fee_destination_account p) (p_token_in_fee_amount p)"
    and "int (l_supply L' k) = int (l_supply L k)
      - part (k = m_key (p_token_in_mint p)) (p_token_in_net_amount p)"
    and "p_token_in_refill_amount p = 0"
proof -
  let ?src = "p_token_in_source_account p" and ?auth = "p_token_in_authority p"
  let ?m = "p_token_in_mint p" and ?net = "p_token_in_net_amount p"
  obtain L1 L2 where 1: "transfer_tokens spl ?m ?src (p_token_in_burn_account p) ?auth ?net L = Ok L1"
    and 2: "burn_tokens spl ?m (p_token_in_burn_account p) (p_token_in_burn_authority p) ?net L1 = Ok L2"
    and 3: "(if 0 < p_token_in_fee_amount p then transfer_tokens spl ?m ?src
        (p_token_in_fee_destination_account p) ?auth (p_token_in_fee_amount p) L2 else Ok L2) = Ok L'"
    and 4: "p_token_in_refill_amount p = 0"
    using ok ctl unfolding pay_token_in_def Let_def by (auto split del: if_split)
  note e = transfer_tokens_effect [OF laws 1] burn_tokens_effect [OF laws 2]
    optional_transfer_effect [OF laws 3]
  show "int (l_bal L' a) = int (l_bal L a)
      - part (a = ?src) (?net + p_token_in_fee_amount p)
      + part (a = p_token_in_fee_destination_account p) (p_token_in_fee_amount p)"
    by (simp add: e) (simp add: part_def)
  show "int (l_supply L' k) = int (l_supply L k) - part (k = m_key ?m) ?net" by (simp add: e)
  show "p_token_in_refill_amount p = 0" by (fact 4)
qed

lemma pay_token_in_split_effect:
  assumes laws: "spl_laws spl" and ok: "pay_token_in spl p L = Ok L'"
    and ctl: "\<not> program_controls_mint (p_token_in_mint p) (p_mint_authority_pda p)"
  shows "int (l_bal L' a) = int (l_bal L a)
      - part (a = p_token_in_source_account p) (p_token_in_net_amount p + p_token_in_fee_amount p)
      + part (p_token_in_refill_destination_account p = Some a) (p_token_in_refill_amount p)
      + part (a = p_token_in_destination_account p)
          (p_token_in_net_amount p - p_token_in_refill_amount p)
      + part (a = p_token_in_fee_destination_account p) (p_token_in_fee_amount p)"
    and "l_supply L' = l_supply L"
    and "p_token_in_refill_amount p \<le> p_token_in_net_amount p"
proof -
  let ?src = "p_token_in_source_account p" and ?auth = "p_token_in_authority p"
  let ?m = "p_token_in_mint p" and ?refill = "p_token_in_refill_amount p"
  let ?rest = "p_token_in_net_amount p - ?refill"
  obtain L1 L2 where 1: "(if 0 < ?refill then and_then (ok_or (p_token_in_refill_destination_account p)
        InvalidVaultTokenInAccount) (\<lambda>d. transfer_tokens spl ?m ?src d ?auth ?refill L) else Ok L) = Ok L1"
    and 2: "(if 0 < ?rest then transfer_tokens spl ?m ?src (p_token_in_destination_account p) ?auth
        ?rest L1 else Ok L1) = Ok L2"
    and 3: "(if 0 < p_token_in_fee_amount p then transfer_tokens spl ?m ?src
        (p_token_in_fee_destination_account p) ?auth (p_token_in_fee_amount p) L2 else Ok L2) = Ok L'"
    and le: "?refill \<le> p_token_in_net_amount p"
    using ok ctl unfolding pay_token_in_def Let_def
    by (auto simp del: zero_less_diff split del: if_split)
  note e = refill_transfer_effect [OF laws 1] optional_transfer_effect [OF laws 2]
    optional_transfer_effect [OF laws 3]
  show "int (l_bal L' a) = int (l_bal L a)
      - part (a = ?src) (p_token_in_net_amount p + p_token_in_fee_amount p)
      + part (p_token_in_refill_destination_account p = Some a) ?refill
      + part (a = p_token_in_destination_account p) ?rest
      + part (a = p_token_in_fee_destination_account p) (p_token_in_fee_amount p)"
    using le by (simp add: e) (simp add: part_def of_nat_diff)
  show "l_supply L' = l_supply L" by (simp add: e)
  show "?refill \<le> p_token_in_net_amount p" by (fact le)
qed


lemma exchange_effect:
  assumes laws: "spl_laws spl" and ok: "execute_token_operations spl p L = Ok L'"
  defines "burns \<equiv> program_controls_mint (p_token_in_mint p) (p_mint_authority_pda p)"
    and "mints \<equiv> program_controls_mint (p_token_out_mint p) (p_mint_authority_pda p)"
  shows "(\<forall>a. int (l_bal L' a) = int (l_bal L a)
        - part (a = p_token_in_source_account p) (p_token_in_net_amount p + p_token_in_fee_amount p)
        + part (\<not> burns \<and> p_token_in_refill_destination_account p = Some a) (p_token_in_refill_amount p)
        + part (\<not> burns \<and> a = p_token_in_destination_account p)
            (p_token_in_net_amount p - p_token_in_refill_amount p)
        + part (a = p_token_in_fee_destination_account p) (p_token_in_fee_amount p)
        - part (\<not> mints \<and> a = p_token_out_source_account p) (p_token_out_amount p)
        + part (a = p_token_out_destination_account p) (p_token_out_amount p)) \<and>
    (\<forall>k. int (l_supply L' k) = int (l_supply L k)
        - part (burns \<and> k = m_key (p_token_in_mint p)) (p_token_in_net_amount p)
        + part (mints \<and> k = m_key (p_token_out_mint p)) (p_token_out_amount p)) \<and>
    p_token_in_refill_amount p \<le> (if burns then 0 else p_token_in_net_amount p) \<and>
    (mints \<and> 0 < p_token_out_max_mint_amount p \<longrightarrow>
        p_token_out_amount p \<le> p_token_out_max_mint_amount p) \<and>
    (mints \<and> 0 < p_token_out_max_supply p \<longrightarrow>
        m_supply (p_token_out_mint p) + p_token_out_amount p \<le> p_token_out_max_supply p) \<and>
    \<not> has_transfer_fee (p_token_in_mint p) \<and> \<not> has_transfer_fee (p_token_out_mint p)"
proof -
  obtain L1 where pay: "pay_token_in spl p L = Ok L1" and dist: "distribute_token_out spl p L1 = Ok L'"
    and nofee: "\<not> has_transfer_fee (p_token_in_mint p)" "\<not> has_transfer_fee (p_token_out_mint p)"
    using ok by (auto simp: execute_token_operations_def)
  have bal1: "int (l_bal L1 a) = int (l_bal L a)
        - part (a = p_token_in_source_account p) (p_token_in_net_amount p + p_token_in_fee_amount p)
        + part (\<not> burns \<and> p_token_in_refill_destination_account p = Some a) (p_token_in_refill_amount p)
        + part (\<not> burns \<and> a = p_token_in_destination_account p)
            (p_token_in_net_amount p - p_token_in_refill_amount p)
        + part (a = p_token_in_fee_destination_account p) (p_token_in_fee_amount p)" for a
    using pay_token_in_burn_effect(1) [OF laws pay] pay_token_in_split_effect(1) [OF laws pay]
    unfolding burns_def by (cases burns) (simp_all add: burns_def)
  have sup1: "int (l_supply L1 k) = int (l_supply L k)
        - part (burns \<and> k = m_key (p_token_in_mint p)) (p_token_in_net_amount p)" for k
    using pay_token_in_burn_effect(2) [OF laws pay] pay_token_in_split_effect(2) [OF laws pay]
    by (cases burns) (simp_all add: burns_def)
  have refill: "p_token_in_refill_amount p \<le> (if burns then 0 else p_token_in_net_amount p)"
    using pay_token_in_burn_effect(3) [OF laws pay] pay_token_in_split_effect(3) [OF laws pay]
    by (simp add: burns_def)
  show ?thesis
  proof (cases mints)
    case True
    then have m: "mint_tokens spl (p_token_out_mint p) (p_token_out_destination_account p)
          (p_mint_authority_pda p) (p_token_out_amount p) (p_token_out_max_supply p)
          (p_token_out_max_mint_amount p) L1 = Ok L'"
      using dist by (simp add: distribute_token_out_def mints_def)
    show ?thesis
      using True nofee refill mint_tokens_Ok(3,4) [OF laws m]
      by (simp add: mint_tokens_effect [OF laws m] bal1 sup1)
  next
    case False
    then have t: "transfer_tokens spl (p_token_out_mint p) (p_token_out_source_account p)
          (p_token_out_destination_account p) (p_token_out_authority p) (p_token_out_amount p) L1 = Ok L'"
      using dist by (simp add: distribute_token_out_def mints_def)
    show ?thesis
      using False nofee refill by (simp add: transfer_tokens_effect [OF laws t] bal1 sup1)
  qed
qed

text \<open>
  C1: A completed exchange (\<open>execute_token_operations\<close>) changes every token account and every
  supply by exactly the amounts of the order, whichever accounts coincide. The payer loses net
  amount plus fee. Where the program controls the input mint, the net amount is burned and no
  refill is possible; otherwise the refill goes to its vault and the rest to the proceeds
  account. The fee goes to the fee account in both cases. The user receives the output amount,
  freshly minted where the program controls the output mint, out of the vault otherwise, and a
  mint stays within the two caps where they are set. Neither mint charges transfer fees.
\<close>

theorem exchange_moves_exactly_the_order:
  assumes laws: "spl_laws spl" and ok: "execute_token_operations spl p L = Ok L'"
  defines "burns \<equiv> program_controls_mint (p_token_in_mint p) (p_mint_authority_pda p)"
    and "mints \<equiv> program_controls_mint (p_token_out_mint p) (p_mint_authority_pda p)"
  shows "(\<forall>a. int (l_bal L' a) = int (l_bal L a)
        - part (a = p_token_in_source_account p) (p_token_in_net_amount p + p_token_in_fee_amount p)
        + part (\<not> burns \<and> p_token_in_refill_destination_account p = Some a) (p_token_in_refill_amount p)
        + part (\<not> burns \<and> a = p_token_in_destination_account p)
            (p_token_in_net_amount p - p_token_in_refill_amount p)
        + part (a = p_token_in_fee_destination_account p) (p_token_in_fee_amount p)
        - part (\<not> mints \<and> a = p_token_out_source_account p) (p_token_out_amount p)
        + part (a = p_token_out_destination_account p) (p_token_out_amount p)) \<and>
    (\<forall>k. int (l_supply L' k) = int (l_supply L k)
        - part (burns \<and> k = m_key (p_token_in_mint p)) (p_token_in_net_amount p)
        + part (mints \<and> k = m_key (p_token_out_mint p)) (p_token_out_amount p)) \<and>
    p_token_in_refill_amount p \<le> (if burns then 0 else p_token_in_net_amount p) \<and>
    (mints \<and> 0 < p_token_out_max_mint_amount p \<longrightarrow>
        p_token_out_amount p \<le> p_token_out_max_mint_amount p) \<and>
    (mints \<and> 0 < p_token_out_max_supply p \<longrightarrow>
        m_supply (p_token_out_mint p) + p_token_out_amount p \<le> p_token_out_max_supply p) \<and>
    \<not> has_transfer_fee (p_token_in_mint p) \<and> \<not> has_transfer_fee (p_token_out_mint p)"
  unfolding burns_def mints_def by (rule exchange_effect [OF laws ok])

text \<open>
  A token program that satisfies the laws: it moves whole amounts when the source holds them,
  and mints up to 64 bits of supply.
\<close>

definition plain_token_program :: spl_token where
  "plain_token_program = \<lparr>
     transfer_checked = (\<lambda>L m src dst auth n dec.
       if n \<le> l_bal L src then Ok (L\<lparr>l_bal := credit dst n (debit src n (l_bal L))\<rparr>)
       else Err (TokenProgramError 1)),
     mint_to_checked = (\<lambda>L m dst auth n dec.
       if l_supply L m + n \<le> u64_max
       then Ok (L\<lparr>l_bal := credit dst n (l_bal L), l_supply := credit m n (l_supply L)\<rparr>)
       else Err (TokenProgramError 14)),
     burn_checked = (\<lambda>L m src auth n dec.
       if n \<le> l_bal L src \<and> n \<le> l_supply L m
       then Ok (L\<lparr>l_bal := debit src n (l_bal L), l_supply := debit m n (l_supply L)\<rparr>)
       else Err (TokenProgramError 1))\<rparr>"

lemma plain_token_program_laws: "spl_laws plain_token_program"
  by (auto simp: spl_laws_def plain_token_program_def split: if_splits)

lemmas token_eval_simps = transfer_tokens_def mint_tokens_def burn_tokens_def
  plain_token_program_def validate_max_supply_def checked_add_def checked_sub_def
  program_controls_mint_def has_transfer_fee_def credit_def debit_def

definition sample_mint :: "pubkey \<Rightarrow> pubkey option \<Rightarrow> u64 \<Rightarrow> mint" where
  "sample_mint k auth supply = \<lparr>m_key = k, m_owner = 9, m_decimals = 6, m_mint_authority = auth, m_supply = supply,
     m_epoch_fee = None\<rparr>"

definition sample_ledger :: ledger where
  "sample_ledger = \<lparr>l_bal = (\<lambda>a. if a = 20 then 1000 else 0), l_supply = (\<lambda>_. 5000)\<rparr>"

definition sample_exchange :: exec_token_ops_params where
  "sample_exchange = \<lparr>
     p_token_in_mint = sample_mint 10 None 5000, p_token_in_net_amount = 90,
     p_token_in_fee_amount = 10, p_token_in_authority = 2, p_token_in_source_account = 20,
     p_token_in_destination_account = 21, p_token_in_refill_destination_account = Some 22,
     p_token_in_refill_amount = 30, p_token_in_fee_destination_account = 23,
     p_token_in_burn_account = 24, p_token_in_burn_authority = 3,
     p_token_out_mint = sample_mint 11 (Some 4) 5000, p_token_out_amount = 45,
     p_token_out_authority = 3, p_token_out_source_account = 25,
     p_token_out_destination_account = 26, p_mint_authority_pda = 4,
     p_token_out_max_supply = 6000, p_token_out_max_mint_amount = 100\<rparr>"

theorem exchange_moves_exactly_the_order_witness:
  "\<exists>L'. execute_token_operations plain_token_program sample_exchange sample_ledger = Ok L' \<and>
     int (l_bal L' 20) = 900 \<and> int (l_bal L' 26) = 45 \<and> int (l_supply L' 11) = 5045"
proof -
  have "is_ok (execute_token_operations plain_token_program sample_exchange sample_ledger)"
    by (simp add: execute_token_operations_def pay_token_in_def distribute_token_out_def Let_def
        token_eval_simps sample_exchange_def sample_ledger_def sample_mint_def int_defs is_ok_def cong: eval_congs)
  then obtain L' where
    ok: "execute_token_operations plain_token_program sample_exchange sample_ledger = Ok L'"
    by (auto simp: is_ok_iff)
  note ex = exchange_moves_exactly_the_order [OF plain_token_program_laws ok]
  from ex have "int (l_bal L' 20) = 900" and "int (l_bal L' 26) = 45" and "int (l_supply L' 11) = 5045"
    by (simp_all add: sample_exchange_def sample_ledger_def sample_mint_def program_controls_mint_def
        part_def)
  with ok show ?thesis by blast
qed

end
