(* ===== verification/Accounts.thy ===== *)
theory Accounts
  imports Token_Ops
begin

text \<open>
  Accounts the instructions receive unchecked and load themselves (\<open>utils/account_init.rs\<close>,
  the token-account helpers of \<open>utils/token_utils.rs\<close>, \<open>configurable_vault/\<close>).

  Address derivation and the programs that create accounts are not part of the repository:
  they are fields of the parameter \<open>env\<close>, with the clock, the program's own address and the
  well-known program addresses. The stored bytes of an account are abstracted to what
  deserialization can make of them: nothing, all zero, a value, or neither.
\<close>

section \<open>Environment\<close>

datatype seed = Seed string | KeySeed pubkey | U64Seed u64

record env =
  program_id :: pubkey
  system_program_id :: pubkey
  spl_token_id :: pubkey
  instructions_sysvar_id :: pubkey
  unix_timestamp :: i64
  slot :: u64
  find_program_address :: "seed list \<Rightarrow> pubkey \<times> u8"
  get_associated_token_address_with_program_id :: "pubkey \<Rightarrow> pubkey \<Rightarrow> pubkey \<Rightarrow> pubkey"
  create_account :: "pubkey \<Rightarrow> unit result"
  create_idempotent :: "pubkey \<Rightarrow> unit result"

abbreviation pda :: "env \<Rightarrow> seed list \<Rightarrow> pubkey" where
  "pda e seeds \<equiv> fst (find_program_address e seeds)"

datatype 'a account_data = NoData | ZeroedData | AccountData 'a | MalformedData

record 'a account =
  a_key :: pubkey
  a_owner :: pubkey
  a_writable :: bool
  a_data :: "'a account_data"

section \<open>Program-derived accounts\<close>

definition deserialize_pda_account :: "'a account \<Rightarrow> error \<Rightarrow> 'a result" where
  "deserialize_pda_account account invalid_data_error =
     (case a_data account of AccountData x \<Rightarrow> Ok x | _ \<Rightarrow> Err invalid_data_error)"

definition load_pda_account :: "'a account \<Rightarrow> pubkey \<Rightarrow> error \<Rightarrow> error \<Rightarrow> 'a result" where
  "load_pda_account account prog invalid_owner_error invalid_data_error =
     require (a_owner account = prog) invalid_owner_error (
     deserialize_pda_account account invalid_data_error)"

definition load_optional_pda_account ::
  "env \<Rightarrow> 'a account \<Rightarrow> pubkey \<Rightarrow> error \<Rightarrow> error \<Rightarrow> 'a option result" where
  "load_optional_pda_account e account prog invalid_owner_error invalid_data_error =
     (if a_owner account = system_program_id e then
        (if a_data account = NoData then Ok None else Err invalid_data_error)
      else and_then (load_pda_account account prog invalid_owner_error invalid_data_error)
        (\<lambda>x. Ok (Some x)))"

text \<open>The account comes back with its new owner when it had to be created.\<close>

definition load_or_init_pda_account ::
  "env \<Rightarrow> (u8 \<Rightarrow> 'a) \<Rightarrow> error \<Rightarrow> error \<Rightarrow> 'a account \<Rightarrow> pubkey \<Rightarrow> u8 \<Rightarrow> ('a \<times> 'a account) result" where
  "load_or_init_pda_account e init_value invalid_owner_error invalid_data_error account prog bump =
     (if a_owner account = system_program_id e then
        require (a_data account = NoData) invalid_owner_error (
        and_then (create_account e (a_key account)) (\<lambda>_.
        Ok (init_value bump, account\<lparr>a_owner := prog, a_data := ZeroedData\<rparr>)))
      else
        require (a_owner account = prog) invalid_owner_error (
        and_then (deserialize_pda_account account invalid_data_error) (\<lambda>x. Ok (x, account))))"

text \<open>Serialization needs the space of an allocated account.\<close>

definition store_pda_account :: "'a account \<Rightarrow> 'a \<Rightarrow> 'a account result" where
  "store_pda_account account x =
     require (a_data account \<noteq> NoData) AnchorConstraint (Ok (account\<lparr>a_data := AccountData x\<rparr>))"

section \<open>Token accounts\<close>

text \<open>
  A token account passed to an instruction: its address, the program that owns it and whether
  its data is a token account. The balance is the ledger's.
\<close>

record token_info =
  t_key :: pubkey
  t_owner :: pubkey
  t_is_token :: bool

definition validate_associated_token_address ::
  "env \<Rightarrow> token_info \<Rightarrow> pubkey \<Rightarrow> pubkey \<Rightarrow> pubkey \<Rightarrow> error \<Rightarrow> unit result" where
  "validate_associated_token_address e ata authority mint token_program_id err =
     require (t_key ata = get_associated_token_address_with_program_id e authority mint token_program_id)
       err (Ok ())"

definition token_account_try_from :: "pubkey \<Rightarrow> token_info \<Rightarrow> pubkey result" where
  "token_account_try_from token_program_id t =
     require (t_is_token t \<and> t_owner t = token_program_id) AnchorConstraint (Ok (t_key t))"

definition get_associated_token_account ::
  "env \<Rightarrow> token_info \<Rightarrow> pubkey \<Rightarrow> pubkey \<Rightarrow> pubkey \<Rightarrow> error \<Rightarrow> pubkey result" where
  "get_associated_token_account e ata authority mint token_program_id err =
     and_then (validate_associated_token_address e ata authority mint token_program_id err) (\<lambda>_.
     token_account_try_from token_program_id ata)"

definition get_or_create_associated_token_account ::
  "env \<Rightarrow> token_info \<Rightarrow> pubkey \<Rightarrow> pubkey \<Rightarrow> pubkey \<Rightarrow> error \<Rightarrow> pubkey result" where
  "get_or_create_associated_token_account e ata authority mint token_program_id err =
     and_then (validate_associated_token_address e ata authority mint token_program_id err) (\<lambda>_.
     if t_owner ata = system_program_id e then
       and_then (create_idempotent e (t_key ata)) (\<lambda>_. Ok (t_key ata))
     else token_account_try_from token_program_id ata)"

definition read_optional_token_account_amount :: "ledger \<Rightarrow> token_info \<Rightarrow> pubkey \<Rightarrow> u64" where
  "read_optional_token_account_amount L t token_program_id =
     (if t_owner t \<noteq> token_program_id then 0
      else if \<not> t_is_token t then 0
      else l_bal L (t_key t))"

section \<open>Configurable vaults\<close>

datatype configurable_vault_kind =
    OfferFee | ManagementFee | PerformanceFee | PropAmmBuyFee | OfferProceeds
  | PropAmmProceeds | PermissionlessOfferFee | RedemptionFee | PropAmmSellFee

fun vault_kind_seed :: "configurable_vault_kind \<Rightarrow> seed" where
  "vault_kind_seed OfferFee = Seed ''offer_fee''"
| "vault_kind_seed ManagementFee = Seed ''management_fee''"
| "vault_kind_seed PerformanceFee = Seed ''performance_fee''"
| "vault_kind_seed PropAmmBuyFee = Seed ''prop_amm_buy_fee''"
| "vault_kind_seed OfferProceeds = Seed ''offer_proceeds''"
| "vault_kind_seed PropAmmProceeds = Seed ''prop_amm_proceeds''"
| "vault_kind_seed PermissionlessOfferFee = Seed ''permissionless_offer_fee''"
| "vault_kind_seed RedemptionFee = Seed ''redemption_fee''"
| "vault_kind_seed PropAmmSellFee = Seed ''prop_amm_sell_fee''"

fun as_u8 :: "configurable_vault_kind \<Rightarrow> u8" where
  "as_u8 OfferFee = 0"
| "as_u8 ManagementFee = 1"
| "as_u8 PerformanceFee = 2"
| "as_u8 PropAmmBuyFee = 3"
| "as_u8 OfferProceeds = 4"
| "as_u8 PropAmmProceeds = 5"
| "as_u8 PermissionlessOfferFee = 6"
| "as_u8 RedemptionFee = 7"
| "as_u8 PropAmmSellFee = 8"

record configurable_vault =
  cv_kind :: u8
  cv_withdrawal_destination :: pubkey
  cv_bump :: u8

definition vault_seeds :: "configurable_vault_kind \<Rightarrow> seed list" where
  "vault_seeds kind = [Seed ''configurable_vault'', vault_kind_seed kind]"

definition vault_init_value :: "configurable_vault_kind \<Rightarrow> u8 \<Rightarrow> configurable_vault" where
  "vault_init_value kind bump =
     \<lparr>cv_kind = as_u8 kind, cv_withdrawal_destination = default_pubkey, cv_bump = bump\<rparr>"

text \<open>
  Deserialization of an existing vault also checks its kind, and a wrong kind counts as
  malformed data.
\<close>

definition vault_of_kind :: "configurable_vault_kind \<Rightarrow> configurable_vault account \<Rightarrow>
    configurable_vault account" where
  "vault_of_kind kind account =
     (case a_data account of
        AccountData v \<Rightarrow> if cv_kind v = as_u8 kind then account else account\<lparr>a_data := MalformedData\<rparr>
      | _ \<Rightarrow> account)"

text \<open>
  An untouched vault account is either empty (which has all bytes zero) or zeroed. Storing
  happens only for those; an existing vault keeps its bytes.
\<close>

definition get_or_create_configurable_vault_token_account ::
  "env \<Rightarrow> configurable_vault_kind \<Rightarrow> configurable_vault account \<Rightarrow> token_info \<Rightarrow> pubkey \<Rightarrow> pubkey \<Rightarrow>
     (pubkey \<times> configurable_vault account) result" where
  "get_or_create_configurable_vault_token_account e kind vault token_account mint token_program_id =
     (let (expected_vault, vault_bump) = find_program_address e (vault_seeds kind);
          vault_is_zeroed = (a_data vault = NoData \<or> a_data vault = ZeroedData);
          should_store_vault = (a_owner vault = system_program_id e \<or> vault_is_zeroed)
      in
      require (expected_vault = a_key vault) InvalidConfigurableVault (
      and_then (if a_owner vault = program_id e \<and> vault_is_zeroed
          then Ok (vault_init_value kind vault_bump, vault)
          else load_or_init_pda_account e (vault_init_value kind) InvalidConfigurableVaultOwner
            InvalidConfigurableVaultData (vault_of_kind kind vault) (program_id e) vault_bump)
        (\<lambda>(value, account).
      and_then (if should_store_vault then store_pda_account account value else Ok vault) (\<lambda>vault'.
      and_then (get_or_create_associated_token_account e token_account (a_key vault) mint
          token_program_id InvalidConfigurableVaultTokenAccount) (\<lambda>key.
      Ok (key, vault'))))))"

definition get_or_create_configurable_vault_token_account_pair ::
  "env \<Rightarrow> configurable_vault_kind \<Rightarrow> configurable_vault account \<Rightarrow> token_info \<Rightarrow>
     configurable_vault_kind \<Rightarrow> configurable_vault account \<Rightarrow> token_info \<Rightarrow> pubkey \<Rightarrow> pubkey \<Rightarrow>
     ((pubkey \<times> configurable_vault account) \<times> (pubkey \<times> configurable_vault account)) result" where
  "get_or_create_configurable_vault_token_account_pair e kind1 vault1 token1 kind2 vault2 token2
     mint token_program_id =
     and_then (get_or_create_configurable_vault_token_account e kind1 vault1 token1 mint
         token_program_id) (\<lambda>first.
     and_then (get_or_create_configurable_vault_token_account e kind2 vault2 token2 mint
         token_program_id) (\<lambda>second.
     Ok (first, second)))"

section \<open>A concrete environment\<close>

text \<open>Addresses for the derived accounts that the worked examples name.\<close>

definition sample_pda :: "seed list \<Rightarrow> pubkey \<times> u8" where
  "sample_pda seeds =
     (if seeds = [Seed ''market_stats''] then (101, 255)
      else if seeds = [Seed ''circ_supply_excl_balance''] then (102, 254)
      else if seeds = [Seed ''buffer_state''] then (103, 253)
      else if seeds = [Seed ''mint_authority''] then (104, 255)
      else if seeds = [Seed ''offer_vault_authority''] then (105, 255)
      else if seeds = [Seed ''reserve_vault_authority''] then (106, 255)
      else if seeds = [Seed ''redemption_offer_vault_authority''] then (107, 255)
      else (199, 255))"

definition sample_env :: env where
  "sample_env = \<lparr>program_id = 50, system_program_id = 90, spl_token_id = 9,
     instructions_sysvar_id = 91, unix_timestamp = 5000, slot = 77,
     find_program_address = sample_pda,
     get_associated_token_address_with_program_id = (\<lambda>authority mint prog. 1000 + 10 * authority + mint),
     create_account = (\<lambda>_. Ok ()), create_idempotent = (\<lambda>_. Ok ())\<rparr>"

lemma sample_env_simps [simp]:
  "program_id sample_env = 50" "system_program_id sample_env = 90" "spl_token_id sample_env = 9"
  "instructions_sysvar_id sample_env = 91" "unix_timestamp sample_env = 5000" "slot sample_env = 77"
  "find_program_address sample_env = sample_pda"
  "get_associated_token_address_with_program_id sample_env k m prog = 1000 + 10 * k + m"
  "create_account sample_env k = Ok ()" "create_idempotent sample_env k = Ok ()"
  by (simp_all add: sample_env_def)

lemma sample_pda_simps [simp]:
  "sample_pda [Seed ''market_stats''] = (101, 255)"
  "sample_pda [Seed ''circ_supply_excl_balance''] = (102, 254)"
  "sample_pda [Seed ''buffer_state''] = (103, 253)"
  "sample_pda [Seed ''mint_authority''] = (104, 255)"
  "sample_pda [Seed ''offer_vault_authority''] = (105, 255)"
  "sample_pda [Seed ''reserve_vault_authority''] = (106, 255)"
  "sample_pda [Seed ''redemption_offer_vault_authority''] = (107, 255)"
  "sample_pda [Seed ''circ_supply_excl_accounts''] = (199, 255)"
  by (simp_all add: sample_pda_def)

end
