(* ===== verification/Market_Stats.thy ===== *)
theory Market_Stats
  imports Accounts Governance Offer_Pricing
begin

text \<open>
  Market information (\<open>market_info/market_stats.rs\<close>, \<open>refresh_market_stats.rs\<close>,
  \<open>circulating_supply/\<close>, \<open>get_nav.rs\<close>, \<open>get_tvl.rs\<close>, \<open>get_circulating_supply.rs\<close>): the stored
  market statistics, the balance excluded from circulation, and the query instructions. The
  lemmas relate what is stored to what the queries return, and the excluded balance to the
  configured owners' holdings.
\<close>

section \<open>Stored data\<close>

record market_stats =
  ms_apy :: u64
  ms_circulating_supply :: u64
  ms_nav :: u64
  ms_nav_adjustment :: i64
  ms_tvl :: u64
  ms_last_updated_at :: i64
  ms_last_updated_slot :: u64
  ms_bump :: u8

record market_stats_snapshot =
  mss_apy :: u64
  mss_circulating_supply :: u64
  mss_nav :: u64
  mss_nav_adjustment :: i64
  mss_tvl :: u64

record circulating_supply_excluded_accounts =
  ea_owners :: "pubkey list"
  ea_bump :: u8

record circulating_supply_excluded_balance =
  eb_amount :: u64
  eb_last_updated_at :: i64
  eb_last_updated_slot :: u64
  eb_bump :: u8

definition market_stats_init_value :: "u8 \<Rightarrow> market_stats" where
  "market_stats_init_value bump = \<lparr>ms_apy = 0, ms_circulating_supply = 0, ms_nav = 0,
     ms_nav_adjustment = 0, ms_tvl = 0, ms_last_updated_at = 0, ms_last_updated_slot = 0,
     ms_bump = bump\<rparr>"

definition MAX_CIRCULATING_SUPPLY_EXCLUDED_ACCOUNTS :: nat where
  [const_defs]: "MAX_CIRCULATING_SUPPLY_EXCLUDED_ACCOUNTS = 20"

section \<open>Excluded balance\<close>

fun validate_owners_from :: "pubkey list \<Rightarrow> pubkey list \<Rightarrow> unit result" where
  "validate_owners_from seen [] = Ok ()"
| "validate_owners_from seen (owner # rest) =
     (if owner = default_pubkey then validate_owners_from (seen @ [owner]) rest
      else require (owner \<notin> set seen) DuplicateExcludedAccountOwner (
        validate_owners_from (seen @ [owner]) rest))"

definition validate_unique_non_default_owners :: "pubkey list \<Rightarrow> unit result" where
  "validate_unique_non_default_owners owners = validate_owners_from [] owners"

definition set_circulating_supply_excluded_accounts ::
  "env \<Rightarrow> state \<Rightarrow> pubkey \<Rightarrow> pubkey list \<Rightarrow> circulating_supply_excluded_accounts \<Rightarrow>
     circulating_supply_excluded_accounts result" where
  "set_circulating_supply_excluded_accounts e st boss owners excluded_accounts =
     require (boss = s_boss st) InvalidBoss (
     and_then (validate_unique_non_default_owners owners) (\<lambda>_.
     Ok (excluded_accounts\<lparr>ea_owners := owners,
           ea_bump := snd (find_program_address e [Seed ''circ_supply_excl_accounts''])\<rparr>)))"

text \<open>One of the remaining accounts: its address and, if it parses as a token account, its fields.\<close>

record excluded_token_account =
  x_key :: pubkey
  x_is_token :: bool
  x_mint :: pubkey
  x_owner :: pubkey

fun sum_excluded ::
  "env \<Rightarrow> ledger \<Rightarrow> pubkey \<Rightarrow> pubkey \<Rightarrow> u64 \<Rightarrow> (pubkey \<times> excluded_token_account) list \<Rightarrow> u64 result" where
  "sum_excluded e L mint token_program amount [] = Ok amount"
| "sum_excluded e L mint token_program amount ((owner, t) # rest) =
     require (x_key t = get_associated_token_address_with_program_id e owner mint token_program)
       InvalidExcludedTokenAccount (
     require (x_is_token t) AnchorConstraint (
     require (x_mint t = mint) InvalidExcludedTokenAccount (
     require (x_owner t = owner) InvalidExcludedTokenAccount (
     and_then (ok_or (checked_add u64_max amount (l_bal L (x_key t))) MathOverflow) (\<lambda>amount.
     sum_excluded e L mint token_program amount rest)))))"

definition active_owners :: "circulating_supply_excluded_accounts \<Rightarrow> pubkey list" where
  "active_owners ea = filter (\<lambda>owner. owner \<noteq> default_pubkey) (ea_owners ea)"

definition update_circulating_supply_excluded_balance ::
  "env \<Rightarrow> ledger \<Rightarrow> state \<Rightarrow> mint \<Rightarrow> pubkey \<Rightarrow> circulating_supply_excluded_accounts \<Rightarrow>
     excluded_token_account list \<Rightarrow> circulating_supply_excluded_balance \<Rightarrow>
     circulating_supply_excluded_balance result" where
  "update_circulating_supply_excluded_balance e L st onyc_mint token_program ea remaining eb =
     require (m_key onyc_mint = s_onyc_mint st) AnchorConstraint (
     require (length remaining \<le> length (active_owners ea)) TooManyExcludedTokenAccounts (
     require (length remaining = length (active_owners ea)) MissingExcludedTokenAccount (
     and_then (sum_excluded e L (m_key onyc_mint) token_program 0 (zip (active_owners ea) remaining))
       (\<lambda>amount.
     Ok (eb\<lparr>eb_amount := amount, eb_last_updated_at := unix_timestamp e, eb_last_updated_slot := slot e,
           eb_bump := snd (find_program_address e [Seed ''circ_supply_excl_balance''])\<rparr>)))))"

definition load_circulating_supply_excluded_balance_amount ::
  "env \<Rightarrow> circulating_supply_excluded_balance account \<Rightarrow> u64 result" where
  "load_circulating_supply_excluded_balance_amount e excluded_balance_account =
     require (a_key excluded_balance_account = pda e [Seed ''circ_supply_excl_balance''])
       InvalidCirculatingSupplyExcludedBalance (
     and_then (load_optional_pda_account e excluded_balance_account (program_id e)
         InvalidCirculatingSupplyExcludedBalanceOwner InvalidCirculatingSupplyExcludedBalanceData)
       (\<lambda>loaded.
     case loaded of None \<Rightarrow> Ok 0 | Some excluded_balance \<Rightarrow> Ok (eb_amount excluded_balance)))"

section \<open>Statistics\<close>

definition calculate_nav_adjustment :: "offer \<Rightarrow> offer_vector \<Rightarrow> i64 result" where
  "calculate_nav_adjustment offer active_vector =
     and_then (map_err (get_nav_adjustment_snapshot offer active_vector) Overflow) (\<lambda>snapshot.
     Ok (nas_adjustment snapshot))"

definition calculate_tvl :: "u64 \<Rightarrow> u64 \<Rightarrow> u64 result" where
  "calculate_tvl circulating_supply nav =
     ok_or (Option.bind (Option.bind (checked_mul u128_max circulating_supply nav)
         (\<lambda>result. checked_div result (10 ^ PRICE_DECIMALS))) try_from_u64) Overflow"

definition calculate_circulating_supply :: "u64 \<Rightarrow> u64 \<Rightarrow> u64 result" where
  "calculate_circulating_supply total_supply excluded_supply =
     ok_or (checked_sub total_supply excluded_supply) ArithmeticUnderflow"

definition recompute_market_stats :: "env \<Rightarrow> offer \<Rightarrow> mint \<Rightarrow> u64 \<Rightarrow> market_stats_snapshot result" where
  "recompute_market_stats e offer onyc_mint excluded_balance_amount =
     require (m_owner onyc_mint = spl_token_id e) InvalidTokenProgram (
     require (o_token_out_mint offer = m_key onyc_mint) InvalidOnycMint (
     and_then (get_active_vector_and_current_price offer (i64_as_u64 (unix_timestamp e)))
       (\<lambda>(active_vector, nav).
     and_then (calculate_apy_from_apr (v_apr active_vector)) (\<lambda>apy.
     and_then (calculate_nav_adjustment offer active_vector) (\<lambda>nav_adjustment.
     and_then (calculate_circulating_supply (m_supply onyc_mint) excluded_balance_amount)
       (\<lambda>circulating_supply.
     and_then (calculate_tvl circulating_supply nav) (\<lambda>tvl.
     Ok \<lparr>mss_apy = apy, mss_circulating_supply = circulating_supply, mss_nav = nav,
         mss_nav_adjustment = nav_adjustment, mss_tvl = tvl\<rparr>)))))))"

definition apply_market_stats_snapshot ::
  "env \<Rightarrow> market_stats_snapshot \<Rightarrow> market_stats \<Rightarrow> market_stats" where
  "apply_market_stats_snapshot e snapshot ms =
     ms\<lparr>ms_apy := mss_apy snapshot, ms_circulating_supply := mss_circulating_supply snapshot,
        ms_nav := mss_nav snapshot, ms_nav_adjustment := mss_nav_adjustment snapshot,
        ms_tvl := mss_tvl snapshot, ms_last_updated_at := unix_timestamp e,
        ms_last_updated_slot := slot e\<rparr>"

definition refresh_market_stats_pda ::
  "env \<Rightarrow> offer \<Rightarrow> mint \<Rightarrow> circulating_supply_excluded_balance account \<Rightarrow> market_stats account \<Rightarrow>
     market_stats account result" where
  "refresh_market_stats_pda e offer onyc_mint excluded_balance_account market_stats_account =
     and_then (load_circulating_supply_excluded_balance_amount e excluded_balance_account)
       (\<lambda>excluded_balance_amount.
     and_then (recompute_market_stats e offer onyc_mint excluded_balance_amount) (\<lambda>snapshot.
     let (market_stats_pda, market_stats_bump) = find_program_address e [Seed ''market_stats''] in
     require (a_key market_stats_account = market_stats_pda) InvalidMarketStatsOwner (
     and_then (load_or_init_pda_account e market_stats_init_value InvalidMarketStatsOwner
         InvalidMarketStatsData market_stats_account (program_id e) market_stats_bump)
       (\<lambda>(ms, account).
     store_pda_account account
       (apply_market_stats_snapshot e snapshot (ms\<lparr>ms_bump := market_stats_bump\<rparr>))))))"

definition load_main_offer :: "env \<Rightarrow> offer account \<Rightarrow> state \<Rightarrow> offer result" where
  "load_main_offer e market_offer_account st =
     require (a_key market_offer_account = s_main_offer st) InvalidMainOffer (
     load_pda_account market_offer_account (program_id e) InvalidMainOffer InvalidMainOffer)"

definition read_market_stats_account :: "env \<Rightarrow> market_stats account \<Rightarrow> market_stats result" where
  "read_market_stats_account e market_stats_account =
     load_pda_account market_stats_account (program_id e) InvalidMarketStatsOwner
       InvalidMarketStatsData"

definition refresh_market_stats ::
  "env \<Rightarrow> state \<Rightarrow> offer account \<Rightarrow> mint \<Rightarrow> mint \<Rightarrow> circulating_supply_excluded_balance account \<Rightarrow>
     market_stats \<Rightarrow> market_stats result" where
  "refresh_market_stats e st main_offer_account token_in_mint onyc_mint excluded_balance_account ms =
     require (m_key onyc_mint = s_onyc_mint st) AnchorConstraint (
     and_then (load_main_offer e main_offer_account st) (\<lambda>main_offer.
     require (m_key token_in_mint = o_token_in_mint main_offer) InvalidTokenInMint (
     require (m_key onyc_mint = o_token_out_mint main_offer) InvalidTokenOutMint (
     and_then (load_circulating_supply_excluded_balance_amount e excluded_balance_account)
       (\<lambda>excluded_amount.
     and_then (recompute_market_stats e main_offer onyc_mint excluded_amount) (\<lambda>snapshot.
     Ok (apply_market_stats_snapshot e snapshot
       (ms\<lparr>ms_bump := snd (find_program_address e [Seed ''market_stats''])\<rparr>))))))))"

section \<open>Queries\<close>

definition get_nav :: "env \<Rightarrow> mint \<Rightarrow> mint \<Rightarrow> offer \<Rightarrow> u64 result" where
  "get_nav e token_in_mint token_out_mint offer =
     require (m_key token_in_mint = o_token_in_mint offer) InvalidTokenInMint (
     require (m_key token_out_mint = o_token_out_mint offer) InvalidTokenOutMint (
     and_then (get_offer_valuation_snapshot offer (i64_as_u64 (unix_timestamp e))) (\<lambda>valuation.
     Ok (ovs_current_price valuation))))"

definition get_nav_adjustment :: "env \<Rightarrow> mint \<Rightarrow> mint \<Rightarrow> offer \<Rightarrow> i64 result" where
  "get_nav_adjustment e token_in_mint token_out_mint offer =
     require (m_key token_in_mint = o_token_in_mint offer) InvalidTokenInMint (
     require (m_key token_out_mint = o_token_out_mint offer) InvalidTokenOutMint (
     and_then (find_active_vector_at offer (i64_as_u64 (unix_timestamp e))) (\<lambda>active_vector.
     and_then (get_nav_adjustment_snapshot offer active_vector) (\<lambda>snapshot.
     Ok (nas_adjustment snapshot)))))"

definition get_circulating_supply ::
  "env \<Rightarrow> ledger \<Rightarrow> state \<Rightarrow> mint \<Rightarrow> token_info \<Rightarrow> pubkey \<Rightarrow> u64 result" where
  "get_circulating_supply e L st onyc_mint onyc_vault_account token_program =
     require (m_key onyc_mint = s_onyc_mint st) AnchorConstraint (
     require (t_key onyc_vault_account = get_associated_token_address_with_program_id e
         (pda e [Seed ''offer_vault_authority'']) (m_key onyc_mint) token_program) InvalidVaultAccount (
     calculate_circulating_supply (m_supply onyc_mint)
       (read_optional_token_account_amount L onyc_vault_account token_program)))"

definition get_circulating_supply_v2 ::
  "env \<Rightarrow> state \<Rightarrow> mint \<Rightarrow> circulating_supply_excluded_balance account \<Rightarrow> u64 result" where
  "get_circulating_supply_v2 e st onyc_mint excluded_balance_account =
     require (m_key onyc_mint = s_onyc_mint st) AnchorConstraint (
     and_then (load_circulating_supply_excluded_balance_amount e excluded_balance_account)
       (\<lambda>excluded_amount.
     calculate_circulating_supply (m_supply onyc_mint) excluded_amount))"

definition get_tvl ::
  "env \<Rightarrow> ledger \<Rightarrow> mint \<Rightarrow> mint \<Rightarrow> token_info \<Rightarrow> pubkey \<Rightarrow> offer \<Rightarrow> u64 result" where
  "get_tvl e L token_in_mint token_out_mint vault_token_out_account token_out_program offer =
     require (m_key token_in_mint = o_token_in_mint offer) InvalidTokenInMint (
     require (m_key token_out_mint = o_token_out_mint offer) InvalidTokenOutMint (
     require (t_key vault_token_out_account = get_associated_token_address_with_program_id e
         (pda e [Seed ''offer_vault_authority'']) (m_key token_out_mint) token_out_program)
       InvalidVaultAccount (
     and_then (get_active_vector_and_current_price offer (i64_as_u64 (unix_timestamp e)))
       (\<lambda>(_, current_price).
     and_then (calculate_circulating_supply (m_supply token_out_mint)
         (read_optional_token_account_amount L vault_token_out_account token_out_program))
       (\<lambda>token_supply.
     map_err (calculate_tvl token_supply current_price) Overflow)))))"

definition get_tvl_v2 ::
  "env \<Rightarrow> state \<Rightarrow> mint \<Rightarrow> mint \<Rightarrow> circulating_supply_excluded_balance account \<Rightarrow> offer \<Rightarrow> u64 result" where
  "get_tvl_v2 e st token_in_mint token_out_mint excluded_balance_account offer =
     require (m_key token_in_mint = o_token_in_mint offer) InvalidTokenInMint (
     require (m_key token_out_mint = o_token_out_mint offer) InvalidTokenOutMint (
     require (m_key token_out_mint = s_onyc_mint st) InvalidOnycMint (
     and_then (get_active_vector_and_current_price offer (i64_as_u64 (unix_timestamp e)))
       (\<lambda>(_, current_price).
     and_then (load_circulating_supply_excluded_balance_amount e excluded_balance_account)
       (\<lambda>excluded_amount.
     and_then (calculate_circulating_supply (m_supply token_out_mint) excluded_amount)
       (\<lambda>token_supply.
     map_err (calculate_tvl token_supply current_price) Overflow))))))"


section \<open>Loading and storing\<close>

lemma store_pda_account_Ok [simp]:
  "store_pda_account a x = Ok a' \<longleftrightarrow> a_data a \<noteq> NoData \<and> a' = a\<lparr>a_data := AccountData x\<rparr>"
  by (auto simp: store_pda_account_def)

lemma load_pda_account_Ok [simp]:
  "load_pda_account a prog e1 e2 = Ok x \<longleftrightarrow> a_owner a = prog \<and> a_data a = AccountData x"
  by (auto simp: load_pda_account_def deserialize_pda_account_def split: account_data.splits)

lemma load_or_init_Ok:
  assumes "load_or_init_pda_account e init e1 e2 a prog bump = Ok (x, a')"
  shows "a_key a' = a_key a" and "a_owner a' = prog" and "a_data a' \<noteq> NoData"
  using assms
  by (auto simp: load_or_init_pda_account_def deserialize_pda_account_def
      split: if_splits account_data.splits)

lemma calculate_tvl_Ok:
  "calculate_tvl c nav = Ok tvl \<longleftrightarrow>
     c * nav \<le> u128_max \<and> tvl = c * nav div 1000000000 \<and> tvl \<le> u64_max"
  by (auto simp: calculate_tvl_def checked_mul_def checked_div_def try_from_u64_def const_defs)

lemma circulating_supply_Ok:
  "calculate_circulating_supply t x = Ok c \<longleftrightarrow> t = c + x"
  by (auto simp: calculate_circulating_supply_def)

text \<open>What one refresh stores, spelled out.\<close>

lemma refresh_market_stats_pda_Ok:
  assumes "refresh_market_stats_pda e offer mint eb a = Ok a'"
  obtains excluded snapshot ms where
    "load_circulating_supply_excluded_balance_amount e eb = Ok excluded"
    "recompute_market_stats e offer mint excluded = Ok snapshot"
    "a_key a' = a_key a" "a_key a = pda e [Seed ''market_stats'']" "a_owner a' = program_id e"
    "a_data a' = AccountData (apply_market_stats_snapshot e snapshot ms)"
proof -
  obtain key bump where fpa: "find_program_address e [Seed ''market_stats''] = (key, bump)"
    by (cases "find_program_address e [Seed ''market_stats'']")
  obtain x snap ms acc where
    1: "load_circulating_supply_excluded_balance_amount e eb = Ok x"
    "recompute_market_stats e offer mint x = Ok snap" "a_key a = key"
    and 2: "load_or_init_pda_account e market_stats_init_value InvalidMarketStatsOwner
      InvalidMarketStatsData a (program_id e) bump = Ok (ms, acc)"
    and 3: "a' = acc\<lparr>a_data :=
      AccountData (apply_market_stats_snapshot e snap (ms\<lparr>ms_bump := bump\<rparr>))\<rparr>"
    using assms fpa unfolding refresh_market_stats_pda_def by auto
  show ?thesis
    by (rule that [OF 1(1,2), of "ms\<lparr>ms_bump := bump\<rparr>"])
      (use load_or_init_Ok [OF 2] 1 3 fpa in simp_all)
qed

lemma recompute_market_stats_Ok:
  assumes "recompute_market_stats e offer mint x = Ok snap"
  obtains v where
    "get_active_vector_and_current_price offer (i64_as_u64 (unix_timestamp e)) = Ok (v, mss_nav snap)"
    "calculate_apy_from_apr (v_apr v) = Ok (mss_apy snap)"
    "calculate_nav_adjustment offer v = Ok (mss_nav_adjustment snap)"
    "m_supply mint = mss_circulating_supply snap + x"
    "calculate_tvl (mss_circulating_supply snap) (mss_nav snap) = Ok (mss_tvl snap)"
    "o_token_out_mint offer = m_key mint" "m_owner mint = spl_token_id e"
  using assms unfolding recompute_market_stats_def
  by (auto simp: circulating_supply_Ok intro: that)

section \<open>Properties\<close>

text \<open>
  C34: After a successful refresh the market statistics account belongs to the program and holds,
  stamped with the current time and slot, exactly what the query instructions return at that
  moment for the same offer and mint: the circulating supply, the value locked, the price, the
  yield and the price adjustment of the vector in force.
\<close>

theorem refreshed_stats_agree_with_queries:
  assumes refresh: "refresh_market_stats_pda e offer onyc_mint eb account = Ok account'"
    and onyc: "s_onyc_mint st = m_key onyc_mint"
    and token_in: "m_key token_in_mint = o_token_in_mint offer"
  shows "\<exists>ms. a_data account' = AccountData ms \<and> a_owner account' = program_id e \<and>
    ms_last_updated_at ms = unix_timestamp e \<and> ms_last_updated_slot ms = slot e \<and>
    get_circulating_supply_v2 e st onyc_mint eb = Ok (ms_circulating_supply ms) \<and>
    get_tvl_v2 e st token_in_mint onyc_mint eb offer = Ok (ms_tvl ms) \<and>
    (\<forall>nav. get_nav e token_in_mint onyc_mint offer = Ok nav \<longrightarrow> nav = ms_nav ms) \<and>
    get_apy offer (unix_timestamp e) = Ok (ms_apy ms) \<and>
    get_nav_adjustment e token_in_mint onyc_mint offer = Ok (ms_nav_adjustment ms)"
proof -
  from refresh obtain x snap ms0 where
    x: "load_circulating_supply_excluded_balance_amount e eb = Ok x"
    and rec: "recompute_market_stats e offer onyc_mint x = Ok snap"
    and acc: "a_owner account' = program_id e"
      "a_data account' = AccountData (apply_market_stats_snapshot e snap ms0)"
    by (rule refresh_market_stats_pda_Ok)
  from rec obtain v where
    v: "get_active_vector_and_current_price offer (i64_as_u64 (unix_timestamp e)) = Ok (v, mss_nav snap)"
    and apy: "calculate_apy_from_apr (v_apr v) = Ok (mss_apy snap)"
    and adj: "calculate_nav_adjustment offer v = Ok (mss_nav_adjustment snap)"
    and sup: "m_supply onyc_mint = mss_circulating_supply snap + x"
    and tvl: "calculate_tvl (mss_circulating_supply snap) (mss_nav snap) = Ok (mss_tvl snap)"
    and out: "o_token_out_mint offer = m_key onyc_mint"
    by (rule recompute_market_stats_Ok)
  have active: "find_active_vector_at offer (i64_as_u64 (unix_timestamp e)) = Ok v"
    using v by (auto simp: get_active_vector_and_current_price_def)
  let ?ms = "apply_market_stats_snapshot e snap ms0"
  have fields: "ms_last_updated_at ?ms = unix_timestamp e" "ms_last_updated_slot ?ms = slot e"
    "ms_circulating_supply ?ms = mss_circulating_supply snap" "ms_tvl ?ms = mss_tvl snap"
    "ms_nav ?ms = mss_nav snap" "ms_apy ?ms = mss_apy snap"
    "ms_nav_adjustment ?ms = mss_nav_adjustment snap"
    by (simp_all add: apply_market_stats_snapshot_def)
  have "calculate_circulating_supply (m_supply onyc_mint) x = Ok (mss_circulating_supply snap)"
    by (simp add: circulating_supply_Ok sup)
  with x v out tvl onyc token_in have
    "get_circulating_supply_v2 e st onyc_mint eb = Ok (ms_circulating_supply ?ms)"
    "get_tvl_v2 e st token_in_mint onyc_mint eb offer = Ok (ms_tvl ?ms)"
    by (simp_all add: get_circulating_supply_v2_def get_tvl_v2_def fields)
  moreover have "\<forall>nav. get_nav e token_in_mint onyc_mint offer = Ok nav \<longrightarrow> nav = ms_nav ?ms"
    using v by (auto simp: get_nav_def get_offer_valuation_snapshot_def fields)
  moreover have "get_apy offer (unix_timestamp e) = Ok (ms_apy ?ms)"
    using active apy by (simp add: get_apy_def fields)
  moreover have "get_nav_adjustment e token_in_mint onyc_mint offer = Ok (ms_nav_adjustment ?ms)"
    using active adj out token_in by (auto simp: get_nav_adjustment_def calculate_nav_adjustment_def fields)
  ultimately show ?thesis using acc fields by blast
qed


definition sample_onyc :: mint where
  "sample_onyc = (sample_mint 22 (Some 104) 5000)"

definition absent_account :: "pubkey \<Rightarrow> 'a account" where
  "absent_account k = \<lparr>a_key = k, a_owner = 90, a_writable = True, a_data = NoData\<rparr>"

definition sample_stats :: market_stats where
  "sample_stats = \<lparr>ms_apy = 102507, ms_circulating_supply = 5000, ms_nav = 1000267397,
     ms_nav_adjustment = 1000267397, ms_tvl = 5001, ms_last_updated_at = 5000,
     ms_last_updated_slot = 77, ms_bump = 255\<rparr>"

lemma sample_price: "get_active_vector_and_current_price sample_offer 5000 = Ok (sample_vector, 1000267397)"
  using sample_snapshot by (auto simp: get_offer_valuation_snapshot_def)

lemma sample_excluded: "load_circulating_supply_excluded_balance_amount sample_env (absent_account 102) = Ok 0"
  by (simp add: load_circulating_supply_excluded_balance_amount_def load_optional_pda_account_def
      absent_account_def)

lemma sample_recompute:
  assumes "n \<le> 1000000"
  shows "recompute_market_stats sample_env sample_offer (sample_mint 22 auth n) 0 =
    Ok \<lparr>mss_apy = 102507, mss_circulating_supply = n, mss_nav = 1000267397,
      mss_nav_adjustment = 1000267397, mss_tvl = n * 1000267397 div 1000000000\<rparr>"
proof -
  have v: "v_apr sample_vector = 97600" by (simp add: sample_vector_def)
  have apy: "calculate_apy_from_apr 97600 = Ok 102507"
    by (simp add: price_eval_simps calculate_apy_from_apr_def cong: eval_congs)
  have "find_previous_vector sample_offer 1000 = None"
    by (simp add: find_previous_vector_def sample_offer_def sample_vector_def default_vector_def)
  moreover have "compute_vector_price_at_time sample_vector 1000 = Ok 1000267397"
    by (simp add: sample_vector_def compute_vector_price_at_time_def price_eval_simps cong: eval_congs)
  moreover have "v_start_time sample_vector = 1000" by (simp add: sample_vector_def)
  ultimately have adj: "calculate_nav_adjustment sample_offer sample_vector = Ok 1000267397"
    by (simp add: calculate_nav_adjustment_def get_nav_adjustment_snapshot_def try_from_i64_def int_defs)
  have out: "o_token_out_mint sample_offer = 22" by (simp add: sample_offer_def)
  have le: "n * 1000267397 \<le> 1000000 * 1000267397" using assms by (rule mult_le_mono1)
  have "n * 1000267397 div 1000000000 \<le> 1000000 * 1000267397 div 1000000000" by (rule div_le_mono [OF le])
  then have tvl: "calculate_tvl n 1000267397 = Ok (n * 1000267397 div 1000000000)"
    unfolding calculate_tvl_Ok using le by (simp add: int_defs)
  show ?thesis
    by (simp add: recompute_market_stats_def sample_price apy adj sample_mint_def out i64_as_u64_def v
        calculate_circulating_supply_def checked_sub_def tvl cong: eval_congs)
qed

lemma sample_refresh_ok:
  "n \<le> 1000000 \<Longrightarrow> is_ok (refresh_market_stats_pda sample_env sample_offer (sample_mint 22 auth n)
     (absent_account 102) (absent_account 101))"
  by (simp add: refresh_market_stats_pda_def sample_excluded load_or_init_pda_account_def sample_recompute)
    (simp add: absent_account_def store_pda_account_def is_ok_def)

lemma sample_refresh:
  "refresh_market_stats_pda sample_env sample_offer sample_onyc (absent_account 102) (absent_account 101) =
     Ok ((absent_account 101)\<lparr>a_owner := 50, a_data := AccountData sample_stats\<rparr>)"
  by (simp add: refresh_market_stats_pda_def sample_excluded load_or_init_pda_account_def sample_recompute
      sample_onyc_def)
    (simp add: absent_account_def store_pda_account_def apply_market_stats_snapshot_def
      market_stats_init_value_def sample_stats_def)

theorem refreshed_stats_agree_with_queries_witness:
  "get_tvl_v2 sample_env (zero_state\<lparr>s_onyc_mint := 22\<rparr>) (sample_mint 21 None 0) sample_onyc
     (absent_account 102) sample_offer = Ok 5001"
proof -
  let ?st = "zero_state\<lparr>s_onyc_mint := 22\<rparr>"
  have "s_onyc_mint ?st = m_key sample_onyc" "m_key (sample_mint 21 None 0) = o_token_in_mint sample_offer"
    by (simp_all add: sample_onyc_def sample_mint_def sample_offer_def)
  from refreshed_stats_agree_with_queries [OF sample_refresh this] show ?thesis
    by (auto simp: sample_stats_def)
qed

lemma validate_owners_from_Ok:
  "validate_owners_from seen owners = Ok u \<longleftrightarrow>
     distinct (filter (\<lambda>k. k \<noteq> default_pubkey) owners) \<and>
     set (filter (\<lambda>k. k \<noteq> default_pubkey) owners) \<inter> set seen = {}"
  by (induction seen owners rule: validate_owners_from.induct) auto

lemma sum_excluded_Ok:
  assumes "sum_excluded e L mint prog n (zip owners ts) = Ok tot" and "length ts = length owners"
  shows "tot = n + (\<Sum>k \<leftarrow> owners. l_bal L (get_associated_token_address_with_program_id e k mint prog))"
  using assms(2,1)
proof (induction ts owners arbitrary: n rule: list_induct2)
  case (Cons t ts k owners)
  then have ok: "sum_excluded e L mint prog
      (n + l_bal L (get_associated_token_address_with_program_id e k mint prog)) (zip owners ts) = Ok tot"
    by auto
  show ?case using Cons.IH [OF ok] by simp
qed simp

text \<open>
  The balance excluded from circulation is the sum, over the configured owners, of the ONyc
  balances of their associated token accounts, each owner counted once: the list that
  \<open>set_circulating_supply_excluded_accounts\<close> accepts has no owner twice, and
  \<open>update_circulating_supply_excluded_balance\<close> neither skips an owner nor takes another account.
\<close>

theorem excluded_balance_sums_each_owner_once:
  assumes set_ok: "set_circulating_supply_excluded_accounts e st boss owners ea0 = Ok ea"
    and update: "update_circulating_supply_excluded_balance e' L st' onyc_mint prog ea remaining eb0 = Ok eb"
  shows "eb_amount eb = (\<Sum>k \<in> {k \<in> set owners. k \<noteq> default_pubkey}.
      l_bal L (get_associated_token_address_with_program_id e' k (s_onyc_mint st') prog)) \<and>
    boss = s_boss st \<and> eb_last_updated_at eb = unix_timestamp e'"
proof -
  have d: "distinct (active_owners ea)" and own: "ea_owners ea = owners" "boss = s_boss st"
    using set_ok
    by (auto simp: set_circulating_supply_excluded_accounts_def validate_unique_non_default_owners_def
        validate_owners_from_Ok active_owners_def)
  have sum: "sum_excluded e' L (s_onyc_mint st') prog 0 (zip (active_owners ea) remaining) = Ok (eb_amount eb)"
    and len: "length remaining = length (active_owners ea)"
    and at: "eb_last_updated_at eb = unix_timestamp e'"
    using update by (auto simp: update_circulating_supply_excluded_balance_def)
  have "set (active_owners ea) = {k \<in> set owners. k \<noteq> default_pubkey}"
    by (auto simp: active_owners_def own)
  then show ?thesis
    using sum_excluded_Ok [OF sum len] own at by (simp add: sum_list_distinct_conv_sum_set [OF d])
qed

theorem excluded_balance_sums_each_owner_once_witness:
  "\<exists>eb. update_circulating_supply_excluded_balance sample_env
       \<lparr>l_bal = (\<lambda>a. a), l_supply = (\<lambda>_. 0)\<rparr> (zero_state\<lparr>s_onyc_mint := 22\<rparr>) sample_onyc 9
       \<lparr>ea_owners = [5, default_pubkey, 6], ea_bump = 255\<rparr>
       [\<lparr>x_key = 1072, x_is_token = True, x_mint = 22, x_owner = 5\<rparr>,
        \<lparr>x_key = 1082, x_is_token = True, x_mint = 22, x_owner = 6\<rparr>]
       \<lparr>eb_amount = 0, eb_last_updated_at = 0, eb_last_updated_slot = 0, eb_bump = 0\<rparr> = Ok eb \<and>
     eb_amount eb = 2154"
proof -
  let ?L = "\<lparr>l_bal = (\<lambda>a. a), l_supply = (\<lambda>_. 0)\<rparr>" and ?st = "zero_state\<lparr>s_onyc_mint := 22\<rparr>"
  let ?ts = "[\<lparr>x_key = 1072, x_is_token = True, x_mint = 22, x_owner = 5\<rparr>,
        \<lparr>x_key = 1082, x_is_token = True, x_mint = 22, x_owner = 6\<rparr>]"
  let ?eb0 = "\<lparr>eb_amount = 0, eb_last_updated_at = 0, eb_last_updated_slot = 0, eb_bump = 0\<rparr>"
  have set_ok: "set_circulating_supply_excluded_accounts sample_env zero_state default_pubkey
      [5, default_pubkey, 6] \<lparr>ea_owners = [], ea_bump = 0\<rparr> = Ok \<lparr>ea_owners = [5, default_pubkey, 6], ea_bump = 255\<rparr>"
    by (simp add: set_circulating_supply_excluded_accounts_def validate_unique_non_default_owners_def
        zero_state_def default_pubkey_def)
  have "is_ok (update_circulating_supply_excluded_balance sample_env ?L ?st sample_onyc 9
      \<lparr>ea_owners = [5, default_pubkey, 6], ea_bump = 255\<rparr> ?ts ?eb0)"
    by (simp add: update_circulating_supply_excluded_balance_def active_owners_def default_pubkey_def
        sample_onyc_def sample_mint_def checked_add_def int_defs is_ok_def)
  then obtain eb where ok: "update_circulating_supply_excluded_balance sample_env ?L ?st sample_onyc 9
      \<lparr>ea_owners = [5, default_pubkey, 6], ea_bump = 255\<rparr> ?ts ?eb0 = Ok eb"
    by (auto simp: is_ok_iff)
  have "{k \<in> set [5, default_pubkey, 6]. k \<noteq> default_pubkey} = {5, 6}"
    by (auto simp: default_pubkey_def)
  with excluded_balance_sums_each_owner_once [OF set_ok ok] have "eb_amount eb = 2154"
    by simp
  with ok show ?thesis by blast
qed

end
