(* ===== verification/Buffer.thy ===== *)
theory Buffer
  imports Market_Stats
begin

text \<open>
  The BUFFER pool (\<open>buffer/\<close>): yield above the main offer's rate is minted as new ONyc and
  split between the reserve and two fee vaults. The theory models the accrual arithmetic, the
  accrual itself with its mints, the baseline bookkeeping, and the instructions that settle,
  configure and burn.

  Accounts whose address an account struct fixes by seeds stand at their derived address; the
  token program an instruction is given is an argument where the code compares against it.
\<close>

section \<open>State and accrual arithmetic\<close>

definition SECONDS_PER_YEAR :: u128 where [const_defs]: "SECONDS_PER_YEAR = 31536000"
definition YIELD_SCALE :: u128 where [const_defs]: "YIELD_SCALE = 1000000"
definition MAX_BUFFER_GROSS_APR :: u64 where [const_defs]: "MAX_BUFFER_GROSS_APR = 1000000"
definition BASIS_POINTS_SCALE :: u128 where [const_defs]: "BASIS_POINTS_SCALE = MAX_BASIS_POINTS"
definition BASIS_POINT_TO_YIELD_SCALE :: u128 where
  [const_defs]: "BASIS_POINT_TO_YIELD_SCALE = YIELD_SCALE div BASIS_POINTS_SCALE"

record buffer_state =
  b_onyc_mint :: pubkey
  b_gross_apr :: u64
  b_previous_supply :: u64
  b_management_fee_basis_points :: u16
  b_performance_fee_basis_points :: u16
  b_performance_fee_high_watermark :: u64
  b_performance_fee_high_watermark_enabled :: bool
  b_last_accrual_timestamp :: i64
  b_bump :: u8

definition zero_buffer_state :: buffer_state where
  "zero_buffer_state = \<lparr>b_onyc_mint = default_pubkey, b_gross_apr = 0, b_previous_supply = 0,
     b_management_fee_basis_points = 0, b_performance_fee_basis_points = 0,
     b_performance_fee_high_watermark = 0, b_performance_fee_high_watermark_enabled = False,
     b_last_accrual_timestamp = 0, b_bump = 0\<rparr>"

definition calculate_accrual_from_apr_delta :: "u64 \<Rightarrow> u64 \<Rightarrow> u64 \<Rightarrow> u64 \<Rightarrow> u64 result" where
  "calculate_accrual_from_apr_delta previous_supply apr_delta current_yield seconds_elapsed =
     (if apr_delta = 0 \<or> previous_supply = 0 \<or> seconds_elapsed = 0 then Ok 0
      else
        and_then (ok_or (Option.bind (checked_mul u128_max SECONDS_PER_YEAR YIELD_SCALE) (\<lambda>v.
            Option.bind (checked_mul u128_max current_yield seconds_elapsed) (\<lambda>w.
            checked_add u128_max v w))) MathOverflow) (\<lambda>target_nav_growth_denominator.
        and_then (ok_or (Option.bind (checked_mul u128_max previous_supply apr_delta) (\<lambda>v.
            checked_mul u128_max v seconds_elapsed)) MathOverflow) (\<lambda>numerator.
        and_then (ok_or (checked_div numerator target_nav_growth_denominator) MathOverflow)
          (\<lambda>mint_amount.
        require (mint_amount \<le> u64_max) ResultOverflow (Ok (as_u64 mint_amount))))))"

definition calculate_gross_buffer_accrual :: "u64 \<Rightarrow> u64 \<Rightarrow> u64 \<Rightarrow> u64 \<Rightarrow> u64 result" where
  "calculate_gross_buffer_accrual previous_supply gross_yield current_yield seconds_elapsed =
     calculate_accrual_from_apr_delta previous_supply (saturating_sub gross_yield current_yield)
       current_yield seconds_elapsed"

record buffer_accrual_breakdown =
  bd_buffer_mint_amount :: u64
  bd_reserve_mint_amount :: u64
  bd_management_fee_mint_amount :: u64
  bd_performance_fee_mint_amount :: u64
  bd_new_performance_fee_high_watermark :: u64

definition calculate_buffer_fee_split ::
  "u64 \<Rightarrow> u64 \<Rightarrow> u16 \<Rightarrow> u16 \<Rightarrow> u64 \<Rightarrow> u64 \<Rightarrow> bool \<Rightarrow> buffer_accrual_breakdown result" where
  "calculate_buffer_fee_split buffer_mint_amount apr_delta management_fee_basis_points
     performance_fee_basis_points current_nav high_watermark high_watermark_enabled =
     and_then (if apr_delta = 0 \<or> buffer_mint_amount = 0 then Ok 0
       else
         and_then (ok_or (checked_mul u64_max management_fee_basis_points
             (as_u64 BASIS_POINT_TO_YIELD_SCALE)) MathOverflow) (\<lambda>fee_apr.
         let management_fee_apr = min fee_apr apr_delta in
         and_then (ok_or (checked_mul u128_max buffer_mint_amount management_fee_apr) MathOverflow)
           (\<lambda>product.
         and_then (ok_or (checked_div product apr_delta) MathOverflow) (\<lambda>fee.
         require (fee \<le> u64_max) ResultOverflow (Ok (as_u64 fee))))))
       (\<lambda>management_fee_mint_amount.
     and_then (ok_or (checked_sub buffer_mint_amount management_fee_mint_amount) MathOverflow)
       (\<lambda>after_management.
     and_then (if \<not> high_watermark_enabled \<or> (high_watermark \<noteq> 0 \<and> current_nav \<ge> high_watermark)
       then
         and_then (ok_or (checked_mul u128_max after_management performance_fee_basis_points)
             MathOverflow) (\<lambda>product.
         and_then (ok_or (checked_div product BASIS_POINTS_SCALE) MathOverflow) (\<lambda>fee.
         require (fee \<le> u64_max) ResultOverflow (Ok (as_u64 fee))))
       else Ok 0) (\<lambda>performance_fee_mint_amount.
     and_then (ok_or (checked_sub after_management performance_fee_mint_amount) MathOverflow)
       (\<lambda>reserve_mint_amount.
     Ok \<lparr>bd_buffer_mint_amount = buffer_mint_amount,
         bd_reserve_mint_amount = reserve_mint_amount,
         bd_management_fee_mint_amount = management_fee_mint_amount,
         bd_performance_fee_mint_amount = performance_fee_mint_amount,
         bd_new_performance_fee_high_watermark = max high_watermark current_nav\<rparr>))))"

section \<open>Accounts\<close>

record buffer_accrual_accounts =
  ba_buffer_state :: "buffer_state account"
  ba_reserve_vault_onyc_account :: token_info
  ba_management_fee_vault_onyc_account :: token_info
  ba_performance_fee_vault_onyc_account :: token_info

definition load_buffer_state :: "env \<Rightarrow> buffer_accrual_accounts \<Rightarrow> buffer_state result" where
  "load_buffer_state e ba =
     load_pda_account (ba_buffer_state ba) (program_id e) InvalidOnycMint InvalidOnycMint"

definition store_buffer_state ::
  "buffer_accrual_accounts \<Rightarrow> buffer_state \<Rightarrow> buffer_accrual_accounts result" where
  "store_buffer_state ba b =
     and_then (store_pda_account (ba_buffer_state ba) b) (\<lambda>account.
     Ok (ba\<lparr>ba_buffer_state := account\<rparr>))"

definition check_is_initialized :: "env \<Rightarrow> buffer_accrual_accounts \<Rightarrow> bool result" where
  "check_is_initialized e ba =
     require (a_key (ba_buffer_state ba) = pda e [Seed ''buffer_state'']) InvalidBufferStateAccount (
     if a_owner (ba_buffer_state ba) \<noteq> program_id e \<or> a_data (ba_buffer_state ba) = NoData
     then Ok False
     else and_then (load_buffer_state e ba) (\<lambda>_. Ok True))"

definition validate_buffer_onyc_vault_accounts ::
  "env \<Rightarrow> buffer_state \<Rightarrow> buffer_accrual_accounts \<Rightarrow> mint \<Rightarrow> pubkey \<Rightarrow> unit result" where
  "validate_buffer_onyc_vault_accounts e b ba onyc_mint token_program =
     (let ata = (\<lambda>seeds. get_associated_token_address_with_program_id e (pda e seeds)
            (m_key onyc_mint) token_program)
      in
      require (b_onyc_mint b = m_key onyc_mint) InvalidOnycMint (
      require (t_key (ba_reserve_vault_onyc_account ba) = ata [Seed ''reserve_vault_authority''])
        InvalidOnycMint (
      require (t_key (ba_management_fee_vault_onyc_account ba) = ata (vault_seeds ManagementFee))
        InvalidOnycMint (
      require (t_key (ba_performance_fee_vault_onyc_account ba) = ata (vault_seeds PerformanceFee))
        InvalidOnycMint (Ok ())))))"

section \<open>Accrual\<close>

record buffer_accrual_result =
  ar_seconds_elapsed :: u64
  ar_apr_delta :: u64
  ar_buffer_mint_amount :: u64
  ar_reserve_mint_amount :: u64
  ar_management_fee_mint_amount :: u64
  ar_performance_fee_mint_amount :: u64
  ar_old_previous_supply :: u64
  ar_new_previous_supply :: u64
  ar_old_previous_performance_fee_high_watermark :: u64
  ar_new_performance_fee_high_watermark :: u64
  ar_timestamp :: i64
  ar_current_nav :: u64
  ar_post_accrual_supply :: u64
  ar_reserve_vault_balance_after_accrual :: u64

definition set_buffer_baseline_after_supply_change :: "u64 \<Rightarrow> i64 \<Rightarrow> buffer_state \<Rightarrow> buffer_state"
  where
  "set_buffer_baseline_after_supply_change post_change_supply now b =
     b\<lparr>b_previous_supply := post_change_supply, b_last_accrual_timestamp := now\<rparr>"

definition store_buffer_post_supply ::
  "env \<Rightarrow> buffer_accrual_accounts \<Rightarrow> u64 \<Rightarrow> i64 \<Rightarrow> buffer_accrual_accounts result" where
  "store_buffer_post_supply e ba post_change_supply now =
     and_then (load_buffer_state e ba) (\<lambda>b.
     store_buffer_state ba (set_buffer_baseline_after_supply_change post_change_supply now b))"

text \<open>The loop over the three destinations mints the non-zero amounts.\<close>

fun mint_each ::
  "spl_token \<Rightarrow> state \<Rightarrow> mint \<Rightarrow> pubkey \<Rightarrow> (pubkey \<times> u64) list \<Rightarrow> ledger \<Rightarrow> ledger result" where
  "mint_each spl st onyc_mint mint_authority [] L = Ok L"
| "mint_each spl st onyc_mint mint_authority ((destination, amount) # rest) L =
     and_then (if amount > 0
       then mint_tokens spl onyc_mint destination mint_authority amount (s_max_supply st)
         (s_max_mint_amount st) L
       else Ok L) (\<lambda>L.
     mint_each spl st onyc_mint mint_authority rest L)"

definition mint_accrual ::
  "spl_token \<Rightarrow> state \<Rightarrow> mint \<Rightarrow> pubkey \<Rightarrow> pubkey \<Rightarrow> pubkey \<Rightarrow> pubkey \<Rightarrow> u64 \<Rightarrow>
     buffer_accrual_breakdown \<Rightarrow> ledger \<Rightarrow> ledger result" where
  "mint_accrual spl st onyc_mint mint_authority reserve_vault management_vault performance_vault
     buffer_mint_amount fee_split L =
     (if buffer_mint_amount > 0 then
        and_then (validate_max_supply (m_supply onyc_mint) buffer_mint_amount (s_max_supply st)) (\<lambda>_.
        require (s_max_mint_amount st > 0 \<longrightarrow> buffer_mint_amount \<le> s_max_mint_amount st)
          MaxMintAmountExceeded (
        mint_each spl st onyc_mint mint_authority
          [(reserve_vault, bd_reserve_mint_amount fee_split),
           (management_vault, bd_management_fee_mint_amount fee_split),
           (performance_vault, bd_performance_fee_mint_amount fee_split)] L))
      else Ok L)"

definition accrue_buffer ::
  "spl_token \<Rightarrow> state \<Rightarrow> offer \<Rightarrow> mint \<Rightarrow> token_info \<Rightarrow> token_info \<Rightarrow> token_info \<Rightarrow> pubkey \<Rightarrow> pubkey \<Rightarrow>
     i64 \<Rightarrow> buffer_state \<Rightarrow> ledger \<Rightarrow> (buffer_accrual_result \<times> buffer_state \<times> ledger) result" where
  "accrue_buffer spl st offer onyc_mint reserve_vault management_vault performance_vault
     mint_authority token_program now b L =
     require (now \<ge> b_last_accrual_timestamp b) InvalidTimestamp (
     and_then (get_active_vector_and_current_price offer (i64_as_u64 now))
       (\<lambda>(active_vector, current_nav).
     and_then (ok_or (checked_sub_i64 now (b_last_accrual_timestamp b)) Panic) (\<lambda>elapsed.
     let seconds_elapsed = i64_as_u64 elapsed;
         apr_delta = saturating_sub (b_gross_apr b) (v_apr active_vector);
         old_previous_supply = b_previous_supply b;
         current_supply_before_mint = m_supply onyc_mint;
         reserve_before = read_optional_token_account_amount L reserve_vault token_program;
         old_watermark = b_performance_fee_high_watermark b
     in
     if old_previous_supply = 0 then
       (let b' = set_buffer_baseline_after_supply_change current_supply_before_mint now
              (b\<lparr>b_performance_fee_high_watermark := current_nav\<rparr>)
        in
        Ok (\<lparr>ar_seconds_elapsed = seconds_elapsed, ar_apr_delta = apr_delta,
             ar_buffer_mint_amount = 0, ar_reserve_mint_amount = 0,
             ar_management_fee_mint_amount = 0, ar_performance_fee_mint_amount = 0,
             ar_old_previous_supply = old_previous_supply,
             ar_new_previous_supply = b_previous_supply b',
             ar_old_previous_performance_fee_high_watermark = old_watermark,
             ar_new_performance_fee_high_watermark = b_performance_fee_high_watermark b',
             ar_timestamp = now, ar_current_nav = current_nav,
             ar_post_accrual_supply = b_previous_supply b',
             ar_reserve_vault_balance_after_accrual = reserve_before\<rparr>, b', L))
     else
       and_then (calculate_gross_buffer_accrual old_previous_supply (b_gross_apr b)
           (v_apr active_vector) seconds_elapsed) (\<lambda>buffer_mint_amount.
       and_then (calculate_buffer_fee_split buffer_mint_amount apr_delta
           (b_management_fee_basis_points b) (b_performance_fee_basis_points b) current_nav
           old_watermark (b_performance_fee_high_watermark_enabled b)) (\<lambda>fee_split.
       and_then (mint_accrual spl st onyc_mint mint_authority (t_key reserve_vault)
           (t_key management_vault) (t_key performance_vault) buffer_mint_amount fee_split L) (\<lambda>L.
       and_then (ok_or (checked_add u64_max current_supply_before_mint buffer_mint_amount)
           MathOverflow) (\<lambda>post_accrual_supply.
       and_then (ok_or (checked_add u64_max reserve_before (bd_reserve_mint_amount fee_split))
           MathOverflow) (\<lambda>reserve_after.
       let b' = set_buffer_baseline_after_supply_change post_accrual_supply now
             (b\<lparr>b_performance_fee_high_watermark := bd_new_performance_fee_high_watermark fee_split\<rparr>)
       in
       Ok (\<lparr>ar_seconds_elapsed = seconds_elapsed, ar_apr_delta = apr_delta,
            ar_buffer_mint_amount = bd_buffer_mint_amount fee_split,
            ar_reserve_mint_amount = bd_reserve_mint_amount fee_split,
            ar_management_fee_mint_amount = bd_management_fee_mint_amount fee_split,
            ar_performance_fee_mint_amount = bd_performance_fee_mint_amount fee_split,
            ar_old_previous_supply = old_previous_supply,
            ar_new_previous_supply = b_previous_supply b',
            ar_old_previous_performance_fee_high_watermark = old_watermark,
            ar_new_performance_fee_high_watermark = b_performance_fee_high_watermark b',
            ar_timestamp = now, ar_current_nav = current_nav,
            ar_post_accrual_supply = post_accrual_supply,
            ar_reserve_vault_balance_after_accrual = reserve_after\<rparr>, b', L))))))))) "

definition accrue_buffer_from_accounts ::
  "env \<Rightarrow> spl_token \<Rightarrow> state \<Rightarrow> buffer_accrual_accounts \<Rightarrow> offer \<Rightarrow> mint \<Rightarrow> pubkey \<Rightarrow> pubkey \<Rightarrow> ledger \<Rightarrow>
     (buffer_accrual_result \<times> buffer_accrual_accounts \<times> ledger) result" where
  "accrue_buffer_from_accounts e spl st ba offer onyc_mint mint_authority token_program L =
     and_then (load_buffer_state e ba) (\<lambda>b.
     and_then (validate_buffer_onyc_vault_accounts e b ba onyc_mint token_program) (\<lambda>_.
     and_then (accrue_buffer spl st offer onyc_mint (ba_reserve_vault_onyc_account ba)
         (ba_management_fee_vault_onyc_account ba) (ba_performance_fee_vault_onyc_account ba)
         mint_authority token_program (unix_timestamp e) b L) (\<lambda>(result, b', L).
     and_then (store_buffer_state ba b') (\<lambda>ba.
     Ok (result, ba, L)))))"

section \<open>Instructions\<close>

text \<open>Accounts an instruction on the BUFFER changes: the ledger, the pool and the statistics.\<close>

record buffer_world =
  w_ledger :: ledger
  w_buffer_accounts :: buffer_accrual_accounts
  w_market_stats :: "market_stats account"

definition accrue_and_refresh ::
  "env \<Rightarrow> spl_token \<Rightarrow> state \<Rightarrow> offer \<Rightarrow> mint \<Rightarrow> pubkey \<Rightarrow> pubkey \<Rightarrow>
     circulating_supply_excluded_balance account \<Rightarrow> buffer_world \<Rightarrow> buffer_world result" where
  "accrue_and_refresh e spl st offer onyc_mint mint_authority token_program eb w =
     and_then (accrue_buffer_from_accounts e spl st (w_buffer_accounts w) offer onyc_mint
         mint_authority token_program (w_ledger w)) (\<lambda>(_, ba, L).
     and_then (refresh_market_stats_pda e offer (reload L onyc_mint) eb (w_market_stats w)) (\<lambda>ms.
     Ok \<lparr>w_ledger = L, w_buffer_accounts = ba, w_market_stats = ms\<rparr>))"

text \<open>\<open>mint_authority.unwrap()\<close> in the account struct panics for a mint without an authority.\<close>

definition settle_buffer ::
  "env \<Rightarrow> spl_token \<Rightarrow> state \<Rightarrow> pubkey \<Rightarrow> mint \<Rightarrow> pubkey \<Rightarrow> offer account \<Rightarrow>
     circulating_supply_excluded_balance account \<Rightarrow> buffer_world \<Rightarrow> buffer_world result" where
  "settle_buffer e spl st worker onyc_mint token_program main_offer eb w =
     require (worker = s_worker st) InvalidWorker (
     require (m_key onyc_mint = s_onyc_mint st) AnchorConstraint (
     require (\<not> s_is_killed st) KillSwitchActivated (
     require (s_main_offer st \<noteq> default_pubkey) InvalidMainOffer (
     and_then (ok_or (m_mint_authority onyc_mint) Panic) (\<lambda>authority.
     require (authority = pda e [Seed ''mint_authority'']) NoMintAuthority (
     and_then (load_main_offer e main_offer st) (\<lambda>offer.
     accrue_and_refresh e spl st offer onyc_mint (pda e [Seed ''mint_authority'']) token_program
       eb w)))))))"

text \<open>The account checks that the two configuration instructions share.\<close>

definition check_buffer_config_accounts ::
  "env \<Rightarrow> state \<Rightarrow> pubkey \<Rightarrow> mint \<Rightarrow> offer account \<Rightarrow> offer result" where
  "check_buffer_config_accounts e st boss onyc_mint main_offer =
     require (boss = s_boss st) AnchorConstraint (
     require (m_key onyc_mint = s_onyc_mint st) AnchorConstraint (
     require (\<not> s_is_killed st) KillSwitchActivated (
     require (a_key main_offer = s_main_offer st) InvalidMainOffer (
     require (m_mint_authority onyc_mint = Some (pda e [Seed ''mint_authority''])) NoMintAuthority (
     load_pda_account main_offer (program_id e) AnchorConstraint AnchorConstraint)))))"

definition set_buffer_gross_apr ::
  "env \<Rightarrow> spl_token \<Rightarrow> state \<Rightarrow> pubkey \<Rightarrow> mint \<Rightarrow> pubkey \<Rightarrow> offer account \<Rightarrow>
     circulating_supply_excluded_balance account \<Rightarrow> u64 \<Rightarrow> buffer_world \<Rightarrow> buffer_world result" where
  "set_buffer_gross_apr e spl st boss onyc_mint token_program main_offer eb gross_yield w =
     and_then (check_buffer_config_accounts e st boss onyc_mint main_offer) (\<lambda>offer.
     require (gross_yield \<le> MAX_BUFFER_GROSS_APR) InvalidAPR (
     and_then (load_buffer_state e (w_buffer_accounts w)) (\<lambda>b.
     require (b_gross_apr b \<noteq> gross_yield) NoChange (
     require (m_key onyc_mint = o_token_out_mint offer) InvalidTokenOutMint (
     and_then (accrue_and_refresh e spl st offer onyc_mint (pda e [Seed ''mint_authority''])
         token_program eb w) (\<lambda>w.
     and_then (load_buffer_state e (w_buffer_accounts w)) (\<lambda>b.
     and_then (store_buffer_state (w_buffer_accounts w) (b\<lparr>b_gross_apr := gross_yield\<rparr>)) (\<lambda>ba.
     Ok (w\<lparr>w_buffer_accounts := ba\<rparr>)))))))))"

definition set_buffer_fee_config ::
  "env \<Rightarrow> spl_token \<Rightarrow> state \<Rightarrow> pubkey \<Rightarrow> mint \<Rightarrow> pubkey \<Rightarrow> offer account \<Rightarrow>
     circulating_supply_excluded_balance account \<Rightarrow> u16 \<Rightarrow> u16 \<Rightarrow> bool \<Rightarrow> buffer_world \<Rightarrow>
     buffer_world result" where
  "set_buffer_fee_config e spl st boss onyc_mint token_program main_offer eb management_fee
     performance_fee watermark_enabled w =
     and_then (check_buffer_config_accounts e st boss onyc_mint main_offer) (\<lambda>offer.
     require (management_fee \<le> MAX_BASIS_POINTS) InvalidFee (
     require (performance_fee \<le> MAX_BASIS_POINTS) InvalidFee (
     and_then (load_buffer_state e (w_buffer_accounts w)) (\<lambda>b.
     require (b_management_fee_basis_points b \<noteq> management_fee \<or>
         b_performance_fee_basis_points b \<noteq> performance_fee \<or>
         b_performance_fee_high_watermark_enabled b \<noteq> watermark_enabled) NoChange (
     require (m_key onyc_mint = o_token_out_mint offer) InvalidTokenOutMint (
     and_then (accrue_and_refresh e spl st offer onyc_mint (pda e [Seed ''mint_authority''])
         token_program eb w) (\<lambda>w.
     and_then (load_buffer_state e (w_buffer_accounts w)) (\<lambda>b.
     and_then (store_buffer_state (w_buffer_accounts w)
         (b\<lparr>b_management_fee_basis_points := management_fee,
            b_performance_fee_basis_points := performance_fee,
            b_performance_fee_high_watermark_enabled := watermark_enabled\<rparr>)) (\<lambda>ba.
     Ok (w\<lparr>w_buffer_accounts := ba\<rparr>))))))))))"

definition init_fee_vault ::
  "configurable_vault_kind \<Rightarrow> u8 \<Rightarrow> configurable_vault \<Rightarrow> configurable_vault result" where
  "init_fee_vault kind bump vault =
     (let vault = (if cv_kind vault = 0 \<and> cv_withdrawal_destination vault = default_pubkey \<and>
            cv_bump vault = 0
          then vault\<lparr>cv_kind := as_u8 kind, cv_bump := bump\<rparr> else vault)
      in require (cv_kind vault = as_u8 kind) InvalidConfigurableVaultKind (Ok vault))"

text \<open>\<open>existing\<close> is the account at the BUFFER address; \<open>init\<close> rejects an existing one.\<close>

definition initialize_buffer ::
  "env \<Rightarrow> state \<Rightarrow> pubkey \<Rightarrow> mint \<Rightarrow> offer account \<Rightarrow> configurable_vault \<Rightarrow> configurable_vault \<Rightarrow>
     buffer_state option \<Rightarrow> (buffer_state \<times> configurable_vault \<times> configurable_vault) result" where
  "initialize_buffer e st boss onyc_mint main_offer management_fee_vault performance_fee_vault existing =
     require (boss = s_boss st) AnchorConstraint (
     require (m_key onyc_mint = s_onyc_mint st) AnchorConstraint (
     require (existing = None) AnchorConstraint (
     require (a_key main_offer = s_main_offer st) InvalidMainOffer (
     and_then (load_pda_account main_offer (program_id e) AnchorConstraint AnchorConstraint) (\<lambda>offer.
     require (m_key onyc_mint = o_token_out_mint offer) InvalidTokenOutMint (
     and_then (init_fee_vault ManagementFee (snd (find_program_address e (vault_seeds ManagementFee)))
         management_fee_vault) (\<lambda>management_fee_vault.
     and_then (init_fee_vault PerformanceFee (snd (find_program_address e (vault_seeds PerformanceFee)))
         performance_fee_vault) (\<lambda>performance_fee_vault.
     Ok (zero_buffer_state\<lparr>b_onyc_mint := m_key onyc_mint,
           b_performance_fee_high_watermark_enabled := True,
           b_last_accrual_timestamp := unix_timestamp e,
           b_bump := snd (find_program_address e [Seed ''buffer_state''])\<rparr>,
         management_fee_vault, performance_fee_vault)))))))))"

definition calculate_burn_amount :: "u64 \<Rightarrow> u64 \<Rightarrow> u64 \<Rightarrow> u64 \<Rightarrow> u64 result" where
  "calculate_burn_amount circulating_supply asset_adjustment_amount nav_before nav_after =
     and_then (map_err (calculate_tvl circulating_supply nav_before) MathOverflow)
       (\<lambda>total_assets_before_burn.
     require (total_assets_before_burn \<ge> asset_adjustment_amount) InvalidAssetAdjustmentAmount (
     and_then (ok_or (checked_pow u128_max 10 PRICE_DECIMALS) MathOverflow) (\<lambda>nav_scale.
     let assets_after_adjustment = total_assets_before_burn - asset_adjustment_amount in
     and_then (ok_or (checked_mul u128_max assets_after_adjustment nav_scale) MathOverflow)
       (\<lambda>numerator.
     and_then (ok_or (ceil_div_u128 numerator nav_after) MathOverflow) (\<lambda>required_supply_after.
     require (required_supply_after \<le> circulating_supply) InvalidBurnTarget (
     and_then (ok_or (checked_sub circulating_supply required_supply_after) MathOverflow)
       (\<lambda>burn_amount.
     require (burn_amount > 0) NoBurnNeeded (
     require (burn_amount \<le> u64_max) ResultOverflow (
     Ok (as_u64 burn_amount))))))))))"

definition check_burn_accounts ::
  "env \<Rightarrow> state \<Rightarrow> pubkey \<Rightarrow> mint \<Rightarrow> pubkey \<Rightarrow> offer account \<Rightarrow> configurable_vault \<Rightarrow>
     configurable_vault \<Rightarrow> buffer_accrual_accounts \<Rightarrow> (buffer_state \<times> offer) result" where
  "check_burn_accounts e st boss onyc_mint token_program main_offer management_fee_vault
     performance_fee_vault ba =
     (let ata = (\<lambda>seeds. get_associated_token_address_with_program_id e (pda e seeds)
            (m_key onyc_mint) token_program)
      in
      require (boss = s_boss st) AnchorConstraint (
      require (m_key onyc_mint = s_onyc_mint st) AnchorConstraint (
      require (\<not> s_is_killed st) KillSwitchActivated (
      and_then (load_pda_account (ba_buffer_state ba) (program_id e) AnchorConstraint AnchorConstraint)
        (\<lambda>b.
      and_then (load_pda_account main_offer (program_id e) AnchorConstraint AnchorConstraint) (\<lambda>offer.
      require (cv_kind management_fee_vault = as_u8 ManagementFee) InvalidConfigurableVaultKind (
      require (t_key (ba_management_fee_vault_onyc_account ba) = ata (vault_seeds ManagementFee))
        AnchorConstraint (
      require (cv_kind performance_fee_vault = as_u8 PerformanceFee) InvalidConfigurableVaultKind (
      require (t_key (ba_performance_fee_vault_onyc_account ba) = ata (vault_seeds PerformanceFee))
        AnchorConstraint (
      require (m_mint_authority onyc_mint = Some (pda e [Seed ''mint_authority''])) NoMintAuthority (
      Ok (b, offer))))))))))))"

definition burn_for_nav_increase ::
  "env \<Rightarrow> spl_token \<Rightarrow> state \<Rightarrow> pubkey \<Rightarrow> mint \<Rightarrow> pubkey \<Rightarrow> offer account \<Rightarrow> configurable_vault \<Rightarrow>
     configurable_vault \<Rightarrow> circulating_supply_excluded_balance account \<Rightarrow> u64 \<Rightarrow> buffer_world \<Rightarrow>
     buffer_world result" where
  "burn_for_nav_increase e spl st boss onyc_mint token_program main_offer management_fee_vault
     performance_fee_vault eb asset_adjustment_amount w =
     (let ba = w_buffer_accounts w; now = unix_timestamp e;
          reserve_vault = ba_reserve_vault_onyc_account ba;
          reserve_authority = pda e [Seed ''reserve_vault_authority'']
      in
      and_then (check_burn_accounts e st boss onyc_mint token_program main_offer
          management_fee_vault performance_fee_vault ba) (\<lambda>(b, offer).
      require (a_key main_offer = s_main_offer st) InvalidMainOffer (
      require (m_key onyc_mint = o_token_out_mint offer) InvalidTokenOutMint (
      and_then (compute_offer_current_price offer (i64_as_u64 now)) (\<lambda>quoted_nav.
      require (quoted_nav > 0) InvalidTargetNav (
      require (t_key reserve_vault = get_associated_token_address_with_program_id e reserve_authority
          (m_key onyc_mint) token_program) InvalidOnycMint (
      and_then (accrue_buffer spl st offer onyc_mint reserve_vault
          (ba_management_fee_vault_onyc_account ba) (ba_performance_fee_vault_onyc_account ba)
          (pda e [Seed ''mint_authority'']) token_program now b (w_ledger w)) (\<lambda>(accrual, b, L).
      and_then (load_circulating_supply_excluded_balance_amount e eb) (\<lambda>excluded_amount.
      and_then (calculate_circulating_supply (ar_post_accrual_supply accrual) excluded_amount)
        (\<lambda>circulating_supply.
      and_then (map_err (calculate_tvl circulating_supply (ar_current_nav accrual)) MathOverflow) (\<lambda>_.
      and_then (calculate_burn_amount circulating_supply asset_adjustment_amount
          (ar_current_nav accrual) quoted_nav) (\<lambda>burn_amount.
      require (burn_amount \<le> ar_reserve_vault_balance_after_accrual accrual)
        InsufficientCacheBalance (
      and_then (burn_tokens spl onyc_mint (t_key reserve_vault) reserve_authority burn_amount L) (\<lambda>L.
      and_then (ok_or (checked_sub (ar_post_accrual_supply accrual) burn_amount) MathOverflow)
        (\<lambda>post_burn_supply.
      and_then (store_buffer_state ba
          (set_buffer_baseline_after_supply_change post_burn_supply now b)) (\<lambda>ba.
      and_then (refresh_market_stats_pda e offer (reload L onyc_mint) eb (w_market_stats w)) (\<lambda>ms.
      Ok \<lparr>w_ledger = L, w_buffer_accounts = ba, w_market_stats = ms\<rparr>)))))))))))))))))"

section \<open>Accrual arithmetic: lemmas\<close>

lemma gross_accrual_Ok:
  assumes "calculate_gross_buffer_accrual supply gross current t = Ok m"
  shows "m = supply * (gross - current) * t div (31536000 * 1000000 + current * t)" and "m \<le> u64_max"
proof -
  have "m = supply * (gross - current) * t div (31536000 * 1000000 + current * t) \<and> m \<le> u64_max"
    using assms
    by (cases "gross - current = 0 \<or> supply = 0 \<or> t = 0")
      (auto simp: calculate_gross_buffer_accrual_def calculate_accrual_from_apr_delta_def
        saturating_sub_def bind_eq_Some_conv as_u64_id const_defs)
  then show "m = supply * (gross - current) * t div (31536000 * 1000000 + current * t)"
    and "m \<le> u64_max" by blast+
qed

text \<open>
  C27: The tokens the BUFFER mints bring the growth of the pool up to the gross yield and no
  further: with a year of 31536000 seconds and rates in millionths, the diluted supply growing
  at the current yield over the elapsed time is worth at most the old supply growing at the
  gross yield, and one more token would exceed it.
\<close>

theorem accrual_meets_gross_yield_exactly:
  assumes "calculate_gross_buffer_accrual supply gross current t = Ok m" and "current \<le> gross"
  shows "(supply + m) * (31536000 * 1000000 + current * t) \<le> supply * (31536000 * 1000000 + gross * t) \<and>
    supply * (31536000 * 1000000 + gross * t) < (supply + m + 1) * (31536000 * 1000000 + current * t)"
proof -
  define D where "D = 31536000 * 1000000 + current * t"
  define N where "N = supply * (gross - current) * t"
  have m: "m = N div D" using gross_accrual_Ok(1) [OF assms(1)] by (simp add: N_def D_def)
  have D: "0 < D" by (simp add: D_def)
  obtain k where k: "gross = current + k" using assms(2) by (metis le_Suc_ex)
  have G: "supply * (31536000 * 1000000 + gross * t) = supply * D + N"
    by (simp add: N_def D_def k algebra_simps)
  have "m * D \<le> N" by (simp add: m)
  moreover have "N < (m + 1) * D"
    unfolding m using dividend_less_div_times [OF D, of N] by (simp add: algebra_simps)
  ultimately show ?thesis
    unfolding G D_def [symmetric] by (simp add: add_mult_distrib)
qed

theorem accrual_meets_gross_yield_exactly_witness:
  "(1000000000 + 48780487) * (31536000 * 1000000 + 50000 * 15768000) \<le>
     1000000000 * (31536000 * 1000000 + 150000 * 15768000 :: nat) \<and>
   1000000000 * (31536000 * 1000000 + 150000 * 15768000) <
     (1000000000 + 48780487 + 1) * (31536000 * 1000000 + 50000 * 15768000 :: nat)"
  by (rule accrual_meets_gross_yield_exactly)
    (simp_all add: calculate_gross_buffer_accrual_def calculate_accrual_from_apr_delta_def
      saturating_sub_def checked_mul_def checked_add_def checked_div_def as_u64_def const_defs int_defs
      cong: eval_congs)

lemma fee_split_total:
  fixes buffer delta mf pf nav hw :: nat and en :: bool
  assumes b: "buffer \<le> u64_max" and mf: "mf \<le> u16_max" and pf: "pf \<le> MAX_BASIS_POINTS"
  defines "mgmt \<equiv> (if delta = 0 \<or> buffer = 0 then 0 else buffer * min (mf * 100) delta div delta)"
  defines "perf \<equiv> (if \<not> en \<or> (hw \<noteq> 0 \<and> hw \<le> nav) then (buffer - mgmt) * pf div 10000 else 0)"
  shows "calculate_buffer_fee_split buffer delta mf pf nav hw en =
      Ok \<lparr>bd_buffer_mint_amount = buffer, bd_reserve_mint_amount = buffer - mgmt - perf,
          bd_management_fee_mint_amount = mgmt, bd_performance_fee_mint_amount = perf,
          bd_new_performance_fee_high_watermark = max hw nav\<rparr>"
    and "mgmt \<le> buffer" and "perf \<le> buffer - mgmt"
proof -
  have le: "mgmt \<le> buffer" unfolding mgmt_def by (simp add: mul_div_le)
  then show "mgmt \<le> buffer" .
  show pl: "perf \<le> buffer - mgmt" using pf by (simp add: perf_def const_defs mul_div_le)
  have m1: "mf * 100 \<le> u64_max" "min (mf * 100) delta \<le> u64_max"
    using mf by (simp_all add: int_defs min_le_iff_disj)
  have m2: "buffer * min (mf * 100) delta \<le> u128_max" by (rule u64_mul_fits_u128 [OF b m1(2)])
  have m3: "(buffer - mgmt) * pf \<le> u128_max"
    by (rule u64_mul_fits_u128) (use b pf in \<open>simp_all add: const_defs int_defs\<close>)
  have fits: "mgmt \<le> u64_max" "perf \<le> u64_max" using le pl b by simp_all
  have mgmt_step: "(if delta = 0 \<or> buffer = 0 then Ok 0
       else
         and_then (ok_or (checked_mul u64_max mf (as_u64 BASIS_POINT_TO_YIELD_SCALE)) MathOverflow) (\<lambda>fee_apr.
         let management_fee_apr = min fee_apr delta in
         and_then (ok_or (checked_mul u128_max buffer management_fee_apr) MathOverflow) (\<lambda>product.
         and_then (ok_or (checked_div product delta) MathOverflow) (\<lambda>fee.
         require (fee \<le> u64_max) ResultOverflow (Ok (as_u64 fee)))))) = Ok mgmt"
    using m1 m2 fits(1)
    by (auto simp: mgmt_def const_defs as_u64_def checked_mul_def checked_div_def Let_def)
      (simp_all add: int_defs)
  show "calculate_buffer_fee_split buffer delta mf pf nav hw en =
      Ok \<lparr>bd_buffer_mint_amount = buffer, bd_reserve_mint_amount = buffer - mgmt - perf,
          bd_management_fee_mint_amount = mgmt, bd_performance_fee_mint_amount = perf,
          bd_new_performance_fee_high_watermark = max hw nav\<rparr>"
    unfolding calculate_buffer_fee_split_def mgmt_step
    using le pl m3 fits(2)
    by (cases "\<not> en \<or> (hw \<noteq> 0 \<and> hw \<le> nav)") (auto simp: perf_def const_defs as_u64_id)
qed

text \<open>
  The fee split of an accrual always succeeds for configured fees and distributes exactly
  the minted amount between reserve, management fee and performance fee. The management fee is
  at most its rate's share of the excess yield, the performance fee at most its share of what
  is left, and with the watermark enabled there is no performance fee while the watermark is
  unset or the price is below it. The new watermark is the larger of the old one and the price.
\<close>

theorem buffer_fee_split_conserves:
  assumes "buffer \<le> u64_max" and "mf \<le> u16_max" and "pf \<le> MAX_BASIS_POINTS"
  shows "\<exists>r. calculate_buffer_fee_split buffer delta mf pf nav hw enabled = Ok r \<and>
    bd_reserve_mint_amount r + bd_management_fee_mint_amount r + bd_performance_fee_mint_amount r
      = buffer \<and>
    bd_management_fee_mint_amount r * delta \<le> buffer * (mf * 100) \<and>
    bd_performance_fee_mint_amount r * 10000 \<le> (buffer - bd_management_fee_mint_amount r) * pf \<and>
    (enabled \<and> (hw = 0 \<or> nav < hw) \<longrightarrow> bd_performance_fee_mint_amount r = 0) \<and>
    bd_new_performance_fee_high_watermark r = max hw nav"
proof -
  have a: "buffer * min (mf * 100) delta div delta * delta \<le> buffer * (mf * 100)"
    using div_times_less_eq_dividend [of "buffer * min (mf * 100) delta" delta]
      mult_le_mono2 [OF min.cobounded1, of buffer "mf * 100" delta]
    by linarith
  define mgmt where "mgmt = (if delta = 0 \<or> buffer = 0 then 0
    else buffer * min (mf * 100) delta div delta)"
  define perf where "perf = (if \<not> enabled \<or> (hw \<noteq> 0 \<and> hw \<le> nav) then (buffer - mgmt) * pf div 10000
    else 0)"
  have r: "calculate_buffer_fee_split buffer delta mf pf nav hw enabled =
      Ok \<lparr>bd_buffer_mint_amount = buffer, bd_reserve_mint_amount = buffer - mgmt - perf,
          bd_management_fee_mint_amount = mgmt, bd_performance_fee_mint_amount = perf,
          bd_new_performance_fee_high_watermark = max hw nav\<rparr>"
    unfolding perf_def mgmt_def by (rule fee_split_total(1) [OF assms])
  have "mgmt \<le> buffer" and "perf \<le> buffer - mgmt"
    unfolding perf_def mgmt_def by (rule fee_split_total(2,3) [OF assms])+
  then have "buffer - mgmt - perf + mgmt + perf = buffer" by simp
  moreover have "mgmt * delta \<le> buffer * (mf * 100)" using a by (simp add: mgmt_def)
  moreover have "perf * 10000 \<le> (buffer - mgmt) * pf"
    by (simp add: perf_def div_times_less_eq_dividend)
  moreover have "enabled \<and> (hw = 0 \<or> nav < hw) \<longrightarrow> perf = 0" by (auto simp: perf_def)
  ultimately show ?thesis unfolding r by simp
qed

theorem buffer_fee_split_conserves_witness:
  "\<exists>r. calculate_buffer_fee_split 10000 100000 100 2000 1000 0 True = Ok r \<and>
    bd_reserve_mint_amount r + bd_management_fee_mint_amount r + bd_performance_fee_mint_amount r
      = 10000 \<and> bd_performance_fee_mint_amount r = 0"
  using buffer_fee_split_conserves [of 10000 100 2000 100000 1000 0 True]
  by (auto simp: const_defs int_defs)

section \<open>Accrual: effect\<close>

lemma fee_split_Ok:
  assumes "calculate_buffer_fee_split buffer delta mf pf nav hw en = Ok r"
  shows "bd_buffer_mint_amount r = buffer"
    and "bd_reserve_mint_amount r + bd_management_fee_mint_amount r + bd_performance_fee_mint_amount r
      = buffer"
    and "bd_new_performance_fee_high_watermark r = max hw nav"
  using assms unfolding calculate_buffer_fee_split_def by (auto split del: if_split)

lemma mint_each_effect_both:
  assumes "spl_laws spl" and "mint_each spl st m auth ds L = Ok L'"
  shows "int (l_bal L' a) = int (l_bal L a) + (\<Sum>(d, n) \<leftarrow> ds. part (a = d) n) \<and>
    int (l_supply L' k) = int (l_supply L k) + part (k = m_key m) (sum_list (map snd ds))"
  using assms(2)
proof (induction ds arbitrary: L)
  case (Cons x ds)
  obtain d n where x: "x = (d, n)" by (cases x)
  obtain L1 where L1: "(if n > 0 then mint_tokens spl m d auth n (s_max_supply st) (s_max_mint_amount st) L
      else Ok L) = Ok L1" and rest: "mint_each spl st m auth ds L1 = Ok L'"
    using Cons.prems unfolding x by (auto split del: if_split)
  have "int (l_bal L1 a) = int (l_bal L a) + part (a = d) n"
    "int (l_supply L1 k) = int (l_supply L k) + part (k = m_key m) n"
    using L1 mint_tokens_effect [OF assms(1)] by (auto split: if_splits)
  then show ?case using Cons.IH [OF rest] by (simp add: x) (simp add: part_def)
qed simp

lemmas mint_each_effect = mint_each_effect_both [THEN conjunct1] mint_each_effect_both [THEN conjunct2]

text \<open>What a successful accrual leaves behind, in both of its branches.\<close>

definition accrual_effect ::
  "state \<Rightarrow> mint \<Rightarrow> pubkey \<Rightarrow> pubkey \<Rightarrow> pubkey \<Rightarrow> i64 \<Rightarrow> buffer_state \<Rightarrow> ledger \<Rightarrow>
     buffer_accrual_result \<Rightarrow> buffer_state \<Rightarrow> ledger \<Rightarrow> bool" where
  "accrual_effect st m rv mv pv now b L r b' L' \<longleftrightarrow>
     (\<forall>k. l_supply L' k = l_supply L k + (if k = m_key m then ar_buffer_mint_amount r else 0)) \<and>
     ar_reserve_mint_amount r + ar_management_fee_mint_amount r + ar_performance_fee_mint_amount r
       = ar_buffer_mint_amount r \<and>
     (\<forall>a. int (l_bal L' a) = int (l_bal L a) + part (a = rv) (ar_reserve_mint_amount r) +
        part (a = mv) (ar_management_fee_mint_amount r) +
        part (a = pv) (ar_performance_fee_mint_amount r)) \<and>
     ar_post_accrual_supply r = l_supply L' (m_key m) \<and>
     b' = b\<lparr>b_performance_fee_high_watermark := ar_new_performance_fee_high_watermark r,
        b_previous_supply := l_supply L' (m_key m), b_last_accrual_timestamp := now\<rparr> \<and>
     (ar_buffer_mint_amount r > 0 \<longrightarrow>
        (s_max_supply st > 0 \<longrightarrow> l_supply L' (m_key m) \<le> s_max_supply st) \<and>
        (s_max_mint_amount st > 0 \<longrightarrow> ar_buffer_mint_amount r \<le> s_max_mint_amount st)) \<and>
     b_last_accrual_timestamp b \<le> now"

lemma accrue_buffer_first:
  assumes "accrue_buffer spl st offer m rv mv pv auth prog now b L = Ok (r, b', L')"
    and "b_previous_supply b = 0" and "m_supply m = l_supply L (m_key m)"
  shows "accrual_effect st m (t_key rv) (t_key mv) (t_key pv) now b L r b' L'"
  using assms
  by (auto simp: accrue_buffer_def accrual_effect_def Let_def set_buffer_baseline_after_supply_change_def)

lemma accrue_buffer_later_mint:
  assumes laws: "spl_laws spl" and fresh: "m_supply m = l_supply L (m_key m)"
    and split: "calculate_buffer_fee_split n delta mf pf nav hw en = Ok fs"
    and mint: "mint_accrual spl st m auth rv mv pv n fs L = Ok L'"
  shows "l_supply L' k = l_supply L k + (if k = m_key m then n else 0)"
    and "int (l_bal L' a) = int (l_bal L a) + part (a = rv) (bd_reserve_mint_amount fs) +
        part (a = mv) (bd_management_fee_mint_amount fs) +
        part (a = pv) (bd_performance_fee_mint_amount fs)"
    and "n > 0 \<Longrightarrow> s_max_supply st > 0 \<Longrightarrow> l_supply L (m_key m) + n \<le> s_max_supply st"
    and "n > 0 \<Longrightarrow> s_max_mint_amount st > 0 \<Longrightarrow> n \<le> s_max_mint_amount st"
proof -
  note sum = fee_split_Ok(2) [OF split]
  have "l_supply L' k = l_supply L k + (if k = m_key m then n else 0) \<and>
      int (l_bal L' a) = int (l_bal L a) + part (a = rv) (bd_reserve_mint_amount fs) +
        part (a = mv) (bd_management_fee_mint_amount fs) +
        part (a = pv) (bd_performance_fee_mint_amount fs)"
  proof (cases "n > 0")
    case True
    then have me: "mint_each spl st m auth
             [(rv, bd_reserve_mint_amount fs), (mv, bd_management_fee_mint_amount fs),
              (pv, bd_performance_fee_mint_amount fs)] L = Ok L'"
      using mint by (auto simp: mint_accrual_def simp del: mint_each.simps)
    have "int (l_supply L' k) = int (l_supply L k + (if k = m_key m then n else 0))"
      using mint_each_effect(2) [OF laws me, of k] sum by (simp add: part_def)
    then show ?thesis using mint_each_effect(1) [OF laws me, of a] by simp
  next
    case False
    then show ?thesis using mint sum by (simp add: mint_accrual_def)
  qed
  then show "l_supply L' k = l_supply L k + (if k = m_key m then n else 0)"
    and "int (l_bal L' a) = int (l_bal L a) + part (a = rv) (bd_reserve_mint_amount fs) +
        part (a = mv) (bd_management_fee_mint_amount fs) +
        part (a = pv) (bd_performance_fee_mint_amount fs)" by blast+
  show "n > 0 \<Longrightarrow> s_max_supply st > 0 \<Longrightarrow> l_supply L (m_key m) + n \<le> s_max_supply st"
    and "n > 0 \<Longrightarrow> s_max_mint_amount st > 0 \<Longrightarrow> n \<le> s_max_mint_amount st"
    using mint fresh
    by (auto simp: mint_accrual_def validate_max_supply_Ok simp del: mint_each.simps)
qed

lemma accrue_buffer_effect:
  assumes laws: "spl_laws spl" and fresh: "m_supply m = l_supply L (m_key m)"
    and ok: "accrue_buffer spl st offer m rv mv pv auth prog now b L = Ok (r, b', L')"
  shows "accrual_effect st m (t_key rv) (t_key mv) (t_key pv) now b L r b' L'"
proof (cases "b_previous_supply b = 0")
  case True
  then show ?thesis using accrue_buffer_first ok fresh by blast
next
  case False
  then obtain v :: offer_vector and nav n fs where
    split: "calculate_buffer_fee_split n (saturating_sub (b_gross_apr b) (v_apr v))
        (b_management_fee_basis_points b) (b_performance_fee_basis_points b) nav
        (b_performance_fee_high_watermark b) (b_performance_fee_high_watermark_enabled b) = Ok fs"
    and mint: "mint_accrual spl st m auth (t_key rv) (t_key mv) (t_key pv) n fs L = Ok L'"
    and r: "ar_buffer_mint_amount r = bd_buffer_mint_amount fs"
      "ar_reserve_mint_amount r = bd_reserve_mint_amount fs"
      "ar_management_fee_mint_amount r = bd_management_fee_mint_amount fs"
      "ar_performance_fee_mint_amount r = bd_performance_fee_mint_amount fs"
      "ar_post_accrual_supply r = m_supply m + n"
      "ar_new_performance_fee_high_watermark r = bd_new_performance_fee_high_watermark fs"
    and b': "b' = set_buffer_baseline_after_supply_change (m_supply m + n) now
      (b\<lparr>b_performance_fee_high_watermark := bd_new_performance_fee_high_watermark fs\<rparr>)"
    and now: "b_last_accrual_timestamp b \<le> now"
    using ok unfolding accrue_buffer_def Let_def set_buffer_baseline_after_supply_change_def
    by (auto split del: if_split)
  note eff = accrue_buffer_later_mint [OF laws fresh split mint] and fs = fee_split_Ok [OF split]
  have sup: "l_supply L' (m_key m) = m_supply m + n" by (simp add: eff(1) fresh)
  show ?thesis
    unfolding accrual_effect_def
    using eff(3,4) now
    by (simp add: eff(1,2) fs r sup b' set_buffer_baseline_after_supply_change_def fresh)
qed

text \<open>
  C15: An accrual (\<open>accrue_buffer\<close>) on a freshly loaded mint raises the ONyc supply by exactly the
  amount it reports, all of it in the reserve, management and performance vaults in the reported
  parts, and no other supply or account changes. It stores the new supply and the time as the
  baseline of the next accrual, leaves the configuration alone, never runs backwards in time,
  and respects the supply cap and the per-mint cap where they are set.
\<close>

theorem accrual_mints_into_vaults_and_tracks_supply:
  assumes "spl_laws spl" and "m_supply m = l_supply L (m_key m)"
    and "accrue_buffer spl st offer m rv mv pv auth prog now b L = Ok (r, b', L')"
  shows "(\<forall>k. l_supply L' k = l_supply L k + (if k = m_key m then ar_buffer_mint_amount r else 0)) \<and>
    ar_reserve_mint_amount r + ar_management_fee_mint_amount r + ar_performance_fee_mint_amount r
      = ar_buffer_mint_amount r \<and>
    (\<forall>a. int (l_bal L' a) = int (l_bal L a) + part (a = t_key rv) (ar_reserve_mint_amount r) +
       part (a = t_key mv) (ar_management_fee_mint_amount r) +
       part (a = t_key pv) (ar_performance_fee_mint_amount r)) \<and>
    b_previous_supply b' = l_supply L' (m_key m) \<and> b_last_accrual_timestamp b' = now \<and>
    b_last_accrual_timestamp b \<le> now \<and> b_gross_apr b' = b_gross_apr b \<and>
    b_management_fee_basis_points b' = b_management_fee_basis_points b \<and>
    b_performance_fee_basis_points b' = b_performance_fee_basis_points b \<and>
    (ar_buffer_mint_amount r > 0 \<longrightarrow>
       (s_max_supply st > 0 \<longrightarrow> l_supply L' (m_key m) \<le> s_max_supply st) \<and>
       (s_max_mint_amount st > 0 \<longrightarrow> ar_buffer_mint_amount r \<le> s_max_mint_amount st))"
  using accrue_buffer_effect [OF assms] unfolding accrual_effect_def
  by (elim conjE, intro conjI) simp_all

definition sample_buffer :: buffer_state where
  "sample_buffer = zero_buffer_state\<lparr>b_onyc_mint := 22, b_gross_apr := 500000, b_previous_supply := 5000000,
     b_management_fee_basis_points := 100, b_performance_fee_basis_points := 1000,
     b_last_accrual_timestamp := 1000\<rparr>"

definition sample_token :: "pubkey \<Rightarrow> token_info" where
  "sample_token k = \<lparr>t_key = k, t_owner = 9, t_is_token = True\<rparr>"

lemma sample_accrual:
  "\<exists>r b' L'. accrue_buffer plain_token_program (zero_state\<lparr>s_onyc_mint := 22\<rparr>) sample_offer
     (sample_mint 22 (Some 104) 5000000) (sample_token 31) (sample_token 32) (sample_token 33) 104 9
     5000 sample_buffer \<lparr>l_bal = (\<lambda>_. 0), l_supply = (\<lambda>_. 5000000)\<rparr> = Ok (r, b', L') \<and>
     ar_buffer_mint_amount r = 255"
proof -
  have apr: "v_apr sample_vector = 97600" by (simp add: sample_vector_def)
  have b: "b_previous_supply sample_buffer = 5000000" "b_gross_apr sample_buffer = 500000"
    "b_last_accrual_timestamp sample_buffer = 1000" "b_management_fee_basis_points sample_buffer = 100"
    "b_performance_fee_basis_points sample_buffer = 1000"
    "\<not> b_performance_fee_high_watermark_enabled sample_buffer"
    by (simp_all add: sample_buffer_def zero_buffer_state_def)
  have n: "calculate_gross_buffer_accrual 5000000 500000 97600 4000 = Ok 255"
    by (simp add: calculate_gross_buffer_accrual_def calculate_accrual_from_apr_delta_def
        saturating_sub_def checked_mul_def checked_add_def checked_div_def as_u64_def const_defs int_defs
        cong: eval_congs)
  have "\<exists>fs. calculate_buffer_fee_split 255 (500000 - 97600) 100 1000 1000267397 hw False = Ok fs \<and>
      bd_buffer_mint_amount fs = 255 \<and> bd_reserve_mint_amount fs = 225 \<and>
      bd_management_fee_mint_amount fs = 6 \<and> bd_performance_fee_mint_amount fs = 24" for hw
    using fee_split_total(1) [of 255 100 1000 "500000 - 97600" 1000267397 hw False]
    by (simp add: const_defs int_defs)
  then obtain fs where fs: "calculate_buffer_fee_split 255 402400 100 1000 1000267397
        (b_performance_fee_high_watermark sample_buffer) False = Ok fs"
      "bd_buffer_mint_amount fs = 255" "bd_reserve_mint_amount fs = 225"
      "bd_management_fee_mint_amount fs = 6" "bd_performance_fee_mint_amount fs = 24"
    by (auto simp del: b)
  show ?thesis
    by (simp add: accrue_buffer_def sample_price i64_as_u64_def apr b n fs Let_def saturating_sub_def
        checked_sub_i64_def mint_accrual_def token_eval_simps sample_token_def sample_mint_def zero_state_def
        read_optional_token_account_amount_def int_defs cong: eval_congs)
qed

theorem accrual_mints_into_vaults_and_tracks_supply_witness:
  "\<exists>r b' L'. accrue_buffer plain_token_program (zero_state\<lparr>s_onyc_mint := 22\<rparr>) sample_offer
     (sample_mint 22 (Some 104) 5000000) (sample_token 31) (sample_token 32) (sample_token 33) 104 9
     5000 sample_buffer \<lparr>l_bal = (\<lambda>_. 0), l_supply = (\<lambda>_. 5000000)\<rparr> = Ok (r, b', L') \<and>
     l_supply L' 22 = 5000255 \<and> b_previous_supply b' = 5000255"
proof -
  let ?m = "sample_mint 22 (Some 104) 5000000" and ?L = "\<lparr>l_bal = (\<lambda>_. 0), l_supply = (\<lambda>_. 5000000)\<rparr>"
  obtain r b' L' where
    ok: "accrue_buffer plain_token_program (zero_state\<lparr>s_onyc_mint := 22\<rparr>) sample_offer ?m
      (sample_token 31) (sample_token 32) (sample_token 33) 104 9 5000 sample_buffer ?L = Ok (r, b', L')"
    and n: "ar_buffer_mint_amount r = 255"
    using sample_accrual by blast
  have "m_supply ?m = l_supply ?L (m_key ?m)" and key: "m_key ?m = 22"
    by (simp_all add: sample_mint_def)
  from accrual_mints_into_vaults_and_tracks_supply [OF plain_token_program_laws this(1) ok]
  have "l_supply L' 22 = 5000255" and "b_previous_supply b' = 5000255"
    by (simp_all add: key n)
  with ok show ?thesis by blast
qed

section \<open>Instructions: effect\<close>

lemma load_buffer_state_Ok:
  "load_buffer_state e ba = Ok b \<longleftrightarrow>
     a_owner (ba_buffer_state ba) = program_id e \<and> a_data (ba_buffer_state ba) = AccountData b"
  by (simp add: load_buffer_state_def)

lemma store_buffer_state_Ok:
  "store_buffer_state ba b = Ok ba' \<longleftrightarrow>
     a_data (ba_buffer_state ba) \<noteq> NoData \<and>
     ba' = ba\<lparr>ba_buffer_state := (ba_buffer_state ba)\<lparr>a_data := AccountData b\<rparr>\<rparr>"
  by (auto simp: store_buffer_state_def)

text \<open>One accrual from the accounts of an instruction: the BUFFER's state before and after it.\<close>

lemma accrue_buffer_from_accounts_effect:
  assumes laws: "spl_laws spl" and fresh: "m_supply m = l_supply L (m_key m)"
    and ok: "accrue_buffer_from_accounts e spl st ba offer m authority prog L = Ok (r, ba', L')"
  shows "\<exists>b b'. load_buffer_state e ba = Ok b \<and> load_buffer_state e ba' = Ok b' \<and>
    ar_timestamp r = unix_timestamp e \<and>
    accrual_effect st m (t_key (ba_reserve_vault_onyc_account ba))
      (t_key (ba_management_fee_vault_onyc_account ba)) (t_key (ba_performance_fee_vault_onyc_account ba))
      (unix_timestamp e) b L r b' L'"
proof -
  from ok obtain b b' where
    acc: "accrue_buffer spl st offer m (ba_reserve_vault_onyc_account ba)
         (ba_management_fee_vault_onyc_account ba) (ba_performance_fee_vault_onyc_account ba)
         authority prog (unix_timestamp e) b L = Ok (r, b', L')"
    and rest: "load_buffer_state e ba = Ok b" "store_buffer_state ba b' = Ok ba'"
    unfolding accrue_buffer_from_accounts_def by auto
  have "ar_timestamp r = unix_timestamp e"
    using acc unfolding accrue_buffer_def Let_def by (auto split: if_splits)
  then show ?thesis
    using rest accrue_buffer_effect [OF laws fresh acc]
    by (auto simp: load_buffer_state_Ok store_buffer_state_Ok)
qed

text \<open>The pool stored in a BUFFER world.\<close>

definition pool :: "buffer_world \<Rightarrow> buffer_state account_data" where
  "pool w = a_data (ba_buffer_state (w_buffer_accounts w))"

lemma accrue_and_refresh_effect:
  assumes laws: "spl_laws spl" and fresh: "m_supply m = l_supply (w_ledger w) (m_key m)"
    and ok: "accrue_and_refresh e spl st offer m auth prog eb w = Ok w'"
  obtains b r b' where "pool w = AccountData b" "b_onyc_mint b = m_key m" "pool w' = AccountData b'"
    "accrual_effect st m (t_key (ba_reserve_vault_onyc_account (w_buffer_accounts w)))
       (t_key (ba_management_fee_vault_onyc_account (w_buffer_accounts w)))
       (t_key (ba_performance_fee_vault_onyc_account (w_buffer_accounts w)))
       (unix_timestamp e) b (w_ledger w) r b' (w_ledger w')"
proof -
  from ok obtain b r b' ba' L' ms where
    b: "a_data (ba_buffer_state (w_buffer_accounts w)) = AccountData b"
    and mint: "b_onyc_mint b = m_key m"
    and acc: "accrue_buffer spl st offer m (ba_reserve_vault_onyc_account (w_buffer_accounts w))
         (ba_management_fee_vault_onyc_account (w_buffer_accounts w))
         (ba_performance_fee_vault_onyc_account (w_buffer_accounts w)) auth prog (unix_timestamp e) b
         (w_ledger w) = Ok (r, b', L')"
    and st: "store_buffer_state (w_buffer_accounts w) b' = Ok ba'"
    and w': "w' = \<lparr>w_ledger = L', w_buffer_accounts = ba', w_market_stats = ms\<rparr>"
    unfolding accrue_and_refresh_def accrue_buffer_from_accounts_def
      validate_buffer_onyc_vault_accounts_def Let_def
    by (auto simp: load_buffer_state_Ok)
  show ?thesis
    by (rule that [of b b' r])
      (use b mint accrue_buffer_effect [OF laws fresh acc] st w' in
        \<open>simp_all add: pool_def store_buffer_state_Ok\<close>)
qed

lemma reload_simps [simp]: "m_key (reload L m) = m_key m" "m_supply (reload L m) = l_supply L (m_key m)"
  by (simp_all add: reload_def)

lemma calculate_burn_amount_Ok:
  assumes "calculate_burn_amount c adj nav nav' = Ok n"
  shows "adj \<le> c * nav div 1000000000" and "0 < n" and "n \<le> c" and "n \<le> u64_max"
    and "(c * nav div 1000000000 - adj) * 1000000000 \<le> (c - n) * nav'"
    and "(c - n) * nav' < (c * nav div 1000000000 - adj) * 1000000000 + nav'"
proof -
  from assms obtain T S q where tvl: "calculate_tvl c nav = Ok T" and adj: "adj \<le> T"
    and S: "S = 10 ^ PRICE_DECIMALS" and q: "ceil_div_u128 ((T - adj) * S) nav' = Some q"
    and le: "q \<le> c" and pos: "0 < c - q" and fits: "c - q \<le> u64_max" and n: "n = as_u64 (c - q)"
    unfolding calculate_burn_amount_def Let_def by auto
  have T: "T = c * nav div 1000000000" using tvl unfolding calculate_tvl_Ok by (rule conjunct1 [OF conjunct2])
  have S: "S = 1000000000" by (simp add: S const_defs)
  have q: "0 < nav'" "q = ((T - adj) * S + (nav' - 1)) div nav'"
    using q by (auto simp: ceil_div_u128_eq_Some)
  have n: "n = c - q" using n fits by (simp add: as_u64_id)
  have cn: "c - n = q" using le by (simp add: n)
  show "adj \<le> c * nav div 1000000000" using adj by (simp only: T)
  show "0 < n" and "n \<le> c" and "n \<le> u64_max" using pos fits by (simp_all add: n)
  show "(c * nav div 1000000000 - adj) * 1000000000 \<le> (c - n) * nav'"
    and "(c - n) * nav' < (c * nav div 1000000000 - adj) * 1000000000 + nav'"
    unfolding cn T [symmetric] using ceil_div_bounds [OF q] by (simp_all only: S)
qed

lemma check_burn_accounts_Ok:
  assumes "check_burn_accounts e st boss m prog mo mv pv ba = Ok (b, offer)"
  shows "a_data (ba_buffer_state ba) = AccountData b" and "a_data mo = AccountData offer"
    and "boss = s_boss st" and "\<not> s_is_killed st"
  using assms unfolding check_burn_accounts_def Let_def by simp_all

lemma accrue_buffer_nav:
  assumes "accrue_buffer spl st offer m rv mv pv auth prog now b L = Ok (r, b', L')"
  shows "compute_offer_current_price offer (i64_as_u64 now) = Ok (ar_current_nav r)"
proof -
  have "\<exists>v. get_active_vector_and_current_price offer (i64_as_u64 now) = Ok (v, ar_current_nav r)"
    using assms unfolding accrue_buffer_def Let_def
    by (cases "b_previous_supply b = 0") auto
  then show ?thesis by (auto simp: compute_offer_current_price_def)
qed

lemma burn_for_nav_increase_Ok:
  assumes laws: "spl_laws spl" and fresh: "m_supply m = l_supply (w_ledger w) (m_key m)"
    and ok: "burn_for_nav_increase e spl st boss m prog mo mv pv eb adj w = Ok w'"
  obtains b r b' L nav excluded n offer where "pool w = AccountData b"
    "accrual_effect st m (t_key (ba_reserve_vault_onyc_account (w_buffer_accounts w)))
       (t_key (ba_management_fee_vault_onyc_account (w_buffer_accounts w)))
       (t_key (ba_performance_fee_vault_onyc_account (w_buffer_accounts w)))
       (unix_timestamp e) b (w_ledger w) r b' L"
    "load_circulating_supply_excluded_balance_amount e eb = Ok excluded"
    "a_data mo = AccountData offer" "compute_offer_current_price offer (i64_as_u64 (unix_timestamp e)) = Ok nav"
    "excluded \<le> l_supply L (m_key m)"
    "calculate_burn_amount (l_supply L (m_key m) - excluded) adj nav nav = Ok n"
    "burn_tokens spl m (t_key (ba_reserve_vault_onyc_account (w_buffer_accounts w)))
       (pda e [Seed ''reserve_vault_authority'']) n L = Ok (w_ledger w')"
    "pool w' = AccountData (b'\<lparr>b_previous_supply := l_supply L (m_key m) - n,
       b_last_accrual_timestamp := unix_timestamp e\<rparr>)"
    "boss = s_boss st" "\<not> s_is_killed st"
    "accrue_buffer spl st offer m (ba_reserve_vault_onyc_account (w_buffer_accounts w))
       (ba_management_fee_vault_onyc_account (w_buffer_accounts w))
       (ba_performance_fee_vault_onyc_account (w_buffer_accounts w)) (pda e [Seed ''mint_authority''])
       prog (unix_timestamp e) b (w_ledger w) = Ok (r, b', L)"
proof -
  let ?rv = "ba_reserve_vault_onyc_account (w_buffer_accounts w)"
  from ok obtain b r b' L L' nav excluded n ba' ms and offer :: offer where
    chk: "check_burn_accounts e st boss m prog mo mv pv (w_buffer_accounts w) = Ok (b, offer)"
    and acc: "accrue_buffer spl st offer m ?rv
         (ba_management_fee_vault_onyc_account (w_buffer_accounts w))
         (ba_performance_fee_vault_onyc_account (w_buffer_accounts w)) (pda e [Seed ''mint_authority''])
         prog (unix_timestamp e) b (w_ledger w) = Ok (r, b', L)"
    and c: "load_circulating_supply_excluded_balance_amount e eb = Ok excluded"
      "compute_offer_current_price offer (i64_as_u64 (unix_timestamp e)) = Ok nav"
      "excluded \<le> ar_post_accrual_supply r"
      "calculate_burn_amount (ar_post_accrual_supply r - excluded) adj (ar_current_nav r) nav = Ok n"
      "burn_tokens spl m (t_key ?rv) (pda e [Seed ''reserve_vault_authority'']) n L = Ok L'"
    and s: "store_buffer_state (w_buffer_accounts w) (set_buffer_baseline_after_supply_change
         (ar_post_accrual_supply r - n) (unix_timestamp e) b') = Ok ba'"
    and w': "w' = \<lparr>w_ledger = L', w_buffer_accounts = ba', w_market_stats = ms\<rparr>"
    unfolding burn_for_nav_increase_def Let_def
    by (clarsimp simp: calculate_circulating_supply_def)
  note eff = accrue_buffer_effect [OF laws fresh acc]
  have post: "ar_post_accrual_supply r = l_supply L (m_key m)" using eff by (simp add: accrual_effect_def)
  have nav: "ar_current_nav r = nav" using accrue_buffer_nav [OF acc] c(2) by simp
  show ?thesis
    by (rule that [of b r b' L excluded offer nav n])
      (use check_burn_accounts_Ok [OF chk] eff acc c s w' in \<open>simp_all add: pool_def store_buffer_state_Ok post nav
         set_buffer_baseline_after_supply_change_def\<close>)
qed

text \<open>
  C31: A completed \<open>burn_for_nav_increase\<close> first accrues the stored pool and then preserves the
  quoted price: with the ledger \<open>L\<close> that \<open>accrue_buffer\<close> leaves, the circulating supply after the
  burn is at the price worth at least the assets left after the adjustment, while one token less
  would not be, so the burn is the largest that keeps the price. The burned amount leaves the
  reserve vault and the supply, every other balance and supply is as the accrual left it. The
  stored pool is the accrued one with the supply after the burn and the current time as baseline,
  and only the boss can do it, while the program is not halted.
\<close>

theorem nav_burn_is_largest_that_keeps_price:
  assumes laws: "spl_laws spl" and fresh: "m_supply m = l_supply (w_ledger w) (m_key m)"
    and ok: "burn_for_nav_increase e spl st boss m prog mo mv pv eb adj w = Ok w'"
  defines "ba \<equiv> w_buffer_accounts w" and "onyc \<equiv> m_key m"
  shows "\<exists>b r b' L burned offer nav excluded.
    pool w = AccountData b \<and> a_data mo = AccountData offer \<and>
    accrue_buffer spl st offer m (ba_reserve_vault_onyc_account ba) (ba_management_fee_vault_onyc_account ba)
      (ba_performance_fee_vault_onyc_account ba) (pda e [Seed ''mint_authority'']) prog (unix_timestamp e) b
      (w_ledger w) = Ok (r, b', L) \<and>
    l_supply L onyc = l_supply (w_ledger w) onyc + ar_buffer_mint_amount r \<and>
    compute_offer_current_price offer (i64_as_u64 (unix_timestamp e)) = Ok nav \<and>
    load_circulating_supply_excluded_balance_amount e eb = Ok excluded \<and> 0 < burned \<and>
    (let before = l_supply L onyc - excluded; after = l_supply (w_ledger w') onyc - excluded;
         assets_left = before * nav div 1000000000 - adj
     in adj \<le> before * nav div 1000000000 \<and> excluded \<le> l_supply (w_ledger w') onyc \<and>
        assets_left * 1000000000 \<le> after * nav \<and> after * nav < assets_left * 1000000000 + nav) \<and>
    (\<forall>x. l_supply (w_ledger w') x + (if x = onyc then burned else 0) = l_supply L x) \<and>
    (\<forall>x. l_bal (w_ledger w') x + (if x = t_key (ba_reserve_vault_onyc_account ba) then burned else 0) =
       l_bal L x) \<and>
    pool w' = AccountData (b'\<lparr>b_previous_supply := l_supply (w_ledger w') onyc,
       b_last_accrual_timestamp := unix_timestamp e\<rparr>) \<and>
    boss = s_boss st \<and> \<not> s_is_killed st"
proof -
  let ?rv = "ba_reserve_vault_onyc_account ba"
  from laws fresh ok obtain b r b' L nav excluded n and offer :: offer where
    b: "pool w = AccountData b"
    and eff: "accrual_effect st m (t_key ?rv) (t_key (ba_management_fee_vault_onyc_account ba))
       (t_key (ba_performance_fee_vault_onyc_account ba)) (unix_timestamp e) b (w_ledger w) r b' L"
    and x: "load_circulating_supply_excluded_balance_amount e eb = Ok excluded"
    and offer: "a_data mo = AccountData offer"
      "compute_offer_current_price offer (i64_as_u64 (unix_timestamp e)) = Ok nav"
    and le: "excluded \<le> l_supply L (m_key m)"
    and burn: "calculate_burn_amount (l_supply L (m_key m) - excluded) adj nav nav = Ok n"
    and tok: "burn_tokens spl m (t_key ?rv) (pda e [Seed ''reserve_vault_authority'']) n L = Ok (w_ledger w')"
    and pool: "pool w' = AccountData (b'\<lparr>b_previous_supply := l_supply L (m_key m) - n,
       b_last_accrual_timestamp := unix_timestamp e\<rparr>)"
    and who: "boss = s_boss st" "\<not> s_is_killed st"
    and acc: "accrue_buffer spl st offer m ?rv (ba_management_fee_vault_onyc_account ba)
      (ba_performance_fee_vault_onyc_account ba) (pda e [Seed ''mint_authority'']) prog (unix_timestamp e) b
      (w_ledger w) = Ok (r, b', L)"
    unfolding ba_def by (rule burn_for_nav_increase_Ok)
  note amount = calculate_burn_amount_Ok [OF burn]
  have supL: "l_supply L onyc = l_supply (w_ledger w) onyc + ar_buffer_mint_amount r"
    using eff by (simp add: accrual_effect_def onyc_def)
  have sup': "l_supply (w_ledger w') onyc = l_supply L onyc - n"
    and sup: "\<forall>x. l_supply (w_ledger w') x + (if x = onyc then n else 0) = l_supply L x"
    and bal: "\<forall>x. l_bal (w_ledger w') x + (if x = t_key ?rv then n else 0) = l_bal L x"
    using burn_tokens_Ok [OF laws tok] by (simp_all add: onyc_def debit_def)
  have after: "l_supply (w_ledger w') onyc - excluded = l_supply L onyc - excluded - n"
    by (simp add: sup' add.commute)
  have room: "excluded \<le> l_supply (w_ledger w') onyc"
    using amount(3) le sup' unfolding onyc_def by linarith
  have price: "let before = l_supply L onyc - excluded; after = l_supply (w_ledger w') onyc - excluded;
         assets_left = before * nav div 1000000000 - adj
     in adj \<le> before * nav div 1000000000 \<and> excluded \<le> l_supply (w_ledger w') onyc \<and>
        assets_left * 1000000000 \<le> after * nav \<and> after * nav < assets_left * 1000000000 + nav"
    unfolding Let_def after using amount(1,5,6) room by (simp add: onyc_def)
  from b offer acc supL x amount(2) price sup bal pool [folded onyc_def, folded sup'] who
  show ?thesis by blast
qed

section \<open>Runs of BUFFER instructions\<close>

datatype buffer_op =
    Settle env state pubkey pubkey "offer account" "circulating_supply_excluded_balance account"
  | SetGrossApr env state pubkey pubkey "offer account" "circulating_supply_excluded_balance account" u64
  | SetFeeConfig env state pubkey pubkey "offer account" "circulating_supply_excluded_balance account"
      u16 u16 bool
  | BurnForNav env state pubkey pubkey "offer account" configurable_vault configurable_vault
      "circulating_supply_excluded_balance account" u64

text \<open>Every instruction loads the ONyc mint \<open>m\<close> with its current supply.\<close>

fun exec_buffer :: "spl_token \<Rightarrow> mint \<Rightarrow> buffer_op \<Rightarrow> buffer_world \<Rightarrow> buffer_world result" where
  "exec_buffer spl m (Settle e st worker prog mo eb) w =
     settle_buffer e spl st worker (reload (w_ledger w) m) prog mo eb w"
| "exec_buffer spl m (SetGrossApr e st boss prog mo eb apr) w =
     set_buffer_gross_apr e spl st boss (reload (w_ledger w) m) prog mo eb apr w"
| "exec_buffer spl m (SetFeeConfig e st boss prog mo eb mf pf en) w =
     set_buffer_fee_config e spl st boss (reload (w_ledger w) m) prog mo eb mf pf en w"
| "exec_buffer spl m (BurnForNav e st boss prog mo mv pv eb adj) w =
     burn_for_nav_increase e spl st boss (reload (w_ledger w) m) prog mo mv pv eb adj w"

definition config_ok :: "buffer_state \<Rightarrow> bool" where
  "config_ok b \<longleftrightarrow> b_gross_apr b \<le> MAX_BUFFER_GROSS_APR \<and>
     b_management_fee_basis_points b \<le> MAX_BASIS_POINTS \<and>
     b_performance_fee_basis_points b \<le> MAX_BASIS_POINTS"

definition buffer_wf :: "mint \<Rightarrow> buffer_world \<Rightarrow> bool" where
  "buffer_wf m w \<longleftrightarrow> (\<exists>b. pool w = AccountData b \<and> config_ok b \<and>
     (b_previous_supply b = 0 \<or> b_previous_supply b = l_supply (w_ledger w) (m_key m)))"

lemma accrual_effect_config:
  "accrual_effect st m rv mv pv now b L r b' L' \<Longrightarrow>
     b_gross_apr b' = b_gross_apr b \<and>
     b_management_fee_basis_points b' = b_management_fee_basis_points b \<and>
     b_performance_fee_basis_points b' = b_performance_fee_basis_points b \<and>
     b_previous_supply b' = l_supply L' (m_key m)"
  by (simp add: accrual_effect_def)

lemma accrue_and_refresh_pool:
  assumes "spl_laws spl" and "m_supply m = l_supply (w_ledger w) (m_key m)"
    and "accrue_and_refresh e spl st offer m auth prog eb w = Ok w'"
  obtains b b' where "pool w = AccountData b" "pool w' = AccountData b'" "config_ok b' = config_ok b"
    "b_previous_supply b' = l_supply (w_ledger w') (m_key m)"
proof -
  from assms obtain b r b' where *: "pool w = AccountData b" "pool w' = AccountData b'"
    and eff: "accrual_effect st m (t_key (ba_reserve_vault_onyc_account (w_buffer_accounts w)))
       (t_key (ba_management_fee_vault_onyc_account (w_buffer_accounts w)))
       (t_key (ba_performance_fee_vault_onyc_account (w_buffer_accounts w)))
       (unix_timestamp e) b (w_ledger w) r b' (w_ledger w')"
    by (rule accrue_and_refresh_effect)
  show ?thesis
    by (rule that [OF *]) (use accrual_effect_config [OF eff] in \<open>simp_all add: config_ok_def\<close>)
qed

text \<open>Every BUFFER instruction that succeeds leaves the actual supply as the baseline.\<close>

lemma exec_buffer_pool:
  assumes laws: "spl_laws spl" and ok: "exec_buffer spl m c w = Ok w'"
  shows "\<exists>b b'. pool w = AccountData b \<and> pool w' = AccountData b' \<and> (config_ok b \<longrightarrow> config_ok b') \<and>
    b_previous_supply b' = l_supply (w_ledger w') (m_key m)"
proof -
  let ?m = "reload (w_ledger w) m"
  have fresh: "m_supply ?m = l_supply (w_ledger w) (m_key ?m)" by simp
  note step = accrue_and_refresh_pool [OF laws fresh, simplified]
  show ?thesis
  proof (cases c)
    case (Settle e st worker prog mo eb)
    then obtain offer where "accrue_and_refresh e spl st offer ?m (pda e [Seed ''mint_authority'']) prog eb w = Ok w'"
      using ok unfolding settle_buffer_def by (clarsimp simp: settle_buffer_def)
    then show ?thesis by (rule step) simp
  next
    case (SetGrossApr e st boss prog mo eb apr)
    then obtain offer w1 b ba where
      acc: "accrue_and_refresh e spl st offer ?m (pda e [Seed ''mint_authority'']) prog eb w = Ok w1"
      and ld: "load_buffer_state e (w_buffer_accounts w1) = Ok b"
      and str: "store_buffer_state (w_buffer_accounts w1) (b\<lparr>b_gross_apr := apr\<rparr>) = Ok ba"
      and w': "w' = w1\<lparr>w_buffer_accounts := ba\<rparr>" and apr: "apr \<le> MAX_BUFFER_GROSS_APR"
      using ok by (clarsimp simp: set_buffer_gross_apr_def)
    from acc show ?thesis
      by (rule step) (use ld str apr w' in
        \<open>auto simp: pool_def load_buffer_state_Ok store_buffer_state_Ok config_ok_def\<close>)
  next
    case (SetFeeConfig e st boss prog mo eb mf pf en)
    then obtain offer w1 b ba where
      acc: "accrue_and_refresh e spl st offer ?m (pda e [Seed ''mint_authority'']) prog eb w = Ok w1"
      and ld: "load_buffer_state e (w_buffer_accounts w1) = Ok b"
      and str: "store_buffer_state (w_buffer_accounts w1) (b\<lparr>b_management_fee_basis_points := mf,
          b_performance_fee_basis_points := pf, b_performance_fee_high_watermark_enabled := en\<rparr>) = Ok ba"
      and w': "w' = w1\<lparr>w_buffer_accounts := ba\<rparr>" and fees: "mf \<le> MAX_BASIS_POINTS" "pf \<le> MAX_BASIS_POINTS"
      using ok by (clarsimp simp: set_buffer_fee_config_def)
    from acc show ?thesis
      by (rule step) (use ld str fees w' in
        \<open>auto simp: pool_def load_buffer_state_Ok store_buffer_state_Ok config_ok_def\<close>)
  next
    case (BurnForNav e st boss prog mo mv pv eb adj)
    then have burn: "burn_for_nav_increase e spl st boss ?m prog mo mv pv eb adj w = Ok w'" using ok by simp
    from laws fresh burn obtain b r b' L n where b: "pool w = AccountData b"
      and eff: "accrual_effect st ?m (t_key (ba_reserve_vault_onyc_account (w_buffer_accounts w)))
       (t_key (ba_management_fee_vault_onyc_account (w_buffer_accounts w)))
       (t_key (ba_performance_fee_vault_onyc_account (w_buffer_accounts w)))
       (unix_timestamp e) b (w_ledger w) r b' L"
      and tok: "burn_tokens spl ?m (t_key (ba_reserve_vault_onyc_account (w_buffer_accounts w)))
       (pda e [Seed ''reserve_vault_authority'']) n L = Ok (w_ledger w')"
      and b': "pool w' = AccountData (b'\<lparr>b_previous_supply := l_supply L (m_key ?m) - n,
       b_last_accrual_timestamp := unix_timestamp e\<rparr>)"
      by (rule burn_for_nav_increase_Ok)
    have "l_supply (w_ledger w') (m_key m) = l_supply L (m_key m) - n"
      using burn_tokens_Ok [OF laws tok] by simp
    then show ?thesis
      using b b' accrual_effect_config [OF eff] by (auto simp: config_ok_def)
  qed
qed

lemma exec_buffer_wf:
  assumes "spl_laws spl" and "buffer_wf m w" and "exec_buffer spl m c w = Ok w'"
  shows "buffer_wf m w'"
  using exec_buffer_pool [OF assms(1,3)] assms(2) by (auto simp: buffer_wf_def)

interpretation buf: invariant_machine "exec_buffer spl m" "\<lambda>w. spl_laws spl \<and> buffer_wf m w" for spl m
  by unfold_locales (use exec_buffer_wf in blast)

text \<open>
  In every sequence of BUFFER instructions (settlements, rate and fee changes and burns, by
  whomever and whenever, failing ones included) on a well-formed pool, the pool stays
  well-formed: the gross rate is at most 100%, both fees are at most 100%, and the baseline
  supply of the next accrual is the actual ONyc supply once it has been set.
\<close>

theorem buffer_runs_keep_baseline_and_limits:
  assumes "spl_laws spl" and "buffer_wf m w"
  shows "buffer_wf m (run_ops (exec_buffer spl m) ops w)"
  using buf.run_inv [of spl m w ops] assms by blast

definition sample_world :: buffer_world where
  "sample_world = \<lparr>w_ledger = \<lparr>l_bal = (\<lambda>a. if a = 2082 then 1000 else 0), l_supply = (\<lambda>_. 5000)\<rparr>,
     w_buffer_accounts = \<lparr>
       ba_buffer_state = \<lparr>a_key = 103, a_owner = 50, a_writable = True,
         a_data = AccountData (sample_buffer\<lparr>b_previous_supply := 0\<rparr>)\<rparr>,
       ba_reserve_vault_onyc_account = sample_token 2082,
       ba_management_fee_vault_onyc_account = sample_token 3012,
       ba_performance_fee_vault_onyc_account = sample_token 3012\<rparr>,
     w_market_stats = absent_account 101\<rparr>"

definition sample_main_offer :: "offer account" where
  "sample_main_offer = \<lparr>a_key = 60, a_owner = 50, a_writable = False, a_data = AccountData sample_offer\<rparr>"

definition sample_config :: state where
  "sample_config = zero_state\<lparr>s_boss := 7, s_worker := 8, s_onyc_mint := 22, s_main_offer := 60\<rparr>"

lemma sample_vault_pda [simp]: "sample_pda (vault_seeds kind) = (199, 255)"
  by (cases kind) (simp_all add: vault_seeds_def sample_pda_def)

theorem buffer_runs_keep_baseline_and_limits_witness:
  "buffer_wf sample_onyc (run_ops (exec_buffer plain_token_program sample_onyc)
     [Settle sample_env sample_config 8 9 sample_main_offer (absent_account 102),
      BurnForNav sample_env sample_config 7 9 sample_main_offer (vault_init_value ManagementFee 255)
        (vault_init_value PerformanceFee 255) (absent_account 102) 500] sample_world)"
proof (rule buffer_runs_keep_baseline_and_limits)
  show "spl_laws plain_token_program" by (rule plain_token_program_laws)
  show "buffer_wf sample_onyc sample_world"
    by (simp add: buffer_wf_def pool_def sample_world_def config_ok_def sample_buffer_def
        zero_buffer_state_def const_defs)
qed

lemma sample_burn_ok:
  "\<exists>w'. burn_for_nav_increase sample_env plain_token_program sample_config 7 sample_onyc 9
     sample_main_offer (vault_init_value ManagementFee 255) (vault_init_value PerformanceFee 255)
     (absent_account 102) 500 sample_world = Ok w'"
proof -
  let ?b = "sample_buffer\<lparr>b_previous_supply := 0\<rparr>" and ?w = sample_world
  let ?ba = "w_buffer_accounts ?w"
  have chk: "check_burn_accounts sample_env sample_config 7 sample_onyc 9 sample_main_offer
      (vault_init_value ManagementFee 255) (vault_init_value PerformanceFee 255) ?ba = Ok (?b, sample_offer)"
    by (simp add: check_burn_accounts_def sample_config_def sample_onyc_def sample_mint_def
        sample_world_def load_pda_account_def deserialize_pda_account_def sample_main_offer_def
        vault_init_value_def sample_token_def zero_state_def)
  have price: "compute_offer_current_price sample_offer 5000 = Ok 1000267397"
    by (simp add: compute_offer_current_price_def sample_price)
  have b: "b_last_accrual_timestamp sample_buffer = 1000"
    by (simp add: sample_buffer_def)
  obtain r b' where acc: "accrue_buffer plain_token_program sample_config sample_offer sample_onyc
      (ba_reserve_vault_onyc_account ?ba) (ba_management_fee_vault_onyc_account ?ba)
      (ba_performance_fee_vault_onyc_account ?ba) 104 9 5000 ?b (w_ledger ?w) = Ok (r, b', w_ledger ?w)"
    and r: "ar_post_accrual_supply r = 5000" "ar_reserve_vault_balance_after_accrual r = 1000"
      "ar_current_nav r = 1000267397"
    by (simp add: accrue_buffer_def b sample_price i64_as_u64_def checked_sub_i64_def int_defs
        sample_onyc_def sample_mint_def set_buffer_baseline_after_supply_change_def
        read_optional_token_account_amount_def sample_world_def sample_token_def)
  have burn: "calculate_burn_amount 5000 500 1000267397 1000267397 = Ok 500"
    by (simp add: calculate_burn_amount_def calculate_tvl_def ceil_div_u128_def checked_mul_def checked_div_def
        checked_add_def checked_sub_def checked_pow_def try_from_u64_def as_u64_def const_defs int_defs
        cong: eval_congs)
  let ?L = "(w_ledger ?w)\<lparr>l_bal := debit 2082 500 (l_bal (w_ledger ?w)),
    l_supply := debit 22 500 (l_supply (w_ledger ?w))\<rparr>"
  have m: "m_key sample_onyc = 22" "reload ?L sample_onyc = sample_mint 22 (Some 104) 4500"
    by (simp_all add: sample_onyc_def sample_mint_def reload_def sample_world_def debit_def)
  have tok: "burn_tokens plain_token_program sample_onyc 2082 106 500 (w_ledger ?w) = Ok ?L"
    by (simp add: burn_tokens_def plain_token_program_def sample_world_def m)
  have rv: "t_key (ba_reserve_vault_onyc_account ?ba) = 2082" "w_market_stats ?w = absent_account 101"
    and mo: "a_key sample_main_offer = s_main_offer sample_config" "o_token_out_mint sample_offer = 22"
    by (simp_all add: sample_world_def sample_token_def sample_main_offer_def sample_config_def sample_offer_def)
  have st: "\<exists>ba'. store_buffer_state ?ba x = Ok ba'" for x
    by (simp add: store_buffer_state_Ok) (simp add: sample_world_def)
  obtain ms where ms: "refresh_market_stats_pda sample_env sample_offer (reload ?L sample_onyc)
      (absent_account 102) (absent_account 101) = Ok ms"
    using sample_refresh_ok [of 4500] unfolding m by (auto simp: is_ok_iff)
  have tvl: "calculate_tvl 5000 1000267397 = Ok 5001" by (simp add: calculate_tvl_Ok int_defs)
  from st obtain ba' where ba': "store_buffer_state ?ba
      (set_buffer_baseline_after_supply_change 4500 5000 b') = Ok ba'" by blast
  show ?thesis
    unfolding burn_for_nav_increase_def Let_def
    by (simp add: chk price acc r sample_excluded burn tok rv mo m(1) i64_as_u64_def ba' ms tvl
        calculate_circulating_supply_def checked_sub_def cong: eval_congs)
qed

theorem nav_burn_is_largest_that_keeps_price_witness:
  "\<exists>w' r b' L burned.
     burn_for_nav_increase sample_env plain_token_program sample_config 7 sample_onyc 9
       sample_main_offer (vault_init_value ManagementFee 255) (vault_init_value PerformanceFee 255)
       (absent_account 102) 500 sample_world = Ok w' \<and>
     accrue_buffer plain_token_program sample_config sample_offer sample_onyc (sample_token 2082)
       (sample_token 3012) (sample_token 3012) 104 9 5000 (sample_buffer\<lparr>b_previous_supply := 0\<rparr>)
       (w_ledger sample_world) = Ok (r, b', L) \<and>
     0 < burned \<and> l_supply (w_ledger w') 22 + burned = 5000 + ar_buffer_mint_amount r \<and>
     l_bal (w_ledger w') 2082 + burned = l_bal L 2082"
proof -
  obtain w' where ok: "burn_for_nav_increase sample_env plain_token_program sample_config 7 sample_onyc 9
     sample_main_offer (vault_init_value ManagementFee 255) (vault_init_value PerformanceFee 255)
     (absent_account 102) 500 sample_world = Ok w'"
    using sample_burn_ok by blast
  have fresh: "m_supply sample_onyc = l_supply (w_ledger sample_world) (m_key sample_onyc)"
    and key: "m_key sample_onyc = 22" and sup: "l_supply (w_ledger sample_world) 22 = 5000"
    and pool: "pool sample_world = AccountData (sample_buffer\<lparr>b_previous_supply := 0\<rparr>)"
    and mo: "a_data sample_main_offer = AccountData sample_offer"
    and ba: "ba_reserve_vault_onyc_account (w_buffer_accounts sample_world) = sample_token 2082"
      "ba_management_fee_vault_onyc_account (w_buffer_accounts sample_world) = sample_token 3012"
      "ba_performance_fee_vault_onyc_account (w_buffer_accounts sample_world) = sample_token 3012"
    and tk: "t_key (sample_token 2082) = 2082" 
    and ev: "unix_timestamp sample_env = 5000" "pda sample_env [Seed ''mint_authority''] = 104"
    by (simp_all add: sample_onyc_def sample_mint_def sample_world_def pool_def sample_main_offer_def
        sample_token_def)
  obtain r b' L burned where
    acc: "accrue_buffer plain_token_program sample_config sample_offer sample_onyc (sample_token 2082)
       (sample_token 3012) (sample_token 3012) 104 9 5000 (sample_buffer\<lparr>b_previous_supply := 0\<rparr>)
       (w_ledger sample_world) = Ok (r, b', L)"
    and "l_supply L 22 = 5000 + ar_buffer_mint_amount r" "0 < burned"
      "\<forall>x. l_supply (w_ledger w') x + (if x = 22 then burned else 0) = l_supply L x"
      "\<forall>x. l_bal (w_ledger w') x + (if x = 2082 then burned else 0) = l_bal L x"
    using nav_burn_is_largest_that_keeps_price [OF plain_token_program_laws fresh ok]
    unfolding key sup pool mo ba ev tk by auto
  moreover from this(4,5) have "l_supply (w_ledger w') 22 + burned = l_supply L 22"
    "l_bal (w_ledger w') 2082 + burned = l_bal L 2082" by (metis (full_types))+
  ultimately show ?thesis using ok by metis
qed

end
