(* ===== verification/Redemption.thy ===== *)
theory Redemption
  imports Offer_Admin Buffer
begin

text \<open>
  Redemptions (\<open>redemption/\<close>): the redemption offer and its configuration, the queue of
  requests, and the three instructions on it: creating a request locks tokens in the vault,
  cancelling returns what is left, fulfilling burns or forwards the tokens, pays out at the
  current price and updates the counters.

  A request lives at the address derived from its offer and its number, so the requests of an
  offer are a map from numbers; \<open>None\<close> is a closed or never opened account.
\<close>

section \<open>State\<close>

record redemption_offer =
  ro_offer :: pubkey
  ro_token_in_mint :: pubkey
  ro_token_out_mint :: pubkey
  ro_executed_redemptions :: u128
  ro_requested_redemptions :: u128
  ro_fee_basis_points :: u16
  ro_request_counter :: u64
  ro_bump :: u8
  ro_vault_target_bps :: u16
  ro_disabled :: u8
  ro_fee_basis_points_prop_amm_sell :: u16

record redemption_request =
  rr_offer :: pubkey
  rr_request_id :: u64
  rr_redeemer :: pubkey
  rr_amount :: u64
  rr_bump :: u8
  rr_fulfilled_amount :: u64

definition ro_is_disabled :: "redemption_offer \<Rightarrow> bool" where
  "ro_is_disabled ro \<longleftrightarrow> ro_disabled ro \<noteq> 0"

definition ro_set_disabled :: "bool \<Rightarrow> redemption_offer \<Rightarrow> redemption_offer" where
  "ro_set_disabled b ro = ro\<lparr>ro_disabled := (if b then 1 else 0)\<rparr>"

definition ro_require_enabled :: "redemption_offer \<Rightarrow> unit result" where
  "ro_require_enabled ro = require (\<not> ro_is_disabled ro) RedemptionOfferDisabled (Ok ())"

definition redemption_offer_seeds :: "pubkey \<Rightarrow> pubkey \<Rightarrow> seed list" where
  "redemption_offer_seeds token_in_mint token_out_mint =
     [Seed ''redemption_offer'', KeySeed token_in_mint, KeySeed token_out_mint]"

definition load_optional_checked_redemption_offer ::
  "env \<Rightarrow> redemption_offer account \<Rightarrow> pubkey \<Rightarrow> pubkey \<Rightarrow> pubkey \<Rightarrow> redemption_offer option result" where
  "load_optional_checked_redemption_offer e account offer_key token_in_mint token_out_mint =
     require (a_key account = pda e (redemption_offer_seeds token_in_mint token_out_mint))
       InvalidRedemptionOffer (
     and_then (load_optional_pda_account e account (program_id e) InvalidRedemptionOfferOwner
         InvalidRedemptionOfferData) (\<lambda>loaded.
     case loaded of
       None \<Rightarrow> Ok None
     | Some ro \<Rightarrow>
         require (ro_offer ro = offer_key) InvalidRedemptionOffer (
         require (ro_token_in_mint ro = token_in_mint) InvalidRedemptionOffer (
         require (ro_token_out_mint ro = token_out_mint) InvalidRedemptionOffer (
         Ok (Some ro))))))"

section \<open>Configuration\<close>

text \<open>\<open>existing\<close> is the account at the redemption offer's address; \<open>init\<close> rejects an existing one.\<close>

definition make_redemption_offer ::
  "env \<Rightarrow> state \<Rightarrow> pubkey \<Rightarrow> mint \<Rightarrow> pubkey \<Rightarrow> mint \<Rightarrow> u16 \<Rightarrow> u16 \<Rightarrow> redemption_offer option \<Rightarrow>
     redemption_offer result" where
  "make_redemption_offer e st boss token_in_mint token_in_program token_out_mint fee_basis_points
     fee_basis_points_prop_amm_sell existing =
     require (boss = s_boss st) AnchorConstraint (
     require (m_key token_in_mint = s_onyc_mint st) InvalidOnycMint (
     require (m_owner token_in_mint = spl_token_id e) InvalidTokenProgram (
     require (token_in_program = spl_token_id e) InvalidTokenProgram (
     require (existing = None) AnchorConstraint (
     require (fee_basis_points \<le> MAX_ALLOWED_FEE_BPS) InvalidFee (
     require (fee_basis_points_prop_amm_sell \<le> MAX_ALLOWED_FEE_BPS) InvalidFee (
     Ok \<lparr>ro_offer = pda e [Seed ''offer'', KeySeed (m_key token_out_mint), KeySeed (m_key token_in_mint)],
         ro_token_in_mint = m_key token_in_mint, ro_token_out_mint = m_key token_out_mint,
         ro_executed_redemptions = 0, ro_requested_redemptions = 0,
         ro_fee_basis_points = fee_basis_points, ro_request_counter = 0,
         ro_bump = snd (find_program_address e
           (redemption_offer_seeds (m_key token_in_mint) (m_key token_out_mint))),
         ro_vault_target_bps = 0, ro_disabled = 0,
         ro_fee_basis_points_prop_amm_sell = fee_basis_points_prop_amm_sell\<rparr>)))))))"

definition update_redemption_offer_fee ::
  "state \<Rightarrow> pubkey \<Rightarrow> u16 \<Rightarrow> redemption_offer \<Rightarrow> redemption_offer result" where
  "update_redemption_offer_fee st boss new_fee_basis_points ro =
     require (boss = s_boss st) Unauthorized (
     require (new_fee_basis_points \<le> MAX_ALLOWED_FEE_BPS) InvalidFee (
     require (new_fee_basis_points \<noteq> ro_fee_basis_points ro) NoChange (
     Ok (ro\<lparr>ro_fee_basis_points := new_fee_basis_points\<rparr>))))"

definition update_redemption_offer_prop_amm_sell_fee ::
  "state \<Rightarrow> pubkey \<Rightarrow> u16 \<Rightarrow> redemption_offer \<Rightarrow> redemption_offer result" where
  "update_redemption_offer_prop_amm_sell_fee st boss new_fee ro =
     require (boss = s_boss st) Unauthorized (
     require (new_fee \<le> MAX_ALLOWED_FEE_BPS) InvalidFee (
     require (new_fee \<noteq> ro_fee_basis_points_prop_amm_sell ro) NoChange (
     Ok (ro\<lparr>ro_fee_basis_points_prop_amm_sell := new_fee\<rparr>))))"

definition update_redemption_offer_vault_target ::
  "state \<Rightarrow> pubkey \<Rightarrow> u16 \<Rightarrow> redemption_offer \<Rightarrow> redemption_offer result" where
  "update_redemption_offer_vault_target st boss new_vault_target_bps ro =
     require (boss = s_boss st) Unauthorized (
     require (new_vault_target_bps \<le> MAX_BASIS_POINTS) InvalidAmount (
     require (new_vault_target_bps \<noteq> ro_vault_target_bps ro) NoChange (
     Ok (ro\<lparr>ro_vault_target_bps := new_vault_target_bps\<rparr>))))"

definition set_redemption_offer_disabled ::
  "state \<Rightarrow> pubkey \<Rightarrow> bool \<Rightarrow> redemption_offer \<Rightarrow> redemption_offer result" where
  "set_redemption_offer_disabled st signer disabled ro =
     and_then (authorize_targeted_disable st signer disabled) (\<lambda>_.
     Ok (ro_set_disabled disabled ro))"

section \<open>Processing\<close>

record redemption_process_result =
  rp_price :: u64
  rp_token_in_net_amount :: u64
  rp_token_in_fee_amount :: u64
  rp_token_out_amount :: u64

text \<open>The fee with its minimum, the first half of \<open>process_redemption_core\<close>.\<close>

definition redemption_fees :: "u64 \<Rightarrow> u16 \<Rightarrow> u64 \<Rightarrow> calculate_fee_result result" where
  "redemption_fees token_in_amount fee_basis_points minimum_fee =
     and_then (calculate_fees token_in_amount fee_basis_points) (\<lambda>fee_amounts.
     if minimum_fee > fr_token_in_fee_amount fee_amounts then
       require (token_in_amount \<ge> minimum_fee) InvalidAmount (
       and_then (ok_or (checked_sub token_in_amount minimum_fee) MathOverflow) (\<lambda>net.
       Ok \<lparr>fr_token_in_fee_amount = minimum_fee, fr_token_in_net_amount = net\<rparr>))
     else Ok fee_amounts)"

text \<open>\<open>10_u128.pow\<close> is unchecked: it panics from 39 decimals on.\<close>

definition process_redemption_core ::
  "env \<Rightarrow> offer \<Rightarrow> u64 \<Rightarrow> mint \<Rightarrow> mint \<Rightarrow> u16 \<Rightarrow> u64 \<Rightarrow> redemption_process_result result" where
  "process_redemption_core e offer token_in_amount token_in_mint token_out_mint
     redemption_fee_basis_points minimum_token_in_fee_amount =
     and_then (compute_offer_current_price offer (i64_as_u64 (unix_timestamp e))) (\<lambda>current_price.
     and_then (redemption_fees token_in_amount redemption_fee_basis_points
         minimum_token_in_fee_amount) (\<lambda>fee_amounts.
     and_then (ok_or (checked_mul u128_max (fr_token_in_net_amount fee_amounts) current_price)
         OverflowError) (\<lambda>value.
     and_then (ok_or (checked_pow u128_max 10 (m_decimals token_out_mint)) Panic) (\<lambda>out_scale.
     and_then (ok_or (checked_mul u128_max value out_scale) OverflowError) (\<lambda>numerator.
     and_then (ok_or (checked_pow u128_max 10 (m_decimals token_in_mint)) Panic) (\<lambda>in_scale.
     and_then (ok_or (checked_mul u128_max in_scale (10 ^ PRICE_DECIMALS)) OverflowError)
       (\<lambda>denominator.
     let r = numerator div denominator in
     require (r \<le> u64_max) OverflowError (
     require (r > 0) InvalidAmount (
     Ok \<lparr>rp_price = current_price,
         rp_token_in_net_amount = fr_token_in_net_amount fee_amounts,
         rp_token_in_fee_amount = fr_token_in_fee_amount fee_amounts,
         rp_token_out_amount = as_u64 r\<rparr>)))))))))"

record execute_redemption_ops_params =
  x_token_in_mint :: mint
  x_token_in_net_amount :: u64
  x_token_in_fee_amount :: u64
  x_vault_token_in_account :: pubkey
  x_token_in_destination_account :: pubkey
  x_fee_destination_token_in_account :: pubkey
  x_redemption_vault_authority :: pubkey
  x_token_out_mint :: mint
  x_token_out_amount :: u64
  x_vault_token_out_account :: pubkey
  x_user_token_out_account :: pubkey
  x_mint_authority_pda :: pubkey

definition execute_redemption_operations ::
  "spl_token \<Rightarrow> execute_redemption_ops_params \<Rightarrow> ledger \<Rightarrow> ledger result" where
  "execute_redemption_operations spl p L =
     require (\<not> has_transfer_fee (x_token_in_mint p)) TransferFeeNotSupported (
     require (\<not> has_transfer_fee (x_token_out_mint p)) TransferFeeNotSupported (
     and_then (if program_controls_mint (x_token_in_mint p) (x_mint_authority_pda p)
       then burn_tokens spl (x_token_in_mint p) (x_vault_token_in_account p)
         (x_redemption_vault_authority p) (x_token_in_net_amount p) L
       else transfer_tokens spl (x_token_in_mint p) (x_vault_token_in_account p)
         (x_token_in_destination_account p) (x_redemption_vault_authority p)
         (x_token_in_net_amount p) L) (\<lambda>L.
     and_then (if x_token_in_fee_amount p > 0
       then transfer_tokens spl (x_token_in_mint p) (x_vault_token_in_account p)
         (x_fee_destination_token_in_account p) (x_redemption_vault_authority p)
         (x_token_in_fee_amount p) L
       else Ok L) (\<lambda>L.
     transfer_tokens spl (x_token_out_mint p) (x_vault_token_out_account p)
       (x_user_token_out_account p) (x_redemption_vault_authority p) (x_token_out_amount p) L))))"

section \<open>Requests\<close>

record redemption_world =
  rw_key :: pubkey
  rw_redemption_offer :: redemption_offer
  rw_requests :: "u64 \<Rightarrow> redemption_request option"
  rw_ledger :: ledger
  rw_proceeds_vault :: "configurable_vault account"
  rw_fee_vault :: "configurable_vault account"
  rw_buffer_accounts :: buffer_accrual_accounts
  rw_market_stats :: "market_stats account"

text \<open>
  \<open>init\<close> rejects an existing request account. The new account's fulfilled amount is zero.
\<close>

definition create_redemption_request ::
  "env \<Rightarrow> spl_token \<Rightarrow> state \<Rightarrow> offer account \<Rightarrow> pubkey \<Rightarrow> mint \<Rightarrow> pubkey \<Rightarrow> u64 \<Rightarrow> redemption_world \<Rightarrow>
     redemption_world result" where
  "create_redemption_request e spl st offer_account redeemer token_in_mint token_program amount w =
     (let ro = rw_redemption_offer w; request_id = ro_request_counter ro;
          ata = (\<lambda>authority. get_associated_token_address_with_program_id e authority
            (m_key token_in_mint) token_program)
      in
      require (\<not> s_is_killed st) KillSwitchActivated (
      and_then (load_pda_account offer_account (program_id e) AnchorConstraint AnchorConstraint) (\<lambda>offer.
      require (rw_requests w request_id = None) AnchorConstraint (
      require (m_key token_in_mint = ro_token_in_mint ro) InvalidMint (
      require (m_owner token_in_mint = spl_token_id e) InvalidTokenProgram (
      require (token_program = spl_token_id e) InvalidTokenProgram (
      require (amount > 0) InvalidAmount (
      require (ro_offer ro \<noteq> default_pubkey) InvalidRedemptionOffer (
      require (ro_token_out_mint ro \<noteq> default_pubkey) InvalidRedemptionOffer (
      require (ro_offer ro = a_key offer_account) OfferMismatch (
      and_then (ro_require_enabled ro) (\<lambda>_.
      and_then (require_enabled offer) (\<lambda>_.
      and_then (transfer_tokens spl token_in_mint (ata redeemer)
          (ata (pda e [Seed ''redemption_offer_vault_authority''])) redeemer amount (rw_ledger w)) (\<lambda>L.
      and_then (ok_or (checked_add u128_max (ro_requested_redemptions ro) amount) ArithmeticOverflow)
        (\<lambda>requested.
      and_then (ok_or (checked_add u64_max (ro_request_counter ro) 1) ArithmeticOverflow) (\<lambda>counter.
      Ok (w\<lparr>rw_ledger := L,
            rw_requests := (rw_requests w)(request_id \<mapsto> \<lparr>rr_offer = rw_key w,
              rr_request_id = request_id, rr_redeemer = redeemer, rr_amount = amount,
              rr_bump = snd (find_program_address e
                [Seed ''redemption_request'', KeySeed (rw_key w), U64Seed request_id]),
              rr_fulfilled_amount = 0\<rparr>),
            rw_redemption_offer := ro\<lparr>ro_requested_redemptions := requested,
              ro_request_counter := counter\<rparr>\<rparr>)))))))))))))))))"

definition cancel_redemption_request ::
  "env \<Rightarrow> spl_token \<Rightarrow> state \<Rightarrow> pubkey \<Rightarrow> pubkey \<Rightarrow> pubkey \<Rightarrow> mint \<Rightarrow> pubkey \<Rightarrow> token_info \<Rightarrow> u64 \<Rightarrow>
     redemption_world \<Rightarrow> redemption_world result" where
  "cancel_redemption_request e spl st signer redeemer worker token_in_mint token_program
     redeemer_token_account request_id w =
     (let ro = rw_redemption_offer w in
      require (\<not> s_is_killed st) KillSwitchActivated (
      and_then (ok_or (rw_requests w request_id) AnchorConstraint) (\<lambda>request.
      require (rr_offer request = rw_key w) OfferMismatch (
      require (signer = s_boss st \<or> signer = s_worker st \<or> signer = rr_redeemer request) Unauthorized (
      require (redeemer = rr_redeemer request) InvalidRedeemer (
      require (worker = s_worker st) InvalidWorker (
      require (m_key token_in_mint = ro_token_in_mint ro) InvalidMint (
      and_then (get_or_create_associated_token_account e redeemer_token_account redeemer
          (m_key token_in_mint) token_program InvalidRedeemerTokenAccount) (\<lambda>destination.
      and_then (ok_or (checked_sub (rr_amount request) (rr_fulfilled_amount request))
          ArithmeticUnderflow) (\<lambda>returned_amount.
      and_then (transfer_tokens spl token_in_mint
          (get_associated_token_address_with_program_id e
            (pda e [Seed ''redemption_offer_vault_authority'']) (m_key token_in_mint) token_program)
          destination (pda e [Seed ''redemption_offer_vault_authority'']) returned_amount (rw_ledger w))
        (\<lambda>L.
      and_then (ok_or (checked_sub (ro_requested_redemptions ro) returned_amount)
          ArithmeticUnderflow) (\<lambda>requested.
      Ok (w\<lparr>rw_ledger := L, rw_requests := (rw_requests w)(request_id := None),
            rw_redemption_offer := ro\<lparr>ro_requested_redemptions := requested\<rparr>\<rparr>))))))))))))) "

section \<open>Fulfilment\<close>

record fulfill_accounts =
  f_offer :: "offer account"
  f_token_in_mint :: mint
  f_token_in_program :: pubkey
  f_token_out_mint :: mint
  f_token_out_program :: pubkey
  f_redeemer :: pubkey
  f_worker :: pubkey
  f_offer_vault_onyc_account :: token_info
  f_vault_token_in_account :: token_info
  f_vault_token_out_account :: token_info
  f_user_token_out_account :: token_info
  f_offer_proceeds_token_in_account :: token_info
  f_redemption_fee_token_in_account :: token_info
  f_main_offer :: "offer account"
  f_excluded_balance :: "circulating_supply_excluded_balance account"

text \<open>The token accounts after validation or creation, and the two vaults after their creation.\<close>

record fulfill_tokens =
  ft_vault_in :: pubkey
  ft_vault_out :: pubkey
  ft_user_out :: pubkey
  ft_proceeds :: pubkey
  ft_fee :: pubkey
  ft_proceeds_vault :: "configurable_vault account"
  ft_fee_vault :: "configurable_vault account"

definition load_redemption_offer ::
  "env \<Rightarrow> pubkey \<Rightarrow> redemption_world \<Rightarrow> mint \<Rightarrow> mint \<Rightarrow> redemption_offer result" where
  "load_redemption_offer e offer_key w token_in_mint token_out_mint =
     (let ro = rw_redemption_offer w in
      require (rw_key w = pda e (redemption_offer_seeds (m_key token_in_mint) (m_key token_out_mint)))
        OfferMismatch (
      require (ro_offer ro = offer_key) OfferMismatch (
      require (m_key token_in_mint = ro_token_in_mint ro) InvalidTokenInMint (
      require (m_key token_out_mint = ro_token_out_mint ro) InvalidTokenOutMint (
      and_then (ro_require_enabled ro) (\<lambda>_.
      Ok ro))))))"

text \<open>The validation of \<open>fulfill_redemption_request\<close> before it calls the execution.\<close>

definition check_fulfill_accounts ::
  "env \<Rightarrow> state \<Rightarrow> fulfill_accounts \<Rightarrow> u64 \<Rightarrow> redemption_world \<Rightarrow>
     (offer \<times> redemption_request \<times> fulfill_tokens \<times> redemption_offer) result" where
  "check_fulfill_accounts e st a request_id w =
     (let vault_authority = pda e [Seed ''redemption_offer_vault_authority''];
          tin = m_key (f_token_in_mint a); tout = m_key (f_token_out_mint a)
      in
      require (\<not> s_is_killed st) KillSwitchActivated (
      and_then (load_pda_account (f_offer a) (program_id e) AnchorConstraint AnchorConstraint) (\<lambda>offer.
      and_then (ok_or (rw_requests w request_id) AnchorConstraint) (\<lambda>request.
      require (rr_request_id request = request_id) OfferMismatch (
      require (rr_offer request = rw_key w) OfferMismatch (
      require (f_redeemer a = rr_redeemer request) InvalidRedeemer (
      require (f_worker a = s_worker st) Unauthorized (
      and_then (validate_associated_token_address e (f_offer_vault_onyc_account a)
          (pda e [Seed ''offer_vault_authority'']) tin (f_token_in_program a)
          InvalidOfferVaultOnycAccount) (\<lambda>_.
      and_then (get_associated_token_account e (f_vault_token_in_account a) vault_authority tin
          (f_token_in_program a) InvalidVaultTokenInAccount) (\<lambda>vault_in.
      and_then (get_associated_token_account e (f_vault_token_out_account a) vault_authority tout
          (f_token_out_program a) InvalidVaultTokenOutAccount) (\<lambda>vault_out.
      and_then (get_or_create_associated_token_account e (f_user_token_out_account a) (f_redeemer a)
          tout (f_token_out_program a) InvalidUserTokenOutAccount) (\<lambda>user_out.
      and_then (get_or_create_configurable_vault_token_account e OfferProceeds (rw_proceeds_vault w)
          (f_offer_proceeds_token_in_account a) tin (f_token_in_program a)) (\<lambda>(proceeds, proceeds_vault).
      and_then (load_redemption_offer e (a_key (f_offer a)) w (f_token_in_mint a) (f_token_out_mint a))
        (\<lambda>ro.
      and_then (get_or_create_configurable_vault_token_account e RedemptionFee (rw_fee_vault w)
          (f_redemption_fee_token_in_account a) tin (f_token_in_program a)) (\<lambda>(fee, fee_vault).
      Ok (offer, request, \<lparr>ft_vault_in = vault_in, ft_vault_out = vault_out, ft_user_out = user_out,
          ft_proceeds = proceeds, ft_fee = fee, ft_proceeds_vault = proceeds_vault,
          ft_fee_vault = fee_vault\<rparr>, ro))))))))))))))))"

text \<open>
  The middle of \<open>execute_fulfill_redemption_request\<close>: accrue the BUFFER if the redeemed token is
  ONyc under the program's control, move the tokens, store the supply after the burn, refresh
  the statistics.
\<close>

definition settle_redemption ::
  "env \<Rightarrow> spl_token \<Rightarrow> state \<Rightarrow> fulfill_accounts \<Rightarrow> fulfill_tokens \<Rightarrow> redemption_process_result \<Rightarrow>
     redemption_world \<Rightarrow> redemption_world result" where
  "settle_redemption e spl st a ft rp w =
     (let mint_authority = pda e [Seed ''mint_authority''];
          should_refresh_market_stats = (m_key (f_token_in_mint a) = s_onyc_mint st \<and>
            program_controls_mint (f_token_in_mint a) mint_authority)
      in
      and_then (if should_refresh_market_stats
          then and_then (load_main_offer e (f_main_offer a) st) (\<lambda>main_offer. Ok (Some main_offer))
          else Ok None) (\<lambda>main_offer.
      and_then (check_is_initialized e (rw_buffer_accounts w)) (\<lambda>buffer_is_initialized.
      and_then (if should_refresh_market_stats \<and> buffer_is_initialized
          then and_then (ok_or main_offer InvalidMainOffer) (\<lambda>canonical_offer.
            and_then (accrue_buffer_from_accounts e spl st (rw_buffer_accounts w) canonical_offer
                (f_token_in_mint a) mint_authority (f_token_in_program a) (rw_ledger w)) (\<lambda>(accrual, ba, L).
            Ok (Some accrual, ba, L)))
          else Ok (None, rw_buffer_accounts w, rw_ledger w)) (\<lambda>(accrual, ba, L).
      and_then (execute_redemption_operations spl \<lparr>
          x_token_in_mint = f_token_in_mint a,
          x_token_in_net_amount = rp_token_in_net_amount rp,
          x_token_in_fee_amount = rp_token_in_fee_amount rp,
          x_vault_token_in_account = ft_vault_in ft,
          x_token_in_destination_account = ft_proceeds ft,
          x_fee_destination_token_in_account = ft_fee ft,
          x_redemption_vault_authority = pda e [Seed ''redemption_offer_vault_authority''],
          x_token_out_mint = f_token_out_mint a,
          x_token_out_amount = rp_token_out_amount rp,
          x_vault_token_out_account = ft_vault_out ft,
          x_user_token_out_account = ft_user_out ft,
          x_mint_authority_pda = mint_authority\<rparr> L) (\<lambda>L.
      and_then (case accrual of
            Some accrual \<Rightarrow>
              and_then (ok_or (checked_sub (ar_post_accrual_supply accrual) (rp_token_in_net_amount rp))
                  MathOverflow) (\<lambda>post_burn_supply.
              store_buffer_post_supply e ba post_burn_supply (ar_timestamp accrual))
          | None \<Rightarrow> Ok ba) (\<lambda>ba.
      and_then (if should_refresh_market_stats
          then and_then (ok_or main_offer InvalidMainOffer) (\<lambda>main_offer.
            refresh_market_stats_pda e main_offer (reload L (f_token_in_mint a)) (f_excluded_balance a)
              (rw_market_stats w))
          else Ok (rw_market_stats w)) (\<lambda>ms.
      Ok (w\<lparr>rw_ledger := L, rw_buffer_accounts := ba, rw_market_stats := ms,
            rw_proceeds_vault := ft_proceeds_vault ft, rw_fee_vault := ft_fee_vault ft\<rparr>))))))))"

text \<open>The bookkeeping at its end; a request that is fully settled is closed.\<close>

definition record_fulfillment ::
  "u64 \<Rightarrow> redemption_request \<Rightarrow> redemption_offer \<Rightarrow> redemption_world \<Rightarrow> redemption_world result" where
  "record_fulfillment amount request ro w =
     and_then (ok_or (checked_add u64_max (rr_fulfilled_amount request) amount) ArithmeticOverflow)
       (\<lambda>new_fulfilled_amount.
     and_then (ok_or (checked_add u128_max (ro_executed_redemptions ro) amount) ArithmeticOverflow)
       (\<lambda>executed.
     and_then (ok_or (checked_sub (ro_requested_redemptions ro) amount) ArithmeticUnderflow)
       (\<lambda>requested.
     Ok (w\<lparr>rw_redemption_offer := ro\<lparr>ro_executed_redemptions := executed,
             ro_requested_redemptions := requested\<rparr>,
           rw_requests := (rw_requests w)(rr_request_id request :=
             (if new_fulfilled_amount = rr_amount request then None
              else Some (request\<lparr>rr_fulfilled_amount := new_fulfilled_amount\<rparr>)))\<rparr>))))"

definition execute_fulfill_redemption_request ::
  "env \<Rightarrow> spl_token \<Rightarrow> state \<Rightarrow> fulfill_accounts \<Rightarrow> offer \<Rightarrow> redemption_request \<Rightarrow> fulfill_tokens \<Rightarrow>
     redemption_offer \<Rightarrow> u64 \<Rightarrow> redemption_world \<Rightarrow> redemption_world result" where
  "execute_fulfill_redemption_request e spl st a offer request ft ro amount w =
     require (amount > 0) InvalidAmount (
     and_then (ok_or (checked_sub (rr_amount request) (rr_fulfilled_amount request))
         ArithmeticUnderflow) (\<lambda>remaining.
     require (amount \<le> remaining) AmountExceedsRemaining (
     and_then (require_enabled offer) (\<lambda>_.
     and_then (process_redemption_core e offer amount (f_token_in_mint a) (f_token_out_mint a)
         (ro_fee_basis_points ro) 0) (\<lambda>rp.
     and_then (settle_redemption e spl st a ft rp w) (\<lambda>w.
     record_fulfillment amount request ro w))))))"

definition fulfill_redemption_request ::
  "env \<Rightarrow> spl_token \<Rightarrow> state \<Rightarrow> fulfill_accounts \<Rightarrow> u64 \<Rightarrow> u64 \<Rightarrow> redemption_world \<Rightarrow>
     redemption_world result" where
  "fulfill_redemption_request e spl st a request_id amount w =
     and_then (check_fulfill_accounts e st a request_id w) (\<lambda>(offer, request, ft, ro).
     execute_fulfill_redemption_request e spl st a offer request ft ro amount w)"

section \<open>Amounts\<close>

lemma redemption_fees_Ok:
  assumes "redemption_fees amount bps mn = Ok r"
  shows "fr_token_in_fee_amount r + fr_token_in_net_amount r = amount" and "mn \<le> fr_token_in_fee_amount r"
  using assms calculate_fees_Ok [of amount bps]
  by (auto simp: redemption_fees_def split: if_splits)

interpretation minimum_fee: fee_policy "\<lambda>(bps, mn) amount. redemption_fees amount bps mn"
  by unfold_locales (auto simp: redemption_fees_Ok(1))

lemma process_redemption_core_Ok:
  assumes "process_redemption_core e offer amount m_in m_out bps mn = Ok rp"
  shows "compute_offer_current_price offer (i64_as_u64 (unix_timestamp e)) = Ok (rp_price rp)"
    and "\<exists>r. redemption_fees amount bps mn = Ok r \<and>
      rp_token_in_fee_amount rp = fr_token_in_fee_amount r \<and> rp_token_in_net_amount rp = fr_token_in_net_amount r"
    and "rp_token_out_amount rp = rp_token_in_net_amount rp * rp_price rp * 10 ^ m_decimals m_out
      div (10 ^ m_decimals m_in * 1000000000)"
    and "0 < rp_token_out_amount rp" and "rp_token_out_amount rp \<le> u64_max"
proof -
  obtain price fr r where
    "compute_offer_current_price offer (i64_as_u64 (unix_timestamp e)) = Ok price"
    "redemption_fees amount bps mn = Ok fr"
    "r = fr_token_in_net_amount fr * price * 10 ^ m_decimals m_out
      div (10 ^ m_decimals m_in * 10 ^ PRICE_DECIMALS)"
    "r \<le> u64_max" "0 < r"
    "rp = \<lparr>rp_price = price, rp_token_in_net_amount = fr_token_in_net_amount fr,
         rp_token_in_fee_amount = fr_token_in_fee_amount fr, rp_token_out_amount = as_u64 r\<rparr>"
    using assms unfolding process_redemption_core_def Let_def by auto
  then show "compute_offer_current_price offer (i64_as_u64 (unix_timestamp e)) = Ok (rp_price rp)"
    and "\<exists>r. redemption_fees amount bps mn = Ok r \<and>
      rp_token_in_fee_amount rp = fr_token_in_fee_amount r \<and> rp_token_in_net_amount rp = fr_token_in_net_amount r"
    and "rp_token_out_amount rp = rp_token_in_net_amount rp * rp_price rp * 10 ^ m_decimals m_out
      div (10 ^ m_decimals m_in * 1000000000)"
    and "0 < rp_token_out_amount rp" and "rp_token_out_amount rp \<le> u64_max"
    by (simp_all add: as_u64_id PRICE_DECIMALS_def)
qed

text \<open>
  A redemption pays out at the current price of the underlying offer: fee and net amount
  add up to the redeemed amount exactly, the fee is at least the configured minimum, and the
  payout is worth at most the net amount at the price, while one unit more would be worth more.
\<close>

theorem redemption_pays_price_rounded_down:
  assumes "process_redemption_core e offer amount m_in m_out bps mn = Ok rp"
  shows "compute_offer_current_price offer (i64_as_u64 (unix_timestamp e)) = Ok (rp_price rp) \<and>
    rp_token_in_fee_amount rp + rp_token_in_net_amount rp = amount \<and> mn \<le> rp_token_in_fee_amount rp \<and>
    0 < rp_token_out_amount rp \<and>
    rp_token_out_amount rp * (10 ^ m_decimals m_in * 1000000000) \<le>
      rp_token_in_net_amount rp * rp_price rp * 10 ^ m_decimals m_out \<and>
    rp_token_in_net_amount rp * rp_price rp * 10 ^ m_decimals m_out <
      (rp_token_out_amount rp + 1) * (10 ^ m_decimals m_in * 1000000000)"
proof -
  note ok = process_redemption_core_Ok [OF assms]
  define D where "D = (10::nat) ^ m_decimals m_in * 1000000000"
  define N where "N = rp_token_in_net_amount rp * rp_price rp * 10 ^ m_decimals m_out"
  have D: "0 < D" by (simp add: D_def)
  have out: "rp_token_out_amount rp = N div D" using ok(3) by (simp add: N_def D_def)
  have "rp_token_out_amount rp * D \<le> N" by (simp add: out)
  moreover have "N < (rp_token_out_amount rp + 1) * D"
    unfolding out using dividend_less_div_times [OF D, of N] by (simp add: algebra_simps)
  moreover from ok(2) have "rp_token_in_fee_amount rp + rp_token_in_net_amount rp = amount"
    "mn \<le> rp_token_in_fee_amount rp"
    using redemption_fees_Ok [of amount bps mn] by auto
  ultimately show ?thesis using ok(1,4) by (simp add: N_def D_def)
qed

lemma sample_redemption:
  "process_redemption_core sample_env sample_offer 1000 sample_onyc (sample_mint 21 None 0) 100 0 =
     Ok \<lparr>rp_price = 1000267397, rp_token_in_net_amount = 990, rp_token_in_fee_amount = 10,
         rp_token_out_amount = 990\<rparr>"
proof -
  have "compute_offer_current_price sample_offer 5000 = Ok 1000267397"
    by (simp add: compute_offer_current_price_def sample_price)
  moreover have "calculate_fees 1000 100 = Ok \<lparr>fr_token_in_fee_amount = 10, fr_token_in_net_amount = 990\<rparr>"
    using calculate_fees_total(1) [of 1000 100] by (simp add: const_defs int_defs)
  ultimately show ?thesis
    by (simp add: process_redemption_core_def redemption_fees_def i64_as_u64_def sample_onyc_def
        sample_mint_def checked_mul_def checked_pow_def as_u64_def const_defs int_defs cong: eval_congs)
qed

theorem redemption_pays_price_rounded_down_witness:
  "990 * (10 ^ 6 * 1000000000) \<le> 990 * 1000267397 * (10::nat) ^ 6 \<and>
   990 * 1000267397 * 10 ^ 6 < (990 + 1) * (10 ^ 6 * (1000000000::nat))"
  using redemption_pays_price_rounded_down [OF sample_redemption]
  by (simp add: sample_onyc_def sample_mint_def)

section \<open>Token movements\<close>

lemma redemption_ops_effect:
  assumes laws: "spl_laws spl" and ok: "execute_redemption_operations spl p L = Ok L'"
  defines "burns \<equiv> program_controls_mint (x_token_in_mint p) (x_mint_authority_pda p)"
  shows "int (l_bal L' a) = int (l_bal L a)
        - part (a = x_vault_token_in_account p) (x_token_in_net_amount p + x_token_in_fee_amount p)
        + part (\<not> burns \<and> a = x_token_in_destination_account p) (x_token_in_net_amount p)
        + part (a = x_fee_destination_token_in_account p) (x_token_in_fee_amount p)
        - part (a = x_vault_token_out_account p) (x_token_out_amount p)
        + part (a = x_user_token_out_account p) (x_token_out_amount p)"
    and "int (l_supply L' k) = int (l_supply L k)
        - part (burns \<and> k = m_key (x_token_in_mint p)) (x_token_in_net_amount p)"
    and "\<not> has_transfer_fee (x_token_in_mint p)" and "\<not> has_transfer_fee (x_token_out_mint p)"
proof -
  let ?va = "x_redemption_vault_authority p" and ?vin = "x_vault_token_in_account p"
  obtain L1 L2 where
    1: "(if burns then burn_tokens spl (x_token_in_mint p) ?vin ?va (x_token_in_net_amount p) L
       else transfer_tokens spl (x_token_in_mint p) ?vin (x_token_in_destination_account p) ?va
         (x_token_in_net_amount p) L) = Ok L1"
    and 2: "(if x_token_in_fee_amount p > 0 then transfer_tokens spl (x_token_in_mint p) ?vin
         (x_fee_destination_token_in_account p) ?va (x_token_in_fee_amount p) L1 else Ok L1) = Ok L2"
    and 3: "transfer_tokens spl (x_token_out_mint p) (x_vault_token_out_account p)
       (x_user_token_out_account p) ?va (x_token_out_amount p) L2 = Ok L'"
    and nofee: "\<not> has_transfer_fee (x_token_in_mint p)" "\<not> has_transfer_fee (x_token_out_mint p)"
    using ok unfolding execute_redemption_operations_def burns_def by (auto split del: if_split)
  have e1: "int (l_bal L1 a) = int (l_bal L a) - part (a = ?vin) (x_token_in_net_amount p)
      + part (\<not> burns \<and> a = x_token_in_destination_account p) (x_token_in_net_amount p)"
    and s1: "int (l_supply L1 k) = int (l_supply L k)
      - part (burns \<and> k = m_key (x_token_in_mint p)) (x_token_in_net_amount p)" for a k
    using 1 burn_tokens_effect [OF laws] transfer_tokens_effect [OF laws] by (cases burns; simp)+
  note e = optional_transfer_effect [OF laws 2] transfer_tokens_effect [OF laws 3]
  show "int (l_bal L' a) = int (l_bal L a)
        - part (a = ?vin) (x_token_in_net_amount p + x_token_in_fee_amount p)
        + part (\<not> burns \<and> a = x_token_in_destination_account p) (x_token_in_net_amount p)
        + part (a = x_fee_destination_token_in_account p) (x_token_in_fee_amount p)
        - part (a = x_vault_token_out_account p) (x_token_out_amount p)
        + part (a = x_user_token_out_account p) (x_token_out_amount p)"
    by (simp add: e e1) (simp add: part_def)
  show "int (l_supply L' k) = int (l_supply L k)
        - part (burns \<and> k = m_key (x_token_in_mint p)) (x_token_in_net_amount p)"
    by (simp add: e s1)
  show "\<not> has_transfer_fee (x_token_in_mint p)" "\<not> has_transfer_fee (x_token_out_mint p)"
    by (rule nofee)+
qed

text \<open>
  C28: A completed redemption changes every token account and supply by exactly its amounts,
  whichever accounts coincide: net amount and fee leave the vault, the net amount is burned
  where the program controls the mint and goes to the proceeds account otherwise, the fee goes
  to the fee account, and the payout moves from the vault to the user. Nothing is minted.
\<close>

theorem redemption_moves_exactly_its_amounts:
  assumes laws: "spl_laws spl" and ok: "execute_redemption_operations spl p L = Ok L'"
  defines "burns \<equiv> program_controls_mint (x_token_in_mint p) (x_mint_authority_pda p)"
  shows "(\<forall>a. int (l_bal L' a) = int (l_bal L a)
        - part (a = x_vault_token_in_account p) (x_token_in_net_amount p + x_token_in_fee_amount p)
        + part (\<not> burns \<and> a = x_token_in_destination_account p) (x_token_in_net_amount p)
        + part (a = x_fee_destination_token_in_account p) (x_token_in_fee_amount p)
        - part (a = x_vault_token_out_account p) (x_token_out_amount p)
        + part (a = x_user_token_out_account p) (x_token_out_amount p)) \<and>
    (\<forall>k. int (l_supply L' k) = int (l_supply L k)
        - part (burns \<and> k = m_key (x_token_in_mint p)) (x_token_in_net_amount p)) \<and>
    \<not> has_transfer_fee (x_token_in_mint p) \<and> \<not> has_transfer_fee (x_token_out_mint p)"
  unfolding burns_def using redemption_ops_effect [OF laws ok] by blast

definition sample_redemption_ops :: execute_redemption_ops_params where
  "sample_redemption_ops = \<lparr>x_token_in_mint = sample_onyc, x_token_in_net_amount = 990,
     x_token_in_fee_amount = 10, x_vault_token_in_account = 31, x_token_in_destination_account = 32,
     x_fee_destination_token_in_account = 33, x_redemption_vault_authority = 107,
     x_token_out_mint = sample_mint 21 None 0, x_token_out_amount = 990,
     x_vault_token_out_account = 34, x_user_token_out_account = 35, x_mint_authority_pda = 104\<rparr>"

theorem redemption_moves_exactly_its_amounts_witness:
  "\<exists>L'. execute_redemption_operations plain_token_program sample_redemption_ops
      \<lparr>l_bal = (\<lambda>_. 2000), l_supply = (\<lambda>_. 5000)\<rparr> = Ok L' \<and>
     int (l_bal L' 31) = 1000 \<and> int (l_bal L' 35) = 2990 \<and> int (l_supply L' 22) = 4010"
proof -
  let ?L = "\<lparr>l_bal = (\<lambda>_. 2000), l_supply = (\<lambda>_. 5000)\<rparr>"
  have "is_ok (execute_redemption_operations plain_token_program sample_redemption_ops ?L)"
    by (simp add: execute_redemption_operations_def token_eval_simps sample_redemption_ops_def sample_onyc_def
        sample_mint_def is_ok_def cong: eval_congs)
  then obtain L' where ok: "execute_redemption_operations plain_token_program sample_redemption_ops ?L = Ok L'"
    by (auto simp: is_ok_iff)
  from redemption_moves_exactly_its_amounts [OF plain_token_program_laws ok]
  have "int (l_bal L' 31) = 1000" "int (l_bal L' 35) = 2990" "int (l_supply L' 22) = 4010"
    by (simp_all add: sample_redemption_ops_def sample_onyc_def sample_mint_def program_controls_mint_def part_def)
  with ok show ?thesis by blast
qed

section \<open>The queue of requests\<close>

datatype redemption_op =
    CreateRequest env state "offer account" pubkey mint pubkey u64
  | CancelRequest env state pubkey pubkey pubkey mint pubkey token_info u64
  | FulfillRequest env state fulfill_accounts u64 u64
  | UpdateRedemptionFee state pubkey u16
  | UpdateSellFee state pubkey u16
  | UpdateVaultTarget state pubkey u16
  | SetRedemptionDisabled state pubkey bool

definition configure ::
  "(redemption_offer \<Rightarrow> redemption_offer result) \<Rightarrow> redemption_world \<Rightarrow> redemption_world result" where
  "configure f w = and_then (f (rw_redemption_offer w)) (\<lambda>ro. Ok (w\<lparr>rw_redemption_offer := ro\<rparr>))"

fun exec_redemption :: "spl_token \<Rightarrow> redemption_op \<Rightarrow> redemption_world \<Rightarrow> redemption_world result" where
  "exec_redemption spl (CreateRequest e st oa redeemer m prog amount) w =
     create_redemption_request e spl st oa redeemer m prog amount w"
| "exec_redemption spl (CancelRequest e st signer redeemer worker m prog t i) w =
     cancel_redemption_request e spl st signer redeemer worker m prog t i w"
| "exec_redemption spl (FulfillRequest e st a i amount) w =
     fulfill_redemption_request e spl st a i amount w"
| "exec_redemption spl (UpdateRedemptionFee st boss fee) w = configure (update_redemption_offer_fee st boss fee) w"
| "exec_redemption spl (UpdateSellFee st boss fee) w =
     configure (update_redemption_offer_prop_amm_sell_fee st boss fee) w"
| "exec_redemption spl (UpdateVaultTarget st boss t) w =
     configure (update_redemption_offer_vault_target st boss t) w"
| "exec_redemption spl (SetRedemptionDisabled st signer b) w =
     configure (set_redemption_offer_disabled st signer b) w"

text \<open>What an open request still has locked, and the well-formed queue.\<close>

definition remaining :: "redemption_request option \<Rightarrow> nat" where
  "remaining r = (case r of None \<Rightarrow> 0 | Some r \<Rightarrow> rr_amount r - rr_fulfilled_amount r)"

definition request_ok :: "u64 \<Rightarrow> redemption_request option \<Rightarrow> bool" where
  "request_ok i r = (case r of None \<Rightarrow> True
     | Some r \<Rightarrow> rr_request_id r = i \<and> rr_fulfilled_amount r < rr_amount r)"

definition redemption_wf :: "redemption_world \<Rightarrow> bool" where
  "redemption_wf w \<longleftrightarrow>
     (let ro = rw_redemption_offer w in
      ro_requested_redemptions ro = (\<Sum>i < ro_request_counter ro. remaining (rw_requests w i)) \<and>
      (\<forall>i. request_ok i (rw_requests w i) \<and> (ro_request_counter ro \<le> i \<longrightarrow> rw_requests w i = None)) \<and>
      ro_fee_basis_points ro \<le> MAX_ALLOWED_FEE_BPS \<and>
      ro_fee_basis_points_prop_amm_sell ro \<le> MAX_ALLOWED_FEE_BPS \<and>
      ro_vault_target_bps ro \<le> MAX_BASIS_POINTS)"

lemma remaining_simps [simp]: "remaining None = 0"
  "remaining (Some r) = rr_amount r - rr_fulfilled_amount r"
  by (simp_all add: remaining_def)

lemma request_ok_simps [simp]: "request_ok i None"
  "request_ok i (Some r) \<longleftrightarrow> rr_request_id r = i \<and> rr_fulfilled_amount r < rr_amount r"
  by (simp_all add: request_ok_def)

lemma sum_remaining_upd:
  assumes "i < (n::nat)"
  shows "(\<Sum>j < n. remaining ((f(i := r)) j)) + remaining (f i) = (\<Sum>j < n. remaining (f j)) + remaining r"
proof -
  have "(\<Sum>j < n. remaining ((f(i := r)) j)) = remaining r + (\<Sum>j \<in> {..<n} - {i}. remaining (f j))"
    using assms by (subst sum.remove [of _ i]) (auto intro: sum.cong)
  moreover have "(\<Sum>j < n. remaining (f j)) = remaining (f i) + (\<Sum>j \<in> {..<n} - {i}. remaining (f j))"
    using assms by (subst sum.remove [of _ i]) auto
  ultimately show ?thesis by simp
qed

lemma create_redemption_request_Ok:
  assumes "create_redemption_request e spl st oa redeemer m prog amount w = Ok w'"
  obtains bump where "0 < amount" "\<not> s_is_killed st" "rw_requests w (ro_request_counter (rw_redemption_offer w)) = None"
    "ro_request_counter (rw_redemption_offer w) + 1 \<le> u64_max"
    "rw_redemption_offer w' = (rw_redemption_offer w)\<lparr>
       ro_requested_redemptions := ro_requested_redemptions (rw_redemption_offer w) + amount,
       ro_request_counter := ro_request_counter (rw_redemption_offer w) + 1\<rparr>"
    "rw_requests w' = (rw_requests w)(ro_request_counter (rw_redemption_offer w) \<mapsto>
       \<lparr>rr_offer = rw_key w, rr_request_id = ro_request_counter (rw_redemption_offer w), rr_redeemer = redeemer,
        rr_amount = amount, rr_bump = bump, rr_fulfilled_amount = 0\<rparr>)"
    "transfer_tokens spl m (get_associated_token_address_with_program_id e redeemer (m_key m) prog)
       (get_associated_token_address_with_program_id e (pda e [Seed ''redemption_offer_vault_authority''])
         (m_key m) prog) redeemer amount (rw_ledger w) = Ok (rw_ledger w')"
  using assms unfolding create_redemption_request_def Let_def by (clarsimp simp: fun_upd_def)

lemma cancel_redemption_request_Ok:
  assumes "cancel_redemption_request e spl st signer redeemer worker m prog t i w = Ok w'"
  obtains r where "rw_requests w i = Some r" "\<not> s_is_killed st"
    "signer = s_boss st \<or> signer = s_worker st \<or> signer = rr_redeemer r" "redeemer = rr_redeemer r"
    "t_key t = get_associated_token_address_with_program_id e redeemer (m_key m) prog"
    "rr_fulfilled_amount r \<le> rr_amount r"
    "rr_amount r - rr_fulfilled_amount r \<le> ro_requested_redemptions (rw_redemption_offer w)"
    "transfer_tokens spl m (get_associated_token_address_with_program_id e
         (pda e [Seed ''redemption_offer_vault_authority'']) (m_key m) prog)
       (t_key t) (pda e [Seed ''redemption_offer_vault_authority''])
       (rr_amount r - rr_fulfilled_amount r) (rw_ledger w) = Ok (rw_ledger w')"
    "rw_redemption_offer w' = (rw_redemption_offer w)\<lparr>ro_requested_redemptions :=
       ro_requested_redemptions (rw_redemption_offer w) - (rr_amount r - rr_fulfilled_amount r)\<rparr>"
    "rw_requests w' = (rw_requests w)(i := None)"
proof -
  from assms obtain r dst L where
    1: "rw_requests w i = Some r" "\<not> s_is_killed st"
    "signer = s_boss st \<or> signer = s_worker st \<or> signer = rr_redeemer r" "redeemer = rr_redeemer r"
    "rr_fulfilled_amount r \<le> rr_amount r"
    "rr_amount r - rr_fulfilled_amount r \<le> ro_requested_redemptions (rw_redemption_offer w)"
    and 2: "get_or_create_associated_token_account e t redeemer (m_key m) prog InvalidRedeemerTokenAccount = Ok dst"
    and 3: "transfer_tokens spl m (get_associated_token_address_with_program_id e
         (pda e [Seed ''redemption_offer_vault_authority'']) (m_key m) prog)
       dst (pda e [Seed ''redemption_offer_vault_authority''])
       (rr_amount r - rr_fulfilled_amount r) (rw_ledger w) = Ok L"
    and 4: "w' = w\<lparr>rw_ledger := L, rw_requests := (rw_requests w)(i := None),
       rw_redemption_offer := (rw_redemption_offer w)\<lparr>ro_requested_redemptions :=
       ro_requested_redemptions (rw_redemption_offer w) - (rr_amount r - rr_fulfilled_amount r)\<rparr>\<rparr>"
    unfolding cancel_redemption_request_def Let_def by (clarsimp simp: fun_upd_def)
  have dst: "dst = t_key t" "t_key t = get_associated_token_address_with_program_id e redeemer (m_key m) prog"
    using 2 by (auto simp: get_or_create_associated_token_account_def validate_associated_token_address_def
        token_account_try_from_def split: if_splits)
  show ?thesis by (rule that [OF 1(1-4) dst(2) 1(5,6)]) (use 3 4 dst in simp_all)
qed

lemma settle_redemption_keeps:
  assumes "settle_redemption e spl st a ft rp w = Ok w'"
  shows "rw_redemption_offer w' = rw_redemption_offer w" and "rw_requests w' = rw_requests w"
  using assms unfolding settle_redemption_def Let_def by (auto split del: if_split)

lemma check_fulfill_accounts_Ok:
  assumes "check_fulfill_accounts e st a i w = Ok (offer, r, ft, ro)"
  shows "rw_requests w i = Some r" and "rr_request_id r = i" and "ro = rw_redemption_offer w"
    and "\<not> s_is_killed st" and "f_worker a = s_worker st" and "f_redeemer a = rr_redeemer r"
    and "\<not> ro_is_disabled ro"
  using assms unfolding check_fulfill_accounts_def load_redemption_offer_def ro_require_enabled_def Let_def
  by (auto split: prod.splits)

lemma fulfill_redemption_request_Ok:
  assumes "fulfill_redemption_request e spl st a i amount w = Ok w'"
  obtains r rp offer where "rw_requests w i = Some r" "rr_request_id r = i" "0 < amount"
    "rr_fulfilled_amount r + amount \<le> rr_amount r"
    "amount \<le> ro_requested_redemptions (rw_redemption_offer w)"
    "\<not> s_is_killed st" "f_worker a = s_worker st" "\<not> ro_is_disabled (rw_redemption_offer w)"
    "process_redemption_core e offer amount (f_token_in_mint a) (f_token_out_mint a)
       (ro_fee_basis_points (rw_redemption_offer w)) 0 = Ok rp"
    "rw_redemption_offer w' = (rw_redemption_offer w)\<lparr>
       ro_executed_redemptions := ro_executed_redemptions (rw_redemption_offer w) + amount,
       ro_requested_redemptions := ro_requested_redemptions (rw_redemption_offer w) - amount\<rparr>"
    "rw_requests w' = (rw_requests w)(i := (if rr_fulfilled_amount r + amount = rr_amount r then None
       else Some (r\<lparr>rr_fulfilled_amount := rr_fulfilled_amount r + amount\<rparr>)))"
proof -
  from assms obtain offer r ft ro where chk: "check_fulfill_accounts e st a i w = Ok (offer, r, ft, ro)"
    and ex: "execute_fulfill_redemption_request e spl st a offer r ft ro amount w = Ok w'"
    unfolding fulfill_redemption_request_def by auto
  note c = check_fulfill_accounts_Ok [OF chk]
  from ex obtain rp w1 where amt: "0 < amount" "rr_fulfilled_amount r \<le> rr_amount r"
      "amount \<le> rr_amount r - rr_fulfilled_amount r"
    and rp: "process_redemption_core e offer amount (f_token_in_mint a) (f_token_out_mint a)
       (ro_fee_basis_points ro) 0 = Ok rp"
    and settle: "settle_redemption e spl st a ft rp w = Ok w1"
    and recd: "record_fulfillment amount r ro w1 = Ok w'"
    unfolding execute_fulfill_redemption_request_def by auto
  have w': "amount \<le> ro_requested_redemptions ro"
    "rw_redemption_offer w' = ro\<lparr>ro_executed_redemptions := ro_executed_redemptions ro + amount,
       ro_requested_redemptions := ro_requested_redemptions ro - amount\<rparr>"
    "rw_requests w' = (rw_requests w)(rr_request_id r := (if rr_fulfilled_amount r + amount = rr_amount r then None
       else Some (r\<lparr>rr_fulfilled_amount := rr_fulfilled_amount r + amount\<rparr>)))"
    using recd settle_redemption_keeps [OF settle] unfolding record_fulfillment_def by auto
  show ?thesis
    by (rule that [of r offer rp]) (use c amt rp w' in simp_all)
qed

lemma exec_redemption_wf:
  assumes wf: "redemption_wf w" and ok: "exec_redemption spl c w = Ok w'"
  shows "redemption_wf w'"
proof (cases c)
  case (CreateRequest e st oa redeemer m prog amount)
  then have "create_redemption_request e spl st oa redeemer m prog amount w = Ok w'" using ok by simp
  then obtain bump where c: "0 < amount"
    "rw_redemption_offer w' = (rw_redemption_offer w)\<lparr>
       ro_requested_redemptions := ro_requested_redemptions (rw_redemption_offer w) + amount,
       ro_request_counter := ro_request_counter (rw_redemption_offer w) + 1\<rparr>"
    "rw_requests w' = (rw_requests w)(ro_request_counter (rw_redemption_offer w) \<mapsto>
       \<lparr>rr_offer = rw_key w, rr_request_id = ro_request_counter (rw_redemption_offer w), rr_redeemer = redeemer,
        rr_amount = amount, rr_bump = bump, rr_fulfilled_amount = 0\<rparr>)"
    by (rule create_redemption_request_Ok)
  then show ?thesis using wf by (auto simp: redemption_wf_def Let_def)
next
  case (CancelRequest e st signer redeemer worker m prog t i)
  then have "cancel_redemption_request e spl st signer redeemer worker m prog t i w = Ok w'" using ok by simp
  then obtain r where r: "rw_requests w i = Some r"
    "rw_redemption_offer w' = (rw_redemption_offer w)\<lparr>ro_requested_redemptions :=
       ro_requested_redemptions (rw_redemption_offer w) - (rr_amount r - rr_fulfilled_amount r)\<rparr>"
    "rw_requests w' = (rw_requests w)(i := None)"
    by (rule cancel_redemption_request_Ok)
  have "i < ro_request_counter (rw_redemption_offer w)"
    using wf r(1) by (metis not_less option.distinct(1) redemption_wf_def)
  from sum_remaining_upd [OF this, of "rw_requests w" None] show ?thesis
    using wf r by (auto simp: redemption_wf_def Let_def)
next
  case (FulfillRequest e st a i amount)
  then have "fulfill_redemption_request e spl st a i amount w = Ok w'" using ok by simp
  then obtain r where r: "rw_requests w i = Some r" "rr_request_id r = i" "0 < amount"
    "rr_fulfilled_amount r + amount \<le> rr_amount r"
    "rw_redemption_offer w' = (rw_redemption_offer w)\<lparr>
       ro_executed_redemptions := ro_executed_redemptions (rw_redemption_offer w) + amount,
       ro_requested_redemptions := ro_requested_redemptions (rw_redemption_offer w) - amount\<rparr>"
    "rw_requests w' = (rw_requests w)(i := (if rr_fulfilled_amount r + amount = rr_amount r then None
       else Some (r\<lparr>rr_fulfilled_amount := rr_fulfilled_amount r + amount\<rparr>)))"
    by (rule fulfill_redemption_request_Ok)
  define r' where "r' = (if rr_fulfilled_amount r + amount = rr_amount r then None
       else Some (r\<lparr>rr_fulfilled_amount := rr_fulfilled_amount r + amount\<rparr>))"
  have rem: "remaining r' + amount = remaining (Some r)" and req: "request_ok i r'"
    using r(2,4) by (auto simp: r'_def)
  have reqs: "rw_requests w' = (rw_requests w)(i := r')" using r(6) by (simp add: r'_def)
  have i: "i < ro_request_counter (rw_redemption_offer w)"
    using wf r(1) by (metis not_less option.distinct(1) redemption_wf_def)
  have sum: "(\<Sum>j < ro_request_counter (rw_redemption_offer w). remaining (rw_requests w' j)) + amount =
      (\<Sum>j < ro_request_counter (rw_redemption_offer w). remaining (rw_requests w j))"
    using sum_remaining_upd [OF i, of "rw_requests w" r'] rem [folded r(1)] unfolding reqs by linarith
  have ok': "request_ok j (rw_requests w' j) \<and>
      (ro_request_counter (rw_redemption_offer w) \<le> j \<longrightarrow> rw_requests w' j = None)" for j
    using wf req i by (auto simp: reqs redemption_wf_def Let_def)
  have "ro_requested_redemptions (rw_redemption_offer w) - amount =
      (\<Sum>j < ro_request_counter (rw_redemption_offer w). remaining (rw_requests w' j))"
    using wf sum by (simp add: redemption_wf_def Let_def)
  then show ?thesis using wf ok' unfolding redemption_wf_def Let_def r(5) by simp
qed (use wf ok in \<open>auto simp: configure_def redemption_wf_def Let_def update_redemption_offer_fee_def
    update_redemption_offer_prop_amm_sell_fee_def update_redemption_offer_vault_target_def
    set_redemption_offer_disabled_def ro_set_disabled_def\<close>)

interpretation queue: invariant_machine "exec_redemption spl" redemption_wf for spl
  by unfold_locales (rule exec_redemption_wf)

text \<open>
  C17: In every sequence of redemption instructions, failing ones included, from a well-formed
  redemption offer, the counter of requested redemptions is exactly the sum of what the open
  requests have left, every open request is partly unfulfilled and stored under its own number,
  no number at or above the request counter is in use, and fees and vault target stay within
  their limits.
\<close>

theorem requested_redemptions_match_open_requests:
  assumes "redemption_wf w"
  shows "redemption_wf (run_ops (exec_redemption spl) ops w)"
  using assms by (rule queue.run_inv)

definition sample_redemption_offer :: redemption_offer where
  "sample_redemption_offer = \<lparr>ro_offer = 60, ro_token_in_mint = 22, ro_token_out_mint = 21,
     ro_executed_redemptions = 0, ro_requested_redemptions = 600, ro_fee_basis_points = 100,
     ro_request_counter = 1, ro_bump = 255, ro_vault_target_bps = 0, ro_disabled = 0,
     ro_fee_basis_points_prop_amm_sell = 50\<rparr>"

definition sample_request :: redemption_request where
  "sample_request = \<lparr>rr_offer = 199, rr_request_id = 0, rr_redeemer = 6, rr_amount = 1000, rr_bump = 255,
     rr_fulfilled_amount = 400\<rparr>"

definition sample_redemption_world :: redemption_world where
  "sample_redemption_world = \<lparr>rw_key = 199, rw_redemption_offer = sample_redemption_offer,
     rw_requests = [0 \<mapsto> sample_request],
     rw_ledger = \<lparr>l_bal = (\<lambda>a. if a = 2092 then 700 else if a = 2091 then 500 else 0),
       l_supply = (\<lambda>_. 5000)\<rparr>,
     rw_proceeds_vault = absent_account 199, rw_fee_vault = absent_account 199,
     rw_buffer_accounts = w_buffer_accounts sample_world, rw_market_stats = absent_account 101\<rparr>"

theorem requested_redemptions_match_open_requests_witness:
  "redemption_wf (run_ops (exec_redemption plain_token_program)
     [CancelRequest sample_env sample_config 6 6 8 sample_onyc 9 (sample_token 1082) 0,
      UpdateRedemptionFee sample_config 7 500] sample_redemption_world)"
proof (rule requested_redemptions_match_open_requests)
  show "redemption_wf sample_redemption_world"
    by (auto simp: redemption_wf_def sample_redemption_world_def sample_redemption_offer_def
        sample_request_def const_defs)
qed

text \<open>
  A cancelled request is closed and exactly what it had left goes from the redemption vault
  to the redeemer's own token account; the requested total falls by the same amount. Only the
  boss, the worker or the redeemer can cancel, and not while the program is halted.
\<close>

theorem cancel_returns_the_unfulfilled_rest:
  assumes "spl_laws spl"
    and "cancel_redemption_request e spl st signer redeemer worker m prog t i w = Ok w'"
  shows "\<exists>r left. rw_requests w i = Some r \<and> rr_fulfilled_amount r + left = rr_amount r \<and>
    rw_requests w' i = None \<and> \<not> s_is_killed st \<and>
    (signer = s_boss st \<or> signer = s_worker st \<or> signer = rr_redeemer r) \<and>
    ro_requested_redemptions (rw_redemption_offer w') + left =
      ro_requested_redemptions (rw_redemption_offer w) \<and>
    (\<forall>a. int (l_bal (rw_ledger w') a) = int (l_bal (rw_ledger w) a)
       + part (a = get_associated_token_address_with_program_id e (rr_redeemer r) (m_key m) prog) left
       - part (a = get_associated_token_address_with_program_id e
           (pda e [Seed ''redemption_offer_vault_authority'']) (m_key m) prog) left)"
proof -
  from assms(2) obtain r where r: "rw_requests w i = Some r" "\<not> s_is_killed st"
    "signer = s_boss st \<or> signer = s_worker st \<or> signer = rr_redeemer r" "redeemer = rr_redeemer r"
    "t_key t = get_associated_token_address_with_program_id e redeemer (m_key m) prog"
    "rr_fulfilled_amount r \<le> rr_amount r"
    "rr_amount r - rr_fulfilled_amount r \<le> ro_requested_redemptions (rw_redemption_offer w)"
    and tok: "transfer_tokens spl m (get_associated_token_address_with_program_id e
         (pda e [Seed ''redemption_offer_vault_authority'']) (m_key m) prog)
       (t_key t) (pda e [Seed ''redemption_offer_vault_authority''])
       (rr_amount r - rr_fulfilled_amount r) (rw_ledger w) = Ok (rw_ledger w')"
    and w': "rw_redemption_offer w' = (rw_redemption_offer w)\<lparr>ro_requested_redemptions :=
       ro_requested_redemptions (rw_redemption_offer w) - (rr_amount r - rr_fulfilled_amount r)\<rparr>"
    "rw_requests w' = (rw_requests w)(i := None)"
    by (rule cancel_redemption_request_Ok)
  show ?thesis
    by (rule exI [of _ r], rule exI [of _ "rr_amount r - rr_fulfilled_amount r"], intro conjI allI)
      (use r w' transfer_tokens_effect(1) [OF assms(1) tok] in simp_all)
qed

lemma sample_cancel:
  "is_ok (cancel_redemption_request sample_env plain_token_program sample_config 6 6 8 sample_onyc 9
     (sample_token 1082) 0 sample_redemption_world)"
  by (simp add: cancel_redemption_request_def sample_redemption_world_def sample_redemption_offer_def
      sample_request_def sample_config_def zero_state_def sample_onyc_def sample_mint_def sample_token_def
      get_or_create_associated_token_account_def validate_associated_token_address_def
      token_account_try_from_def token_eval_simps is_ok_def cong: eval_congs)

theorem cancel_returns_the_unfulfilled_rest_witness:
  "\<exists>w' left. cancel_redemption_request sample_env plain_token_program sample_config 6 6 8 sample_onyc 9
       (sample_token 1082) 0 sample_redemption_world = Ok w' \<and> left + 400 = 1000 \<and>
     int (l_bal (rw_ledger w') 1082) = int left"
proof -
  obtain w' where ok: "cancel_redemption_request sample_env plain_token_program sample_config 6 6 8
      sample_onyc 9 (sample_token 1082) 0 sample_redemption_world = Ok w'"
    using sample_cancel by (auto simp: is_ok_iff)
  have w: "rw_requests sample_redemption_world 0 = Some sample_request" "rr_redeemer sample_request = 6"
    "rr_amount sample_request = 1000" "rr_fulfilled_amount sample_request = 400" "m_key sample_onyc = 22"
    "l_bal (rw_ledger sample_redemption_world) 1082 = 0"
    by (simp_all add: sample_redemption_world_def sample_request_def sample_onyc_def sample_mint_def)
  from cancel_returns_the_unfulfilled_rest [OF plain_token_program_laws ok] obtain left where
    "400 + left = 1000" and bal: "\<forall>a. int (l_bal (rw_ledger w') a) =
      int (l_bal (rw_ledger sample_redemption_world) a) + part (a = 1082) left - part (a = 2092) left"
    by (auto simp: w)
  with ok spec [OF bal, of 1082] show ?thesis by (intro exI [of _ w'] exI [of _ left]) (simp add: w)
qed

text \<open>
  A fulfilment settles part of one open request and nothing else of the queue: a positive
  amount, at most what is left, is added to what was fulfilled and to the executed total and
  taken off the requested total; the request is closed exactly when nothing is left. It needs
  the worker, a running program and an enabled redemption offer.
\<close>

theorem fulfilment_settles_part_of_one_request:
  assumes "fulfill_redemption_request e spl st a i amount w = Ok w'"
  shows "\<exists>r. rw_requests w i = Some r \<and> 0 < amount \<and> rr_fulfilled_amount r + amount \<le> rr_amount r \<and>
    rw_requests w' = (rw_requests w)(i := (if rr_fulfilled_amount r + amount = rr_amount r then None
       else Some (r\<lparr>rr_fulfilled_amount := rr_fulfilled_amount r + amount\<rparr>))) \<and>
    ro_executed_redemptions (rw_redemption_offer w') =
      ro_executed_redemptions (rw_redemption_offer w) + amount \<and>
    ro_requested_redemptions (rw_redemption_offer w') + amount =
      ro_requested_redemptions (rw_redemption_offer w) \<and>
    \<not> s_is_killed st \<and> f_worker a = s_worker st \<and> \<not> ro_is_disabled (rw_redemption_offer w)"
proof -
  from assms obtain r where r: "rw_requests w i = Some r" "0 < amount"
    "rr_fulfilled_amount r + amount \<le> rr_amount r"
    "amount \<le> ro_requested_redemptions (rw_redemption_offer w)"
    "\<not> s_is_killed st" "f_worker a = s_worker st" "\<not> ro_is_disabled (rw_redemption_offer w)"
    and w': "rw_redemption_offer w' = (rw_redemption_offer w)\<lparr>
       ro_executed_redemptions := ro_executed_redemptions (rw_redemption_offer w) + amount,
       ro_requested_redemptions := ro_requested_redemptions (rw_redemption_offer w) - amount\<rparr>"
    and q: "rw_requests w' = (rw_requests w)(i := (if rr_fulfilled_amount r + amount = rr_amount r then None
       else Some (r\<lparr>rr_fulfilled_amount := rr_fulfilled_amount r + amount\<rparr>)))"
    by (rule fulfill_redemption_request_Ok)
  have "ro_executed_redemptions (rw_redemption_offer w') = ro_executed_redemptions (rw_redemption_offer w) + amount"
    and "ro_requested_redemptions (rw_redemption_offer w') + amount =
      ro_requested_redemptions (rw_redemption_offer w)"
    using r(4) by (simp_all add: w')
  with r q show ?thesis by blast
qed

definition sample_fulfill :: fulfill_accounts where
  "sample_fulfill = \<lparr>f_offer = sample_main_offer, f_token_in_mint = sample_mint 22 None 5000,
     f_token_in_program = 9, f_token_out_mint = sample_mint 21 None 0, f_token_out_program = 9,
     f_redeemer = 6, f_worker = 8, f_offer_vault_onyc_account = sample_token 2072,
     f_vault_token_in_account = sample_token 2092, f_vault_token_out_account = sample_token 2091,
     f_user_token_out_account = sample_token 1081, f_offer_proceeds_token_in_account = sample_token 3012,
     f_redemption_fee_token_in_account = sample_token 3012, f_main_offer = sample_main_offer,
     f_excluded_balance = absent_account 102\<rparr>"

lemma sample_fulfill_checks:
  "\<exists>ft. check_fulfill_accounts sample_env sample_config sample_fulfill 0 sample_redemption_world =
     Ok (sample_offer, sample_request, ft, sample_redemption_offer) \<and> ft_vault_in ft = 2092 \<and>
     ft_vault_out ft = 2091 \<and> ft_user_out ft = 1081 \<and> ft_proceeds ft = 3012 \<and> ft_fee ft = 3012"
proof -
  have ro: "sample_pda (redemption_offer_seeds 22 21) = (199, 255)"
    by (simp add: redemption_offer_seeds_def sample_pda_def)
  have vault: "get_or_create_configurable_vault_token_account sample_env kind (absent_account 199)
      (sample_token 3012) 22 9 = Ok (3012, (absent_account 199)\<lparr>a_owner := 50,
        a_data := AccountData (vault_init_value kind 255)\<rparr>)" for kind
    by (simp add: get_or_create_configurable_vault_token_account_def absent_account_def vault_of_kind_def
        load_or_init_pda_account_def store_pda_account_def get_or_create_associated_token_account_def
        validate_associated_token_address_def token_account_try_from_def sample_token_def cong: eval_congs)
  show ?thesis
    by (simp add: check_fulfill_accounts_def load_redemption_offer_def sample_fulfill_def
        sample_redemption_world_def sample_config_def zero_state_def load_pda_account_def
        deserialize_pda_account_def sample_main_offer_def sample_mint_def vault ro ro_require_enabled_def
        ro_is_disabled_def get_associated_token_account_def get_or_create_associated_token_account_def
        validate_associated_token_address_def token_account_try_from_def cong: eval_congs)
      (simp add: sample_token_def sample_request_def sample_redemption_offer_def)
qed

lemma sample_fulfill_ok:
  "is_ok (fulfill_redemption_request sample_env plain_token_program sample_config sample_fulfill 0 100
     sample_redemption_world)"
proof -
  obtain ft where chk: "check_fulfill_accounts sample_env sample_config sample_fulfill 0 sample_redemption_world =
     Ok (sample_offer, sample_request, ft, sample_redemption_offer)"
    and ft: "ft_vault_in ft = 2092" "ft_vault_out ft = 2091" "ft_user_out ft = 1081" "ft_proceeds ft = 3012"
      "ft_fee ft = 3012"
    using sample_fulfill_checks by blast
  let ?rp = "\<lparr>rp_price = 1000267397, rp_token_in_net_amount = 99, rp_token_in_fee_amount = 1,
      rp_token_out_amount = 99\<rparr>"
  have "compute_offer_current_price sample_offer 5000 = Ok 1000267397"
    by (simp add: compute_offer_current_price_def sample_price)
  moreover have "calculate_fees 100 100 = Ok \<lparr>fr_token_in_fee_amount = 1, fr_token_in_net_amount = 99\<rparr>"
    using calculate_fees_total(1) [of 100 100] by (simp add: const_defs int_defs)
  ultimately have rp: "process_redemption_core sample_env sample_offer 100 (sample_mint 22 None 5000)
      (sample_mint 21 None 0) 100 0 = Ok ?rp"
    by (simp add: process_redemption_core_def redemption_fees_def i64_as_u64_def
        sample_mint_def checked_mul_def checked_pow_def as_u64_def const_defs int_defs cong: eval_congs)
  have b: "check_is_initialized sample_env (rw_buffer_accounts sample_redemption_world) = Ok True"
    by (simp add: check_is_initialized_def load_buffer_state_def load_pda_account_def deserialize_pda_account_def
        sample_redemption_world_def sample_world_def)
  have "\<exists>L'. settle_redemption sample_env plain_token_program sample_config sample_fulfill ft ?rp
      sample_redemption_world = Ok (sample_redemption_world\<lparr>rw_ledger := L',
        rw_proceeds_vault := ft_proceeds_vault ft, rw_fee_vault := ft_fee_vault ft\<rparr>)"
    by (simp add: settle_redemption_def b) (simp add: sample_fulfill_def sample_mint_def ft
        sample_redemption_world_def sample_config_def execute_redemption_operations_def token_eval_simps
        Let_def cong: eval_congs)
  then obtain L' where settle: "settle_redemption sample_env plain_token_program sample_config sample_fulfill ft ?rp
      sample_redemption_world = Ok (sample_redemption_world\<lparr>rw_ledger := L',
        rw_proceeds_vault := ft_proceeds_vault ft, rw_fee_vault := ft_fee_vault ft\<rparr>)" by blast
  have "require_enabled sample_offer = Ok ()"
    by (simp add: require_enabled_def is_disabled_def sample_offer_def)
  moreover have "f_token_in_mint sample_fulfill = sample_mint 22 None 5000"
    "f_token_out_mint sample_fulfill = sample_mint 21 None 0" "ro_fee_basis_points sample_redemption_offer = 100"
    "rr_amount sample_request = 1000" "rr_fulfilled_amount sample_request = 400"
    "ro_executed_redemptions sample_redemption_offer = 0" "ro_requested_redemptions sample_redemption_offer = 600"
    by (simp_all add: sample_fulfill_def sample_redemption_offer_def sample_request_def)
  ultimately show ?thesis
    by (simp add: fulfill_redemption_request_def chk execute_fulfill_redemption_request_def rp settle
        record_fulfillment_def checked_add_def checked_sub_def is_ok_def int_defs
        del: One_nat_def cong: eval_congs)
qed

theorem fulfilment_settles_part_of_one_request_witness:
  "\<exists>w'. fulfill_redemption_request sample_env plain_token_program sample_config sample_fulfill 0 100
       sample_redemption_world = Ok w' \<and>
     rw_requests w' 0 = Some (sample_request\<lparr>rr_fulfilled_amount := 500\<rparr>) \<and>
     ro_executed_redemptions (rw_redemption_offer w') = 100"
proof -
  obtain w' where ok: "fulfill_redemption_request sample_env plain_token_program sample_config sample_fulfill
      0 100 sample_redemption_world = Ok w'"
    using sample_fulfill_ok by (auto simp: is_ok_iff)
  have w: "rw_requests sample_redemption_world 0 = Some sample_request"
    "rr_amount sample_request = 1000" "rr_fulfilled_amount sample_request = 400"
    "ro_executed_redemptions (rw_redemption_offer sample_redemption_world) = 0"
    by (simp_all add: sample_redemption_world_def sample_redemption_offer_def sample_request_def)
  from fulfilment_settles_part_of_one_request [OF ok] ok show ?thesis by (auto simp: w)
qed

end
