(* ===== verification/Approval.thy ===== *)
theory Approval
  imports Accounts Offer_Pricing
begin

text \<open>
  Approval messages (\<open>utils/ed25519_parser.rs\<close>, \<open>utils/approver/\<close>, \<open>verify_offer_approval\<close>): an
  offer may require that one of two approvers has signed a message naming the program, the user
  and an expiry. The signature itself is verified by the Ed25519 program in the instruction
  before; the code parses that instruction's data and compares. What the check means for the
  instructions that take an offer is shown in \<open>Offer_Exec\<close>.

  Bytes are natural numbers. The instructions sysvar, the deserialization of a message and the
  byte form of a public key belong to libraries and are parameters.
\<close>

section \<open>The Ed25519 instruction\<close>

record parsed_ed25519 =
  pe_sig_count :: u8
  pe_pubkey :: "u8 list"
  pe_message :: "u8 list"

definition from_le_bytes_u16 :: "u8 list \<Rightarrow> nat \<Rightarrow> u16" where
  "from_le_bytes_u16 data i = data ! i + 256 * data ! (i + 1)"

definition slice :: "u8 list \<Rightarrow> nat \<Rightarrow> nat \<Rightarrow> u8 list" where
  "slice data from to = take (to - from) (drop from data)"

text \<open>Every index below is inside the first sixteen bytes, which the first guard ensures.\<close>

definition parse_ed25519_ix :: "u8 list \<Rightarrow> parsed_ed25519 option" where
  "parse_ed25519_ix data =
     (if length data < 16 then None
      else
        let sig_count = data ! 0 in
        if sig_count \<noteq> 1 then None
        else
          let sig_ix_index = from_le_bytes_u16 data 4;
              pubkey_ix_index = from_le_bytes_u16 data 8;
              msg_ix_index = from_le_bytes_u16 data 14
          in
          if sig_ix_index \<noteq> u16_max \<or> pubkey_ix_index \<noteq> u16_max \<or> msg_ix_index \<noteq> u16_max then None
          else
            let sig_offset = from_le_bytes_u16 data 2;
                pubkey_offset = from_le_bytes_u16 data 6;
                msg_offset = from_le_bytes_u16 data 10;
                msg_size = from_le_bytes_u16 data 12
            in
            if sig_offset + 64 > length data then None
            else if pubkey_offset + 32 > length data then None
            else if msg_offset + msg_size > length data then None
            else Some \<lparr>pe_sig_count = sig_count,
              pe_pubkey = slice data pubkey_offset (pubkey_offset + 32),
              pe_message = slice data msg_offset (msg_offset + msg_size)\<rparr>)"

section \<open>Verification\<close>

record approval_message =
  am_program_id :: pubkey
  am_user_pubkey :: pubkey
  am_expiry_unix :: u64

record instruction =
  ix_program_id :: pubkey
  ix_accounts :: "pubkey list"
  ix_data :: "u8 list"

text \<open>The sysvar's two queries, and the libraries the check relies on.\<close>

record sysvar =
  load_current_index_checked :: "u16 option"
  load_instruction_at_checked :: "nat \<Rightarrow> instruction option"
  ed25519_program_id :: pubkey
  to_bytes :: "pubkey \<Rightarrow> u8 list"
  try_from_slice :: "u8 list \<Rightarrow> approval_message option"

definition verify_approval_message_generic ::
  "env \<Rightarrow> pubkey \<Rightarrow> pubkey \<Rightarrow> pubkey \<Rightarrow> sysvar \<Rightarrow> approval_message \<Rightarrow> unit result" where
  "verify_approval_message_generic e user_pubkey approver1 approver2 sv msg =
     (let now = i64_as_u64 (unix_timestamp e) in
      require (now \<le> am_expiry_unix msg) Expired (
      require (am_program_id msg = program_id e) WrongProgram (
      require (am_user_pubkey msg = user_pubkey) WrongUser (
      and_then (ok_or (load_current_index_checked sv) MissingEd25519Ix) (\<lambda>cur_idx.
      require (cur_idx > 0) MissingEd25519Ix (
      and_then (ok_or (load_instruction_at_checked sv (cur_idx - 1)) MissingEd25519Ix) (\<lambda>ix.
      require (ix_program_id ix = ed25519_program_id sv) WrongIxProgram (
      require (ix_accounts ix = []) BadEd25519Accounts (
      and_then (ok_or (parse_ed25519_ix (ix_data ix)) MalformedEd25519Ix) (\<lambda>parsed.
      require (pe_sig_count parsed = 1) MultipleSigs (
      let is_approver1 = (approver1 \<noteq> default_pubkey \<and> pe_pubkey parsed = to_bytes sv approver1);
          is_approver2 = (approver2 \<noteq> default_pubkey \<and> pe_pubkey parsed = to_bytes sv approver2)
      in
      require (is_approver1 \<or> is_approver2) WrongAuthority (
      and_then (ok_or (try_from_slice sv (pe_message parsed)) MsgDeserialize) (\<lambda>signed_msg.
      require (am_program_id signed_msg = program_id e) WrongProgram (
      require (am_user_pubkey signed_msg = user_pubkey) WrongUser (
      require (am_expiry_unix signed_msg \<ge> now) Expired (
      require (signed_msg = msg) MsgMismatch (
      Ok ())))))))))))))))))"

definition verify_offer_approval ::
  "env \<Rightarrow> offer \<Rightarrow> approval_message option \<Rightarrow> pubkey \<Rightarrow> pubkey \<Rightarrow> pubkey \<Rightarrow> sysvar \<Rightarrow> unit result" where
  "verify_offer_approval e offer approval_message user_pubkey approver1 approver2 sv =
     (if needs_approval offer then
        (case approval_message of
           Some msg \<Rightarrow> verify_approval_message_generic e user_pubkey approver1 approver2 sv msg
         | None \<Rightarrow> Err ApprovalRequired)
      else Ok ())"

section \<open>Properties\<close>

text \<open>
  A client builds the instruction data as a header, the public key, the signature and the
  message, in that order, all inside the instruction itself.
\<close>

definition le16 :: "u16 \<Rightarrow> u8 list" where
  "le16 n = [n mod 256, n div 256]"

definition build_ed25519_data :: "u8 list \<Rightarrow> u8 list \<Rightarrow> u8 list \<Rightarrow> u8 list" where
  "build_ed25519_data pubkey signature message =
     [1, 0] @ le16 48 @ le16 u16_max @ le16 16 @ le16 u16_max @ le16 112 @ le16 (length message) @
     le16 u16_max @ pubkey @ signature @ message"

lemma slice_middle: "length a = n \<Longrightarrow> length b = k \<Longrightarrow> slice (a @ b @ c) n (n + k) = b"
  by (simp add: slice_def)

lemma parse_build:
  assumes pk: "length pubkey = 32" and sg: "length signature = 64" and msg: "length message \<le> u16_max"
  shows "parse_ed25519_ix (build_ed25519_data pubkey signature message) =
    Some \<lparr>pe_sig_count = 1, pe_pubkey = pubkey, pe_message = message\<rparr>"
proof -
  let ?h = "[1, 0, 48, 0, 255, 255, 16, 0, 255, 255, 112, 0, length message mod 256,
    length message div 256, 255, 255]"
  have data: "build_ed25519_data pubkey signature message = ?h @ pubkey @ signature @ message"
    by (simp add: build_ed25519_data_def le16_def int_defs)
  have pkb: "slice (?h @ pubkey @ signature @ message) 16 (16 + 32) = pubkey"
    by (rule slice_middle) (simp_all add: pk)
  have "slice ((?h @ pubkey @ signature) @ message @ []) 112 (112 + length message) = message"
    by (rule slice_middle) (simp_all add: pk sg)
  then have msgb: "slice (?h @ pubkey @ signature @ message) 112 (112 + length message) = message"
    by simp
  have idx: "from_le_bytes_u16 (?h @ pubkey @ signature @ message) 2 = 48"
    "from_le_bytes_u16 (?h @ pubkey @ signature @ message) 4 = u16_max"
    "from_le_bytes_u16 (?h @ pubkey @ signature @ message) 6 = 16"
    "from_le_bytes_u16 (?h @ pubkey @ signature @ message) 8 = u16_max"
    "from_le_bytes_u16 (?h @ pubkey @ signature @ message) 10 = 112"
    "from_le_bytes_u16 (?h @ pubkey @ signature @ message) 12 = length message"
    "from_le_bytes_u16 (?h @ pubkey @ signature @ message) 14 = u16_max"
    by (simp_all add: from_le_bytes_u16_def int_defs)
  have len: "length (?h @ pubkey @ signature @ message) = 112 + length message"
    "(?h @ pubkey @ signature @ message) ! 0 = 1"
    by (simp_all add: pk sg)
  show ?thesis
    unfolding data parse_ed25519_ix_def Let_def idx len using pkb msgb by simp
qed

text \<open>
  C35: Round trip: the parser recovers the public key and the message from the instruction data
  a client builds, for every 32-byte key, 64-byte signature and message of up to 65535 bytes.
\<close>

theorem parse_recovers_built_instruction:
  assumes pk: "length pubkey = 32" and sg: "length signature = 64" and msg: "length message \<le> u16_max"
  shows "parse_ed25519_ix (build_ed25519_data pubkey signature message) =
    Some \<lparr>pe_sig_count = 1, pe_pubkey = pubkey, pe_message = message\<rparr>"
  using assms by (rule parse_build)

theorem parse_recovers_built_instruction_witness:
  "parse_ed25519_ix (build_ed25519_data (replicate 32 7) (replicate 64 9) [1, 2, 3]) =
     Some \<lparr>pe_sig_count = 1, pe_pubkey = replicate 32 7, pe_message = [1, 2, 3]\<rparr>"
  by (rule parse_recovers_built_instruction) (simp_all add: int_defs)

lemma parse_Some_single: "parse_ed25519_ix data = Some p \<Longrightarrow> pe_sig_count p = 1"
  by (auto simp: parse_ed25519_ix_def Let_def split: if_splits)

text \<open>
  The check of an offer that requires approval passes only with a message for this program and
  this user that has not expired, carried by the instruction right before, which is an Ed25519
  verification without accounts, of exactly one signature by an approver that is set, over
  exactly that message.
\<close>

lemma verified_approval_is_fresh_signature:
  assumes ok: "verify_offer_approval e offer approval user approver1 approver2 sv = Ok ()"
    and need: "needs_approval offer"
  shows "\<exists>msg i ix parsed. approval = Some msg \<and>
    am_program_id msg = program_id e \<and> am_user_pubkey msg = user \<and>
    i64_as_u64 (unix_timestamp e) \<le> am_expiry_unix msg \<and>
    load_current_index_checked sv = Some (i + 1) \<and> load_instruction_at_checked sv i = Some ix \<and>
    ix_program_id ix = ed25519_program_id sv \<and> ix_accounts ix = [] \<and>
    parse_ed25519_ix (ix_data ix) = Some parsed \<and> pe_sig_count parsed = 1 \<and>
    (\<exists>k \<in> {approver1, approver2}. k \<noteq> default_pubkey \<and> pe_pubkey parsed = to_bytes sv k) \<and>
    try_from_slice sv (pe_message parsed) = Some msg"
proof -
  from ok need obtain msg where msg: "approval = Some msg"
    and v: "verify_approval_message_generic e user approver1 approver2 sv msg = Ok ()"
    by (auto simp: verify_offer_approval_def split: option.splits)
  from v obtain cur ix parsed where c:
    "i64_as_u64 (unix_timestamp e) \<le> am_expiry_unix msg" "am_program_id msg = program_id e"
    "am_user_pubkey msg = user" "load_current_index_checked sv = Some cur" "0 < cur"
    "load_instruction_at_checked sv (cur - 1) = Some ix" "ix_program_id ix = ed25519_program_id sv"
    "ix_accounts ix = []" "parse_ed25519_ix (ix_data ix) = Some parsed"
    "approver1 \<noteq> default_pubkey \<and> pe_pubkey parsed = to_bytes sv approver1 \<or>
     approver2 \<noteq> default_pubkey \<and> pe_pubkey parsed = to_bytes sv approver2"
    "try_from_slice sv (pe_message parsed) = Some msg"
    unfolding verify_approval_message_generic_def Let_def by auto
  then show ?thesis
    using msg parse_Some_single [OF c(9)]
    by (intro exI [of _ msg] exI [of _ "cur - 1"] exI [of _ ix] exI [of _ parsed]) auto
qed

definition sample_message :: approval_message where
  "sample_message = \<lparr>am_program_id = 50, am_user_pubkey = 6, am_expiry_unix = 6000\<rparr>"

definition sample_sysvar :: sysvar where
  "sample_sysvar = \<lparr>load_current_index_checked = Some 3,
     load_instruction_at_checked = (\<lambda>_. Some \<lparr>ix_program_id = 70, ix_accounts = [],
       ix_data = build_ed25519_data (replicate 32 7) (replicate 64 9) [2, 3]\<rparr>),
     ed25519_program_id = 70, to_bytes = (\<lambda>k. replicate 32 k),
     try_from_slice = (\<lambda>_. Some sample_message)\<rparr>"

lemma sample_approval_ok:
  "verify_offer_approval sample_env (set_approval True sample_offer) (Some sample_message) 6 7 0 sample_sysvar = Ok ()"
proof -
  have "parse_ed25519_ix (build_ed25519_data (replicate 32 7) (replicate 64 9) [2, 3]) =
      Some \<lparr>pe_sig_count = 1, pe_pubkey = replicate 32 7, pe_message = [2, 3]\<rparr>"
    by (rule parse_build) (simp_all add: int_defs)
  then show ?thesis
    by (simp add: verify_offer_approval_def needs_approval_def set_approval_def
        verify_approval_message_generic_def sample_sysvar_def sample_message_def i64_as_u64_def
        default_pubkey_def cong: eval_congs)
qed

end
