(* ===== verification/Offer_Exec.thy ===== *)
theory Offer_Exec
  imports Redemption Approval
begin

text \<open>
  Executing an offer (the execution part of \<open>offer/offer_utils.rs\<close>, \<open>offer/take_offer.rs\<close>,
  \<open>offer/take_offer_permissionless.rs\<close>): the conversion of the payment at the current price,
  the refill of the redemption vault, and the four instructions that take an offer.

  Every instruction first checks its accounts in the order of its account struct; a token
  account that the struct constrains as an associated account is checked by
  \<open>get_associated_token_account\<close>, one that it creates if needed by
  \<open>get_or_create_associated_token_account\<close>. Events and log messages are left out.
\<close>

section \<open>Amounts\<close>

record offer_process_result =
  op_current_price :: u64
  op_token_in_net_amount :: u64
  op_token_in_fee_amount :: u64
  op_token_out_amount :: u64

definition process_offer_core_at ::
  "env \<Rightarrow> offer \<Rightarrow> u64 \<Rightarrow> pubkey \<Rightarrow> u8 \<Rightarrow> pubkey \<Rightarrow> u8 \<Rightarrow> u64 \<Rightarrow> u16 \<Rightarrow> offer_process_result result" where
  "process_offer_core_at e offer token_in_amount token_in_mint_key token_in_decimals
     token_out_mint_key token_out_decimals current_time fee_basis_points =
     require (token_in_amount > 0) InvalidAmount (
     and_then (require_mints offer token_in_mint_key token_out_mint_key) (\<lambda>_.
     and_then (find_active_vector_at offer current_time) (\<lambda>active_vector.
     and_then (calculate_current_step_price (unix_timestamp e) (v_apr active_vector)
         (v_base_price active_vector) (v_base_time active_vector)
         (v_price_fix_duration active_vector)) (\<lambda>current_price.
     and_then (calculate_fees token_in_amount fee_basis_points) (\<lambda>fee_amounts.
     and_then (calculate_token_out_amount (fr_token_in_net_amount fee_amounts) current_price
         token_in_decimals token_out_decimals) (\<lambda>token_out_amount.
     Ok \<lparr>op_current_price = current_price,
         op_token_in_net_amount = fr_token_in_net_amount fee_amounts,
         op_token_in_fee_amount = fr_token_in_fee_amount fee_amounts,
         op_token_out_amount = token_out_amount\<rparr>))))))"

definition process_offer_core ::
  "env \<Rightarrow> offer \<Rightarrow> u64 \<Rightarrow> mint \<Rightarrow> mint \<Rightarrow> u16 \<Rightarrow> offer_process_result result" where
  "process_offer_core e offer token_in_amount token_in_mint token_out_mint fee_basis_points =
     process_offer_core_at e offer token_in_amount (m_key token_in_mint) (m_decimals token_in_mint)
       (m_key token_out_mint) (m_decimals token_out_mint) (i64_as_u64 (unix_timestamp e))
       fee_basis_points"

definition is_onyc_token_out_mint :: "state \<Rightarrow> mint \<Rightarrow> bool" where
  "is_onyc_token_out_mint st token_out_mint \<longleftrightarrow> m_key token_out_mint = s_onyc_mint st"

definition should_accrue_onyc_mint :: "state \<Rightarrow> mint \<Rightarrow> bool \<Rightarrow> pubkey \<Rightarrow> bool" where
  "should_accrue_onyc_mint st token_out_mint buffer_is_initialized mint_authority \<longleftrightarrow>
     is_onyc_token_out_mint st token_out_mint \<and> buffer_is_initialized \<and>
     program_controls_mint token_out_mint mint_authority"

section \<open>Refill of the redemption vault\<close>

definition load_redemption_offer_vault_target_bps_for_offer ::
  "env \<Rightarrow> redemption_offer account \<Rightarrow> pubkey \<Rightarrow> pubkey \<Rightarrow> pubkey \<Rightarrow> u16 option result" where
  "load_redemption_offer_vault_target_bps_for_offer e redemption_offer_account offer_key
     token_in_mint token_out_mint =
     and_then (load_optional_checked_redemption_offer e redemption_offer_account offer_key
         token_out_mint token_in_mint) (\<lambda>loaded.
     case loaded of
       None \<Rightarrow> Ok None
     | Some redemption_offer \<Rightarrow>
         if ro_is_disabled redemption_offer then Ok None
         else Ok (Some (ro_vault_target_bps redemption_offer)))"

text \<open>
  Unreadable statistics count as no target. \<open>10_u128.pow\<close> is unchecked: it panics from 39
  decimals on.
\<close>

definition redemption_vault_target :: "env \<Rightarrow> market_stats account \<Rightarrow> u16 \<Rightarrow> mint \<Rightarrow> mint \<Rightarrow> u128 result"
  where
  "redemption_vault_target e market_stats_account vault_target_bps token_in_mint token_out_mint =
     (case read_market_stats_account e market_stats_account of
        Err _ \<Rightarrow> Ok 0
      | Ok stats \<Rightarrow>
          (let target_in_onyc_decimals =
                 saturating_mul u128_max (ms_tvl stats) vault_target_bps div MAX_BASIS_POINTS
           in
           and_then (ok_or (checked_pow u128_max 10 (m_decimals token_in_mint)) Panic) (\<lambda>in_scale.
           and_then (ok_or (checked_pow u128_max 10 (m_decimals token_out_mint)) Panic) (\<lambda>out_scale.
           Ok (saturating_mul u128_max target_in_onyc_decimals in_scale div out_scale)))))"

definition calculate_redemption_vault_refill_amount ::
  "env \<Rightarrow> market_stats account \<Rightarrow> u16 \<Rightarrow> mint \<Rightarrow> mint \<Rightarrow> u64 \<Rightarrow> u64 \<Rightarrow> u64 result" where
  "calculate_redemption_vault_refill_amount e market_stats_account vault_target_bps token_in_mint
     token_out_mint current_redemption_vault_balance token_in_net_amount =
     (if vault_target_bps = 0 then Ok 0
      else
        and_then (redemption_vault_target e market_stats_account vault_target_bps token_in_mint
            token_out_mint) (\<lambda>target_liquidity.
        if target_liquidity > current_redemption_vault_balance
        then Ok (as_u64 (min (target_liquidity - current_redemption_vault_balance) token_in_net_amount))
        else Ok 0))"

section \<open>Accounts\<close>

text \<open>What the four instructions have in common, and what each of them adds.\<close>

record take_accounts =
  k_offer :: "offer account"
  k_vault_authority :: pubkey
  k_vault_token_in_account :: token_info
  k_vault_token_out_account :: token_info
  k_token_in_mint :: mint
  k_token_in_program :: pubkey
  k_token_out_mint :: mint
  k_token_out_program :: pubkey
  k_user_token_in_account :: token_info
  k_user_token_out_account :: token_info
  k_mint_authority :: pubkey
  k_user :: pubkey

record take_offer_accounts = take_accounts +
  k_boss :: pubkey
  k_boss_token_in_account :: token_info
  k_instructions_sysvar :: pubkey

record take_offer_v2_accounts = take_accounts +
  k2_instructions_sysvar :: pubkey
  k2_redemption_offer :: "redemption_offer account"
  k2_redemption_vault_token_in_account :: token_info
  k2_offer_proceeds_token_in_account :: token_info
  k2_offer_fee_token_in_account :: token_info
  k2_excluded_balance :: "circulating_supply_excluded_balance account"
  k2_main_offer :: "offer account"

record permissionless_accounts = take_accounts +
  kp_permissionless_authority :: pubkey
  kp_permissionless_token_in_account :: token_info
  kp_permissionless_token_out_account :: token_info

record take_offer_permissionless_accounts = permissionless_accounts +
  kp_boss :: pubkey
  kp_boss_token_in_account :: token_info
  kp_instructions_sysvar :: pubkey

record take_offer_permissionless_v2_accounts = permissionless_accounts +
  kp2_redemption_offer :: "redemption_offer account"
  kp2_redemption_vault_token_in_account :: token_info
  kp2_offer_proceeds_token_in_account :: token_info
  kp2_permissionless_offer_fee_token_in_account :: token_info
  kp2_excluded_balance :: "circulating_supply_excluded_balance account"
  kp2_main_offer :: "offer account"

text \<open>The accounts the instructions change.\<close>

record offer_world =
  ow_ledger :: ledger
  ow_proceeds_vault :: "configurable_vault account"
  ow_fee_vault :: "configurable_vault account"
  ow_buffer_accounts :: buffer_accrual_accounts
  ow_market_stats :: "market_stats account"

definition offer_seeds :: "pubkey \<Rightarrow> pubkey \<Rightarrow> seed list" where
  "offer_seeds token_in_mint token_out_mint =
     [Seed ''offer'', KeySeed token_in_mint, KeySeed token_out_mint]"

text \<open>The constraints of the account structs; only the first instruction names the boss.\<close>

definition check_take_offer_accounts ::
  "env \<Rightarrow> state \<Rightarrow> pubkey option \<Rightarrow> 'a take_accounts_scheme \<Rightarrow> offer result" where
  "check_take_offer_accounts e st boss a =
     (let tin = m_key (k_token_in_mint a); tout = m_key (k_token_out_mint a) in
      require (a_key (k_offer a) = pda e (offer_seeds tin tout)) AnchorConstraint (
      and_then (load_pda_account (k_offer a) (program_id e) AnchorConstraint AnchorConstraint) (\<lambda>offer.
      require (case boss of None \<Rightarrow> True | Some boss \<Rightarrow> boss = s_boss st) InvalidBoss (
      require (\<not> s_is_killed st) KillSwitchActivated (
      and_then (get_associated_token_account e (k_vault_token_in_account a) (k_vault_authority a) tin
          (k_token_in_program a) AnchorConstraint) (\<lambda>_.
      and_then (get_associated_token_account e (k_vault_token_out_account a) (k_vault_authority a)
          tout (k_token_out_program a) AnchorConstraint) (\<lambda>_.
      and_then (require_mints offer tin tout) (\<lambda>_.
      and_then (get_associated_token_account e (k_user_token_in_account a) (k_user a) tin
          (k_token_in_program a) AnchorConstraint) (\<lambda>_.
      Ok offer)))))))))"

definition validate_take_offer_authorities :: "env \<Rightarrow> pubkey \<Rightarrow> pubkey \<Rightarrow> pubkey \<Rightarrow> (u8 \<times> u8) result"
  where
  "validate_take_offer_authorities e vault_authority mint_authority instructions_sysvar =
     (let (expected_vault_authority, vault_authority_bump) =
            find_program_address e [Seed ''offer_vault_authority''];
          (expected_mint_authority, mint_authority_bump) =
            find_program_address e [Seed ''mint_authority'']
      in
      require (expected_vault_authority = vault_authority) InvalidVaultAuthority (
      require (expected_mint_authority = mint_authority) InvalidMintAuthority (
      require (instructions_sysvar_id e = instructions_sysvar) InvalidInstructionsSysvar (
      Ok (vault_authority_bump, mint_authority_bump)))))"

text \<open>The order that the execution of an offer hands to the token operations.\<close>

definition offer_order ::
  "state \<Rightarrow> 'a take_accounts_scheme \<Rightarrow> offer_process_result \<Rightarrow> mint \<Rightarrow> pubkey \<Rightarrow> pubkey \<Rightarrow> pubkey \<Rightarrow>
     pubkey option \<Rightarrow> u64 \<Rightarrow> pubkey \<Rightarrow> pubkey \<Rightarrow> exec_token_ops_params" where
  "offer_order st a r token_out_mint authority source destination refill_destination refill_amount
     fee_destination token_out_destination = \<lparr>
     p_token_in_mint = k_token_in_mint a,
     p_token_in_net_amount = op_token_in_net_amount r,
     p_token_in_fee_amount = op_token_in_fee_amount r,
     p_token_in_authority = authority,
     p_token_in_source_account = source,
     p_token_in_destination_account = destination,
     p_token_in_refill_destination_account = refill_destination,
     p_token_in_refill_amount = refill_amount,
     p_token_in_fee_destination_account = fee_destination,
     p_token_in_burn_account = t_key (k_vault_token_in_account a),
     p_token_in_burn_authority = k_vault_authority a,
     p_token_out_mint = token_out_mint,
     p_token_out_amount = op_token_out_amount r,
     p_token_out_authority = k_vault_authority a,
     p_token_out_source_account = t_key (k_vault_token_out_account a),
     p_token_out_destination_account = token_out_destination,
     p_mint_authority_pda = k_mint_authority a,
     p_token_out_max_supply = s_max_supply st,
     p_token_out_max_mint_amount = s_max_mint_amount st\<rparr>"

section \<open>Taking an offer\<close>

definition take_offer ::
  "env \<Rightarrow> spl_token \<Rightarrow> sysvar \<Rightarrow> state \<Rightarrow> take_offer_accounts \<Rightarrow> u64 \<Rightarrow> approval_message option \<Rightarrow>
     ledger \<Rightarrow> ledger result" where
  "take_offer e spl sv st a token_in_amount approval L =
     and_then (check_take_offer_accounts e st (Some (k_boss a)) a) (\<lambda>offer.
     and_then (get_or_create_associated_token_account e (k_user_token_out_account a) (k_user a)
         (m_key (k_token_out_mint a)) (k_token_out_program a) AnchorConstraint) (\<lambda>user_out.
     and_then (get_associated_token_account e (k_boss_token_in_account a) (k_boss a)
         (m_key (k_token_in_mint a)) (k_token_in_program a) AnchorConstraint) (\<lambda>boss_in.
     and_then (validate_take_offer_authorities e (k_vault_authority a) (k_mint_authority a)
         (k_instructions_sysvar a)) (\<lambda>_.
     and_then (require_enabled offer) (\<lambda>_.
     and_then (verify_offer_approval e offer approval (k_user a) (s_approver1 st) (s_approver2 st) sv)
       (\<lambda>_.
     and_then (process_offer_core e offer token_in_amount (k_token_in_mint a) (k_token_out_mint a)
         (o_fee_basis_points offer)) (\<lambda>r.
     execute_token_operations spl
       (offer_order st a r (k_token_out_mint a) (k_user a) (t_key (k_user_token_in_account a))
          boss_in None 0 boss_in user_out) L)))))))"

section \<open>Taking an offer with BUFFER accrual\<close>

text \<open>The pieces that the second version and the permissionless execution share.\<close>

definition redemption_refill ::
  "env \<Rightarrow> 'a take_accounts_scheme \<Rightarrow> token_info \<Rightarrow> market_stats account option \<Rightarrow> u16 \<Rightarrow> u64 \<Rightarrow>
     ledger \<Rightarrow> (pubkey option \<times> u64) result" where
  "redemption_refill e a redemption_vault_token_in_account market_stats_account target_bps
     token_in_net_amount L =
     (if target_bps > 0 \<and> \<not> program_controls_mint (k_token_in_mint a) (k_mint_authority a) then
        and_then (get_or_create_associated_token_account e redemption_vault_token_in_account
            (pda e [Seed ''redemption_offer_vault_authority'']) (m_key (k_token_in_mint a))
            (k_token_in_program a) InvalidVaultTokenInAccount) (\<lambda>account.
        and_then (case market_stats_account of
            None \<Rightarrow> Ok 0
          | Some market_stats_account \<Rightarrow>
              calculate_redemption_vault_refill_amount e market_stats_account target_bps
                (k_token_in_mint a) (k_token_out_mint a) (l_bal L account) token_in_net_amount)
          (\<lambda>refill_amount.
        Ok (Some account, refill_amount)))
      else Ok (None, 0))"

definition accrue_before_mint ::
  "env \<Rightarrow> spl_token \<Rightarrow> state \<Rightarrow> 'a take_accounts_scheme \<Rightarrow> bool \<Rightarrow> offer option \<Rightarrow>
     buffer_accrual_accounts \<Rightarrow> ledger \<Rightarrow>
     (buffer_accrual_result option \<times> buffer_accrual_accounts \<times> ledger) result" where
  "accrue_before_mint e spl st a should_accrue main_offer ba L =
     (if should_accrue then
        and_then (ok_or main_offer InvalidMainOffer) (\<lambda>canonical_offer.
        and_then (accrue_buffer_from_accounts e spl st ba canonical_offer (k_token_out_mint a)
            (k_mint_authority a) (k_token_out_program a) L) (\<lambda>(accrual, ba, L).
        Ok (Some accrual, ba, L)))
      else Ok (None, ba, L))"

definition store_post_offer_supply ::
  "env \<Rightarrow> error \<Rightarrow> u64 \<Rightarrow> buffer_accrual_result option \<Rightarrow> buffer_accrual_accounts \<Rightarrow>
     buffer_accrual_accounts result" where
  "store_post_offer_supply e overflow token_out_amount accrual ba =
     (case accrual of
        None \<Rightarrow> Ok ba
      | Some accrual \<Rightarrow>
          and_then (ok_or (checked_add u64_max (ar_post_accrual_supply accrual) token_out_amount)
              overflow) (\<lambda>post_offer_supply.
          store_buffer_post_supply e ba post_offer_supply (ar_timestamp accrual)))"

definition refresh_after_offer ::
  "env \<Rightarrow> offer option \<Rightarrow> mint \<Rightarrow> circulating_supply_excluded_balance account \<Rightarrow>
     market_stats account \<Rightarrow> ledger \<Rightarrow> market_stats account result" where
  "refresh_after_offer e main_offer token_out_mint excluded_balance market_stats L =
     and_then (ok_or main_offer InvalidMainOffer) (\<lambda>main_offer.
     require (pda e [Seed ''market_stats''] = a_key market_stats) InvalidMarketStatsPda (
     require (a_writable market_stats) MarketStatsNotWritable (
     refresh_market_stats_pda e main_offer (reload L token_out_mint) excluded_balance market_stats)))"

text \<open>The checks before the token accounts are prepared, in the order of the handler.\<close>

definition prepare_take_offer_v2 ::
  "env \<Rightarrow> sysvar \<Rightarrow> state \<Rightarrow> take_offer_v2_accounts \<Rightarrow> u64 \<Rightarrow> approval_message option \<Rightarrow>
     buffer_accrual_accounts \<Rightarrow> (offer_process_result \<times> bool \<times> offer option \<times> u16) result" where
  "prepare_take_offer_v2 e sv st a token_in_amount approval ba =
     and_then (check_take_offer_accounts e st None a) (\<lambda>offer.
     and_then (validate_take_offer_authorities e (k_vault_authority a) (k_mint_authority a)
         (k2_instructions_sysvar a)) (\<lambda>_.
     and_then (require_enabled offer) (\<lambda>_.
     and_then (check_is_initialized e ba) (\<lambda>buffer_is_initialized.
     and_then (if is_onyc_token_out_mint st (k_token_out_mint a)
         then and_then (load_main_offer e (k2_main_offer a) st) (\<lambda>main_offer. Ok (Some main_offer))
         else Ok None) (\<lambda>main_offer.
     and_then (verify_offer_approval e offer approval (k_user a) (s_approver1 st) (s_approver2 st) sv)
       (\<lambda>_.
     and_then (process_offer_core e offer token_in_amount (k_token_in_mint a) (k_token_out_mint a)
         (o_fee_basis_points offer)) (\<lambda>r.
     and_then (load_redemption_offer_vault_target_bps_for_offer e (k2_redemption_offer a)
         (a_key (k_offer a)) (m_key (k_token_in_mint a)) (m_key (k_token_out_mint a))) (\<lambda>target.
     Ok (r, should_accrue_onyc_mint st (k_token_out_mint a) buffer_is_initialized (k_mint_authority a),
         main_offer, (case target of None \<Rightarrow> 0 | Some bps \<Rightarrow> bps))))))))))"

text \<open>The rest of the handler: accrue, exchange, store the supply after it, refresh.\<close>

definition settle_take_offer_v2 ::
  "env \<Rightarrow> spl_token \<Rightarrow> state \<Rightarrow> take_offer_v2_accounts \<Rightarrow> offer_process_result \<Rightarrow> bool \<Rightarrow>
     offer option \<Rightarrow> pubkey \<Rightarrow> pubkey \<Rightarrow> pubkey option \<Rightarrow> u64 \<Rightarrow> pubkey \<Rightarrow> offer_world \<Rightarrow> offer_world result" where
  "settle_take_offer_v2 e spl st a r should_accrue main_offer proceeds fee refill_destination
     refill_amount user_out w =
     and_then (accrue_before_mint e spl st a should_accrue main_offer (ow_buffer_accounts w)
         (ow_ledger w)) (\<lambda>(accrual, ba, L).
     let token_out_mint = (if accrual \<noteq> None then reload L (k_token_out_mint a)
           else k_token_out_mint a)
     in
     and_then (execute_token_operations spl
         (offer_order st a r token_out_mint (k_user a) (t_key (k_user_token_in_account a)) proceeds
            refill_destination refill_amount fee user_out) L) (\<lambda>L.
     and_then (store_post_offer_supply e MathOverflow (op_token_out_amount r) accrual ba) (\<lambda>ba.
     and_then (if is_onyc_token_out_mint st (k_token_out_mint a)
         then refresh_after_offer e main_offer (k_token_out_mint a) (k2_excluded_balance a)
           (ow_market_stats w) L
         else Ok (ow_market_stats w)) (\<lambda>ms.
     Ok (w\<lparr>ow_ledger := L, ow_buffer_accounts := ba, ow_market_stats := ms\<rparr>)))))"

definition execute_take_offer_v2 ::
  "env \<Rightarrow> spl_token \<Rightarrow> sysvar \<Rightarrow> state \<Rightarrow> take_offer_v2_accounts \<Rightarrow> u64 \<Rightarrow> approval_message option \<Rightarrow>
     offer_world \<Rightarrow> offer_world result" where
  "execute_take_offer_v2 e spl sv st a token_in_amount approval w =
     and_then (prepare_take_offer_v2 e sv st a token_in_amount approval (ow_buffer_accounts w))
       (\<lambda>(r, should_accrue, main_offer, target_bps).
     and_then (get_or_create_configurable_vault_token_account_pair e
         OfferProceeds (ow_proceeds_vault w) (k2_offer_proceeds_token_in_account a)
         OfferFee (ow_fee_vault w) (k2_offer_fee_token_in_account a)
         (m_key (k_token_in_mint a)) (k_token_in_program a))
       (\<lambda>((proceeds, proceeds_vault), (fee, fee_vault)).
     and_then (redemption_refill e a (k2_redemption_vault_token_in_account a)
         (Some (ow_market_stats w)) target_bps (op_token_in_net_amount r) (ow_ledger w))
       (\<lambda>(refill_destination, refill_amount).
     and_then (get_or_create_associated_token_account e (k_user_token_out_account a) (k_user a)
         (m_key (k_token_out_mint a)) (k_token_out_program a) InvalidUserTokenOutAccount) (\<lambda>user_out.
     settle_take_offer_v2 e spl st a r should_accrue main_offer proceeds fee refill_destination
       refill_amount user_out (w\<lparr>ow_proceeds_vault := proceeds_vault, ow_fee_vault := fee_vault\<rparr>)))))"

definition take_offer_v2 ::
  "env \<Rightarrow> spl_token \<Rightarrow> sysvar \<Rightarrow> state \<Rightarrow> take_offer_v2_accounts \<Rightarrow> u64 \<Rightarrow> approval_message option \<Rightarrow>
     offer_world \<Rightarrow> offer_world result" where
  "take_offer_v2 e spl sv st a token_in_amount approval w =
     execute_take_offer_v2 e spl sv st a token_in_amount approval w"

section \<open>Taking an offer without approval\<close>

text \<open>
  The permissionless instructions route both tokens through accounts of the program's
  permissionless authority. Their struct does not compare the mints with the offer; the handler
  does. In the first version the authority is fixed by its seeds.
\<close>

definition check_permissionless_accounts ::
  "env \<Rightarrow> state \<Rightarrow> pubkey option \<Rightarrow> 'a take_accounts_scheme \<Rightarrow> offer result" where
  "check_permissionless_accounts e st boss a =
     (let tin = m_key (k_token_in_mint a); tout = m_key (k_token_out_mint a) in
      require (a_key (k_offer a) = pda e (offer_seeds tin tout)) AnchorConstraint (
      and_then (load_pda_account (k_offer a) (program_id e) AnchorConstraint AnchorConstraint) (\<lambda>offer.
      require (case boss of None \<Rightarrow> True | Some boss \<Rightarrow> boss = s_boss st) InvalidBoss (
      require (\<not> s_is_killed st) KillSwitchActivated (
      and_then (get_associated_token_account e (k_vault_token_in_account a) (k_vault_authority a) tin
          (k_token_in_program a) AnchorConstraint) (\<lambda>_.
      and_then (get_associated_token_account e (k_vault_token_out_account a) (k_vault_authority a)
          tout (k_token_out_program a) AnchorConstraint) (\<lambda>_.
      and_then (get_associated_token_account e (k_user_token_in_account a) (k_user a) tin
          (k_token_in_program a) AnchorConstraint) (\<lambda>_.
      Ok offer))))))))"

text \<open>
  The accounts behind the four optional arguments: the fee of the offer is used where there is
  no override, the BUFFER is left alone without its accounts, the statistics are refreshed and
  the redemption vault refilled only with theirs.
\<close>

record permissionless_refresh =
  pr_market_stats :: "market_stats account"
  pr_excluded_balance :: "circulating_supply_excluded_balance account"
  pr_main_offer :: "offer account"

record permissionless_refill =
  pf_redemption_offer :: "redemption_offer account"
  pf_redemption_vault_token_in_account :: token_info

definition permissionless_fee_basis_points :: "offer \<Rightarrow> u16" where
  "permissionless_fee_basis_points offer = o_fee_basis_points_permissionless offer"

definition prepare_permissionless ::
  "env \<Rightarrow> state \<Rightarrow> 'a permissionless_accounts_scheme \<Rightarrow> offer \<Rightarrow> u64 \<Rightarrow> u16 option \<Rightarrow>
     buffer_accrual_accounts option \<Rightarrow> permissionless_refresh option \<Rightarrow>
     (offer_process_result \<times> bool \<times> offer option) result" where
  "prepare_permissionless e st a offer token_in_amount fee_basis_points_override buffer_accounts
     market_stats_refresh =
     require (pda e [Seed ''offer_vault_authority''] = k_vault_authority a) AnchorConstraint (
     require (pda e [Seed ''permissionless-1''] = kp_permissionless_authority a) AnchorConstraint (
     require (pda e [Seed ''mint_authority''] = k_mint_authority a) AnchorConstraint (
     and_then (require_enabled offer) (\<lambda>_.
     and_then (require_mints offer (m_key (k_token_in_mint a)) (m_key (k_token_out_mint a))) (\<lambda>_.
     require (allow_permissionless offer) PermissionlessNotAllowed (
     and_then (process_offer_core e offer token_in_amount (k_token_in_mint a) (k_token_out_mint a)
         (case fee_basis_points_override of Some bps \<Rightarrow> bps | None \<Rightarrow> o_fee_basis_points offer)) (\<lambda>r.
     and_then (case buffer_accounts of Some ba \<Rightarrow> check_is_initialized e ba | None \<Rightarrow> Ok False)
       (\<lambda>buffer_is_initialized.
     and_then (case market_stats_refresh of
         Some refresh \<Rightarrow>
           if is_onyc_token_out_mint st (k_token_out_mint a)
           then and_then (load_main_offer e (pr_main_offer refresh) st) (\<lambda>main_offer. Ok (Some main_offer))
           else Ok None
       | None \<Rightarrow> Ok None) (\<lambda>main_offer.
     Ok (r, buffer_accounts \<noteq> None \<and>
           should_accrue_onyc_mint st (k_token_out_mint a) buffer_is_initialized (k_mint_authority a),
         main_offer))))))))))"

definition permissionless_refill_amount ::
  "env \<Rightarrow> 'a take_accounts_scheme \<Rightarrow> permissionless_refresh option \<Rightarrow> permissionless_refill option \<Rightarrow>
     u64 \<Rightarrow> ledger \<Rightarrow> (pubkey option \<times> u64) result" where
  "permissionless_refill_amount e a market_stats_refresh redemption_vault_refill token_in_net_amount L =
     (case redemption_vault_refill of
        None \<Rightarrow> Ok (None, 0)
      | Some refill \<Rightarrow>
          and_then (load_redemption_offer_vault_target_bps_for_offer e (pf_redemption_offer refill)
              (a_key (k_offer a)) (m_key (k_token_in_mint a)) (m_key (k_token_out_mint a))) (\<lambda>target.
          redemption_refill e a (pf_redemption_vault_token_in_account refill)
            (map_option pr_market_stats market_stats_refresh)
            (case target of None \<Rightarrow> 0 | Some bps \<Rightarrow> bps) token_in_net_amount L))"

text \<open>The three movements: into the intermediary, the exchange, out of the intermediary.\<close>

definition route_permissionless ::
  "spl_token \<Rightarrow> state \<Rightarrow> 'a permissionless_accounts_scheme \<Rightarrow> offer_process_result \<Rightarrow> mint \<Rightarrow> u64 \<Rightarrow>
     pubkey \<Rightarrow> pubkey \<Rightarrow> pubkey \<Rightarrow> pubkey \<Rightarrow> pubkey option \<Rightarrow> u64 \<Rightarrow> pubkey \<Rightarrow> ledger \<Rightarrow> ledger result" where
  "route_permissionless spl st a r token_out_mint token_in_amount permissionless_in destination fee
     permissionless_out refill_destination refill_amount user_out L =
     and_then (transfer_tokens spl (k_token_in_mint a) (t_key (k_user_token_in_account a))
         permissionless_in (k_user a) token_in_amount L) (\<lambda>L.
     and_then (execute_token_operations spl
         (offer_order st a r token_out_mint (kp_permissionless_authority a) permissionless_in
            destination refill_destination refill_amount fee permissionless_out) L) (\<lambda>L.
     transfer_tokens spl token_out_mint permissionless_out user_out (kp_permissionless_authority a)
       (op_token_out_amount r) L))"

definition execute_take_offer_permissionless ::
  "env \<Rightarrow> spl_token \<Rightarrow> state \<Rightarrow> 'a permissionless_accounts_scheme \<Rightarrow> offer \<Rightarrow> u64 \<Rightarrow>
     pubkey \<Rightarrow> pubkey \<Rightarrow> pubkey \<Rightarrow> pubkey \<Rightarrow> pubkey \<Rightarrow> u16 option \<Rightarrow> buffer_accrual_accounts option \<Rightarrow>
     permissionless_refresh option \<Rightarrow> permissionless_refill option \<Rightarrow> ledger \<Rightarrow>
     (ledger \<times> buffer_accrual_accounts option \<times> market_stats account option) result" where
  "execute_take_offer_permissionless e spl st a offer token_in_amount permissionless_in destination
     fee permissionless_out user_out fee_basis_points_override buffer_accounts market_stats_refresh
     redemption_vault_refill L =
     and_then (prepare_permissionless e st a offer token_in_amount fee_basis_points_override
         buffer_accounts market_stats_refresh) (\<lambda>(r, should_accrue, main_offer).
     and_then (case buffer_accounts of
         None \<Rightarrow> Ok (None, None, L)
       | Some ba \<Rightarrow> and_then (accrue_before_mint e spl st a should_accrue main_offer ba L)
           (\<lambda>(accrual, ba, L). Ok (accrual, Some ba, L))) (\<lambda>(accrual, buffer_accounts, L).
     let token_out_mint = (if accrual \<noteq> None then reload L (k_token_out_mint a)
           else k_token_out_mint a)
     in
     and_then (permissionless_refill_amount e a market_stats_refresh redemption_vault_refill
         (op_token_in_net_amount r) L) (\<lambda>(refill_destination, refill_amount).
     and_then (route_permissionless spl st a r token_out_mint token_in_amount permissionless_in
         destination fee permissionless_out refill_destination refill_amount user_out L) (\<lambda>L.
     and_then (case buffer_accounts of
         None \<Rightarrow> Ok None
       | Some ba \<Rightarrow> and_then (store_post_offer_supply e OverflowError (op_token_out_amount r) accrual ba)
           (\<lambda>ba. Ok (Some ba))) (\<lambda>buffer_accounts.
     and_then (case market_stats_refresh of
         None \<Rightarrow> Ok None
       | Some refresh \<Rightarrow>
           if is_onyc_token_out_mint st (k_token_out_mint a)
           then and_then (refresh_after_offer e main_offer (k_token_out_mint a)
               (pr_excluded_balance refresh) (pr_market_stats refresh) L) (\<lambda>ms. Ok (Some ms))
           else Ok (Some (pr_market_stats refresh))) (\<lambda>market_stats.
     Ok (L, buffer_accounts, market_stats)))))))"

definition take_offer_permissionless ::
  "env \<Rightarrow> spl_token \<Rightarrow> state \<Rightarrow> take_offer_permissionless_accounts \<Rightarrow> u64 \<Rightarrow> approval_message option \<Rightarrow>
     ledger \<Rightarrow> ledger result" where
  "take_offer_permissionless e spl st a token_in_amount approval L =
     and_then (check_permissionless_accounts e st (Some (kp_boss a)) a) (\<lambda>offer.
     require (k_vault_authority a = pda e [Seed ''offer_vault_authority'']) AnchorConstraint (
     require (kp_permissionless_authority a = pda e [Seed ''permissionless-1'']) AnchorConstraint (
     and_then (get_associated_token_account e (kp_permissionless_token_in_account a)
         (kp_permissionless_authority a) (m_key (k_token_in_mint a)) (k_token_in_program a)
         AnchorConstraint) (\<lambda>permissionless_in.
     require (instructions_sysvar_id e = kp_instructions_sysvar a) InvalidInstructionsSysvar (
     and_then (get_associated_token_account e (kp_boss_token_in_account a) (kp_boss a)
         (m_key (k_token_in_mint a)) (k_token_in_program a) InvalidBossTokenInAccount) (\<lambda>boss_in.
     and_then (get_associated_token_account e (kp_permissionless_token_out_account a)
         (kp_permissionless_authority a) (m_key (k_token_out_mint a)) (k_token_out_program a)
         InvalidPermissionlessTokenOutAccount) (\<lambda>permissionless_out.
     and_then (get_or_create_associated_token_account e (k_user_token_out_account a) (k_user a)
         (m_key (k_token_out_mint a)) (k_token_out_program a) InvalidUserTokenOutAccount) (\<lambda>user_out.
     and_then (execute_take_offer_permissionless e spl st a offer token_in_amount permissionless_in
         boss_in boss_in permissionless_out user_out None None None None L) (\<lambda>(L, _, _).
     Ok L)))))))))"

definition take_offer_permissionless_v2 ::
  "env \<Rightarrow> spl_token \<Rightarrow> state \<Rightarrow> take_offer_permissionless_v2_accounts \<Rightarrow> u64 \<Rightarrow> offer_world \<Rightarrow>
     offer_world result" where
  "take_offer_permissionless_v2 e spl st a token_in_amount w =
     and_then (check_permissionless_accounts e st None a) (\<lambda>offer.
     and_then (get_or_create_configurable_vault_token_account e OfferProceeds (ow_proceeds_vault w)
         (kp2_offer_proceeds_token_in_account a) (m_key (k_token_in_mint a)) (k_token_in_program a))
       (\<lambda>(proceeds, proceeds_vault).
     and_then (get_associated_token_account e (kp_permissionless_token_out_account a)
         (kp_permissionless_authority a) (m_key (k_token_out_mint a)) (k_token_out_program a)
         InvalidPermissionlessTokenOutAccount) (\<lambda>permissionless_out.
     and_then (get_associated_token_account e (kp_permissionless_token_in_account a)
         (kp_permissionless_authority a) (m_key (k_token_in_mint a)) (k_token_in_program a)
         InvalidVaultTokenInAccount) (\<lambda>permissionless_in.
     and_then (get_or_create_associated_token_account e (k_user_token_out_account a) (k_user a)
         (m_key (k_token_out_mint a)) (k_token_out_program a) InvalidUserTokenOutAccount) (\<lambda>user_out.
     and_then (get_or_create_configurable_vault_token_account e PermissionlessOfferFee (ow_fee_vault w)
         (kp2_permissionless_offer_fee_token_in_account a) (m_key (k_token_in_mint a))
         (k_token_in_program a)) (\<lambda>(fee, fee_vault).
     and_then (execute_take_offer_permissionless e spl st a offer token_in_amount permissionless_in
         proceeds fee permissionless_out user_out (Some (permissionless_fee_basis_points offer))
         (Some (ow_buffer_accounts w))
         (Some \<lparr>pr_market_stats = ow_market_stats w, pr_excluded_balance = kp2_excluded_balance a,
            pr_main_offer = kp2_main_offer a\<rparr>)
         (Some \<lparr>pf_redemption_offer = kp2_redemption_offer a,
            pf_redemption_vault_token_in_account = kp2_redemption_vault_token_in_account a\<rparr>)
         (ow_ledger w)) (\<lambda>(L, ba, ms).
     Ok \<lparr>ow_ledger = L, ow_proceeds_vault = proceeds_vault, ow_fee_vault = fee_vault,
         ow_buffer_accounts = (case ba of Some ba \<Rightarrow> ba | None \<Rightarrow> ow_buffer_accounts w),
         ow_market_stats = (case ms of Some ms \<Rightarrow> ms | None \<Rightarrow> ow_market_stats w)\<rparr>)))))))"

section \<open>Amounts: lemmas\<close>

lemma process_offer_core_Ok:
  assumes "process_offer_core e offer amount m_in m_out bps = Ok r"
  shows "compute_offer_current_price offer (i64_as_u64 (unix_timestamp e)) = Ok (op_current_price r)"
    and "calculate_fees amount bps = Ok \<lparr>fr_token_in_fee_amount = op_token_in_fee_amount r,
      fr_token_in_net_amount = op_token_in_net_amount r\<rparr>"
    and "calculate_token_out_amount (op_token_in_net_amount r) (op_current_price r) (m_decimals m_in)
      (m_decimals m_out) = Ok (op_token_out_amount r)"
    and "o_token_in_mint offer = m_key m_in" and "o_token_out_mint offer = m_key m_out" and "0 < amount"
proof -
  obtain v price fr out where c: "0 < amount" "o_token_in_mint offer = m_key m_in"
    "o_token_out_mint offer = m_key m_out"
    "find_active_vector_at offer (i64_as_u64 (unix_timestamp e)) = Ok v"
    "calculate_current_step_price (unix_timestamp e) (v_apr v) (v_base_price v) (v_base_time v)
       (v_price_fix_duration v) = Ok price"
    "calculate_fees amount bps = Ok fr"
    "calculate_token_out_amount (fr_token_in_net_amount fr) price (m_decimals m_in) (m_decimals m_out) = Ok out"
    "r = \<lparr>op_current_price = price, op_token_in_net_amount = fr_token_in_net_amount fr,
       op_token_in_fee_amount = fr_token_in_fee_amount fr, op_token_out_amount = out\<rparr>"
    using assms unfolding process_offer_core_def process_offer_core_at_def require_mints_def by auto
  then show "compute_offer_current_price offer (i64_as_u64 (unix_timestamp e)) = Ok (op_current_price r)"
    by (simp add: compute_offer_current_price_def get_active_vector_and_current_price_def
        calculate_current_step_price_def)
  from c show "calculate_fees amount bps = Ok \<lparr>fr_token_in_fee_amount = op_token_in_fee_amount r,
      fr_token_in_net_amount = op_token_in_net_amount r\<rparr>"
    and "calculate_token_out_amount (op_token_in_net_amount r) (op_current_price r) (m_decimals m_in)
      (m_decimals m_out) = Ok (op_token_out_amount r)"
    and "o_token_in_mint offer = m_key m_in" and "o_token_out_mint offer = m_key m_out" and "0 < amount"
    by simp_all
qed

lemma process_offer_core_pays:
  assumes "process_offer_core e offer amount m_in m_out bps = Ok r"
  shows "op_token_in_net_amount r + op_token_in_fee_amount r = amount"
  using plain_fee.charge_splits [OF process_offer_core_Ok(2) [OF assms]] by simp

section \<open>Refill: lemmas\<close>

lemma refill_le_net:
  assumes "calculate_redemption_vault_refill_amount e acc bps m_in m_out bal net = Ok r"
    and "net \<le> u64_max"
  shows "r \<le> net"
proof -
  have "as_u64 (min d net) \<le> net" for d
    using assms(2) as_u64_id [of "min d net"] by simp
  then show ?thesis
    using assms(1) unfolding calculate_redemption_vault_refill_amount_def
    by (auto split: if_splits)
qed

lemma redemption_vault_target_exact:
  assumes "read_market_stats_account e acc = Ok stats" and tvl: "ms_tvl stats \<le> u64_max"
    and bps: "bps \<le> MAX_BASIS_POINTS" and din: "m_decimals m_in \<le> 18" and dout: "m_decimals m_out \<le> 18"
  shows "redemption_vault_target e acc bps m_in m_out =
    Ok (ms_tvl stats * bps div 10000 * 10 ^ m_decimals m_in div 10 ^ m_decimals m_out)"
proof -
  have p: "(10::nat) ^ m_decimals m_in \<le> 10 ^ 18" "(10::nat) ^ m_decimals m_out \<le> 10 ^ 18"
    by (rule power_increasing [OF din], simp, rule power_increasing [OF dout], simp)
  have t: "ms_tvl stats * bps div 10000 \<le> ms_tvl stats"
    using mult_le_mono2 [OF bps, of "ms_tvl stats"] div_le_mono [of "ms_tvl stats * bps" "ms_tvl stats * 10000" 10000]
    by (simp add: const_defs)
  have "ms_tvl stats * bps \<le> u64_max * 10000"
    using tvl bps by (intro mult_le_mono) (simp_all add: const_defs)
  then have s1: "saturating_mul u128_max (ms_tvl stats) bps = ms_tvl stats * bps"
    unfolding saturating_mul_def by (simp add: int_defs)
  have "ms_tvl stats * bps div 10000 * 10 ^ m_decimals m_in \<le> u64_max * 10 ^ 18"
    using t tvl p(1) by (intro mult_le_mono) simp_all
  then have s2: "saturating_mul u128_max (ms_tvl stats * bps div 10000) (10 ^ m_decimals m_in) =
      ms_tvl stats * bps div 10000 * 10 ^ m_decimals m_in"
    unfolding saturating_mul_def by (simp add: int_defs)
  have "checked_pow u128_max 10 (m_decimals m_in) = Some (10 ^ m_decimals m_in)"
    "checked_pow u128_max 10 (m_decimals m_out) = Some (10 ^ m_decimals m_out)"
    using p by (simp_all add: checked_pow_def int_defs)
  then show ?thesis
    by (simp add: redemption_vault_target_def assms(1) s1 s2 const_defs)
qed

text \<open>
  C33: With readable statistics, a target of at most 100% and tokens of at most 18 decimals, the
  refill of the redemption vault is always computed, never takes more than was paid, never lifts
  the vault above its target share of the total value, and falls short of the target only when
  the whole payment goes to the vault.
\<close>

theorem refill_tops_vault_up_to_target:
  assumes "read_market_stats_account e acc = Ok stats" and "ms_tvl stats \<le> u64_max"
    and "bps \<le> MAX_BASIS_POINTS" and "m_decimals m_in \<le> 18" and "m_decimals m_out \<le> 18"
    and "net \<le> u64_max"
  defines "target \<equiv> ms_tvl stats * bps div 10000 * 10 ^ m_decimals m_in div 10 ^ m_decimals m_out"
  shows "\<exists>r. calculate_redemption_vault_refill_amount e acc bps m_in m_out bal net = Ok r \<and>
    r \<le> net \<and> bal + r \<le> max bal target \<and> (r < net \<longrightarrow> target \<le> bal + r)"
proof -
  have t: "redemption_vault_target e acc bps m_in m_out = Ok target"
    unfolding target_def by (rule redemption_vault_target_exact [OF assms(1-5)])
  have z: "bps = 0 \<Longrightarrow> target = 0" by (simp add: target_def)
  have id: "as_u64 (min d net) = min d net" for d using assms(6) by (simp add: as_u64_id)
  show ?thesis
    unfolding calculate_redemption_vault_refill_amount_def t
    using z by (auto simp: id)
qed

section \<open>Execution: lemmas\<close>

lemma get_associated_token_account_Ok:
  "get_associated_token_account e t auth m prog err = Ok k \<longleftrightarrow>
     k = t_key t \<and> t_key t = get_associated_token_address_with_program_id e auth m prog \<and>
     t_is_token t \<and> t_owner t = prog"
  by (auto simp: get_associated_token_account_def validate_associated_token_address_def
      token_account_try_from_def)

lemma get_or_create_associated_token_account_Ok:
  assumes "get_or_create_associated_token_account e t auth m prog err = Ok k"
  shows "k = t_key t" and "t_key t = get_associated_token_address_with_program_id e auth m prog"
  using assms by (auto simp: get_or_create_associated_token_account_def
      validate_associated_token_address_def token_account_try_from_def split: if_splits)

lemma require_enabled_Ok: "require_enabled offer = Ok u \<longleftrightarrow> \<not> is_disabled offer"
  by (auto simp: require_enabled_def)

lemma check_take_offer_accounts_Ok:
  assumes "check_take_offer_accounts e st boss a = Ok offer"
  shows "a_data (k_offer a) = AccountData offer" and "\<not> s_is_killed st"
    and "t_key (k_vault_token_in_account a) = get_associated_token_address_with_program_id e
      (k_vault_authority a) (m_key (k_token_in_mint a)) (k_token_in_program a)"
    and "t_key (k_vault_token_out_account a) = get_associated_token_address_with_program_id e
      (k_vault_authority a) (m_key (k_token_out_mint a)) (k_token_out_program a)"
    and "t_key (k_user_token_in_account a) = get_associated_token_address_with_program_id e
      (k_user a) (m_key (k_token_in_mint a)) (k_token_in_program a)"
    and "boss = Some b \<Longrightarrow> b = s_boss st"
  using assms unfolding check_take_offer_accounts_def Let_def
  by (auto simp: get_associated_token_account_Ok)

lemma validate_take_offer_authorities_Ok:
  assumes "validate_take_offer_authorities e va ma sysv = Ok u"
  shows "va = pda e [Seed ''offer_vault_authority'']" and "ma = pda e [Seed ''mint_authority'']"
  using assms by (auto simp: validate_take_offer_authorities_def split: prod.splits)

text \<open>The effect of an order on balances and supplies, in the terms of the offer.\<close>

lemma offer_order_effect:
  assumes laws: "spl_laws spl" and key: "m_key m = m_key (k_token_out_mint a)"
    and auth: "m_mint_authority m = m_mint_authority (k_token_out_mint a)"
    and ok: "execute_token_operations spl (offer_order st a r m authority src dst rdst refill fdst odst) L = Ok L'"
  defines "burns \<equiv> program_controls_mint (k_token_in_mint a) (k_mint_authority a)"
    and "mints \<equiv> program_controls_mint (k_token_out_mint a) (k_mint_authority a)"
  shows "int (l_bal L' acc) = int (l_bal L acc)
        - part (acc = src) (op_token_in_net_amount r + op_token_in_fee_amount r)
        + part (\<not> burns \<and> rdst = Some acc) refill
        + part (\<not> burns \<and> acc = dst) (op_token_in_net_amount r - refill)
        + part (acc = fdst) (op_token_in_fee_amount r)
        - part (\<not> mints \<and> acc = t_key (k_vault_token_out_account a)) (op_token_out_amount r)
        + part (acc = odst) (op_token_out_amount r)"
    and "int (l_supply L' k) = int (l_supply L k)
        - part (burns \<and> k = m_key (k_token_in_mint a)) (op_token_in_net_amount r)
        + part (mints \<and> k = m_key (k_token_out_mint a)) (op_token_out_amount r)"
    and "refill \<le> op_token_in_net_amount r"
    and "mints \<Longrightarrow> 0 < s_max_supply st \<Longrightarrow> m_supply m + op_token_out_amount r \<le> s_max_supply st"
proof -
  have m: "program_controls_mint m (k_mint_authority a) = mints"
    by (simp add: mints_def program_controls_mint_def auth)
  note ex = exchange_effect [OF laws ok, unfolded offer_order_def, simplified,
      folded burns_def, unfolded m key]
  from ex show "int (l_bal L' acc) = int (l_bal L acc)
        - part (acc = src) (op_token_in_net_amount r + op_token_in_fee_amount r)
        + part (\<not> burns \<and> rdst = Some acc) refill
        + part (\<not> burns \<and> acc = dst) (op_token_in_net_amount r - refill)
        + part (acc = fdst) (op_token_in_fee_amount r)
        - part (\<not> mints \<and> acc = t_key (k_vault_token_out_account a)) (op_token_out_amount r)
        + part (acc = odst) (op_token_out_amount r)"
    and "int (l_supply L' k) = int (l_supply L k)
        - part (burns \<and> k = m_key (k_token_in_mint a)) (op_token_in_net_amount r)
        + part (mints \<and> k = m_key (k_token_out_mint a)) (op_token_out_amount r)"
    by blast+
  show "refill \<le> op_token_in_net_amount r" using ex by (auto split: if_splits)
  show "mints \<Longrightarrow> 0 < s_max_supply st \<Longrightarrow> m_supply m + op_token_out_amount r \<le> s_max_supply st"
    using ex by blast
qed

text \<open>The token accounts of a successful run exist and are the expected ones.\<close>

lemma take_offer_accounts_exist:
  assumes "take_offer e spl sv st a amount approval L = Ok L'"
  shows "t_is_token (k_user_token_in_account a) \<and> t_is_token (k_boss_token_in_account a) \<and>
    t_is_token (k_vault_token_in_account a) \<and> t_is_token (k_vault_token_out_account a)"
    and "t_key (k_user_token_in_account a) =
      get_associated_token_address_with_program_id e (k_user a) (m_key (k_token_in_mint a)) (k_token_in_program a)"
    and "t_key (k_boss_token_in_account a) =
      get_associated_token_address_with_program_id e (s_boss st) (m_key (k_token_in_mint a)) (k_token_in_program a)"
    and "t_key (k_user_token_out_account a) =
      get_associated_token_address_with_program_id e (k_user a) (m_key (k_token_out_mint a)) (k_token_out_program a)"
    and "t_key (k_vault_token_out_account a) = get_associated_token_address_with_program_id e
      (pda e [Seed ''offer_vault_authority'']) (m_key (k_token_out_mint a)) (k_token_out_program a)"
  using assms unfolding take_offer_def check_take_offer_accounts_def Let_def
  by (auto simp: get_associated_token_account_Ok
      dest: get_or_create_associated_token_account_Ok(2) validate_take_offer_authorities_Ok(1))

text \<open>What a successful run of \<open>take_offer\<close> has checked and moved.\<close>

lemma take_offer_effect:
  assumes laws: "spl_laws spl" and ok: "take_offer e spl sv st a amount approval L = Ok L'"
  defines "ata \<equiv> get_associated_token_address_with_program_id e"
    and "burns \<equiv> program_controls_mint (k_token_in_mint a) (pda e [Seed ''mint_authority''])"
    and "mints \<equiv> program_controls_mint (k_token_out_mint a) (pda e [Seed ''mint_authority''])"
    and "tin \<equiv> m_key (k_token_in_mint a)" and "tout \<equiv> m_key (k_token_out_mint a)"
  shows "\<exists>offer price net fee out. a_data (k_offer a) = AccountData offer \<and> \<not> is_disabled offer \<and>
    \<not> s_is_killed st \<and>
    verify_offer_approval e offer approval (k_user a) (s_approver1 st) (s_approver2 st) sv = Ok () \<and>
    compute_offer_current_price offer (i64_as_u64 (unix_timestamp e)) = Ok price \<and>
    calculate_fees amount (o_fee_basis_points offer) =
      Ok \<lparr>fr_token_in_fee_amount = fee, fr_token_in_net_amount = net\<rparr> \<and>
    calculate_token_out_amount net price (m_decimals (k_token_in_mint a))
      (m_decimals (k_token_out_mint a)) = Ok out \<and>
    (\<forall>acc. int (l_bal L' acc) = int (l_bal L acc)
      - part (acc = ata (k_user a) tin (k_token_in_program a)) amount
      + part (acc = ata (s_boss st) tin (k_token_in_program a)) (if burns then fee else amount)
      - part (\<not> mints \<and> acc = ata (pda e [Seed ''offer_vault_authority'']) tout (k_token_out_program a)) out
      + part (acc = ata (k_user a) tout (k_token_out_program a)) out) \<and>
    (\<forall>k. int (l_supply L' k) = int (l_supply L k) - part (burns \<and> k = tin) net + part (mints \<and> k = tout) out)"
proof -
  from ok obtain offer user_out boss_in r where
    chk: "check_take_offer_accounts e st (Some (k_boss a)) a = Ok offer"
    and uo: "get_or_create_associated_token_account e (k_user_token_out_account a) (k_user a)
      tout (k_token_out_program a) AnchorConstraint = Ok user_out"
    and bi: "get_associated_token_account e (k_boss_token_in_account a) (k_boss a) tin
      (k_token_in_program a) AnchorConstraint = Ok boss_in"
    and auth: "\<exists>u. validate_take_offer_authorities e (k_vault_authority a) (k_mint_authority a)
      (k_instructions_sysvar a) = Ok u"
    and en: "\<not> is_disabled offer"
    and appr: "verify_offer_approval e offer approval (k_user a) (s_approver1 st) (s_approver2 st) sv = Ok ()"
    and r: "process_offer_core e offer amount (k_token_in_mint a) (k_token_out_mint a)
      (o_fee_basis_points offer) = Ok r"
    and ex: "execute_token_operations spl (offer_order st a r (k_token_out_mint a) (k_user a)
      (t_key (k_user_token_in_account a)) boss_in None 0 boss_in user_out) L = Ok L'"
    unfolding take_offer_def tin_def tout_def by (auto simp: require_enabled_Ok)
  note c = check_take_offer_accounts_Ok [OF chk]
  have va: "k_vault_authority a = pda e [Seed ''offer_vault_authority'']"
    and ma: "k_mint_authority a = pda e [Seed ''mint_authority'']"
    using auth validate_take_offer_authorities_Ok by blast+
  have accs: "user_out = ata (k_user a) tout (k_token_out_program a)"
    "boss_in = ata (s_boss st) tin (k_token_in_program a)"
    using get_or_create_associated_token_account_Ok [OF uo] bi c(6) [OF refl]
    by (simp_all add: ata_def get_associated_token_account_Ok)
  note eff = offer_order_effect [OF laws refl refl ex, unfolded ma, folded burns_def mints_def tin_def tout_def]
  note core = process_offer_core_Ok [OF r] process_offer_core_pays [OF r]
  have "int (l_bal L' acc) = int (l_bal L acc)
      - part (acc = ata (k_user a) tin (k_token_in_program a)) amount
      + part (acc = ata (s_boss st) tin (k_token_in_program a)) (if burns then op_token_in_fee_amount r else amount)
      - part (\<not> mints \<and> acc = ata (pda e [Seed ''offer_vault_authority'']) tout (k_token_out_program a))
          (op_token_out_amount r)
      + part (acc = ata (k_user a) tout (k_token_out_program a)) (op_token_out_amount r)" for acc
    using eff(1) [of acc] core(7) unfolding accs c(4,5) va
    by (simp add: ata_def tin_def tout_def part_def)
  then show ?thesis
    using c(1,2) en appr core(1-3) eff(2) by blast
qed

text \<open>
  C6: Taking an offer (\<open>take_offer\<close>) needs a running program, an enabled offer and, where the
  offer asks for one, a verified approval. It charges the fee of the offer on the amount paid,
  converts the rest at the price of the moment, and moves exactly this: the user pays the whole
  amount; the boss receives the fee, and the net amount unless the program burns it; the user
  receives the output, minted or out of the offer vault. No other account or supply changes.
\<close>

theorem take_offer_executes_at_current_price:
  assumes laws: "spl_laws spl" and ok: "take_offer e spl sv st a amount approval L = Ok L'"
  defines "ata \<equiv> get_associated_token_address_with_program_id e"
    and "burns \<equiv> program_controls_mint (k_token_in_mint a) (pda e [Seed ''mint_authority''])"
    and "mints \<equiv> program_controls_mint (k_token_out_mint a) (pda e [Seed ''mint_authority''])"
    and "tin \<equiv> m_key (k_token_in_mint a)" and "tout \<equiv> m_key (k_token_out_mint a)"
  shows "\<exists>offer price net fee out. a_data (k_offer a) = AccountData offer \<and> \<not> is_disabled offer \<and>
    \<not> s_is_killed st \<and>
    verify_offer_approval e offer approval (k_user a) (s_approver1 st) (s_approver2 st) sv = Ok () \<and>
    compute_offer_current_price offer (i64_as_u64 (unix_timestamp e)) = Ok price \<and>
    calculate_fees amount (o_fee_basis_points offer) =
      Ok \<lparr>fr_token_in_fee_amount = fee, fr_token_in_net_amount = net\<rparr> \<and>
    calculate_token_out_amount net price (m_decimals (k_token_in_mint a))
      (m_decimals (k_token_out_mint a)) = Ok out \<and>
    (\<forall>acc. int (l_bal L' acc) = int (l_bal L acc)
      - part (acc = ata (k_user a) tin (k_token_in_program a)) amount
      + part (acc = ata (s_boss st) tin (k_token_in_program a)) (if burns then fee else amount)
      - part (\<not> mints \<and> acc = ata (pda e [Seed ''offer_vault_authority'']) tout (k_token_out_program a)) out
      + part (acc = ata (k_user a) tout (k_token_out_program a)) out) \<and>
    (\<forall>k. int (l_supply L' k) = int (l_supply L k) - part (burns \<and> k = tin) net + part (mints \<and> k = tout) out)"
  unfolding ata_def burns_def mints_def tin_def tout_def by (rule take_offer_effect [OF laws ok])

section \<open>Accrual around an offer\<close>

lemma redemption_refill_Ok:
  assumes "redemption_refill e a t ms bps net L = Ok (rdst, refill)"
  shows "rdst = None \<and> refill = 0 \<or> rdst = Some (get_associated_token_address_with_program_id e
    (pda e [Seed ''redemption_offer_vault_authority'']) (m_key (k_token_in_mint a)) (k_token_in_program a))"
  using assms get_or_create_associated_token_account_Ok
  unfolding redemption_refill_def by (fastforce split: if_splits)

lemma configurable_vault_token_account_Ok:
  assumes "get_or_create_configurable_vault_token_account e kind vault t m prog = Ok (k, vault')"
  shows "k = get_associated_token_address_with_program_id e (pda e (vault_seeds kind)) m prog"
  using assms get_or_create_associated_token_account_Ok
  unfolding get_or_create_configurable_vault_token_account_def Let_def
  by (fastforce split: prod.splits if_splits)

lemma accrue_before_mint_effect:
  assumes laws: "spl_laws spl" and fresh: "m_supply (k_token_out_mint a) = l_supply L (m_key (k_token_out_mint a))"
    and ok: "accrue_before_mint e spl st a should mo ba L = Ok (acc, ba', L')"
  shows "\<not> should \<and> acc = None \<and> ba' = ba \<and> L' = L \<or>
    (\<exists>r b b'. should \<and> acc = Some r \<and> load_buffer_state e ba = Ok b \<and> load_buffer_state e ba' = Ok b' \<and>
      ar_timestamp r = unix_timestamp e \<and>
      accrual_effect st (k_token_out_mint a) (t_key (ba_reserve_vault_onyc_account ba))
       (t_key (ba_management_fee_vault_onyc_account ba)) (t_key (ba_performance_fee_vault_onyc_account ba))
       (unix_timestamp e) b L r b' L')"
proof (cases should)
  case True
  with ok obtain offer r where "acc = Some r"
    "accrue_buffer_from_accounts e spl st ba offer (k_token_out_mint a) (k_mint_authority a)
      (k_token_out_program a) L = Ok (r, ba', L')"
    unfolding accrue_before_mint_def by auto
  then show ?thesis using True accrue_buffer_from_accounts_effect [OF laws fresh] by blast
qed (use ok in \<open>simp add: accrue_before_mint_def\<close>)

text \<open>
  Accrue, run an order, store the supply after it: the stored baseline is the actual supply, the
  supply has grown by the accrual and the order, and balances outside the BUFFER vaults have
  changed by the order only.
\<close>

lemma accrued_baseline:
  assumes laws: "spl_laws spl" and fresh: "m_supply (k_token_out_mint a) = l_supply L (m_key (k_token_out_mint a))"
    and acc: "accrue_before_mint e spl st a should mo ba L = Ok (accr, ba1, L1)"
    and order: "l_supply L2 (m_key (k_token_out_mint a)) = l_supply L1 (m_key (k_token_out_mint a)) + out"
    and store: "store_post_offer_supply e err out accr ba1 = Ok ba2"
  shows "\<exists>accrued. (\<forall>k. l_supply L1 k = l_supply L k + (if k = m_key (k_token_out_mint a) then accrued else 0)) \<and>
    (\<forall>x. x \<notin> {t_key (ba_reserve_vault_onyc_account ba), t_key (ba_management_fee_vault_onyc_account ba),
        t_key (ba_performance_fee_vault_onyc_account ba)} \<longrightarrow> l_bal L1 x = l_bal L x) \<and>
    (if should then \<exists>b. load_buffer_state e ba2 = Ok b \<and> b_last_accrual_timestamp b = unix_timestamp e \<and>
        b_previous_supply b = l_supply L2 (m_key (k_token_out_mint a))
     else accrued = 0 \<and> ba2 = ba)"
  using accrue_before_mint_effect [OF laws fresh acc]
proof (elim disjE exE conjE)
  fix r b b'
  assume s: should and accr: "accr = Some r" and b': "load_buffer_state e ba1 = Ok b'"
    and now: "ar_timestamp r = unix_timestamp e"
    and eff: "accrual_effect st (k_token_out_mint a) (t_key (ba_reserve_vault_onyc_account ba))
       (t_key (ba_management_fee_vault_onyc_account ba)) (t_key (ba_performance_fee_vault_onyc_account ba))
       (unix_timestamp e) b L r b' L1"
  have "\<exists>b. load_buffer_state e ba2 = Ok b \<and> b_last_accrual_timestamp b = unix_timestamp e \<and>
        b_previous_supply b = l_supply L2 (m_key (k_token_out_mint a))"
    using store accr b' now eff order
    by (auto simp: store_post_offer_supply_def store_buffer_post_supply_def load_buffer_state_Ok
        store_buffer_state_Ok set_buffer_baseline_after_supply_change_def accrual_effect_def)
  moreover have "int (l_bal L1 x) = int (l_bal L x)" if "x \<notin> {t_key (ba_reserve_vault_onyc_account ba),
      t_key (ba_management_fee_vault_onyc_account ba), t_key (ba_performance_fee_vault_onyc_account ba)}" for x
    using eff that unfolding accrual_effect_def by simp
  moreover have "\<forall>k. l_supply L1 k = l_supply L k + (if k = m_key (k_token_out_mint a) then ar_buffer_mint_amount r else 0)"
    using eff unfolding accrual_effect_def by blast
  ultimately show ?thesis using s by auto
qed (use store in \<open>auto simp: store_post_offer_supply_def\<close>)

lemma prepare_take_offer_v2_Ok:
  assumes "prepare_take_offer_v2 e sv st a amount approval ba = Ok (r, should, mo, bps)"
  obtains offer init where "check_take_offer_accounts e st None a = Ok offer" "\<not> is_disabled offer"
    "k_vault_authority a = pda e [Seed ''offer_vault_authority'']"
    "k_mint_authority a = pda e [Seed ''mint_authority'']"
    "verify_offer_approval e offer approval (k_user a) (s_approver1 st) (s_approver2 st) sv = Ok ()"
    "process_offer_core e offer amount (k_token_in_mint a) (k_token_out_mint a)
      (o_fee_basis_points offer) = Ok r"
    "check_is_initialized e ba = Ok init"
    "should = should_accrue_onyc_mint st (k_token_out_mint a) init (k_mint_authority a)"
proof -
  from assms obtain offer init u where *: "check_take_offer_accounts e st None a = Ok offer"
    "\<not> is_disabled offer"
    "validate_take_offer_authorities e (k_vault_authority a) (k_mint_authority a) (k2_instructions_sysvar a) = Ok u"
    "verify_offer_approval e offer approval (k_user a) (s_approver1 st) (s_approver2 st) sv = Ok ()"
    "process_offer_core e offer amount (k_token_in_mint a) (k_token_out_mint a)
      (o_fee_basis_points offer) = Ok r"
    "check_is_initialized e ba = Ok init"
    "should = should_accrue_onyc_mint st (k_token_out_mint a) init (k_mint_authority a)"
    unfolding prepare_take_offer_v2_def by (auto simp: require_enabled_Ok split del: if_split)
  with validate_take_offer_authorities_Ok [OF *(3)] show ?thesis by (intro that [of offer init])
qed

lemma reload_authority [simp]: "m_mint_authority (reload L m) = m_mint_authority m"
  by (simp add: reload_def)

text \<open>What \<open>settle_take_offer_v2\<close> does to the ledger and the BUFFER.\<close>

lemma settle_take_offer_v2_effect:
  assumes laws: "spl_laws spl"
    and fresh: "m_supply (k_token_out_mint a) = l_supply (ow_ledger w) (m_key (k_token_out_mint a))"
    and distinct: "m_key (k_token_in_mint a) \<noteq> m_key (k_token_out_mint a)"
    and should: "should \<Longrightarrow> program_controls_mint (k_token_out_mint a) (k_mint_authority a)"
    and ok: "settle_take_offer_v2 e spl st a r should mo proceeds fee rdst refill user_out w = Ok w'"
  defines "burns \<equiv> program_controls_mint (k_token_in_mint a) (k_mint_authority a)"
    and "mints \<equiv> program_controls_mint (k_token_out_mint a) (k_mint_authority a)"
    and "tout \<equiv> m_key (k_token_out_mint a)" and "ba \<equiv> ow_buffer_accounts w"
  shows "\<exists>accrued.
    (\<forall>x. x \<notin> {t_key (ba_reserve_vault_onyc_account ba), t_key (ba_management_fee_vault_onyc_account ba),
          t_key (ba_performance_fee_vault_onyc_account ba)} \<longrightarrow>
      int (l_bal (ow_ledger w') x) = int (l_bal (ow_ledger w) x)
        - part (x = t_key (k_user_token_in_account a)) (op_token_in_net_amount r + op_token_in_fee_amount r)
        + part (\<not> burns \<and> rdst = Some x) refill
        + part (\<not> burns \<and> x = proceeds) (op_token_in_net_amount r - refill)
        + part (x = fee) (op_token_in_fee_amount r)
        - part (\<not> mints \<and> x = t_key (k_vault_token_out_account a)) (op_token_out_amount r)
        + part (x = user_out) (op_token_out_amount r)) \<and>
    l_supply (ow_ledger w') tout = l_supply (ow_ledger w) tout + accrued + (if mints then op_token_out_amount r else 0) \<and>
    (mints \<and> 0 < s_max_supply st \<longrightarrow> l_supply (ow_ledger w') tout \<le> s_max_supply st) \<and>
    refill \<le> op_token_in_net_amount r \<and>
    (\<forall>k. k \<noteq> tout \<longrightarrow> k \<noteq> m_key (k_token_in_mint a) \<longrightarrow> l_supply (ow_ledger w') k = l_supply (ow_ledger w) k) \<and>
    (if should then \<exists>b. load_buffer_state e (ow_buffer_accounts w') = Ok b \<and>
        b_last_accrual_timestamp b = unix_timestamp e \<and> b_previous_supply b = l_supply (ow_ledger w') tout
     else accrued = 0 \<and> ow_buffer_accounts w' = ba)"
proof -
  from ok obtain accr ba1 L1 where
    acc: "accrue_before_mint e spl st a should mo ba (ow_ledger w) = Ok (accr, ba1, L1)"
    and ex: "execute_token_operations spl (offer_order st a r
         (if accr \<noteq> None then reload L1 (k_token_out_mint a) else k_token_out_mint a) (k_user a)
         (t_key (k_user_token_in_account a)) proceeds rdst refill fee user_out) L1 = Ok (ow_ledger w')"
    and store: "store_post_offer_supply e MathOverflow (op_token_out_amount r) accr ba1 = Ok (ow_buffer_accounts w')"
    unfolding settle_take_offer_v2_def Let_def ba_def by (auto split del: if_split)
  define m where "m = (if accr \<noteq> None then reload L1 (k_token_out_mint a) else k_token_out_mint a)"
  have m: "m_key m = m_key (k_token_out_mint a)" "m_mint_authority m = m_mint_authority (k_token_out_mint a)"
    by (simp_all add: m_def)
  note eff = offer_order_effect [OF laws m ex [folded m_def], folded burns_def mints_def tout_def]
  have sup2: "l_supply (ow_ledger w') tout = l_supply L1 tout + (if mints then op_token_out_amount r else 0)"
    using eff(2) [of tout] distinct by (auto simp: part_def tout_def split: if_splits)
  have m1: "m_supply m = l_supply L1 tout"
    using accrue_before_mint_effect [OF laws fresh acc] fresh by (auto simp: m_def tout_def)
  have cap: "mints \<and> 0 < s_max_supply st \<longrightarrow> l_supply (ow_ledger w') tout \<le> s_max_supply st"
    using eff(4) sup2 m1 by auto
  have others: "l_supply (ow_ledger w') k = l_supply L1 k" if "k \<noteq> tout" "k \<noteq> m_key (k_token_in_mint a)" for k
    using eff(2) [of k] that by simp
  show ?thesis
  proof (cases should)
    case True
    then have mints using should by (simp add: mints_def)
    then have order: "l_supply (ow_ledger w') (m_key (k_token_out_mint a)) =
        l_supply L1 (m_key (k_token_out_mint a)) + op_token_out_amount r"
      using sup2 by (simp add: tout_def)
    from accrued_baseline [OF laws fresh acc order store] obtain accrued where
      a: "\<forall>k. l_supply L1 k = l_supply (ow_ledger w) k + (if k = tout then accrued else 0)"
      "\<forall>x. x \<notin> {t_key (ba_reserve_vault_onyc_account ba), t_key (ba_management_fee_vault_onyc_account ba),
        t_key (ba_performance_fee_vault_onyc_account ba)} \<longrightarrow> l_bal L1 x = l_bal (ow_ledger w) x"
      "\<exists>b. load_buffer_state e (ow_buffer_accounts w') = Ok b \<and> b_last_accrual_timestamp b = unix_timestamp e \<and>
        b_previous_supply b = l_supply (ow_ledger w') tout"
      using True by (auto simp: tout_def)
    have "l_supply L1 tout = l_supply (ow_ledger w) tout + accrued" using a(1) by simp
    then show ?thesis
      using True a(2,3) eff(3) cap sup2 by (intro exI [of _ accrued]) (simp add: eff(1) others a(1))
  next
    case False
    then have "accr = None" "ba1 = ba" "L1 = ow_ledger w"
      using accrue_before_mint_effect [OF laws fresh acc] by auto
    moreover have "ow_buffer_accounts w' = ba"
      using store calculation by (simp add: store_post_offer_supply_def)
    ultimately show ?thesis
      using False eff(3) cap sup2 by (intro exI [of _ 0]) (simp add: eff(1) others)
  qed
qed

lemma take_offer_v2_steps:
  assumes ok: "take_offer_v2 e spl sv st a amount approval w = Ok w'"
  defines "ata \<equiv> get_associated_token_address_with_program_id e"
    and "tin \<equiv> m_key (k_token_in_mint a)" and "tout \<equiv> m_key (k_token_out_mint a)"
  obtains r should mo bps pv fv rdst refill where
    "prepare_take_offer_v2 e sv st a amount approval (ow_buffer_accounts w) = Ok (r, should, mo, bps)"
    and "redemption_refill e a (k2_redemption_vault_token_in_account a) (Some (ow_market_stats w)) bps
      (op_token_in_net_amount r) (ow_ledger w) = Ok (rdst, refill)"
    and "settle_take_offer_v2 e spl st a r should mo
      (ata (pda e (vault_seeds OfferProceeds)) tin (k_token_in_program a))
      (ata (pda e (vault_seeds OfferFee)) tin (k_token_in_program a)) rdst refill
      (ata (k_user a) tout (k_token_out_program a)) (w\<lparr>ow_proceeds_vault := pv, ow_fee_vault := fv\<rparr>) = Ok w'"
proof -
  from ok obtain r should mo bps proceeds pv fee fv rdst refill user_out where
    prep: "prepare_take_offer_v2 e sv st a amount approval (ow_buffer_accounts w) = Ok (r, should, mo, bps)"
    and pr: "get_or_create_configurable_vault_token_account e OfferProceeds (ow_proceeds_vault w)
      (k2_offer_proceeds_token_in_account a) tin (k_token_in_program a) = Ok (proceeds, pv)"
    and fe: "get_or_create_configurable_vault_token_account e OfferFee (ow_fee_vault w)
      (k2_offer_fee_token_in_account a) tin (k_token_in_program a) = Ok (fee, fv)"
    and rf: "redemption_refill e a (k2_redemption_vault_token_in_account a) (Some (ow_market_stats w)) bps
      (op_token_in_net_amount r) (ow_ledger w) = Ok (rdst, refill)"
    and uo: "get_or_create_associated_token_account e (k_user_token_out_account a) (k_user a) tout
      (k_token_out_program a) InvalidUserTokenOutAccount = Ok user_out"
    and settle: "settle_take_offer_v2 e spl st a r should mo proceeds fee rdst refill user_out
      (w\<lparr>ow_proceeds_vault := pv, ow_fee_vault := fv\<rparr>) = Ok w'"
    unfolding take_offer_v2_def execute_take_offer_v2_def get_or_create_configurable_vault_token_account_pair_def
      tin_def tout_def by auto
  with get_or_create_associated_token_account_Ok [OF uo] configurable_vault_token_account_Ok [OF pr]
    configurable_vault_token_account_Ok [OF fe] that [OF prep rf] show thesis
    by (simp add: ata_def tin_def tout_def)
qed

text \<open>
  The same with the accrual itself in view: which pool is accrued, with which offer, and that the
  order starts from the ledger the accrual leaves.
\<close>

lemma accrue_before_mint_runs:
  assumes "accrue_before_mint e spl st a True mo ba L = Ok (accr, ba1, L1)"
  obtains main r b b1 where "mo = Some main" "accr = Some r" "load_buffer_state e ba = Ok b"
    "accrue_buffer spl st main (k_token_out_mint a) (ba_reserve_vault_onyc_account ba)
      (ba_management_fee_vault_onyc_account ba) (ba_performance_fee_vault_onyc_account ba)
      (k_mint_authority a) (k_token_out_program a) (unix_timestamp e) b L = Ok (r, b1, L1)"
    "load_buffer_state e ba1 = Ok b1" "ar_timestamp r = unix_timestamp e"
proof -
  from assms obtain main r where mo: "mo = Some main" "accr = Some r"
    and acc: "accrue_buffer_from_accounts e spl st ba main (k_token_out_mint a) (k_mint_authority a)
      (k_token_out_program a) L = Ok (r, ba1, L1)"
    unfolding accrue_before_mint_def by auto
  from acc obtain b b1 where b: "load_buffer_state e ba = Ok b"
    "accrue_buffer spl st main (k_token_out_mint a) (ba_reserve_vault_onyc_account ba)
      (ba_management_fee_vault_onyc_account ba) (ba_performance_fee_vault_onyc_account ba)
      (k_mint_authority a) (k_token_out_program a) (unix_timestamp e) b L = Ok (r, b1, L1)"
    "store_buffer_state ba b1 = Ok ba1"
    unfolding accrue_buffer_from_accounts_def by auto
  moreover have "ar_timestamp r = unix_timestamp e"
    using b(2) unfolding accrue_buffer_def Let_def by (auto split: if_splits)
  ultimately show ?thesis
    by (intro that [OF mo]) (auto simp: load_buffer_state_Ok store_buffer_state_Ok)
qed

lemma store_post_offer_supply_pool:
  assumes "store_post_offer_supply e err out (Some r) ba = Ok ba'" and "load_buffer_state e ba = Ok b"
  shows "load_buffer_state e ba' = Ok (b\<lparr>b_previous_supply := ar_post_accrual_supply r + out,
    b_last_accrual_timestamp := ar_timestamp r\<rparr>)"
  using assms by (auto simp: store_post_offer_supply_def store_buffer_post_supply_def load_buffer_state_Ok
      store_buffer_state_Ok set_buffer_baseline_after_supply_change_def)

lemma prepare_take_offer_v2_main_offer:
  assumes "prepare_take_offer_v2 e sv st a amount approval ba = Ok (r, True, mo, bps)"
  shows "\<exists>main. mo = Some main \<and> load_main_offer e (k2_main_offer a) st = Ok main"
  using assms unfolding prepare_take_offer_v2_def
  by (auto simp: should_accrue_onyc_mint_def split: if_splits)

definition buffer_accrued_for_order ::
  "env \<Rightarrow> spl_token \<Rightarrow> state \<Rightarrow> take_offer_v2_accounts \<Rightarrow> offer \<Rightarrow> buffer_accrual_accounts \<Rightarrow> ledger \<Rightarrow>
     buffer_state \<Rightarrow> ledger \<Rightarrow> bool" where
  "buffer_accrued_for_order e spl st a main ba L b1 L1 \<longleftrightarrow> (\<exists>b r.
     load_buffer_state e ba = Ok b \<and>
     accrue_buffer spl st main (k_token_out_mint a) (ba_reserve_vault_onyc_account ba)
       (ba_management_fee_vault_onyc_account ba) (ba_performance_fee_vault_onyc_account ba)
       (pda e [Seed ''mint_authority'']) (k_token_out_program a) (unix_timestamp e) b L = Ok (r, b1, L1) \<and>
     (\<forall>k. l_supply L1 k = l_supply L k + (if k = m_key (k_token_out_mint a) then ar_buffer_mint_amount r else 0)) \<and>
     ar_reserve_mint_amount r + ar_management_fee_mint_amount r + ar_performance_fee_mint_amount r =
       ar_buffer_mint_amount r \<and>
     (\<forall>x. int (l_bal L1 x) = int (l_bal L x)
        + part (x = t_key (ba_reserve_vault_onyc_account ba)) (ar_reserve_mint_amount r)
        + part (x = t_key (ba_management_fee_vault_onyc_account ba)) (ar_management_fee_mint_amount r)
        + part (x = t_key (ba_performance_fee_vault_onyc_account ba)) (ar_performance_fee_mint_amount r)))"

lemma settle_take_offer_v2_accrues:
  assumes laws: "spl_laws spl"
    and fresh: "m_supply (k_token_out_mint a) = l_supply (ow_ledger w) (m_key (k_token_out_mint a))"
    and distinct: "m_key (k_token_in_mint a) \<noteq> m_key (k_token_out_mint a)"
    and should: "should \<Longrightarrow> program_controls_mint (k_token_out_mint a) (k_mint_authority a)"
    and ma: "k_mint_authority a = pda e [Seed ''mint_authority'']"
    and ok: "settle_take_offer_v2 e spl st a r should mo proceeds fee rdst refill user_out w = Ok w'"
  defines "burns \<equiv> program_controls_mint (k_token_in_mint a) (k_mint_authority a)"
    and "mints \<equiv> program_controls_mint (k_token_out_mint a) (k_mint_authority a)"
    and "tin \<equiv> m_key (k_token_in_mint a)" and "tout \<equiv> m_key (k_token_out_mint a)"
  shows "\<exists>L1. (\<forall>x. int (l_bal (ow_ledger w') x) = int (l_bal L1 x)
        - part (x = t_key (k_user_token_in_account a)) (op_token_in_net_amount r + op_token_in_fee_amount r)
        + part (\<not> burns \<and> rdst = Some x) refill
        + part (\<not> burns \<and> x = proceeds) (op_token_in_net_amount r - refill)
        + part (x = fee) (op_token_in_fee_amount r)
        - part (\<not> mints \<and> x = t_key (k_vault_token_out_account a)) (op_token_out_amount r)
        + part (x = user_out) (op_token_out_amount r)) \<and>
    (\<forall>k. int (l_supply (ow_ledger w') k) = int (l_supply L1 k)
        - part (burns \<and> k = tin) (op_token_in_net_amount r) + part (mints \<and> k = tout) (op_token_out_amount r)) \<and>
    (if should then \<exists>main b1. mo = Some main \<and>
        buffer_accrued_for_order e spl st a main (ow_buffer_accounts w) (ow_ledger w) b1 L1 \<and>
        load_buffer_state e (ow_buffer_accounts w') =
          Ok (b1\<lparr>b_previous_supply := l_supply (ow_ledger w') tout, b_last_accrual_timestamp := unix_timestamp e\<rparr>)
     else L1 = ow_ledger w \<and> ow_buffer_accounts w' = ow_buffer_accounts w)"
proof -
  from ok obtain accr ba1 L1 where
    acc: "accrue_before_mint e spl st a should mo (ow_buffer_accounts w) (ow_ledger w) = Ok (accr, ba1, L1)"
    and ex: "execute_token_operations spl (offer_order st a r
         (if accr \<noteq> None then reload L1 (k_token_out_mint a) else k_token_out_mint a) (k_user a)
         (t_key (k_user_token_in_account a)) proceeds rdst refill fee user_out) L1 = Ok (ow_ledger w')"
    and store: "store_post_offer_supply e MathOverflow (op_token_out_amount r) accr ba1 = Ok (ow_buffer_accounts w')"
    unfolding settle_take_offer_v2_def Let_def by (auto split del: if_split)
  define m where "m = (if accr \<noteq> None then reload L1 (k_token_out_mint a) else k_token_out_mint a)"
  have m: "m_key m = m_key (k_token_out_mint a)" "m_mint_authority m = m_mint_authority (k_token_out_mint a)"
    by (simp_all add: m_def)
  note eff = offer_order_effect [OF laws m ex [folded m_def], folded burns_def mints_def tin_def tout_def]
  have "if should then \<exists>main b1. mo = Some main \<and>
        buffer_accrued_for_order e spl st a main (ow_buffer_accounts w) (ow_ledger w) b1 L1 \<and>
        load_buffer_state e (ow_buffer_accounts w') =
          Ok (b1\<lparr>b_previous_supply := l_supply (ow_ledger w') tout, b_last_accrual_timestamp := unix_timestamp e\<rparr>)
     else L1 = ow_ledger w \<and> ow_buffer_accounts w' = ow_buffer_accounts w"
  proof (cases should)
    case True
    with acc obtain main rr b b1 where mo: "mo = Some main" "accr = Some rr"
      and b: "load_buffer_state e (ow_buffer_accounts w) = Ok b" "load_buffer_state e ba1 = Ok b1"
      and ab: "accrue_buffer spl st main (k_token_out_mint a) (ba_reserve_vault_onyc_account (ow_buffer_accounts w))
        (ba_management_fee_vault_onyc_account (ow_buffer_accounts w))
        (ba_performance_fee_vault_onyc_account (ow_buffer_accounts w))
        (pda e [Seed ''mint_authority'']) (k_token_out_program a) (unix_timestamp e) b (ow_ledger w) = Ok (rr, b1, L1)"
      and ts: "ar_timestamp rr = unix_timestamp e"
      by (auto simp: ma elim!: accrue_before_mint_runs)
    note ae = accrue_buffer_effect [OF laws fresh ab, unfolded accrual_effect_def]
    have "l_supply (ow_ledger w') tout = l_supply L1 tout + op_token_out_amount r"
      using eff(2) [of tout] distinct should [OF True] by (simp add: part_def mints_def tin_def tout_def)
    moreover have "ar_post_accrual_supply rr = l_supply L1 tout" using ae by (simp add: tout_def)
    ultimately have "load_buffer_state e (ow_buffer_accounts w') =
        Ok (b1\<lparr>b_previous_supply := l_supply (ow_ledger w') tout, b_last_accrual_timestamp := unix_timestamp e\<rparr>)"
      using store_post_offer_supply_pool [OF store [unfolded mo(2)] b(2)] ts by simp
    moreover have "buffer_accrued_for_order e spl st a main (ow_buffer_accounts w) (ow_ledger w) b1 L1"
      using b(1) ab ae unfolding buffer_accrued_for_order_def by blast
    ultimately show ?thesis using True mo(1) by auto
  next
    case False
    with acc have "accr = None" "ba1 = ow_buffer_accounts w" "L1 = ow_ledger w"
      by (simp_all add: accrue_before_mint_def)
    with False store show ?thesis by (simp add: store_post_offer_supply_def)
  qed
  with eff(1,2) show ?thesis by blast
qed

text \<open>
  C7: Taking an offer in the second version settles the BUFFER before it mints. It passes the
  same checks and converts at the same price as the first. When the output is ONyc under the
  program's control and the BUFFER is initialized, the stored pool is first accrued on the ledger
  with the main offer of the state: \<open>accrue_buffer\<close> leaves the ledger \<open>L1\<close>, with the accrued amount
  in the supply and its three parts in the BUFFER vaults; afterwards the stored pool is the
  accrued one with the actual supply and the current time as baseline. Otherwise nothing is
  accrued (\<open>L1\<close> is the starting ledger) and the BUFFER is untouched. From \<open>L1\<close> on every balance
  and supply changes by exactly the order: the user pays the amount, a refill of at most the net
  amount goes to the redemption vault, the rest to the proceeds vault (or the net amount is
  burned), the fee to the fee vault, the output to the user, minted within the cap where one is
  set or out of the offer vault.
\<close>

theorem take_offer_v2_settles_buffer_and_order:
  assumes laws: "spl_laws spl"
    and fresh: "m_supply (k_token_out_mint a) = l_supply (ow_ledger w) (m_key (k_token_out_mint a))"
    and distinct: "m_key (k_token_in_mint a) \<noteq> m_key (k_token_out_mint a)"
    and ok: "take_offer_v2 e spl sv st a amount approval w = Ok w'"
  defines "ata \<equiv> get_associated_token_address_with_program_id e"
    and "burns \<equiv> program_controls_mint (k_token_in_mint a) (pda e [Seed ''mint_authority''])"
    and "mints \<equiv> program_controls_mint (k_token_out_mint a) (pda e [Seed ''mint_authority''])"
    and "tin \<equiv> m_key (k_token_in_mint a)" and "tout \<equiv> m_key (k_token_out_mint a)"
    and "ba \<equiv> ow_buffer_accounts w" and "L \<equiv> ow_ledger w" and "L' \<equiv> ow_ledger w'"
  shows "\<exists>offer price net fee out refill L1. a_data (k_offer a) = AccountData offer \<and>
    \<not> is_disabled offer \<and> \<not> s_is_killed st \<and>
    verify_offer_approval e offer approval (k_user a) (s_approver1 st) (s_approver2 st) sv = Ok () \<and>
    compute_offer_current_price offer (i64_as_u64 (unix_timestamp e)) = Ok price \<and>
    calculate_fees amount (o_fee_basis_points offer) =
      Ok \<lparr>fr_token_in_fee_amount = fee, fr_token_in_net_amount = net\<rparr> \<and>
    calculate_token_out_amount net price (m_decimals (k_token_in_mint a))
      (m_decimals (k_token_out_mint a)) = Ok out \<and> refill \<le> net \<and>
    (if tout = s_onyc_mint st \<and> mints \<and> check_is_initialized e ba = Ok True
     then \<exists>main b1. load_main_offer e (k2_main_offer a) st = Ok main \<and>
       buffer_accrued_for_order e spl st a main ba L b1 L1 \<and>
       load_buffer_state e (ow_buffer_accounts w') =
         Ok (b1\<lparr>b_previous_supply := l_supply L' tout, b_last_accrual_timestamp := unix_timestamp e\<rparr>)
     else L1 = L \<and> ow_buffer_accounts w' = ba) \<and>
    (\<forall>x. int (l_bal L' x) = int (l_bal L1 x)
        - part (x = ata (k_user a) tin (k_token_in_program a)) amount
        + part (\<not> burns \<and> x = ata (pda e [Seed ''redemption_offer_vault_authority'']) tin
            (k_token_in_program a)) refill
        + part (\<not> burns \<and> x = ata (pda e (vault_seeds OfferProceeds)) tin (k_token_in_program a)) (net - refill)
        + part (x = ata (pda e (vault_seeds OfferFee)) tin (k_token_in_program a)) fee
        - part (\<not> mints \<and> x = ata (pda e [Seed ''offer_vault_authority'']) tout (k_token_out_program a)) out
        + part (x = ata (k_user a) tout (k_token_out_program a)) out) \<and>
    (\<forall>k. int (l_supply L' k) = int (l_supply L1 k)
        - part (burns \<and> k = tin) net + part (mints \<and> k = tout) out) \<and>
    (mints \<and> 0 < s_max_supply st \<longrightarrow> l_supply L' tout \<le> s_max_supply st)"
proof -
  from ok obtain r should mo bps pv fv rdst refill where
    prep: "prepare_take_offer_v2 e sv st a amount approval ba = Ok (r, should, mo, bps)"
    and rf: "redemption_refill e a (k2_redemption_vault_token_in_account a) (Some (ow_market_stats w)) bps
      (op_token_in_net_amount r) L = Ok (rdst, refill)"
    and settle: "settle_take_offer_v2 e spl st a r should mo
      (ata (pda e (vault_seeds OfferProceeds)) tin (k_token_in_program a))
      (ata (pda e (vault_seeds OfferFee)) tin (k_token_in_program a)) rdst refill
      (ata (k_user a) tout (k_token_out_program a)) (w\<lparr>ow_proceeds_vault := pv, ow_fee_vault := fv\<rparr>) = Ok w'"
    unfolding tin_def tout_def ba_def L_def ata_def by (rule take_offer_v2_steps)
  from prep obtain offer init where chk: "check_take_offer_accounts e st None a = Ok offer"
    and en: "\<not> is_disabled offer" and va: "k_vault_authority a = pda e [Seed ''offer_vault_authority'']"
    and ma: "k_mint_authority a = pda e [Seed ''mint_authority'']"
    and appr: "verify_offer_approval e offer approval (k_user a) (s_approver1 st) (s_approver2 st) sv = Ok ()"
    and r: "process_offer_core e offer amount (k_token_in_mint a) (k_token_out_mint a)
      (o_fee_basis_points offer) = Ok r"
    and init: "check_is_initialized e ba = Ok init"
    and should: "should = should_accrue_onyc_mint st (k_token_out_mint a) init (k_mint_authority a)"
    by (rule prepare_take_offer_v2_Ok)
  note c = check_take_offer_accounts_Ok [OF chk]
  have should': "should \<longleftrightarrow> tout = s_onyc_mint st \<and> mints \<and> check_is_initialized e ba = Ok True"
    by (auto simp: should should_accrue_onyc_mint_def is_onyc_token_out_mint_def init mints_def ma tout_def)
  have accs: "t_key (k_user_token_in_account a) = ata (k_user a) tin (k_token_in_program a)"
    "t_key (k_vault_token_out_account a) = ata (pda e [Seed ''offer_vault_authority'']) tout (k_token_out_program a)"
    using c(4,5) va by (simp_all add: ata_def tin_def tout_def)
  have rd: "part (b \<and> rdst = Some x) refill = part (b \<and> x = ata (pda e [Seed ''redemption_offer_vault_authority''])
      tin (k_token_in_program a)) refill" for b x
    using redemption_refill_Ok [OF rf] by (auto simp: part_def ata_def tin_def)
  note core = process_offer_core_Ok [OF r] process_offer_core_pays [OF r]
  have sm: "should \<Longrightarrow> mints" by (simp add: should')
  define w1 where "w1 = w\<lparr>ow_proceeds_vault := pv, ow_fee_vault := fv\<rparr>"
  have w1: "ow_ledger w1 = L" "ow_buffer_accounts w1 = ba" by (simp_all add: w1_def L_def ba_def)
  note eff = settle_take_offer_v2_effect [OF laws _ distinct _ settle [folded w1_def],
      unfolded w1 ma core(7) accs, folded tout_def burns_def mints_def L'_def, OF fresh [folded L_def tout_def] sm]
  note accr = settle_take_offer_v2_accrues [OF laws _ distinct _ ma settle [folded w1_def],
      unfolded w1 ma core(7) accs, folded tout_def tin_def burns_def mints_def L'_def, OF fresh [folded L_def tout_def] sm]
  then obtain L1 where order: "\<forall>x. int (l_bal L' x) = int (l_bal L1 x)
        - part (x = ata (k_user a) tin (k_token_in_program a)) amount
        + part (\<not> burns \<and> x = ata (pda e [Seed ''redemption_offer_vault_authority'']) tin
            (k_token_in_program a)) refill
        + part (\<not> burns \<and> x = ata (pda e (vault_seeds OfferProceeds)) tin (k_token_in_program a))
            (op_token_in_net_amount r - refill)
        + part (x = ata (pda e (vault_seeds OfferFee)) tin (k_token_in_program a)) (op_token_in_fee_amount r)
        - part (\<not> mints \<and> x = ata (pda e [Seed ''offer_vault_authority'']) tout (k_token_out_program a))
            (op_token_out_amount r)
        + part (x = ata (k_user a) tout (k_token_out_program a)) (op_token_out_amount r)"
    "\<forall>k. int (l_supply L' k) = int (l_supply L1 k)
        - part (burns \<and> k = tin) (op_token_in_net_amount r) + part (mints \<and> k = tout) (op_token_out_amount r)"
    and pool: "if should then \<exists>main b1. mo = Some main \<and> buffer_accrued_for_order e spl st a main ba L b1 L1 \<and>
        load_buffer_state e (ow_buffer_accounts w') =
          Ok (b1\<lparr>b_previous_supply := l_supply L' tout, b_last_accrual_timestamp := unix_timestamp e\<rparr>)
      else L1 = L \<and> ow_buffer_accounts w' = ba"
    unfolding rd by blast
  have pool': "if tout = s_onyc_mint st \<and> mints \<and> check_is_initialized e ba = Ok True
     then \<exists>main b1. load_main_offer e (k2_main_offer a) st = Ok main \<and>
       buffer_accrued_for_order e spl st a main ba L b1 L1 \<and>
       load_buffer_state e (ow_buffer_accounts w') =
         Ok (b1\<lparr>b_previous_supply := l_supply L' tout, b_last_accrual_timestamp := unix_timestamp e\<rparr>)
     else L1 = L \<and> ow_buffer_accounts w' = ba"
    using pool prepare_take_offer_v2_main_offer [of e sv st a amount approval ba r mo bps] prep
    unfolding should' [symmetric] by (cases should) auto
  have "refill \<le> op_token_in_net_amount r"
    and "mints \<and> 0 < s_max_supply st \<longrightarrow> l_supply L' tout \<le> s_max_supply st"
    using eff by blast+
  then show ?thesis using c(1,2) en appr core(1-3) order pool' by blast
qed

section \<open>Approval of direct takes\<close>

lemma take_offer_approved:
  assumes "take_offer e spl sv st a amount approval L = Ok L'" and "a_data (k_offer a) = AccountData offer"
  shows "verify_offer_approval e offer approval (k_user a) (s_approver1 st) (s_approver2 st) sv = Ok ()"
  using assms check_take_offer_accounts_Ok(1) [of e st "Some (k_boss a)" a] unfolding take_offer_def by auto

lemma take_offer_v2_approved:
  assumes "take_offer_v2 e spl sv st a amount approval w = Ok w'" and "a_data (k_offer a) = AccountData offer"
  shows "verify_offer_approval e offer approval (k_user a) (s_approver1 st) (s_approver2 st) sv = Ok ()"
  using assms check_take_offer_accounts_Ok(1) [of e st None a]
  unfolding take_offer_v2_def execute_take_offer_v2_def prepare_take_offer_v2_def
  by (auto split del: if_split)

text \<open>
  C24: A direct take, of the first or of the second version, of a stored offer that requires
  approval succeeds only with one: a message for this program and this user that has not expired,
  carried by the instruction right before, which is an Ed25519 verification without accounts, of
  exactly one signature by an approver set in the state, over exactly that message.
  (Permissionless execution checks neither the flag nor a signature, by design; it is open only
  for offers that allow it.)
\<close>

theorem direct_take_needs_fresh_signature_of_an_approver:
  assumes taken: "a = take_accounts.truncate a1 \<and> take_offer e spl sv st a1 amount approval L = Ok L' \<or>
      a = take_accounts.truncate a2 \<and> take_offer_v2 e spl sv st a2 amount approval w = Ok w'"
    and offer: "a_data (k_offer a) = AccountData offer" and need: "needs_approval offer"
  shows "\<exists>msg i ix parsed. approval = Some msg \<and>
    am_program_id msg = program_id e \<and> am_user_pubkey msg = k_user a \<and>
    i64_as_u64 (unix_timestamp e) \<le> am_expiry_unix msg \<and>
    load_current_index_checked sv = Some (i + 1) \<and> load_instruction_at_checked sv i = Some ix \<and>
    ix_program_id ix = ed25519_program_id sv \<and> ix_accounts ix = [] \<and>
    parse_ed25519_ix (ix_data ix) = Some parsed \<and> pe_sig_count parsed = 1 \<and>
    (\<exists>k \<in> {s_approver1 st, s_approver2 st}. k \<noteq> default_pubkey \<and> pe_pubkey parsed = to_bytes sv k) \<and>
    try_from_slice sv (pe_message parsed) = Some msg"
proof -
  have "verify_offer_approval e offer approval (k_user a) (s_approver1 st) (s_approver2 st) sv = Ok ()"
    using taken offer by (auto simp: take_accounts.truncate_def dest: take_offer_approved take_offer_v2_approved)
  from verified_approval_is_fresh_signature [OF this need] show ?thesis .
qed

section \<open>Permissionless execution\<close>

text \<open>The intermediary accounts pass on exactly what they receive.\<close>

lemma route_permissionless_effect:
  assumes laws: "spl_laws spl" and key: "m_key m = m_key (k_token_out_mint a)"
    and auth: "m_mint_authority m = m_mint_authority (k_token_out_mint a)"
    and pays: "op_token_in_net_amount r + op_token_in_fee_amount r = amount"
    and ok: "route_permissionless spl st a r m amount pin dst fdst pout rdst refill user_out L = Ok L'"
  defines "burns \<equiv> program_controls_mint (k_token_in_mint a) (k_mint_authority a)"
    and "mints \<equiv> program_controls_mint (k_token_out_mint a) (k_mint_authority a)"
  shows "int (l_bal L' x) = int (l_bal L x)
        - part (x = t_key (k_user_token_in_account a)) amount
        + part (\<not> burns \<and> rdst = Some x) refill
        + part (\<not> burns \<and> x = dst) (op_token_in_net_amount r - refill)
        + part (x = fdst) (op_token_in_fee_amount r)
        - part (\<not> mints \<and> x = t_key (k_vault_token_out_account a)) (op_token_out_amount r)
        + part (x = user_out) (op_token_out_amount r)"
    and "int (l_supply L' k) = int (l_supply L k)
        - part (burns \<and> k = m_key (k_token_in_mint a)) (op_token_in_net_amount r)
        + part (mints \<and> k = m_key (k_token_out_mint a)) (op_token_out_amount r)"
proof -
  from ok obtain L1 L2 where
    1: "transfer_tokens spl (k_token_in_mint a) (t_key (k_user_token_in_account a)) pin (k_user a) amount L = Ok L1"
    and 2: "execute_token_operations spl (offer_order st a r m (kp_permissionless_authority a) pin dst rdst
       refill fdst pout) L1 = Ok L2"
    and 3: "transfer_tokens spl m pout user_out (kp_permissionless_authority a) (op_token_out_amount r) L2 = Ok L'"
    unfolding route_permissionless_def by auto
  note e = transfer_tokens_effect [OF laws 1] offer_order_effect(1,2) [OF laws key auth 2]
    transfer_tokens_effect [OF laws 3]
  show "int (l_bal L' x) = int (l_bal L x)
        - part (x = t_key (k_user_token_in_account a)) amount
        + part (\<not> burns \<and> rdst = Some x) refill
        + part (\<not> burns \<and> x = dst) (op_token_in_net_amount r - refill)
        + part (x = fdst) (op_token_in_fee_amount r)
        - part (\<not> mints \<and> x = t_key (k_vault_token_out_account a)) (op_token_out_amount r)
        + part (x = user_out) (op_token_out_amount r)"
    unfolding burns_def mints_def by (simp add: e pays)
  show "int (l_supply L' k) = int (l_supply L k)
        - part (burns \<and> k = m_key (k_token_in_mint a)) (op_token_in_net_amount r)
        + part (mints \<and> k = m_key (k_token_out_mint a)) (op_token_out_amount r)"
    unfolding burns_def mints_def by (simp add: e)
qed

text \<open>The second version accrues around the same movements.\<close>

lemma permissionless_buffer_effect:
  assumes laws: "spl_laws spl" and fresh: "m_supply (k_token_out_mint a) = l_supply L (m_key (k_token_out_mint a))"
    and distinct: "m_key (k_token_in_mint a) \<noteq> m_key (k_token_out_mint a)"
    and ok: "execute_take_offer_permissionless e spl st a offer amount pin dst fdst pout uo fo (Some ba) mr rr L =
      Ok (L', ba', ms)"
  defines "tout \<equiv> m_key (k_token_out_mint a)"
    and "mints \<equiv> program_controls_mint (k_token_out_mint a) (pda e [Seed ''mint_authority''])"
  shows "\<exists>ba1 r accrued init. ba' = Some ba1 \<and> check_is_initialized e ba = Ok init \<and>
    process_offer_core e offer amount (k_token_in_mint a) (k_token_out_mint a)
      (case fo of Some bps \<Rightarrow> bps | None \<Rightarrow> o_fee_basis_points offer) = Ok r \<and>
    l_supply L' tout = l_supply L tout + accrued + (if mints then op_token_out_amount r else 0) \<and>
    (\<forall>k. k \<noteq> tout \<longrightarrow> k \<noteq> m_key (k_token_in_mint a) \<longrightarrow> l_supply L' k = l_supply L k) \<and>
    (if tout = s_onyc_mint st \<and> mints \<and> init
     then \<exists>b. load_buffer_state e ba1 = Ok b \<and> b_last_accrual_timestamp b = unix_timestamp e \<and>
       b_previous_supply b = l_supply L' tout
     else accrued = 0 \<and> ba1 = ba)"
proof -
  from ok obtain r should mo accr ba0 L1 rd rf ba1 where
    prep: "prepare_permissionless e st a offer amount fo (Some ba) mr = Ok (r, should, mo)"
    and acc: "accrue_before_mint e spl st a should mo ba L = Ok (accr, ba0, L1)"
    and route: "route_permissionless spl st a r (if accr \<noteq> None then reload L1 (k_token_out_mint a)
        else k_token_out_mint a) amount pin dst fdst pout rd rf uo L1 = Ok L'"
    and store: "store_post_offer_supply e OverflowError (op_token_out_amount r) accr ba0 = Ok ba1" "ba' = Some ba1"
    unfolding execute_take_offer_permissionless_def Let_def by (auto split del: if_split)
  from prep obtain init where init: "check_is_initialized e ba = Ok init"
    and core: "process_offer_core e offer amount (k_token_in_mint a) (k_token_out_mint a)
      (case fo of Some bps \<Rightarrow> bps | None \<Rightarrow> o_fee_basis_points offer) = Ok r"
    and ma: "k_mint_authority a = pda e [Seed ''mint_authority'']"
    and should: "should = should_accrue_onyc_mint st (k_token_out_mint a) init (k_mint_authority a)"
    unfolding prepare_permissionless_def by (auto split del: if_split split: option.splits)
  have should': "should \<longleftrightarrow> tout = s_onyc_mint st \<and> mints \<and> init"
    by (auto simp: should should_accrue_onyc_mint_def is_onyc_token_out_mint_def mints_def ma tout_def)
  have sup: "int (l_supply L' k) = int (l_supply L1 k)
      - part (program_controls_mint (k_token_in_mint a) (k_mint_authority a) \<and> k = m_key (k_token_in_mint a))
          (op_token_in_net_amount r)
      + part (mints \<and> k = tout) (op_token_out_amount r)" for k
    using route_permissionless_effect(2) [OF laws _ _ process_offer_core_pays [OF core] route]
    by (simp add: mints_def tout_def ma)
  have stout: "l_supply L' tout = l_supply L1 tout + (if mints then op_token_out_amount r else 0)"
    using sup [of tout] distinct by (auto simp: tout_def split: if_splits)
  have others: "l_supply L' k = l_supply L1 k" if "k \<noteq> tout" "k \<noteq> m_key (k_token_in_mint a)" for k
    using sup [of k] that by simp
  show ?thesis
  proof (cases should)
    case True
    then have "l_supply L' (m_key (k_token_out_mint a)) = l_supply L1 (m_key (k_token_out_mint a)) + op_token_out_amount r"
      using stout should' by (simp add: tout_def)
    from accrued_baseline [OF laws fresh acc this store(1), folded tout_def] True obtain accrued where
      a: "\<forall>k. l_supply L1 k = l_supply L k + (if k = tout then accrued else 0)"
      "\<exists>b. load_buffer_state e ba1 = Ok b \<and> b_last_accrual_timestamp b = unix_timestamp e \<and>
        b_previous_supply b = l_supply L' tout"
      by auto
    show ?thesis
      by (rule exI [of _ ba1], rule exI [of _ r], rule exI [of _ accrued], rule exI [of _ init])
        (use True store(2) init core stout others a in \<open>simp flip: should'\<close>)
  next
    case False
    then have n: "accr = None" "ba0 = ba" "L1 = L" using accrue_before_mint_effect [OF laws fresh acc] by auto
    then have "ba1 = ba" using store(1) by (simp add: store_post_offer_supply_def)
    then show ?thesis
      by (intro exI [of _ ba1] exI [of _ r] exI [of _ 0] exI [of _ init])
        (use False store(2) init core stout others n in \<open>simp flip: should'\<close>)
  qed
qed

lemma take_offer_permissionless_effect:
  assumes laws: "spl_laws spl" and ok: "take_offer_permissionless e spl st a amount approval L = Ok L'"
  obtains offer r where "a_data (k_offer a) = AccountData offer" "allow_permissionless offer"
    "process_offer_core e offer amount (k_token_in_mint a) (k_token_out_mint a) (o_fee_basis_points offer) = Ok r"
    "route_permissionless spl st a r (k_token_out_mint a) amount
      (t_key (kp_permissionless_token_in_account a)) (t_key (kp_boss_token_in_account a))
      (t_key (kp_boss_token_in_account a)) (t_key (kp_permissionless_token_out_account a)) None 0
      (t_key (k_user_token_out_account a)) L = Ok L'"
    "t_key (kp_boss_token_in_account a) = get_associated_token_address_with_program_id e (s_boss st)
      (m_key (k_token_in_mint a)) (k_token_in_program a)"
proof -
  from ok obtain offer pin boss_in pout user_out ba ms where
    chk: "check_permissionless_accounts e st (Some (kp_boss a)) a = Ok offer"
    and pin: "get_associated_token_account e (kp_permissionless_token_in_account a)
       (kp_permissionless_authority a) (m_key (k_token_in_mint a)) (k_token_in_program a) AnchorConstraint = Ok pin"
    and bi: "get_associated_token_account e (kp_boss_token_in_account a) (kp_boss a)
         (m_key (k_token_in_mint a)) (k_token_in_program a) InvalidBossTokenInAccount = Ok boss_in"
    and po: "get_associated_token_account e (kp_permissionless_token_out_account a)
         (kp_permissionless_authority a) (m_key (k_token_out_mint a)) (k_token_out_program a)
         InvalidPermissionlessTokenOutAccount = Ok pout"
    and uo: "get_or_create_associated_token_account e (k_user_token_out_account a) (k_user a)
         (m_key (k_token_out_mint a)) (k_token_out_program a) InvalidUserTokenOutAccount = Ok user_out"
    and ex: "execute_take_offer_permissionless e spl st a offer amount pin boss_in boss_in pout user_out
         None None None None L = Ok (L', ba, ms)"
    unfolding take_offer_permissionless_def by auto
  have keys: "pin = t_key (kp_permissionless_token_in_account a)" "boss_in = t_key (kp_boss_token_in_account a)"
    "pout = t_key (kp_permissionless_token_out_account a)" "user_out = t_key (k_user_token_out_account a)"
    using pin bi po get_or_create_associated_token_account_Ok(1) [OF uo]
    by (simp_all add: get_associated_token_account_Ok)
  have c: "a_data (k_offer a) = AccountData offer" "kp_boss a = s_boss st"
    using chk unfolding check_permissionless_accounts_def Let_def by auto
  from ex obtain r where "allow_permissionless offer"
    "process_offer_core e offer amount (k_token_in_mint a) (k_token_out_mint a) (o_fee_basis_points offer) = Ok r"
    "route_permissionless spl st a r (k_token_out_mint a) amount pin boss_in boss_in pout None 0 user_out L = Ok L'"
    unfolding execute_take_offer_permissionless_def prepare_permissionless_def permissionless_refill_amount_def
    by auto
  then show ?thesis
    using bi c by (intro that) (simp_all add: keys get_associated_token_account_Ok)
qed

text \<open>
  C32: The permissionless execution moves tokens exactly like the direct one. Whenever an offer
  can be taken both ways with the same accounts from the same ledger, the ledgers afterwards are
  equal: the permissionless authority's accounts keep nothing. It is open only for offers that
  allow it.
\<close>

theorem permissionless_moves_tokens_like_direct:
  fixes d :: take_offer_accounts and p :: take_offer_permissionless_accounts
  assumes laws: "spl_laws spl" and direct: "take_offer e spl sv st d amount approval L = Ok Ld"
    and perm: "take_offer_permissionless e spl st p amount approval' L = Ok Lp"
    and same: "take_accounts.truncate d = take_accounts.truncate p"
  shows "Lp = Ld \<and> (\<exists>offer. a_data (k_offer p) = AccountData offer \<and> allow_permissionless offer)"
proof -
  have eq: "k_offer d = k_offer p" "k_vault_authority d = k_vault_authority p"
    "k_vault_token_out_account d = k_vault_token_out_account p" "k_token_in_mint d = k_token_in_mint p"
    "k_token_in_program d = k_token_in_program p" "k_token_out_mint d = k_token_out_mint p"
    "k_user_token_in_account d = k_user_token_in_account p"
    "k_user_token_out_account d = k_user_token_out_account p" "k_mint_authority d = k_mint_authority p"
    using same by (simp_all add: take_accounts.truncate_def)
  from perm obtain offer r where offer: "a_data (k_offer p) = AccountData offer" "allow_permissionless offer"
    and r: "process_offer_core e offer amount (k_token_in_mint p) (k_token_out_mint p)
      (o_fee_basis_points offer) = Ok r"
    and route: "route_permissionless spl st p r (k_token_out_mint p) amount
      (t_key (kp_permissionless_token_in_account p)) (t_key (kp_boss_token_in_account p))
      (t_key (kp_boss_token_in_account p)) (t_key (kp_permissionless_token_out_account p)) None 0
      (t_key (k_user_token_out_account p)) L = Ok Lp"
    and boss: "t_key (kp_boss_token_in_account p) = get_associated_token_address_with_program_id e (s_boss st)
      (m_key (k_token_in_mint p)) (k_token_in_program p)"
    by (rule take_offer_permissionless_effect [OF laws])
  from direct obtain offer' user_out boss_in r' where
    chk: "check_take_offer_accounts e st (Some (k_boss d)) d = Ok offer'"
    and uo: "get_or_create_associated_token_account e (k_user_token_out_account d) (k_user d)
      (m_key (k_token_out_mint d)) (k_token_out_program d) AnchorConstraint = Ok user_out"
    and bi: "get_associated_token_account e (k_boss_token_in_account d) (k_boss d) (m_key (k_token_in_mint d))
      (k_token_in_program d) AnchorConstraint = Ok boss_in"
    and r': "process_offer_core e offer' amount (k_token_in_mint d) (k_token_out_mint d)
      (o_fee_basis_points offer') = Ok r'"
    and ex: "execute_token_operations spl (offer_order st d r' (k_token_out_mint d) (k_user d)
      (t_key (k_user_token_in_account d)) boss_in None 0 boss_in user_out) L = Ok Ld"
    unfolding take_offer_def by auto
  note c = check_take_offer_accounts_Ok [OF chk]
  have o: "offer' = offer" using c(1) offer(1) by (simp add: eq)
  have rr: "r' = r" using r r' by (simp add: o eq)
  have accs: "user_out = t_key (k_user_token_out_account p)" "boss_in = t_key (kp_boss_token_in_account p)"
    using get_or_create_associated_token_account_Ok(1) [OF uo] bi c(6) [OF refl] boss
    by (simp_all add: eq get_associated_token_account_Ok)
  note e = route_permissionless_effect [OF laws refl refl process_offer_core_pays [OF r] route]
    offer_order_effect(1,2) [OF laws refl refl ex, unfolded rr eq accs process_offer_core_pays [OF r]]
  have "l_bal Lp = l_bal Ld" and "l_supply Lp = l_supply Ld"
    by (rule ext, rule iffD1 [OF of_nat_eq_iff [where 'a = int]], simp add: e)+
  then show ?thesis using offer by (auto intro: ledger.equality)
qed

section \<open>Worked examples\<close>

definition sample_direct :: take_offer_accounts where
  "sample_direct = \<lparr>k_offer = sample_main_offer\<lparr>a_key := 199\<rparr>, k_vault_authority = 105,
     k_vault_token_in_account = sample_token 2071, k_vault_token_out_account = sample_token 2072,
     k_token_in_mint = sample_mint 21 None 0, k_token_in_program = 9,
     k_token_out_mint = sample_onyc, k_token_out_program = 9,
     k_user_token_in_account = sample_token 1081, k_user_token_out_account = sample_token 1082,
     k_mint_authority = 104, k_user = 6,
     k_boss = 7, k_boss_token_in_account = sample_token 1091, k_instructions_sysvar = 91\<rparr>"

definition sample_direct_v2 :: take_offer_v2_accounts where
  "sample_direct_v2 = \<lparr>k_offer = sample_main_offer\<lparr>a_key := 199\<rparr>, k_vault_authority = 105,
     k_vault_token_in_account = sample_token 2071, k_vault_token_out_account = sample_token 2072,
     k_token_in_mint = sample_mint 21 None 0, k_token_in_program = 9,
     k_token_out_mint = sample_onyc, k_token_out_program = 9,
     k_user_token_in_account = sample_token 1081, k_user_token_out_account = sample_token 1082,
     k_mint_authority = 104, k_user = 6,
     k2_instructions_sysvar = 91, k2_redemption_offer = absent_account 199,
     k2_redemption_vault_token_in_account = sample_token 2091,
     k2_offer_proceeds_token_in_account = sample_token 3011,
     k2_offer_fee_token_in_account = sample_token 3011,
     k2_excluded_balance = absent_account 102, k2_main_offer = sample_main_offer\<rparr>"

definition sample_permissionless :: take_offer_permissionless_accounts where
  "sample_permissionless = \<lparr>k_offer = sample_main_offer\<lparr>a_key := 199\<rparr>, k_vault_authority = 105,
     k_vault_token_in_account = sample_token 2071, k_vault_token_out_account = sample_token 2072,
     k_token_in_mint = sample_mint 21 None 0, k_token_in_program = 9,
     k_token_out_mint = sample_onyc, k_token_out_program = 9,
     k_user_token_in_account = sample_token 1081, k_user_token_out_account = sample_token 1082,
     k_mint_authority = 104, k_user = 6,
     kp_permissionless_authority = 199, kp_permissionless_token_in_account = sample_token 3011,
     kp_permissionless_token_out_account = sample_token 3012,
     kp_boss = 7, kp_boss_token_in_account = sample_token 1091, kp_instructions_sysvar = 91\<rparr>"

definition sample_purse :: ledger where
  "sample_purse = \<lparr>l_bal = (\<lambda>x. if x = 1081 then 1000 else 0), l_supply = (\<lambda>_. 5000)\<rparr>"

lemma sample_more_pdas [simp]:
  "sample_pda (offer_seeds 21 22) = (199, 255)" "sample_pda [Seed ''permissionless-1''] = (199, 255)"
  "sample_pda (redemption_offer_seeds 22 21) = (199, 255)"
  by (simp_all add: offer_seeds_def redemption_offer_seeds_def sample_pda_def)

lemma sample_offer_flags: "\<not> is_disabled sample_offer" "\<not> needs_approval sample_offer"
  "allow_permissionless sample_offer" "o_token_in_mint sample_offer = 21" "o_token_out_mint sample_offer = 22"
  "o_fee_basis_points sample_offer = 50"
  by (simp_all add: sample_offer_def is_disabled_def needs_approval_def allow_permissionless_def)

lemma sample_core_at_fee:
  assumes "calculate_fees 1000 bps = Ok \<lparr>fr_token_in_fee_amount = fee, fr_token_in_net_amount = net\<rparr>"
    and "calculate_token_out_amount net 1000267397 6 6 = Ok out"
  shows "process_offer_core sample_env sample_offer 1000 (sample_mint 21 None 0) sample_onyc bps =
     Ok \<lparr>op_current_price = 1000267397, op_token_in_net_amount = net, op_token_in_fee_amount = fee,
         op_token_out_amount = out\<rparr>"
proof -
  have "compute_offer_current_price sample_offer 5000 = Ok 1000267397"
    by (simp add: compute_offer_current_price_def sample_price)
  then have "calculate_current_step_price 5000 (v_apr sample_vector) (v_base_price sample_vector)
      (v_base_time sample_vector) (v_price_fix_duration sample_vector) = Ok 1000267397"
    by (auto simp: compute_offer_current_price_def get_active_vector_and_current_price_def sample_active
        calculate_current_step_price_def i64_as_u64_def)
  then show ?thesis
    using assms
    by (simp add: process_offer_core_def process_offer_core_at_def sample_onyc_def sample_mint_def
        require_mints_def sample_offer_flags sample_active i64_as_u64_def cong: eval_congs)
qed

lemma sample_core:
  "process_offer_core sample_env sample_offer 1000 (sample_mint 21 None 0) sample_onyc 50 =
     Ok \<lparr>op_current_price = 1000267397, op_token_in_net_amount = 995, op_token_in_fee_amount = 5,
         op_token_out_amount = 994\<rparr>"
  by (rule sample_core_at_fee)
    (use calculate_fees_total(1) [of 1000 50] in \<open>simp_all add: token_out_amount_Ok const_defs int_defs\<close>)

lemmas take_eval_simps = require_enabled_def require_mints_def sample_offer_flags
  get_associated_token_account_def get_or_create_associated_token_account_def
  validate_associated_token_address_def token_account_try_from_def sample_token_def sample_main_offer_def
  load_pda_account_def deserialize_pda_account_def sample_config_def zero_state_def
  validate_take_offer_authorities_def verify_offer_approval_def

lemma sample_mint_keys [simp]: "m_key (sample_mint k au n) = k" "m_key sample_onyc = 22"
  by (simp_all add: sample_mint_def sample_onyc_def)

lemma sample_direct_check:
  "check_take_offer_accounts sample_env sample_config (Some 7) sample_direct = Ok sample_offer"
  by (simp add: check_take_offer_accounts_def sample_direct_def Let_def take_eval_simps cong: eval_congs)

lemma sample_exchange_ok:
  "l_bal L 1081 = 1000 \<Longrightarrow> l_supply L 22 = 5000 \<Longrightarrow> \<exists>L'. execute_token_operations plain_token_program (offer_order sample_config sample_direct
     \<lparr>op_current_price = 1000267397, op_token_in_net_amount = 995, op_token_in_fee_amount = 5,
         op_token_out_amount = 994\<rparr> sample_onyc 6 1081 1091 None 0 1091 1082) L = Ok L'"
  by (simp add: execute_token_operations_def pay_token_in_def distribute_token_out_def Let_def
        token_eval_simps offer_order_def sample_direct_def sample_mint_def sample_onyc_def
        sample_config_def zero_state_def int_defs cong: eval_congs)

lemma sample_direct_ok:
  assumes "l_bal L 1081 = 1000" and "l_supply L 22 = 5000"
  shows "\<exists>L'. take_offer sample_env plain_token_program sv sample_config sample_direct 1000 None L = Ok L'"
proof -
  have "k_boss sample_direct = 7" "k_token_out_mint sample_direct = sample_onyc"
    "k_token_in_mint sample_direct = sample_mint 21 None 0" "k_user sample_direct = 6"
    by (simp_all add: sample_direct_def)
  moreover have "get_or_create_associated_token_account sample_env (k_user_token_out_account sample_direct) 6
      22 (k_token_out_program sample_direct) AnchorConstraint = Ok 1082"
    "get_associated_token_account sample_env (k_boss_token_in_account sample_direct) 7 21
      (k_token_in_program sample_direct) AnchorConstraint = Ok 1091"
    "t_key (k_user_token_in_account sample_direct) = 1081"
    "validate_take_offer_authorities sample_env (k_vault_authority sample_direct) (k_mint_authority sample_direct)
      (k_instructions_sysvar sample_direct) = Ok (255, 255)"
    by (simp_all add: sample_direct_def take_eval_simps)
  moreover have "verify_offer_approval sample_env sample_offer None 6 a1 a2 sv = Ok ()" for a1 a2
    by (simp add: take_eval_simps)
  ultimately show ?thesis
    using sample_exchange_ok [OF assms]
    by (simp add: take_offer_def sample_direct_check require_enabled_def sample_offer_flags sample_core
        cong: eval_congs)
qed

lemma sample_purse_ok:
  "\<exists>L'. take_offer sample_env plain_token_program sv sample_config sample_direct 1000 None sample_purse = Ok L'"
  by (rule sample_direct_ok) (simp_all add: sample_purse_def)

theorem take_offer_executes_at_current_price_witness:
  "\<exists>L' out. take_offer sample_env plain_token_program sample_sysvar sample_config sample_direct 1000 None
       sample_purse = Ok L' \<and> int (l_bal L' 1081) = 0 \<and> int (l_bal L' 1091) = 1000 \<and>
     int (l_supply L' 22) = 5000 + int out \<and> int (l_bal L' 1082) = int out"
proof -
  obtain L' where ok: "take_offer sample_env plain_token_program sample_sysvar sample_config sample_direct 1000
      None sample_purse = Ok L'"
    using sample_purse_ok by blast
  have s: "k_token_in_mint sample_direct = sample_mint 21 None 0" "k_token_out_mint sample_direct = sample_onyc"
    "k_user sample_direct = 6" "s_boss sample_config = 7" "l_supply sample_purse 22 = 5000"
    "\<not> program_controls_mint (sample_mint 21 None 0) 104" "program_controls_mint sample_onyc 104"
    "l_bal sample_purse 1081 = 1000" "l_bal sample_purse 1091 = 0" "l_bal sample_purse 1082 = 0"
    by (simp_all add: sample_direct_def sample_config_def sample_purse_def program_controls_mint_def
        sample_onyc_def sample_mint_def)
  from take_offer_executes_at_current_price [OF plain_token_program_laws ok] obtain out where
    bal: "\<forall>x. int (l_bal L' x) = int (l_bal sample_purse x) - part (x = 1081) 1000 + part (x = 1091) 1000
      + part (x = 1082) out"
    and sup: "\<forall>k. int (l_supply L' k) = int (l_supply sample_purse k) + part (k = 22) out"
    by (auto simp: s)
  have "int (l_bal L' 1081) = 0 \<and> int (l_bal L' 1091) = 1000 \<and> int (l_supply L' 22) = 5000 + int out \<and>
      int (l_bal L' 1082) = int out"
    using bal sup by (simp add: s)
  then show ?thesis using ok by blast
qed

lemma sample_permissionless_ok:
  "\<exists>L'. take_offer_permissionless sample_env plain_token_program sample_config sample_permissionless 1000 None
     sample_purse = Ok L'"
proof -
  let ?r = "\<lparr>op_current_price = 1000267397, op_token_in_net_amount = 995, op_token_in_fee_amount = 5,
         op_token_out_amount = 994\<rparr>"
  have chk: "check_permissionless_accounts sample_env sample_config (Some 7) sample_permissionless = Ok sample_offer"
    by (simp add: check_permissionless_accounts_def sample_permissionless_def Let_def take_eval_simps
        cong: eval_congs)
  have prep: "prepare_permissionless sample_env sample_config sample_permissionless sample_offer 1000 None None None
      = Ok (?r, False, None)"
    by (simp add: prepare_permissionless_def sample_permissionless_def require_enabled_def require_mints_def
        sample_offer_flags sample_core cong: eval_congs)
  have route: "\<exists>L'. route_permissionless plain_token_program sample_config sample_permissionless ?r sample_onyc
      1000 3011 1091 1091 3012 None 0 1082 sample_purse = Ok L'"
    by (simp add: route_permissionless_def execute_token_operations_def pay_token_in_def distribute_token_out_def
        Let_def token_eval_simps offer_order_def sample_permissionless_def sample_purse_def sample_mint_def
        sample_onyc_def sample_token_def sample_config_def zero_state_def int_defs cong: eval_congs)
  have "kp_boss sample_permissionless = 7" "k_token_out_mint sample_permissionless = sample_onyc"
    "k_token_in_mint sample_permissionless = sample_mint 21 None 0" "k_user sample_permissionless = 6"
    "kp_permissionless_authority sample_permissionless = 199" "k_vault_authority sample_permissionless = 105"
    "kp_instructions_sysvar sample_permissionless = 91"
    by (simp_all add: sample_permissionless_def)
  moreover have
    "get_associated_token_account sample_env (kp_permissionless_token_in_account sample_permissionless) 199 21
      (k_token_in_program sample_permissionless) AnchorConstraint = Ok 3011"
    "get_associated_token_account sample_env (kp_permissionless_token_out_account sample_permissionless) 199 22
      (k_token_out_program sample_permissionless) InvalidPermissionlessTokenOutAccount = Ok 3012"
    "get_associated_token_account sample_env (kp_boss_token_in_account sample_permissionless) 7 21
      (k_token_in_program sample_permissionless) InvalidBossTokenInAccount = Ok 1091"
    "get_or_create_associated_token_account sample_env (k_user_token_out_account sample_permissionless) 6
      22 (k_token_out_program sample_permissionless) InvalidUserTokenOutAccount = Ok 1082"
    by (simp_all add: sample_permissionless_def take_eval_simps)
  ultimately show ?thesis
    using route
    by (auto simp: take_offer_permissionless_def chk execute_take_offer_permissionless_def prep
        permissionless_refill_amount_def cong: eval_congs)
qed

lemma sample_approved_take_ok:
  fixes a :: take_offer_accounts
  defines "a \<equiv> sample_direct\<lparr>k_offer := (k_offer sample_direct)\<lparr>a_data := AccountData (set_approval True sample_offer)\<rparr>\<rparr>"
  shows "\<exists>L'. take_offer sample_env plain_token_program sample_sysvar (sample_config\<lparr>s_approver1 := 7\<rparr>) a 1000
    (Some sample_message) sample_purse = Ok L'"
proof -
  let ?o = "set_approval True sample_offer" and ?st = "sample_config\<lparr>s_approver1 := 7\<rparr>"
  have flags: "\<not> is_disabled ?o" "o_token_in_mint ?o = 21" "o_token_out_mint ?o = 22" "o_fee_basis_points ?o = 50"
    by (simp_all add: set_approval_def sample_offer_def is_disabled_def)
  have core: "process_offer_core sample_env ?o 1000 (sample_mint 21 None 0) sample_onyc 50 =
     Ok \<lparr>op_current_price = 1000267397, op_token_in_net_amount = 995, op_token_in_fee_amount = 5,
         op_token_out_amount = 994\<rparr>"
    using sample_core by (simp add: process_offer_core_def process_offer_core_at_def require_mints_def
        find_active_vector_at_def set_approval_def cong: eval_congs)
  have sel: "k_boss a = 7" "k_token_out_mint a = sample_onyc" "k_token_in_mint a = sample_mint 21 None 0"
    "k_user a = 6" "t_key (k_user_token_in_account a) = 1081" "s_approver1 ?st = 7" "s_approver2 ?st = 0"
    by (simp_all add: a_def sample_direct_def sample_token_def sample_config_def zero_state_def default_pubkey_def)
  have chk: "check_take_offer_accounts sample_env ?st (Some 7) a = Ok ?o"
    by (simp add: check_take_offer_accounts_def a_def sample_direct_def Let_def take_eval_simps flags cong: eval_congs)
  have accs: "get_or_create_associated_token_account sample_env (k_user_token_out_account a) 6
      22 (k_token_out_program a) AnchorConstraint = Ok 1082"
    "get_associated_token_account sample_env (k_boss_token_in_account a) 7 21 (k_token_in_program a)
      AnchorConstraint = Ok 1091"
    "validate_take_offer_authorities sample_env (k_vault_authority a) (k_mint_authority a)
      (k_instructions_sysvar a) = Ok (255, 255)"
    by (simp_all add: a_def sample_direct_def take_eval_simps)
  have order: "offer_order ?st a r m au src dst rd n fd od = offer_order sample_config sample_direct r m au src dst rd n fd od"
    for r m au src dst rd n fd od by (simp add: offer_order_def a_def)
  have "l_bal sample_purse 1081 = 1000" "l_supply sample_purse 22 = 5000" by (simp_all add: sample_purse_def)
  from sample_exchange_ok [OF this] show ?thesis
    by (simp add: take_offer_def chk accs sel require_enabled_def flags core sample_approval_ok order cong: eval_congs)
qed

theorem direct_take_needs_fresh_signature_of_an_approver_witness:
  "\<exists>L' ix parsed. take_offer sample_env plain_token_program sample_sysvar (sample_config\<lparr>s_approver1 := 7\<rparr>)
       (sample_direct\<lparr>k_offer := (k_offer sample_direct)\<lparr>a_data := AccountData (set_approval True sample_offer)\<rparr>\<rparr>) 1000
       (Some sample_message) sample_purse = Ok L' \<and>
     am_user_pubkey sample_message = 6 \<and> load_instruction_at_checked sample_sysvar 2 = Some ix \<and>
     parse_ed25519_ix (ix_data ix) = Some parsed \<and> pe_pubkey parsed = replicate 32 7"
proof -
  let ?a = "sample_direct\<lparr>k_offer := (k_offer sample_direct)\<lparr>a_data := AccountData (set_approval True sample_offer)\<rparr>\<rparr>"
  obtain L' where ok: "take_offer sample_env plain_token_program sample_sysvar (sample_config\<lparr>s_approver1 := 7\<rparr>) ?a
      1000 (Some sample_message) sample_purse = Ok L'"
    using sample_approved_take_ok by blast
  have offer: "a_data (k_offer (take_accounts.truncate ?a)) = AccountData (set_approval True sample_offer)"
    and need: "needs_approval (set_approval True sample_offer)"
    by (simp_all add: take_accounts.truncate_def needs_approval_def set_approval_def)
  have sel: "k_user (take_accounts.truncate ?a) = 6" "s_approver1 (sample_config\<lparr>s_approver1 := 7\<rparr>) = 7"
    "s_approver2 (sample_config\<lparr>s_approver1 := 7\<rparr>) = default_pubkey"
    "load_current_index_checked sample_sysvar = Some 3" "to_bytes sample_sysvar = (\<lambda>k. replicate 32 k)"
    by (simp_all add: take_accounts.truncate_def sample_direct_def sample_config_def zero_state_def sample_sysvar_def)
  from direct_take_needs_fresh_signature_of_an_approver [OF disjI1 [OF conjI [OF refl ok]] offer need] ok
  show ?thesis unfolding sel by auto
qed

theorem permissionless_moves_tokens_like_direct_witness:
  "\<exists>L'. take_offer sample_env plain_token_program sample_sysvar sample_config sample_direct 1000 None
       sample_purse = Ok L' \<and>
     take_offer_permissionless sample_env plain_token_program sample_config sample_permissionless 1000 None
       sample_purse = Ok L'"
proof -
  obtain Ld Lp where ok: "take_offer sample_env plain_token_program sample_sysvar sample_config sample_direct 1000
      None sample_purse = Ok Ld"
    "take_offer_permissionless sample_env plain_token_program sample_config sample_permissionless 1000 None
      sample_purse = Ok Lp"
    using sample_purse_ok sample_permissionless_ok by blast
  have "take_accounts.truncate sample_direct = take_accounts.truncate sample_permissionless"
    by (simp add: take_accounts.truncate_def sample_direct_def sample_permissionless_def)
  from permissionless_moves_tokens_like_direct [OF plain_token_program_laws ok this] ok show ?thesis by blast
qed

theorem refill_tops_vault_up_to_target_witness:
  "\<exists>r. calculate_redemption_vault_refill_amount sample_env ((absent_account 101)\<lparr>a_owner := 50,
       a_data := AccountData sample_stats\<rparr>) 1000 (sample_mint 21 None 0) sample_onyc 100 300 = Ok r \<and>
     r \<le> 300 \<and> 100 + r \<le> max 100 500"
proof -
  let ?acc = "(absent_account 101)\<lparr>a_owner := 50, a_data := AccountData sample_stats\<rparr>"
  have "read_market_stats_account sample_env ?acc = Ok sample_stats"
    by (simp add: read_market_stats_account_def)
  from refill_tops_vault_up_to_target [OF this, of 1000 "sample_mint 21 None 0" sample_onyc 300 100]
  show ?thesis
    by (auto simp: sample_stats_def sample_onyc_def sample_mint_def const_defs int_defs)
qed

definition sample_offer_world :: offer_world where
  "sample_offer_world = \<lparr>ow_ledger = sample_purse, ow_proceeds_vault = absent_account 199,
     ow_fee_vault = absent_account 199, ow_buffer_accounts = w_buffer_accounts sample_world,
     ow_market_stats = absent_account 101\<rparr>"

lemma sample_v2_prepare:
  "prepare_take_offer_v2 sample_env sv sample_config sample_direct_v2 1000 None (w_buffer_accounts sample_world) =
     Ok (\<lparr>op_current_price = 1000267397, op_token_in_net_amount = 995, op_token_in_fee_amount = 5,
         op_token_out_amount = 994\<rparr>, True, Some sample_offer, 0)"
proof -
  have "check_take_offer_accounts sample_env sample_config None sample_direct_v2 = Ok sample_offer"
    by (simp add: check_take_offer_accounts_def sample_direct_v2_def Let_def take_eval_simps cong: eval_congs)
  moreover have "check_is_initialized sample_env (w_buffer_accounts sample_world) = Ok True"
    by (simp add: check_is_initialized_def load_buffer_state_def load_pda_account_def deserialize_pda_account_def
        sample_world_def)
  moreover have "load_main_offer sample_env (k2_main_offer sample_direct_v2) sample_config = Ok sample_offer"
    by (simp add: load_main_offer_def sample_direct_v2_def sample_config_def sample_main_offer_def)
  moreover have "is_onyc_token_out_mint sample_config sample_onyc"
    "should_accrue_onyc_mint sample_config sample_onyc True 104"
    by (simp_all add: should_accrue_onyc_mint_def is_onyc_token_out_mint_def sample_config_def
        program_controls_mint_def) (simp_all add: sample_onyc_def sample_mint_def)
  moreover have "load_redemption_offer_vault_target_bps_for_offer sample_env (absent_account 199) 199 21 22 = Ok None"
    by (simp add: load_redemption_offer_vault_target_bps_for_offer_def load_optional_checked_redemption_offer_def
        load_optional_pda_account_def absent_account_def cong: eval_congs)
  ultimately show ?thesis
    by (simp add: prepare_take_offer_v2_def require_enabled_def sample_offer_flags verify_offer_approval_def
        validate_take_offer_authorities_def cong: eval_congs)
      (simp add: sample_direct_v2_def sample_core cong: eval_congs)
qed

lemma sample_accrual_from_accounts:
  "\<exists>acc ba'. accrue_buffer_from_accounts sample_env plain_token_program sample_config
     (w_buffer_accounts sample_world) sample_offer sample_onyc 104 9 L = Ok (acc, ba', L) \<and>
     ar_post_accrual_supply acc = 5000 \<and> (\<exists>b. load_buffer_state sample_env ba' = Ok b)"
proof -
  let ?b = "sample_buffer\<lparr>b_previous_supply := 0\<rparr>" and ?ba = "w_buffer_accounts sample_world"
  have acc: "\<exists>r b'. accrue_buffer plain_token_program sample_config sample_offer sample_onyc
      (ba_reserve_vault_onyc_account ?ba) (ba_management_fee_vault_onyc_account ?ba)
      (ba_performance_fee_vault_onyc_account ?ba) 104 9 5000 ?b L = Ok (r, b', L) \<and>
      ar_post_accrual_supply r = 5000"
    by (simp add: accrue_buffer_def sample_price i64_as_u64_def checked_sub_i64_def int_defs
        sample_onyc_def sample_mint_def set_buffer_baseline_after_supply_change_def)
      (simp add: sample_buffer_def)
  have b: "load_buffer_state sample_env ?ba = Ok ?b"
    "validate_buffer_onyc_vault_accounts sample_env ?b ?ba sample_onyc 9 = Ok ()"
    by (simp_all add: load_buffer_state_Ok validate_buffer_onyc_vault_accounts_def sample_world_def
        sample_token_def) (simp_all add: sample_buffer_def)
  have st: "\<exists>ba'. store_buffer_state ?ba x = Ok ba' \<and> load_buffer_state sample_env ba' = Ok x" for x
    by (simp add: store_buffer_state_Ok load_buffer_state_Ok) (simp add: sample_world_def)
  from acc obtain r b' where 1: "accrue_buffer plain_token_program sample_config sample_offer sample_onyc
      (ba_reserve_vault_onyc_account ?ba) (ba_management_fee_vault_onyc_account ?ba)
      (ba_performance_fee_vault_onyc_account ?ba) 104 9 5000 ?b L = Ok (r, b', L)"
    "ar_post_accrual_supply r = 5000" by blast
  from st obtain ba' where "store_buffer_state ?ba b' = Ok ba'" "load_buffer_state sample_env ba' = Ok b'" by blast
  with 1 show ?thesis by (simp add: accrue_buffer_from_accounts_def b cong: eval_congs)
qed

lemma sample_accrual_before_mint:
  assumes "k_token_out_mint a = sample_onyc" and "k_mint_authority a = 104" and "k_token_out_program a = 9"
  shows "\<exists>acc ba'. accrue_before_mint sample_env plain_token_program sample_config a True
     (Some sample_offer) (w_buffer_accounts sample_world) L = Ok (Some acc, ba', L) \<and>
     ar_post_accrual_supply acc = 5000 \<and> (\<exists>b. load_buffer_state sample_env ba' = Ok b)"
  using sample_accrual_from_accounts [of L] by (auto simp: accrue_before_mint_def assms)

lemma sample_v2_settle:
  assumes "proceeds = 3011" and "fee = 3011"
  shows "\<exists>w'. settle_take_offer_v2 sample_env plain_token_program sample_config sample_direct_v2
     \<lparr>op_current_price = 1000267397, op_token_in_net_amount = 995, op_token_in_fee_amount = 5,
         op_token_out_amount = 994\<rparr> True (Some sample_offer) proceeds fee None 0 1082
     (sample_offer_world\<lparr>ow_proceeds_vault := pv, ow_fee_vault := fv\<rparr>) = Ok w'"
proof -
  let ?r = "\<lparr>op_current_price = 1000267397, op_token_in_net_amount = 995, op_token_in_fee_amount = 5,
         op_token_out_amount = 994\<rparr>"
  obtain acc ba' b where acc: "accrue_before_mint sample_env plain_token_program sample_config sample_direct_v2 True
     (Some sample_offer) (w_buffer_accounts sample_world) sample_purse = Ok (Some acc, ba', sample_purse)"
    "ar_post_accrual_supply acc = 5000" "load_buffer_state sample_env ba' = Ok b"
    using sample_accrual_before_mint [of sample_direct_v2 sample_purse] by (auto simp: sample_direct_v2_def)
  have re: "reload sample_purse sample_onyc = sample_onyc"
    by (simp add: reload_def sample_purse_def sample_onyc_def sample_mint_def)
  obtain L' where ex: "execute_token_operations plain_token_program (offer_order sample_config sample_direct_v2 ?r
       sample_onyc 6 1081 3011 None 0 3011 1082) sample_purse = Ok L'" and sup: "l_supply L' 22 = 5994"
    by (simp add: execute_token_operations_def pay_token_in_def distribute_token_out_def Let_def
        token_eval_simps offer_order_def sample_direct_v2_def sample_purse_def sample_mint_def sample_onyc_def
        sample_config_def zero_state_def int_defs cong: eval_congs)
  have rl: "reload L' sample_onyc = sample_mint 22 (Some 104) 5994"
    using sup by (simp add: reload_def sample_onyc_def sample_mint_def)
  obtain ba2 where store: "store_post_offer_supply sample_env MathOverflow 994 (Some acc) ba' = Ok ba2"
    using acc(2,3) by (simp add: store_post_offer_supply_def store_buffer_post_supply_def store_buffer_state_Ok
        load_buffer_state_Ok checked_add_def int_defs cong: eval_congs)
  obtain ms where ms: "refresh_market_stats_pda sample_env sample_offer (reload L' sample_onyc)
      (absent_account 102) (absent_account 101) = Ok ms"
    using sample_refresh_ok [of 5994] unfolding rl by (auto simp: is_ok_iff)
  have ra: "refresh_after_offer sample_env (Some sample_offer) sample_onyc (absent_account 102)
      (absent_account 101) L' = Ok ms"
    using ms by (simp add: refresh_after_offer_def) (simp add: absent_account_def)
  have onyc: "is_onyc_token_out_mint sample_config sample_onyc"
    by (simp add: is_onyc_token_out_mint_def sample_config_def)
  have sel: "k_token_out_mint sample_direct_v2 = sample_onyc" "k_user sample_direct_v2 = 6"
    "t_key (k_user_token_in_account sample_direct_v2) = 1081" "k2_excluded_balance sample_direct_v2 = absent_account 102"
    "ow_buffer_accounts sample_offer_world = w_buffer_accounts sample_world"
    "ow_ledger sample_offer_world = sample_purse" "ow_market_stats sample_offer_world = absent_account 101"
    by (simp_all add: sample_direct_v2_def sample_token_def sample_offer_world_def)
  show ?thesis
    by (simp add: settle_take_offer_v2_def sel acc re ex store onyc ra assms cong: eval_congs)
qed

lemma sample_v2_ok:
  "\<exists>w'. take_offer_v2 sample_env plain_token_program sv sample_config sample_direct_v2 1000 None
     sample_offer_world = Ok w'"
proof -
  have vault: "get_or_create_configurable_vault_token_account sample_env kind (absent_account 199)
      (sample_token 3011) 21 9 = Ok (3011, (absent_account 199)\<lparr>a_owner := 50,
        a_data := AccountData (vault_init_value kind 255)\<rparr>)" for kind
    by (simp add: get_or_create_configurable_vault_token_account_def absent_account_def vault_of_kind_def
        load_or_init_pda_account_def store_pda_account_def get_or_create_associated_token_account_def
        validate_associated_token_address_def token_account_try_from_def sample_token_def cong: eval_congs)
  have sel: "k2_offer_proceeds_token_in_account sample_direct_v2 = sample_token 3011"
    "k2_offer_fee_token_in_account sample_direct_v2 = sample_token 3011"
    "k_token_in_mint sample_direct_v2 = sample_mint 21 None 0" "k_token_in_program sample_direct_v2 = 9"
    "ow_buffer_accounts sample_offer_world = w_buffer_accounts sample_world"
    "ow_proceeds_vault sample_offer_world = absent_account 199" "ow_fee_vault sample_offer_world = absent_account 199"
    "k_token_out_mint sample_direct_v2 = sample_onyc" "k_user sample_direct_v2 = 6"
    by (simp_all add: sample_direct_v2_def sample_offer_world_def)
  have uo: "get_or_create_associated_token_account sample_env (k_user_token_out_account sample_direct_v2) 6 22
      (k_token_out_program sample_direct_v2) InvalidUserTokenOutAccount = Ok 1082"
    by (simp add: sample_direct_v2_def take_eval_simps)
  show ?thesis
    using sample_v2_settle [OF refl refl]
    by (simp add: take_offer_v2_def execute_take_offer_v2_def sel sample_v2_prepare
        get_or_create_configurable_vault_token_account_pair_def vault redemption_refill_def uo cong: eval_congs)
qed

theorem take_offer_v2_settles_buffer_and_order_witness:
  "\<exists>w' main b b1 L1. take_offer_v2 sample_env plain_token_program sample_sysvar sample_config sample_direct_v2
       1000 None sample_offer_world = Ok w' \<and>
     load_main_offer sample_env (k2_main_offer sample_direct_v2) sample_config = Ok main \<and>
     buffer_accrued_for_order sample_env plain_token_program sample_config sample_direct_v2 main
       (w_buffer_accounts sample_world) sample_purse b1 L1 \<and>
     int (l_bal (ow_ledger w') 1081) = int (l_bal L1 1081) - 1000 \<and>
     load_buffer_state sample_env (ow_buffer_accounts w') = Ok b \<and>
     b_previous_supply b = l_supply (ow_ledger w') 22"
proof -
  obtain w' where ok: "take_offer_v2 sample_env plain_token_program sample_sysvar sample_config sample_direct_v2
      1000 None sample_offer_world = Ok w'"
    using sample_v2_ok by blast
  have sel: "k_token_out_mint sample_direct_v2 = sample_onyc" "k_token_in_mint sample_direct_v2 = sample_mint 21 None 0"
    "k_user sample_direct_v2 = 6" "ow_ledger sample_offer_world = sample_purse" "s_onyc_mint sample_config = 22"
    "l_supply sample_purse 22 = 5000" "l_bal sample_purse 1081 = 1000" "program_controls_mint sample_onyc 104"
    "m_supply sample_onyc = 5000"
    "ow_buffer_accounts sample_offer_world = w_buffer_accounts sample_world"
    "t_key (ba_reserve_vault_onyc_account (w_buffer_accounts sample_world)) = 2082"
    "t_key (ba_management_fee_vault_onyc_account (w_buffer_accounts sample_world)) = 3012"
    "t_key (ba_performance_fee_vault_onyc_account (w_buffer_accounts sample_world)) = 3012"
    by (simp_all add: sample_direct_v2_def sample_offer_world_def sample_config_def sample_purse_def
        program_controls_mint_def sample_world_def sample_token_def) (simp_all add: sample_onyc_def sample_mint_def)
  have init: "check_is_initialized sample_env (w_buffer_accounts sample_world) = Ok True"
    by (simp add: check_is_initialized_def load_buffer_state_def load_pda_account_def deserialize_pda_account_def
        sample_world_def)
  have "m_supply (k_token_out_mint sample_direct_v2) =
      l_supply (ow_ledger sample_offer_world) (m_key (k_token_out_mint sample_direct_v2))"
    "m_key (k_token_in_mint sample_direct_v2) \<noteq> m_key (k_token_out_mint sample_direct_v2)"
    by (simp_all add: sel)
  note th = take_offer_v2_settles_buffer_and_order [OF plain_token_program_laws this ok]
  obtain main b1 L1 where "load_main_offer sample_env (k2_main_offer sample_direct_v2) sample_config = Ok main"
    "buffer_accrued_for_order sample_env plain_token_program sample_config sample_direct_v2 main
       (w_buffer_accounts sample_world) sample_purse b1 L1"
    "load_buffer_state sample_env (ow_buffer_accounts w') =
       Ok (b1\<lparr>b_previous_supply := l_supply (ow_ledger w') 22, b_last_accrual_timestamp := 5000\<rparr>)"
    and bal: "int (l_bal (ow_ledger w') 1081) = int (l_bal L1 1081) - 1000"
    using th by (elim exE conjE) (drule spec [of _ 1081], auto simp: sel init)
  with ok show ?thesis by fastforce
qed

end
