(* ===== verification/Hard_Wall.thy ===== *)
theory Hard_Wall
  imports Token_Ops "HOL-Library.Signed_Division"
begin

text \<open>
  The sell curve of the Prop AMM (\<open>prop_amm/hard_wall_math.rs\<close> and the curve of
  \<open>prop_amm/pricing.rs\<close>): fixed-point powers of the utilization, the wall that moves with
  sell pressure, the cadence wave, the haircut, and the tracker of sell and buy volume that
  feeds them. The pair's state is the record of \<open>prop_amm/config.rs\<close>.

  Shifts of unsigned integers are division and multiplication by powers of two (a left shift
  drops the bits above 128); signed division truncates towards zero (\<open>sdiv\<close>, \<open>smod\<close>).
\<close>

section \<open>Constants and state\<close>

definition CURVE_EXPONENT_SCALE :: u32 where [const_defs]: "CURVE_EXPONENT_SCALE = 10000"
definition CURVE_EXPONENT_STEP :: u32 where [const_defs]: "CURVE_EXPONENT_STEP = 1000"
definition CADENCE_WAVE_SCALE :: u128 where [const_defs]: "CADENCE_WAVE_SCALE = 10000"
definition CADENCE_WAVE_STEP :: u32 where [const_defs]: "CADENCE_WAVE_STEP = 1000"
definition MAX_CADENCE_WAVE_SCALED :: u32 where [const_defs]: "MAX_CADENCE_WAVE_SCALED = 50000"
definition CADENCE_WAVE_EASE :: u128 where [const_defs]: "CADENCE_WAVE_EASE = 8"
definition CADENCE_WAVE_CAP_DIVISOR :: u128 where [const_defs]: "CADENCE_WAVE_CAP_DIVISOR = 3"
definition WALL_SENSITIVITY_SCALE :: u128 where [const_defs]: "WALL_SENSITIVITY_SCALE = 10000"
definition HARD_WALL_SCALE :: u128 where [const_defs]: "HARD_WALL_SCALE = 1000000000000"
definition POW_APPROX_Q_SHIFT :: u32 where [const_defs]: "POW_APPROX_Q_SHIFT = 40"
definition POW_APPROX_Q :: u128 where [const_defs]: "POW_APPROX_Q = 1099511627776"
definition POW_APPROX_LN2_Q :: u128 where [const_defs]: "POW_APPROX_LN2_Q = 762123384786"
definition POW_APPROX_LOG2_E_Q :: u128 where [const_defs]: "POW_APPROX_LOG2_E_Q = 1586259972792"
definition LOG2_HARD_WALL_SCALE_Q :: i128 where [const_defs]: "LOG2_HARD_WALL_SCALE_Q = 43829982801540"

record prop_amm_pair_state =
  ps_offer :: pubkey
  ps_asset_mint :: pubkey
  ps_onyc_mint :: pubkey
  ps_enabled :: bool
  ps_curve_peg_haircut_bps :: u16
  ps_curve_exponent_scaled :: u32
  ps_cadence_threshold :: u32
  ps_cadence_wave_scaled :: u32
  ps_epoch_duration_seconds :: i64
  ps_wall_sensitivity_scaled :: u32
  ps_minimum_sell_haircut_onyc :: u64
  ps_curr_sell_value_stable :: u64
  ps_curr_buy_value_stable :: u64
  ps_prev_net_sell_value_stable :: u64
  ps_curr_sell_trade_count :: u32
  ps_epoch_start :: i64
  ps_bump :: u8

definition DEFAULT_CURVE_PEG_HAIRCUT_BPS :: u16 where [const_defs]: "DEFAULT_CURVE_PEG_HAIRCUT_BPS = 700"
definition DEFAULT_CURVE_EXPONENT_SCALED :: u32 where [const_defs]: "DEFAULT_CURVE_EXPONENT_SCALED = 25000"
definition DEFAULT_CADENCE_THRESHOLD :: u32 where [const_defs]: "DEFAULT_CADENCE_THRESHOLD = 20"
definition DEFAULT_CADENCE_WAVE_SCALED :: u32 where [const_defs]: "DEFAULT_CADENCE_WAVE_SCALED = 10000"
definition DEFAULT_EPOCH_DURATION_SECONDS :: i64 where [const_defs]: "DEFAULT_EPOCH_DURATION_SECONDS = 86400"
definition DEFAULT_WALL_SENSITIVITY_SCALED :: u32 where [const_defs]: "DEFAULT_WALL_SENSITIVITY_SCALED = 20000"
definition DEFAULT_MINIMUM_SELL_HAIRCUT_ONYC :: u64 where
  [const_defs]: "DEFAULT_MINIMUM_SELL_HAIRCUT_ONYC = 5000000000"

definition default_pair_state :: prop_amm_pair_state where
  "default_pair_state = \<lparr>ps_offer = default_pubkey, ps_asset_mint = default_pubkey,
     ps_onyc_mint = default_pubkey, ps_enabled = False,
     ps_curve_peg_haircut_bps = DEFAULT_CURVE_PEG_HAIRCUT_BPS,
     ps_curve_exponent_scaled = DEFAULT_CURVE_EXPONENT_SCALED,
     ps_cadence_threshold = DEFAULT_CADENCE_THRESHOLD,
     ps_cadence_wave_scaled = DEFAULT_CADENCE_WAVE_SCALED,
     ps_epoch_duration_seconds = DEFAULT_EPOCH_DURATION_SECONDS,
     ps_wall_sensitivity_scaled = DEFAULT_WALL_SENSITIVITY_SCALED,
     ps_minimum_sell_haircut_onyc = DEFAULT_MINIMUM_SELL_HAIRCUT_ONYC,
     ps_curr_sell_value_stable = 0, ps_curr_buy_value_stable = 0,
     ps_prev_net_sell_value_stable = 0, ps_curr_sell_trade_count = 0, ps_epoch_start = 0,
     ps_bump = 0\<rparr>"

section \<open>Fixed-point powers\<close>

definition bps_to_hard_wall_scale :: "u16 \<Rightarrow> u128 result" where
  "bps_to_hard_wall_scale bps =
     and_then (ok_or (checked_mul u128_max HARD_WALL_SCALE bps) MathOverflow) (\<lambda>v.
     ok_or (checked_div v MAX_BASIS_POINTS) DivByZero)"

definition validate_curve_exponent_scaled :: "u32 \<Rightarrow> unit result" where
  "validate_curve_exponent_scaled exponent_scaled =
     require (exponent_scaled \<le> saturating_mul u32_max CURVE_EXPONENT_SCALE 10) InvalidAmount (
     require (CURVE_EXPONENT_STEP dvd exponent_scaled) InvalidAmount (Ok ()))"

definition mul_scaled_saturating :: "u128 \<Rightarrow> u128 \<Rightarrow> u128" where
  "mul_scaled_saturating lhs rhs =
     (case checked_div (saturating_mul u128_max lhs rhs) HARD_WALL_SCALE of
        Some v \<Rightarrow> v | None \<Rightarrow> u128_max)"

definition integer_utilization_power_scaled :: "u128 \<Rightarrow> u32 \<Rightarrow> u128" where
  "integer_utilization_power_scaled u exponent =
     ((\<lambda>value. mul_scaled_saturating value u) ^^ exponent) HARD_WALL_SCALE"

text \<open>\<open>u128::BITS - 1 - leading_zeros\<close>, the position of the highest set bit.\<close>

fun msb_index :: "nat \<Rightarrow> nat" where
  "msb_index v = (if v \<le> 1 then 0 else 1 + msb_index (v div 2))"

declare msb_index.simps [simp del]

text \<open>The loop over the divisors of the logarithm's series.\<close>

fun log_series :: "u128 \<Rightarrow> u128 list \<Rightarrow> u128 \<Rightarrow> u128 \<Rightarrow> u128" where
  "log_series z2 [] term acc = acc"
| "log_series z2 (divisor # rest) term acc =
     (let term = saturating_mul u128_max term z2 div 2 ^ POW_APPROX_Q_SHIFT
      in log_series z2 rest term (saturating_add u128_max acc (term div divisor)))"

definition i128_clamp :: "int \<Rightarrow> i128" where
  "i128_clamp x = max (- (2 ^ 127)) (min (2 ^ 127 - 1) x)"

definition log2_integer_q :: "u128 \<Rightarrow> i128" where
  "log2_integer_q value =
     (let msb = msb_index value;
          mantissa_q = (if msb \<ge> POW_APPROX_Q_SHIFT then value div 2 ^ (msb - POW_APPROX_Q_SHIFT)
            else value * 2 ^ (POW_APPROX_Q_SHIFT - msb) mod 2 ^ 128);
          z = saturating_mul u128_max (saturating_sub mantissa_q POW_APPROX_Q) POW_APPROX_Q
            div saturating_add u128_max mantissa_q POW_APPROX_Q;
          z2 = saturating_mul u128_max z z div 2 ^ POW_APPROX_Q_SHIFT;
          ln_mantissa_q = saturating_mul u128_max (log_series z2 [3, 5, 7, 9, 11, 13] z z) 2;
          fractional_q = saturating_mul u128_max ln_mantissa_q POW_APPROX_LOG2_E_Q
            div 2 ^ POW_APPROX_Q_SHIFT
      in i128_clamp (i128_clamp (int msb * int POW_APPROX_Q) + int fractional_q))"

definition log2_hard_wall_scaled_q :: "u128 \<Rightarrow> i128" where
  "log2_hard_wall_scaled_q value = log2_integer_q value - LOG2_HARD_WALL_SCALE_Q"

text \<open>The loop over the divisors of the exponential's series.\<close>

fun exp_series :: "u128 \<Rightarrow> u128 list \<Rightarrow> u128 \<Rightarrow> u128 \<Rightarrow> u128" where
  "exp_series x [] term acc = acc"
| "exp_series x (divisor # rest) term acc =
     (let term = saturating_mul u128_max term x div 2 ^ POW_APPROX_Q_SHIFT div divisor
      in exp_series x rest term (saturating_add u128_max acc term))"

definition exp2_hard_wall_scaled_q :: "i128 \<Rightarrow> u128" where
  "exp2_hard_wall_scaled_q log2_value_q =
     (let q = int POW_APPROX_Q;
          fractional_part = log2_value_q smod q;
          integer_part = log2_value_q sdiv q;
          (fractional_part, integer_part) = (if fractional_part < 0
            then (fractional_part + q, integer_part - 1) else (fractional_part, integer_part));
          x_q = saturating_mul u128_max (nat fractional_part) POW_APPROX_LN2_Q
            div 2 ^ POW_APPROX_Q_SHIFT;
          exp_fraction_q = exp_series x_q [1, 2, 3, 4, 5, 6, 7, 8, 9, 10] POW_APPROX_Q POW_APPROX_Q;
          scaled = saturating_mul u128_max exp_fraction_q HARD_WALL_SCALE div 2 ^ POW_APPROX_Q_SHIFT
      in
      if integer_part \<ge> 0 then
        (let shift = nat integer_part mod 2 ^ 32 in
         if shift \<ge> 128 then u128_max
         else if scaled > u128_max div 2 ^ shift then u128_max
         else scaled * 2 ^ shift)
      else
        (let shift = nat (- integer_part) mod 2 ^ 32 in
         if shift \<ge> 128 then 0 else scaled div 2 ^ shift))"

definition utilization_power_scaled :: "u128 \<Rightarrow> u32 \<Rightarrow> u128 result" where
  "utilization_power_scaled u exponent_scaled =
     and_then (validate_curve_exponent_scaled exponent_scaled) (\<lambda>_.
     if exponent_scaled = 0 then Ok HARD_WALL_SCALE
     else if u = 0 then Ok 0
     else if u = HARD_WALL_SCALE then Ok HARD_WALL_SCALE
     else if CURVE_EXPONENT_SCALE dvd exponent_scaled then
       Ok (integer_utilization_power_scaled u (exponent_scaled div CURVE_EXPONENT_SCALE))
     else
       (let product = log2_hard_wall_scaled_q u * int exponent_scaled in
        require (product = i128_clamp product) MathOverflow (
        Ok (exp2_hard_wall_scaled_q (product sdiv int CURVE_EXPONENT_SCALE)))))"

section \<open>Haircuts\<close>

definition redemption_haircut_scaled :: "u128 \<Rightarrow> u16 \<Rightarrow> u32 \<Rightarrow> u128 result" where
  "redemption_haircut_scaled u curve_peg_haircut_bps curve_exponent_scaled =
     and_then (bps_to_hard_wall_scale curve_peg_haircut_bps) (\<lambda>peg_haircut.
     if peg_haircut = 0 then
       and_then (validate_curve_exponent_scaled curve_exponent_scaled) (\<lambda>_. Ok 0)
     else
       and_then (utilization_power_scaled u curve_exponent_scaled) (\<lambda>utilization_power.
       ok_or (checked_div (saturating_mul u128_max peg_haircut utilization_power) HARD_WALL_SCALE)
         DivByZero))"

definition preview_current_sell_trade_count :: "prop_amm_pair_state \<Rightarrow> i64 \<Rightarrow> u32 result" where
  "preview_current_sell_trade_count ps now =
     require (ps_epoch_duration_seconds ps > 0) InvalidAmount (
     if ps_epoch_start ps = 0 \<or> now < ps_epoch_start ps then Ok 0
     else
       and_then (ok_or (checked_sub_i64 now (ps_epoch_start ps)) ArithmeticUnderflow) (\<lambda>elapsed.
       if elapsed \<ge> ps_epoch_duration_seconds ps then Ok 0
       else Ok (ps_curr_sell_trade_count ps)))"

definition cadence_wave_y_for_quote_scaled :: "prop_amm_pair_state \<Rightarrow> i64 \<Rightarrow> u128 result" where
  "cadence_wave_y_for_quote_scaled ps now =
     (let threshold = ps_cadence_threshold ps; max_wave_y = ps_cadence_wave_scaled ps in
      require (threshold > 0) InvalidAmount (
      require (ps_cadence_wave_scaled ps \<le> MAX_CADENCE_WAVE_SCALED) InvalidAmount (
      require (CADENCE_WAVE_STEP dvd ps_cadence_wave_scaled ps) InvalidAmount (
      if max_wave_y = 0 then Ok 0
      else
        and_then (preview_current_sell_trade_count ps now) (\<lambda>quote_trade_count.
        if quote_trade_count = 0 then Ok 0
        else
          and_then (if quote_trade_count \<ge> threshold then Ok CADENCE_WAVE_SCALE
            else and_then (ok_or (checked_mul u128_max quote_trade_count CADENCE_WAVE_SCALE)
                MathOverflow) (\<lambda>v. ok_or (checked_div v threshold) DivByZero)) (\<lambda>ramp.
          and_then (ok_or (checked_mul u128_max max_wave_y ramp) MathOverflow) (\<lambda>v.
          ok_or (checked_div v CADENCE_WAVE_SCALE) DivByZero)))))))"

definition cadence_wave_target_haircut_scaled :: "u128 \<Rightarrow> u128 \<Rightarrow> u128 result" where
  "cadence_wave_target_haircut_scaled u wave_y_scaled =
     (if wave_y_scaled = 0 then Ok 0
      else
        (let normalized = min u HARD_WALL_SCALE in
         if normalized = 0 then Ok 0
         else
           (let remaining = saturating_sub HARD_WALL_SCALE normalized;
                eased_numerator = saturating_mul u128_max normalized CADENCE_WAVE_EASE
            in
            and_then (ok_or (checked_add u128_max eased_numerator remaining) MathOverflow)
              (\<lambda>eased_denominator.
            and_then (ok_or (checked_div (saturating_mul u128_max eased_numerator HARD_WALL_SCALE)
                eased_denominator) DivByZero) (\<lambda>eased_rise.
            and_then (ok_or (checked_mul u128_max CADENCE_WAVE_SCALE CADENCE_WAVE_CAP_DIVISOR)
                MathOverflow) (\<lambda>cap.
            and_then (ok_or (checked_div (saturating_mul u128_max eased_rise wave_y_scaled) cap)
                DivByZero) (\<lambda>target_haircut.
            Ok (min target_haircut HARD_WALL_SCALE))))))))"

section \<open>Sell pressure\<close>

definition roll_prop_amm_volume_tracker ::
  "prop_amm_pair_state \<Rightarrow> i64 \<Rightarrow> prop_amm_pair_state result" where
  "roll_prop_amm_volume_tracker ps now =
     (let epoch_duration = ps_epoch_duration_seconds ps;
          cleared = ps\<lparr>ps_epoch_start := now, ps_prev_net_sell_value_stable := 0,
            ps_curr_sell_value_stable := 0, ps_curr_buy_value_stable := 0,
            ps_curr_sell_trade_count := 0\<rparr>
      in
      require (epoch_duration > 0) InvalidAmount (
      if ps_epoch_start ps = 0 \<or> now < ps_epoch_start ps then Ok cleared
      else
        and_then (ok_or (checked_sub_i64 now (ps_epoch_start ps)) ArithmeticUnderflow) (\<lambda>elapsed.
        if elapsed \<ge> saturating_mul_i64 epoch_duration 2 then Ok cleared
        else if elapsed \<ge> epoch_duration then
          Ok (cleared\<lparr>ps_prev_net_sell_value_stable :=
            saturating_sub (ps_curr_sell_value_stable ps) (ps_curr_buy_value_stable ps)\<rparr>)
        else Ok ps)))"

definition record_prop_amm_sell ::
  "prop_amm_pair_state \<Rightarrow> u64 \<Rightarrow> i64 \<Rightarrow> prop_amm_pair_state result" where
  "record_prop_amm_sell ps sell_value_stable now =
     and_then (roll_prop_amm_volume_tracker ps now) (\<lambda>ps.
     and_then (ok_or (checked_add u64_max (ps_curr_sell_value_stable ps) sell_value_stable)
         MathOverflow) (\<lambda>sold.
     and_then (ok_or (checked_add u32_max (ps_curr_sell_trade_count ps) 1) MathOverflow) (\<lambda>count.
     Ok (ps\<lparr>ps_curr_sell_value_stable := sold, ps_curr_sell_trade_count := count\<rparr>))))"

definition record_prop_amm_buy ::
  "prop_amm_pair_state \<Rightarrow> u64 \<Rightarrow> i64 \<Rightarrow> prop_amm_pair_state result" where
  "record_prop_amm_buy ps buy_value_stable now =
     and_then (roll_prop_amm_volume_tracker ps now) (\<lambda>ps.
     and_then (ok_or (checked_add u64_max (ps_curr_buy_value_stable ps) buy_value_stable)
         MathOverflow) (\<lambda>bought.
     Ok (ps\<lparr>ps_curr_buy_value_stable := bought\<rparr>)))"

definition preview_effective_sell_volume :: "prop_amm_pair_state \<Rightarrow> u64 \<Rightarrow> i64 \<Rightarrow> u64 result" where
  "preview_effective_sell_volume ps current_sell_value_stable now =
     (let epoch_duration = ps_epoch_duration_seconds ps;
          current_net = saturating_sub (ps_curr_sell_value_stable ps) (ps_curr_buy_value_stable ps)
      in
      require (epoch_duration > 0) InvalidAmount (
      and_then (if ps_epoch_start ps = 0 \<or> now < ps_epoch_start ps then Ok (0, 0, 0)
        else
          and_then (ok_or (checked_sub_i64 now (ps_epoch_start ps)) ArithmeticUnderflow) (\<lambda>elapsed.
          if elapsed \<ge> saturating_mul_i64 epoch_duration 2 then Ok (0, 0, 0)
          else if elapsed \<ge> epoch_duration then Ok (current_net, 0, 0)
          else Ok (ps_prev_net_sell_value_stable ps, current_net, elapsed)))
        (\<lambda>(prev_net, curr_net, elapsed).
      and_then (ok_or (checked_sub_i64 epoch_duration elapsed) ArithmeticUnderflow) (\<lambda>remaining.
      and_then (ok_or (checked_mul u128_max prev_net (i64_as_u128 remaining)) MathOverflow) (\<lambda>v.
      and_then (ok_or (checked_div v (i64_as_u128 epoch_duration)) DivByZero) (\<lambda>decayed_prev.
      and_then (ok_or (Option.bind (checked_add u128_max decayed_prev curr_net) (\<lambda>v.
          checked_add u128_max v current_sell_value_stable)) MathOverflow) (\<lambda>effective.
      require (effective \<le> u64_max) MathOverflow (Ok (as_u64 effective))))))))) "

section \<open>The wall\<close>

definition dynamic_wall_position :: "u64 \<Rightarrow> u64 \<Rightarrow> u32 \<Rightarrow> u64 result" where
  "dynamic_wall_position actual_liquidity effective_sell_volume wall_sensitivity_scaled =
     require (actual_liquidity > 0) InsufficientBalance (
     if effective_sell_volume = 0 then Ok actual_liquidity
     else
       and_then (ok_or (checked_mul u128_max wall_sensitivity_scaled effective_sell_volume)
           MathOverflow) (\<lambda>v.
       and_then (ok_or (checked_div v actual_liquidity) DivByZero) (\<lambda>sensitivity_component.
       and_then (ok_or (checked_add u128_max WALL_SENSITIVITY_SCALE sensitivity_component)
           MathOverflow) (\<lambda>denominator.
       and_then (ok_or (checked_mul u128_max actual_liquidity WALL_SENSITIVITY_SCALE) MathOverflow)
         (\<lambda>numerator.
       and_then (ok_or (checked_div numerator denominator) DivByZero) (\<lambda>wall.
       require (wall \<le> u64_max) MathOverflow (
       Ok (max (as_u64 wall) 1))))))))"

definition dynamic_wall_liquidity_at_time ::
  "u64 \<Rightarrow> u64 \<Rightarrow> u64 \<Rightarrow> prop_amm_pair_state \<Rightarrow> i64 \<Rightarrow> u64 result" where
  "dynamic_wall_liquidity_at_time current_sell_value_stable actual_liquidity hard_wall_reserve ps now =
     (if ps_wall_sensitivity_scaled ps = 0 then Ok (min actual_liquidity hard_wall_reserve)
      else
        and_then (preview_effective_sell_volume ps current_sell_value_stable now) (\<lambda>volume.
        if volume = 0 then
          require (actual_liquidity > 0) InsufficientBalance (
          Ok (min actual_liquidity hard_wall_reserve))
        else
          and_then (dynamic_wall_position actual_liquidity volume (ps_wall_sensitivity_scaled ps))
            (\<lambda>wall_position.
          Ok (min wall_position hard_wall_reserve))))"

text \<open>The utilization of the wall by an order, and the haircut it costs.\<close>

definition utilization_scaled :: "u64 \<Rightarrow> u64 \<Rightarrow> u128 result" where
  "utilization_scaled token_out_amount effective_liquidity =
     (if token_out_amount = 0 then Ok 0
      else if token_out_amount = effective_liquidity then Ok HARD_WALL_SCALE
      else
        and_then (ok_or (checked_mul u128_max token_out_amount HARD_WALL_SCALE) MathOverflow) (\<lambda>v.
        ok_or (checked_div v effective_liquidity) DivByZero))"

definition sell_haircut :: "u128 \<Rightarrow> prop_amm_pair_state \<Rightarrow> i64 \<Rightarrow> u128 result" where
  "sell_haircut u ps now =
     and_then (redemption_haircut_scaled u (ps_curve_peg_haircut_bps ps) (ps_curve_exponent_scaled ps))
       (\<lambda>base_haircut.
     and_then (cadence_wave_y_for_quote_scaled ps now) (\<lambda>cadence_wave_y_scaled.
     and_then (cadence_wave_target_haircut_scaled u cadence_wave_y_scaled) (\<lambda>cadence_target_haircut.
     Ok (max base_haircut cadence_target_haircut))))"

definition apply_hard_wall_liquidity_factor_at_time ::
  "u64 \<Rightarrow> u64 \<Rightarrow> u64 \<Rightarrow> prop_amm_pair_state \<Rightarrow> i64 \<Rightarrow> u64 result" where
  "apply_hard_wall_liquidity_factor_at_time token_out_amount actual_liquidity hard_wall_reserve ps now =
     require (actual_liquidity > 0) InsufficientBalance (
     require (hard_wall_reserve > 0) InsufficientBalance (
     require (token_out_amount \<le> actual_liquidity) InsufficientBalance (
     and_then (dynamic_wall_liquidity_at_time token_out_amount actual_liquidity hard_wall_reserve ps
         now) (\<lambda>effective_liquidity.
     and_then (utilization_scaled token_out_amount effective_liquidity) (\<lambda>u.
     and_then (sell_haircut u ps now) (\<lambda>haircut.
     let liquidity_factor = saturating_sub HARD_WALL_SCALE haircut in
     and_then (ok_or (checked_mul u128_max token_out_amount liquidity_factor) MathOverflow) (\<lambda>v.
     and_then (ok_or (checked_div v HARD_WALL_SCALE) DivByZero) (\<lambda>dampened_amount.
     require (dampened_amount \<le> u64_max) MathOverflow (
     Ok (as_u64 dampened_amount))))))))))"

text \<open>\<open>now\<close> is the clock, or zero where there is none.\<close>

definition apply_hard_wall_reserve_curve_with_params ::
  "i64 \<Rightarrow> u64 \<Rightarrow> u64 \<Rightarrow> u64 \<Rightarrow> u16 \<Rightarrow> u32 \<Rightarrow> u64 result" where
  "apply_hard_wall_reserve_curve_with_params now token_out_amount actual_liquidity hard_wall_reserve
     curve_peg_haircut_bps curve_exponent_scaled =
     apply_hard_wall_liquidity_factor_at_time token_out_amount actual_liquidity hard_wall_reserve
       (default_pair_state\<lparr>ps_curve_peg_haircut_bps := curve_peg_haircut_bps,
          ps_curve_exponent_scaled := curve_exponent_scaled, ps_cadence_wave_scaled := 0,
          ps_wall_sensitivity_scaled := 0, ps_epoch_start := now\<rparr>) now"

definition hard_wall_reserve_from_tvl :: "u64 \<Rightarrow> u16 \<Rightarrow> u8 \<Rightarrow> u8 \<Rightarrow> u64 result" where
  "hard_wall_reserve_from_tvl tvl vault_target_bps token_out_decimals onyc_decimals =
     and_then (ok_or (checked_mul u128_max tvl vault_target_bps) MathOverflow) (\<lambda>v.
     and_then (ok_or (checked_div v MAX_BASIS_POINTS) DivByZero) (\<lambda>target_in_onyc_decimals.
     and_then (ok_or (checked_pow u128_max 10 token_out_decimals) MathOverflow) (\<lambda>token_out_scale.
     and_then (ok_or (checked_pow u128_max 10 onyc_decimals) MathOverflow) (\<lambda>onyc_scale.
     and_then (ok_or (checked_mul u128_max target_in_onyc_decimals token_out_scale) MathOverflow)
       (\<lambda>v.
     and_then (ok_or (checked_div v onyc_scale) DivByZero) (\<lambda>target.
     require (target > 0) InsufficientBalance (
     require (target \<le> u64_max) MathOverflow (
     Ok (as_u64 target)))))))))"

section \<open>Accuracy of integer powers\<close>

lemma mul_scaled_exact:
  assumes "a \<le> HARD_WALL_SCALE" and "b \<le> HARD_WALL_SCALE"
  shows "mul_scaled_saturating a b = a * b div HARD_WALL_SCALE" and "mul_scaled_saturating a b \<le> a"
proof -
  have "a * b \<le> HARD_WALL_SCALE * HARD_WALL_SCALE" using assms by (rule mult_le_mono)
  then have fits: "a * b \<le> u128_max" by (simp add: const_defs int_defs)
  then show eq: "mul_scaled_saturating a b = a * b div HARD_WALL_SCALE"
    by (simp add: mul_scaled_saturating_def saturating_mul_def checked_div_def const_defs)
  have "a * b \<le> a * HARD_WALL_SCALE" using assms(2) by simp
  then have "a * b div HARD_WALL_SCALE \<le> a * HARD_WALL_SCALE div HARD_WALL_SCALE" by (rule div_le_mono)
  then show "mul_scaled_saturating a b \<le> a" by (simp add: eq const_defs)
qed

lemma integer_power_Suc:
  "integer_utilization_power_scaled u (Suc n) = mul_scaled_saturating (integer_utilization_power_scaled u n) u"
  by (simp add: integer_utilization_power_scaled_def)

lemma integer_power_bounds:
  assumes u: "u \<le> HARD_WALL_SCALE"
  defines "S \<equiv> HARD_WALL_SCALE"
  shows "integer_utilization_power_scaled u n \<le> S \<and>
    integer_utilization_power_scaled u n * S ^ n \<le> S * u ^ n \<and>
    S * u ^ n \<le> (integer_utilization_power_scaled u n + n) * S ^ n"
proof (induction n)
  case 0
  show ?case by (simp add: integer_utilization_power_scaled_def S_def)
next
  case (Suc n)
  define p q where "p = integer_utilization_power_scaled u n" and "q = integer_utilization_power_scaled u (Suc n)"
  have S: "0 < S" by (simp add: S_def const_defs)
  from Suc.IH have p: "p \<le> S" "p * S ^ n \<le> S * u ^ n" "S * u ^ n \<le> (p + n) * S ^ n" by (simp_all add: p_def)
  have q: "q = p * u div S" "q \<le> p"
    using mul_scaled_exact [of p u] p(1) u by (simp_all add: q_def p_def integer_power_Suc S_def)
  have le: "q * S \<le> p * u" by (simp add: q(1))
  have "q * S ^ Suc n = q * S * S ^ n" by simp
  also have "\<dots> \<le> p * u * S ^ n" using le by (rule mult_le_mono1)
  also have "\<dots> = p * S ^ n * u" by simp
  also have "\<dots> \<le> S * u ^ n * u" using p(2) by (rule mult_le_mono1)
  finally have 1: "q * S ^ Suc n \<le> S * u ^ Suc n" by (simp add: mult_ac)
  have lt: "p * u \<le> (q + 1) * S"
    using dividend_less_div_times [OF S, of "p * u"] by (simp add: q(1))
  have "S * u ^ Suc n = S * u ^ n * u" by (simp add: mult_ac)
  also have "\<dots> \<le> (p + n) * S ^ n * u" using p(3) by (rule mult_le_mono1)
  also have "\<dots> = (p * u + n * u) * S ^ n" by (simp add: algebra_simps)
  also have "\<dots> \<le> ((q + 1) * S + n * S) * S ^ n"
    using lt u by (intro mult_le_mono1 add_mono mult_le_mono2) (simp_all add: S_def)
  also have "\<dots> = (q + Suc n) * S ^ Suc n" by (simp add: algebra_simps)
  finally have 2: "S * u ^ Suc n \<le> (q + Suc n) * S ^ Suc n" .
  show ?case using 1 2 q(2) p(1) by (simp add: q_def)
qed

text \<open>
  For a whole-number exponent \<open>n\<close> from 1 to 10 and a utilization of at most one, the power
  the sell curve uses is computed, at most one, and refines the exact power: it never exceeds it
  and is less than or equal to \<open>n\<close> units of the twelfth decimal below it.
\<close>

theorem integer_power_refines_exact_power:
  assumes "u \<le> HARD_WALL_SCALE" and "1 \<le> n" and "n \<le> 10"
  shows "\<exists>p. utilization_power_scaled u (n * 10000) = Ok p \<and> p \<le> HARD_WALL_SCALE \<and>
    p * HARD_WALL_SCALE ^ n \<le> HARD_WALL_SCALE * u ^ n \<and>
    HARD_WALL_SCALE * u ^ n \<le> (p + n) * HARD_WALL_SCALE ^ n"
proof -
  have v: "validate_curve_exponent_scaled (n * 10000) = Ok ()"
    using assms(3) by (simp add: validate_curve_exponent_scaled_def saturating_mul_def const_defs int_defs)
  consider "u = 0" | "u = HARD_WALL_SCALE" | "0 < u" "u < HARD_WALL_SCALE" using assms(1) by linarith
  then show ?thesis
  proof cases
    case 3
    then have "utilization_power_scaled u (n * 10000) = Ok (integer_utilization_power_scaled u n)"
      using v assms(2) by (simp add: utilization_power_scaled_def CURVE_EXPONENT_SCALE_def)
    then show ?thesis using integer_power_bounds [OF assms(1), of n] by simp
  qed (use v assms(2) in \<open>simp_all add: utilization_power_scaled_def add_mult_distrib const_defs power_0_left\<close>)
qed

theorem integer_power_refines_exact_power_witness:
  "\<exists>p. utilization_power_scaled 500000000000 (3 * 10000) = Ok p \<and> p \<le> HARD_WALL_SCALE \<and>
    p * HARD_WALL_SCALE ^ 3 \<le> HARD_WALL_SCALE * 500000000000 ^ 3"
  using integer_power_refines_exact_power [of 500000000000 3] by (auto simp: const_defs)

section \<open>Well-formed pairs\<close>

text \<open>
  The limits that the configuration enforces, and the ranges of the machine integers in the
  stored pair.
\<close>

definition pair_config_ok :: "prop_amm_pair_state \<Rightarrow> bool" where
  "pair_config_ok ps \<longleftrightarrow>
     ps_curve_peg_haircut_bps ps \<le> MAX_BASIS_POINTS \<and>
     CURVE_EXPONENT_STEP \<le> ps_curve_exponent_scaled ps \<and>
     ps_curve_exponent_scaled ps \<le> 10 * CURVE_EXPONENT_SCALE \<and>
     CURVE_EXPONENT_STEP dvd ps_curve_exponent_scaled ps \<and>
     0 < ps_cadence_threshold ps \<and> ps_cadence_wave_scaled ps \<le> MAX_CADENCE_WAVE_SCALED \<and>
     CADENCE_WAVE_STEP dvd ps_cadence_wave_scaled ps \<and> 0 < ps_epoch_duration_seconds ps \<and>
     0 < ps_wall_sensitivity_scaled ps"

definition pair_typed :: "prop_amm_pair_state \<Rightarrow> bool" where
  "pair_typed ps \<longleftrightarrow>
     ps_cadence_threshold ps \<le> u32_max \<and> ps_epoch_duration_seconds ps \<le> i64_max \<and>
     ps_wall_sensitivity_scaled ps \<le> u32_max \<and> ps_minimum_sell_haircut_onyc ps \<le> u64_max \<and>
     ps_curr_sell_value_stable ps \<le> u64_max \<and> ps_curr_buy_value_stable ps \<le> u64_max \<and>
     ps_prev_net_sell_value_stable ps \<le> u64_max \<and> ps_curr_sell_trade_count ps \<le> u32_max \<and>
     0 \<le> ps_epoch_start ps \<and> ps_epoch_start ps \<le> i64_max"

lemma i64_as_u128_id: "0 \<le> t \<Longrightarrow> t \<le> i64_max \<Longrightarrow> i64_as_u128 t = nat t"
  by (simp add: i64_as_u128_def int_defs)

section \<open>The wall\<close>

text \<open>The sell pressure that enters the wall: the decayed volume of the last epoch plus this one's.\<close>

lemma preview_volume_Ok:
  assumes cfg: "0 < ps_epoch_duration_seconds ps" and typed: "pair_typed ps"
    and now: "0 \<le> now" "now \<le> i64_max"
    and room: "ps_prev_net_sell_value_stable ps +
      (ps_curr_sell_value_stable ps - ps_curr_buy_value_stable ps) + v \<le> u64_max"
  shows "\<exists>x. preview_effective_sell_volume ps v now = Ok x \<and> v \<le> x \<and> x \<le> u64_max"
proof -
  let ?d = "ps_epoch_duration_seconds ps" and ?net = "ps_curr_sell_value_stable ps - ps_curr_buy_value_stable ps"
  have d: "?d \<le> i64_max" "ps_epoch_start ps \<le> i64_max" "0 \<le> ps_epoch_start ps" using typed by (simp_all add: pair_typed_def)
  define tail where "tail = (\<lambda>(pn, cn, el).
      and_then (ok_or (checked_sub_i64 ?d el) ArithmeticUnderflow) (\<lambda>remaining.
      and_then (ok_or (checked_mul u128_max pn (i64_as_u128 remaining)) MathOverflow) (\<lambda>w.
      and_then (ok_or (checked_div w (i64_as_u128 ?d)) DivByZero) (\<lambda>decayed_prev.
      and_then (ok_or (Option.bind (checked_add u128_max decayed_prev cn) (\<lambda>w.
          checked_add u128_max w v)) MathOverflow) (\<lambda>effective.
      require (effective \<le> u64_max) MathOverflow (Ok (as_u64 effective)))))))"
  have pv: "preview_effective_sell_volume ps v now =
      and_then (if ps_epoch_start ps = 0 \<or> now < ps_epoch_start ps then Ok (0, 0, 0)
        else
          and_then (ok_or (checked_sub_i64 now (ps_epoch_start ps)) ArithmeticUnderflow) (\<lambda>elapsed.
          if elapsed \<ge> saturating_mul_i64 ?d 2 then Ok (0, 0, 0)
          else if elapsed \<ge> ?d then Ok (?net, 0, 0)
          else Ok (ps_prev_net_sell_value_stable ps, ?net, elapsed))) tail"
    unfolding preview_effective_sell_volume_def Let_def saturating_sub_def tail_def using cfg by simp
  have tail: "tail (pn, cn, el) = Ok (pn * nat (?d - el) div nat ?d + cn + v)"
    if "0 \<le> el" "el \<le> ?d" "pn + cn + v \<le> u64_max" for el pn cn
  proof -
    have r: "i64_as_u128 (?d - el) = nat (?d - el)" "i64_as_u128 ?d = nat ?d"
      using that d cfg by (simp_all add: i64_as_u128_id)
    have "nat (?d - el) \<le> nat ?d" using that by simp
    then have dec: "pn * nat (?d - el) div nat ?d \<le> pn" by (rule mul_div_le)
    have "nat (?d - el) \<le> u64_max" using that d by (simp add: int_defs)
    then have mul: "pn * nat (?d - el) \<le> u128_max" using that by (intro u64_mul_fits_u128) simp_all
    have sum: "pn * nat (?d - el) div nat ?d + cn + v \<le> u64_max" using dec that by simp
    then have sum': "pn * nat (?d - el) div nat ?d + cn + v \<le> u128_max" using u64_max_le_u128_max by simp
    have sub: "checked_sub_i64 ?d el = Some (?d - el)"
      using that d cfg by (auto simp: checked_sub_i64_def int_defs)
    show ?thesis
      unfolding tail_def using cfg sum sum' mul by (simp add: sub r checked_mul_def checked_div_def checked_add_def as_u64_id)
  qed
  have sub: "checked_sub_i64 now (ps_epoch_start ps) = Some (now - ps_epoch_start ps)"
    if "ps_epoch_start ps \<le> now" using that now d by (auto simp: checked_sub_i64_def int_defs)
  consider "ps_epoch_start ps = 0 \<or> now < ps_epoch_start ps"
    | "ps_epoch_start ps \<noteq> 0" "ps_epoch_start ps \<le> now" "now - ps_epoch_start ps \<ge> saturating_mul_i64 ?d 2"
    | "ps_epoch_start ps \<noteq> 0" "ps_epoch_start ps \<le> now" "now - ps_epoch_start ps < saturating_mul_i64 ?d 2"
      "now - ps_epoch_start ps \<ge> ?d"
    | "ps_epoch_start ps \<noteq> 0" "ps_epoch_start ps \<le> now" "now - ps_epoch_start ps < saturating_mul_i64 ?d 2"
      "now - ps_epoch_start ps < ?d"
    by linarith
  then show ?thesis
  proof cases
    case 1
    then show ?thesis using room tail [of 0 0 0] cfg by (simp add: pv)
  next
    case 2
    then show ?thesis using room sub tail [of 0 0 0] cfg by (simp add: pv)
  next
    case 3
    have "?net * nat (?d - 0) div nat ?d \<le> ?net" by (rule mul_div_le) simp
    then show ?thesis using 3 room sub tail [of 0 ?net 0] cfg by (simp add: pv)
  next
    case 4
    have "ps_prev_net_sell_value_stable ps * nat (?d - (now - ps_epoch_start ps)) div nat ?d
        \<le> ps_prev_net_sell_value_stable ps"
      by (rule mul_div_le) (use 4 in simp)
    then show ?thesis
      using 4 room sub tail [of "now - ps_epoch_start ps" "ps_prev_net_sell_value_stable ps" ?net]
      by (simp add: pv)
  qed
qed

lemma dynamic_wall_position_Ok:
  assumes L: "0 < L" "L \<le> u64_max" and v: "v \<le> u64_max" and sens: "sens \<le> u32_max"
  shows "dynamic_wall_position L v sens = Ok (max (L * 10000 div (10000 + sens * v div L)) 1)"
proof -
  have wall: "L * 10000 div (10000 + x) \<le> L" for x by (rule mul_div_le) simp
  have "sens * v \<le> u32_max * u64_max" using sens v by (rule mult_le_mono)
  then have 1: "sens * v \<le> u128_max" by (simp add: int_defs)
  have "10000 + sens * v div L \<le> 10000 + u32_max * u64_max"
    using \<open>sens * v \<le> u32_max * u64_max\<close> by (intro add_left_mono order_trans [OF div_le_dividend])
  then have 2: "10000 + sens * v div L \<le> u128_max" by (simp add: int_defs)
  have "L * 10000 \<le> u64_max * 10000" using L(2) by (rule mult_le_mono1)
  then have 3: "L * 10000 \<le> u128_max" by (simp add: int_defs)
  have 4: "L * 10000 div (10000 + sens * v div L) \<le> u64_max" using wall L(2) by (rule order_trans)
  show ?thesis
  proof (cases "v = 0")
    case False
    then show ?thesis
      unfolding dynamic_wall_position_def WALL_SENSITIVITY_SCALE_def using L(1) 1 2 3 4
      by (simp add: checked_mul_def checked_div_def checked_add_def as_u64_id)
  qed (use L in \<open>simp add: dynamic_wall_position_def max_def\<close>)
qed

text \<open>
  The moving wall is always found for a vault with any balance, lies between one unit and
  the whole balance, stands at the whole balance without sell pressure, and never moves up when
  the sell pressure or the sensitivity grows.
\<close>

theorem wall_shrinks_with_sell_pressure:
  assumes "0 < L" and "L \<le> u64_max" and "v \<le> v'" and "v' \<le> u64_max" and "s \<le> s'" and "s' \<le> u32_max"
  shows "\<exists>w w'. dynamic_wall_position L v s = Ok w \<and> dynamic_wall_position L v' s' = Ok w' \<and>
    1 \<le> w' \<and> w' \<le> w \<and> w \<le> L \<and> dynamic_wall_position L 0 s = Ok L"
proof -
  let ?w = "\<lambda>v s. max (L * 10000 div (10000 + s * v div L)) 1"
  have "s * v \<le> s' * v'" using assms(5,3) by (rule mult_le_mono)
  then have "s * v div L \<le> s' * v' div L" by (rule div_le_mono)
  then have "L * 10000 div (10000 + s' * v' div L) \<le> L * 10000 div (10000 + s * v div L)"
    by (intro div_le_mono2) simp_all
  then have le: "?w v' s' \<le> ?w v s" by simp
  have "L * 10000 div (10000 + s * v div L) \<le> L" by (rule mul_div_le) simp
  then have top: "?w v s \<le> L" using assms(1) by simp
  have ok: "dynamic_wall_position L v s = Ok (?w v s)" "dynamic_wall_position L v' s' = Ok (?w v' s')"
    using assms by (intro dynamic_wall_position_Ok; simp)+
  have "dynamic_wall_position L 0 s = Ok L" using assms(1) by (simp add: dynamic_wall_position_def)
  then show ?thesis using ok le top by auto
qed

theorem wall_shrinks_with_sell_pressure_witness:
  "\<exists>w w'. dynamic_wall_position 100000 1000 20000 = Ok w \<and> dynamic_wall_position 100000 5000 20000 = Ok w' \<and>
    1 \<le> w' \<and> w' \<le> w \<and> w \<le> 100000"
  using wall_shrinks_with_sell_pressure [of 100000 1000 5000 20000 20000] by (auto simp: int_defs)

lemma dynamic_wall_liquidity_Ok:
  assumes cfg: "pair_config_ok ps" and typed: "pair_typed ps" and now: "0 \<le> now" "now \<le> i64_max"
    and room: "ps_prev_net_sell_value_stable ps +
      (ps_curr_sell_value_stable ps - ps_curr_buy_value_stable ps) + v \<le> u64_max"
    and L: "0 < L" "L \<le> u64_max" and R: "0 < R"
  shows "\<exists>w. dynamic_wall_liquidity_at_time v L R ps now = Ok w \<and> 1 \<le> w \<and> w \<le> L \<and> w \<le> R"
proof -
  obtain x where x: "preview_effective_sell_volume ps v now = Ok x" "x \<le> u64_max"
    using preview_volume_Ok [OF _ typed now room] cfg by (auto simp: pair_config_ok_def)
  have sens: "0 < ps_wall_sensitivity_scaled ps" "ps_wall_sensitivity_scaled ps \<le> u32_max"
    using cfg typed by (simp_all add: pair_config_ok_def pair_typed_def)
  have "L * 10000 div (10000 + ps_wall_sensitivity_scaled ps * x div L) \<le> L" by (rule mul_div_le) simp
  then show ?thesis
    using x sens L R dynamic_wall_position_Ok [OF L x(2) sens(2)]
    by (auto simp: dynamic_wall_liquidity_at_time_def min_le_iff_disj)
qed

section \<open>Totality of the curve\<close>

lemma msb_index_less: "v < 2 ^ n \<Longrightarrow> 0 < n \<Longrightarrow> msb_index v < n"
proof (induction n arbitrary: v)
  case (Suc n)
  show ?case
  proof (cases "v \<le> 1")
    case False
    then have "0 < n" using Suc.prems by (cases n) auto
    moreover have "v div 2 < 2 ^ n" using Suc.prems by simp
    ultimately show ?thesis using False Suc.IH [of "v div 2"] by (subst msb_index.simps) simp
  qed (use msb_index.simps [of v] in simp)
qed simp

text \<open>The clamped logarithm of a 128-bit value is far below the bound at which its product fails.\<close>

lemma i128_clamp_id: "\<bar>x\<bar> < 2 ^ 120 \<Longrightarrow> i128_clamp x = x"
  by (simp add: i128_clamp_def)

lemma saturating_mul_le: "saturating_mul mx a b \<le> mx"
  by (simp add: saturating_mul_def)

lemma log2_integer_q_fraction:
  "\<exists>f \<le> u128_max. log2_integer_q v =
     i128_clamp (i128_clamp (int (msb_index v) * int POW_APPROX_Q) + int (f div 2 ^ POW_APPROX_Q_SHIFT))"
  unfolding log2_integer_q_def Let_def by (rule exI, rule conjI, rule saturating_mul_le, rule refl)

lemma log2_integer_q_bounds:
  assumes "v < 2 ^ 128"
  shows "0 \<le> log2_integer_q v" and "log2_integer_q v < 2 ^ 90"
proof -
  obtain f where f: "f \<le> u128_max" and eq: "log2_integer_q v =
      i128_clamp (i128_clamp (int (msb_index v) * int POW_APPROX_Q) + int (f div 2 ^ POW_APPROX_Q_SHIFT))"
    using log2_integer_q_fraction by blast
  have "f div 2 ^ 40 \<le> u128_max div 2 ^ 40" by (rule div_le_mono [OF f])
  then have fr: "int (f div 2 ^ POW_APPROX_Q_SHIFT) < 2 ^ 88"
    by (simp add: POW_APPROX_Q_SHIFT_def int_defs)
  have "msb_index v < 128" by (rule msb_index_less [OF assms]) simp
  then have m: "int (msb_index v) * int POW_APPROX_Q < 128 * 2 ^ 40" by (simp add: POW_APPROX_Q_def)
  have m0: "0 \<le> int (msb_index v) * int POW_APPROX_Q" by simp
  have c: "i128_clamp (int (msb_index v) * int POW_APPROX_Q) = int (msb_index v) * int POW_APPROX_Q"
    by (rule i128_clamp_id) (use m m0 in simp)
  define x where "x = int (msb_index v) * int POW_APPROX_Q + int (f div 2 ^ POW_APPROX_Q_SHIFT)"
  have "0 \<le> int (f div 2 ^ POW_APPROX_Q_SHIFT)" by simp
  then have x: "0 \<le> x" "x < 2 ^ 90" using m m0 fr unfolding x_def by simp_all
  then have "log2_integer_q v = x" unfolding eq c x_def [symmetric] by (intro i128_clamp_id) simp
  then show "0 \<le> log2_integer_q v" and "log2_integer_q v < 2 ^ 90" using x by simp_all
qed

lemma utilization_power_total:
  assumes u: "u < 2 ^ 128" and ex: "exponent \<le> 100000" "1000 dvd exponent"
  shows "\<exists>p. utilization_power_scaled u exponent = Ok p"
proof -
  have v: "validate_curve_exponent_scaled exponent = Ok ()"
    using ex by (simp add: validate_curve_exponent_scaled_def saturating_mul_def const_defs int_defs)
  define l where "l = log2_hard_wall_scaled_q u"
  have l: "- (2 ^ 46) < l" "l < 2 ^ 90"
    using log2_integer_q_bounds [OF u] by (simp_all add: l_def log2_hard_wall_scaled_q_def LOG2_HARD_WALL_SCALE_Q_def)
  have "\<bar>l\<bar> * int exponent \<le> 2 ^ 90 * 100000"
    using l ex(1) by (intro mult_mono) simp_all
  then have "\<bar>l * int exponent\<bar> < 2 ^ 120" by (simp add: abs_mult)
  then have "l * int exponent = i128_clamp (l * int exponent)" by (simp only: i128_clamp_id)
  then show ?thesis by (simp add: utilization_power_scaled_def v l_def Let_def)
qed

lemma redemption_haircut_total:
  assumes "u < 2 ^ 128" and "bps \<le> MAX_BASIS_POINTS" and "exponent \<le> 100000" and "1000 dvd exponent"
  shows "\<exists>h. redemption_haircut_scaled u bps exponent = Ok h"
proof -
  have "HARD_WALL_SCALE * bps \<le> HARD_WALL_SCALE * 10000"
    using assms(2) by (intro mult_le_mono2) (simp add: MAX_BASIS_POINTS_def)
  then have "HARD_WALL_SCALE * bps \<le> u128_max" by (simp add: HARD_WALL_SCALE_def int_defs)
  then have b: "bps_to_hard_wall_scale bps = Ok (HARD_WALL_SCALE * bps div 10000)"
    by (simp add: bps_to_hard_wall_scale_def checked_mul_def checked_div_def MAX_BASIS_POINTS_def)
  have v: "validate_curve_exponent_scaled exponent = Ok ()"
    using assms(3,4) by (simp add: validate_curve_exponent_scaled_def saturating_mul_def const_defs int_defs)
  show ?thesis
    using utilization_power_total [OF assms(1,3,4)]
    by (auto simp: redemption_haircut_scaled_def b v checked_div_def HARD_WALL_SCALE_def)
qed

lemma cadence_wave_total:
  assumes cfg: "pair_config_ok ps" and typed: "pair_typed ps" and now: "0 \<le> now" "now \<le> i64_max"
  shows "\<exists>y \<le> 50000. cadence_wave_y_for_quote_scaled ps now = Ok y"
proof -
  let ?t = "ps_cadence_threshold ps" and ?m = "ps_cadence_wave_scaled ps"
  have c: "0 < ?t" "?m \<le> 50000" "1000 dvd ?m" "0 < ps_epoch_duration_seconds ps"
    using cfg by (simp_all add: pair_config_ok_def const_defs)
  have ty: "ps_curr_sell_trade_count ps \<le> u32_max" "0 \<le> ps_epoch_start ps" "ps_epoch_start ps \<le> i64_max"
    using typed by (simp_all add: pair_typed_def)
  obtain n where n: "preview_current_sell_trade_count ps now = Ok n" "n \<le> u32_max"
  proof (cases "ps_epoch_start ps = 0 \<or> now < ps_epoch_start ps")
    case False
    then have "checked_sub_i64 now (ps_epoch_start ps) = Some (now - ps_epoch_start ps)"
      using ty now by (auto simp: int_defs)
    then show ?thesis
      using False c(4) ty(1) that by (cases "now - ps_epoch_start ps \<ge> ps_epoch_duration_seconds ps")
        (simp_all add: preview_current_sell_trade_count_def)
  qed (use c(4) that [of 0] in \<open>simp add: preview_current_sell_trade_count_def\<close>)
  have "n * 10000 \<le> u32_max * 10000" using n(2) by simp
  then have mul: "n * 10000 \<le> u128_max" by (simp add: int_defs)
  obtain ramp where ramp: "(if n \<ge> ?t then Ok CADENCE_WAVE_SCALE
      else and_then (ok_or (checked_mul u128_max n CADENCE_WAVE_SCALE) MathOverflow)
        (\<lambda>v. ok_or (checked_div v ?t) DivByZero)) = Ok ramp" "ramp \<le> 10000"
  proof (cases "n \<ge> ?t")
    case True
    then show ?thesis by (intro that [of 10000]) (simp_all add: CADENCE_WAVE_SCALE_def)
  next
    case False
    have "10000 * n div ?t \<le> 10000" by (rule mul_div_le) (use False in simp)
    then show ?thesis
      using False c(1) mul by (intro that [of "n * 10000 div ?t"])
        (simp_all add: CADENCE_WAVE_SCALE_def checked_mul_def checked_div_def mult.commute)
  qed
  have "?m * ramp div 10000 \<le> ?m" by (rule mul_div_le [OF ramp(2)])
  moreover have "?m * ramp \<le> 50000 * 10000" using c(2) ramp(2) by (rule mult_le_mono)
  then have "?m * ramp \<le> u128_max" by (simp add: int_defs)
  moreover have "cadence_wave_y_for_quote_scaled ps now = (if ?m = 0 \<or> n = 0 then Ok 0
      else and_then (ok_or (checked_mul u128_max ?m ramp) MathOverflow) (\<lambda>v.
        ok_or (checked_div v CADENCE_WAVE_SCALE) DivByZero))"
    using c n(1) ramp(1) by (simp add: cadence_wave_y_for_quote_scaled_def Let_def MAX_CADENCE_WAVE_SCALED_def
        CADENCE_WAVE_STEP_def split del: if_split) simp
  ultimately show ?thesis
    using c(2) by (auto simp: CADENCE_WAVE_SCALE_def checked_mul_def checked_div_def)
qed

lemma cadence_target_total:
  assumes y: "y \<le> 50000"
  shows "\<exists>h \<le> HARD_WALL_SCALE. cadence_wave_target_haircut_scaled u y = Ok h"
proof -
  define n where "n = min u HARD_WALL_SCALE"
  have n: "n \<le> 1000000000000" by (simp add: n_def HARD_WALL_SCALE_def)
  have e: "saturating_mul u128_max n CADENCE_WAVE_EASE = n * 8"
    using n by (simp add: saturating_mul_def CADENCE_WAVE_EASE_def int_defs)
  have "n * 8 + (HARD_WALL_SCALE - n) \<le> u128_max" using n by (simp add: HARD_WALL_SCALE_def int_defs)
  then show ?thesis
    unfolding cadence_wave_target_haircut_scaled_def Let_def n_def [symmetric] e
    by (simp add: saturating_sub_def checked_add_def checked_div_def checked_mul_def CADENCE_WAVE_SCALE_def
        CADENCE_WAVE_CAP_DIVISOR_def int_defs)
qed

text \<open>
  C16: The sell curve always prices: for every pair within the limits of its configuration, any
  redemption-vault balance and reserve, any order of at most the balance, and any tracked volume
  that fits 64 bits with the order, the dampened output is computed without any error, and it is
  never more than the undampened output.
\<close>

theorem sell_curve_total_and_capped:
  assumes cfg: "pair_config_ok ps" and typed: "pair_typed ps" and now: "0 \<le> now" "now \<le> i64_max"
    and room: "ps_prev_net_sell_value_stable ps +
      (ps_curr_sell_value_stable ps - ps_curr_buy_value_stable ps) + amount \<le> u64_max"
    and L: "0 < L" "L \<le> u64_max" and R: "0 < R" and amount: "amount \<le> L"
  shows "\<exists>out. apply_hard_wall_liquidity_factor_at_time amount L R ps now = Ok out \<and> out \<le> amount"
proof -
  obtain w where w: "dynamic_wall_liquidity_at_time amount L R ps now = Ok w" "1 \<le> w"
    using dynamic_wall_liquidity_Ok [OF cfg typed now room L R] by blast
  have a: "amount \<le> u64_max" using amount L(2) by simp
  have scale: "amount * x \<le> u64_max * HARD_WALL_SCALE" if "x \<le> HARD_WALL_SCALE" for x
    using a that by (rule mult_le_mono)
  have fits: "amount * x \<le> u128_max" if "x \<le> HARD_WALL_SCALE" for x
    using scale [OF that] by (simp add: HARD_WALL_SCALE_def int_defs)
  have "amount * HARD_WALL_SCALE div w \<le> u64_max * HARD_WALL_SCALE"
    using scale [of HARD_WALL_SCALE] by (intro order_trans [OF div_le_dividend]) simp
  then have "amount * HARD_WALL_SCALE div w < 2 ^ 128" by (simp add: HARD_WALL_SCALE_def int_defs)
  moreover have "utilization_scaled amount w = Ok (if amount = 0 then 0 else if amount = w then HARD_WALL_SCALE
      else amount * HARD_WALL_SCALE div w)"
    using w(2) fits [of HARD_WALL_SCALE] by (simp add: utilization_scaled_def checked_mul_def checked_div_def)
  ultimately obtain u where u: "utilization_scaled amount w = Ok u" "u < 2 ^ 128"
    by (simp add: HARD_WALL_SCALE_def)
  have c: "ps_curve_peg_haircut_bps ps \<le> MAX_BASIS_POINTS" "ps_curve_exponent_scaled ps \<le> 100000"
    "1000 dvd ps_curve_exponent_scaled ps"
    using cfg by (simp_all add: pair_config_ok_def CURVE_EXPONENT_SCALE_def CURVE_EXPONENT_STEP_def)
  obtain b where b: "redemption_haircut_scaled u (ps_curve_peg_haircut_bps ps) (ps_curve_exponent_scaled ps) = Ok b"
    using redemption_haircut_total [OF u(2) c] by blast
  obtain y where y: "y \<le> 50000" "cadence_wave_y_for_quote_scaled ps now = Ok y"
    using cadence_wave_total [OF cfg typed now] by blast
  obtain h where h: "cadence_wave_target_haircut_scaled u y = Ok h" using cadence_target_total [OF y(1)] by blast
  define f where "f = HARD_WALL_SCALE - max b h"
  have f: "f \<le> HARD_WALL_SCALE" by (simp add: f_def)
  have out: "amount * f div HARD_WALL_SCALE \<le> amount" by (rule mul_div_le [OF f])
  have "apply_hard_wall_liquidity_factor_at_time amount L R ps now = Ok (amount * f div HARD_WALL_SCALE)"
    using fits [OF f] out a L(1) R amount
    by (simp add: apply_hard_wall_liquidity_factor_at_time_def w u sell_haircut_def b y h saturating_sub_def
        Let_def checked_mul_def checked_div_def as_u64_id HARD_WALL_SCALE_def f_def)
  then show ?thesis using out by blast
qed

theorem sell_curve_total_and_capped_witness:
  "\<exists>out. apply_hard_wall_liquidity_factor_at_time 30000 100000 80000 (default_pair_state\<lparr>ps_epoch_start := 4000,
      ps_curr_sell_value_stable := 700, ps_curr_sell_trade_count := 3\<rparr>) 5000 = Ok out \<and> out \<le> 30000"
  by (rule sell_curve_total_and_capped)
    (simp_all add: pair_config_ok_def pair_typed_def default_pair_state_def const_defs int_defs)

section \<open>Rolling the tracker\<close>

lemma saturating_double_pos: "0 < d \<Longrightarrow> 0 < saturating_mul_i64 d 2"
  by (simp add: saturating_mul_i64_def int_defs)

lemma roll_cases:
  assumes ok: "roll_prop_amm_volume_tracker ps now = Ok ps'"
  defines "cleared \<equiv> ps\<lparr>ps_epoch_start := now, ps_prev_net_sell_value_stable := 0, ps_curr_sell_value_stable := 0,
    ps_curr_buy_value_stable := 0, ps_curr_sell_trade_count := 0\<rparr>"
    and "elapsed \<equiv> now - ps_epoch_start ps" and "d \<equiv> ps_epoch_duration_seconds ps"
  obtains (fresh) "0 < d" "ps_epoch_start ps = 0 \<or> now < ps_epoch_start ps" "ps' = cleared"
  | (stale) "0 < d" "ps_epoch_start ps \<noteq> 0" "ps_epoch_start ps \<le> now"
      "checked_sub_i64 now (ps_epoch_start ps) = Some elapsed" "saturating_mul_i64 d 2 \<le> elapsed" "ps' = cleared"
  | (rolled) "0 < d" "ps_epoch_start ps \<noteq> 0" "ps_epoch_start ps \<le> now"
      "checked_sub_i64 now (ps_epoch_start ps) = Some elapsed" "\<not> saturating_mul_i64 d 2 \<le> elapsed" "d \<le> elapsed"
      "ps' = cleared\<lparr>ps_prev_net_sell_value_stable :=
        saturating_sub (ps_curr_sell_value_stable ps) (ps_curr_buy_value_stable ps)\<rparr>"
  | (current) "0 < d" "ps' = ps"
proof (cases "ps_epoch_start ps = 0 \<or> now < ps_epoch_start ps")
  case True
  then show ?thesis using ok fresh by (simp add: roll_prop_amm_volume_tracker_def cleared_def d_def)
next
  case False
  then have sub: "checked_sub_i64 now (ps_epoch_start ps) = Some elapsed" and d: "0 < d"
    and rest: "(if saturating_mul_i64 d 2 \<le> elapsed then Ok cleared else if d \<le> elapsed then
          Ok (cleared\<lparr>ps_prev_net_sell_value_stable :=
            saturating_sub (ps_curr_sell_value_stable ps) (ps_curr_buy_value_stable ps)\<rparr>)
        else Ok ps) = Ok ps'"
    using ok unfolding cleared_def d_def elapsed_def
    by (simp_all add: roll_prop_amm_volume_tracker_def Let_def split del: if_split)
  consider "saturating_mul_i64 d 2 \<le> elapsed" | "\<not> saturating_mul_i64 d 2 \<le> elapsed" "d \<le> elapsed"
    | "\<not> saturating_mul_i64 d 2 \<le> elapsed" "\<not> d \<le> elapsed" by blast
  then show ?thesis
  proof cases
    case 1 then show ?thesis using stale sub d rest False by simp
  next
    case 2 then show ?thesis using rolled sub d rest False by simp
  next
    case 3 then show ?thesis using current d rest by simp
  qed
qed

lemma roll_keeps_previews:
  assumes typed: "pair_typed ps" and ok: "roll_prop_amm_volume_tracker ps now = Ok ps'"
  shows "preview_effective_sell_volume ps' v now = preview_effective_sell_volume ps v now \<and>
    preview_current_sell_trade_count ps' now = preview_current_sell_trade_count ps now"
proof -
  let ?d = "ps_epoch_duration_seconds ps"
  have zero: "checked_sub_i64 now now = Some 0" by (simp add: int_defs)
  have t: "0 \<le> ps_epoch_start ps" "?d \<le> i64_max" using typed by (simp_all add: pair_typed_def)
  from ok show ?thesis
  proof (cases rule: roll_cases)
    case fresh
    then show ?thesis
      using saturating_double_pos [OF fresh(1)]
      by (simp add: zero preview_effective_sell_volume_def preview_current_sell_trade_count_def Let_def saturating_sub_def)
  next
    case stale
    have "?d \<le> saturating_mul_i64 ?d 2" using t stale(1) by (simp add: saturating_mul_i64_def)
    then have "?d \<le> now - ps_epoch_start ps" using stale(5) by linarith
    then show ?thesis
      using stale(1-3,5,6) saturating_double_pos [OF stale(1)]
      by (simp add: zero stale(4) preview_effective_sell_volume_def preview_current_sell_trade_count_def Let_def saturating_sub_def)
  next
    case rolled
    show ?thesis
      using t rolled(1-3,5-7) saturating_double_pos [OF rolled(1)]
      by (simp add: zero rolled(4) preview_effective_sell_volume_def preview_current_sell_trade_count_def Let_def saturating_sub_def)
  qed simp
qed

lemma roll_keeps_config:
  assumes "roll_prop_amm_volume_tracker ps now = Ok ps'"
  shows "ps_curve_peg_haircut_bps ps' = ps_curve_peg_haircut_bps ps"
    and "ps_curve_exponent_scaled ps' = ps_curve_exponent_scaled ps"
    and "ps_cadence_threshold ps' = ps_cadence_threshold ps"
    and "ps_cadence_wave_scaled ps' = ps_cadence_wave_scaled ps"
    and "ps_epoch_duration_seconds ps' = ps_epoch_duration_seconds ps"
    and "ps_wall_sensitivity_scaled ps' = ps_wall_sensitivity_scaled ps"
    and "ps_minimum_sell_haircut_onyc ps' = ps_minimum_sell_haircut_onyc ps"
  using assms by (cases rule: roll_cases; simp)+

text \<open>Rolling and recording keep a pair configured and its counters within their types.\<close>

lemma roll_typed:
  assumes "pair_typed ps" and "0 \<le> now" "now \<le> i64_max" and "roll_prop_amm_volume_tracker ps now = Ok ps'"
  shows "pair_typed ps'"
  using assms(4)
proof (cases rule: roll_cases)
  case rolled
  have "ps_curr_sell_value_stable ps - ps_curr_buy_value_stable ps \<le> u64_max"
    using assms(1) unfolding pair_typed_def by linarith
  then show ?thesis using rolled assms(1-3) by (simp add: pair_typed_def saturating_sub_def)
qed (use assms(1-3) in \<open>simp_all add: pair_typed_def\<close>)

lemma roll_config_ok: "roll_prop_amm_volume_tracker ps now = Ok ps' \<Longrightarrow> pair_config_ok ps' = pair_config_ok ps"
  by (simp add: pair_config_ok_def roll_keeps_config)

lemma record_sell_keeps:
  assumes "pair_typed ps" and "0 \<le> now" "now \<le> i64_max" and "record_prop_amm_sell ps v now = Ok ps'"
  shows "pair_typed ps'" and "pair_config_ok ps' = pair_config_ok ps"
proof -
  from assms(4) obtain ps1 where r: "roll_prop_amm_volume_tracker ps now = Ok ps1"
    and n: "ps_curr_sell_value_stable ps1 + v \<le> u64_max" "ps_curr_sell_trade_count ps1 + 1 \<le> u32_max"
    and ps': "ps' = ps1\<lparr>ps_curr_sell_value_stable := ps_curr_sell_value_stable ps1 + v,
      ps_curr_sell_trade_count := ps_curr_sell_trade_count ps1 + 1\<rparr>"
    by (auto simp: record_prop_amm_sell_def)
  show "pair_typed ps'" using roll_typed [OF assms(1-3) r] n by (simp add: ps' pair_typed_def)
  show "pair_config_ok ps' = pair_config_ok ps"
    using roll_config_ok [OF r] by (simp add: ps' pair_config_ok_def)
qed

lemma record_buy_keeps:
  assumes "pair_typed ps" and "0 \<le> now" "now \<le> i64_max" and "record_prop_amm_buy ps v now = Ok ps'"
  shows "pair_typed ps'" and "pair_config_ok ps' = pair_config_ok ps"
proof -
  from assms(4) obtain ps1 where r: "roll_prop_amm_volume_tracker ps now = Ok ps1"
    and n: "ps_curr_buy_value_stable ps1 + v \<le> u64_max"
    and ps': "ps' = ps1\<lparr>ps_curr_buy_value_stable := ps_curr_buy_value_stable ps1 + v\<rparr>"
    by (auto simp: record_prop_amm_buy_def)
  show "pair_typed ps'" using roll_typed [OF assms(1-3) r] n by (simp add: ps' pair_typed_def)
  show "pair_config_ok ps' = pair_config_ok ps"
    using roll_config_ok [OF r] by (simp add: ps' pair_config_ok_def)
qed

text \<open>
  C26: Rolling the tracker never changes a price. A swap rolls the epoch of its pair before it
  records its volume, a quote only looks through the roll; at the same time both see the same
  effective volume and trade count, and the same output of the curve for every order.
\<close>

theorem roll_is_transparent_to_quotes:
  assumes "pair_typed ps" and "roll_prop_amm_volume_tracker ps now = Ok ps'"
  shows "apply_hard_wall_liquidity_factor_at_time amount L R ps' now =
      apply_hard_wall_liquidity_factor_at_time amount L R ps now \<and>
    preview_effective_sell_volume ps' v now = preview_effective_sell_volume ps v now"
  unfolding apply_hard_wall_liquidity_factor_at_time_def dynamic_wall_liquidity_at_time_def
    sell_haircut_def cadence_wave_y_for_quote_scaled_def roll_keeps_config [OF assms(2)]
    roll_keeps_previews [OF assms, THEN conjunct1] roll_keeps_previews [OF assms, THEN conjunct2]
  by (intro conjI refl)

theorem roll_is_transparent_to_quotes_witness:
  "\<exists>ps'. roll_prop_amm_volume_tracker (default_pair_state\<lparr>ps_epoch_start := 4000,
      ps_curr_sell_value_stable := 700, ps_curr_sell_trade_count := 3\<rparr>) 100000 = Ok ps' \<and>
    apply_hard_wall_liquidity_factor_at_time 30000 100000 80000 ps' 100000 =
      apply_hard_wall_liquidity_factor_at_time 30000 100000 80000 (default_pair_state\<lparr>ps_epoch_start := 4000,
      ps_curr_sell_value_stable := 700, ps_curr_sell_trade_count := 3\<rparr>) 100000"
proof -
  let ?ps = "default_pair_state\<lparr>ps_epoch_start := 4000, ps_curr_sell_value_stable := 700,
    ps_curr_sell_trade_count := 3\<rparr>"
  obtain ps' where ok: "roll_prop_amm_volume_tracker ?ps 100000 = Ok ps'"
    by (simp add: roll_prop_amm_volume_tracker_def default_pair_state_def checked_sub_i64_def
        saturating_mul_i64_def const_defs int_defs cong: eval_congs)
  have "pair_typed ?ps" by (simp add: pair_typed_def default_pair_state_def const_defs int_defs)
  from roll_is_transparent_to_quotes [OF this ok] ok show ?thesis by blast
qed

end
