(* ===== verification/Prop_Amm.thy ===== *)
theory Prop_Amm
  imports Offer_Exec Hard_Wall
begin

text \<open>
  The Prop AMM (\<open>prop_amm/\<close>): configuration of a pair, resolution of the side of a swap, the
  liquidity a sell is priced against, quotes, and the two swaps. The curve itself is
  in \<open>Hard_Wall\<close>.

  An account that a struct fixes by its seeds is either compared with its derived address or
  written as that address. Events and log messages are left out; a quote is the value of the
  instruction's return data.
\<close>

section \<open>Configuration\<close>

definition prop_amm_pair_seeds :: "pubkey \<Rightarrow> seed list" where
  "prop_amm_pair_seeds offer_key = [Seed ''prop_amm_pair'', KeySeed offer_key]"

record configure_accounts =
  ca_offer :: "offer account"
  ca_asset_mint :: pubkey
  ca_boss :: pubkey

record pair_config =
  pc_enabled :: bool
  pc_curve_peg_haircut_bps :: u16
  pc_curve_exponent_scaled :: u32
  pc_cadence_threshold :: u32
  pc_cadence_wave_scaled :: u32
  pc_epoch_duration_seconds :: i64
  pc_wall_sensitivity_scaled :: u32
  pc_minimum_sell_haircut_onyc :: u64

text \<open>The bytes of a fresh account are zero.\<close>

definition zero_pair_state :: prop_amm_pair_state where
  "zero_pair_state = \<lparr>ps_offer = default_pubkey, ps_asset_mint = default_pubkey,
     ps_onyc_mint = default_pubkey, ps_enabled = False, ps_curve_peg_haircut_bps = 0,
     ps_curve_exponent_scaled = 0, ps_cadence_threshold = 0, ps_cadence_wave_scaled = 0,
     ps_epoch_duration_seconds = 0, ps_wall_sensitivity_scaled = 0,
     ps_minimum_sell_haircut_onyc = 0, ps_curr_sell_value_stable = 0,
     ps_curr_buy_value_stable = 0, ps_prev_net_sell_value_stable = 0,
     ps_curr_sell_trade_count = 0, ps_epoch_start = 0, ps_bump = 0\<rparr>"

text \<open>\<open>init_if_needed\<close>: an account of the system program is created, any other must load.\<close>

definition init_pair_if_needed ::
  "env \<Rightarrow> prop_amm_pair_state account \<Rightarrow> prop_amm_pair_state result" where
  "init_pair_if_needed e account =
     (if a_owner account = system_program_id e
      then and_then (create_account e (a_key account)) (\<lambda>_. Ok zero_pair_state)
      else load_pda_account account (program_id e) AnchorConstraint AnchorConstraint)"

definition validate_pair_config :: "pair_config \<Rightarrow> unit result" where
  "validate_pair_config c =
     require (pc_curve_peg_haircut_bps c \<le> MAX_BASIS_POINTS) InvalidAmount (
     require (CURVE_EXPONENT_STEP \<le> pc_curve_exponent_scaled c \<and>
         pc_curve_exponent_scaled c \<le> saturating_mul u32_max CURVE_EXPONENT_SCALE 10) InvalidAmount (
     require (CURVE_EXPONENT_STEP dvd pc_curve_exponent_scaled c) InvalidAmount (
     require (pc_cadence_threshold c > 0) InvalidAmount (
     require (pc_cadence_wave_scaled c \<le> MAX_CADENCE_WAVE_SCALED) InvalidAmount (
     require (CADENCE_WAVE_STEP dvd pc_cadence_wave_scaled c) InvalidAmount (
     require (pc_epoch_duration_seconds c > 0) InvalidAmount (
     require (pc_wall_sensitivity_scaled c > 0) InvalidAmount (Ok ()))))))))"

definition apply_pair_config ::
  "env \<Rightarrow> state \<Rightarrow> configure_accounts \<Rightarrow> pair_config \<Rightarrow> prop_amm_pair_state \<Rightarrow> prop_amm_pair_state" where
  "apply_pair_config e st a c ps = ps\<lparr>
     ps_offer := a_key (ca_offer a), ps_asset_mint := ca_asset_mint a,
     ps_onyc_mint := s_onyc_mint st, ps_enabled := pc_enabled c,
     ps_curve_peg_haircut_bps := pc_curve_peg_haircut_bps c,
     ps_curve_exponent_scaled := pc_curve_exponent_scaled c,
     ps_cadence_threshold := pc_cadence_threshold c,
     ps_cadence_wave_scaled := pc_cadence_wave_scaled c,
     ps_epoch_duration_seconds := pc_epoch_duration_seconds c,
     ps_wall_sensitivity_scaled := pc_wall_sensitivity_scaled c,
     ps_minimum_sell_haircut_onyc := pc_minimum_sell_haircut_onyc c,
     ps_epoch_start := (if ps_epoch_start ps = 0 then unix_timestamp e else ps_epoch_start ps),
     ps_bump := snd (find_program_address e (prop_amm_pair_seeds (a_key (ca_offer a))))\<rparr>"

definition configure_prop_amm ::
  "env \<Rightarrow> state \<Rightarrow> configure_accounts \<Rightarrow> pair_config \<Rightarrow> prop_amm_pair_state account \<Rightarrow>
     prop_amm_pair_state account result" where
  "configure_prop_amm e st a c account =
     require (ca_boss a = s_boss st) InvalidBoss (
     require (a_key (ca_offer a) = pda e (offer_seeds (ca_asset_mint a) (s_onyc_mint st)))
       AnchorConstraint (
     and_then (load_pda_account (ca_offer a) (program_id e) AnchorConstraint AnchorConstraint) (\<lambda>offer.
     require (a_key account = pda e (prop_amm_pair_seeds (a_key (ca_offer a)))) AnchorConstraint (
     and_then (init_pair_if_needed e account) (\<lambda>ps.
     and_then (validate_pair_config c) (\<lambda>_.
     and_then (require_mints offer (ca_asset_mint a) (s_onyc_mint st)) (\<lambda>_.
     Ok (account\<lparr>a_owner := program_id e, a_data := AccountData (apply_pair_config e st a c ps)\<rparr>))))))))"

section \<open>Sides and pairs\<close>

datatype swap_side = Buy | Sell

definition resolve_swap_side :: "state \<Rightarrow> pubkey \<Rightarrow> pubkey \<Rightarrow> (swap_side \<times> pubkey) result" where
  "resolve_swap_side st token_in_mint token_out_mint =
     require (token_in_mint \<noteq> token_out_mint) InvalidSwapPair (
     if token_out_mint = s_onyc_mint st \<and> token_in_mint \<noteq> s_onyc_mint st
     then Ok (Buy, token_in_mint)
     else if token_in_mint = s_onyc_mint st \<and> token_out_mint \<noteq> s_onyc_mint st
     then Ok (Sell, token_out_mint)
     else Err InvalidSwapPair)"

definition validate_canonical_offer ::
  "env \<Rightarrow> state \<Rightarrow> pubkey \<Rightarrow> pubkey \<Rightarrow> pubkey \<Rightarrow> swap_side result" where
  "validate_canonical_offer e st offer_key token_in_mint token_out_mint =
     and_then (resolve_swap_side st token_in_mint token_out_mint) (\<lambda>(side, asset_mint).
     require (offer_key = pda e (offer_seeds asset_mint (s_onyc_mint st))) OfferMismatch (
     Ok side))"

definition validate_prop_amm_pair_state ::
  "state \<Rightarrow> prop_amm_pair_state \<Rightarrow> pubkey \<Rightarrow> pubkey \<Rightarrow> pubkey \<Rightarrow> swap_side result" where
  "validate_prop_amm_pair_state st ps offer_key token_in_mint token_out_mint =
     and_then (resolve_swap_side st token_in_mint token_out_mint) (\<lambda>(side, asset_mint).
     require (ps_offer ps = offer_key) InvalidPropAmmPairState (
     require (ps_asset_mint ps = asset_mint) InvalidPropAmmPairState (
     require (ps_onyc_mint ps = s_onyc_mint st) InvalidPropAmmPairState (
     require (ps_enabled ps) PropAmmPairDisabled (
     Ok side)))))"

definition validate_prop_amm_pair_for_side ::
  "env \<Rightarrow> state \<Rightarrow> prop_amm_pair_state \<Rightarrow> pubkey \<Rightarrow> pubkey \<Rightarrow> pubkey \<Rightarrow> swap_side \<Rightarrow> unit result" where
  "validate_prop_amm_pair_for_side e st ps offer_key token_in_mint token_out_mint expected_side =
     and_then (validate_canonical_offer e st offer_key token_in_mint token_out_mint) (\<lambda>side.
     require (side = expected_side) InvalidSwapPair (
     and_then (validate_prop_amm_pair_state st ps offer_key token_in_mint token_out_mint)
       (\<lambda>pair_side.
     require (pair_side = expected_side) InvalidSwapPair (Ok ()))))"

section \<open>Liquidity of a sell\<close>

record redemption_offer_config_data =
  rc_fee_basis_points_prop_amm_sell :: u16
  rc_vault_target_bps :: u16

record sell_quote_liquidity =
  lq_fee_basis_points_prop_amm_sell :: u16
  lq_actual_liquidity :: u64
  lq_hard_wall_reserve :: u64

definition redemption_offer_config ::
  "env \<Rightarrow> redemption_offer account \<Rightarrow> pubkey \<Rightarrow> pubkey \<Rightarrow> pubkey \<Rightarrow> redemption_offer_config_data result"
  where
  "redemption_offer_config e redemption_offer_account offer_key token_in_mint token_out_mint =
     and_then (load_optional_checked_redemption_offer e redemption_offer_account offer_key
         token_in_mint token_out_mint) (\<lambda>loaded.
     case loaded of
       None \<Rightarrow> Ok \<lparr>rc_fee_basis_points_prop_amm_sell = 0, rc_vault_target_bps = 0\<rparr>
     | Some ro \<Rightarrow>
         and_then (ro_require_enabled ro) (\<lambda>_.
         Ok \<lparr>rc_fee_basis_points_prop_amm_sell = ro_fee_basis_points_prop_amm_sell ro,
             rc_vault_target_bps = ro_vault_target_bps ro\<rparr>))"

definition resolve_hard_wall_reserve ::
  "env \<Rightarrow> market_stats account \<Rightarrow> u64 \<Rightarrow> u16 \<Rightarrow> u8 \<Rightarrow> u8 \<Rightarrow> u64 result" where
  "resolve_hard_wall_reserve e market_stats_account actual_liquidity vault_target_bps
     token_out_decimals onyc_decimals =
     (if vault_target_bps = 0 then Ok actual_liquidity
      else
        and_then (read_market_stats_account e market_stats_account) (\<lambda>stats.
        and_then (hard_wall_reserve_from_tvl (ms_tvl stats) vault_target_bps token_out_decimals
            onyc_decimals) (\<lambda>target_reserve.
        Ok (min actual_liquidity target_reserve))))"

definition sell_quote_liquidity_context ::
  "env \<Rightarrow> redemption_offer account \<Rightarrow> pubkey \<Rightarrow> pubkey \<Rightarrow> pubkey \<Rightarrow> market_stats account \<Rightarrow> u64 \<Rightarrow>
     u8 \<Rightarrow> u8 \<Rightarrow> sell_quote_liquidity result" where
  "sell_quote_liquidity_context e redemption_offer_account offer_key token_in_mint token_out_mint
     market_stats_account actual_liquidity token_out_decimals onyc_decimals =
     and_then (redemption_offer_config e redemption_offer_account offer_key token_in_mint
         token_out_mint) (\<lambda>redemption_config.
     and_then (resolve_hard_wall_reserve e market_stats_account actual_liquidity
         (rc_vault_target_bps redemption_config) token_out_decimals onyc_decimals)
       (\<lambda>hard_wall_reserve.
     Ok \<lparr>lq_fee_basis_points_prop_amm_sell = rc_fee_basis_points_prop_amm_sell redemption_config,
         lq_actual_liquidity = actual_liquidity, lq_hard_wall_reserve = hard_wall_reserve\<rparr>))"

definition validate_market_stats_pda :: "env \<Rightarrow> market_stats account \<Rightarrow> unit result" where
  "validate_market_stats_pda e market_stats_account =
     require (pda e [Seed ''market_stats''] = a_key market_stats_account) InvalidMarketStatsPda (Ok ())"

definition apply_hard_wall_liquidity_factor ::
  "env \<Rightarrow> u64 \<Rightarrow> u64 \<Rightarrow> u64 \<Rightarrow> prop_amm_pair_state \<Rightarrow> u64 result" where
  "apply_hard_wall_liquidity_factor e token_out_amount actual_liquidity hard_wall_reserve ps =
     apply_hard_wall_liquidity_factor_at_time token_out_amount actual_liquidity hard_wall_reserve ps
       (unix_timestamp e)"

definition dynamic_wall_liquidity ::
  "env \<Rightarrow> u64 \<Rightarrow> u64 \<Rightarrow> u64 \<Rightarrow> prop_amm_pair_state \<Rightarrow> u64 result" where
  "dynamic_wall_liquidity e current_sell_value_stable actual_liquidity hard_wall_reserve ps =
     dynamic_wall_liquidity_at_time current_sell_value_stable actual_liquidity hard_wall_reserve ps
       (unix_timestamp e)"

section \<open>Quotes\<close>

record swap_quote =
  sq_offer :: pubkey
  sq_token_in_mint :: pubkey
  sq_token_out_mint :: pubkey
  sq_token_in_amount :: u64
  sq_token_in_net_amount :: u64
  sq_token_in_fee_amount :: u64
  sq_token_out_amount :: u64
  sq_minimum_out :: u64
  sq_current_price :: u64
  sq_quoted_at :: i64

definition build_swap_buy_quote ::
  "env \<Rightarrow> state \<Rightarrow> pubkey \<Rightarrow> offer \<Rightarrow> prop_amm_pair_state \<Rightarrow> u64 \<Rightarrow> mint \<Rightarrow> mint \<Rightarrow> swap_quote result"
  where
  "build_swap_buy_quote e st offer_key offer ps token_in_amount token_in_mint token_out_mint =
     and_then (require_enabled offer) (\<lambda>_.
     and_then (validate_prop_amm_pair_for_side e st ps offer_key (m_key token_in_mint)
         (m_key token_out_mint) Buy) (\<lambda>_.
     and_then (process_offer_core e offer token_in_amount token_in_mint token_out_mint
         (permissionless_fee_basis_points offer)) (\<lambda>r.
     Ok \<lparr>sq_offer = offer_key, sq_token_in_mint = m_key token_in_mint,
         sq_token_out_mint = m_key token_out_mint, sq_token_in_amount = token_in_amount,
         sq_token_in_net_amount = op_token_in_net_amount r,
         sq_token_in_fee_amount = op_token_in_fee_amount r,
         sq_token_out_amount = op_token_out_amount r, sq_minimum_out = op_token_out_amount r,
         sq_current_price = op_current_price r, sq_quoted_at = unix_timestamp e\<rparr>)))"

definition build_swap_sell_quote ::
  "env \<Rightarrow> state \<Rightarrow> pubkey \<Rightarrow> offer \<Rightarrow> prop_amm_pair_state \<Rightarrow> u64 \<Rightarrow> u64 \<Rightarrow> u16 \<Rightarrow> u64 \<Rightarrow> mint \<Rightarrow> mint \<Rightarrow>
     swap_quote result" where
  "build_swap_sell_quote e st offer_key offer ps actual_liquidity hard_wall_reserve
     redemption_fee_basis_points token_in_amount token_in_mint token_out_mint =
     and_then (require_enabled offer) (\<lambda>_.
     and_then (validate_prop_amm_pair_for_side e st ps offer_key (m_key token_in_mint)
         (m_key token_out_mint) Sell) (\<lambda>_.
     and_then (process_redemption_core e offer token_in_amount token_in_mint token_out_mint
         redemption_fee_basis_points (ps_minimum_sell_haircut_onyc ps)) (\<lambda>r.
     and_then (apply_hard_wall_liquidity_factor e (rp_token_out_amount r) actual_liquidity
         hard_wall_reserve ps) (\<lambda>token_out_amount.
     Ok \<lparr>sq_offer = offer_key, sq_token_in_mint = m_key token_in_mint,
         sq_token_out_mint = m_key token_out_mint, sq_token_in_amount = token_in_amount,
         sq_token_in_net_amount = rp_token_in_net_amount r,
         sq_token_in_fee_amount = rp_token_in_fee_amount r,
         sq_token_out_amount = token_out_amount, sq_minimum_out = token_out_amount,
         sq_current_price = rp_price r, sq_quoted_at = unix_timestamp e\<rparr>))))"

definition require_quote_mints_without_transfer_fees :: "mint \<Rightarrow> mint \<Rightarrow> unit result" where
  "require_quote_mints_without_transfer_fees token_in_mint token_out_mint =
     require (\<not> has_transfer_fee token_in_mint) TransferFeeNotSupported (
     require (\<not> has_transfer_fee token_out_mint) TransferFeeNotSupported (Ok ()))"

definition load_offer_and_pair ::
  "env \<Rightarrow> offer account \<Rightarrow> prop_amm_pair_state account \<Rightarrow> (offer \<times> prop_amm_pair_state) result" where
  "load_offer_and_pair e offer_account pair_account =
     and_then (load_pda_account offer_account (program_id e) AnchorConstraint AnchorConstraint) (\<lambda>offer.
     require (a_key pair_account = pda e (prop_amm_pair_seeds (a_key offer_account))) AnchorConstraint (
     and_then (load_pda_account pair_account (program_id e) AnchorConstraint AnchorConstraint) (\<lambda>ps.
     Ok (offer, ps))))"

record quote_buy_accounts =
  qb_offer :: "offer account"
  qb_pair :: "prop_amm_pair_state account"
  qb_token_in_mint :: mint
  qb_token_out_mint :: mint

definition quote_swap_buy :: "env \<Rightarrow> state \<Rightarrow> quote_buy_accounts \<Rightarrow> u64 \<Rightarrow> swap_quote result" where
  "quote_swap_buy e st a token_in_amount =
     and_then (load_offer_and_pair e (qb_offer a) (qb_pair a)) (\<lambda>(offer, ps).
     require (\<not> s_is_killed st) KillSwitchActivated (
     and_then (require_quote_mints_without_transfer_fees (qb_token_in_mint a) (qb_token_out_mint a))
       (\<lambda>_.
     build_swap_buy_quote e st (a_key (qb_offer a)) offer ps token_in_amount (qb_token_in_mint a)
       (qb_token_out_mint a))))"

record quote_sell_accounts =
  qs_offer :: "offer account"
  qs_pair :: "prop_amm_pair_state account"
  qs_redemption_offer :: "redemption_offer account"
  qs_redemption_vault_token_out_account :: token_info
  qs_token_in_mint :: mint
  qs_token_out_mint :: mint
  qs_token_out_program :: pubkey
  qs_market_stats :: "market_stats account"

definition quote_swap_sell ::
  "env \<Rightarrow> state \<Rightarrow> quote_sell_accounts \<Rightarrow> u64 \<Rightarrow> ledger \<Rightarrow> swap_quote result" where
  "quote_swap_sell e st a token_in_amount L =
     (let tin = m_key (qs_token_in_mint a); tout = m_key (qs_token_out_mint a) in
      and_then (load_offer_and_pair e (qs_offer a) (qs_pair a)) (\<lambda>(offer, ps).
      require (a_key (qs_redemption_offer a) = pda e (redemption_offer_seeds tin tout))
        AnchorConstraint (
      require (\<not> s_is_killed st) KillSwitchActivated (
      and_then (get_associated_token_account e (qs_redemption_vault_token_out_account a)
          (pda e [Seed ''redemption_offer_vault_authority'']) tout (qs_token_out_program a)
          AnchorConstraint) (\<lambda>vault_out.
      and_then (require_quote_mints_without_transfer_fees (qs_token_in_mint a) (qs_token_out_mint a))
        (\<lambda>_.
      and_then (validate_market_stats_pda e (qs_market_stats a)) (\<lambda>_.
      and_then (sell_quote_liquidity_context e (qs_redemption_offer a) (a_key (qs_offer a)) tin tout
          (qs_market_stats a) (l_bal L vault_out) (m_decimals (qs_token_out_mint a))
          (m_decimals (qs_token_in_mint a))) (\<lambda>liquidity.
      build_swap_sell_quote e st (a_key (qs_offer a)) offer ps (lq_actual_liquidity liquidity)
        (lq_hard_wall_reserve liquidity) (lq_fee_basis_points_prop_amm_sell liquidity)
        token_in_amount (qs_token_in_mint a) (qs_token_out_mint a)))))))))"

end
