(* ===== verification/Swap_Exec.thy ===== *)
theory Swap_Exec
  imports Prop_Amm
begin

text \<open>
  The two swaps of the Prop AMM (\<open>prop_amm/buy.rs\<close>, \<open>prop_amm/sell.rs\<close>). A buy pays for ONyc
  with the asset through the permissionless authority's accounts; a sell returns ONyc to the
  redemption vault, is priced on freshly computed statistics, and is dampened by the curve.
\<close>

section \<open>State\<close>

record swap_world =
  sw_ledger :: ledger
  sw_pair :: "prop_amm_pair_state account"
  sw_proceeds_vault :: "configurable_vault account"
  sw_fee_vault :: "configurable_vault account"
  sw_buffer_accounts :: buffer_accrual_accounts
  sw_market_stats :: "market_stats account"

section \<open>Buy\<close>

record open_swap_buy_accounts = permissionless_accounts +
  yb_redemption_offer :: "redemption_offer account"
  yb_redemption_vault_token_in_account :: token_info
  yb_proceeds_token_in_account :: token_info
  yb_buy_fee_token_in_account :: token_info
  yb_excluded_balance :: "circulating_supply_excluded_balance account"
  yb_main_offer :: "offer account"

text \<open>The token accounts after validation or creation, and the two vaults after their creation.\<close>

record swap_buy_tokens =
  bt_user_in :: pubkey
  bt_user_out :: pubkey
  bt_proceeds :: pubkey
  bt_fee :: pubkey
  bt_proceeds_vault :: "configurable_vault account"
  bt_fee_vault :: "configurable_vault account"
  bt_vault_out :: pubkey
  bt_permissionless_in :: pubkey
  bt_permissionless_out :: pubkey
  bt_redemption_in :: pubkey

definition check_open_swap_buy_accounts ::
  "env \<Rightarrow> state \<Rightarrow> open_swap_buy_accounts \<Rightarrow> swap_world \<Rightarrow> (offer \<times> prop_amm_pair_state) result" where
  "check_open_swap_buy_accounts e st a w =
     and_then (load_offer_and_pair e (k_offer a) (sw_pair w)) (\<lambda>(offer, ps).
     require (a_key (yb_redemption_offer a) =
         pda e (redemption_offer_seeds (m_key (k_token_out_mint a)) (m_key (k_token_in_mint a))))
       AnchorConstraint (
     require (\<not> s_is_killed st) KillSwitchActivated (
     require (k_vault_authority a = pda e [Seed ''offer_vault_authority'']) AnchorConstraint (
     require (kp_permissionless_authority a = pda e [Seed ''permissionless-1'']) AnchorConstraint (
     require (k_mint_authority a = pda e [Seed ''mint_authority'']) AnchorConstraint (
     require (a_key (sw_market_stats w) = pda e [Seed ''market_stats'']) AnchorConstraint (
     require (a_key (yb_excluded_balance a) = pda e [Seed ''circ_supply_excl_balance''])
       AnchorConstraint (
     Ok (offer, ps)))))))))"

definition price_swap_buy ::
  "env \<Rightarrow> offer \<Rightarrow> 'a take_accounts_scheme \<Rightarrow> u64 \<Rightarrow> u64 \<Rightarrow> offer_process_result result" where
  "price_swap_buy e offer a token_in_amount minimum_out =
     and_then (require_enabled offer) (\<lambda>_.
     require (allow_permissionless offer) PermissionlessNotAllowed (
     and_then (process_offer_core e offer token_in_amount (k_token_in_mint a) (k_token_out_mint a)
         (permissionless_fee_basis_points offer)) (\<lambda>r.
     require (\<not> has_transfer_fee (k_token_in_mint a)) TransferFeeNotSupported (
     require (\<not> has_transfer_fee (k_token_out_mint a)) TransferFeeNotSupported (
     require (op_token_out_amount r \<ge> minimum_out) MinimumOutNotMet (
     Ok r))))))"

definition prepare_swap_buy_tokens ::
  "env \<Rightarrow> open_swap_buy_accounts \<Rightarrow> swap_world \<Rightarrow> swap_buy_tokens result" where
  "prepare_swap_buy_tokens e a w =
     (let tin = m_key (k_token_in_mint a); tout = m_key (k_token_out_mint a);
          pin = k_token_in_program a; pout = k_token_out_program a
      in
      and_then (get_associated_token_account e (k_user_token_in_account a) (k_user a) tin pin
          InvalidAmount) (\<lambda>user_in.
      and_then (get_or_create_associated_token_account e (k_user_token_out_account a) (k_user a) tout
          pout InvalidUserTokenOutAccount) (\<lambda>user_out.
      and_then (get_or_create_configurable_vault_token_account_pair e
          PropAmmProceeds (sw_proceeds_vault w) (yb_proceeds_token_in_account a)
          PropAmmBuyFee (sw_fee_vault w) (yb_buy_fee_token_in_account a) tin pin)
        (\<lambda>((proceeds, proceeds_vault), (fee, fee_vault)).
      and_then (get_associated_token_account e (k_vault_token_in_account a) (k_vault_authority a) tin
          pin InvalidVaultTokenInAccount) (\<lambda>_.
      and_then (get_associated_token_account e (k_vault_token_out_account a) (k_vault_authority a)
          tout pout InvalidVaultTokenOutAccount) (\<lambda>vault_out.
      and_then (get_associated_token_account e (kp_permissionless_token_in_account a)
          (kp_permissionless_authority a) tin pin InvalidAmount) (\<lambda>permissionless_in.
      and_then (get_associated_token_account e (kp_permissionless_token_out_account a)
          (kp_permissionless_authority a) tout pout InvalidPermissionlessTokenOutAccount)
        (\<lambda>permissionless_out.
      and_then (get_or_create_associated_token_account e (yb_redemption_vault_token_in_account a)
          (pda e [Seed ''redemption_offer_vault_authority'']) tin pin InvalidVaultTokenInAccount)
        (\<lambda>redemption_in.
      Ok \<lparr>bt_user_in = user_in, bt_user_out = user_out, bt_proceeds = proceeds, bt_fee = fee,
          bt_proceeds_vault = proceeds_vault, bt_fee_vault = fee_vault, bt_vault_out = vault_out,
          bt_permissionless_in = permissionless_in, bt_permissionless_out = permissionless_out,
          bt_redemption_in = redemption_in\<rparr>)))))))))"

text \<open>\<open>balance\<close> is the redemption vault's balance when its account was loaded.\<close>

definition swap_buy_refill ::
  "env \<Rightarrow> open_swap_buy_accounts \<Rightarrow> market_stats account \<Rightarrow> u64 \<Rightarrow> u64 \<Rightarrow> u64 result" where
  "swap_buy_refill e a market_stats_account balance token_in_net_amount =
     and_then (load_redemption_offer_vault_target_bps_for_offer e (yb_redemption_offer a)
         (a_key (k_offer a)) (m_key (k_token_in_mint a)) (m_key (k_token_out_mint a))) (\<lambda>target.
     calculate_redemption_vault_refill_amount e market_stats_account
       (case target of None \<Rightarrow> 0 | Some bps \<Rightarrow> bps) (k_token_in_mint a) (k_token_out_mint a)
       balance token_in_net_amount)"

text \<open>The payment leaves the intermediary account in up to three parts.\<close>

definition route_swap_buy_payment ::
  "spl_token \<Rightarrow> open_swap_buy_accounts \<Rightarrow> swap_buy_tokens \<Rightarrow> offer_process_result \<Rightarrow> u64 \<Rightarrow> ledger \<Rightarrow>
     ledger result" where
  "route_swap_buy_payment spl a bt r refill_amount L =
     (let m = k_token_in_mint a; authority = kp_permissionless_authority a in
      and_then (ok_or (checked_sub (op_token_in_net_amount r) refill_amount) ArithmeticUnderflow)
        (\<lambda>boss_net_amount.
      and_then (if refill_amount > 0
          then transfer_tokens spl m (bt_permissionless_in bt) (bt_redemption_in bt) authority
            refill_amount L
          else Ok L) (\<lambda>L.
      and_then (if boss_net_amount > 0
          then transfer_tokens spl m (bt_permissionless_in bt) (bt_proceeds bt) authority
            boss_net_amount L
          else Ok L) (\<lambda>L.
      if op_token_in_fee_amount r > 0
      then transfer_tokens spl m (bt_permissionless_in bt) (bt_fee bt) authority
        (op_token_in_fee_amount r) L
      else Ok L))))"

definition deliver_swap_buy ::
  "spl_token \<Rightarrow> state \<Rightarrow> open_swap_buy_accounts \<Rightarrow> swap_buy_tokens \<Rightarrow> mint \<Rightarrow> u64 \<Rightarrow> ledger \<Rightarrow> ledger result"
  where
  "deliver_swap_buy spl st a bt token_out_mint token_out_amount L =
     (if program_controls_mint token_out_mint (k_mint_authority a)
      then mint_tokens spl token_out_mint (bt_user_out bt) (k_mint_authority a) token_out_amount
        (s_max_supply st) (s_max_mint_amount st) L
      else
        and_then (transfer_tokens spl token_out_mint (bt_vault_out bt) (bt_permissionless_out bt)
            (k_vault_authority a) token_out_amount L) (\<lambda>L.
        transfer_tokens spl token_out_mint (bt_permissionless_out bt) (bt_user_out bt)
          (kp_permissionless_authority a) token_out_amount L))"

definition refresh_after_buy ::
  "env \<Rightarrow> state \<Rightarrow> open_swap_buy_accounts \<Rightarrow> offer option \<Rightarrow> market_stats account \<Rightarrow> ledger \<Rightarrow>
     market_stats account result" where
  "refresh_after_buy e st a main_offer market_stats L =
     (if is_onyc_token_out_mint st (k_token_out_mint a) then
        and_then (ok_or main_offer InvalidMainOffer) (\<lambda>main_offer.
        refresh_market_stats_pda e main_offer (reload L (k_token_out_mint a)) (yb_excluded_balance a)
          market_stats)
      else Ok market_stats)"

definition accrue_before_buy ::
  "env \<Rightarrow> spl_token \<Rightarrow> state \<Rightarrow> open_swap_buy_accounts \<Rightarrow> buffer_accrual_accounts \<Rightarrow> ledger \<Rightarrow>
     (offer option \<times> buffer_accrual_result option \<times> buffer_accrual_accounts \<times> ledger) result" where
  "accrue_before_buy e spl st a ba L =
     and_then (check_is_initialized e ba) (\<lambda>buffer_is_initialized.
     and_then (if is_onyc_token_out_mint st (k_token_out_mint a)
         then and_then (load_main_offer e (yb_main_offer a) st) (\<lambda>main_offer. Ok (Some main_offer))
         else Ok None) (\<lambda>main_offer.
     and_then (accrue_before_mint e spl st a
         (should_accrue_onyc_mint st (k_token_out_mint a) buffer_is_initialized (k_mint_authority a))
         main_offer ba L) (\<lambda>(accrual, ba, L).
     Ok (main_offer, accrual, ba, L))))"

text \<open>From the accrual to the refreshed statistics.\<close>

definition settle_swap_buy ::
  "env \<Rightarrow> spl_token \<Rightarrow> state \<Rightarrow> open_swap_buy_accounts \<Rightarrow> prop_amm_pair_state \<Rightarrow> swap_buy_tokens \<Rightarrow>
     offer_process_result \<Rightarrow> u64 \<Rightarrow> swap_world \<Rightarrow> swap_world result" where
  "settle_swap_buy e spl st a ps bt r token_in_amount w =
     and_then (accrue_before_buy e spl st a (sw_buffer_accounts w) (sw_ledger w))
       (\<lambda>(main_offer, accrual, ba, L).
     let token_out_mint = (if accrual \<noteq> None then reload L (k_token_out_mint a)
           else k_token_out_mint a)
     in
     and_then (transfer_tokens spl (k_token_in_mint a) (bt_user_in bt) (bt_permissionless_in bt)
         (k_user a) token_in_amount L) (\<lambda>L.
     and_then (swap_buy_refill e a (sw_market_stats w) (l_bal (sw_ledger w) (bt_redemption_in bt))
         (op_token_in_net_amount r)) (\<lambda>refill_amount.
     and_then (route_swap_buy_payment spl a bt r refill_amount L) (\<lambda>L.
     and_then (record_prop_amm_buy ps (op_token_in_net_amount r) (unix_timestamp e)) (\<lambda>ps.
     and_then (deliver_swap_buy spl st a bt token_out_mint (op_token_out_amount r) L) (\<lambda>L.
     and_then (store_post_offer_supply e OverflowError (op_token_out_amount r) accrual ba) (\<lambda>ba.
     and_then (refresh_after_buy e st a main_offer (sw_market_stats w) L) (\<lambda>ms.
     Ok \<lparr>sw_ledger = L, sw_pair = (sw_pair w)\<lparr>a_data := AccountData ps\<rparr>,
         sw_proceeds_vault = bt_proceeds_vault bt, sw_fee_vault = bt_fee_vault bt,
         sw_buffer_accounts = ba, sw_market_stats = ms\<rparr>))))))))"

definition execute_open_swap_buy ::
  "env \<Rightarrow> spl_token \<Rightarrow> state \<Rightarrow> open_swap_buy_accounts \<Rightarrow> offer \<Rightarrow> prop_amm_pair_state \<Rightarrow> u64 \<Rightarrow> u64 \<Rightarrow>
     swap_world \<Rightarrow> swap_world result" where
  "execute_open_swap_buy e spl st a offer ps token_in_amount minimum_out w =
     and_then (price_swap_buy e offer a token_in_amount minimum_out) (\<lambda>r.
     and_then (prepare_swap_buy_tokens e a w) (\<lambda>bt.
     settle_swap_buy e spl st a ps bt r token_in_amount w))"

definition open_swap_buy ::
  "env \<Rightarrow> spl_token \<Rightarrow> state \<Rightarrow> open_swap_buy_accounts \<Rightarrow> u64 \<Rightarrow> u64 \<Rightarrow> swap_world \<Rightarrow> swap_world result"
  where
  "open_swap_buy e spl st a token_in_amount minimum_out w =
     and_then (check_open_swap_buy_accounts e st a w) (\<lambda>(offer, ps).
     and_then (validate_prop_amm_pair_for_side e st ps (a_key (k_offer a))
         (m_key (k_token_in_mint a)) (m_key (k_token_out_mint a)) Buy) (\<lambda>_.
     execute_open_swap_buy e spl st a offer ps token_in_amount minimum_out w))"

section \<open>Sell\<close>

record open_swap_sell_accounts =
  ys_offer :: "offer account"
  ys_redemption_offer :: "redemption_offer account"
  ys_offer_vault_authority :: pubkey
  ys_redemption_vault_token_in_account :: token_info
  ys_redemption_vault_token_out_account :: token_info
  ys_token_in_mint :: mint
  ys_token_in_program :: pubkey
  ys_token_out_mint :: mint
  ys_token_out_program :: pubkey
  ys_user_token_in_account :: token_info
  ys_user_token_out_account :: token_info
  ys_proceeds_token_in_account :: token_info
  ys_sell_fee_token_in_account :: token_info
  ys_mint_authority :: pubkey
  ys_excluded_balance :: "circulating_supply_excluded_balance account"
  ys_instructions_sysvar :: pubkey
  ys_user :: pubkey
  ys_main_offer :: "offer account"
  ys_offer_vault_onyc_account :: token_info

record swap_sell_tokens =
  st_user_in :: pubkey
  st_user_out :: pubkey
  st_proceeds :: pubkey
  st_fee :: pubkey
  st_proceeds_vault :: "configurable_vault account"
  st_fee_vault :: "configurable_vault account"
  st_redemption_in :: pubkey

definition check_open_swap_sell_accounts ::
  "env \<Rightarrow> state \<Rightarrow> open_swap_sell_accounts \<Rightarrow> swap_world \<Rightarrow> (offer \<times> prop_amm_pair_state) result" where
  "check_open_swap_sell_accounts e st a w =
     (let tin = m_key (ys_token_in_mint a); tout = m_key (ys_token_out_mint a) in
      require (a_key (ys_offer a) = pda e (offer_seeds tout tin)) AnchorConstraint (
      and_then (load_offer_and_pair e (ys_offer a) (sw_pair w)) (\<lambda>(offer, ps).
      require (a_key (ys_redemption_offer a) = pda e (redemption_offer_seeds tin tout))
        AnchorConstraint (
      require (\<not> s_is_killed st) KillSwitchActivated (
      require (ys_offer_vault_authority a = pda e [Seed ''offer_vault_authority'']) AnchorConstraint (
      require (ys_mint_authority a = pda e [Seed ''mint_authority'']) AnchorConstraint (
      require (a_key (sw_market_stats w) = pda e [Seed ''market_stats'']) AnchorConstraint (
      require (a_key (ys_excluded_balance a) = pda e [Seed ''circ_supply_excl_balance''])
        AnchorConstraint (
      Ok (offer, ps))))))))))"

text \<open>
  The statistics are refreshed before the sell is priced on them. The result is the main offer,
  the refreshed statistics, the vault that pays and the liquidity.
\<close>

definition refresh_before_sell ::
  "env \<Rightarrow> state \<Rightarrow> open_swap_sell_accounts \<Rightarrow> offer \<Rightarrow> swap_world \<Rightarrow>
     (offer \<times> market_stats account \<times> pubkey \<times> sell_quote_liquidity) result" where
  "refresh_before_sell e st a offer w =
     and_then (validate_take_offer_authorities e (ys_offer_vault_authority a) (ys_mint_authority a)
         (ys_instructions_sysvar a)) (\<lambda>_.
     and_then (require_enabled offer) (\<lambda>_.
     and_then (validate_market_stats_pda e (sw_market_stats w)) (\<lambda>_.
     and_then (load_main_offer e (ys_main_offer a) st) (\<lambda>main_offer.
     and_then (refresh_market_stats_pda e main_offer (ys_token_in_mint a) (ys_excluded_balance a)
         (sw_market_stats w)) (\<lambda>ms.
     and_then (get_associated_token_account e (ys_redemption_vault_token_out_account a)
         (pda e [Seed ''redemption_offer_vault_authority'']) (m_key (ys_token_out_mint a))
         (ys_token_out_program a) InvalidVaultTokenOutAccount) (\<lambda>vault_out.
     and_then (sell_quote_liquidity_context e (ys_redemption_offer a) (a_key (ys_offer a))
         (m_key (ys_token_in_mint a)) (m_key (ys_token_out_mint a)) ms
         (l_bal (sw_ledger w) vault_out) (m_decimals (ys_token_out_mint a))
         (m_decimals (ys_token_in_mint a))) (\<lambda>liquidity.
     Ok (main_offer, ms, vault_out, liquidity))))))))"

definition prepare_swap_sell_tokens ::
  "env \<Rightarrow> state \<Rightarrow> open_swap_sell_accounts \<Rightarrow> swap_world \<Rightarrow> swap_sell_tokens result" where
  "prepare_swap_sell_tokens e st a w =
     (let tin = m_key (ys_token_in_mint a); pin = ys_token_in_program a in
      and_then (get_associated_token_account e (ys_user_token_in_account a) (ys_user a) tin pin
          InvalidAmount) (\<lambda>user_in.
      and_then (get_or_create_associated_token_account e (ys_user_token_out_account a) (ys_user a)
          (m_key (ys_token_out_mint a)) (ys_token_out_program a) InvalidUserTokenOutAccount) (\<lambda>user_out.
      and_then (get_or_create_configurable_vault_token_account_pair e
          PropAmmProceeds (sw_proceeds_vault w) (ys_proceeds_token_in_account a)
          PropAmmSellFee (sw_fee_vault w) (ys_sell_fee_token_in_account a) tin pin)
        (\<lambda>((proceeds, proceeds_vault), (fee, fee_vault)).
      and_then (get_or_create_associated_token_account e (ys_redemption_vault_token_in_account a)
          (pda e [Seed ''redemption_offer_vault_authority'']) tin pin InvalidVaultTokenInAccount)
        (\<lambda>redemption_in.
      and_then (get_associated_token_account e (ys_offer_vault_onyc_account a)
          (ys_offer_vault_authority a) (s_onyc_mint st) pin InvalidOfferVaultOnycAccount) (\<lambda>_.
      Ok \<lparr>st_user_in = user_in, st_user_out = user_out, st_proceeds = proceeds, st_fee = fee,
          st_proceeds_vault = proceeds_vault, st_fee_vault = fee_vault,
          st_redemption_in = redemption_in\<rparr>))))))"

definition should_refresh_after_sell :: "state \<Rightarrow> open_swap_sell_accounts \<Rightarrow> bool" where
  "should_refresh_after_sell st a \<longleftrightarrow> m_key (ys_token_in_mint a) = s_onyc_mint st \<and>
     program_controls_mint (ys_token_in_mint a) (ys_mint_authority a)"

definition accrue_before_sell ::
  "env \<Rightarrow> spl_token \<Rightarrow> state \<Rightarrow> open_swap_sell_accounts \<Rightarrow> offer \<Rightarrow> buffer_accrual_accounts \<Rightarrow> ledger \<Rightarrow>
     (buffer_accrual_result option \<times> buffer_accrual_accounts \<times> ledger) result" where
  "accrue_before_sell e spl st a main_offer ba L =
     and_then (check_is_initialized e ba) (\<lambda>buffer_is_initialized.
     if should_refresh_after_sell st a \<and> buffer_is_initialized then
       and_then (accrue_buffer_from_accounts e spl st ba main_offer (ys_token_in_mint a)
           (ys_mint_authority a) (ys_token_in_program a) L) (\<lambda>(accrual, ba, L).
       Ok (Some accrual, ba, L))
     else Ok (None, ba, L))"

text \<open>
  The order of a sell: the core of the redemption, then the curve. The raw output is what the
  tracker records; the dampened one is what the user receives.
\<close>

definition price_swap_sell ::
  "env \<Rightarrow> offer \<Rightarrow> mint \<Rightarrow> mint \<Rightarrow> sell_quote_liquidity \<Rightarrow> prop_amm_pair_state \<Rightarrow> u64 \<Rightarrow> u64 \<Rightarrow>
     (redemption_process_result \<times> u64) result" where
  "price_swap_sell e offer token_in_mint token_out_mint liquidity ps token_in_amount minimum_out =
     and_then (process_redemption_core e offer token_in_amount token_in_mint token_out_mint
         (lq_fee_basis_points_prop_amm_sell liquidity) (ps_minimum_sell_haircut_onyc ps)) (\<lambda>r.
     and_then (apply_hard_wall_liquidity_factor e (rp_token_out_amount r)
         (lq_actual_liquidity liquidity) (lq_hard_wall_reserve liquidity) ps) (\<lambda>token_out_amount.
     require (token_out_amount \<ge> minimum_out) MinimumOutNotMet (
     Ok (r, token_out_amount))))"

definition store_post_burn_supply ::
  "env \<Rightarrow> u64 \<Rightarrow> buffer_accrual_result option \<Rightarrow> buffer_accrual_accounts \<Rightarrow>
     buffer_accrual_accounts result" where
  "store_post_burn_supply e token_in_net_amount accrual ba =
     (case accrual of
        None \<Rightarrow> Ok ba
      | Some accrual \<Rightarrow>
          and_then (ok_or (checked_sub (ar_post_accrual_supply accrual) token_in_net_amount)
              MathOverflow) (\<lambda>post_burn_supply.
          store_buffer_post_supply e ba post_burn_supply (ar_timestamp accrual)))"

definition sell_order ::
  "env \<Rightarrow> open_swap_sell_accounts \<Rightarrow> mint \<Rightarrow> swap_sell_tokens \<Rightarrow> pubkey \<Rightarrow> redemption_process_result \<Rightarrow>
     u64 \<Rightarrow> execute_redemption_ops_params" where
  "sell_order e a token_in_mint tk vault_out r token_out_amount = \<lparr>
     x_token_in_mint = token_in_mint,
     x_token_in_net_amount = rp_token_in_net_amount r,
     x_token_in_fee_amount = rp_token_in_fee_amount r,
     x_vault_token_in_account = st_redemption_in tk,
     x_token_in_destination_account = st_proceeds tk,
     x_fee_destination_token_in_account = st_fee tk,
     x_redemption_vault_authority = pda e [Seed ''redemption_offer_vault_authority''],
     x_token_out_mint = ys_token_out_mint a,
     x_token_out_amount = token_out_amount,
     x_vault_token_out_account = vault_out,
     x_user_token_out_account = st_user_out tk,
     x_mint_authority_pda = ys_mint_authority a\<rparr>"

definition settle_swap_sell ::
  "env \<Rightarrow> spl_token \<Rightarrow> state \<Rightarrow> open_swap_sell_accounts \<Rightarrow> offer \<Rightarrow> prop_amm_pair_state \<Rightarrow> offer \<Rightarrow>
     market_stats account \<Rightarrow> pubkey \<Rightarrow> sell_quote_liquidity \<Rightarrow> swap_sell_tokens \<Rightarrow> u64 \<Rightarrow> u64 \<Rightarrow>
     swap_world \<Rightarrow> swap_world result" where
  "settle_swap_sell e spl st a offer ps main_offer ms vault_out liquidity tk token_in_amount
     minimum_out w =
     and_then (accrue_before_sell e spl st a main_offer (sw_buffer_accounts w) (sw_ledger w))
       (\<lambda>(accrual, ba, L).
     let token_in_mint = (if accrual \<noteq> None then reload L (ys_token_in_mint a)
           else ys_token_in_mint a)
     in
     and_then (price_swap_sell e offer token_in_mint (ys_token_out_mint a) liquidity ps
         token_in_amount minimum_out) (\<lambda>(r, token_out_amount).
     and_then (record_prop_amm_sell ps (rp_token_out_amount r) (unix_timestamp e)) (\<lambda>ps.
     and_then (transfer_tokens spl token_in_mint (st_user_in tk) (st_redemption_in tk) (ys_user a)
         token_in_amount L) (\<lambda>L.
     and_then (execute_redemption_operations spl
         (sell_order e a token_in_mint tk vault_out r token_out_amount) L) (\<lambda>L.
     and_then (store_post_burn_supply e (rp_token_in_net_amount r) accrual ba) (\<lambda>ba.
     and_then (if should_refresh_after_sell st a
         then refresh_market_stats_pda e main_offer (reload L (ys_token_in_mint a))
           (ys_excluded_balance a) ms
         else Ok ms) (\<lambda>ms.
     Ok \<lparr>sw_ledger = L, sw_pair = (sw_pair w)\<lparr>a_data := AccountData ps\<rparr>,
         sw_proceeds_vault = st_proceeds_vault tk, sw_fee_vault = st_fee_vault tk,
         sw_buffer_accounts = ba, sw_market_stats = ms\<rparr>)))))))"

definition execute_open_swap_sell ::
  "env \<Rightarrow> spl_token \<Rightarrow> state \<Rightarrow> open_swap_sell_accounts \<Rightarrow> offer \<Rightarrow> prop_amm_pair_state \<Rightarrow> u64 \<Rightarrow> u64 \<Rightarrow>
     swap_world \<Rightarrow> swap_world result" where
  "execute_open_swap_sell e spl st a offer ps token_in_amount minimum_out w =
     and_then (refresh_before_sell e st a offer w) (\<lambda>(main_offer, ms, vault_out, liquidity).
     and_then (prepare_swap_sell_tokens e st a w) (\<lambda>tk.
     settle_swap_sell e spl st a offer ps main_offer ms vault_out liquidity tk token_in_amount
       minimum_out w))"

definition open_swap_sell ::
  "env \<Rightarrow> spl_token \<Rightarrow> state \<Rightarrow> open_swap_sell_accounts \<Rightarrow> u64 \<Rightarrow> u64 \<Rightarrow> swap_world \<Rightarrow> swap_world result"
  where
  "open_swap_sell e spl st a token_in_amount minimum_out w =
     and_then (check_open_swap_sell_accounts e st a w) (\<lambda>(offer, ps).
     and_then (validate_prop_amm_pair_for_side e st ps (a_key (ys_offer a))
         (m_key (ys_token_in_mint a)) (m_key (ys_token_out_mint a)) Sell) (\<lambda>_.
     execute_open_swap_sell e spl st a offer ps token_in_amount minimum_out w))"

section \<open>Sell: effect\<close>

lemma redemption_core_reload [simp]:
  "process_redemption_core e offer amount (reload L m) m_out bps mn =
     process_redemption_core e offer amount m m_out bps mn"
  by (simp add: process_redemption_core_def reload_def)

lemma has_transfer_fee_reload [simp]: "has_transfer_fee (reload L m) = has_transfer_fee m"
  by (simp add: has_transfer_fee_def reload_def)

lemma program_controls_mint_reload [simp]:
  "program_controls_mint (reload L m) k = program_controls_mint m k"
  by (simp add: program_controls_mint_def)

lemma accrue_before_sell_effect:
  assumes laws: "spl_laws spl" and fresh: "m_supply (ys_token_in_mint a) = l_supply L (m_key (ys_token_in_mint a))"
    and ok: "accrue_before_sell e spl st a mo ba L = Ok (acc, ba', L')"
  defines "should \<equiv> should_refresh_after_sell st a \<and> check_is_initialized e ba = Ok True"
  shows "\<not> should \<and> acc = None \<and> ba' = ba \<and> L' = L \<or>
    (\<exists>r b b'. should \<and> acc = Some r \<and> load_buffer_state e ba = Ok b \<and> load_buffer_state e ba' = Ok b' \<and>
      ar_timestamp r = unix_timestamp e \<and>
      accrual_effect st (ys_token_in_mint a) (t_key (ba_reserve_vault_onyc_account ba))
       (t_key (ba_management_fee_vault_onyc_account ba)) (t_key (ba_performance_fee_vault_onyc_account ba))
       (unix_timestamp e) b L r b' L')"
proof -
  from ok obtain init where init: "check_is_initialized e ba = Ok init"
    and acc: "(if should_refresh_after_sell st a \<and> init then
       and_then (accrue_buffer_from_accounts e spl st ba mo (ys_token_in_mint a)
           (ys_mint_authority a) (ys_token_in_program a) L) (\<lambda>(accrual, ba, L).
       Ok (Some accrual, ba, L))
     else Ok (None, ba, L)) = Ok (acc, ba', L')"
    unfolding accrue_before_sell_def by (auto split del: if_split)
  have s: "should \<longleftrightarrow> should_refresh_after_sell st a \<and> init" by (simp add: should_def init)
  show ?thesis
    using acc accrue_buffer_from_accounts_effect [OF laws fresh] unfolding s by (cases should) (auto simp: s)
qed

text \<open>Accrue, burn or forward the net amount, store the supply after it.\<close>

lemma accrued_sell_baseline:
  assumes laws: "spl_laws spl" and fresh: "m_supply (ys_token_in_mint a) = l_supply L (m_key (ys_token_in_mint a))"
    and acc: "accrue_before_sell e spl st a mo ba L = Ok (accr, ba1, L1)"
    and order: "int (l_supply L2 (m_key (ys_token_in_mint a))) = int (l_supply L1 (m_key (ys_token_in_mint a)))
      - part (program_controls_mint (ys_token_in_mint a) (ys_mint_authority a)) net"
    and store: "store_post_burn_supply e net accr ba1 = Ok ba2"
  shows "\<exists>accrued. l_supply L1 (m_key (ys_token_in_mint a)) = l_supply L (m_key (ys_token_in_mint a)) + accrued \<and>
    (\<forall>x. x \<notin> {t_key (ba_reserve_vault_onyc_account ba), t_key (ba_management_fee_vault_onyc_account ba),
        t_key (ba_performance_fee_vault_onyc_account ba)} \<longrightarrow> l_bal L1 x = l_bal L x) \<and>
    (if should_refresh_after_sell st a \<and> check_is_initialized e ba = Ok True
     then \<exists>b. load_buffer_state e ba2 = Ok b \<and> b_last_accrual_timestamp b = unix_timestamp e \<and>
        b_previous_supply b = l_supply L2 (m_key (ys_token_in_mint a))
     else accrued = 0 \<and> ba2 = ba)"
  using accrue_before_sell_effect [OF laws fresh acc]
proof (elim disjE exE conjE)
  fix r b b'
  assume s: "should_refresh_after_sell st a" "check_is_initialized e ba = Ok True" and accr: "accr = Some r"
    and b': "load_buffer_state e ba1 = Ok b'" and now: "ar_timestamp r = unix_timestamp e"
    and eff: "accrual_effect st (ys_token_in_mint a) (t_key (ba_reserve_vault_onyc_account ba))
       (t_key (ba_management_fee_vault_onyc_account ba)) (t_key (ba_performance_fee_vault_onyc_account ba))
       (unix_timestamp e) b L r b' L1"
  have ctl: "program_controls_mint (ys_token_in_mint a) (ys_mint_authority a)"
    using s by (simp add: should_refresh_after_sell_def)
  have post: "ar_post_accrual_supply r = l_supply L1 (m_key (ys_token_in_mint a))"
    using eff unfolding accrual_effect_def by blast
  have "\<exists>b. load_buffer_state e ba2 = Ok b \<and> b_last_accrual_timestamp b = unix_timestamp e \<and>
        b_previous_supply b = l_supply L2 (m_key (ys_token_in_mint a))"
    using store accr b' now post order ctl
    by (auto simp: store_post_burn_supply_def store_buffer_post_supply_def load_buffer_state_Ok
        store_buffer_state_Ok set_buffer_baseline_after_supply_change_def part_def)
  moreover have "int (l_bal L1 x) = int (l_bal L x)" if "x \<notin> {t_key (ba_reserve_vault_onyc_account ba),
      t_key (ba_management_fee_vault_onyc_account ba), t_key (ba_performance_fee_vault_onyc_account ba)}" for x
    using eff that unfolding accrual_effect_def by simp
  moreover have "l_supply L1 (m_key (ys_token_in_mint a)) = l_supply L (m_key (ys_token_in_mint a)) + ar_buffer_mint_amount r"
    using eff unfolding accrual_effect_def by simp
  ultimately show ?thesis using s by auto
qed (use store in \<open>auto simp: store_post_burn_supply_def\<close>)

lemma price_swap_sell_Ok:
  assumes "price_swap_sell e offer m m_out liq ps amount mn = Ok (r, out)"
  shows "process_redemption_core e offer amount m m_out (lq_fee_basis_points_prop_amm_sell liq)
      (ps_minimum_sell_haircut_onyc ps) = Ok r"
    and "apply_hard_wall_liquidity_factor e (rp_token_out_amount r) (lq_actual_liquidity liq)
      (lq_hard_wall_reserve liq) ps = Ok out"
    and "mn \<le> out" and "rp_token_in_fee_amount r + rp_token_in_net_amount r = amount"
proof -
  show core: "process_redemption_core e offer amount m m_out (lq_fee_basis_points_prop_amm_sell liq)
      (ps_minimum_sell_haircut_onyc ps) = Ok r"
    and "apply_hard_wall_liquidity_factor e (rp_token_out_amount r) (lq_actual_liquidity liq)
      (lq_hard_wall_reserve liq) ps = Ok out" and "mn \<le> out"
    using assms by (auto simp: price_swap_sell_def)
  show "rp_token_in_fee_amount r + rp_token_in_net_amount r = amount"
    using process_redemption_core_Ok(2) [OF core] redemption_fees_Ok(1) by fastforce
qed

lemma settle_swap_sell_effect:
  assumes laws: "spl_laws spl"
    and fresh: "m_supply (ys_token_in_mint a) = l_supply (sw_ledger w) (m_key (ys_token_in_mint a))"
    and ok: "settle_swap_sell e spl st a offer ps mo ms vault_out liq tk amount mn w = Ok w'"
  defines "burns \<equiv> program_controls_mint (ys_token_in_mint a) (ys_mint_authority a)"
    and "tin \<equiv> m_key (ys_token_in_mint a)" and "ba \<equiv> sw_buffer_accounts w"
  shows "\<exists>r out ps' accrued. price_swap_sell e offer (ys_token_in_mint a) (ys_token_out_mint a) liq ps amount mn = Ok (r, out) \<and>
    record_prop_amm_sell ps (rp_token_out_amount r) (unix_timestamp e) = Ok ps' \<and>
    sw_pair w' = (sw_pair w)\<lparr>a_data := AccountData ps'\<rparr> \<and>
    \<not> has_transfer_fee (ys_token_in_mint a) \<and> \<not> has_transfer_fee (ys_token_out_mint a) \<and>
    (\<forall>x. x \<notin> {t_key (ba_reserve_vault_onyc_account ba), t_key (ba_management_fee_vault_onyc_account ba),
          t_key (ba_performance_fee_vault_onyc_account ba)} \<longrightarrow>
      int (l_bal (sw_ledger w') x) = int (l_bal (sw_ledger w) x)
        - part (x = st_user_in tk) amount
        + part (\<not> burns \<and> x = st_proceeds tk) (rp_token_in_net_amount r)
        + part (x = st_fee tk) (rp_token_in_fee_amount r)
        - part (x = vault_out) out + part (x = st_user_out tk) out) \<and>
    int (l_supply (sw_ledger w') tin) = int (l_supply (sw_ledger w) tin) + int accrued
      - part burns (rp_token_in_net_amount r) \<and>
    (if should_refresh_after_sell st a \<and> check_is_initialized e ba = Ok True
     then \<exists>b. load_buffer_state e (sw_buffer_accounts w') = Ok b \<and>
        b_last_accrual_timestamp b = unix_timestamp e \<and> b_previous_supply b = l_supply (sw_ledger w') tin
     else accrued = 0 \<and> sw_buffer_accounts w' = ba)"
proof -
  from ok obtain accr ba1 L1 r out ps' L2 where
    acc: "accrue_before_sell e spl st a mo ba (sw_ledger w) = Ok (accr, ba1, L1)"
    and price: "price_swap_sell e offer (if accr \<noteq> None then reload L1 (ys_token_in_mint a) else ys_token_in_mint a)
       (ys_token_out_mint a) liq ps amount mn = Ok (r, out)"
    and rec: "record_prop_amm_sell ps (rp_token_out_amount r) (unix_timestamp e) = Ok ps'"
    and pay: "transfer_tokens spl (if accr \<noteq> None then reload L1 (ys_token_in_mint a) else ys_token_in_mint a)
       (st_user_in tk) (st_redemption_in tk) (ys_user a) amount L1 = Ok L2"
    and ex: "execute_redemption_operations spl (sell_order e a
       (if accr \<noteq> None then reload L1 (ys_token_in_mint a) else ys_token_in_mint a) tk vault_out r out) L2 = Ok (sw_ledger w')"
    and store: "store_post_burn_supply e (rp_token_in_net_amount r) accr ba1 = Ok (sw_buffer_accounts w')"
    and pair: "sw_pair w' = (sw_pair w)\<lparr>a_data := AccountData ps'\<rparr>"
    unfolding settle_swap_sell_def Let_def ba_def by (auto split del: if_split)
  define m where "m = (if accr \<noteq> None then reload L1 (ys_token_in_mint a) else ys_token_in_mint a)"
  have m: "m_key m = tin" "program_controls_mint m k = program_controls_mint (ys_token_in_mint a) k"
    "has_transfer_fee m = has_transfer_fee (ys_token_in_mint a)"
    "price_swap_sell e offer m (ys_token_out_mint a) liq ps amount mn =
     price_swap_sell e offer (ys_token_in_mint a) (ys_token_out_mint a) liq ps amount mn" for k
    by (simp_all add: m_def tin_def price_swap_sell_def)
  note eff = redemption_ops_effect [OF laws ex [folded m_def], unfolded sell_order_def, simplified,
      unfolded m, folded burns_def]
  note e1 = transfer_tokens_effect [OF laws pay]
  have price': "price_swap_sell e offer (ys_token_in_mint a) (ys_token_out_mint a) liq ps amount mn = Ok (r, out)"
    using price [folded m_def] by (simp add: m)
  note p = price_swap_sell_Ok [OF price']
  have bal: "int (l_bal (sw_ledger w') x) = int (l_bal L1 x)
        - part (x = st_user_in tk) amount
        + part (\<not> burns \<and> x = st_proceeds tk) (rp_token_in_net_amount r)
        + part (x = st_fee tk) (rp_token_in_fee_amount r)
        - part (x = vault_out) out + part (x = st_user_out tk) out" for x
    using eff(1) [of x] e1(1) [of x] p(4) by (simp add: part_def)
  have sup: "int (l_supply (sw_ledger w') tin) = int (l_supply L1 tin) - part burns (rp_token_in_net_amount r)"
    using eff(2) [of tin] e1 by simp
  obtain accrued where
    1: "l_supply L1 tin = l_supply (sw_ledger w) tin + accrued"
    and 2: "\<forall>x. x \<notin> {t_key (ba_reserve_vault_onyc_account ba), t_key (ba_management_fee_vault_onyc_account ba),
        t_key (ba_performance_fee_vault_onyc_account ba)} \<longrightarrow> l_bal L1 x = l_bal (sw_ledger w) x"
    and 3: "if should_refresh_after_sell st a \<and> check_is_initialized e ba = Ok True
     then \<exists>b. load_buffer_state e (sw_buffer_accounts w') = Ok b \<and> b_last_accrual_timestamp b = unix_timestamp e \<and>
        b_previous_supply b = l_supply (sw_ledger w') tin
     else accrued = 0 \<and> sw_buffer_accounts w' = ba"
    using accrued_sell_baseline [OF laws fresh acc sup [unfolded tin_def burns_def] store] unfolding tin_def by blast
  show ?thesis
    by (rule exI [of _ r], rule exI [of _ out], rule exI [of _ ps'], rule exI [of _ accrued], intro conjI allI impI)
      (use price' rec pair eff(3,4) bal sup 1 2 3 in \<open>simp_all add: m split del: if_split\<close>)
qed

text \<open>The accounts of a quote for the sell, with the given statistics.\<close>

definition sell_quote_accounts ::
  "open_swap_sell_accounts \<Rightarrow> swap_world \<Rightarrow> market_stats account \<Rightarrow> quote_sell_accounts" where
  "sell_quote_accounts a w ms = \<lparr>qs_offer = ys_offer a, qs_pair = sw_pair w,
     qs_redemption_offer = ys_redemption_offer a,
     qs_redemption_vault_token_out_account = ys_redemption_vault_token_out_account a,
     qs_token_in_mint = ys_token_in_mint a, qs_token_out_mint = ys_token_out_mint a,
     qs_token_out_program = ys_token_out_program a, qs_market_stats = ms\<rparr>"

lemma check_open_swap_sell_accounts_Ok:
  assumes "check_open_swap_sell_accounts e st a w = Ok (offer, ps)"
  shows "load_offer_and_pair e (ys_offer a) (sw_pair w) = Ok (offer, ps)"
    and "a_key (ys_redemption_offer a) = pda e (redemption_offer_seeds (m_key (ys_token_in_mint a))
      (m_key (ys_token_out_mint a)))"
    and "\<not> s_is_killed st" and "ys_offer_vault_authority a = pda e [Seed ''offer_vault_authority'']"
    and "ys_mint_authority a = pda e [Seed ''mint_authority'']"
    and "a_key (sw_market_stats w) = pda e [Seed ''market_stats'']"
    and "a_data (sw_pair w) = AccountData ps"
  using assms unfolding check_open_swap_sell_accounts_def Let_def
  by (auto simp: load_offer_and_pair_def)

lemma prepare_swap_sell_tokens_Ok:
  assumes "prepare_swap_sell_tokens e st a w = Ok tk"
  shows "st_user_in tk = get_associated_token_address_with_program_id e (ys_user a)
      (m_key (ys_token_in_mint a)) (ys_token_in_program a)"
    and "st_user_out tk = get_associated_token_address_with_program_id e (ys_user a)
      (m_key (ys_token_out_mint a)) (ys_token_out_program a)"
    and "st_proceeds tk = get_associated_token_address_with_program_id e (pda e (vault_seeds PropAmmProceeds))
      (m_key (ys_token_in_mint a)) (ys_token_in_program a)"
    and "st_fee tk = get_associated_token_address_with_program_id e (pda e (vault_seeds PropAmmSellFee))
      (m_key (ys_token_in_mint a)) (ys_token_in_program a)"
proof -
  from assms obtain ui uo pr pv fe fv ri where
    1: "get_associated_token_account e (ys_user_token_in_account a) (ys_user a)
      (m_key (ys_token_in_mint a)) (ys_token_in_program a) InvalidAmount = Ok ui"
    and 2: "get_or_create_associated_token_account e (ys_user_token_out_account a) (ys_user a)
      (m_key (ys_token_out_mint a)) (ys_token_out_program a) InvalidUserTokenOutAccount = Ok uo"
    and 3: "get_or_create_configurable_vault_token_account e PropAmmProceeds (sw_proceeds_vault w)
      (ys_proceeds_token_in_account a) (m_key (ys_token_in_mint a)) (ys_token_in_program a) = Ok (pr, pv)"
    and 4: "get_or_create_configurable_vault_token_account e PropAmmSellFee (sw_fee_vault w)
      (ys_sell_fee_token_in_account a) (m_key (ys_token_in_mint a)) (ys_token_in_program a) = Ok (fe, fv)"
    and tk: "tk = \<lparr>st_user_in = ui, st_user_out = uo, st_proceeds = pr, st_fee = fe,
          st_proceeds_vault = pv, st_fee_vault = fv, st_redemption_in = ri\<rparr>"
    unfolding prepare_swap_sell_tokens_def get_or_create_configurable_vault_token_account_pair_def Let_def by auto
  show "st_user_in tk = get_associated_token_address_with_program_id e (ys_user a)
      (m_key (ys_token_in_mint a)) (ys_token_in_program a)"
    using 1 by (simp add: tk get_associated_token_account_Ok)
  show "st_user_out tk = get_associated_token_address_with_program_id e (ys_user a)
      (m_key (ys_token_out_mint a)) (ys_token_out_program a)"
    using get_or_create_associated_token_account_Ok [OF 2] by (simp add: tk)
  show "st_proceeds tk = get_associated_token_address_with_program_id e (pda e (vault_seeds PropAmmProceeds))
      (m_key (ys_token_in_mint a)) (ys_token_in_program a)"
    and "st_fee tk = get_associated_token_address_with_program_id e (pda e (vault_seeds PropAmmSellFee))
      (m_key (ys_token_in_mint a)) (ys_token_in_program a)"
    using configurable_vault_token_account_Ok [OF 3] configurable_vault_token_account_Ok [OF 4]
    by (simp_all add: tk)
qed

text \<open>A sell that is priced can be quoted, at the same price.\<close>

lemma priced_sell_has_quote:
  assumes chk: "check_open_swap_sell_accounts e st a w = Ok (offer, ps)"
    and valid: "validate_prop_amm_pair_for_side e st ps (a_key (ys_offer a))
      (m_key (ys_token_in_mint a)) (m_key (ys_token_out_mint a)) Sell = Ok u"
    and pre: "refresh_before_sell e st a offer w = Ok (mo, ms, vault_out, liq)"
    and price: "price_swap_sell e offer (ys_token_in_mint a) (ys_token_out_mint a) liq ps amount mn = Ok (r, out)"
    and nofee: "\<not> has_transfer_fee (ys_token_in_mint a)" "\<not> has_transfer_fee (ys_token_out_mint a)"
  shows "\<exists>q. quote_swap_sell e st (sell_quote_accounts a w ms) amount (sw_ledger w) = Ok q \<and>
    sq_token_out_amount q = out \<and> sq_token_in_net_amount q = rp_token_in_net_amount r \<and>
    sq_token_in_fee_amount q = rp_token_in_fee_amount r"
proof -
  from pre have ms: "refresh_market_stats_pda e mo (ys_token_in_mint a) (ys_excluded_balance a)
       (sw_market_stats w) = Ok ms"
    and en: "require_enabled offer = Ok ()"
    and vo: "vault_out = t_key (ys_redemption_vault_token_out_account a)"
      "get_associated_token_account e (ys_redemption_vault_token_out_account a)
        (pda e [Seed ''redemption_offer_vault_authority'']) (m_key (ys_token_out_mint a))
        (ys_token_out_program a) AnchorConstraint = Ok vault_out"
    and ctx: "sell_quote_liquidity_context e (ys_redemption_offer a) (a_key (ys_offer a))
      (m_key (ys_token_in_mint a)) (m_key (ys_token_out_mint a)) ms (l_bal (sw_ledger w) vault_out)
      (m_decimals (ys_token_out_mint a)) (m_decimals (ys_token_in_mint a)) = Ok liq"
    unfolding refresh_before_sell_def by (auto simp: get_associated_token_account_Ok)
  have key: "pda e [Seed ''market_stats''] = a_key ms"
    by (rule refresh_market_stats_pda_Ok [OF ms]) simp
  note c = check_open_swap_sell_accounts_Ok [OF chk]
  show ?thesis
    using valid price_swap_sell_Ok(1,2) [OF price]
    by (simp add: quote_swap_sell_def sell_quote_accounts_def c key nofee vo(2) ctx en build_swap_sell_quote_def
        require_quote_mints_without_transfer_fees_def validate_market_stats_pda_def)
qed

text \<open>
  C4: A Prop AMM sell pays exactly what a quote on the refreshed statistics promises, and at
  least the seller's minimum. Outside the BUFFER vaults every balance changes by the quote: the
  user pays the amount sold, the fee goes to the sell-fee vault, the net amount is burned (or goes
  to the proceeds vault where the program does not control the mint), and the redemption vault
  pays the quoted output to the user. Where ONyc is under the program's control and the BUFFER is
  initialized, its baseline afterwards is the actual supply at the current time; otherwise
  nothing is accrued and the BUFFER is untouched.
\<close>

theorem sell_pays_its_quote:
  assumes laws: "spl_laws spl"
    and fresh: "m_supply (ys_token_in_mint a) = l_supply (sw_ledger w) (m_key (ys_token_in_mint a))"
    and ok: "open_swap_sell e spl st a amount mn w = Ok w'"
  defines "ata \<equiv> get_associated_token_address_with_program_id e"
    and "burns \<equiv> program_controls_mint (ys_token_in_mint a) (pda e [Seed ''mint_authority''])"
    and "tin \<equiv> m_key (ys_token_in_mint a)" and "tout \<equiv> m_key (ys_token_out_mint a)"
    and "ba \<equiv> sw_buffer_accounts w" and "L \<equiv> sw_ledger w" and "L' \<equiv> sw_ledger w'"
  shows "\<exists>mo ms q accrued. load_main_offer e (ys_main_offer a) st = Ok mo \<and>
    refresh_market_stats_pda e mo (ys_token_in_mint a) (ys_excluded_balance a) (sw_market_stats w) = Ok ms \<and>
    quote_swap_sell e st (sell_quote_accounts a w ms) amount L = Ok q \<and> mn \<le> sq_token_out_amount q \<and>
    (\<forall>x. x \<notin> {t_key (ba_reserve_vault_onyc_account ba), t_key (ba_management_fee_vault_onyc_account ba),
          t_key (ba_performance_fee_vault_onyc_account ba)} \<longrightarrow>
      int (l_bal L' x) = int (l_bal L x)
        - part (x = ata (ys_user a) tin (ys_token_in_program a)) amount
        + part (\<not> burns \<and> x = ata (pda e (vault_seeds PropAmmProceeds)) tin (ys_token_in_program a))
            (sq_token_in_net_amount q)
        + part (x = ata (pda e (vault_seeds PropAmmSellFee)) tin (ys_token_in_program a))
            (sq_token_in_fee_amount q)
        - part (x = ata (pda e [Seed ''redemption_offer_vault_authority'']) tout (ys_token_out_program a))
            (sq_token_out_amount q)
        + part (x = ata (ys_user a) tout (ys_token_out_program a)) (sq_token_out_amount q)) \<and>
    int (l_supply L' tin) = int (l_supply L tin) + int accrued - part burns (sq_token_in_net_amount q) \<and>
    (if tin = s_onyc_mint st \<and> burns \<and> check_is_initialized e ba = Ok True
     then \<exists>b. load_buffer_state e (sw_buffer_accounts w') = Ok b \<and>
       b_last_accrual_timestamp b = unix_timestamp e \<and> b_previous_supply b = l_supply L' tin
     else accrued = 0 \<and> sw_buffer_accounts w' = ba)"
proof -
  from ok obtain offer ps mo ms vault_out liq tk where
    chk: "check_open_swap_sell_accounts e st a w = Ok (offer, ps)"
    and valid: "validate_prop_amm_pair_for_side e st ps (a_key (ys_offer a)) tin tout Sell = Ok ()"
    and pre: "refresh_before_sell e st a offer w = Ok (mo, ms, vault_out, liq)"
    and tok: "prepare_swap_sell_tokens e st a w = Ok tk"
    and settle: "settle_swap_sell e spl st a offer ps mo ms vault_out liq tk amount mn w = Ok w'"
    unfolding open_swap_sell_def execute_open_swap_sell_def tin_def tout_def by auto
  note c = check_open_swap_sell_accounts_Ok [OF chk]
  note eff = settle_swap_sell_effect [OF laws fresh settle, unfolded c(5), folded burns_def tin_def ba_def L_def L'_def]
  from eff obtain r out accrued where
    price: "price_swap_sell e offer (ys_token_in_mint a) (ys_token_out_mint a) liq ps amount mn = Ok (r, out)"
    and nofee: "\<not> has_transfer_fee (ys_token_in_mint a)" "\<not> has_transfer_fee (ys_token_out_mint a)"
    and bal: "\<And>x. x \<notin> {t_key (ba_reserve_vault_onyc_account ba), t_key (ba_management_fee_vault_onyc_account ba),
          t_key (ba_performance_fee_vault_onyc_account ba)} \<Longrightarrow>
      int (l_bal L' x) = int (l_bal L x) - part (x = st_user_in tk) amount
        + part (\<not> burns \<and> x = st_proceeds tk) (rp_token_in_net_amount r)
        + part (x = st_fee tk) (rp_token_in_fee_amount r)
        - part (x = vault_out) out + part (x = st_user_out tk) out"
    and sup: "int (l_supply L' tin) = int (l_supply L tin) + int accrued - part burns (rp_token_in_net_amount r)"
    and buf: "if should_refresh_after_sell st a \<and> check_is_initialized e ba = Ok True
     then \<exists>b. load_buffer_state e (sw_buffer_accounts w') = Ok b \<and>
        b_last_accrual_timestamp b = unix_timestamp e \<and> b_previous_supply b = l_supply L' tin
     else accrued = 0 \<and> sw_buffer_accounts w' = ba"
    by blast
  obtain q where q: "quote_swap_sell e st (sell_quote_accounts a w ms) amount L = Ok q"
    "sq_token_out_amount q = out" "sq_token_in_net_amount q = rp_token_in_net_amount r"
    "sq_token_in_fee_amount q = rp_token_in_fee_amount r"
    using priced_sell_has_quote [OF chk valid [unfolded tin_def tout_def] pre price nofee] unfolding L_def by blast
  have pre': "load_main_offer e (ys_main_offer a) st = Ok mo"
    "refresh_market_stats_pda e mo (ys_token_in_mint a) (ys_excluded_balance a) (sw_market_stats w) = Ok ms"
    "vault_out = ata (pda e [Seed ''redemption_offer_vault_authority'']) tout (ys_token_out_program a)"
    using pre unfolding refresh_before_sell_def by (auto simp: get_associated_token_account_Ok ata_def tout_def)
  have should: "should_refresh_after_sell st a \<and> check_is_initialized e ba = Ok True \<longleftrightarrow>
      tin = s_onyc_mint st \<and> burns \<and> check_is_initialized e ba = Ok True"
    by (simp add: should_refresh_after_sell_def tin_def burns_def c(5))
  note tk = prepare_swap_sell_tokens_Ok [OF tok, folded ata_def tin_def tout_def]
  show ?thesis
    by (rule exI [of _ mo], rule exI [of _ ms], rule exI [of _ q], rule exI [of _ accrued], intro conjI allI impI)
      (use pre' q(1) price_swap_sell_Ok(3) [OF price] bal [unfolded tk pre'(3)] sup buf [unfolded should] in
        \<open>simp_all add: q(2-4) split del: if_split\<close>)
qed

section \<open>Buy: effect\<close>

lemma validate_pair_for_side_Ok:
  assumes "validate_prop_amm_pair_for_side e st ps offer_key tin tout side = Ok u"
  shows "tin \<noteq> tout" and "side = Buy \<Longrightarrow> tout = s_onyc_mint st" and "side = Sell \<Longrightarrow> tin = s_onyc_mint st"
    and "ps_enabled ps" and "ps_offer ps = offer_key"
  using assms unfolding validate_prop_amm_pair_for_side_def validate_canonical_offer_def
    validate_prop_amm_pair_state_def resolve_swap_side_def
  by (auto split: if_splits)

lemma route_swap_buy_payment_effect:
  assumes laws: "spl_laws spl" and ok: "route_swap_buy_payment spl a bt r refill L = Ok L'"
  shows "int (l_bal L' x) = int (l_bal L x)
      - part (x = bt_permissionless_in bt) (op_token_in_net_amount r + op_token_in_fee_amount r)
      + part (x = bt_redemption_in bt) refill
      + part (x = bt_proceeds bt) (op_token_in_net_amount r - refill)
      + part (x = bt_fee bt) (op_token_in_fee_amount r)"
    and "l_supply L' = l_supply L" and "refill \<le> op_token_in_net_amount r"
proof -
  let ?m = "k_token_in_mint a" and ?au = "kp_permissionless_authority a" and ?src = "bt_permissionless_in bt"
  from ok obtain L1 L2 where le: "refill \<le> op_token_in_net_amount r"
    and 1: "(if 0 < refill then transfer_tokens spl ?m ?src (bt_redemption_in bt) ?au refill L else Ok L) = Ok L1"
    and 2: "(if 0 < op_token_in_net_amount r - refill then transfer_tokens spl ?m ?src (bt_proceeds bt) ?au
        (op_token_in_net_amount r - refill) L1 else Ok L1) = Ok L2"
    and 3: "(if 0 < op_token_in_fee_amount r then transfer_tokens spl ?m ?src (bt_fee bt) ?au
        (op_token_in_fee_amount r) L2 else Ok L2) = Ok L'"
    unfolding route_swap_buy_payment_def Let_def by (auto split del: if_split)
  note eff = optional_transfer_effect [OF laws 1] optional_transfer_effect [OF laws 2]
    optional_transfer_effect [OF laws 3]
  show "int (l_bal L' x) = int (l_bal L x)
      - part (x = bt_permissionless_in bt) (op_token_in_net_amount r + op_token_in_fee_amount r)
      + part (x = bt_redemption_in bt) refill
      + part (x = bt_proceeds bt) (op_token_in_net_amount r - refill)
      + part (x = bt_fee bt) (op_token_in_fee_amount r)"
    using le by (simp add: eff) (simp add: part_def)
  show "l_supply L' = l_supply L" "refill \<le> op_token_in_net_amount r" using le by (simp_all add: eff)
qed

lemma deliver_swap_buy_effect:
  assumes laws: "spl_laws spl" and ok: "deliver_swap_buy spl st a bt m out L = Ok L'"
  defines "mints \<equiv> program_controls_mint m (k_mint_authority a)"
  shows "int (l_bal L' x) = int (l_bal L x) - part (\<not> mints \<and> x = bt_vault_out bt) out + part (x = bt_user_out bt) out"
    and "l_supply L' (m_key m) = l_supply L (m_key m) + (if mints then out else 0)"
    and "mints \<Longrightarrow> 0 < s_max_supply st \<Longrightarrow> m_supply m + out \<le> s_max_supply st"
proof -
  consider (mint) "mints" "mint_tokens spl m (bt_user_out bt) (k_mint_authority a) out (s_max_supply st)
      (s_max_mint_amount st) L = Ok L'"
    | (pay) L1 where "\<not> mints" "transfer_tokens spl m (bt_vault_out bt) (bt_permissionless_out bt)
      (k_vault_authority a) out L = Ok L1" "transfer_tokens spl m (bt_permissionless_out bt) (bt_user_out bt)
      (kp_permissionless_authority a) out L1 = Ok L'"
    using ok unfolding deliver_swap_buy_def mints_def by (auto split: if_splits)
  then have "int (l_bal L' x) = int (l_bal L x) - part (\<not> mints \<and> x = bt_vault_out bt) out + part (x = bt_user_out bt) out \<and>
    int (l_supply L' (m_key m)) = int (l_supply L (m_key m) + (if mints then out else 0)) \<and>
    (mints \<longrightarrow> 0 < s_max_supply st \<longrightarrow> m_supply m + out \<le> s_max_supply st)"
  proof cases
    case mint
    show ?thesis using mint mint_tokens_effect [OF laws mint(2)] mint_tokens_Ok [OF laws mint(2)] by simp
  next
    case pay
    show ?thesis
      using pay(1) transfer_tokens_effect [OF laws pay(2)] transfer_tokens_effect [OF laws pay(3)] by simp
  qed
  then show "int (l_bal L' x) = int (l_bal L x) - part (\<not> mints \<and> x = bt_vault_out bt) out + part (x = bt_user_out bt) out"
    and "l_supply L' (m_key m) = l_supply L (m_key m) + (if mints then out else 0)"
    and "mints \<Longrightarrow> 0 < s_max_supply st \<Longrightarrow> m_supply m + out \<le> s_max_supply st"
    by (simp_all only: of_nat_eq_iff) 
qed

lemma settle_swap_buy_effect:
  assumes laws: "spl_laws spl"
    and fresh: "m_supply (k_token_out_mint a) = l_supply (sw_ledger w) (m_key (k_token_out_mint a))"
    and pays: "op_token_in_net_amount r + op_token_in_fee_amount r = amount"
    and ok: "settle_swap_buy e spl st a ps bt r amount w = Ok w'"
  defines "mints \<equiv> program_controls_mint (k_token_out_mint a) (k_mint_authority a)"
    and "tout \<equiv> m_key (k_token_out_mint a)" and "ba \<equiv> sw_buffer_accounts w"
  shows "\<exists>refill ps' accrued.
    record_prop_amm_buy ps (op_token_in_net_amount r) (unix_timestamp e) = Ok ps' \<and>
    sw_pair w' = (sw_pair w)\<lparr>a_data := AccountData ps'\<rparr> \<and> refill \<le> op_token_in_net_amount r \<and>
    (\<forall>x. x \<notin> {t_key (ba_reserve_vault_onyc_account ba), t_key (ba_management_fee_vault_onyc_account ba),
          t_key (ba_performance_fee_vault_onyc_account ba)} \<longrightarrow>
      int (l_bal (sw_ledger w') x) = int (l_bal (sw_ledger w) x)
        - part (x = bt_user_in bt) amount
        + part (x = bt_redemption_in bt) refill
        + part (x = bt_proceeds bt) (op_token_in_net_amount r - refill)
        + part (x = bt_fee bt) (op_token_in_fee_amount r)
        - part (\<not> mints \<and> x = bt_vault_out bt) (op_token_out_amount r)
        + part (x = bt_user_out bt) (op_token_out_amount r)) \<and>
    l_supply (sw_ledger w') tout = l_supply (sw_ledger w) tout + accrued + (if mints then op_token_out_amount r else 0) \<and>
    (mints \<and> 0 < s_max_supply st \<longrightarrow> l_supply (sw_ledger w') tout \<le> s_max_supply st) \<and>
    (if tout = s_onyc_mint st \<and> mints \<and> check_is_initialized e ba = Ok True
     then \<exists>b. load_buffer_state e (sw_buffer_accounts w') = Ok b \<and>
        b_last_accrual_timestamp b = unix_timestamp e \<and> b_previous_supply b = l_supply (sw_ledger w') tout
     else accrued = 0 \<and> sw_buffer_accounts w' = ba)"
proof -
  from ok obtain mo accr ba1 L1 L2 refill L3 ps' where
    pre: "accrue_before_buy e spl st a ba (sw_ledger w) = Ok (mo, accr, ba1, L1)"
    and 1: "transfer_tokens spl (k_token_in_mint a) (bt_user_in bt) (bt_permissionless_in bt) (k_user a) amount L1 = Ok L2"
    and 2: "route_swap_buy_payment spl a bt r refill L2 = Ok L3"
    and rec: "record_prop_amm_buy ps (op_token_in_net_amount r) (unix_timestamp e) = Ok ps'"
    and 3: "deliver_swap_buy spl st a bt (if accr \<noteq> None then reload L1 (k_token_out_mint a) else k_token_out_mint a)
      (op_token_out_amount r) L3 = Ok (sw_ledger w')"
    and store: "store_post_offer_supply e OverflowError (op_token_out_amount r) accr ba1 = Ok (sw_buffer_accounts w')"
    and pair: "sw_pair w' = (sw_pair w)\<lparr>a_data := AccountData ps'\<rparr>"
    unfolding settle_swap_buy_def Let_def ba_def by (auto split del: if_split)
  from pre obtain init where init: "check_is_initialized e ba = Ok init"
    and acc: "accrue_before_mint e spl st a (should_accrue_onyc_mint st (k_token_out_mint a) init (k_mint_authority a))
      mo ba (sw_ledger w) = Ok (accr, ba1, L1)"
    unfolding accrue_before_buy_def by (auto split del: if_split)
  define should where "should = should_accrue_onyc_mint st (k_token_out_mint a) init (k_mint_authority a)"
  have should: "should \<longleftrightarrow> tout = s_onyc_mint st \<and> mints \<and> check_is_initialized e ba = Ok True"
    by (auto simp: should_def should_accrue_onyc_mint_def is_onyc_token_out_mint_def init mints_def tout_def)
  define m where "m = (if accr \<noteq> None then reload L1 (k_token_out_mint a) else k_token_out_mint a)"
  have m: "m_key m = tout" "program_controls_mint m (k_mint_authority a) = mints"
    by (simp_all add: m_def tout_def mints_def)
  note e1 = transfer_tokens_effect [OF laws 1] and e2 = route_swap_buy_payment_effect [OF laws 2]
    and e3 = deliver_swap_buy_effect [OF laws 3 [folded m_def], unfolded m]
  have bal: "int (l_bal (sw_ledger w') x) = int (l_bal L1 x)
        - part (x = bt_user_in bt) amount
        + part (x = bt_redemption_in bt) refill
        + part (x = bt_proceeds bt) (op_token_in_net_amount r - refill)
        + part (x = bt_fee bt) (op_token_in_fee_amount r)
        - part (\<not> mints \<and> x = bt_vault_out bt) (op_token_out_amount r)
        + part (x = bt_user_out bt) (op_token_out_amount r)" for x
    by (simp add: e3(1) e2(1) e1(1) pays)
  have sup: "l_supply (sw_ledger w') tout = l_supply L1 tout + (if mints then op_token_out_amount r else 0)"
    by (simp add: e3(2) e2(2) e1(2))
  have "m_supply m = l_supply L1 tout"
    using accrue_before_mint_effect [OF laws fresh acc] fresh by (auto simp: m_def tout_def)
  then have cap: "mints \<and> 0 < s_max_supply st \<longrightarrow> l_supply (sw_ledger w') tout \<le> s_max_supply st"
    using e3(3) sup by auto
  show ?thesis
  proof (cases should)
    case True
    then have "l_supply (sw_ledger w') (m_key (k_token_out_mint a)) = l_supply L1 (m_key (k_token_out_mint a)) +
        op_token_out_amount r"
      using sup by (simp add: should tout_def)
    from accrued_baseline [OF laws fresh acc this store, folded should_def tout_def ba_def] True
    obtain accrued where a: "l_supply L1 tout = l_supply (sw_ledger w) tout + accrued"
      "\<forall>x. x \<notin> {t_key (ba_reserve_vault_onyc_account ba), t_key (ba_management_fee_vault_onyc_account ba),
        t_key (ba_performance_fee_vault_onyc_account ba)} \<longrightarrow> l_bal L1 x = l_bal (sw_ledger w) x"
      "\<exists>b. load_buffer_state e (sw_buffer_accounts w') = Ok b \<and> b_last_accrual_timestamp b = unix_timestamp e \<and>
        b_previous_supply b = l_supply (sw_ledger w') tout"
      by auto
    show ?thesis
      by (rule exI [of _ refill], rule exI [of _ ps'], rule exI [of _ accrued], intro conjI allI impI)
        (use True rec pair e2(3) cap a sup bal in \<open>simp_all add: flip: should\<close>)
  next
    case False
    then have n: "accr = None" "ba1 = ba" "L1 = sw_ledger w"
      using accrue_before_mint_effect [OF laws fresh acc, folded should_def] by auto
    have "sw_buffer_accounts w' = ba" using store by (simp add: store_post_offer_supply_def n)
    then show ?thesis
      by (intro exI [of _ refill] exI [of _ ps'] exI [of _ 0] conjI allI impI)
        (use False rec pair e2(3) cap sup bal in \<open>simp_all add: n flip: should\<close>)
  qed
qed

lemma prepare_swap_buy_tokens_Ok:
  assumes ok: "prepare_swap_buy_tokens e a w = Ok bt"
  defines "ata \<equiv> get_associated_token_address_with_program_id e"
    and "tin \<equiv> m_key (k_token_in_mint a)" and "tout \<equiv> m_key (k_token_out_mint a)"
    and "pin \<equiv> k_token_in_program a" and "pout \<equiv> k_token_out_program a"
  shows "bt_user_in bt = ata (k_user a) tin pin" and "bt_user_out bt = ata (k_user a) tout pout"
    and "bt_proceeds bt = ata (pda e (vault_seeds PropAmmProceeds)) tin pin"
    and "bt_fee bt = ata (pda e (vault_seeds PropAmmBuyFee)) tin pin"
    and "bt_vault_out bt = ata (k_vault_authority a) tout pout"
    and "bt_redemption_in bt = ata (pda e [Seed ''redemption_offer_vault_authority'']) tin pin"
proof -
  from ok obtain ui uo pr pv fe fv vo pi' po ri where
    1: "ui = ata (k_user a) tin pin"
    and 2: "get_or_create_associated_token_account e (k_user_token_out_account a) (k_user a) tout pout
      InvalidUserTokenOutAccount = Ok uo"
    and 3: "get_or_create_configurable_vault_token_account e PropAmmProceeds (sw_proceeds_vault w)
      (yb_proceeds_token_in_account a) tin pin = Ok (pr, pv)"
    and 4: "get_or_create_configurable_vault_token_account e PropAmmBuyFee (sw_fee_vault w)
      (yb_buy_fee_token_in_account a) tin pin = Ok (fe, fv)"
    and 5: "vo = ata (k_vault_authority a) tout pout"
    and 6: "get_or_create_associated_token_account e (yb_redemption_vault_token_in_account a)
      (pda e [Seed ''redemption_offer_vault_authority'']) tin pin InvalidVaultTokenInAccount = Ok ri"
    and bt: "bt = \<lparr>bt_user_in = ui, bt_user_out = uo, bt_proceeds = pr, bt_fee = fe,
          bt_proceeds_vault = pv, bt_fee_vault = fv, bt_vault_out = vo,
          bt_permissionless_in = pi', bt_permissionless_out = po, bt_redemption_in = ri\<rparr>"
    unfolding prepare_swap_buy_tokens_def get_or_create_configurable_vault_token_account_pair_def Let_def
      tin_def tout_def pin_def pout_def ata_def
    by (auto simp: get_associated_token_account_Ok)
  show "bt_user_in bt = ata (k_user a) tin pin" and "bt_user_out bt = ata (k_user a) tout pout"
    and "bt_proceeds bt = ata (pda e (vault_seeds PropAmmProceeds)) tin pin"
    and "bt_fee bt = ata (pda e (vault_seeds PropAmmBuyFee)) tin pin"
    and "bt_vault_out bt = ata (k_vault_authority a) tout pout"
    and "bt_redemption_in bt = ata (pda e [Seed ''redemption_offer_vault_authority'']) tin pin"
    using 1 5 get_or_create_associated_token_account_Ok [OF 2] get_or_create_associated_token_account_Ok [OF 6]
      configurable_vault_token_account_Ok [OF 3] configurable_vault_token_account_Ok [OF 4]
    by (simp_all add: bt ata_def)
qed

text \<open>
  C5: A Prop AMM buy pays exactly its quote, and at least the buyer's minimum. Outside the BUFFER
  vaults every balance changes by the quote: the user pays the amount, a refill of at most the
  net amount goes to the redemption vault, the rest of it to the proceeds vault, the fee to the
  buy-fee vault, and the user receives the quoted output, minted or out of the offer vault; the
  permissionless authority's accounts keep nothing. The supply of ONyc grows by the accrual and
  the minted output, within the cap where one is set, and where the BUFFER is initialized its
  baseline is that supply.
\<close>

theorem buy_pays_its_quote:
  assumes laws: "spl_laws spl"
    and fresh: "m_supply (k_token_out_mint a) = l_supply (sw_ledger w) (m_key (k_token_out_mint a))"
    and ok: "open_swap_buy e spl st a amount mn w = Ok w'"
  defines "ata \<equiv> get_associated_token_address_with_program_id e"
    and "mints \<equiv> program_controls_mint (k_token_out_mint a) (pda e [Seed ''mint_authority''])"
    and "tin \<equiv> m_key (k_token_in_mint a)" and "tout \<equiv> m_key (k_token_out_mint a)"
    and "ba \<equiv> sw_buffer_accounts w" and "L \<equiv> sw_ledger w" and "L' \<equiv> sw_ledger w'"
  shows "\<exists>q refill accrued. quote_swap_buy e st \<lparr>qb_offer = k_offer a, qb_pair = sw_pair w,
      qb_token_in_mint = k_token_in_mint a, qb_token_out_mint = k_token_out_mint a\<rparr> amount = Ok q \<and>
    mn \<le> sq_token_out_amount q \<and> refill \<le> sq_token_in_net_amount q \<and> tout = s_onyc_mint st \<and>
    (\<forall>x. x \<notin> {t_key (ba_reserve_vault_onyc_account ba), t_key (ba_management_fee_vault_onyc_account ba),
          t_key (ba_performance_fee_vault_onyc_account ba)} \<longrightarrow>
      int (l_bal L' x) = int (l_bal L x)
        - part (x = ata (k_user a) tin (k_token_in_program a)) amount
        + part (x = ata (pda e [Seed ''redemption_offer_vault_authority'']) tin (k_token_in_program a)) refill
        + part (x = ata (pda e (vault_seeds PropAmmProceeds)) tin (k_token_in_program a))
            (sq_token_in_net_amount q - refill)
        + part (x = ata (pda e (vault_seeds PropAmmBuyFee)) tin (k_token_in_program a))
            (sq_token_in_fee_amount q)
        - part (\<not> mints \<and> x = ata (pda e [Seed ''offer_vault_authority'']) tout (k_token_out_program a))
            (sq_token_out_amount q)
        + part (x = ata (k_user a) tout (k_token_out_program a)) (sq_token_out_amount q)) \<and>
    l_supply L' tout = l_supply L tout + accrued + (if mints then sq_token_out_amount q else 0) \<and>
    (mints \<and> 0 < s_max_supply st \<longrightarrow> l_supply L' tout \<le> s_max_supply st) \<and>
    (if mints \<and> check_is_initialized e ba = Ok True
     then \<exists>b. load_buffer_state e (sw_buffer_accounts w') = Ok b \<and>
       b_last_accrual_timestamp b = unix_timestamp e \<and> b_previous_supply b = l_supply L' tout
     else accrued = 0 \<and> sw_buffer_accounts w' = ba)"
proof -
  from ok obtain offer ps r bt where
    chk: "check_open_swap_buy_accounts e st a w = Ok (offer, ps)"
    and valid: "validate_prop_amm_pair_for_side e st ps (a_key (k_offer a)) tin tout Buy = Ok ()"
    and price: "price_swap_buy e offer a amount mn = Ok r"
    and tok: "prepare_swap_buy_tokens e a w = Ok bt"
    and settle: "settle_swap_buy e spl st a ps bt r amount w = Ok w'"
    unfolding open_swap_buy_def execute_open_swap_buy_def tin_def tout_def by auto
  have c: "load_offer_and_pair e (k_offer a) (sw_pair w) = Ok (offer, ps)" "\<not> s_is_killed st"
    "k_vault_authority a = pda e [Seed ''offer_vault_authority'']" "k_mint_authority a = pda e [Seed ''mint_authority'']"
    using chk unfolding check_open_swap_buy_accounts_def by auto
  have p: "require_enabled offer = Ok ()" "process_offer_core e offer amount (k_token_in_mint a) (k_token_out_mint a)
      (permissionless_fee_basis_points offer) = Ok r" "\<not> has_transfer_fee (k_token_in_mint a)"
    "\<not> has_transfer_fee (k_token_out_mint a)" "mn \<le> op_token_out_amount r"
    using price unfolding price_swap_buy_def by auto
  have onyc: "tout = s_onyc_mint st" using validate_pair_for_side_Ok(2) [OF valid] by simp
  obtain q where q: "quote_swap_buy e st \<lparr>qb_offer = k_offer a, qb_pair = sw_pair w,
      qb_token_in_mint = k_token_in_mint a, qb_token_out_mint = k_token_out_mint a\<rparr> amount = Ok q"
    "sq_token_out_amount q = op_token_out_amount r" "sq_token_in_net_amount q = op_token_in_net_amount r"
    "sq_token_in_fee_amount q = op_token_in_fee_amount r"
    using valid unfolding tin_def tout_def
    by (simp add: quote_swap_buy_def c p build_swap_buy_quote_def require_quote_mints_without_transfer_fees_def)
  note tk = prepare_swap_buy_tokens_Ok [OF tok, folded ata_def tin_def tout_def, unfolded c(3)]
  have "tout = s_onyc_mint st \<and> mints \<and> x \<longleftrightarrow> mints \<and> x" for x using onyc by simp
  note eff = settle_swap_buy_effect [OF laws fresh process_offer_core_pays [OF p(2)] settle, unfolded c(4) tk,
      folded mints_def tout_def tin_def ba_def L_def L'_def, unfolded this]
  show ?thesis
    by (rule exI [of _ q], unfold q(2-4)) (use eff p(5) onyc q(1) in blast)
qed

section \<open>Worked examples\<close>

definition sample_pair :: prop_amm_pair_state where
  "sample_pair = default_pair_state\<lparr>ps_offer := 199, ps_asset_mint := 21, ps_onyc_mint := 22,
     ps_enabled := True, ps_curve_exponent_scaled := 20000, ps_minimum_sell_haircut_onyc := 0,
     ps_epoch_start := 4000\<rparr>"

definition sample_pair_account :: "prop_amm_pair_state account" where
  "sample_pair_account = \<lparr>a_key = 199, a_owner = 50, a_writable = True, a_data = AccountData sample_pair\<rparr>"

definition sample_swap_ledger :: ledger where
  "sample_swap_ledger = \<lparr>l_bal = (\<lambda>x. if x = 1081 \<or> x = 1082 then 1000 else if x = 2091 then 100000 else 0),
     l_supply = (\<lambda>_. 5000)\<rparr>"

definition sample_swap_world :: swap_world where
  "sample_swap_world = \<lparr>sw_ledger = sample_swap_ledger, sw_pair = sample_pair_account,
     sw_proceeds_vault = absent_account 199, sw_fee_vault = absent_account 199,
     sw_buffer_accounts = w_buffer_accounts sample_world, sw_market_stats = absent_account 101\<rparr>"

lemma sample_swap_world_simps [simp]:
  "sw_ledger sample_swap_world = sample_swap_ledger" "sw_pair sample_swap_world = sample_pair_account"
  "sw_proceeds_vault sample_swap_world = absent_account 199" "sw_fee_vault sample_swap_world = absent_account 199"
  "sw_buffer_accounts sample_swap_world = w_buffer_accounts sample_world"
  "sw_market_stats sample_swap_world = absent_account 101"
  by (simp_all add: sample_swap_world_def)

definition sample_buy :: open_swap_buy_accounts where
  "sample_buy = \<lparr>k_offer = sample_main_offer\<lparr>a_key := 199\<rparr>, k_vault_authority = 105,
     k_vault_token_in_account = sample_token 2071, k_vault_token_out_account = sample_token 2072,
     k_token_in_mint = sample_mint 21 None 0, k_token_in_program = 9,
     k_token_out_mint = sample_onyc, k_token_out_program = 9,
     k_user_token_in_account = sample_token 1081, k_user_token_out_account = sample_token 1082,
     k_mint_authority = 104, k_user = 6,
     kp_permissionless_authority = 199, kp_permissionless_token_in_account = sample_token 3011,
     kp_permissionless_token_out_account = sample_token 3012,
     yb_redemption_offer = absent_account 199, yb_redemption_vault_token_in_account = sample_token 2091,
     yb_proceeds_token_in_account = sample_token 3011, yb_buy_fee_token_in_account = sample_token 3011,
     yb_excluded_balance = absent_account 102, yb_main_offer = sample_main_offer\<rparr>"

lemma sample_buy_simps [simp]:
  "k_offer sample_buy = sample_main_offer\<lparr>a_key := 199\<rparr>" "k_vault_authority sample_buy = 105"
  "k_vault_token_in_account sample_buy = sample_token 2071" "k_vault_token_out_account sample_buy = sample_token 2072"
  "k_token_in_mint sample_buy = sample_mint 21 None 0" "k_token_in_program sample_buy = 9"
  "k_token_out_mint sample_buy = sample_onyc" "k_token_out_program sample_buy = 9"
  "k_user_token_in_account sample_buy = sample_token 1081" "k_user_token_out_account sample_buy = sample_token 1082"
  "k_mint_authority sample_buy = 104" "k_user sample_buy = 6" "kp_permissionless_authority sample_buy = 199"
  "kp_permissionless_token_in_account sample_buy = sample_token 3011"
  "kp_permissionless_token_out_account sample_buy = sample_token 3012"
  "yb_redemption_offer sample_buy = absent_account 199" "yb_redemption_vault_token_in_account sample_buy = sample_token 2091"
  "yb_proceeds_token_in_account sample_buy = sample_token 3011" "yb_buy_fee_token_in_account sample_buy = sample_token 3011"
  "yb_excluded_balance sample_buy = absent_account 102" "yb_main_offer sample_buy = sample_main_offer"
  by (simp_all add: sample_buy_def)

lemma sample_pair_pda [simp]: "sample_pda (prop_amm_pair_seeds 199) = (199, 255)"
  by (simp add: prop_amm_pair_seeds_def sample_pda_def)

lemma sample_keys [simp]: "a_key (absent_account k) = k" "a_key (sample_main_offer\<lparr>a_key := j\<rparr>) = j"
  "t_key (sample_token k) = k" "s_is_killed sample_config = False" "s_onyc_mint sample_config = 22"
  by (simp_all add: absent_account_def sample_token_def sample_config_def zero_state_def)

lemma sample_offer_and_pair [simp]:
  "load_offer_and_pair sample_env (sample_main_offer\<lparr>a_key := 199\<rparr>) sample_pair_account = Ok (sample_offer, sample_pair)"
  by (simp add: load_offer_and_pair_def sample_main_offer_def sample_pair_account_def)

lemma sample_valid_pair:
  "validate_prop_amm_pair_for_side sample_env sample_config sample_pair 199 21 22 Buy = Ok ()"
  "validate_prop_amm_pair_for_side sample_env sample_config sample_pair 199 22 21 Sell = Ok ()"
  by (simp_all add: validate_prop_amm_pair_for_side_def validate_canonical_offer_def
      validate_prop_amm_pair_state_def resolve_swap_side_def sample_pair_def)

lemma sample_vault_token [simp]:
  "get_or_create_configurable_vault_token_account sample_env kind (absent_account 199) (sample_token (2990 + m)) m 9 =
     Ok (2990 + m, (absent_account 199)\<lparr>a_owner := 50, a_data := AccountData (vault_init_value kind 255)\<rparr>)"
  by (simp add: get_or_create_configurable_vault_token_account_def absent_account_def vault_of_kind_def
      load_or_init_pda_account_def store_pda_account_def get_or_create_associated_token_account_def
      validate_associated_token_address_def token_account_try_from_def sample_token_def cong: eval_congs)

lemmas sample_vault_tokens [simp] = sample_vault_token [of _ 21, simplified] sample_vault_token [of _ 22, simplified]

lemma sample_ata [simp]:
  "get_associated_token_account sample_env (sample_token (1000 + 10 * k + m)) k m 9 err = Ok (1000 + 10 * k + m)"
  "get_or_create_associated_token_account sample_env (sample_token (1000 + 10 * k + m)) k m 9 err = Ok (1000 + 10 * k + m)"
  by (simp_all add: take_eval_simps)

lemmas sample_atas [simp] = sample_ata [of 6 21, simplified] sample_ata [of 6 22, simplified]
  sample_ata [of 105 21, simplified] sample_ata [of 105 22, simplified] sample_ata [of 107 21, simplified]
  sample_ata [of 107 22, simplified] sample_ata [of 199 21, simplified] sample_ata [of 199 22, simplified]

lemma sample_buffer_initialized [simp]: "check_is_initialized sample_env (w_buffer_accounts sample_world) = Ok True"
  by (simp add: check_is_initialized_def load_buffer_state_def load_pda_account_def deserialize_pda_account_def
      sample_world_def)

lemma sample_main_offer_loads [simp]: "load_main_offer sample_env sample_main_offer sample_config = Ok sample_offer"
  by (simp add: load_main_offer_def sample_config_def sample_main_offer_def)

lemma sample_no_redemption_offer [simp]:
  "load_optional_checked_redemption_offer sample_env (absent_account 199) 199 22 21 = Ok None"
  by (simp add: load_optional_checked_redemption_offer_def load_optional_pda_account_def absent_account_def
      cong: eval_congs)

lemma sample_buy_priced:
  "price_swap_buy sample_env sample_offer sample_buy 1000 900 =
     Ok \<lparr>op_current_price = 1000267397, op_token_in_net_amount = 990, op_token_in_fee_amount = 10,
         op_token_out_amount = 989\<rparr>"
proof -
  have "process_offer_core sample_env sample_offer 1000 (sample_mint 21 None 0) sample_onyc 100 =
     Ok \<lparr>op_current_price = 1000267397, op_token_in_net_amount = 990, op_token_in_fee_amount = 10,
         op_token_out_amount = 989\<rparr>"
    by (rule sample_core_at_fee)
      (use calculate_fees_total(1) [of 1000 100] in \<open>simp_all add: token_out_amount_Ok const_defs int_defs\<close>)
  moreover have "permissionless_fee_basis_points sample_offer = 100"
    by (simp add: permissionless_fee_basis_points_def sample_offer_def)
  moreover have "\<not> has_transfer_fee (sample_mint k au n)" "\<not> has_transfer_fee sample_onyc" for k au n
    by (simp_all add: has_transfer_fee_def sample_onyc_def sample_mint_def)
  ultimately show ?thesis
    by (simp add: price_swap_buy_def require_enabled_def sample_offer_flags cong: eval_congs)
qed

lemma sample_buy_tokens_ok:
  obtains bt where "prepare_swap_buy_tokens sample_env sample_buy sample_swap_world = Ok bt"
    "bt_user_in bt = 1081" "bt_user_out bt = 1082" "bt_proceeds bt = 3011" "bt_fee bt = 3011"
    "bt_permissionless_in bt = 3011" "bt_redemption_in bt = 2091"
  by (simp add: prepare_swap_buy_tokens_def get_or_create_configurable_vault_token_account_pair_def
      cong: eval_congs)

lemma sample_buy_ok:
  "\<exists>w'. open_swap_buy sample_env plain_token_program sample_config sample_buy 1000 900 sample_swap_world = Ok w'"
proof -
  let ?r = "\<lparr>op_current_price = 1000267397, op_token_in_net_amount = 990, op_token_in_fee_amount = 10,
         op_token_out_amount = 989\<rparr>"
  obtain bt where bt: "prepare_swap_buy_tokens sample_env sample_buy sample_swap_world = Ok bt"
    "bt_user_in bt = 1081" "bt_user_out bt = 1082" "bt_proceeds bt = 3011" "bt_fee bt = 3011"
    "bt_permissionless_in bt = 3011" "bt_redemption_in bt = 2091"
    by (rule sample_buy_tokens_ok)
  obtain acc ba' b where acc: "accrue_before_mint sample_env plain_token_program sample_config sample_buy True
     (Some sample_offer) (w_buffer_accounts sample_world) sample_swap_ledger = Ok (Some acc, ba', sample_swap_ledger)"
    "ar_post_accrual_supply acc = 5000" "load_buffer_state sample_env ba' = Ok b"
    using sample_accrual_before_mint [of sample_buy sample_swap_ledger] by auto
  have onyc: "is_onyc_token_out_mint sample_config sample_onyc" "should_accrue_onyc_mint sample_config sample_onyc True 104"
    by (simp_all add: should_accrue_onyc_mint_def is_onyc_token_out_mint_def program_controls_mint_def)
      (simp add: sample_onyc_def sample_mint_def)
  have pre: "accrue_before_buy sample_env plain_token_program sample_config sample_buy (w_buffer_accounts sample_world)
      sample_swap_ledger = Ok (Some sample_offer, Some acc, ba', sample_swap_ledger)"
    by (simp add: accrue_before_buy_def onyc acc cong: eval_congs)
  have refill: "swap_buy_refill sample_env sample_buy (absent_account 101) 100000 990 = Ok 0"
    by (simp add: swap_buy_refill_def load_redemption_offer_vault_target_bps_for_offer_def
        calculate_redemption_vault_refill_amount_def cong: eval_congs)
  obtain L3 where pay: "transfer_tokens plain_token_program (sample_mint 21 None 0) 1081 3011 6 1000
      sample_swap_ledger = Ok L3" and L3: "l_bal L3 3011 = 1000" "l_supply L3 22 = 5000"
    by (simp add: token_eval_simps sample_swap_ledger_def)
  obtain L4 where route: "route_swap_buy_payment plain_token_program sample_buy bt ?r 0 L3 = Ok L4"
    and L4: "l_supply L4 22 = 5000"
    using L3 by (simp add: route_swap_buy_payment_def bt token_eval_simps cong: eval_congs)
  obtain ps' where rec: "record_prop_amm_buy sample_pair 990 5000 = Ok ps'"
    by (simp add: record_prop_amm_buy_def roll_prop_amm_volume_tracker_def sample_pair_def default_pair_state_def
        checked_sub_i64_def saturating_mul_i64_def checked_add_def const_defs int_defs cong: eval_congs)
  obtain L5 where del: "deliver_swap_buy plain_token_program sample_config sample_buy bt
      (reload sample_swap_ledger sample_onyc) 989 L4 = Ok L5" and L5: "l_supply L5 22 = 5989"
    using L4 by (simp add: deliver_swap_buy_def token_eval_simps bt sample_onyc_def sample_mint_def reload_def
        sample_config_def zero_state_def int_defs cong: eval_congs)
  obtain ba2 where store: "store_post_offer_supply sample_env OverflowError 989 (Some acc) ba' = Ok ba2"
    using acc(2,3) by (simp add: store_post_offer_supply_def store_buffer_post_supply_def store_buffer_state_Ok
        load_buffer_state_Ok checked_add_def int_defs cong: eval_congs)
  have rl: "reload L5 sample_onyc = sample_mint 22 (Some 104) 5989"
    using L5 by (simp add: reload_def sample_onyc_def sample_mint_def)
  obtain ms where ms: "refresh_after_buy sample_env sample_config sample_buy (Some sample_offer) (absent_account 101) L5 = Ok ms"
    using sample_refresh_ok [of 5989 "Some 104"] by (auto simp: refresh_after_buy_def onyc rl is_ok_iff)
  have bal: "l_bal sample_swap_ledger 2091 = 100000" by (simp add: sample_swap_ledger_def)
  have "check_open_swap_buy_accounts sample_env sample_config sample_buy sample_swap_world = Ok (sample_offer, sample_pair)"
    by (simp add: check_open_swap_buy_accounts_def cong: eval_congs)
  then show ?thesis
    by (simp add: open_swap_buy_def sample_valid_pair execute_open_swap_buy_def sample_buy_priced bt(1)
        settle_swap_buy_def pre pay bt bal refill route rec del store ms cong: eval_congs)
qed

theorem buy_pays_its_quote_witness:
  "\<exists>w' q. open_swap_buy sample_env plain_token_program sample_config sample_buy 1000 900 sample_swap_world = Ok w' \<and>
     quote_swap_buy sample_env sample_config \<lparr>qb_offer = k_offer sample_buy, qb_pair = sample_pair_account,
       qb_token_in_mint = sample_mint 21 None 0, qb_token_out_mint = sample_onyc\<rparr> 1000 = Ok q \<and>
     900 \<le> sq_token_out_amount q \<and>
     int (l_bal (sw_ledger w') 1082) = 1000 + int (sq_token_out_amount q)"
proof -
  obtain w' where ok: "open_swap_buy sample_env plain_token_program sample_config sample_buy 1000 900
      sample_swap_world = Ok w'"
    using sample_buy_ok by blast
  have fresh: "m_supply (k_token_out_mint sample_buy) = l_supply (sw_ledger sample_swap_world) (m_key (k_token_out_mint sample_buy))"
    by (simp add: sample_swap_ledger_def) (simp add: sample_onyc_def sample_mint_def)
  have keys: "t_key (ba_reserve_vault_onyc_account (w_buffer_accounts sample_world)) = 2082"
    "t_key (ba_management_fee_vault_onyc_account (w_buffer_accounts sample_world)) = 3012"
    "t_key (ba_performance_fee_vault_onyc_account (w_buffer_accounts sample_world)) = 3012"
    "l_bal sample_swap_ledger 1082 = 1000"
    by (simp_all add: sample_world_def sample_swap_ledger_def)
  from buy_pays_its_quote [OF plain_token_program_laws fresh ok] show ?thesis
    apply (elim exE conjE)
    subgoal for q refill accrued
      apply (drule spec [of _ 1082])
      using ok by (simp add: keys)
    done
qed

definition sample_sell :: open_swap_sell_accounts where
  "sample_sell = \<lparr>ys_offer = sample_main_offer\<lparr>a_key := 199\<rparr>, ys_redemption_offer = absent_account 199,
     ys_offer_vault_authority = 105, ys_redemption_vault_token_in_account = sample_token 2092,
     ys_redemption_vault_token_out_account = sample_token 2091,
     ys_token_in_mint = sample_onyc, ys_token_in_program = 9,
     ys_token_out_mint = sample_mint 21 None 0, ys_token_out_program = 9,
     ys_user_token_in_account = sample_token 1082, ys_user_token_out_account = sample_token 1081,
     ys_proceeds_token_in_account = sample_token 3012, ys_sell_fee_token_in_account = sample_token 3012,
     ys_mint_authority = 104, ys_excluded_balance = absent_account 102, ys_instructions_sysvar = 91,
     ys_user = 6, ys_main_offer = sample_main_offer, ys_offer_vault_onyc_account = sample_token 2072\<rparr>"

lemma sample_sell_simps [simp]:
  "ys_offer sample_sell = sample_main_offer\<lparr>a_key := 199\<rparr>" "ys_redemption_offer sample_sell = absent_account 199"
  "ys_offer_vault_authority sample_sell = 105" "ys_redemption_vault_token_in_account sample_sell = sample_token 2092"
  "ys_redemption_vault_token_out_account sample_sell = sample_token 2091" "ys_token_in_mint sample_sell = sample_onyc"
  "ys_token_in_program sample_sell = 9" "ys_token_out_mint sample_sell = sample_mint 21 None 0"
  "ys_token_out_program sample_sell = 9" "ys_user_token_in_account sample_sell = sample_token 1082"
  "ys_user_token_out_account sample_sell = sample_token 1081" "ys_proceeds_token_in_account sample_sell = sample_token 3012"
  "ys_sell_fee_token_in_account sample_sell = sample_token 3012" "ys_mint_authority sample_sell = 104"
  "ys_excluded_balance sample_sell = absent_account 102" "ys_instructions_sysvar sample_sell = 91"
  "ys_user sample_sell = 6" "ys_main_offer sample_sell = sample_main_offer"
  "ys_offer_vault_onyc_account sample_sell = sample_token 2072"
  by (simp_all add: sample_sell_def)

definition sample_fresh_stats :: "market_stats account" where
  "sample_fresh_stats = (absent_account 101)\<lparr>a_owner := 50, a_data := AccountData sample_stats\<rparr>"

lemma sample_refresh_again:
  "n \<le> 1000000 \<Longrightarrow> is_ok (refresh_market_stats_pda sample_env sample_offer (sample_mint 22 auth n)
     (absent_account 102) sample_fresh_stats)"
  by (simp add: refresh_market_stats_pda_def sample_excluded load_or_init_pda_account_def sample_recompute
      sample_fresh_stats_def deserialize_pda_account_def store_pda_account_def is_ok_def)

lemma sample_before_sell:
  "refresh_before_sell sample_env sample_config sample_sell sample_offer sample_swap_world =
     Ok (sample_offer, sample_fresh_stats, 2091, \<lparr>lq_fee_basis_points_prop_amm_sell = 0,
         lq_actual_liquidity = 100000, lq_hard_wall_reserve = 100000\<rparr>)"
proof -
  have "validate_take_offer_authorities sample_env 105 104 91 = Ok (255, 255)"
    by (simp add: validate_take_offer_authorities_def)
  moreover have "l_bal sample_swap_ledger 2091 = 100000" by (simp add: sample_swap_ledger_def)
  ultimately show ?thesis
    by (simp add: refresh_before_sell_def require_enabled_def sample_offer_flags validate_market_stats_pda_def
        sample_refresh sell_quote_liquidity_context_def redemption_offer_config_def resolve_hard_wall_reserve_def
        sample_fresh_stats_def cong: eval_congs)
qed

lemma sample_sell_factor:
  "apply_hard_wall_liquidity_factor sample_env 1000 100000 100000 sample_pair = Ok 999"
proof -
  have sel: "ps_wall_sensitivity_scaled sample_pair = 20000" "ps_epoch_start sample_pair = 4000"
    "ps_epoch_duration_seconds sample_pair = 86400" "ps_curr_sell_value_stable sample_pair = 0"
    "ps_curr_buy_value_stable sample_pair = 0" "ps_prev_net_sell_value_stable sample_pair = 0"
    "ps_curve_peg_haircut_bps sample_pair = 700" "ps_curve_exponent_scaled sample_pair = 20000"
    "ps_cadence_threshold sample_pair = 20" "ps_cadence_wave_scaled sample_pair = 10000"
    "ps_curr_sell_trade_count sample_pair = 0"
    by (simp_all add: sample_pair_def default_pair_state_def const_defs)
  have "dynamic_wall_liquidity_at_time 1000 100000 100000 sample_pair 5000 = Ok 98039"
    by (simp add: dynamic_wall_liquidity_at_time_def preview_effective_sell_volume_def sel saturating_mul_i64_def
        saturating_sub_def checked_sub_i64_def checked_mul_def checked_div_def checked_add_def i64_as_u128_def
        as_u64_def dynamic_wall_position_def const_defs int_defs cong: eval_congs)
  moreover have "integer_utilization_power_scaled 10200022440 2 = 104040457"
    unfolding numeral_2_eq_2
    by (simp add: integer_power_Suc) (simp add: integer_utilization_power_scaled_def mul_scaled_saturating_def
        saturating_mul_def checked_div_def const_defs int_defs)
  then have "redemption_haircut_scaled 10200022440 700 20000 = Ok 7282831"
    by (simp add: redemption_haircut_scaled_def bps_to_hard_wall_scale_def utilization_power_scaled_def
        validate_curve_exponent_scaled_def saturating_mul_def checked_mul_def checked_div_def const_defs
        int_defs cong: eval_congs)
  moreover have "cadence_wave_y_for_quote_scaled sample_pair 5000 = Ok 0"
    by (simp add: cadence_wave_y_for_quote_scaled_def sel preview_current_sell_trade_count_def checked_sub_i64_def
        const_defs int_defs cong: eval_congs)
  ultimately show ?thesis
    by (simp add: apply_hard_wall_liquidity_factor_def apply_hard_wall_liquidity_factor_at_time_def
        utilization_scaled_def sell_haircut_def sel cadence_wave_target_haircut_scaled_def checked_mul_def
        checked_div_def saturating_sub_def as_u64_def const_defs int_defs cong: eval_congs)
qed

lemma sample_sell_priced:
  "price_swap_sell sample_env sample_offer (reload L sample_onyc) (sample_mint 21 None 0)
     \<lparr>lq_fee_basis_points_prop_amm_sell = 0, lq_actual_liquidity = 100000, lq_hard_wall_reserve = 100000\<rparr>
     sample_pair 1000 900 =
     Ok (\<lparr>rp_price = 1000267397, rp_token_in_net_amount = 1000, rp_token_in_fee_amount = 0,
         rp_token_out_amount = 1000\<rparr>, 999)"
proof -
  have "compute_offer_current_price sample_offer 5000 = Ok 1000267397"
    by (simp add: compute_offer_current_price_def sample_price)
  moreover have "calculate_fees 1000 0 = Ok \<lparr>fr_token_in_fee_amount = 0, fr_token_in_net_amount = 1000\<rparr>"
    using calculate_fees_total(1) [of 1000 0] by (simp add: const_defs int_defs)
  ultimately have "process_redemption_core sample_env sample_offer 1000 sample_onyc (sample_mint 21 None 0) 0 0 =
     Ok \<lparr>rp_price = 1000267397, rp_token_in_net_amount = 1000, rp_token_in_fee_amount = 0, rp_token_out_amount = 1000\<rparr>"
    by (simp add: process_redemption_core_def redemption_fees_def i64_as_u64_def sample_onyc_def
        sample_mint_def checked_mul_def checked_pow_def as_u64_def const_defs int_defs cong: eval_congs)
  moreover have "ps_minimum_sell_haircut_onyc sample_pair = 0" by (simp add: sample_pair_def)
  ultimately show ?thesis by (simp add: price_swap_sell_def sample_sell_factor cong: eval_congs)
qed

lemma sample_sell_tokens_ok:
  obtains tk where "prepare_swap_sell_tokens sample_env sample_config sample_sell sample_swap_world = Ok tk"
    "st_user_in tk = 1082" "st_user_out tk = 1081" "st_proceeds tk = 3012" "st_fee tk = 3012"
    "st_redemption_in tk = 2092"
  by (simp add: prepare_swap_sell_tokens_def get_or_create_configurable_vault_token_account_pair_def
      cong: eval_congs)

lemma sample_sell_ok:
  "\<exists>w'. open_swap_sell sample_env plain_token_program sample_config sample_sell 1000 900 sample_swap_world = Ok w'"
proof -
  let ?r = "\<lparr>rp_price = 1000267397, rp_token_in_net_amount = 1000, rp_token_in_fee_amount = 0,
         rp_token_out_amount = 1000\<rparr>"
  obtain tk where tk: "prepare_swap_sell_tokens sample_env sample_config sample_sell sample_swap_world = Ok tk"
    "st_user_in tk = 1082" "st_user_out tk = 1081" "st_proceeds tk = 3012" "st_fee tk = 3012"
    "st_redemption_in tk = 2092"
    by (rule sample_sell_tokens_ok)
  have should: "should_refresh_after_sell sample_config sample_sell"
    by (simp add: should_refresh_after_sell_def program_controls_mint_def) (simp add: sample_onyc_def sample_mint_def)
  obtain acc ba' b where acc: "accrue_before_sell sample_env plain_token_program sample_config sample_sell
     sample_offer (w_buffer_accounts sample_world) sample_swap_ledger = Ok (Some acc, ba', sample_swap_ledger)"
    "ar_post_accrual_supply acc = 5000" "load_buffer_state sample_env ba' = Ok b"
    using sample_accrual_from_accounts [of sample_swap_ledger] should by (auto simp: accrue_before_sell_def)
  obtain ps' where rec: "record_prop_amm_sell sample_pair 1000 5000 = Ok ps'"
    by (simp add: record_prop_amm_sell_def roll_prop_amm_volume_tracker_def sample_pair_def default_pair_state_def
        checked_sub_i64_def saturating_mul_i64_def checked_add_def const_defs int_defs cong: eval_congs)
  obtain L2 where pay: "transfer_tokens plain_token_program (reload sample_swap_ledger sample_onyc) 1082 2092 6 1000
      sample_swap_ledger = Ok L2"
    and L2: "l_bal L2 2092 = 1000" "l_bal L2 2091 = 100000" "l_supply L2 22 = 5000"
    by (simp add: token_eval_simps sample_swap_ledger_def)
  obtain L3 where ex: "execute_redemption_operations plain_token_program (sell_order sample_env sample_sell
      (reload sample_swap_ledger sample_onyc) tk 2091 ?r 999) L2 = Ok L3" and L3: "l_supply L3 22 = 4000"
    using L2 by (simp add: execute_redemption_operations_def sell_order_def tk token_eval_simps reload_def
        sample_onyc_def sample_mint_def cong: eval_congs)
  obtain ba2 where store: "store_post_burn_supply sample_env 1000 (Some acc) ba' = Ok ba2"
    using acc(2,3) by (simp add: store_post_burn_supply_def store_buffer_post_supply_def store_buffer_state_Ok
        load_buffer_state_Ok checked_sub_def cong: eval_congs)
  have rl: "reload L3 sample_onyc = sample_mint 22 (Some 104) 4000"
    using L3 by (simp add: reload_def sample_onyc_def sample_mint_def)
  obtain ms where ms: "refresh_market_stats_pda sample_env sample_offer (reload L3 sample_onyc) (absent_account 102)
      sample_fresh_stats = Ok ms"
    using sample_refresh_again [of 4000 "Some 104"] by (auto simp: rl is_ok_iff)
  have "check_open_swap_sell_accounts sample_env sample_config sample_sell sample_swap_world = Ok (sample_offer, sample_pair)"
    by (simp add: check_open_swap_sell_accounts_def cong: eval_congs)
  then show ?thesis
    by (simp add: open_swap_sell_def sample_valid_pair execute_open_swap_sell_def sample_before_sell tk(1)
        settle_swap_sell_def acc sample_sell_priced rec pay tk(2,6) ex store should ms cong: eval_congs)
qed

theorem sell_pays_its_quote_witness:
  "\<exists>w' ms q. open_swap_sell sample_env plain_token_program sample_config sample_sell 1000 900 sample_swap_world = Ok w' \<and>
     quote_swap_sell sample_env sample_config (sell_quote_accounts sample_sell sample_swap_world ms) 1000
       sample_swap_ledger = Ok q \<and> 900 \<le> sq_token_out_amount q \<and>
     int (l_bal (sw_ledger w') 1081) = 1000 + int (sq_token_out_amount q)"
proof -
  obtain w' where ok: "open_swap_sell sample_env plain_token_program sample_config sample_sell 1000 900
      sample_swap_world = Ok w'"
    using sample_sell_ok by blast
  have fresh: "m_supply (ys_token_in_mint sample_sell) = l_supply (sw_ledger sample_swap_world) (m_key (ys_token_in_mint sample_sell))"
    by (simp add: sample_swap_ledger_def) (simp add: sample_onyc_def sample_mint_def)
  have keys: "t_key (ba_reserve_vault_onyc_account (w_buffer_accounts sample_world)) = 2082"
    "t_key (ba_management_fee_vault_onyc_account (w_buffer_accounts sample_world)) = 3012"
    "t_key (ba_performance_fee_vault_onyc_account (w_buffer_accounts sample_world)) = 3012"
    "l_bal sample_swap_ledger 1081 = 1000"
    by (simp_all add: sample_world_def sample_swap_ledger_def)
  from sell_pays_its_quote [OF plain_token_program_laws fresh ok] show ?thesis
    apply (elim exE conjE)
    subgoal for mo ms q accrued
      apply (drule spec [of _ 1081])
      using ok by (auto simp: keys)
    done
qed

end
