(* ===== verification/Treasury.thy ===== *)
theory Treasury
  imports Offer_Exec
begin

text \<open>
  The remaining instructions that move tokens or hand over authority: deposits and withdrawals of
  the offer and redemption vaults (\<open>vault_operations/\<close>) and of the BUFFER reserve
  (\<open>buffer/deposit_reserve_vault.rs\<close>, \<open>buffer/withdraw_reserve_vault.rs\<close>), the destination and
  the withdrawal of a configurable vault (\<open>configurable_vault/\<close>), direct minting and the mint
  authority (\<open>mint_authority/\<close>), closing the state account
  (\<open>state_operations/close_state.rs\<close>) and creating the permissionless authority
  (\<open>initialization/initialize_permissionless_authority.rs\<close>).

  The token program's \<open>set_authority\<close> is a parameter, with \<open>set_authority_law\<close> for what the
  program relies on.
\<close>

section \<open>Vault deposits and withdrawals\<close>

text \<open>
  The four vault instructions share their shape: \<open>seeds\<close> derive the authority that owns the
  vault, \<open>party\<close> is the depositor or the boss.
\<close>

record vault_accounts =
  va_token_mint :: mint
  va_party_token_account :: token_info
  va_vault_token_account :: token_info
  va_party :: pubkey
  va_token_program :: pubkey

definition vault_deposit ::
  "env \<Rightarrow> spl_token \<Rightarrow> state \<Rightarrow> seed list \<Rightarrow> vault_accounts \<Rightarrow> u64 \<Rightarrow> ledger \<Rightarrow> ledger result" where
  "vault_deposit e spl st seeds a amount L =
     (let m = m_key (va_token_mint a) in
      require (\<not> s_is_killed st) KillSwitchActivated (
      and_then (get_associated_token_account e (va_party_token_account a) (va_party a) m
          (va_token_program a) AnchorConstraint) (\<lambda>source.
      and_then (get_or_create_associated_token_account e (va_vault_token_account a) (pda e seeds) m
          (va_token_program a) AnchorConstraint) (\<lambda>vault.
      require (\<not> has_transfer_fee (va_token_mint a)) TransferFeeNotSupported (
      transfer_tokens spl (va_token_mint a) source vault (va_party a) amount L)))))"

definition vault_withdraw ::
  "env \<Rightarrow> spl_token \<Rightarrow> state \<Rightarrow> seed list \<Rightarrow> vault_accounts \<Rightarrow> u64 \<Rightarrow> ledger \<Rightarrow> ledger result" where
  "vault_withdraw e spl st seeds a amount L =
     (let m = m_key (va_token_mint a) in
      and_then (get_or_create_associated_token_account e (va_party_token_account a) (va_party a) m
          (va_token_program a) AnchorConstraint) (\<lambda>destination.
      and_then (get_associated_token_account e (va_vault_token_account a) (pda e seeds) m
          (va_token_program a) AnchorConstraint) (\<lambda>vault.
      require (va_party a = s_boss st) AnchorConstraint (
      require (\<not> s_is_killed st) KillSwitchActivated (
      require (\<not> has_transfer_fee (va_token_mint a)) TransferFeeNotSupported (
      transfer_tokens spl (va_token_mint a) vault destination (pda e seeds) amount L))))))"

definition offer_vault_deposit ::
  "env \<Rightarrow> spl_token \<Rightarrow> state \<Rightarrow> vault_accounts \<Rightarrow> u64 \<Rightarrow> ledger \<Rightarrow> ledger result" where
  "offer_vault_deposit e spl st a amount L =
     vault_deposit e spl st [Seed ''offer_vault_authority''] a amount L"

definition offer_vault_withdraw ::
  "env \<Rightarrow> spl_token \<Rightarrow> state \<Rightarrow> vault_accounts \<Rightarrow> u64 \<Rightarrow> ledger \<Rightarrow> ledger result" where
  "offer_vault_withdraw e spl st a amount L =
     vault_withdraw e spl st [Seed ''offer_vault_authority''] a amount L"

definition redemption_vault_deposit ::
  "env \<Rightarrow> spl_token \<Rightarrow> state \<Rightarrow> vault_accounts \<Rightarrow> u64 \<Rightarrow> ledger \<Rightarrow> ledger result" where
  "redemption_vault_deposit e spl st a amount L =
     vault_deposit e spl st [Seed ''redemption_offer_vault_authority''] a amount L"

definition redemption_vault_withdraw ::
  "env \<Rightarrow> spl_token \<Rightarrow> state \<Rightarrow> vault_accounts \<Rightarrow> u64 \<Rightarrow> ledger \<Rightarrow> ledger result" where
  "redemption_vault_withdraw e spl st a amount L =
     vault_withdraw e spl st [Seed ''redemption_offer_vault_authority''] a amount L"

text \<open>The reserve holds ONyc only: the state and the BUFFER must name the mint.\<close>

definition check_reserve_accounts ::
  "env \<Rightarrow> state \<Rightarrow> mint \<Rightarrow> buffer_state account \<Rightarrow> unit result" where
  "check_reserve_accounts e st onyc_mint buffer_account =
     require (s_onyc_mint st = m_key onyc_mint) AnchorConstraint (
     require (\<not> s_is_killed st) KillSwitchActivated (
     require (a_key buffer_account = pda e [Seed ''buffer_state'']) AnchorConstraint (
     and_then (load_pda_account buffer_account (program_id e) AnchorConstraint AnchorConstraint) (\<lambda>b.
     require (b_onyc_mint b = m_key onyc_mint) AnchorConstraint (Ok ())))))"

definition deposit_reserve_vault ::
  "env \<Rightarrow> spl_token \<Rightarrow> state \<Rightarrow> buffer_state account \<Rightarrow> vault_accounts \<Rightarrow> u64 \<Rightarrow> ledger \<Rightarrow> ledger result"
  where
  "deposit_reserve_vault e spl st buffer_account a amount L =
     and_then (check_reserve_accounts e st (va_token_mint a) buffer_account) (\<lambda>_.
     vault_deposit e spl st [Seed ''reserve_vault_authority''] a amount L)"

definition withdraw_reserve_vault ::
  "env \<Rightarrow> spl_token \<Rightarrow> state \<Rightarrow> buffer_state account \<Rightarrow> vault_accounts \<Rightarrow> u64 \<Rightarrow> ledger \<Rightarrow> ledger result"
  where
  "withdraw_reserve_vault e spl st buffer_account a amount L =
     require (va_party a = s_boss st) AnchorConstraint (
     and_then (check_reserve_accounts e st (va_token_mint a) buffer_account) (\<lambda>_.
     vault_withdraw e spl st [Seed ''reserve_vault_authority''] a amount L))"

section \<open>Configurable vaults\<close>

text \<open>\<open>init_if_needed\<close> creates the account with zero bytes; any other account must load.\<close>

definition zero_vault :: configurable_vault where
  "zero_vault = \<lparr>cv_kind = 0, cv_withdrawal_destination = default_pubkey, cv_bump = 0\<rparr>"

definition set_configurable_vault_destination ::
  "env \<Rightarrow> state \<Rightarrow> pubkey \<Rightarrow> configurable_vault_kind \<Rightarrow> pubkey \<Rightarrow> configurable_vault account \<Rightarrow>
     configurable_vault account result" where
  "set_configurable_vault_destination e st boss kind withdrawal_destination account =
     (let (expected_vault, vault_bump) = find_program_address e (vault_seeds kind) in
      require (boss = s_boss st) Unauthorized (
      require (a_key account = expected_vault) AnchorConstraint (
      and_then (if a_owner account = system_program_id e
          then and_then (create_account e (a_key account)) (\<lambda>_. Ok zero_vault)
          else load_pda_account account (program_id e) AnchorConstraint AnchorConstraint) (\<lambda>vault.
      let vault = (if cv_kind vault = 0 \<and> cv_withdrawal_destination vault = default_pubkey \<and>
            cv_bump vault = 0 then vault\<lparr>cv_kind := as_u8 kind, cv_bump := vault_bump\<rparr> else vault)
      in
      require (cv_kind vault = as_u8 kind) InvalidConfigurableVaultKind (
      require (cv_withdrawal_destination vault \<noteq> withdrawal_destination) NoChange (
      Ok (account\<lparr>a_owner := program_id e,
        a_data := AccountData (vault\<lparr>cv_withdrawal_destination := withdrawal_destination\<rparr>)\<rparr>)))))))"

record withdraw_vault_accounts =
  wv_vault :: "configurable_vault account"
  wv_vault_token_account :: token_info
  wv_destination :: pubkey
  wv_destination_token_account :: token_info
  wv_mint :: mint
  wv_token_program :: pubkey

text \<open>An amount of zero stands for the whole balance; anyone may call.\<close>

definition withdraw_configurable_vault ::
  "env \<Rightarrow> spl_token \<Rightarrow> state \<Rightarrow> withdraw_vault_accounts \<Rightarrow> configurable_vault_kind \<Rightarrow> u64 \<Rightarrow> ledger \<Rightarrow>
     ledger result" where
  "withdraw_configurable_vault e spl st a kind amount L =
     require (\<not> s_is_killed st) KillSwitchActivated (
     require (a_key (wv_vault a) = pda e (vault_seeds kind)) AnchorConstraint (
     and_then (load_pda_account (wv_vault a) (program_id e) AnchorConstraint AnchorConstraint) (\<lambda>vault.
     require (cv_kind vault = as_u8 kind) InvalidConfigurableVaultKind (
     and_then (get_associated_token_account e (wv_vault_token_account a) (a_key (wv_vault a))
         (m_key (wv_mint a)) (wv_token_program a) AnchorConstraint) (\<lambda>vault_token.
     require (wv_destination a = cv_withdrawal_destination vault) InvalidFeeRecipient (
     and_then (get_or_create_associated_token_account e (wv_destination_token_account a)
         (wv_destination a) (m_key (wv_mint a)) (wv_token_program a) AnchorConstraint) (\<lambda>destination_token.
     require (\<not> has_transfer_fee (wv_mint a)) TransferFeeNotSupported (
     require (cv_withdrawal_destination vault \<noteq> default_pubkey) MissingConfigurableVaultDestination (
     let vault_balance = l_bal L vault_token;
         effective_amount = (if amount = 0 then vault_balance else amount)
     in
     require (effective_amount > 0) ZeroBalance (
     require (effective_amount \<le> vault_balance) InsufficientBalance (
     transfer_tokens spl (wv_mint a) vault_token destination_token (a_key (wv_vault a))
       effective_amount L)))))))))))"

section \<open>Minting and the mint authority\<close>

record mint_to_accounts =
  mt_boss :: pubkey
  mt_onyc_mint :: mint
  mt_boss_onyc_account :: token_info
  mt_token_program :: pubkey
  mt_main_offer :: "offer account"
  mt_excluded_balance :: "circulating_supply_excluded_balance account"

definition check_mint_to_accounts :: "env \<Rightarrow> state \<Rightarrow> mint_to_accounts \<Rightarrow> pubkey result" where
  "check_mint_to_accounts e st a =
     require (mt_boss a = s_boss st) AnchorConstraint (
     require (m_key (mt_onyc_mint a) = s_onyc_mint st) AnchorConstraint (
     require (\<not> s_is_killed st) KillSwitchActivated (
     require (s_main_offer st \<noteq> default_pubkey) InvalidMainOffer (
     and_then (get_or_create_associated_token_account e (mt_boss_onyc_account a) (mt_boss a)
         (m_key (mt_onyc_mint a)) (mt_token_program a) AnchorConstraint) (\<lambda>boss_onyc.
     and_then (ok_or (m_mint_authority (mt_onyc_mint a)) Panic) (\<lambda>authority.
     require (authority = pda e [Seed ''mint_authority'']) NoMintAuthority (
     Ok boss_onyc)))))))"

definition mint_to ::
  "env \<Rightarrow> spl_token \<Rightarrow> state \<Rightarrow> mint_to_accounts \<Rightarrow> u64 \<Rightarrow> buffer_world \<Rightarrow> buffer_world result" where
  "mint_to e spl st a amount w =
     (let mint_authority = pda e [Seed ''mint_authority'']; m = mt_onyc_mint a in
      and_then (check_mint_to_accounts e st a) (\<lambda>boss_onyc.
      and_then (load_main_offer e (mt_main_offer a) st) (\<lambda>offer.
      and_then (check_is_initialized e (w_buffer_accounts w)) (\<lambda>buffer_is_initialized.
      and_then (if should_accrue_onyc_mint st m buffer_is_initialized mint_authority
          then and_then (accrue_buffer_from_accounts e spl st (w_buffer_accounts w) offer m
              mint_authority (mt_token_program a) (w_ledger w)) (\<lambda>(accrual, ba, L).
            Ok (Some accrual, ba, L))
          else Ok (None, w_buffer_accounts w, w_ledger w)) (\<lambda>(accrual, ba, L).
      and_then (mint_tokens spl (if accrual \<noteq> None then reload L m else m) boss_onyc mint_authority
          amount (s_max_supply st) (s_max_mint_amount st) L) (\<lambda>L.
      and_then (store_post_offer_supply e MathOverflow amount accrual ba) (\<lambda>ba.
      and_then (refresh_market_stats_pda e offer (reload L m) (mt_excluded_balance a)
          (w_market_stats w)) (\<lambda>ms.
      Ok (w\<lparr>w_ledger := L, w_buffer_accounts := ba, w_market_stats := ms\<rparr>)))))))))"

type_synonym set_authority = "mint \<Rightarrow> pubkey \<Rightarrow> pubkey option \<Rightarrow> mint result"

definition set_authority_law :: "set_authority \<Rightarrow> bool" where
  "set_authority_law set_authority \<longleftrightarrow>
     (\<forall>m current new m'. set_authority m current new = Ok m' \<longrightarrow>
        m_mint_authority m = Some current \<and> m' = m\<lparr>m_mint_authority := new\<rparr>)"

definition transfer_mint_authority_to_program ::
  "env \<Rightarrow> set_authority \<Rightarrow> state \<Rightarrow> pubkey \<Rightarrow> mint \<Rightarrow> mint result" where
  "transfer_mint_authority_to_program e set_authority st boss m =
     require (boss = s_boss st) AnchorConstraint (
     and_then (ok_or (m_mint_authority m) Panic) (\<lambda>authority.
     require (authority = boss) BossNotMintAuthority (
     set_authority m boss (Some (pda e [Seed ''mint_authority''])))))"

definition transfer_mint_authority_to_boss ::
  "env \<Rightarrow> set_authority \<Rightarrow> state \<Rightarrow> pubkey \<Rightarrow> mint \<Rightarrow> mint result" where
  "transfer_mint_authority_to_boss e set_authority st boss m =
     require (boss = s_boss st) AnchorConstraint (
     and_then (ok_or (m_mint_authority m) Panic) (\<lambda>authority.
     require (authority = pda e [Seed ''mint_authority'']) ProgramNotMintAuthority (
     set_authority m (pda e [Seed ''mint_authority'']) (Some boss))))"

section \<open>Account life cycle\<close>

text \<open>
  Closing the state reads the boss from the raw bytes 8 to 40, without deserialization.
  \<open>pubkey_of_bytes\<close> is the key with the given 32 bytes.
\<close>

record raw_account =
  rw_account_key :: pubkey
  rw_account_owner :: pubkey
  rw_account_data :: "u8 list"
  rw_account_lamports :: u64

definition pubkey_of_bytes :: "u8 list \<Rightarrow> pubkey" where
  "pubkey_of_bytes bs = foldr (\<lambda>b n. b + 256 * n) bs 0"

definition close_state ::
  "env \<Rightarrow> raw_account \<Rightarrow> pubkey \<Rightarrow> u64 \<Rightarrow> (raw_account \<times> u64) result" where
  "close_state e account boss boss_lamports =
     require (rw_account_owner account = program_id e) InvalidStateOwner (
     require (rw_account_key account = pda e [Seed ''state'']) InvalidStatePda (
     require (length (rw_account_data account) \<ge> 40) InvalidStateData (
     let stored_boss = pubkey_of_bytes (take 32 (drop 8 (rw_account_data account))) in
     require (boss = stored_boss) UnauthorizedSigner (
     and_then (ok_or (checked_add u64_max boss_lamports (rw_account_lamports account)) LamportOverflow)
       (\<lambda>boss_lamports_after.
     Ok (account\<lparr>rw_account_lamports := 0, rw_account_data := [],
           rw_account_owner := system_program_id e\<rparr>, boss_lamports_after))))))"

text \<open>
  A name is a list of Unicode code points; \<open>trim\<close> drops white space (the property
  \<open>White_Space\<close>) at both ends.
\<close>

definition is_whitespace :: "nat \<Rightarrow> bool" where
  "is_whitespace c \<longleftrightarrow> 9 \<le> c \<and> c \<le> 13 \<or> c = 32 \<or> c = 133 \<or> c = 160 \<or> c = 5760 \<or>
     8192 \<le> c \<and> c \<le> 8202 \<or> c = 8232 \<or> c = 8233 \<or> c = 8239 \<or> c = 8287 \<or> c = 12288"

definition trim :: "nat list \<Rightarrow> nat list" where
  "trim name = rev (dropWhile is_whitespace (rev (dropWhile is_whitespace name)))"

text \<open>The account has room for 50 bytes of the name's UTF-8 encoding.\<close>

definition utf8_length :: "nat list \<Rightarrow> nat" where
  "utf8_length name = sum_list (map (\<lambda>c. if c < 128 then 1 else if c < 2048 then 2
     else if c < 65536 then 3 else 4) name)"

definition initialize_permissionless_authority ::
  "env \<Rightarrow> state \<Rightarrow> pubkey \<Rightarrow> nat list \<Rightarrow> nat list account \<Rightarrow> nat list account result" where
  "initialize_permissionless_authority e st boss name account =
     require (a_key account = pda e [Seed ''permissionless-1'']) AnchorConstraint (
     require (a_owner account = system_program_id e) AnchorConstraint (
     and_then (create_account e (a_key account)) (\<lambda>_.
     require (boss = s_boss st) AnchorConstraint (
     require (trim name \<noteq> []) InvalidPermissionlessAccountName (
     require (utf8_length (trim name) \<le> 50) AnchorConstraint (
     Ok (account\<lparr>a_owner := program_id e, a_data := AccountData (trim name)\<rparr>)))))))"

section \<open>Movements\<close>

lemma vault_deposit_Ok:
  assumes "vault_deposit e spl st seeds a amount L = Ok L'"
  shows "\<not> s_is_killed st" and "\<exists>src dst auth. transfer_tokens spl (va_token_mint a) src dst auth amount L = Ok L'"
  using assms unfolding vault_deposit_def Let_def by auto

lemma vault_withdraw_Ok:
  assumes "vault_withdraw e spl st seeds a amount L = Ok L'"
  shows "\<not> s_is_killed st" and "va_party a = s_boss st"
    and "\<exists>src dst auth. transfer_tokens spl (va_token_mint a) src dst auth amount L = Ok L'"
  using assms unfolding vault_withdraw_def Let_def by auto

lemma withdraw_configurable_vault_Ok:
  assumes "withdraw_configurable_vault e spl st a kind amount L = Ok L'"
  defines "ata \<equiv> \<lambda>k. get_associated_token_address_with_program_id e k (m_key (wv_mint a)) (wv_token_program a)"
  obtains vault n where "a_data (wv_vault a) = AccountData vault" "cv_kind vault = as_u8 kind"
    "cv_withdrawal_destination vault \<noteq> default_pubkey" "\<not> s_is_killed st"
    "n = (if amount = 0 then l_bal L (ata (pda e (vault_seeds kind))) else amount)" "0 < n"
    "transfer_tokens spl (wv_mint a) (ata (pda e (vault_seeds kind))) (ata (cv_withdrawal_destination vault))
      (pda e (vault_seeds kind)) n L = Ok L'"
proof -
  from assms(1) obtain vault vt dt where
    1: "\<not> s_is_killed st" "a_key (wv_vault a) = pda e (vault_seeds kind)" "a_data (wv_vault a) = AccountData vault"
      "cv_kind vault = as_u8 kind" "wv_destination a = cv_withdrawal_destination vault"
      "cv_withdrawal_destination vault \<noteq> default_pubkey"
    and vt: "get_associated_token_account e (wv_vault_token_account a) (a_key (wv_vault a))
         (m_key (wv_mint a)) (wv_token_program a) AnchorConstraint = Ok vt"
    and dt: "get_or_create_associated_token_account e (wv_destination_token_account a)
         (wv_destination a) (m_key (wv_mint a)) (wv_token_program a) AnchorConstraint = Ok dt"
    and tr: "0 < (if amount = 0 then l_bal L vt else amount)"
      "transfer_tokens spl (wv_mint a) vt dt (a_key (wv_vault a)) (if amount = 0 then l_bal L vt else amount) L = Ok L'"
    unfolding withdraw_configurable_vault_def Let_def by (auto split del: if_split)
  have keys: "vt = ata (pda e (vault_seeds kind))" "dt = ata (cv_withdrawal_destination vault)"
    using vt get_or_create_associated_token_account_Ok [OF dt] 1
    by (simp_all add: ata_def get_associated_token_account_Ok)
  show ?thesis
    by (rule that [OF 1(3,4,6,1) refl tr(1) [unfolded keys] tr(2) [unfolded keys 1(2)]])
qed

text \<open>
  C25: A configurable vault pays only its configured destination. Whoever calls the withdrawal, it
  succeeds only while the program runs and a destination is set, moves a positive amount (the
  whole balance for zero) from the vault's account to the destination's account, and changes no
  other balance and no supply.
\<close>

theorem configurable_vault_pays_only_its_destination:
  assumes laws: "spl_laws spl" and ok: "withdraw_configurable_vault e spl st a kind amount L = Ok L'"
  defines "ata \<equiv> \<lambda>k. get_associated_token_address_with_program_id e k (m_key (wv_mint a)) (wv_token_program a)"
    and "vault_key \<equiv> pda e (vault_seeds kind)"
  shows "\<exists>vault n. a_data (wv_vault a) = AccountData vault \<and> cv_kind vault = as_u8 kind \<and>
    cv_withdrawal_destination vault \<noteq> default_pubkey \<and> \<not> s_is_killed st \<and>
    n = (if amount = 0 then l_bal L (ata vault_key) else amount) \<and> 0 < n \<and> n \<le> l_bal L (ata vault_key) \<and>
    (\<forall>x. int (l_bal L' x) = int (l_bal L x) + part (x = ata (cv_withdrawal_destination vault)) n
      - part (x = ata vault_key) n) \<and> l_supply L' = l_supply L"
proof -
  from ok obtain vault n where v: "a_data (wv_vault a) = AccountData vault" "cv_kind vault = as_u8 kind"
    "cv_withdrawal_destination vault \<noteq> default_pubkey" "\<not> s_is_killed st"
    "n = (if amount = 0 then l_bal L (ata vault_key) else amount)" "0 < n"
    and tr: "transfer_tokens spl (wv_mint a) (ata vault_key) (ata (cv_withdrawal_destination vault)) vault_key n L = Ok L'"
    unfolding ata_def vault_key_def by (rule withdraw_configurable_vault_Ok)
  show ?thesis
    using v transfer_tokens_effect [OF laws tr] transfer_tokens_Ok(1) [OF laws tr] by blast
qed

definition sample_withdrawal :: withdraw_vault_accounts where
  "sample_withdrawal = \<lparr>wv_vault = \<lparr>a_key = 199, a_owner = 50, a_writable = False,
       a_data = AccountData \<lparr>cv_kind = 0, cv_withdrawal_destination = 6, cv_bump = 255\<rparr>\<rparr>,
     wv_vault_token_account = sample_token 3011, wv_destination = 6,
     wv_destination_token_account = sample_token 1081, wv_mint = sample_mint 21 None 0, wv_token_program = 9\<rparr>"

theorem configurable_vault_pays_only_its_destination_witness:
  "\<exists>L'. withdraw_configurable_vault sample_env plain_token_program sample_config sample_withdrawal OfferFee 0
       \<lparr>l_bal = (\<lambda>x. if x = 3011 then 70 else 0), l_supply = (\<lambda>_. 5000)\<rparr> = Ok L' \<and>
     int (l_bal L' 1081) = 70 \<and> int (l_bal L' 3011) = 0"
proof -
  let ?L = "\<lparr>l_bal = (\<lambda>x. if x = 3011 then 70 else (0::nat)), l_supply = (\<lambda>_. (5000::nat))\<rparr>"
  obtain L' where ok: "withdraw_configurable_vault sample_env plain_token_program sample_config sample_withdrawal
      OfferFee 0 ?L = Ok L'"
    by (simp add: withdraw_configurable_vault_def sample_withdrawal_def take_eval_simps token_eval_simps
        default_pubkey_def sample_mint_def cong: eval_congs)
  have sel: "wv_mint sample_withdrawal = sample_mint 21 None 0" "a_data (wv_vault sample_withdrawal) =
      AccountData \<lparr>cv_kind = 0, cv_withdrawal_destination = 6, cv_bump = 255\<rparr>"
    by (simp_all add: sample_withdrawal_def)
  note th = configurable_vault_pays_only_its_destination [OF plain_token_program_laws ok]
  have "int (l_bal L' 1081) = 70" using th by (elim exE conjE) (drule spec [of _ 1081], auto simp: sel)
  moreover have "int (l_bal L' 3011) = 0" using th by (elim exE conjE) (drule spec [of _ 3011], auto simp: sel)
  ultimately show ?thesis using ok by blast
qed

end
