(* ===== verification/Protocol.thy ===== *)
theory Protocol
  imports Swap_Exec Treasury
begin

text \<open>
  The program as one machine: the instructions of \<open>lib.rs\<close> that move tokens or that configure the
  accounts those instructions read, in any order and at any time, on one shared state. The
  component theories describe a single handler; here their invariants are carried through
  interleavings of all of them.
\<close>

section \<open>State and instructions\<close>

text \<open>
  The accounts that several handlers share: the global state, the token ledger, the BUFFER's
  accounts, the statistics, the configurable vaults, one Prop AMM pair and one redemption offer
  with its requests.
\<close>

record protocol =
  pw_state :: state
  pw_ledger :: ledger
  pw_buffer_accounts :: buffer_accrual_accounts
  pw_market_stats :: "market_stats account"
  pw_vaults :: "configurable_vault_kind \<Rightarrow> configurable_vault account"
  pw_pair :: "prop_amm_pair_state account"
  pw_redemption_key :: pubkey
  pw_redemption_offer :: redemption_offer
  pw_requests :: "u64 \<Rightarrow> redemption_request option"

datatype instruction =
    Govern gov_op
  | SettleBuffer pubkey mint pubkey "offer account" "circulating_supply_excluded_balance account"
  | SetBufferGrossApr pubkey mint pubkey "offer account" "circulating_supply_excluded_balance account" u64
  | SetBufferFeeConfig pubkey mint pubkey "offer account" "circulating_supply_excluded_balance account"
      u16 u16 bool
  | BurnForNavIncrease pubkey mint pubkey "offer account" configurable_vault configurable_vault
      "circulating_supply_excluded_balance account" u64
  | MintTo mint_to_accounts u64
  | TakeOffer sysvar take_offer_accounts u64 "approval_message option"
  | TakeOfferV2 sysvar take_offer_v2_accounts u64 "approval_message option"
  | TakeOfferPermissionless take_offer_permissionless_accounts u64 "approval_message option"
  | TakeOfferPermissionlessV2 take_offer_permissionless_v2_accounts u64
  | ConfigurePropAmm configure_accounts pair_config
  | OpenSwapBuy open_swap_buy_accounts u64 u64
  | OpenSwapSell open_swap_sell_accounts u64 u64
  | CreateRedemptionRequest "offer account" pubkey mint pubkey u64
  | CancelRedemptionRequest pubkey pubkey pubkey mint pubkey token_info u64
  | FulfillRedemptionRequest fulfill_accounts u64 u64
  | UpdateRedemptionOfferFee pubkey u16
  | UpdateRedemptionOfferSellFee pubkey u16
  | UpdateRedemptionOfferVaultTarget pubkey u16
  | SetRedemptionOfferDisabled pubkey bool
  | OfferVaultDeposit vault_accounts u64
  | OfferVaultWithdraw vault_accounts u64
  | RedemptionVaultDeposit vault_accounts u64
  | RedemptionVaultWithdraw vault_accounts u64
  | DepositReserveVault vault_accounts u64
  | WithdrawReserveVault vault_accounts u64
  | SetConfigurableVaultDestination pubkey configurable_vault_kind pubkey
  | WithdrawConfigurableVault withdraw_vault_accounts configurable_vault_kind u64

text \<open>The parts of the state that a handler works on, and the state with such a part replaced.\<close>

definition buffer_view :: "protocol \<Rightarrow> buffer_world" where
  "buffer_view p = \<lparr>w_ledger = pw_ledger p, w_buffer_accounts = pw_buffer_accounts p,
     w_market_stats = pw_market_stats p\<rparr>"

definition put_buffer :: "protocol \<Rightarrow> buffer_world \<Rightarrow> protocol" where
  "put_buffer p w = p\<lparr>pw_ledger := w_ledger w, pw_buffer_accounts := w_buffer_accounts w,
     pw_market_stats := w_market_stats w\<rparr>"

definition offer_view :: "configurable_vault_kind \<Rightarrow> protocol \<Rightarrow> offer_world" where
  "offer_view fee_kind p = \<lparr>ow_ledger = pw_ledger p, ow_proceeds_vault = pw_vaults p OfferProceeds,
     ow_fee_vault = pw_vaults p fee_kind, ow_buffer_accounts = pw_buffer_accounts p,
     ow_market_stats = pw_market_stats p\<rparr>"

definition put_offer :: "configurable_vault_kind \<Rightarrow> protocol \<Rightarrow> offer_world \<Rightarrow> protocol" where
  "put_offer fee_kind p w = p\<lparr>pw_ledger := ow_ledger w, pw_buffer_accounts := ow_buffer_accounts w,
     pw_market_stats := ow_market_stats w,
     pw_vaults := (pw_vaults p)(OfferProceeds := ow_proceeds_vault w, fee_kind := ow_fee_vault w)\<rparr>"

definition swap_view :: "configurable_vault_kind \<Rightarrow> protocol \<Rightarrow> swap_world" where
  "swap_view fee_kind p = \<lparr>sw_ledger = pw_ledger p, sw_pair = pw_pair p,
     sw_proceeds_vault = pw_vaults p PropAmmProceeds, sw_fee_vault = pw_vaults p fee_kind,
     sw_buffer_accounts = pw_buffer_accounts p, sw_market_stats = pw_market_stats p\<rparr>"

definition put_swap :: "configurable_vault_kind \<Rightarrow> protocol \<Rightarrow> swap_world \<Rightarrow> protocol" where
  "put_swap fee_kind p w = p\<lparr>pw_ledger := sw_ledger w, pw_pair := sw_pair w,
     pw_buffer_accounts := sw_buffer_accounts w, pw_market_stats := sw_market_stats w,
     pw_vaults := (pw_vaults p)(PropAmmProceeds := sw_proceeds_vault w, fee_kind := sw_fee_vault w)\<rparr>"

definition redemption_view :: "protocol \<Rightarrow> redemption_world" where
  "redemption_view p = \<lparr>rw_key = pw_redemption_key p, rw_redemption_offer = pw_redemption_offer p,
     rw_requests = pw_requests p, rw_ledger = pw_ledger p, rw_proceeds_vault = pw_vaults p OfferProceeds,
     rw_fee_vault = pw_vaults p RedemptionFee, rw_buffer_accounts = pw_buffer_accounts p,
     rw_market_stats = pw_market_stats p\<rparr>"

definition put_redemption :: "protocol \<Rightarrow> redemption_world \<Rightarrow> protocol" where
  "put_redemption p w = p\<lparr>pw_redemption_offer := rw_redemption_offer w, pw_requests := rw_requests w,
     pw_ledger := rw_ledger w, pw_buffer_accounts := rw_buffer_accounts w,
     pw_market_stats := rw_market_stats w,
     pw_vaults := (pw_vaults p)(OfferProceeds := rw_proceeds_vault w, RedemptionFee := rw_fee_vault w)\<rparr>"

definition put_ledger :: "protocol \<Rightarrow> ledger \<Rightarrow> protocol" where
  "put_ledger p L = p\<lparr>pw_ledger := L\<rparr>"

lemmas view_defs = buffer_view_def offer_view_def swap_view_def redemption_view_def
lemmas put_defs = put_buffer_def put_offer_def put_swap_def put_redemption_def put_ledger_def

definition update :: "'a result \<Rightarrow> ('a \<Rightarrow> protocol) \<Rightarrow> protocol result" where
  "update r put = and_then r (\<lambda>x. Ok (put x))"

text \<open>
  An instruction runs at a time \<open>now\<close> and loads every mint with the supply it has then. Whatever
  else its accounts hold is chosen by the caller.
\<close>

fun exec_protocol :: "spl_token \<Rightarrow> env \<Rightarrow> i64 \<times> instruction \<Rightarrow> protocol \<Rightarrow> protocol result" where
  "exec_protocol spl env (now, ix) p =
     (let e = env\<lparr>unix_timestamp := now\<rparr>; st = pw_state p; L = pw_ledger p in
      case ix of
        Govern c \<Rightarrow> update (exec_gov c st) (\<lambda>st. p\<lparr>pw_state := st\<rparr>)
      | SettleBuffer worker m prog mo eb \<Rightarrow>
          update (settle_buffer e spl st worker (reload L m) prog mo eb (buffer_view p)) (put_buffer p)
      | SetBufferGrossApr boss m prog mo eb apr \<Rightarrow>
          update (set_buffer_gross_apr e spl st boss (reload L m) prog mo eb apr (buffer_view p))
            (put_buffer p)
      | SetBufferFeeConfig boss m prog mo eb mf pf en \<Rightarrow>
          update (set_buffer_fee_config e spl st boss (reload L m) prog mo eb mf pf en (buffer_view p))
            (put_buffer p)
      | BurnForNavIncrease boss m prog mo mv pv eb adj \<Rightarrow>
          update (burn_for_nav_increase e spl st boss (reload L m) prog mo mv pv eb adj (buffer_view p))
            (put_buffer p)
      | MintTo a amount \<Rightarrow>
          update (mint_to e spl st (a\<lparr>mt_onyc_mint := reload L (mt_onyc_mint a)\<rparr>) amount (buffer_view p))
            (put_buffer p)
      | TakeOffer sv a amount approval \<Rightarrow>
          update (take_offer e spl sv st (a\<lparr>k_token_in_mint := reload L (k_token_in_mint a),
              k_token_out_mint := reload L (k_token_out_mint a)\<rparr>) amount approval L) (put_ledger p)
      | TakeOfferV2 sv a amount approval \<Rightarrow>
          update (take_offer_v2 e spl sv st (a\<lparr>k_token_in_mint := reload L (k_token_in_mint a),
              k_token_out_mint := reload L (k_token_out_mint a)\<rparr>) amount approval
            (offer_view OfferFee p)) (put_offer OfferFee p)
      | TakeOfferPermissionless a amount approval \<Rightarrow>
          update (take_offer_permissionless e spl st (a\<lparr>k_token_in_mint := reload L (k_token_in_mint a),
              k_token_out_mint := reload L (k_token_out_mint a)\<rparr>) amount approval L) (put_ledger p)
      | TakeOfferPermissionlessV2 a amount \<Rightarrow>
          update (take_offer_permissionless_v2 e spl st (a\<lparr>k_token_in_mint := reload L (k_token_in_mint a),
              k_token_out_mint := reload L (k_token_out_mint a)\<rparr>) amount
            (offer_view PermissionlessOfferFee p)) (put_offer PermissionlessOfferFee p)
      | ConfigurePropAmm a c \<Rightarrow>
          update (configure_prop_amm e st a c (pw_pair p)) (\<lambda>ps. p\<lparr>pw_pair := ps\<rparr>)
      | OpenSwapBuy a amount minimum_out \<Rightarrow>
          update (open_swap_buy e spl st (a\<lparr>k_token_in_mint := reload L (k_token_in_mint a),
              k_token_out_mint := reload L (k_token_out_mint a)\<rparr>) amount minimum_out
            (swap_view PropAmmBuyFee p)) (put_swap PropAmmBuyFee p)
      | OpenSwapSell a amount minimum_out \<Rightarrow>
          update (open_swap_sell e spl st (a\<lparr>ys_token_in_mint := reload L (ys_token_in_mint a),
              ys_token_out_mint := reload L (ys_token_out_mint a)\<rparr>) amount minimum_out
            (swap_view PropAmmSellFee p)) (put_swap PropAmmSellFee p)
      | CreateRedemptionRequest oa redeemer m prog amount \<Rightarrow>
          update (create_redemption_request e spl st oa redeemer (reload L m) prog amount
            (redemption_view p)) (put_redemption p)
      | CancelRedemptionRequest signer redeemer worker m prog t i \<Rightarrow>
          update (cancel_redemption_request e spl st signer redeemer worker (reload L m) prog t i
            (redemption_view p)) (put_redemption p)
      | FulfillRedemptionRequest a i amount \<Rightarrow>
          update (fulfill_redemption_request e spl st (a\<lparr>f_token_in_mint := reload L (f_token_in_mint a),
              f_token_out_mint := reload L (f_token_out_mint a)\<rparr>) i amount (redemption_view p))
            (put_redemption p)
      | UpdateRedemptionOfferFee boss fee \<Rightarrow>
          update (update_redemption_offer_fee st boss fee (pw_redemption_offer p))
            (\<lambda>ro. p\<lparr>pw_redemption_offer := ro\<rparr>)
      | UpdateRedemptionOfferSellFee boss fee \<Rightarrow>
          update (update_redemption_offer_prop_amm_sell_fee st boss fee (pw_redemption_offer p))
            (\<lambda>ro. p\<lparr>pw_redemption_offer := ro\<rparr>)
      | UpdateRedemptionOfferVaultTarget boss target \<Rightarrow>
          update (update_redemption_offer_vault_target st boss target (pw_redemption_offer p))
            (\<lambda>ro. p\<lparr>pw_redemption_offer := ro\<rparr>)
      | SetRedemptionOfferDisabled signer disabled \<Rightarrow>
          update (set_redemption_offer_disabled st signer disabled (pw_redemption_offer p))
            (\<lambda>ro. p\<lparr>pw_redemption_offer := ro\<rparr>)
      | OfferVaultDeposit a amount \<Rightarrow> update (offer_vault_deposit e spl st a amount L) (put_ledger p)
      | OfferVaultWithdraw a amount \<Rightarrow> update (offer_vault_withdraw e spl st a amount L) (put_ledger p)
      | RedemptionVaultDeposit a amount \<Rightarrow>
          update (redemption_vault_deposit e spl st a amount L) (put_ledger p)
      | RedemptionVaultWithdraw a amount \<Rightarrow>
          update (redemption_vault_withdraw e spl st a amount L) (put_ledger p)
      | DepositReserveVault a amount \<Rightarrow>
          update (deposit_reserve_vault e spl st (ba_buffer_state (pw_buffer_accounts p)) a amount L)
            (put_ledger p)
      | WithdrawReserveVault a amount \<Rightarrow>
          update (withdraw_reserve_vault e spl st (ba_buffer_state (pw_buffer_accounts p)) a amount L)
            (put_ledger p)
      | SetConfigurableVaultDestination boss kind dst \<Rightarrow>
          update (set_configurable_vault_destination e st boss kind dst (pw_vaults p kind))
            (\<lambda>v. p\<lparr>pw_vaults := (pw_vaults p)(kind := v)\<rparr>)
      | WithdrawConfigurableVault a kind amount \<Rightarrow>
          update (withdraw_configurable_vault e spl st (a\<lparr>wv_vault := pw_vaults p kind\<rparr>) kind amount L)
            (put_ledger p))"

lemma update_Ok: "update r put = Ok p' \<longleftrightarrow> (\<exists>x. r = Ok x \<and> p' = put x)"
  by (cases r) (auto simp: update_def)

section \<open>A sample state\<close>

definition sample_protocol :: protocol where
  "sample_protocol = \<lparr>pw_state = sample_config, pw_ledger = w_ledger sample_world,
     pw_buffer_accounts = w_buffer_accounts sample_world, pw_market_stats = absent_account 101,
     pw_vaults = (\<lambda>_. absent_account 199), pw_pair = sample_pair_account,
     pw_redemption_key = rw_key sample_redemption_world,
     pw_redemption_offer = rw_redemption_offer sample_redemption_world,
     pw_requests = rw_requests sample_redemption_world\<rparr>"

definition sample_settlement :: "i64 \<times> instruction" where
  "sample_settlement = (5000, SettleBuffer 8 sample_onyc 9 sample_main_offer (absent_account 102))"

section \<open>The kill switch\<close>

text \<open>Every handler that moves tokens rejects while the switch is on.\<close>

lemma killed_buffer:
  assumes "s_is_killed st"
  shows "settle_buffer e spl st worker m prog mo eb w \<noteq> Ok w'"
    and "set_buffer_gross_apr e spl st boss m prog mo eb apr w \<noteq> Ok w'"
    and "set_buffer_fee_config e spl st boss m prog mo eb mf pf en w \<noteq> Ok w'"
    and "burn_for_nav_increase e spl st boss m prog mo mv pv eb adj w \<noteq> Ok w'"
    and "mint_to e spl st a amount w \<noteq> Ok w'"
  using assms
  by (auto simp: settle_buffer_def set_buffer_gross_apr_def set_buffer_fee_config_def
      check_buffer_config_accounts_def burn_for_nav_increase_def mint_to_def check_mint_to_accounts_def Let_def
      dest: check_burn_accounts_Ok split del: if_split)

lemma killed_offers:
  assumes "s_is_killed st"
  shows "take_offer e spl sv st a1 amount approval L \<noteq> Ok L'"
    and "take_offer_v2 e spl sv st a2 amount approval w \<noteq> Ok w'"
    and "take_offer_permissionless e spl st a3 amount approval L \<noteq> Ok L'"
    and "take_offer_permissionless_v2 e spl st a4 amount w \<noteq> Ok w'"
  using assms
  by (auto simp: take_offer_def take_offer_v2_def execute_take_offer_v2_def prepare_take_offer_v2_def
      check_take_offer_accounts_def take_offer_permissionless_def take_offer_permissionless_v2_def
      check_permissionless_accounts_def Let_def split del: if_split)

lemma killed_swaps:
  assumes "s_is_killed st"
  shows "open_swap_buy e spl st a amount mn w \<noteq> Ok w'" and "open_swap_sell e spl st a' amount mn w \<noteq> Ok w'"
  using assms
  by (auto simp: open_swap_buy_def check_open_swap_buy_accounts_def open_swap_sell_def
      check_open_swap_sell_accounts_def Let_def split del: if_split)

lemma killed_redemptions:
  assumes "s_is_killed st"
  shows "create_redemption_request e spl st oa redeemer m prog amount w \<noteq> Ok w'"
    and "cancel_redemption_request e spl st signer redeemer worker m prog t i w \<noteq> Ok w'"
    and "fulfill_redemption_request e spl st a i amount w \<noteq> Ok w'"
  using assms
  by (auto simp: create_redemption_request_def cancel_redemption_request_def fulfill_redemption_request_def
      check_fulfill_accounts_def Let_def split del: if_split)

lemma killed_vaults:
  assumes "s_is_killed st"
  shows "offer_vault_deposit e spl st a amount L \<noteq> Ok L'" and "offer_vault_withdraw e spl st a amount L \<noteq> Ok L'"
    and "redemption_vault_deposit e spl st a amount L \<noteq> Ok L'"
    and "redemption_vault_withdraw e spl st a amount L \<noteq> Ok L'"
    and "deposit_reserve_vault e spl st ba a amount L \<noteq> Ok L'" and "withdraw_reserve_vault e spl st ba a amount L \<noteq> Ok L'"
    and "withdraw_configurable_vault e spl st wa kind amount L \<noteq> Ok L'"
  using assms
  by (auto simp: offer_vault_deposit_def offer_vault_withdraw_def redemption_vault_deposit_def
      redemption_vault_withdraw_def deposit_reserve_vault_def withdraw_reserve_vault_def withdraw_configurable_vault_def
      dest: vault_deposit_Ok(1) vault_withdraw_Ok(1))

lemmas killed = killed_buffer killed_offers killed_swaps killed_redemptions killed_vaults

text \<open>The one instruction that lifts the halt.\<close>

fun lifts_halt :: "instruction \<Rightarrow> bool" where
  "lifts_halt (Govern (SetKillSwitch k enable)) = (\<not> enable)"
| "lifts_halt _ = False"

definition halted :: "protocol \<Rightarrow> protocol \<Rightarrow> bool" where
  "halted p0 p \<longleftrightarrow> s_is_killed (pw_state p) \<and> pw_ledger p = pw_ledger p0 \<and>
     pw_buffer_accounts p = pw_buffer_accounts p0 \<and> pw_market_stats p = pw_market_stats p0 \<and>
     pw_requests p = pw_requests p0"

lemma halted_step:
  assumes "\<not> lifts_halt ix" and "halted p0 p" and "exec_protocol spl env (now, ix) p = Ok p'"
  shows "halted p0 p'"
proof (cases ix)
  case (Govern c)
  then obtain st where "exec_gov c (pw_state p) = Ok st" "p' = p\<lparr>pw_state := st\<rparr>"
    using assms(3) by (auto simp: update_Ok Let_def)
  moreover have "s_is_killed st"
  proof (rule ccontr)
    assume off: "\<not> s_is_killed st"
    have ne: "s_is_killed st \<noteq> s_is_killed (pw_state p)" using off assms(2) by (simp add: halted_def)
    have "c = SetKillSwitch (gov_signer c) (s_is_killed st)"
      by (rule exec_gov_kill_change [OF calculation(1) ne, THEN conjunct1])
    then obtain k where "c = SetKillSwitch k False" using off by simp
    then show False using assms(1) Govern by simp
  qed
  ultimately show ?thesis using assms(2) by (simp add: halted_def)
qed (use assms in \<open>auto simp: halted_def update_Ok Let_def killed\<close>)

interpretation halt: guarded_machine "exec_protocol spl env" "halted p0" "\<lambda>(now, ix). \<not> lifts_halt ix" for spl env p0
  by unfold_locales (auto intro: halted_step simp del: exec_protocol.simps)

text \<open>
  The kill switch freezes all funds. While it is on, no sequence of instructions, by whomever,
  at whatever times and with whatever accounts, changes a token balance, a token supply, the
  BUFFER, the market statistics or a redemption request, until an instruction turns the switch
  off. Failing instructions are included; governance and configuration continue.
\<close>

theorem kill_switch_freezes_funds:
  fixes spl env
  assumes "s_is_killed (pw_state p)" and "list_all (\<lambda>(now, ix). \<not> lifts_halt ix) ixs"
  defines "p' \<equiv> run_ops (exec_protocol spl env) ixs p"
  shows "pw_ledger p' = pw_ledger p \<and> pw_buffer_accounts p' = pw_buffer_accounts p \<and>
    pw_market_stats p' = pw_market_stats p \<and> pw_requests p' = pw_requests p \<and> s_is_killed (pw_state p')"
  using halt.guarded_run_inv [OF assms(2), of p p spl env] assms(1) unfolding p'_def by (auto simp: halted_def)

theorem kill_switch_freezes_funds_witness:
  "pw_ledger (run_ops (exec_protocol plain_token_program sample_env)
       [sample_settlement, (6000, Govern (SetWorker 7 11)),
        (7000, WithdrawConfigurableVault sample_withdrawal OfferFee 0)]
       (sample_protocol\<lparr>pw_state := sample_config\<lparr>s_is_killed := True\<rparr>\<rparr>)) = w_ledger sample_world"
proof -
  let ?p = "sample_protocol\<lparr>pw_state := sample_config\<lparr>s_is_killed := True\<rparr>\<rparr>"
  have "s_is_killed (pw_state ?p)" by simp
  moreover have "list_all (\<lambda>(now, ix). \<not> lifts_halt ix) [sample_settlement, (6000, Govern (SetWorker 7 11)),
      (7000, WithdrawConfigurableVault sample_withdrawal OfferFee 0)]"
    by (simp add: sample_settlement_def)
  ultimately have "pw_ledger (run_ops (exec_protocol plain_token_program sample_env) [sample_settlement,
      (6000, Govern (SetWorker 7 11)), (7000, WithdrawConfigurableVault sample_withdrawal OfferFee 0)] ?p) = pw_ledger ?p"
    by (rule kill_switch_freezes_funds [THEN conjunct1])
  also have "pw_ledger ?p = w_ledger sample_world" by (simp add: sample_protocol_def)
  finally show ?thesis .
qed

section \<open>Component invariants under interleaving\<close>

text \<open>The Prop AMM pair: within its limits and its types whenever its account holds a pair.\<close>

definition pair_account_ok :: "prop_amm_pair_state account \<Rightarrow> bool" where
  "pair_account_ok account \<longleftrightarrow>
     (\<forall>ps. a_data account = AccountData ps \<longrightarrow> pair_config_ok ps \<and> pair_typed ps)"

definition clock_ok :: "i64 \<Rightarrow> bool" where
  "clock_ok now \<longleftrightarrow> 0 \<le> now \<and> now \<le> i64_max"

fun typed_args :: "instruction \<Rightarrow> bool" where
  "typed_args (ConfigurePropAmm a c) \<longleftrightarrow> pc_cadence_threshold c \<le> u32_max \<and>
     pc_epoch_duration_seconds c \<le> i64_max \<and> pc_wall_sensitivity_scaled c \<le> u32_max \<and>
     pc_minimum_sell_haircut_onyc c \<le> u64_max"
| "typed_args _ \<longleftrightarrow> True"

lemma configure_keeps_pair:
  assumes ok: "configure_prop_amm e st a c account = Ok account'" and inv: "pair_account_ok account"
    and clock: "clock_ok (unix_timestamp e)" and typed: "typed_args (ConfigurePropAmm a c)"
  shows "pair_account_ok account'"
proof -
  from ok obtain ps where init: "init_pair_if_needed e account = Ok ps" and cfg: "validate_pair_config c = Ok ()"
    and account': "a_data account' = AccountData (apply_pair_config e st a c ps)"
    by (auto simp: configure_prop_amm_def)
  have "pair_typed ps \<or> ps = zero_pair_state"
    using init inv by (auto simp: init_pair_if_needed_def pair_account_ok_def split: if_splits)
  then have "pair_typed (apply_pair_config e st a c ps)"
    using clock typed
    by (auto simp: pair_typed_def apply_pair_config_def clock_ok_def zero_pair_state_def int_defs)
  moreover have "pair_config_ok (apply_pair_config e st a c ps)"
    using cfg by (auto simp: validate_pair_config_def pair_config_ok_def apply_pair_config_def saturating_mul_def
        const_defs int_defs)
  ultimately show ?thesis by (simp add: pair_account_ok_def account')
qed

lemma swaps_record_on_pair:
  shows "open_swap_buy e spl st a amount mn w = Ok w' \<Longrightarrow> \<exists>ps v ps'. a_data (sw_pair w) = AccountData ps \<and>
      record_prop_amm_buy ps v (unix_timestamp e) = Ok ps' \<and> a_data (sw_pair w') = AccountData ps'"
    and "open_swap_sell e spl st a' amount mn w = Ok w' \<Longrightarrow> \<exists>ps v ps'. a_data (sw_pair w) = AccountData ps \<and>
      record_prop_amm_sell ps v (unix_timestamp e) = Ok ps' \<and> a_data (sw_pair w') = AccountData ps'"
proof -
  assume "open_swap_buy e spl st a amount mn w = Ok w'"
  then obtain offer ps bt r where "check_open_swap_buy_accounts e st a w = Ok (offer, ps)"
    and "settle_swap_buy e spl st a ps bt r amount w = Ok w'"
    unfolding open_swap_buy_def execute_open_swap_buy_def by auto
  then show "\<exists>ps v ps'. a_data (sw_pair w) = AccountData ps \<and>
      record_prop_amm_buy ps v (unix_timestamp e) = Ok ps' \<and> a_data (sw_pair w') = AccountData ps'"
    unfolding settle_swap_buy_def check_open_swap_buy_accounts_def load_offer_and_pair_def Let_def
    by (auto split del: if_split)
next
  assume "open_swap_sell e spl st a' amount mn w = Ok w'"
  then obtain offer ps mo ms vo lq tk where chk: "check_open_swap_sell_accounts e st a' w = Ok (offer, ps)"
    and "settle_swap_sell e spl st a' offer ps mo ms vo lq tk amount mn w = Ok w'"
    unfolding open_swap_sell_def execute_open_swap_sell_def by auto
  then show "\<exists>ps v ps'. a_data (sw_pair w) = AccountData ps \<and>
      record_prop_amm_sell ps v (unix_timestamp e) = Ok ps' \<and> a_data (sw_pair w') = AccountData ps'"
    using check_open_swap_sell_accounts_Ok(7) [OF chk] unfolding settle_swap_sell_def Let_def
    by (auto split del: if_split)
qed

lemma pair_step:
  assumes inv: "pair_account_ok (pw_pair p)" and clock: "clock_ok now" and typed: "typed_args ix"
    and ok: "exec_protocol spl env (now, ix) p = Ok p'"
  shows "pair_account_ok (pw_pair p')"
proof (cases ix)
  case (ConfigurePropAmm a c)
  then show ?thesis
    using ok configure_keeps_pair [OF _ inv, of "env\<lparr>unix_timestamp := now\<rparr>"] clock typed by (auto simp: update_Ok Let_def)
next
  case (OpenSwapBuy a amount mn)
  then obtain w' a' where w': "open_swap_buy (env\<lparr>unix_timestamp := now\<rparr>) spl (pw_state p) a' amount mn
      (swap_view PropAmmBuyFee p) = Ok w'" and p': "pw_pair p' = sw_pair w'"
    using ok by (auto simp: update_Ok Let_def put_swap_def)
  from swaps_record_on_pair(1) [OF w'] obtain ps v ps' where *: "a_data (pw_pair p) = AccountData ps"
    "record_prop_amm_buy ps v now = Ok ps'" "a_data (pw_pair p') = AccountData ps'"
    by (auto simp: swap_view_def p')
  have "pair_typed ps" "pair_config_ok ps" using inv *(1) by (auto simp: pair_account_ok_def)
  then show ?thesis
    using record_buy_keeps [of ps now v ps'] * clock by (auto simp: pair_account_ok_def clock_ok_def)
next
  case (OpenSwapSell a amount mn)
  then obtain w' a' where w': "open_swap_sell (env\<lparr>unix_timestamp := now\<rparr>) spl (pw_state p) a' amount mn
      (swap_view PropAmmSellFee p) = Ok w'" and p': "pw_pair p' = sw_pair w'"
    using ok by (auto simp: update_Ok Let_def put_swap_def)
  from swaps_record_on_pair(2) [OF w'] obtain ps v ps' where *: "a_data (pw_pair p) = AccountData ps"
    "record_prop_amm_sell ps v now = Ok ps'" "a_data (pw_pair p') = AccountData ps'"
    by (auto simp: swap_view_def p')
  have "pair_typed ps" "pair_config_ok ps" using inv *(1) by (auto simp: pair_account_ok_def)
  then show ?thesis
    using record_sell_keeps [of ps now v ps'] * clock by (auto simp: pair_account_ok_def clock_ok_def)
qed (use ok inv in \<open>auto simp: update_Ok Let_def put_defs\<close>)

interpretation pair: guarded_machine "exec_protocol spl env" "\<lambda>p. pair_account_ok (pw_pair p)"
    "\<lambda>(now, ix). clock_ok now \<and> typed_args ix" for spl env
  by unfold_locales (auto intro: pair_step simp del: exec_protocol.simps)

text \<open>The queue of redemption requests and the global state.\<close>

lemma redemption_wf_cong:
  "rw_redemption_offer w = rw_redemption_offer w' \<Longrightarrow> rw_requests w = rw_requests w' \<Longrightarrow>
   redemption_wf w = redemption_wf w'"
  by (simp add: redemption_wf_def)

lemma redemption_wf_put: "redemption_wf (redemption_view (put_redemption p w)) = redemption_wf w"
  by (rule redemption_wf_cong) (simp_all add: redemption_view_def put_redemption_def)

lemma redemption_wf_offer:
  "redemption_wf (redemption_view (p\<lparr>pw_redemption_offer := ro\<rparr>)) =
   redemption_wf ((redemption_view p)\<lparr>rw_redemption_offer := ro\<rparr>)"
  by (rule redemption_wf_cong) (simp_all add: redemption_view_def)

lemma queue_step:
  assumes inv: "redemption_wf (redemption_view p)" and ok: "exec_protocol spl env (now, ix) p = Ok p'"
  shows "redemption_wf (redemption_view p')"
proof -
  let ?e = "env\<lparr>unix_timestamp := now\<rparr>" and ?st = "pw_state p" and ?w = "redemption_view p"
  note step = exec_redemption_wf [OF inv]
  have other: "redemption_wf (redemption_view q)"
    if "pw_redemption_offer q = pw_redemption_offer p" "pw_requests q = pw_requests p" for q
    using inv redemption_wf_cong [of "redemption_view q" ?w] that by (simp add: redemption_view_def)
  show ?thesis
  proof (cases ix)
    case (CreateRedemptionRequest oa redeemer m prog amount)
    then show ?thesis
      using ok step [of spl "CreateRequest ?e ?st oa redeemer (reload (pw_ledger p) m) prog amount"]
      by (auto simp: update_Ok Let_def redemption_wf_put)
  next
    case (CancelRedemptionRequest signer redeemer worker m prog t i)
    then show ?thesis
      using ok step [of spl "CancelRequest ?e ?st signer redeemer worker (reload (pw_ledger p) m) prog t i"]
      by (auto simp: update_Ok Let_def redemption_wf_put)
  next
    case (FulfillRedemptionRequest a i amount)
    then show ?thesis
      using ok step [of spl "FulfillRequest ?e ?st (a\<lparr>f_token_in_mint := reload (pw_ledger p) (f_token_in_mint a),
          f_token_out_mint := reload (pw_ledger p) (f_token_out_mint a)\<rparr>) i amount"]
      by (auto simp: update_Ok Let_def redemption_wf_put)
  next
    case (UpdateRedemptionOfferFee boss fee)
    then show ?thesis
      using ok step [of spl "UpdateRedemptionFee ?st boss fee"]
      by (auto simp: update_Ok redemption_wf_offer configure_def redemption_view_def)
  next
    case (UpdateRedemptionOfferSellFee boss fee)
    then show ?thesis
      using ok step [of spl "UpdateSellFee ?st boss fee"]
      by (auto simp: update_Ok redemption_wf_offer configure_def redemption_view_def)
  next
    case (UpdateRedemptionOfferVaultTarget boss target)
    then show ?thesis
      using ok step [of spl "UpdateVaultTarget ?st boss target"]
      by (auto simp: update_Ok redemption_wf_offer configure_def redemption_view_def)
  next
    case (SetRedemptionOfferDisabled signer disabled)
    then show ?thesis
      using ok step [of spl "SetRedemptionDisabled ?st signer disabled"]
      by (auto simp: update_Ok redemption_wf_offer configure_def redemption_view_def)
  qed (use ok in \<open>auto simp: update_Ok Let_def put_defs intro!: other\<close>)
qed

lemma governance_step:
  assumes "state_wf (pw_state p)" and "exec_protocol spl env (now, ix) p = Ok p'"
  shows "state_wf (pw_state p')"
proof (cases ix)
  case (Govern c)
  then show ?thesis using assms exec_gov_wf by (auto simp: update_Ok)
qed (use assms in \<open>auto simp: update_Ok Let_def put_defs\<close>)

interpretation requests: guarded_machine "exec_protocol spl env" "\<lambda>p. redemption_wf (redemption_view p)" "\<lambda>_. True"
    for spl env
  by unfold_locales (auto intro: queue_step simp del: exec_protocol.simps)

interpretation governed: guarded_machine "exec_protocol spl env" "\<lambda>p. state_wf (pw_state p)" "\<lambda>_. True"
    for spl env
  by unfold_locales (auto intro: governance_step simp del: exec_protocol.simps)

section \<open>The BUFFER's baseline\<close>

text \<open>
  The baseline is the supply from which the next accrual starts. It is out of date exactly when
  some instruction changed the ONyc supply without storing the result.
\<close>

definition baseline :: "pubkey \<Rightarrow> pubkey \<Rightarrow> buffer_accrual_accounts \<Rightarrow> ledger \<Rightarrow> bool" where
  "baseline program onyc ba L \<longleftrightarrow>
     (\<forall>b. a_owner (ba_buffer_state ba) = program \<longrightarrow> a_data (ba_buffer_state ba) = AccountData b \<longrightarrow>
        b_previous_supply b = 0 \<or> b_previous_supply b = l_supply L onyc)"

lemma baseline_stored:
  "load_buffer_state e ba = Ok b \<Longrightarrow> b_previous_supply b = l_supply L onyc \<Longrightarrow> baseline (program_id e) onyc ba L"
  by (simp add: baseline_def load_buffer_state_Ok)

lemma baseline_uninitialized: "check_is_initialized e ba = Ok False \<Longrightarrow> baseline (program_id e) onyc ba L"
  by (auto simp: baseline_def check_is_initialized_def split: if_splits)

lemma baseline_supply: "l_supply L' onyc = l_supply L onyc \<Longrightarrow> baseline pid onyc ba L \<Longrightarrow> baseline pid onyc ba L'"
  by (simp add: baseline_def)

lemma baseline_buffer:
  assumes "spl_laws spl" and "exec_buffer spl m c w = Ok w'" and "m_key m = onyc"
  shows "baseline pid onyc (w_buffer_accounts w') (w_ledger w')"
  using exec_buffer_pool [OF assms(1,2)] assms(3) by (auto simp: baseline_def pool_def)

lemma baseline_mint_to:
  assumes laws: "spl_laws spl" and ok: "mint_to e spl st a amount w = Ok w'"
    and fresh: "m_supply (mt_onyc_mint a) = l_supply (w_ledger w) (m_key (mt_onyc_mint a))"
  shows "baseline (program_id e) (s_onyc_mint st) (w_buffer_accounts w') (w_ledger w')"
proof -
  let ?m = "mt_onyc_mint a" and ?au = "pda e [Seed ''mint_authority'']"
  from ok obtain boss_onyc offer init accrual ba L where chk: "check_mint_to_accounts e st a = Ok boss_onyc"
    and init: "check_is_initialized e (w_buffer_accounts w) = Ok init"
    and acc: "(if should_accrue_onyc_mint st ?m init ?au
          then and_then (accrue_buffer_from_accounts e spl st (w_buffer_accounts w) offer ?m ?au
              (mt_token_program a) (w_ledger w)) (\<lambda>(accrual, ba, L). Ok (Some accrual, ba, L))
          else Ok (None, w_buffer_accounts w, w_ledger w)) = Ok (accrual, ba, L)"
    and mint: "mint_tokens spl (if accrual \<noteq> None then reload L ?m else ?m) boss_onyc ?au amount (s_max_supply st)
      (s_max_mint_amount st) L = Ok (w_ledger w')"
    and store: "store_post_offer_supply e MathOverflow amount accrual ba = Ok (w_buffer_accounts w')"
    unfolding mint_to_def Let_def by (auto split del: if_split)
  have key: "m_key ?m = s_onyc_mint st" and ctl: "program_controls_mint ?m ?au"
    using chk by (auto simp: check_mint_to_accounts_def program_controls_mint_def)
  have sup: "l_supply (w_ledger w') (s_onyc_mint st) = l_supply L (s_onyc_mint st) + amount"
    using mint_tokens_effect(2) [OF laws mint, of "s_onyc_mint st"] key by (cases "accrual = None") auto
  show ?thesis
  proof (cases init)
    case False
    then have "w_buffer_accounts w' = w_buffer_accounts w"
      using acc store by (simp add: should_accrue_onyc_mint_def store_post_offer_supply_def)
    then show ?thesis using baseline_uninitialized init False by simp
  next
    case True
    then obtain r where r: "accrual = Some r" "accrue_buffer_from_accounts e spl st (w_buffer_accounts w) offer ?m ?au
        (mt_token_program a) (w_ledger w) = Ok (r, ba, L)"
      using acc key ctl by (auto simp: should_accrue_onyc_mint_def is_onyc_token_out_mint_def)
    from accrue_buffer_from_accounts_effect [OF laws fresh r(2)] obtain b' where b': "load_buffer_state e ba = Ok b'"
      and post: "ar_post_accrual_supply r = l_supply L (m_key ?m)" by (auto simp: accrual_effect_def)
    then show ?thesis
      using store r(1) sup by (auto simp: store_post_offer_supply_def store_buffer_post_supply_def load_buffer_state_Ok
          store_buffer_state_Ok set_buffer_baseline_after_supply_change_def key baseline_def)
  qed
qed

lemma baseline_take_v2:
  assumes laws: "spl_laws spl" and ok: "take_offer_v2 e spl sv st a amount approval w = Ok w'"
    and fresh: "m_supply (k_token_out_mint a) = l_supply (ow_ledger w) (m_key (k_token_out_mint a))"
    and mints: "m_key (k_token_in_mint a) \<noteq> s_onyc_mint st" "m_key (k_token_in_mint a) \<noteq> m_key (k_token_out_mint a)"
    and inv: "baseline (program_id e) (s_onyc_mint st) (ow_buffer_accounts w) (ow_ledger w)"
  shows "baseline (program_id e) (s_onyc_mint st) (ow_buffer_accounts w') (ow_ledger w')"
proof -
  from ok obtain r should mo bps proceeds pv fee fv rdst refill user_out where
    prep: "prepare_take_offer_v2 e sv st a amount approval (ow_buffer_accounts w) = Ok (r, should, mo, bps)"
    and settle: "settle_take_offer_v2 e spl st a r should mo proceeds fee rdst refill user_out
      (w\<lparr>ow_proceeds_vault := pv, ow_fee_vault := fv\<rparr>) = Ok w'"
    unfolding take_offer_v2_def execute_take_offer_v2_def by auto
  from prep obtain init where init: "check_is_initialized e (ow_buffer_accounts w) = Ok init"
    and should: "should = should_accrue_onyc_mint st (k_token_out_mint a) init (k_mint_authority a)"
    by (rule prepare_take_offer_v2_Ok)
  have ctl: "should \<Longrightarrow> program_controls_mint (k_token_out_mint a) (k_mint_authority a)"
    by (simp add: should should_accrue_onyc_mint_def)
  define w1 where "w1 = w\<lparr>ow_proceeds_vault := pv, ow_fee_vault := fv\<rparr>"
  have w1: "ow_ledger w1 = ow_ledger w" "ow_buffer_accounts w1 = ow_buffer_accounts w" by (simp_all add: w1_def)
  obtain accrued where
    sup: "l_supply (ow_ledger w') (m_key (k_token_out_mint a)) = l_supply (ow_ledger w) (m_key (k_token_out_mint a)) + accrued +
      (if program_controls_mint (k_token_out_mint a) (k_mint_authority a) then op_token_out_amount r else 0)"
    and others: "\<forall>k. k \<noteq> m_key (k_token_out_mint a) \<longrightarrow> k \<noteq> m_key (k_token_in_mint a) \<longrightarrow>
      l_supply (ow_ledger w') k = l_supply (ow_ledger w) k"
    and buf: "if should then \<exists>b. load_buffer_state e (ow_buffer_accounts w') = Ok b \<and>
        b_last_accrual_timestamp b = unix_timestamp e \<and>
        b_previous_supply b = l_supply (ow_ledger w') (m_key (k_token_out_mint a))
      else accrued = 0 \<and> ow_buffer_accounts w' = ow_buffer_accounts w"
    using settle_take_offer_v2_effect [OF laws _ mints(2) ctl settle [folded w1_def], unfolded w1, OF fresh] by blast
  consider "should" | "m_key (k_token_out_mint a) \<noteq> s_onyc_mint st" | "\<not> should" "\<not> init"
    | "\<not> should" "\<not> program_controls_mint (k_token_out_mint a) (k_mint_authority a)"
    by (auto simp: should should_accrue_onyc_mint_def is_onyc_token_out_mint_def)
  then show ?thesis
  proof cases
    case 1
    then show ?thesis using buf baseline_stored should
      by (auto simp: should_accrue_onyc_mint_def is_onyc_token_out_mint_def)
  next
    case 2
    then have "\<not> should" by (simp add: should should_accrue_onyc_mint_def is_onyc_token_out_mint_def)
    then show ?thesis using 2 buf others mints(1) inv by (auto intro: baseline_supply)
  next
    case 3 then show ?thesis using buf init by (auto intro: baseline_uninitialized)
  next
    case 4
    then show ?thesis using buf sup others mints(1) inv
      by (cases "m_key (k_token_out_mint a) = s_onyc_mint st") (auto intro: baseline_supply)
  qed
qed

lemma baseline_permissionless_v2:
  assumes laws: "spl_laws spl" and ok: "take_offer_permissionless_v2 e spl st a amount w = Ok w'"
    and fresh: "m_supply (k_token_out_mint a) = l_supply (ow_ledger w) (m_key (k_token_out_mint a))"
    and mints: "m_key (k_token_in_mint a) \<noteq> s_onyc_mint st" "m_key (k_token_in_mint a) \<noteq> m_key (k_token_out_mint a)"
    and inv: "baseline (program_id e) (s_onyc_mint st) (ow_buffer_accounts w) (ow_ledger w)"
  shows "baseline (program_id e) (s_onyc_mint st) (ow_buffer_accounts w') (ow_ledger w')"
proof -
  let ?tout = "m_key (k_token_out_mint a)"
  from ok obtain offer pin dst fdst pout uo fo mr rr L ba ms where
    ex: "execute_take_offer_permissionless e spl st a offer amount pin dst fdst pout uo fo
      (Some (ow_buffer_accounts w)) mr rr (ow_ledger w) = Ok (L, ba, ms)"
    and w': "ow_ledger w' = L" "ow_buffer_accounts w' = (case ba of Some ba \<Rightarrow> ba | None \<Rightarrow> ow_buffer_accounts w)"
    unfolding take_offer_permissionless_v2_def by auto
  from permissionless_buffer_effect [OF laws fresh mints(2) ex] obtain ba1 init accrued
    and r :: offer_process_result where
    ba: "ba = Some ba1" and init: "check_is_initialized e (ow_buffer_accounts w) = Ok init"
    and sup: "l_supply L ?tout = l_supply (ow_ledger w) ?tout + accrued +
      (if program_controls_mint (k_token_out_mint a) (pda e [Seed ''mint_authority'']) then op_token_out_amount r else 0)"
    and others: "\<forall>k. k \<noteq> ?tout \<longrightarrow> k \<noteq> m_key (k_token_in_mint a) \<longrightarrow> l_supply L k = l_supply (ow_ledger w) k"
    and buf: "if ?tout = s_onyc_mint st \<and>
        program_controls_mint (k_token_out_mint a) (pda e [Seed ''mint_authority'']) \<and> init
      then \<exists>b. load_buffer_state e ba1 = Ok b \<and> b_last_accrual_timestamp b = unix_timestamp e \<and>
        b_previous_supply b = l_supply L ?tout
      else accrued = 0 \<and> ba1 = ow_buffer_accounts w"
    by (elim exE conjE) (rule that, assumption+)
  have "baseline (program_id e) (s_onyc_mint st) ba1 L"
  proof (cases "?tout = s_onyc_mint st")
    case True
    then show ?thesis
      using buf sup init inv baseline_stored baseline_uninitialized baseline_supply
      by (auto split: if_splits)
  next
    case False
    then show ?thesis using buf others mints(1) inv by (auto intro: baseline_supply)
  qed
  then show ?thesis by (simp add: w' ba)
qed

lemma baseline_buy:
  assumes laws: "spl_laws spl" and ok: "open_swap_buy e spl st a amount mn w = Ok w'"
    and fresh: "m_supply (k_token_out_mint a) = l_supply (sw_ledger w) (m_key (k_token_out_mint a))"
    and inv: "baseline (program_id e) (s_onyc_mint st) (sw_buffer_accounts w) (sw_ledger w)"
  shows "baseline (program_id e) (s_onyc_mint st) (sw_buffer_accounts w') (sw_ledger w')"
proof -
  from ok obtain offer ps u bt r where
    val: "validate_prop_amm_pair_for_side e st ps (a_key (k_offer a)) (m_key (k_token_in_mint a))
      (m_key (k_token_out_mint a)) Buy = Ok u"
    and price: "price_swap_buy e offer a amount mn = Ok r"
    and settle: "settle_swap_buy e spl st a ps bt r amount w = Ok w'"
    unfolding open_swap_buy_def execute_open_swap_buy_def by auto
  have tout: "m_key (k_token_out_mint a) = s_onyc_mint st" using validate_pair_for_side_Ok(2) [OF val] by simp
  have pays: "op_token_in_net_amount r + op_token_in_fee_amount r = amount"
    using price process_offer_core_pays by (auto simp: price_swap_buy_def)
  obtain init where init: "check_is_initialized e (sw_buffer_accounts w) = Ok init"
    using settle unfolding settle_swap_buy_def accrue_before_buy_def by (auto split del: if_split)
  let ?mints = "program_controls_mint (k_token_out_mint a) (k_mint_authority a)" and ?tout = "m_key (k_token_out_mint a)"
  obtain accrued where sup: "l_supply (sw_ledger w') ?tout = l_supply (sw_ledger w) ?tout +
      accrued + (if ?mints then op_token_out_amount r else 0)"
    and buf: "if ?tout = s_onyc_mint st \<and> ?mints \<and> check_is_initialized e (sw_buffer_accounts w) = Ok True
      then \<exists>b. load_buffer_state e (sw_buffer_accounts w') = Ok b \<and> b_last_accrual_timestamp b = unix_timestamp e \<and>
        b_previous_supply b = l_supply (sw_ledger w') ?tout
      else accrued = 0 \<and> sw_buffer_accounts w' = sw_buffer_accounts w"
    using settle_swap_buy_effect [OF laws fresh pays settle] by blast
  show ?thesis
    using buf sup init inv baseline_stored baseline_uninitialized baseline_supply unfolding tout
    by (cases init) (auto split: if_splits)
qed

lemma baseline_sell:
  assumes laws: "spl_laws spl" and ok: "open_swap_sell e spl st a amount mn w = Ok w'"
    and fresh: "m_supply (ys_token_in_mint a) = l_supply (sw_ledger w) (m_key (ys_token_in_mint a))"
    and inv: "baseline (program_id e) (s_onyc_mint st) (sw_buffer_accounts w) (sw_ledger w)"
  shows "baseline (program_id e) (s_onyc_mint st) (sw_buffer_accounts w') (sw_ledger w')"
proof -
  from ok obtain offer ps u mo ms vo lq tk where
    val: "validate_prop_amm_pair_for_side e st ps (a_key (ys_offer a)) (m_key (ys_token_in_mint a))
      (m_key (ys_token_out_mint a)) Sell = Ok u"
    and settle: "settle_swap_sell e spl st a offer ps mo ms vo lq tk amount mn w = Ok w'"
    unfolding open_swap_sell_def execute_open_swap_sell_def by auto
  have tin: "m_key (ys_token_in_mint a) = s_onyc_mint st" using validate_pair_for_side_Ok(3) [OF val] by simp
  obtain init where init: "check_is_initialized e (sw_buffer_accounts w) = Ok init"
    using settle unfolding settle_swap_sell_def accrue_before_sell_def by (auto split del: if_split)
  let ?burns = "program_controls_mint (ys_token_in_mint a) (ys_mint_authority a)" and ?tin = "m_key (ys_token_in_mint a)"
  obtain accrued and r :: redemption_process_result where
    sup: "int (l_supply (sw_ledger w') ?tin) = int (l_supply (sw_ledger w) ?tin) + int accrued
      - part ?burns (rp_token_in_net_amount r)"
    and buf: "if should_refresh_after_sell st a \<and> check_is_initialized e (sw_buffer_accounts w) = Ok True
      then \<exists>b. load_buffer_state e (sw_buffer_accounts w') = Ok b \<and> b_last_accrual_timestamp b = unix_timestamp e \<and>
        b_previous_supply b = l_supply (sw_ledger w') ?tin
      else accrued = 0 \<and> sw_buffer_accounts w' = sw_buffer_accounts w"
    using settle_swap_sell_effect [OF laws fresh settle] by blast
  have "should_refresh_after_sell st a \<longleftrightarrow> ?burns" by (simp add: should_refresh_after_sell_def tin)
  then show ?thesis
    using buf sup init inv baseline_stored baseline_uninitialized baseline_supply unfolding tin
    by (cases init) (auto split: if_splits)
qed

lemma baseline_redemption:
  assumes laws: "spl_laws spl" and ok: "settle_redemption e spl st a ft rp w = Ok w'"
    and fresh: "m_supply (f_token_in_mint a) = l_supply (rw_ledger w) (m_key (f_token_in_mint a))"
    and inv: "baseline (program_id e) (s_onyc_mint st) (rw_buffer_accounts w) (rw_ledger w)"
  shows "baseline (program_id e) (s_onyc_mint st) (rw_buffer_accounts w') (rw_ledger w')"
proof -
  let ?m = "f_token_in_mint a" and ?au = "pda e [Seed ''mint_authority'']" and ?ba = "rw_buffer_accounts w"
  let ?burns = "program_controls_mint ?m ?au" and ?onyc = "s_onyc_mint st"
  from ok obtain mo init accrual ba L p where init: "check_is_initialized e ?ba = Ok init"
    and acc: "(if (m_key ?m = ?onyc \<and> ?burns) \<and> init
          then and_then (ok_or mo InvalidMainOffer) (\<lambda>canonical_offer.
            and_then (accrue_buffer_from_accounts e spl st ?ba canonical_offer ?m ?au (f_token_in_program a)
                (rw_ledger w)) (\<lambda>(accrual, ba, L). Ok (Some accrual, ba, L)))
          else Ok (None, ?ba, rw_ledger w)) = Ok (accrual, ba, L)"
    and ex: "execute_redemption_operations spl p L = Ok (rw_ledger w')"
    and p: "x_token_in_mint p = ?m" "x_mint_authority_pda p = ?au"
      "x_token_in_net_amount p = rp_token_in_net_amount rp"
    and store: "(case accrual of
            Some accrual \<Rightarrow>
              and_then (ok_or (checked_sub (ar_post_accrual_supply accrual) (rp_token_in_net_amount rp))
                  MathOverflow) (\<lambda>post_burn_supply.
              store_buffer_post_supply e ba post_burn_supply (ar_timestamp accrual))
          | None \<Rightarrow> Ok ba) = Ok (rw_buffer_accounts w')"
    unfolding settle_redemption_def Let_def by (auto split del: if_split)
  have sup: "int (l_supply (rw_ledger w') ?onyc) = int (l_supply L ?onyc)
      - part (?burns \<and> ?onyc = m_key ?m) (rp_token_in_net_amount rp)"
    using redemption_ops_effect(2) [OF laws ex, of ?onyc] by (simp add: p)
  show ?thesis
  proof (cases "(m_key ?m = ?onyc \<and> ?burns) \<and> init")
    case True
    then obtain offer r where r: "accrual = Some r" "accrue_buffer_from_accounts e spl st ?ba offer ?m ?au
        (f_token_in_program a) (rw_ledger w) = Ok (r, ba, L)"
      using acc by auto
    from accrue_buffer_from_accounts_effect [OF laws fresh r(2)] obtain b' where b': "load_buffer_state e ba = Ok b'"
      and post: "ar_post_accrual_supply r = l_supply L (m_key ?m)" by (auto simp: accrual_effect_def)
    then show ?thesis
      using store r(1) sup True by (auto simp: store_buffer_post_supply_def load_buffer_state_Ok
          store_buffer_state_Ok set_buffer_baseline_after_supply_change_def baseline_def part_def)
  next
    case False
    then have n: "accrual = None" "ba = ?ba" "L = rw_ledger w" using acc by auto
    show ?thesis
    proof (cases "m_key ?m = ?onyc \<and> ?burns")
      case True
      then show ?thesis using False n store init baseline_uninitialized by auto
    next
      case False
      then have "l_supply (rw_ledger w') ?onyc = l_supply (rw_ledger w) ?onyc" using sup n by (auto simp: part_def)
      then show ?thesis using n store inv baseline_supply by auto
    qed
  qed
qed

lemma baseline_fulfill:
  assumes laws: "spl_laws spl" and ok: "fulfill_redemption_request e spl st a i amount w = Ok w'"
    and fresh: "m_supply (f_token_in_mint a) = l_supply (rw_ledger w) (m_key (f_token_in_mint a))"
    and inv: "baseline (program_id e) (s_onyc_mint st) (rw_buffer_accounts w) (rw_ledger w)"
  shows "baseline (program_id e) (s_onyc_mint st) (rw_buffer_accounts w') (rw_ledger w')"
proof -
  from ok obtain offer r ft ro rp w1 where settle: "settle_redemption e spl st a ft rp w = Ok w1"
    and recd: "record_fulfillment amount r ro w1 = Ok w'"
    unfolding fulfill_redemption_request_def execute_fulfill_redemption_request_def by auto
  from recd have "rw_buffer_accounts w' = rw_buffer_accounts w1" "rw_ledger w' = rw_ledger w1"
    unfolding record_fulfillment_def by auto
  then show ?thesis using baseline_redemption [OF laws settle fresh inv] by simp
qed

text \<open>Instructions that leave the ONyc supply alone.\<close>

lemma supply_legacy_takes:
  assumes laws: "spl_laws spl" and k: "k \<noteq> m_key (k_token_in_mint a)" "k \<noteq> m_key (k_token_out_mint a)"
  shows "take_offer e spl sv st a amount approval L = Ok L' \<Longrightarrow> l_supply L' k = l_supply L k"
proof -
  assume "take_offer e spl sv st a amount approval L = Ok L'"
  then obtain r boss_in user_out where "execute_token_operations spl (offer_order st a r (k_token_out_mint a) (k_user a)
      (t_key (k_user_token_in_account a)) boss_in None 0 boss_in user_out) L = Ok L'"
    unfolding take_offer_def by auto
  from offer_order_effect(2) [OF laws refl refl this, of k] k show ?thesis by simp
qed

lemma supply_legacy_permissionless:
  assumes laws: "spl_laws spl" and k: "k \<noteq> m_key (k_token_in_mint a)" "k \<noteq> m_key (k_token_out_mint a)"
    and ok: "take_offer_permissionless e spl st a amount approval L = Ok L'"
  shows "l_supply L' k = l_supply L k"
proof -
  from laws ok obtain offer r where
    core: "process_offer_core e offer amount (k_token_in_mint a) (k_token_out_mint a) (o_fee_basis_points offer) = Ok r"
    and route: "route_permissionless spl st a r (k_token_out_mint a) amount
      (t_key (kp_permissionless_token_in_account a)) (t_key (kp_boss_token_in_account a))
      (t_key (kp_boss_token_in_account a)) (t_key (kp_permissionless_token_out_account a)) None 0
      (t_key (k_user_token_out_account a)) L = Ok L'"
    by (rule take_offer_permissionless_effect)
  from route_permissionless_effect(2) [OF laws refl refl process_offer_core_pays [OF core] route, of k] k
  show ?thesis by simp
qed

lemma supply_vaults:
  assumes laws: "spl_laws spl"
  shows "offer_vault_deposit e spl st a amount L = Ok L' \<Longrightarrow> l_supply L' = l_supply L"
    and "offer_vault_withdraw e spl st a amount L = Ok L' \<Longrightarrow> l_supply L' = l_supply L"
    and "redemption_vault_deposit e spl st a amount L = Ok L' \<Longrightarrow> l_supply L' = l_supply L"
    and "redemption_vault_withdraw e spl st a amount L = Ok L' \<Longrightarrow> l_supply L' = l_supply L"
    and "deposit_reserve_vault e spl st ba a amount L = Ok L' \<Longrightarrow> l_supply L' = l_supply L"
    and "withdraw_reserve_vault e spl st ba a amount L = Ok L' \<Longrightarrow> l_supply L' = l_supply L"
    and "withdraw_configurable_vault e spl st wa kind amount L = Ok L' \<Longrightarrow> l_supply L' = l_supply L"
proof -
  have t: "transfer_tokens spl m src dst auth n L = Ok L' \<Longrightarrow> l_supply L' = l_supply L" for m src dst auth n
    by (rule transfer_tokens_effect(2) [OF laws])
  have d: "vault_deposit e spl st seeds a amount L = Ok L' \<Longrightarrow> l_supply L' = l_supply L"
    and w: "vault_withdraw e spl st seeds a amount L = Ok L' \<Longrightarrow> l_supply L' = l_supply L" for seeds
    by (auto dest!: vault_deposit_Ok(2) vault_withdraw_Ok(3) intro: t)
  show "offer_vault_deposit e spl st a amount L = Ok L' \<Longrightarrow> l_supply L' = l_supply L"
    and "offer_vault_withdraw e spl st a amount L = Ok L' \<Longrightarrow> l_supply L' = l_supply L"
    and "redemption_vault_deposit e spl st a amount L = Ok L' \<Longrightarrow> l_supply L' = l_supply L"
    and "redemption_vault_withdraw e spl st a amount L = Ok L' \<Longrightarrow> l_supply L' = l_supply L"
    and "deposit_reserve_vault e spl st ba a amount L = Ok L' \<Longrightarrow> l_supply L' = l_supply L"
    and "withdraw_reserve_vault e spl st ba a amount L = Ok L' \<Longrightarrow> l_supply L' = l_supply L"
    by (auto simp: offer_vault_deposit_def offer_vault_withdraw_def redemption_vault_deposit_def
        redemption_vault_withdraw_def deposit_reserve_vault_def withdraw_reserve_vault_def intro: d w)
  show "withdraw_configurable_vault e spl st wa kind amount L = Ok L' \<Longrightarrow> l_supply L' = l_supply L"
    using t by (elim withdraw_configurable_vault_Ok) blast
qed

lemma requests_keep_buffer:
  assumes laws: "spl_laws spl"
  shows "create_redemption_request e spl st oa redeemer m prog amount w = Ok w' \<Longrightarrow>
      rw_buffer_accounts w' = rw_buffer_accounts w \<and> l_supply (rw_ledger w') = l_supply (rw_ledger w)"
    and "cancel_redemption_request e spl st signer redeemer worker m prog t i w = Ok w' \<Longrightarrow>
      rw_buffer_accounts w' = rw_buffer_accounts w \<and> l_supply (rw_ledger w') = l_supply (rw_ledger w)"
  by (auto simp: create_redemption_request_def cancel_redemption_request_def Let_def
      dest: transfer_tokens_effect(2) [OF laws])

section \<open>Instructions that keep the baseline\<close>

text \<open>
  The first versions of the instructions that take an offer do not know the BUFFER: they must not
  exchange ONyc. No offer may take ONyc as payment, and the ONyc mint must not be replaced.
\<close>

fun keeps_books :: "pubkey \<Rightarrow> instruction \<Rightarrow> bool" where
  "keeps_books onyc (Govern (SetOnycMint k m)) \<longleftrightarrow> False"
| "keeps_books onyc (TakeOffer sv a amount approval) \<longleftrightarrow>
     onyc \<noteq> m_key (k_token_in_mint a) \<and> onyc \<noteq> m_key (k_token_out_mint a)"
| "keeps_books onyc (TakeOfferPermissionless a amount approval) \<longleftrightarrow>
     onyc \<noteq> m_key (k_token_in_mint a) \<and> onyc \<noteq> m_key (k_token_out_mint a)"
| "keeps_books onyc (TakeOfferV2 sv a amount approval) \<longleftrightarrow>
     m_key (k_token_in_mint a) \<noteq> onyc \<and> m_key (k_token_in_mint a) \<noteq> m_key (k_token_out_mint a)"
| "keeps_books onyc (TakeOfferPermissionlessV2 a amount) \<longleftrightarrow>
     m_key (k_token_in_mint a) \<noteq> onyc \<and> m_key (k_token_in_mint a) \<noteq> m_key (k_token_out_mint a)"
| "keeps_books onyc _ \<longleftrightarrow> True"

definition books :: "env \<Rightarrow> pubkey \<Rightarrow> protocol \<Rightarrow> bool" where
  "books env onyc p \<longleftrightarrow> s_onyc_mint (pw_state p) = onyc \<and>
     baseline (program_id env) onyc (pw_buffer_accounts p) (pw_ledger p)"

lemma books_frame:
  "books env onyc (p\<lparr>pw_pair := pair\<rparr>) = books env onyc p"
  "books env onyc (p\<lparr>pw_redemption_offer := ro\<rparr>) = books env onyc p"
  "books env onyc (p\<lparr>pw_vaults := vs\<rparr>) = books env onyc p"
  by (simp_all add: books_def)

lemma exec_gov_onyc: "exec_gov c s = Ok s' \<Longrightarrow> keeps_books onyc (Govern c) \<Longrightarrow> s_onyc_mint s' = s_onyc_mint s"
  by (cases c) (auto simp: gov_op_defs require_def Let_def split: if_splits option.splits)

text \<open>The families of instructions that run the BUFFER directly and that exchange tokens.\<close>

fun runs_buffer :: "instruction \<Rightarrow> bool" where
  "runs_buffer (SettleBuffer worker m prog mo eb) = True"
| "runs_buffer (SetBufferGrossApr boss m prog mo eb apr) = True"
| "runs_buffer (SetBufferFeeConfig boss m prog mo eb mf pf en) = True"
| "runs_buffer (BurnForNavIncrease boss m prog mo mv pv eb adj) = True"
| "runs_buffer (MintTo a amount) = True"
| "runs_buffer _ = False"

fun exchanges :: "instruction \<Rightarrow> bool" where
  "exchanges (TakeOffer sv a amount approval) = True"
| "exchanges (TakeOfferV2 sv a amount approval) = True"
| "exchanges (TakeOfferPermissionless a amount approval) = True"
| "exchanges (TakeOfferPermissionlessV2 a amount) = True"
| "exchanges (OpenSwapBuy a amount minimum_out) = True"
| "exchanges (OpenSwapSell a amount minimum_out) = True"
| "exchanges _ = False"

lemma books_Ok:
  assumes "books env onyc p"
  shows "s_onyc_mint (pw_state p) = onyc"
    and "baseline (program_id (env\<lparr>unix_timestamp := now\<rparr>)) (s_onyc_mint (pw_state p)) (pw_buffer_accounts p) (pw_ledger p)"
  using assms by (simp_all add: books_def)

lemma books_put_ledger:
  "books env onyc p \<Longrightarrow> l_supply L' onyc = l_supply (pw_ledger p) onyc \<Longrightarrow> books env onyc (put_ledger p L')"
  by (auto simp: books_def put_ledger_def intro: baseline_supply)

lemma books_buffer_step:
  assumes laws: "spl_laws spl" and family: "runs_buffer ix" and inv: "books env onyc p"
    and ok: "exec_protocol spl env (now, ix) p = Ok p'"
  shows "books env onyc p'"
proof -
  note onyc = books_Ok(1) [OF inv]
  have buffer: "books env onyc (put_buffer p w)" if "exec_buffer spl m c (buffer_view p) = Ok w" "m_key m = onyc" for m c w
    using baseline_buffer [OF laws that] onyc by (simp add: books_def put_buffer_def)
  show ?thesis
  proof (cases ix)
    case (SettleBuffer worker m prog mo eb)
    then show ?thesis
      using ok buffer [of m "Settle (env\<lparr>unix_timestamp := now\<rparr>) (pw_state p) worker prog mo eb"] onyc
      by (auto simp: update_Ok Let_def buffer_view_def settle_buffer_def)
  next
    case (SetBufferGrossApr boss m prog mo eb apr)
    then show ?thesis
      using ok buffer [of m "SetGrossApr (env\<lparr>unix_timestamp := now\<rparr>) (pw_state p) boss prog mo eb apr"] onyc
      by (auto simp: update_Ok Let_def buffer_view_def set_buffer_gross_apr_def check_buffer_config_accounts_def)
  next
    case (SetBufferFeeConfig boss m prog mo eb mf pf en)
    then show ?thesis
      using ok buffer [of m "SetFeeConfig (env\<lparr>unix_timestamp := now\<rparr>) (pw_state p) boss prog mo eb mf pf en"] onyc
      by (auto simp: update_Ok Let_def buffer_view_def set_buffer_fee_config_def check_buffer_config_accounts_def)
  next
    case (BurnForNavIncrease boss m prog mo mv pv eb adj)
    then show ?thesis
      using ok buffer [of m "BurnForNav (env\<lparr>unix_timestamp := now\<rparr>) (pw_state p) boss prog mo mv pv eb adj"] onyc
      by (auto simp: update_Ok Let_def buffer_view_def burn_for_nav_increase_def check_burn_accounts_def)
  next
    case (MintTo a amount)
    then show ?thesis
      using ok baseline_mint_to [OF laws, of "env\<lparr>unix_timestamp := now\<rparr>" "pw_state p"] onyc
      by (auto simp: update_Ok Let_def buffer_view_def put_buffer_def books_def)
  qed (use family in simp_all)
qed

lemma books_exchange_step:
  assumes laws: "spl_laws spl" and family: "exchanges ix" and keeps: "keeps_books onyc ix"
    and inv: "books env onyc p" and ok: "exec_protocol spl env (now, ix) p = Ok p'"
  shows "books env onyc p'"
proof (cases ix)
  case (TakeOffer sv a amount approval)
  then obtain L' where L': "take_offer (env\<lparr>unix_timestamp := now\<rparr>) spl sv (pw_state p)
      (a\<lparr>k_token_in_mint := reload (pw_ledger p) (k_token_in_mint a),
        k_token_out_mint := reload (pw_ledger p) (k_token_out_mint a)\<rparr>) amount approval (pw_ledger p) = Ok L'"
    "p' = put_ledger p L'"
    using ok by (auto simp: update_Ok Let_def)
  show ?thesis unfolding L'(2)
    by (rule books_put_ledger [OF inv], rule supply_legacy_takes [OF laws _ _ L'(1)]) (use keeps TakeOffer in simp_all)
next
  case (TakeOfferV2 sv a amount approval)
  then show ?thesis
    using ok keeps baseline_take_v2 [OF laws, of "env\<lparr>unix_timestamp := now\<rparr>" _ "pw_state p"] books_Ok [OF inv]
    by (auto simp: update_Ok Let_def offer_view_def put_offer_def books_def)
next
  case (TakeOfferPermissionless a amount approval)
  then obtain L' where L': "take_offer_permissionless (env\<lparr>unix_timestamp := now\<rparr>) spl (pw_state p)
      (a\<lparr>k_token_in_mint := reload (pw_ledger p) (k_token_in_mint a),
        k_token_out_mint := reload (pw_ledger p) (k_token_out_mint a)\<rparr>) amount approval (pw_ledger p) = Ok L'"
    "p' = put_ledger p L'"
    using ok by (auto simp: update_Ok Let_def)
  show ?thesis unfolding L'(2)
    by (rule books_put_ledger [OF inv], rule supply_legacy_permissionless [OF laws _ _ L'(1)]) (use keeps TakeOfferPermissionless in simp_all)
next
  case (TakeOfferPermissionlessV2 a amount)
  then show ?thesis
    using ok keeps baseline_permissionless_v2 [OF laws, of "env\<lparr>unix_timestamp := now\<rparr>" "pw_state p"] books_Ok [OF inv]
    by (auto simp: update_Ok Let_def offer_view_def put_offer_def books_def)
next
  case (OpenSwapBuy a amount mn)
  then show ?thesis
    using ok baseline_buy [OF laws, of "env\<lparr>unix_timestamp := now\<rparr>" "pw_state p"] books_Ok [OF inv]
    by (auto simp: update_Ok Let_def swap_view_def put_swap_def books_def)
next
  case (OpenSwapSell a amount mn)
  then show ?thesis
    using ok baseline_sell [OF laws, of "env\<lparr>unix_timestamp := now\<rparr>" "pw_state p"] books_Ok [OF inv]
    by (auto simp: update_Ok Let_def swap_view_def put_swap_def books_def)
qed (use family in simp_all)

lemma books_step:
  assumes laws: "spl_laws spl" and keeps: "keeps_books onyc ix" and inv: "books env onyc p"
    and ok: "exec_protocol spl env (now, ix) p = Ok p'"
  shows "books env onyc p'"
proof -
  note same = books_put_ledger [OF inv] and buffer = books_buffer_step [OF laws _ inv ok]
    and exchange = books_exchange_step [OF laws _ keeps inv ok]
  show ?thesis
  proof (cases ix)
    case (Govern c)
    then show ?thesis using ok keeps inv exec_gov_onyc by (auto simp: update_Ok books_def)
  next
    case (CreateRedemptionRequest oa redeemer m prog amount)
    then show ?thesis
      using ok inv requests_keep_buffer(1) [OF laws]
      by (fastforce simp: update_Ok Let_def redemption_view_def put_redemption_def books_def intro: baseline_supply)
  next
    case (CancelRedemptionRequest signer redeemer worker m prog t i)
    then show ?thesis
      using ok inv requests_keep_buffer(2) [OF laws]
      by (fastforce simp: update_Ok Let_def redemption_view_def put_redemption_def books_def intro: baseline_supply)
  next
    case (FulfillRedemptionRequest a i amount)
    then show ?thesis
      using ok baseline_fulfill [OF laws, of "env\<lparr>unix_timestamp := now\<rparr>" "pw_state p"] books_Ok [OF inv]
      by (auto simp: update_Ok Let_def redemption_view_def put_redemption_def books_def)
  qed (use ok inv buffer exchange in
    \<open>auto simp: update_Ok Let_def books_frame intro!: same dest!: supply_vaults [OF laws]\<close>)
qed

interpretation bookkeeping: guarded_machine "exec_protocol spl env" "\<lambda>p. spl_laws spl \<and> books env onyc p"
    "\<lambda>(now, ix). keeps_books onyc ix" for spl env onyc
  by unfold_locales (auto intro: books_step simp del: exec_protocol.simps)

text \<open>
  Whatever the interleaving of BUFFER settlements and configuration, NAV burns, mints, offer
  takes, swaps, redemptions and vault movements, failing ones included, the BUFFER's baseline is
  the actual ONyc supply (or not yet set) afterwards: no accrual is computed from a supply that
  another instruction has changed in the meantime. Excluded are the first versions of the take
  instructions on ONyc, offers that take ONyc as payment, and a replacement of the ONyc mint.
\<close>

theorem baseline_is_actual_supply:
  assumes "spl_laws spl" and "s_onyc_mint (pw_state p) = onyc"
    and "baseline (program_id env) onyc (pw_buffer_accounts p) (pw_ledger p)"
    and "list_all (\<lambda>(now, ix). keeps_books onyc ix) ixs"
  defines "p' \<equiv> run_ops (exec_protocol spl env) ixs p"
  shows "baseline (program_id env) onyc (pw_buffer_accounts p') (pw_ledger p')"
  using bookkeeping.guarded_run_inv [OF assms(4), of spl env p] assms(1-3) unfolding p'_def by (simp add: books_def)

lemma sample_settlement_ok: "\<exists>p'. exec_protocol plain_token_program sample_env sample_settlement sample_protocol = Ok p'"
proof -
  have env: "sample_env\<lparr>unix_timestamp := 5000\<rparr> = sample_env" by (simp add: sample_env_def)
  have L: "reload (w_ledger sample_world) sample_onyc = sample_onyc"
    by (simp add: reload_def sample_world_def sample_onyc_def sample_mint_def)
  obtain acc ba' where acc: "accrue_buffer_from_accounts sample_env plain_token_program sample_config
      (w_buffer_accounts sample_world) sample_offer sample_onyc 104 9 (w_ledger sample_world) =
      Ok (acc, ba', w_ledger sample_world)"
    using sample_accrual_from_accounts by blast
  have "m_mint_authority sample_onyc = Some 104" "m_key sample_onyc = 22" "s_worker sample_config = 8"
    "s_main_offer sample_config = 60"
    by (simp_all add: sample_onyc_def sample_mint_def sample_config_def)
  then show ?thesis
    by (simp add: sample_settlement_def sample_protocol_def env L update_def settle_buffer_def buffer_view_def
        accrue_and_refresh_def acc sample_refresh sample_pda_def default_pubkey_def Let_def cong: eval_congs)
qed

theorem baseline_is_actual_supply_witness:
  "\<exists>p'. exec_protocol plain_token_program sample_env sample_settlement sample_protocol = Ok p' \<and>
     baseline 50 22 (pw_buffer_accounts p') (pw_ledger p')"
proof -
  obtain p' where p': "exec_protocol plain_token_program sample_env sample_settlement sample_protocol = Ok p'"
    using sample_settlement_ok by blast
  have "s_onyc_mint (pw_state sample_protocol) = 22" by (simp add: sample_protocol_def)
  moreover have "baseline (program_id sample_env) 22 (pw_buffer_accounts sample_protocol) (pw_ledger sample_protocol)"
    by (simp add: sample_protocol_def baseline_def sample_world_def)
  moreover have "list_all (\<lambda>(now, ix). keeps_books 22 ix) [sample_settlement]"
    by (simp add: sample_settlement_def)
  ultimately have "baseline (program_id sample_env) 22
      (pw_buffer_accounts (run_ops (exec_protocol plain_token_program sample_env) [sample_settlement] sample_protocol))
      (pw_ledger (run_ops (exec_protocol plain_token_program sample_env) [sample_settlement] sample_protocol))"
    by (rule baseline_is_actual_supply [OF plain_token_program_laws])
  moreover have "run_ops (exec_protocol plain_token_program sample_env) [sample_settlement] sample_protocol = p'"
    by (simp add: p' del: exec_protocol.simps)
  ultimately show ?thesis using p' by simp
qed

text \<open>
  Interleaving keeps every component well-formed. In every sequence of instructions at
  times of the chain's clock, failing ones included, the governance state stays well-formed, the
  total of requested redemptions stays the sum of what the open requests have left, and the Prop
  AMM pair stays within its limits and integer types, so that the sell curve stays computable.
\<close>

theorem protocol_stays_well_formed:
  fixes spl env
  assumes "state_wf (pw_state p)" and "redemption_wf (redemption_view p)" and "pair_account_ok (pw_pair p)"
    and "list_all (\<lambda>(now, ix). clock_ok now \<and> typed_args ix) ixs"
  defines "p' \<equiv> run_ops (exec_protocol spl env) ixs p"
  shows "state_wf (pw_state p') \<and> redemption_wf (redemption_view p') \<and> pair_account_ok (pw_pair p')"
  unfolding p'_def
  using governed.guarded_run_inv [of ixs p spl env] requests.guarded_run_inv [of ixs p spl env]
    pair.guarded_run_inv [of ixs p spl env] assms(1-4) by (simp add: list_all_iff)

theorem protocol_stays_well_formed_witness:
  "pair_account_ok (pw_pair (run_ops (exec_protocol plain_token_program sample_env)
     [(5000, OpenSwapSell sample_sell 1000 900), (6000, UpdateRedemptionOfferFee 7 30), sample_settlement]
     sample_protocol))"
proof -
  have "state_wf (pw_state sample_protocol)"
    by (simp add: sample_protocol_def sample_config_def zero_state_def state_wf_def live_admins_def
        default_pubkey_def const_defs)
  moreover have "redemption_wf (redemption_view sample_protocol)"
    by (simp add: sample_protocol_def redemption_view_def redemption_wf_def sample_redemption_world_def
        sample_redemption_offer_def sample_request_def Let_def const_defs)
  moreover have "pair_account_ok (pw_pair sample_protocol)"
    by (simp add: sample_protocol_def sample_pair_account_def pair_account_ok_def sample_pair_def default_pair_state_def
        pair_config_ok_def pair_typed_def const_defs int_defs)
  moreover have "list_all (\<lambda>(now, ix). clock_ok now \<and> typed_args ix)
     [(5000, OpenSwapSell sample_sell 1000 900), (6000, UpdateRedemptionOfferFee 7 30), sample_settlement]"
    by (simp add: clock_ok_def sample_settlement_def int_defs)
  ultimately show ?thesis by (rule protocol_stays_well_formed [THEN conjunct2, THEN conjunct2])
qed

end
