(* ===== verification/Entry_Points.thy ===== *)
theory Entry_Points
  imports Protocol
begin

text \<open>
  The whole program as its callers see it: every entry point of \<open>lib.rs\<close> on the accounts that
  exist on the chain. Where \<open>Protocol\<close> lets a caller supply the accounts an instruction only reads,
  here they are looked up by address among the accounts the program has stored: offers by their
  address, mints with their supply and authority, the excluded balance, the redemption offer and
  the configurable vaults. Every part of the state starts absent, as on a new deployment, and
  comes into being through its own entry point.

  The machine follows one redemption offer and one Prop AMM pair. Queries change nothing and
  return their value.
\<close>

section \<open>Stored accounts\<close>

record program =
  pg_state_exists :: bool
  pg_core :: protocol
  pg_offers :: "pubkey \<Rightarrow> offer account"
  pg_mints :: "pubkey \<Rightarrow> mint"
  pg_excluded_accounts :: "circulating_supply_excluded_accounts account"
  pg_excluded_balance :: "circulating_supply_excluded_balance account"
  pg_permissionless :: "nat list account"
  pg_redemption_exists :: bool

text \<open>
  What the entry points take from outside the repository: the token program, its
  \<open>set_authority\<close>, the environment, the loader that owns the program with the address of its
  program data, and the bytes into which Anchor serializes a state account.
\<close>

record runtime =
  rt_spl :: spl_token
  rt_set_authority :: set_authority
  rt_env :: env
  rt_bpf_loader :: pubkey
  rt_program_data :: pubkey
  rt_state_bytes :: "state \<Rightarrow> u8 list"

text \<open>
  Serialization writes the boss first, after the eight bytes of the discriminator. A key has 32
  bytes.
\<close>

definition serializes_boss :: "runtime \<Rightarrow> bool" where
  "serializes_boss rt \<longleftrightarrow> (\<forall>s. 40 \<le> length (rt_state_bytes rt s) \<and>
     (s_boss s < 256 ^ 32 \<longrightarrow> pubkey_of_bytes (take 32 (drop 8 (rt_state_bytes rt s))) = s_boss s))"

definition runtime_at :: "runtime \<Rightarrow> i64 \<Rightarrow> env" where
  "runtime_at rt now = (rt_env rt)\<lparr>unix_timestamp := now\<rparr>"

definition offer_at :: "program \<Rightarrow> offer account \<Rightarrow> offer account" where
  "offer_at P account = (pg_offers P (a_key account))\<lparr>a_key := a_key account\<rparr>"

definition mint_at :: "program \<Rightarrow> mint \<Rightarrow> mint" where
  "mint_at P m = reload (pw_ledger (pg_core P)) ((pg_mints P (m_key m))\<lparr>m_key := m_key m\<rparr>)"

definition excluded_balance_at ::
  "program \<Rightarrow> circulating_supply_excluded_balance account \<Rightarrow> circulating_supply_excluded_balance account" where
  "excluded_balance_at P account =
     (if a_key account = a_key (pg_excluded_balance P) then pg_excluded_balance P else account)"

definition redemption_offer_at :: "env \<Rightarrow> program \<Rightarrow> redemption_offer account \<Rightarrow> redemption_offer account" where
  "redemption_offer_at e P account =
     (if a_key account \<noteq> pw_redemption_key (pg_core P) then account
      else if pg_redemption_exists P
      then account\<lparr>a_owner := program_id e, a_data := AccountData (pw_redemption_offer (pg_core P))\<rparr>
      else account\<lparr>a_owner := system_program_id e, a_data := NoData\<rparr>)"

definition vault_at :: "env \<Rightarrow> program \<Rightarrow> configurable_vault_kind \<Rightarrow> configurable_vault result" where
  "vault_at e P kind =
     load_pda_account (pw_vaults (pg_core P) kind) (program_id e) AnchorConstraint AnchorConstraint"

text \<open>Anchor's \<open>init_if_needed\<close>: a new account has zero bytes.\<close>

definition init_if_needed :: "env \<Rightarrow> 'a \<Rightarrow> 'a account \<Rightarrow> 'a result" where
  "init_if_needed e zero account =
     (if a_owner account = system_program_id e
      then and_then (create_account e (a_key account)) (\<lambda>_. Ok zero)
      else load_pda_account account (program_id e) AnchorConstraint AnchorConstraint)"

definition init_token_account :: "env \<Rightarrow> token_info \<Rightarrow> pubkey \<Rightarrow> pubkey \<Rightarrow> pubkey \<Rightarrow> token_info result" where
  "init_token_account e t authority mint_key token_program =
     and_then (get_or_create_associated_token_account e t authority mint_key token_program AnchorConstraint)
       (\<lambda>_. Ok (t\<lparr>t_owner := token_program, t_is_token := True\<rparr>))"

section \<open>Entry points on existing accounts\<close>

text \<open>The accounts of an instruction, replaced by what the chain stores at their addresses.\<close>

definition bind_vault :: "program \<Rightarrow> vault_accounts \<Rightarrow> vault_accounts" where
  "bind_vault P a = a\<lparr>va_token_mint := mint_at P (va_token_mint a)\<rparr>"

fun bind_vaults :: "program \<Rightarrow> instruction \<Rightarrow> instruction" where
  "bind_vaults P (OfferVaultDeposit a amount) = OfferVaultDeposit (bind_vault P a) amount"
| "bind_vaults P (OfferVaultWithdraw a amount) = OfferVaultWithdraw (bind_vault P a) amount"
| "bind_vaults P (RedemptionVaultDeposit a amount) = RedemptionVaultDeposit (bind_vault P a) amount"
| "bind_vaults P (RedemptionVaultWithdraw a amount) = RedemptionVaultWithdraw (bind_vault P a) amount"
| "bind_vaults P (DepositReserveVault a amount) = DepositReserveVault (bind_vault P a) amount"
| "bind_vaults P (WithdrawReserveVault a amount) = WithdrawReserveVault (bind_vault P a) amount"
| "bind_vaults P (WithdrawConfigurableVault a kind amount) =
     WithdrawConfigurableVault (a\<lparr>wv_mint := mint_at P (wv_mint a)\<rparr>) kind amount"
| "bind_vaults P ix = ix"

definition bind_take :: "program \<Rightarrow> 'a take_accounts_scheme \<Rightarrow> 'a take_accounts_scheme" where
  "bind_take P a = a\<lparr>k_offer := offer_at P (k_offer a), k_token_in_mint := mint_at P (k_token_in_mint a),
     k_token_out_mint := mint_at P (k_token_out_mint a)\<rparr>"

fun bind_takes :: "env \<Rightarrow> program \<Rightarrow> instruction \<Rightarrow> instruction" where
  "bind_takes e P (TakeOffer sv a amount approval) = TakeOffer sv (bind_take P a) amount approval"
| "bind_takes e P (TakeOfferV2 sv a amount approval) =
     TakeOfferV2 sv ((bind_take P a)\<lparr>k2_redemption_offer := redemption_offer_at e P (k2_redemption_offer a),
       k2_excluded_balance := excluded_balance_at P (k2_excluded_balance a),
       k2_main_offer := offer_at P (k2_main_offer a)\<rparr>) amount approval"
| "bind_takes e P (TakeOfferPermissionless a amount approval) = TakeOfferPermissionless (bind_take P a) amount approval"
| "bind_takes e P (TakeOfferPermissionlessV2 a amount) =
     TakeOfferPermissionlessV2 ((bind_take P a)\<lparr>kp2_redemption_offer :=
         redemption_offer_at e P (kp2_redemption_offer a),
       kp2_excluded_balance := excluded_balance_at P (kp2_excluded_balance a),
       kp2_main_offer := offer_at P (kp2_main_offer a)\<rparr>) amount"
| "bind_takes e P ix = ix"

fun bind_swaps :: "env \<Rightarrow> program \<Rightarrow> instruction \<Rightarrow> instruction" where
  "bind_swaps e P (OpenSwapBuy a amount minimum_out) =
     OpenSwapBuy ((bind_take P a)\<lparr>yb_redemption_offer := redemption_offer_at e P (yb_redemption_offer a),
       yb_excluded_balance := excluded_balance_at P (yb_excluded_balance a),
       yb_main_offer := offer_at P (yb_main_offer a)\<rparr>) amount minimum_out"
| "bind_swaps e P (OpenSwapSell a amount minimum_out) =
     OpenSwapSell (a\<lparr>ys_offer := offer_at P (ys_offer a),
       ys_redemption_offer := redemption_offer_at e P (ys_redemption_offer a),
       ys_token_in_mint := mint_at P (ys_token_in_mint a),
       ys_token_out_mint := mint_at P (ys_token_out_mint a),
       ys_excluded_balance := excluded_balance_at P (ys_excluded_balance a),
       ys_main_offer := offer_at P (ys_main_offer a)\<rparr>) amount minimum_out"
| "bind_swaps e P (ConfigurePropAmm a c) =
     ConfigurePropAmm (a\<lparr>ca_offer := offer_at P (ca_offer a)\<rparr>) c"
| "bind_swaps e P ix = ix"

text \<open>Only the NAV burn reads the two fee vaults; an account that does not load fails the call.\<close>

fun bind_buffer :: "env \<Rightarrow> program \<Rightarrow> instruction \<Rightarrow> instruction result" where
  "bind_buffer e P (SettleBuffer worker m prog mo eb) =
     Ok (SettleBuffer worker (mint_at P m) prog (offer_at P mo) (excluded_balance_at P eb))"
| "bind_buffer e P (SetBufferGrossApr boss m prog mo eb apr) =
     Ok (SetBufferGrossApr boss (mint_at P m) prog (offer_at P mo) (excluded_balance_at P eb) apr)"
| "bind_buffer e P (SetBufferFeeConfig boss m prog mo eb mf pf en) =
     Ok (SetBufferFeeConfig boss (mint_at P m) prog (offer_at P mo) (excluded_balance_at P eb) mf pf en)"
| "bind_buffer e P (BurnForNavIncrease boss m prog mo _ _ eb adj) =
     and_then (vault_at e P ManagementFee) (\<lambda>mv.
     and_then (vault_at e P PerformanceFee) (\<lambda>pv.
     Ok (BurnForNavIncrease boss (mint_at P m) prog (offer_at P mo) mv pv (excluded_balance_at P eb) adj)))"
| "bind_buffer e P (MintTo a amount) =
     Ok (MintTo (a\<lparr>mt_onyc_mint := mint_at P (mt_onyc_mint a), mt_main_offer := offer_at P (mt_main_offer a),
       mt_excluded_balance := excluded_balance_at P (mt_excluded_balance a)\<rparr>) amount)"
| "bind_buffer e P ix = Ok ix"

fun bind_redemptions :: "program \<Rightarrow> instruction \<Rightarrow> instruction result" where
  "bind_redemptions P (CreateRedemptionRequest oa redeemer m prog amount) =
     require (pg_redemption_exists P) AnchorConstraint (
     Ok (CreateRedemptionRequest (offer_at P oa) redeemer (mint_at P m) prog amount))"
| "bind_redemptions P (CancelRedemptionRequest signer redeemer worker m prog t i) =
     require (pg_redemption_exists P) AnchorConstraint (
     Ok (CancelRedemptionRequest signer redeemer worker (mint_at P m) prog t i))"
| "bind_redemptions P (FulfillRedemptionRequest a i amount) =
     require (pg_redemption_exists P) AnchorConstraint (
     Ok (FulfillRedemptionRequest (a\<lparr>f_offer := offer_at P (f_offer a),
       f_token_in_mint := mint_at P (f_token_in_mint a), f_token_out_mint := mint_at P (f_token_out_mint a),
       f_main_offer := offer_at P (f_main_offer a),
       f_excluded_balance := excluded_balance_at P (f_excluded_balance a)\<rparr>) i amount))"
| "bind_redemptions P (UpdateRedemptionOfferFee boss fee) =
     require (pg_redemption_exists P) AnchorConstraint (Ok (UpdateRedemptionOfferFee boss fee))"
| "bind_redemptions P (UpdateRedemptionOfferSellFee boss fee) =
     require (pg_redemption_exists P) AnchorConstraint (Ok (UpdateRedemptionOfferSellFee boss fee))"
| "bind_redemptions P (UpdateRedemptionOfferVaultTarget boss target) =
     require (pg_redemption_exists P) AnchorConstraint (Ok (UpdateRedemptionOfferVaultTarget boss target))"
| "bind_redemptions P (SetRedemptionOfferDisabled signer disabled) =
     require (pg_redemption_exists P) AnchorConstraint (Ok (SetRedemptionOfferDisabled signer disabled))"
| "bind_redemptions P ix = Ok ix"

text \<open>\<open>set_main_offer\<close> reads the mint from the offer it is given.\<close>

fun bind_governance :: "env \<Rightarrow> program \<Rightarrow> instruction \<Rightarrow> instruction result" where
  "bind_governance e P (Govern (SetMainOffer signer offer_key _)) =
     and_then (load_pda_account (pg_offers P offer_key) (program_id e) AnchorConstraint AnchorConstraint)
       (\<lambda>offer. Ok (Govern (SetMainOffer signer offer_key (o_token_out_mint offer))))"
| "bind_governance e P ix = Ok ix"

definition bind_accounts :: "env \<Rightarrow> program \<Rightarrow> instruction \<Rightarrow> instruction result" where
  "bind_accounts e P ix =
     and_then (bind_governance e P ix) (\<lambda>ix.
     and_then (bind_buffer e P ix) (\<lambda>ix.
     bind_redemptions P (bind_swaps e P (bind_takes e P (bind_vaults P ix)))))"

section \<open>Entry points that create and administer accounts\<close>

datatype entry =
    Initialize pubkey "program_data_account option" pubkey pubkey u8
  | InitializePermissionlessAuthority pubkey "nat list"
  | CloseState pubkey u64 u64
  | MakeOffer offer_accounts u8 u16 bool bool
  | ChangeOffer pubkey offer_op
  | TransferMintAuthorityToProgram pubkey mint
  | TransferMintAuthorityToBoss pubkey mint
  | InitializeBuffer pubkey mint "offer account" pubkey
  | MakeRedemptionOffer pubkey mint pubkey mint u16 u16 "redemption_offer option"
  | RefreshMarketStats "offer account" mint mint "circulating_supply_excluded_balance account"
  | SetExcludedAccounts pubkey "pubkey list"
  | UpdateExcludedBalance pubkey mint pubkey "excluded_token_account list"
  | Existing instruction

text \<open>
  \<open>initialize\<close> and \<open>close_state\<close> are the only entry points that do without a state account. The
  raw bytes of the state are what Anchor has written.
\<close>

definition entry_initialize ::
  "runtime \<Rightarrow> pubkey \<Rightarrow> program_data_account option \<Rightarrow> pubkey \<Rightarrow> pubkey \<Rightarrow> u8 \<Rightarrow> program \<Rightarrow> program result" where
  "entry_initialize rt owner program_data boss onyc_mint bump P =
     and_then (initialize (rt_bpf_loader rt) (rt_program_data rt) owner program_data boss onyc_mint bump
         (if pg_state_exists P then Some (pw_state (pg_core P)) else None)) (\<lambda>st.
     Ok (P\<lparr>pg_state_exists := True, pg_core := (pg_core P)\<lparr>pw_state := st\<rparr>\<rparr>))"

definition entry_close_state :: "runtime \<Rightarrow> env \<Rightarrow> pubkey \<Rightarrow> u64 \<Rightarrow> u64 \<Rightarrow> program \<Rightarrow> program result" where
  "entry_close_state rt e boss boss_lamports state_lamports P =
     and_then (close_state e
         \<lparr>rw_account_key = pda e [Seed ''state''],
          rw_account_owner = (if pg_state_exists P then program_id e else system_program_id e),
          rw_account_data = (if pg_state_exists P then rt_state_bytes rt (pw_state (pg_core P)) else []),
          rw_account_lamports = state_lamports\<rparr> boss boss_lamports) (\<lambda>_.
     Ok (P\<lparr>pg_state_exists := False\<rparr>))"

definition entry_make_offer ::
  "env \<Rightarrow> offer_accounts \<Rightarrow> u8 \<Rightarrow> u16 \<Rightarrow> bool \<Rightarrow> bool \<Rightarrow> program \<Rightarrow> program result" where
  "entry_make_offer e a bump fee approval permissionless P =
     (let key = pda e (offer_seeds (oa_token_in_mint a) (oa_token_out_mint a)); account = pg_offers P key in
      and_then (make_offer (pw_state (pg_core P)) a bump fee approval permissionless
          (if a_owner account = system_program_id e then None
           else case a_data account of AccountData offer \<Rightarrow> Some offer | _ \<Rightarrow> Some zero_offer)) (\<lambda>offer.
      Ok (P\<lparr>pg_offers := (pg_offers P)(key :=
        account\<lparr>a_key := key, a_owner := program_id e, a_data := AccountData offer\<rparr>)\<rparr>)))"

text \<open>The seeds of the offer account name its mints, except in \<open>set_offer_disabled\<close>.\<close>

fun offer_op_accounts :: "offer_op \<Rightarrow> offer_accounts option" where
  "offer_op_accounts (AddVector a now s bt bp apr d) = Some a"
| "offer_op_accounts (DeleteVector a now t) = Some a"
| "offer_op_accounts (DeleteAllVectors a) = Some a"
| "offer_op_accounts (UpdateFee a fee) = Some a"
| "offer_op_accounts (UpdatePermissionlessFee a fee) = Some a"
| "offer_op_accounts (SetDisabled k d) = None"

text \<open>The two instructions that read the clock read the current one.\<close>

fun at_time :: "i64 \<Rightarrow> offer_op \<Rightarrow> offer_op" where
  "at_time now (AddVector a _ s bt bp apr d) = AddVector a now s bt bp apr d"
| "at_time now (DeleteVector a _ t) = DeleteVector a now t"
| "at_time now op = op"

definition entry_change_offer :: "env \<Rightarrow> pubkey \<Rightarrow> offer_op \<Rightarrow> program \<Rightarrow> program result" where
  "entry_change_offer e key op P =
     (let account = pg_offers P key in
      require (case offer_op_accounts op of None \<Rightarrow> True
          | Some a \<Rightarrow> key = pda e (offer_seeds (oa_token_in_mint a) (oa_token_out_mint a))) AnchorConstraint (
      and_then (load_pda_account account (program_id e) AnchorConstraint AnchorConstraint) (\<lambda>offer.
      and_then (exec_offer (pw_state (pg_core P)) (at_time (unix_timestamp e) op) offer) (\<lambda>offer.
      Ok (P\<lparr>pg_offers := (pg_offers P)(key := account\<lparr>a_data := AccountData offer\<rparr>)\<rparr>)))))"

definition entry_transfer_mint_authority ::
  "runtime \<Rightarrow> env \<Rightarrow> bool \<Rightarrow> pubkey \<Rightarrow> mint \<Rightarrow> program \<Rightarrow> program result" where
  "entry_transfer_mint_authority rt e to_program boss m P =
     (let st = pw_state (pg_core P) in
      and_then (if to_program
          then transfer_mint_authority_to_program e (rt_set_authority rt) st boss (mint_at P m)
          else transfer_mint_authority_to_boss e (rt_set_authority rt) st boss (mint_at P m)) (\<lambda>m'.
      Ok (P\<lparr>pg_mints := (pg_mints P)(m_key m := m')\<rparr>)))"

definition entry_initialize_buffer ::
  "env \<Rightarrow> pubkey \<Rightarrow> mint \<Rightarrow> offer account \<Rightarrow> pubkey \<Rightarrow> program \<Rightarrow> program result" where
  "entry_initialize_buffer e boss m main_offer token_program P =
     (let p = pg_core P; ba = pw_buffer_accounts p; account = ba_buffer_state ba;
          management = pw_vaults p ManagementFee; performance = pw_vaults p PerformanceFee
      in
      require (a_key account = pda e [Seed ''buffer_state'']) AnchorConstraint (
      require (a_key management = pda e (vault_seeds ManagementFee)) AnchorConstraint (
      and_then (init_if_needed e zero_vault management) (\<lambda>mv.
      require (a_key performance = pda e (vault_seeds PerformanceFee)) AnchorConstraint (
      and_then (init_if_needed e zero_vault performance) (\<lambda>pv.
      and_then (init_token_account e (ba_reserve_vault_onyc_account ba) (pda e [Seed ''reserve_vault_authority''])
          (m_key m) token_program) (\<lambda>reserve_onyc.
      and_then (init_token_account e (ba_management_fee_vault_onyc_account ba) (a_key management)
          (m_key m) token_program) (\<lambda>management_onyc.
      and_then (init_token_account e (ba_performance_fee_vault_onyc_account ba) (a_key performance)
          (m_key m) token_program) (\<lambda>performance_onyc.
      and_then (initialize_buffer e (pw_state p) boss (mint_at P m) (offer_at P main_offer) mv pv
          (if a_owner account = system_program_id e then None else Some zero_buffer_state)) (\<lambda>(b, mv, pv).
      Ok (P\<lparr>pg_core := p\<lparr>
        pw_buffer_accounts := \<lparr>ba_buffer_state = account\<lparr>a_owner := program_id e, a_data := AccountData b\<rparr>,
          ba_reserve_vault_onyc_account = reserve_onyc,
          ba_management_fee_vault_onyc_account = management_onyc,
          ba_performance_fee_vault_onyc_account = performance_onyc\<rparr>,
        pw_vaults := (pw_vaults p)(
          ManagementFee := management\<lparr>a_owner := program_id e, a_data := AccountData mv\<rparr>,
          PerformanceFee := performance\<lparr>a_owner := program_id e, a_data := AccountData pv\<rparr>)\<rparr>\<rparr>)))))))))))"

text \<open>A redemption offer at another address is not followed; \<open>existing\<close> is what is stored there.\<close>

definition entry_make_redemption_offer ::
  "env \<Rightarrow> pubkey \<Rightarrow> mint \<Rightarrow> pubkey \<Rightarrow> mint \<Rightarrow> u16 \<Rightarrow> u16 \<Rightarrow> redemption_offer option \<Rightarrow> program \<Rightarrow> program result"
  where
  "entry_make_redemption_offer e boss m_in prog m_out fee sell_fee existing P =
     (let p = pg_core P; followed = (pda e (redemption_offer_seeds (m_key m_in) (m_key m_out)) = pw_redemption_key p)
      in
      and_then (make_redemption_offer e (pw_state p) boss (mint_at P m_in) prog (mint_at P m_out) fee sell_fee
          (if \<not> followed then existing
           else if pg_redemption_exists P then Some (pw_redemption_offer p) else None)) (\<lambda>ro.
      Ok (if followed then P\<lparr>pg_redemption_exists := True, pg_core := p\<lparr>pw_redemption_offer := ro\<rparr>\<rparr> else P)))"

definition entry_refresh_market_stats ::
  "env \<Rightarrow> offer account \<Rightarrow> mint \<Rightarrow> mint \<Rightarrow> circulating_supply_excluded_balance account \<Rightarrow> program \<Rightarrow> program result"
  where
  "entry_refresh_market_stats e main_offer m_in onyc_mint eb P =
     (let p = pg_core P; account = pw_market_stats p in
      require (a_key account = pda e [Seed ''market_stats'']) AnchorConstraint (
      and_then (init_if_needed e (market_stats_init_value 0) account) (\<lambda>ms.
      and_then (refresh_market_stats e (pw_state p) (offer_at P main_offer) (mint_at P m_in)
          (mint_at P onyc_mint) (excluded_balance_at P eb) ms) (\<lambda>ms.
      Ok (P\<lparr>pg_core := p\<lparr>pw_market_stats :=
        account\<lparr>a_owner := program_id e, a_data := AccountData ms\<rparr>\<rparr>\<rparr>)))))"

definition entry_set_excluded_accounts :: "env \<Rightarrow> pubkey \<Rightarrow> pubkey list \<Rightarrow> program \<Rightarrow> program result" where
  "entry_set_excluded_accounts e boss owners P =
     (let account = pg_excluded_accounts P in
      require (a_key account = pda e [Seed ''circ_supply_excl_accounts'']) AnchorConstraint (
      and_then (init_if_needed e
          \<lparr>ea_owners = replicate MAX_CIRCULATING_SUPPLY_EXCLUDED_ACCOUNTS default_pubkey, ea_bump = 0\<rparr> account)
        (\<lambda>ea.
      and_then (set_circulating_supply_excluded_accounts e (pw_state (pg_core P)) boss owners ea) (\<lambda>ea.
      Ok (P\<lparr>pg_excluded_accounts := account\<lparr>a_owner := program_id e, a_data := AccountData ea\<rparr>\<rparr>)))))"

definition entry_update_excluded_balance ::
  "env \<Rightarrow> mint \<Rightarrow> pubkey \<Rightarrow> excluded_token_account list \<Rightarrow> program \<Rightarrow> program result" where
  "entry_update_excluded_balance e m token_program token_accounts P =
     (let account = pg_excluded_balance P in
      and_then (load_pda_account (pg_excluded_accounts P) (program_id e) AnchorConstraint AnchorConstraint) (\<lambda>ea.
      require (a_key account = pda e [Seed ''circ_supply_excl_balance'']) AnchorConstraint (
      and_then (init_if_needed e
          \<lparr>eb_amount = 0, eb_last_updated_at = 0, eb_last_updated_slot = 0, eb_bump = 0\<rparr> account) (\<lambda>eb.
      and_then (update_circulating_supply_excluded_balance e (pw_ledger (pg_core P)) (pw_state (pg_core P))
          (mint_at P m) token_program ea token_accounts eb) (\<lambda>eb.
      Ok (P\<lparr>pg_excluded_balance := account\<lparr>a_owner := program_id e, a_data := AccountData eb\<rparr>\<rparr>))))))"

definition entry_permissionless_authority :: "env \<Rightarrow> pubkey \<Rightarrow> nat list \<Rightarrow> program \<Rightarrow> program result" where
  "entry_permissionless_authority e boss name P =
     and_then (initialize_permissionless_authority e (pw_state (pg_core P)) boss name (pg_permissionless P))
       (\<lambda>account. Ok (P\<lparr>pg_permissionless := account\<rparr>))"

definition entry_existing :: "runtime \<Rightarrow> i64 \<Rightarrow> instruction \<Rightarrow> program \<Rightarrow> program result" where
  "entry_existing rt now ix P =
     and_then (bind_accounts (runtime_at rt now) P ix) (\<lambda>ix.
     and_then (exec_protocol (rt_spl rt) (rt_env rt) (now, ix) (pg_core P)) (\<lambda>p.
     Ok (P\<lparr>pg_core := p\<rparr>)))"

text \<open>The program: all entry points. Every one but two needs the state account.\<close>

fun exec_entry :: "runtime \<Rightarrow> i64 \<times> entry \<Rightarrow> program \<Rightarrow> program result" where
  "exec_entry rt (now, c) P =
     (let e = runtime_at rt now; live = require (pg_state_exists P) AnchorConstraint in
      case c of
        Initialize owner pd boss onyc_mint bump \<Rightarrow> entry_initialize rt owner pd boss onyc_mint bump P
      | CloseState boss boss_lamports state_lamports \<Rightarrow> entry_close_state rt e boss boss_lamports state_lamports P
      | InitializePermissionlessAuthority boss name \<Rightarrow> live (entry_permissionless_authority e boss name P)
      | MakeOffer a bump fee ap pl \<Rightarrow> live (entry_make_offer e a bump fee ap pl P)
      | ChangeOffer key op \<Rightarrow> live (entry_change_offer e key op P)
      | TransferMintAuthorityToProgram boss m \<Rightarrow> live (entry_transfer_mint_authority rt e True boss m P)
      | TransferMintAuthorityToBoss boss m \<Rightarrow> live (entry_transfer_mint_authority rt e False boss m P)
      | InitializeBuffer boss m main_offer prog \<Rightarrow> live (entry_initialize_buffer e boss m main_offer prog P)
      | MakeRedemptionOffer boss m_in prog m_out fee sell_fee existing \<Rightarrow>
          live (entry_make_redemption_offer e boss m_in prog m_out fee sell_fee existing P)
      | RefreshMarketStats main_offer m_in onyc_mint eb \<Rightarrow>
          live (entry_refresh_market_stats e main_offer m_in onyc_mint eb P)
      | SetExcludedAccounts boss owners \<Rightarrow> live (entry_set_excluded_accounts e boss owners P)
      | UpdateExcludedBalance signer m prog token_accounts \<Rightarrow>
          live (entry_update_excluded_balance e m prog token_accounts P)
      | Existing ix \<Rightarrow> live (entry_existing rt now ix P))"

section \<open>Queries\<close>

datatype query =
    GetNav mint mint
  | GetApy mint mint
  | GetNavAdjustment mint mint
  | GetTvl mint mint token_info pubkey
  | GetCirculatingSupply mint token_info pubkey
  | GetCirculatingSupplyV2 mint "circulating_supply_excluded_balance account"
  | GetTvlV2 mint mint "circulating_supply_excluded_balance account"
  | QuoteSwapBuy quote_buy_accounts u64
  | QuoteSwapSell quote_sell_accounts u64

datatype answer = Amount u64 | Signed i64 | Quote swap_quote

definition answer_with :: "('a \<Rightarrow> answer) \<Rightarrow> 'a result \<Rightarrow> answer result" where
  "answer_with f r = and_then r (\<lambda>x. Ok (f x))"

text \<open>The seeds of the queried offer are the two mints.\<close>

definition stored_offer :: "env \<Rightarrow> program \<Rightarrow> mint \<Rightarrow> mint \<Rightarrow> offer result" where
  "stored_offer e P m_in m_out =
     load_pda_account (pg_offers P (pda e (offer_seeds (m_key m_in) (m_key m_out)))) (program_id e)
       AnchorConstraint AnchorConstraint"

definition pair_at :: "program \<Rightarrow> prop_amm_pair_state account \<Rightarrow> prop_amm_pair_state account" where
  "pair_at P account = (if a_key account = a_key (pw_pair (pg_core P)) then pw_pair (pg_core P) else account)"

definition market_stats_at :: "program \<Rightarrow> market_stats account \<Rightarrow> market_stats account" where
  "market_stats_at P account =
     (if a_key account = a_key (pw_market_stats (pg_core P)) then pw_market_stats (pg_core P) else account)"

fun exec_query :: "runtime \<Rightarrow> i64 \<Rightarrow> query \<Rightarrow> program \<Rightarrow> answer result" where
  "exec_query rt now (GetNav m_in m_out) P =
     (let e = runtime_at rt now in
      and_then (stored_offer e P m_in m_out) (\<lambda>offer. answer_with Amount (get_nav e m_in m_out offer)))"
| "exec_query rt now (GetApy m_in m_out) P =
     (let e = runtime_at rt now in
      and_then (stored_offer e P m_in m_out) (\<lambda>offer.
      require (m_key m_in = o_token_in_mint offer) InvalidTokenInMint (
      require (m_key m_out = o_token_out_mint offer) InvalidTokenOutMint (
      answer_with Amount (get_apy offer now)))))"
| "exec_query rt now (GetNavAdjustment m_in m_out) P =
     (let e = runtime_at rt now in
      and_then (stored_offer e P m_in m_out) (\<lambda>offer. answer_with Signed (get_nav_adjustment e m_in m_out offer)))"
| "exec_query rt now (GetTvl m_in m_out vault prog) P =
     (let e = runtime_at rt now in
      and_then (stored_offer e P m_in m_out) (\<lambda>offer.
      answer_with Amount (get_tvl e (pw_ledger (pg_core P)) m_in (mint_at P m_out) vault prog offer)))"
| "exec_query rt now (GetCirculatingSupply m vault prog) P =
     require (pg_state_exists P) AnchorConstraint (
     answer_with Amount (get_circulating_supply (runtime_at rt now) (pw_ledger (pg_core P)) (pw_state (pg_core P))
       (mint_at P m) vault prog))"
| "exec_query rt now (GetCirculatingSupplyV2 m eb) P =
     require (pg_state_exists P) AnchorConstraint (
     answer_with Amount (get_circulating_supply_v2 (runtime_at rt now) (pw_state (pg_core P)) (mint_at P m)
       (excluded_balance_at P eb)))"
| "exec_query rt now (GetTvlV2 m_in m_out eb) P =
     (let e = runtime_at rt now in
      require (pg_state_exists P) AnchorConstraint (
      and_then (stored_offer e P m_in m_out) (\<lambda>offer.
      answer_with Amount (get_tvl_v2 e (pw_state (pg_core P)) m_in (mint_at P m_out) (excluded_balance_at P eb)
        offer))))"
| "exec_query rt now (QuoteSwapBuy a amount) P =
     require (pg_state_exists P) AnchorConstraint (
     answer_with Quote (quote_swap_buy (runtime_at rt now) (pw_state (pg_core P))
       (a\<lparr>qb_offer := offer_at P (qb_offer a), qb_pair := pair_at P (qb_pair a),
          qb_token_in_mint := mint_at P (qb_token_in_mint a),
          qb_token_out_mint := mint_at P (qb_token_out_mint a)\<rparr>) amount))"
| "exec_query rt now (QuoteSwapSell a amount) P =
     (let e = runtime_at rt now in
      require (pg_state_exists P) AnchorConstraint (
      answer_with Quote (quote_swap_sell e (pw_state (pg_core P))
        (a\<lparr>qs_offer := offer_at P (qs_offer a), qs_pair := pair_at P (qs_pair a),
           qs_redemption_offer := redemption_offer_at e P (qs_redemption_offer a),
           qs_token_in_mint := mint_at P (qs_token_in_mint a),
           qs_token_out_mint := mint_at P (qs_token_out_mint a),
           qs_market_stats := market_stats_at P (qs_market_stats a)\<rparr>) amount (pw_ledger (pg_core P)))))"

section \<open>Well-formed programs\<close>

definition offers_ok :: "env \<Rightarrow> program \<Rightarrow> bool" where
  "offers_ok e P \<longleftrightarrow> (\<forall>k offer. a_owner (pg_offers P k) = program_id e \<longrightarrow>
     a_data (pg_offers P k) = AccountData offer \<longrightarrow> offer_wf offer)"

definition excluded_ok :: "env \<Rightarrow> program \<Rightarrow> bool" where
  "excluded_ok e P \<longleftrightarrow> (\<forall>ea. a_owner (pg_excluded_accounts P) = program_id e \<longrightarrow>
     a_data (pg_excluded_accounts P) = AccountData ea \<longrightarrow> distinct (active_owners ea))"

text \<open>A redemption request needs a redemption offer.\<close>

definition program_wf :: "env \<Rightarrow> program \<Rightarrow> bool" where
  "program_wf e P \<longleftrightarrow>
     (pg_state_exists P \<longrightarrow> state_wf (pw_state (pg_core P))) \<and>
     redemption_wf (redemption_view (pg_core P)) \<and>
     (\<not> pg_redemption_exists P \<longrightarrow> pw_requests (pg_core P) = (\<lambda>_. None)) \<and>
     pair_account_ok (pw_pair (pg_core P)) \<and> offers_ok e P \<and> excluded_ok e P"

fun typed_entry :: "entry \<Rightarrow> bool" where
  "typed_entry (Initialize owner pd boss onyc_mint bump) \<longleftrightarrow> boss \<noteq> default_pubkey"
| "typed_entry (Existing ix) \<longleftrightarrow> typed_args ix"
| "typed_entry _ \<longleftrightarrow> True"

text \<open>Looking up accounts changes neither the arguments nor the mints of an instruction.\<close>

lemma bind_typed: "bind_accounts e P ix = Ok ix' \<Longrightarrow> typed_args ix' = typed_args ix"
  by (cases "(e, P, ix)" rule: bind_governance.cases) (auto simp: bind_accounts_def)

fun on_redemptions :: "instruction \<Rightarrow> bool" where
  "on_redemptions (CreateRedemptionRequest oa redeemer m prog amount) = True"
| "on_redemptions (CancelRedemptionRequest signer redeemer worker m prog t i) = True"
| "on_redemptions (FulfillRedemptionRequest a i amount) = True"
| "on_redemptions (UpdateRedemptionOfferFee boss fee) = True"
| "on_redemptions (UpdateRedemptionOfferSellFee boss fee) = True"
| "on_redemptions (UpdateRedemptionOfferVaultTarget boss target) = True"
| "on_redemptions (SetRedemptionOfferDisabled signer disabled) = True"
| "on_redemptions _ = False"

lemma bind_redemption: "bind_accounts e P ix = Ok ix' \<Longrightarrow> on_redemptions ix' \<Longrightarrow> pg_redemption_exists P"
  by (cases "(e, P, ix)" rule: bind_governance.cases) (auto simp: bind_accounts_def)

lemma other_requests:
  "\<not> on_redemptions ix \<Longrightarrow> exec_protocol spl env (now, ix) p = Ok p' \<Longrightarrow> pw_requests p' = pw_requests p"
  by (cases ix) (auto simp: update_Ok Let_def put_defs)

lemma existing_wf:
  assumes wf: "program_wf e P" and live: "pg_state_exists P" and "clock_ok now" and "typed_args ix"
    and ok: "entry_existing rt now ix P = Ok P'"
  shows "program_wf e P'"
proof -
  obtain ix' p where b: "bind_accounts (runtime_at rt now) P ix = Ok ix'"
    and x: "exec_protocol (rt_spl rt) (rt_env rt) (now, ix') (pg_core P) = Ok p" and P': "P' = P\<lparr>pg_core := p\<rparr>"
    using ok unfolding entry_existing_def by (auto simp del: exec_protocol.simps)
  have "typed_args ix'" using bind_typed [OF b] assms(4) by simp
  then have "pair_account_ok (pw_pair p)" using pair_step [OF _ assms(3) _ x] wf by (simp add: program_wf_def)
  moreover have "state_wf (pw_state p)" "redemption_wf (redemption_view p)"
    using governance_step [OF _ x] queue_step [OF _ x] wf live by (simp_all add: program_wf_def)
  moreover have "\<not> pg_redemption_exists P \<Longrightarrow> pw_requests p = (\<lambda>_. None)"
    using other_requests [OF _ x] bind_redemption [OF b] wf by (auto simp: program_wf_def)
  ultimately show ?thesis
    using wf by (simp add: P' program_wf_def offers_ok_def excluded_ok_def)
qed

lemma initialize_entry_wf:
  assumes "program_wf e P" and "entry_initialize rt owner pd boss onyc_mint bump P = Ok P'" and "boss \<noteq> default_pubkey"
  shows "program_wf e P'"
proof -
  obtain st where st: "initialize (rt_bpf_loader rt) (rt_program_data rt) owner pd boss onyc_mint bump
      (if pg_state_exists P then Some (pw_state (pg_core P)) else None) = Ok st"
    and P': "P' = P\<lparr>pg_state_exists := True, pg_core := (pg_core P)\<lparr>pw_state := st\<rparr>\<rparr>"
    using assms(2) unfolding entry_initialize_def by (auto split del: if_split)
  have "redemption_wf (redemption_view (pg_core P')) = redemption_wf (redemption_view (pg_core P))"
    by (rule redemption_wf_cong) (simp_all add: P' redemption_view_def)
  then show ?thesis
    using assms(1) initialize_wf [OF st assms(3)] by (simp add: P' program_wf_def offers_ok_def excluded_ok_def)
qed

lemma make_offer_entry_wf:
  assumes "program_wf (rt_env rt) P" and "entry_make_offer (runtime_at rt now) a bump fee ap pl P = Ok P'"
  shows "program_wf (rt_env rt) P'"
proof -
  let ?key = "pda (runtime_at rt now) (offer_seeds (oa_token_in_mint a) (oa_token_out_mint a))"
  obtain offer existing where "make_offer (pw_state (pg_core P)) a bump fee ap pl existing = Ok offer"
    and P': "P' = P\<lparr>pg_offers := (pg_offers P)(?key := (pg_offers P ?key)\<lparr>a_key := ?key,
      a_owner := program_id (runtime_at rt now), a_data := AccountData offer\<rparr>)\<rparr>"
    using assms(2) unfolding entry_make_offer_def Let_def and_then_eq_Ok by blast
  then have "offer_wf offer" by (intro make_offer_wf)
  then show ?thesis using assms(1) by (auto simp: P' program_wf_def offers_ok_def excluded_ok_def)
qed

lemma change_offer_entry_wf:
  assumes "program_wf (rt_env rt) P" and "entry_change_offer (runtime_at rt now) key op P = Ok P'"
  shows "program_wf (rt_env rt) P'"
proof -
  obtain offer offer' where o: "a_owner (pg_offers P key) = program_id (rt_env rt)"
      "a_data (pg_offers P key) = AccountData offer"
    and x: "exec_offer (pw_state (pg_core P)) (at_time (unix_timestamp (runtime_at rt now)) op) offer = Ok offer'"
    and P': "P' = P\<lparr>pg_offers := (pg_offers P)(key := (pg_offers P key)\<lparr>a_data := AccountData offer'\<rparr>)\<rparr>"
    using assms(2) unfolding entry_change_offer_def Let_def
    by (auto simp: runtime_at_def)
  have "offer_wf offer" using assms(1) o by (auto simp: program_wf_def offers_ok_def)
  then have "offer_wf offer'" using x by (rule exec_offer_wf)
  then show ?thesis using assms(1) by (auto simp: P' program_wf_def offers_ok_def excluded_ok_def)
qed

lemma make_redemption_offer_entry_wf:
  assumes "program_wf e P" and "entry_make_redemption_offer e' boss m_in prog m_out fee sell_fee existing P = Ok P'"
  shows "program_wf e P'"
proof -
  define followed where "followed \<longleftrightarrow>
    pda e' (redemption_offer_seeds (m_key m_in) (m_key m_out)) = pw_redemption_key (pg_core P)"
  show ?thesis
  proof (cases followed)
    case False
    then have "P' = P" using assms(2) by (auto simp: entry_make_redemption_offer_def Let_def followed_def)
    then show ?thesis using assms(1) by simp
  next
    case True
    then obtain ro where ro: "make_redemption_offer e' (pw_state (pg_core P)) boss (mint_at P m_in) prog
        (mint_at P m_out) fee sell_fee
        (if pg_redemption_exists P then Some (pw_redemption_offer (pg_core P)) else None) = Ok ro"
      and P': "P' = P\<lparr>pg_redemption_exists := True, pg_core := (pg_core P)\<lparr>pw_redemption_offer := ro\<rparr>\<rparr>"
      using assms(2) by (auto simp: entry_make_redemption_offer_def Let_def followed_def split del: if_split)
    have "\<not> pg_redemption_exists P" using ro by (auto simp: make_redemption_offer_def split: if_splits)
    then have none: "pw_requests (pg_core P) = (\<lambda>_. None)" using assms(1) by (simp add: program_wf_def)
    have "redemption_wf (redemption_view (pg_core P'))"
      using ro none by (auto simp: P' redemption_wf_def redemption_view_def make_redemption_offer_def Let_def)
    then show ?thesis using assms(1) by (simp add: P' program_wf_def offers_ok_def excluded_ok_def)
  qed
qed

lemma set_excluded_entry_wf:
  assumes "program_wf e P" and "entry_set_excluded_accounts e' boss owners P = Ok P'"
  shows "program_wf e P'"
proof -
  obtain ea0 ea where x: "set_circulating_supply_excluded_accounts e' (pw_state (pg_core P)) boss owners ea0 = Ok ea"
    and P': "P' = P\<lparr>pg_excluded_accounts :=
      (pg_excluded_accounts P)\<lparr>a_owner := program_id e', a_data := AccountData ea\<rparr>\<rparr>"
    using assms(2) unfolding entry_set_excluded_accounts_def Let_def by auto
  have "distinct (active_owners ea)"
    using x by (auto simp: set_circulating_supply_excluded_accounts_def validate_unique_non_default_owners_def
        validate_owners_from_Ok active_owners_def)
  then show ?thesis using assms(1) by (simp add: P' program_wf_def offers_ok_def excluded_ok_def)
qed

text \<open>The remaining entry points touch none of the parts that have an invariant.\<close>

lemma plain_entries_wf:
  assumes "program_wf e P"
  shows "entry_transfer_mint_authority rt e' to_program boss m P = Ok P' \<Longrightarrow> program_wf e P'"
    and "entry_update_excluded_balance e' m prog token_accounts P = Ok P' \<Longrightarrow> program_wf e P'"
    and "entry_permissionless_authority e' boss name P = Ok P' \<Longrightarrow> program_wf e P'"
    and "entry_close_state rt e' boss bl sl P = Ok P' \<Longrightarrow> program_wf e P'"
  using assms
  by (auto simp: entry_transfer_mint_authority_def entry_update_excluded_balance_def
      entry_permissionless_authority_def entry_close_state_def Let_def program_wf_def offers_ok_def excluded_ok_def)

lemma core_account_entries_wf:
  assumes "program_wf e P"
  shows "entry_initialize_buffer e' boss m main_offer prog P = Ok P' \<Longrightarrow> program_wf e P'"
    and "entry_refresh_market_stats e' main_offer m_in onyc_mint eb P = Ok P' \<Longrightarrow> program_wf e P'"
proof -
  have frame: "program_wf e (P\<lparr>pg_core := p\<rparr>)"
    if "pw_state p = pw_state (pg_core P)" "pw_pair p = pw_pair (pg_core P)"
      "pw_redemption_offer p = pw_redemption_offer (pg_core P)" "pw_requests p = pw_requests (pg_core P)" for p
    using that assms redemption_wf_cong [of "redemption_view p" "redemption_view (pg_core P)"]
    by (simp add: program_wf_def offers_ok_def excluded_ok_def redemption_view_def)
  show "entry_initialize_buffer e' boss m main_offer prog P = Ok P' \<Longrightarrow> program_wf e P'"
    unfolding entry_initialize_buffer_def Let_def by (auto intro!: frame)
  show "entry_refresh_market_stats e' main_offer m_in onyc_mint eb P = Ok P' \<Longrightarrow> program_wf e P'"
    unfolding entry_refresh_market_stats_def Let_def by (auto intro!: frame)
qed

lemma entry_wf:
  assumes wf: "program_wf (rt_env rt) P" and "clock_ok now" and "typed_entry c"
    and ok: "exec_entry rt (now, c) P = Ok P'"
  shows "program_wf (rt_env rt) P'"
proof (cases c)
  case (Initialize owner pd boss onyc_mint bump)
  then show ?thesis using initialize_entry_wf [OF wf] ok assms(3) by (auto simp: Let_def)
next
  case (Existing ix)
  then show ?thesis using existing_wf [OF wf _ assms(2)] ok assms(3) by (auto simp: Let_def)
qed (use ok wf in \<open>auto simp: Let_def intro: make_offer_entry_wf change_offer_entry_wf make_redemption_offer_entry_wf
    set_excluded_entry_wf plain_entries_wf core_account_entries_wf\<close>)

interpretation entries: guarded_machine "exec_entry rt" "program_wf (rt_env rt)"
    "\<lambda>(now, c). clock_ok now \<and> typed_entry c" for rt
  by unfold_locales (auto intro: entry_wf simp del: exec_entry.simps)

section \<open>From deployment on\<close>

text \<open>Nothing exists yet; the pair and the redemption offer that the machine will follow are absent.\<close>

definition new_deployment :: "env \<Rightarrow> program \<Rightarrow> bool" where
  "new_deployment e P \<longleftrightarrow> \<not> pg_state_exists P \<and> \<not> pg_redemption_exists P \<and>
     (\<forall>k. a_data (pg_offers P k) = NoData) \<and> a_data (pg_excluded_accounts P) = NoData \<and>
     a_data (pw_pair (pg_core P)) = NoData \<and> a_data (ba_buffer_state (pw_buffer_accounts (pg_core P))) = NoData \<and>
     pw_requests (pg_core P) = (\<lambda>_. None) \<and> redemption_wf (redemption_view (pg_core P))"

lemma new_deployment_wf: "new_deployment e P \<Longrightarrow> program_wf e P"
  by (auto simp: new_deployment_def program_wf_def offers_ok_def excluded_ok_def pair_account_ok_def)

text \<open>
  C9: From its deployment on, the program keeps all its accounts well-formed: whatever entry points
  are called, in whatever order, by whomever and with whatever accounts, failing calls included,
  the state account, the redemption queue, the Prop AMM pair, the list of excluded owners and every
  stored offer satisfy their invariants, and every stored offer prices at every time without a
  panic and never at zero.
\<close>

theorem program_well_formed_from_deployment:
  assumes "new_deployment (rt_env rt) P" and "list_all (\<lambda>(now, c). clock_ok now \<and> typed_entry c) cs"
  defines "P' \<equiv> run_ops (exec_entry rt) cs P"
  shows "program_wf (rt_env rt) P' \<and>
    (\<forall>k offer t. a_owner (pg_offers P' k) = program_id (rt_env rt) \<longrightarrow> a_data (pg_offers P' k) = AccountData offer \<longrightarrow>
       (\<forall>p. compute_offer_current_price offer t = Ok p \<longrightarrow> 0 < p) \<and>
       compute_offer_current_price offer t \<noteq> Err Panic)"
proof -
  have wf: "program_wf (rt_env rt) P'"
    using entries.guarded_run_inv [OF assms(2)] new_deployment_wf [OF assms(1)] unfolding P'_def by blast
  then have "vectors_ok offer" if "a_owner (pg_offers P' k) = program_id (rt_env rt)"
      "a_data (pg_offers P' k) = AccountData offer" for k offer
    using that by (auto simp: program_wf_def offers_ok_def offer_wf_def)
  then show ?thesis
    using wf current_price_pos current_price_no_panic by blast
qed

section \<open>Without a state account\<close>

lemma closed_step:
  assumes "\<not> pg_state_exists P" and "exec_entry rt (now, c) P = Ok P'"
  shows "\<exists>owner pd boss onyc_mint bump. c = Initialize owner pd boss onyc_mint bump"
  using assms by (cases c) (auto simp: Let_def entry_close_state_def close_state_def)

fun reopens :: "entry \<Rightarrow> bool" where
  "reopens (Initialize owner pd boss onyc_mint bump) = True"
| "reopens _ = False"

interpretation closed: guarded_machine "exec_entry rt" "\<lambda>P. \<not> pg_state_exists P \<and> P = P0"
    "\<lambda>(now, c). \<not> reopens c" for rt P0
  by unfold_locales (auto dest: closed_step simp del: exec_entry.simps)

text \<open>
  C14: \<open>close_state\<close> stops the program. Only the boss can close the state account, and once it is
  closed no call of any entry point changes anything at all, until \<open>initialize\<close> succeeds.
\<close>

theorem closing_the_state_stops_the_program:
  assumes "serializes_boss rt" and "exec_entry rt (now, CloseState boss bl sl) P = Ok P'"
    and "list_all (\<lambda>(now, c). \<not> reopens c) cs" and "s_boss (pw_state (pg_core P)) < 256 ^ 32"
  shows "pg_state_exists P \<and> boss = s_boss (pw_state (pg_core P)) \<and> run_ops (exec_entry rt) cs P' = P'"
proof -
  from assms(2) have "pg_state_exists P" "\<not> pg_state_exists P'"
    by (auto simp: Let_def entry_close_state_def close_state_def split: if_splits)
  moreover have "boss = s_boss (pw_state (pg_core P))"
    using assms(1,2,4) calculation(1) by (auto simp: Let_def entry_close_state_def close_state_def serializes_boss_def)
  ultimately show ?thesis using closed.guarded_run_inv [OF assms(3), of P' P' rt] by simp
qed

section \<open>The kill switch\<close>

fun entry_lifts_halt :: "entry \<Rightarrow> bool" where
  "entry_lifts_halt (Existing ix) = lifts_halt ix"
| "entry_lifts_halt (Initialize owner pd boss onyc_mint bump) = True"
| "entry_lifts_halt _ = False"

definition frozen :: "program \<Rightarrow> program \<Rightarrow> bool" where
  "frozen P0 P \<longleftrightarrow> (pg_state_exists P \<longrightarrow> s_is_killed (pw_state (pg_core P))) \<and>
     pw_ledger (pg_core P) = pw_ledger (pg_core P0) \<and> pw_requests (pg_core P) = pw_requests (pg_core P0)"

lemma bind_halt: "bind_accounts e P ix = Ok ix' \<Longrightarrow> lifts_halt ix' = lifts_halt ix"
  by (cases "(e, P, ix)" rule: bind_governance.cases) (auto simp: bind_accounts_def)

lemma frozen_existing:
  assumes "\<not> lifts_halt ix" and "frozen P0 P" and "pg_state_exists P" and "entry_existing rt now ix P = Ok P'"
  shows "frozen P0 P'"
proof -
  obtain ix' p where b: "bind_accounts (runtime_at rt now) P ix = Ok ix'"
    and x: "exec_protocol (rt_spl rt) (rt_env rt) (now, ix') (pg_core P) = Ok p" and P': "P' = P\<lparr>pg_core := p\<rparr>"
    using assms(4) unfolding entry_existing_def by (auto simp del: exec_protocol.simps)
  have "halted (pg_core P) p"
    using halted_step [OF _ _ x, of "pg_core P"] bind_halt [OF b] assms(1-3) by (simp add: frozen_def halted_def)
  then show ?thesis using assms(2) by (simp add: P' frozen_def halted_def)
qed

lemma frozen_step:
  assumes "\<not> entry_lifts_halt c" and "frozen P0 P" and ok: "exec_entry rt (now, c) P = Ok P'"
  shows "frozen P0 P'"
proof (cases c)
  case (Existing ix)
  then show ?thesis using assms frozen_existing by (auto simp: Let_def)
next
  case (Initialize owner pd boss onyc_mint bump)
  then show ?thesis using assms(1) by simp
qed (use ok assms(2) in \<open>auto simp: Let_def frozen_def entry_close_state_def entry_permissionless_authority_def
    entry_make_offer_def entry_change_offer_def entry_transfer_mint_authority_def entry_initialize_buffer_def
    entry_make_redemption_offer_def entry_refresh_market_stats_def entry_set_excluded_accounts_def
    entry_update_excluded_balance_def split: if_splits\<close>)

interpretation freeze: guarded_machine "exec_entry rt" "frozen P0" "\<lambda>(now, c). \<not> entry_lifts_halt c" for rt P0
  by unfold_locales (auto intro: frozen_step simp del: exec_entry.simps)

text \<open>
  C2: The kill switch freezes all funds against every entry point of the program. While it is on,
  no sequence of calls changes a token balance, a supply or a redemption request, whatever accounts
  are created or reconfigured meanwhile, until the switch is turned off or the state account is
  initialized anew after having been closed.
\<close>

theorem kill_switch_freezes_every_entry_point:
  fixes rt
  assumes "s_is_killed (pw_state (pg_core P))" and "list_all (\<lambda>(now, c). \<not> entry_lifts_halt c) cs"
  defines "P' \<equiv> run_ops (exec_entry rt) cs P"
  shows "pw_ledger (pg_core P') = pw_ledger (pg_core P) \<and> pw_requests (pg_core P') = pw_requests (pg_core P)"
  using freeze.guarded_run_inv [OF assms(2), of P P rt] assms(1) unfolding P'_def by (simp add: frozen_def)

section \<open>The BUFFER's baseline\<close>

fun entry_keeps_books :: "pubkey \<Rightarrow> entry \<Rightarrow> bool" where
  "entry_keeps_books onyc (Existing ix) = keeps_books onyc ix"
| "entry_keeps_books onyc (Initialize owner pd boss onyc_mint bump) = (onyc_mint = onyc)"
| "entry_keeps_books onyc _ = True"

definition entry_books :: "runtime \<Rightarrow> pubkey \<Rightarrow> program \<Rightarrow> bool" where
  "entry_books rt onyc P \<longleftrightarrow> (pg_state_exists P \<longrightarrow> s_onyc_mint (pw_state (pg_core P)) = onyc) \<and>
     baseline (program_id (rt_env rt)) onyc (pw_buffer_accounts (pg_core P)) (pw_ledger (pg_core P))"

lemma mint_at_key [simp]: "m_key (mint_at P m) = m_key m"
  by (simp add: mint_at_def reload_def)

lemma bind_books: "bind_accounts e P ix = Ok ix' \<Longrightarrow> keeps_books onyc ix' = keeps_books onyc ix"
  by (cases "(e, P, ix)" rule: bind_governance.cases) (auto simp: bind_accounts_def bind_take_def)

lemma initialize_buffer_baseline:
  assumes "entry_initialize_buffer e boss m main_offer prog P = Ok P'"
  shows "baseline pid onyc (pw_buffer_accounts (pg_core P')) L" and "pw_ledger (pg_core P') = pw_ledger (pg_core P)"
    and "pw_state (pg_core P') = pw_state (pg_core P)" and "pg_state_exists P' = pg_state_exists P"
  using assms unfolding entry_initialize_buffer_def Let_def
  by (auto simp: baseline_def initialize_buffer_def zero_buffer_state_def split: if_splits)

lemma books_existing:
  assumes laws: "spl_laws (rt_spl rt)" and keeps: "keeps_books onyc ix" and inv: "entry_books rt onyc P"
    and live: "pg_state_exists P" and ok: "entry_existing rt now ix P = Ok P'"
  shows "entry_books rt onyc P'"
proof -
  obtain ix' p where b: "bind_accounts (runtime_at rt now) P ix = Ok ix'"
    and x: "exec_protocol (rt_spl rt) (rt_env rt) (now, ix') (pg_core P) = Ok p" and P': "P' = P\<lparr>pg_core := p\<rparr>"
    using ok unfolding entry_existing_def by (auto simp del: exec_protocol.simps)
  have "books (rt_env rt) onyc p"
    using books_step [OF laws _ _ x] bind_books [OF b] keeps inv live by (simp add: entry_books_def books_def)
  then show ?thesis by (simp add: P' entry_books_def books_def)
qed

lemma initialize_onyc: "initialize l e w pd boss mint bump existing = Ok st \<Longrightarrow> s_onyc_mint st = mint"
  by (auto simp: initialize_def Let_def)

lemma entry_books_step:
  assumes laws: "spl_laws (rt_spl rt)" and keeps: "entry_keeps_books onyc c" and inv: "entry_books rt onyc P"
    and ok: "exec_entry rt (now, c) P = Ok P'"
  shows "entry_books rt onyc P'"
proof (cases c)
  case (Existing ix)
  then show ?thesis using books_existing [OF laws _ inv] keeps ok by (auto simp: Let_def)
next
  case (Initialize owner pd boss onyc_mint bump)
  then show ?thesis using keeps inv ok
    by (auto simp: entry_initialize_def entry_books_def dest!: initialize_onyc split del: if_split)
next
  case (InitializeBuffer boss m main_offer prog)
  then show ?thesis using inv ok initialize_buffer_baseline by (auto simp: Let_def entry_books_def)
qed (use ok inv in \<open>auto simp: Let_def entry_books_def entry_close_state_def entry_permissionless_authority_def
    entry_make_offer_def entry_change_offer_def entry_transfer_mint_authority_def
    entry_make_redemption_offer_def entry_refresh_market_stats_def entry_set_excluded_accounts_def
    entry_update_excluded_balance_def split: if_splits\<close>)

interpretation ledgers: guarded_machine "exec_entry rt" "\<lambda>P. spl_laws (rt_spl rt) \<and> entry_books rt onyc P"
    "\<lambda>(now, c). entry_keeps_books onyc c" for rt onyc
  by unfold_locales (auto intro: entry_books_step simp del: exec_entry.simps)

text \<open>
  C3: From deployment on, the BUFFER's baseline is the actual ONyc supply or not yet set, in every
  run, failing calls included, of the entry points that account for the supply: creation and
  configuration of accounts, settlements, NAV burns, mints, second-version takes, swaps,
  redemptions, vault movements, transfers of the mint authority. The calls of the run are subject
  to \<open>entry_keeps_books\<close>: no legacy take (\<open>take_offer\<close>, \<open>take_offer_permissionless\<close>) with ONyc on
  either side, which by design does not update the baseline, no second-version take paid in ONyc
  or with the same mint on both sides, and no change of the ONyc mint, neither by
  \<open>set_onyc_mint\<close> nor by an \<open>initialize\<close> with another mint.
\<close>

theorem baseline_is_actual_supply_from_deployment:
  assumes "spl_laws (rt_spl rt)" and "new_deployment (rt_env rt) P"
    and "list_all (\<lambda>(now, c). entry_keeps_books onyc c) cs"
  defines "P' \<equiv> run_ops (exec_entry rt) cs P"
  shows "baseline (program_id (rt_env rt)) onyc (pw_buffer_accounts (pg_core P')) (pw_ledger (pg_core P'))"
proof -
  have "entry_books rt onyc P"
    using assms(2) by (simp add: new_deployment_def entry_books_def baseline_def)
  then show ?thesis
    using ledgers.guarded_run_inv [OF assms(3), of rt P] assms(1) unfolding P'_def by (simp add: entry_books_def)
qed

section \<open>The published price\<close>

lemma get_nav_price:
  "get_nav e m_in m_out offer = Ok nav \<Longrightarrow>
     compute_offer_current_price offer (i64_as_u64 (unix_timestamp e)) = Ok nav"
  by (auto simp: get_nav_def get_offer_valuation_snapshot_def compute_offer_current_price_def)

text \<open>
  C12: The published price is the price of execution. Whenever a call of \<open>take_offer\<close> succeeds, the
  stored offer of its two mints is enabled, and what the user receives is the payment after the fee
  of that offer, converted at exactly the value that the query \<open>get_nav\<close> returns for these mints at
  that time, where the query has one.
\<close>

theorem published_nav_is_the_execution_price:
  fixes P P' a
  assumes laws: "spl_laws (rt_spl rt)"
    and ok: "exec_entry rt (now, Existing (TakeOffer sv a amount approval)) P = Ok P'"
    and nav: "exec_query rt now (GetNav (k_token_in_mint a) (k_token_out_mint a)) P = Ok (Amount nav)"
    and dist: "distinct [t_key (k_user_token_in_account a), t_key (k_boss_token_in_account a),
      t_key (k_user_token_out_account a), t_key (k_vault_token_out_account a)]"
  defines "user_out \<equiv> t_key (k_user_token_out_account a)"
  shows "\<exists>offer net fee out. stored_offer (runtime_at rt now) P (k_token_in_mint a) (k_token_out_mint a) = Ok offer \<and>
    \<not> is_disabled offer \<and>
    calculate_fees amount (o_fee_basis_points offer) =
      Ok \<lparr>fr_token_in_fee_amount = fee, fr_token_in_net_amount = net\<rparr> \<and>
    calculate_token_out_amount net nav (m_decimals (mint_at P (k_token_in_mint a)))
      (m_decimals (mint_at P (k_token_out_mint a))) = Ok out \<and>
    l_bal (pw_ledger (pg_core P')) user_out = l_bal (pw_ledger (pg_core P)) user_out + out"
proof -
  let ?e = "runtime_at rt now" and ?p = "pg_core P"
  let ?b = "(bind_take P a)\<lparr>k_token_in_mint := reload (pw_ledger ?p) (mint_at P (k_token_in_mint a)),
    k_token_out_mint := reload (pw_ledger ?p) (mint_at P (k_token_out_mint a))\<rparr>"
  have re: "reload (pw_ledger ?p) (mint_at P m) = mint_at P m" for m by (simp add: mint_at_def reload_def)
  from ok obtain L' where L': "take_offer ?e (rt_spl rt) sv (pw_state ?p) ?b amount approval (pw_ledger ?p) = Ok L'"
    and P': "pw_ledger (pg_core P') = L'"
    by (auto simp: Let_def entry_existing_def bind_accounts_def update_Ok put_ledger_def runtime_at_def bind_take_def)
  note keys = take_offer_accounts_exist [OF L']
  obtain offer price net fee out where
    o: "a_data (k_offer ?b) = AccountData offer" "\<not> is_disabled offer"
    and price: "compute_offer_current_price offer (i64_as_u64 (unix_timestamp ?e)) = Ok price"
    and fees: "calculate_fees amount (o_fee_basis_points offer) =
      Ok \<lparr>fr_token_in_fee_amount = fee, fr_token_in_net_amount = net\<rparr>"
    and conv: "calculate_token_out_amount net price (m_decimals (k_token_in_mint ?b)) (m_decimals (k_token_out_mint ?b)) = Ok out"
    and bal: "\<forall>acc. int (l_bal L' acc) = int (l_bal (pw_ledger ?p) acc)
      - part (acc = t_key (k_user_token_in_account ?b)) amount
      + part (acc = t_key (k_boss_token_in_account ?b))
          (if program_controls_mint (k_token_in_mint ?b) (pda ?e [Seed ''mint_authority'']) then fee else amount)
      - part (\<not> program_controls_mint (k_token_out_mint ?b) (pda ?e [Seed ''mint_authority'']) \<and>
          acc = t_key (k_vault_token_out_account ?b)) out
      + part (acc = t_key (k_user_token_out_account ?b)) out"
    using take_offer_effect [OF laws L', folded keys(2-5)] by (elim exE conjE) (rule that, assumption+)
  have acc: "a_key (k_offer a) = pda ?e (offer_seeds (m_key (k_token_in_mint a)) (m_key (k_token_out_mint a)))"
      "a_owner (pg_offers P (a_key (k_offer a))) = program_id ?e"
    using L' by (auto simp: take_offer_def check_take_offer_accounts_def Let_def bind_take_def offer_at_def reload_def)
  have so: "stored_offer ?e P (k_token_in_mint a) (k_token_out_mint a) = Ok offer"
    using o(1) acc by (simp add: stored_offer_def bind_take_def offer_at_def)
  have "price = nav"
    using nav price get_nav_price [of ?e "k_token_in_mint a" "k_token_out_mint a" offer nav]
    by (auto simp: Let_def so answer_with_def)
  moreover have "l_bal L' user_out = l_bal (pw_ledger ?p) user_out + out"
    using bal [rule_format, of user_out] dist by (simp add: user_out_def bind_take_def part_def)
  ultimately show ?thesis
    using so o(2) fees conv P' by (simp add: bind_take_def re)
qed

section \<open>Worked examples\<close>

text \<open>The 32 bytes of a key, and a deployment on which nothing exists.\<close>

definition key_bytes :: "pubkey \<Rightarrow> u8 list" where
  "key_bytes k = map (\<lambda>i. k div 256 ^ i mod 256) [0..<32]"

lemma digits_sum:
  fixes k :: nat
  shows "foldr (\<lambda>b n. b + 256 * n) (map (\<lambda>i. k div 256 ^ i mod 256) [a..<a + n]) 0 = k div 256 ^ a mod 256 ^ n"
proof (induction n arbitrary: a)
  case (Suc n)
  let ?d = "k div 256 ^ a"
  have "foldr (\<lambda>b n. b + 256 * n) (map (\<lambda>i. k div 256 ^ i mod 256) [a..<a + Suc n]) 0 =
      ?d mod 256 + 256 * (k div 256 ^ Suc a mod 256 ^ n)"
    using Suc.IH [of "Suc a"] by (simp add: upt_conv_Cons del: upt_Suc)
  also have "k div 256 ^ Suc a = ?d div 256" by (metis div_mult2_eq power_Suc2)
  also have "?d mod 256 + 256 * (?d div 256 mod 256 ^ n) = ?d mod 256 ^ Suc n"
    by (simp add: mod_mult2_eq add.commute)
  finally show ?case .
qed simp

lemma key_bytes_roundtrip: "k < 256 ^ 32 \<Longrightarrow> pubkey_of_bytes (key_bytes k) = k"
  using digits_sum [of k 0 32] by (simp add: pubkey_of_bytes_def key_bytes_def)

definition sample_runtime :: runtime where
  "sample_runtime = \<lparr>rt_spl = plain_token_program,
     rt_set_authority = (\<lambda>m current new. if m_mint_authority m = Some current
       then Ok (m\<lparr>m_mint_authority := new\<rparr>) else Err AnchorConstraint),
     rt_env = sample_env, rt_bpf_loader = 92, rt_program_data = 93,
     rt_state_bytes = (\<lambda>s. replicate 8 0 @ key_bytes (s_boss s))\<rparr>"

lemma sample_runtime_simps [simp]:
  "rt_env sample_runtime = sample_env" "rt_spl sample_runtime = plain_token_program"
  "runtime_at sample_runtime now = sample_env\<lparr>unix_timestamp := now\<rparr>"
  by (simp_all add: sample_runtime_def runtime_at_def)

lemma sample_serializes: "serializes_boss sample_runtime"
proof -
  have "length (key_bytes k) = 32" for k by (simp add: key_bytes_def)
  then show ?thesis by (simp add: serializes_boss_def sample_runtime_def key_bytes_roundtrip)
qed

definition sample_deployment :: program where
  "sample_deployment = \<lparr>pg_state_exists = False,
     pg_core = sample_protocol\<lparr>pw_state := zero_state, pw_pair := absent_account 199, pw_requests := (\<lambda>_. None),
       pw_buffer_accounts := (pw_buffer_accounts sample_protocol)\<lparr>ba_buffer_state := absent_account 103\<rparr>,
       pw_redemption_offer := sample_redemption_offer\<lparr>ro_requested_redemptions := 0, ro_request_counter := 0\<rparr>\<rparr>,
     pg_offers = absent_account, pg_mints = (\<lambda>k. sample_mint k (Some 7) 0),
     pg_excluded_accounts = absent_account 199, pg_excluded_balance = absent_account 102,
     pg_permissionless = absent_account 199, pg_redemption_exists = False\<rparr>"

lemma sample_deployment_new: "new_deployment sample_env sample_deployment"
  by (simp add: new_deployment_def sample_deployment_def absent_account_def redemption_wf_def redemption_view_def
      sample_redemption_offer_def Let_def const_defs)

definition sample_loader :: program_data_account where
  "sample_loader = \<lparr>pd_key = 93, pd_owner = 92, pd_content = Some (ProgramData (Some 7))\<rparr>"

definition sample_calls :: "(i64 \<times> entry) list" where
  "sample_calls = [(900, MakeOffer sample_accounts 254 50 False True),
     (1000, Initialize 92 (Some sample_loader) 7 22 255),
     (1000, MakeOffer sample_accounts 254 50 False True),
     (1000, ChangeOffer 199 (AddVector sample_accounts 0 None 1000 1000000000 97600 86400))]"

definition sample_opened :: program where
  "sample_opened = sample_deployment\<lparr>pg_state_exists := True,
     pg_core := (pg_core sample_deployment)\<lparr>pw_state := zero_state\<lparr>s_boss := 7, s_onyc_mint := 22, s_bump := 255\<rparr>\<rparr>\<rparr>"

lemma sample_initialize:
  "exec_entry sample_runtime (1000, Initialize 92 (Some sample_loader) 7 22 255) sample_deployment = Ok sample_opened"
  by (simp add: Let_def entry_initialize_def initialize_def get_upgrade_authority_def sample_loader_def
      sample_runtime_def sample_deployment_def sample_opened_def zero_state_def default_pubkey_def)

lemma sample_make_offer:
  "exec_entry sample_runtime (1000, MakeOffer sample_accounts 254 50 False True) sample_opened =
     Ok (sample_opened\<lparr>pg_offers := absent_account(199 :=
       (absent_account 199)\<lparr>a_owner := 50, a_data := AccountData made_offer\<rparr>)\<rparr>)"
  by (simp add: Let_def entry_make_offer_def sample_opened_def sample_deployment_def absent_account_def make_offer_def
      sample_accounts_def made_offer_def zero_offer_def set_disabled_def set_permissionless_def set_approval_def
      const_defs)

definition sample_live :: program where
  "sample_live = sample_opened\<lparr>pg_offers := absent_account(199 :=
     (absent_account 199)\<lparr>a_owner := 50, a_data := AccountData one_vector_offer\<rparr>)\<rparr>"

lemma sample_run: "run_ops (exec_entry sample_runtime) sample_calls sample_deployment = sample_live"
proof -
  let ?P = "sample_opened\<lparr>pg_offers := absent_account(199 :=
    (absent_account 199)\<lparr>a_owner := 50, a_data := AccountData made_offer\<rparr>)\<rparr>"
  have "exec_entry sample_runtime (900, MakeOffer sample_accounts 254 50 False True) sample_deployment = Err AnchorConstraint"
    by (simp add: Let_def sample_deployment_def)
  moreover have "add_offer_vector (pw_state (pg_core ?P)) sample_accounts 1000 None 1000 1000000000 97600 86400 made_offer =
      Ok one_vector_offer"
    using add_sample_vector by (simp add: add_offer_vector_def check_offer_accounts_def sample_opened_def sample_state_def)
  then have "exec_entry sample_runtime (1000, ChangeOffer 199 (AddVector sample_accounts 0 None 1000 1000000000 97600
      86400)) ?P = Ok sample_live"
    by (simp add: Let_def entry_change_offer_def sample_opened_def sample_live_def sample_accounts_def load_pda_account_def
        deserialize_pda_account_def absent_account_def)
  ultimately show ?thesis
    by (simp add: sample_calls_def sample_initialize sample_make_offer del: exec_entry.simps)
qed

lemma sample_calls_typed: "list_all (\<lambda>(now, c). clock_ok now \<and> typed_entry c) sample_calls"
  "list_all (\<lambda>(now, c). entry_keeps_books 22 c) sample_calls"
  by (simp_all add: sample_calls_def clock_ok_def int_defs default_pubkey_def)

theorem program_well_formed_from_deployment_witness:
  "run_ops (exec_entry sample_runtime) sample_calls sample_deployment = sample_live \<and>
   program_wf sample_env sample_live \<and> compute_offer_current_price one_vector_offer 5000 \<noteq> Err Panic"
proof -
  have "program_wf sample_env sample_live \<and> compute_offer_current_price one_vector_offer 5000 \<noteq> Err Panic"
    using program_well_formed_from_deployment [of sample_runtime sample_deployment sample_calls]
    unfolding sample_run sample_runtime_simps
    by (auto simp: sample_deployment_new sample_calls_typed sample_live_def dest: spec [of _ 199] spec [of _ "199::nat"])
  then show ?thesis using sample_run by simp
qed

text \<open>The same deployment goes on: main offer, worker, mint authority, the BUFFER and its first settlement.\<close>

definition sample_launch_calls :: "(i64 \<times> entry) list" where
  "sample_launch_calls = [(1000, ChangeOffer 199 (UpdatePermissionlessFee sample_accounts 100)),
     (1000, Existing (Govern (SetMainOffer 7 199 22))), (1000, Existing (Govern (SetWorker 7 8))),
     (1000, TransferMintAuthorityToProgram 7 sample_onyc),
     (1000, InitializeBuffer 7 sample_onyc (absent_account 199) 9)]"

definition sample_launched :: program where
  "sample_launched = sample_live\<lparr>
     pg_offers := absent_account(199 := (absent_account 199)\<lparr>a_owner := 50, a_data := AccountData sample_offer\<rparr>),
     pg_mints := (\<lambda>k. sample_mint k (Some 7) 0)(22 := sample_onyc),
     pg_core := (pg_core sample_live)\<lparr>
       pw_state := zero_state\<lparr>s_boss := 7, s_onyc_mint := 22, s_bump := 255, s_main_offer := 199, s_worker := 8\<rparr>,
       pw_buffer_accounts := (pw_buffer_accounts (pg_core sample_live))\<lparr>ba_buffer_state :=
         (absent_account 103)\<lparr>a_owner := 50, a_data := AccountData (zero_buffer_state\<lparr>b_onyc_mint := 22,
           b_performance_fee_high_watermark_enabled := True, b_last_accrual_timestamp := 1000, b_bump := 253\<rparr>)\<rparr>\<rparr>,
       pw_vaults := (pw_vaults (pg_core sample_live))(
         ManagementFee := (absent_account 199)\<lparr>a_owner := 50, a_data := AccountData (vault_init_value ManagementFee 255)\<rparr>,
         PerformanceFee := (absent_account 199)\<lparr>a_owner := 50, a_data := AccountData (vault_init_value PerformanceFee 255)\<rparr>)\<rparr>\<rparr>"

lemma sample_launch: "run_ops (exec_entry sample_runtime) sample_launch_calls sample_live = sample_launched"
proof -
  let ?e = "sample_env\<lparr>unix_timestamp := 1000\<rparr>"
  define P1 where "P1 = sample_live\<lparr>pg_offers := absent_account(199 :=
    (absent_account 199)\<lparr>a_owner := 50, a_data := AccountData sample_offer\<rparr>)\<rparr>"
  define P2 where "P2 = P1\<lparr>pg_core := (pg_core P1)\<lparr>pw_state := (pw_state (pg_core P1))\<lparr>s_main_offer := 199\<rparr>\<rparr>\<rparr>"
  define P3 where "P3 = P2\<lparr>pg_core := (pg_core P2)\<lparr>pw_state := (pw_state (pg_core P2))\<lparr>s_worker := 8\<rparr>\<rparr>\<rparr>"
  define P4 where "P4 = P3\<lparr>pg_mints := (pg_mints P3)(22 := sample_onyc)\<rparr>"
  have st: "pw_state (pg_core sample_live) = zero_state\<lparr>s_boss := 7, s_onyc_mint := 22, s_bump := 255\<rparr>"
    "pg_state_exists sample_live" "pg_mints sample_live = (\<lambda>k. sample_mint k (Some 7) 0)"
    "pw_ledger (pg_core sample_live) = w_ledger sample_world" "l_supply (w_ledger sample_world) 22 = 5000"
    "pw_vaults (pg_core sample_live) = (\<lambda>_. absent_account 199)"
    "pw_buffer_accounts (pg_core sample_live) = (w_buffer_accounts sample_world)\<lparr>ba_buffer_state := absent_account 103\<rparr>"
    by (simp_all add: sample_live_def sample_opened_def sample_deployment_def sample_protocol_def sample_world_def)
  have fee: "update_offer_permissionless_fee (pw_state (pg_core sample_live)) sample_accounts 100 one_vector_offer =
      Ok sample_offer"
    by (simp add: update_offer_permissionless_fee_def check_offer_accounts_def st sample_accounts_def one_vector_offer_def
        made_offer_def zero_offer_def sample_offer_def const_defs)
  have offers: "pg_offers sample_live = absent_account(199 := (absent_account 199)\<lparr>a_owner := 50, a_data := AccountData one_vector_offer\<rparr>)"
    by (simp add: sample_live_def)
  have k: "oa_token_in_mint sample_accounts = 21" "oa_token_out_mint sample_accounts = 22" by (simp_all add: sample_accounts_def)
  have s1: "exec_entry sample_runtime (1000, ChangeOffer 199 (UpdatePermissionlessFee sample_accounts 100)) sample_live = Ok P1"
    by (simp add: Let_def entry_change_offer_def st(2) fee offers k load_pda_account_def deserialize_pda_account_def P1_def)
  have s2: "exec_entry sample_runtime (1000, Existing (Govern (SetMainOffer 7 199 22))) P1 = Ok P2"
    by (simp add: Let_def entry_existing_def bind_accounts_def P1_def P2_def st update_def set_main_offer_def
        load_pda_account_def deserialize_pda_account_def sample_offer_def zero_state_def default_pubkey_def)
  have s3: "exec_entry sample_runtime (1000, Existing (Govern (SetWorker 7 8))) P2 = Ok P3"
    by (simp add: Let_def entry_existing_def bind_accounts_def P1_def P2_def P3_def st update_def set_worker_def
        zero_state_def default_pubkey_def)
  have m: "mint_at P3 sample_onyc = sample_mint 22 (Some 7) 5000"
    by (simp add: mint_at_def P3_def P2_def P1_def st reload_def sample_mint_def)
  have s4: "exec_entry sample_runtime (1000, TransferMintAuthorityToProgram 7 sample_onyc) P3 = Ok P4"
    by (simp add: Let_def entry_transfer_mint_authority_def m transfer_mint_authority_to_program_def)
      (simp add: sample_runtime_def sample_onyc_def sample_mint_def P1_def P2_def P3_def P4_def st)
  have m4: "mint_at P4 sample_onyc = sample_onyc"
    by (simp add: mint_at_def P4_def P3_def P2_def P1_def st reload_def sample_onyc_def sample_mint_def)
  have p4: "pg_state_exists P4" "pw_state (pg_core P4) = pw_state (pg_core sample_launched)"
    "pw_vaults (pg_core P4) = (\<lambda>_. absent_account 199)"
    "pw_buffer_accounts (pg_core P4) = (w_buffer_accounts sample_world)\<lparr>ba_buffer_state := absent_account 103\<rparr>"
    "offer_at P4 (absent_account 199) = (absent_account 199)\<lparr>a_owner := 50, a_data := AccountData sample_offer\<rparr>"
    by (simp_all add: P4_def P3_def P2_def P1_def st sample_launched_def offer_at_def)
  have none: "a_owner (absent_account k) = 90" for k :: pubkey by (simp add: absent_account_def)
  have vaults: "init_token_account ?e (sample_token 2082) 106 22 9 = Ok (sample_token 2082)"
    "init_token_account ?e (sample_token 3012) 199 22 9 = Ok (sample_token 3012)"
    by (simp_all add: init_token_account_def get_or_create_associated_token_account_def validate_associated_token_address_def
        token_account_try_from_def sample_token_def)
  have tokens: "ba_reserve_vault_onyc_account (w_buffer_accounts sample_world) = sample_token 2082"
    "ba_management_fee_vault_onyc_account (w_buffer_accounts sample_world) = sample_token 3012"
    "ba_performance_fee_vault_onyc_account (w_buffer_accounts sample_world) = sample_token 3012"
    by (simp_all add: sample_world_def)
  have init: "initialize_buffer ?e (pw_state (pg_core sample_launched)) 7 sample_onyc
      ((absent_account 199)\<lparr>a_owner := 50, a_data := AccountData sample_offer\<rparr>) zero_vault zero_vault None =
    Ok (zero_buffer_state\<lparr>b_onyc_mint := 22, b_performance_fee_high_watermark_enabled := True,
      b_last_accrual_timestamp := 1000, b_bump := 253\<rparr>, vault_init_value ManagementFee 255, vault_init_value PerformanceFee 255)"
    by (simp add: initialize_buffer_def sample_launched_def load_pda_account_def deserialize_pda_account_def sample_offer_def
        init_fee_vault_def zero_vault_def vault_init_value_def)
  have s5: "exec_entry sample_runtime (1000, InitializeBuffer 7 sample_onyc (absent_account 199) 9) P4 = Ok sample_launched"
    by (simp add: Let_def entry_initialize_buffer_def m4 p4 init_if_needed_def none tokens vaults init)
      (simp add: P4_def P3_def P2_def P1_def sample_launched_def st tokens)
  show ?thesis
    by (simp add: sample_launch_calls_def s1 s2 s3 s4 s5 del: exec_entry.simps)
qed

definition sample_first_settlement :: "i64 \<times> entry" where
  "sample_first_settlement = (5000, Existing (SettleBuffer 8 sample_onyc 9 (absent_account 199) (absent_account 102)))"

lemma sample_first_settlement_ok:
  "\<exists>P' b. exec_entry sample_runtime sample_first_settlement sample_launched = Ok P' \<and>
     a_owner (ba_buffer_state (pw_buffer_accounts (pg_core P'))) = 50 \<and>
     a_data (ba_buffer_state (pw_buffer_accounts (pg_core P'))) = AccountData b \<and> b_previous_supply b = 5000"
proof -
  let ?p = "pg_core sample_launched"
  let ?ba = "pw_buffer_accounts ?p" and ?st = "pw_state ?p" and ?L = "w_ledger sample_world"
  define b where "b = zero_buffer_state\<lparr>b_onyc_mint := 22, b_performance_fee_high_watermark_enabled := True,
    b_last_accrual_timestamp := 1000, b_bump := 253\<rparr>"
  have env: "sample_env\<lparr>unix_timestamp := 5000\<rparr> = sample_env" by (simp add: sample_env_def)
  have p: "pg_state_exists sample_launched" "pw_ledger ?p = ?L" "pw_market_stats ?p = absent_account 101"
    "mint_at sample_launched sample_onyc = sample_onyc" "reload ?L sample_onyc = sample_onyc"
    "excluded_balance_at sample_launched (absent_account 102) = absent_account 102"
    "offer_at sample_launched (absent_account 199) = (absent_account 199)\<lparr>a_owner := 50, a_data := AccountData sample_offer\<rparr>"
    by (simp_all add: sample_launched_def sample_live_def sample_opened_def sample_deployment_def sample_protocol_def
        mint_at_def reload_def sample_world_def excluded_balance_at_def offer_at_def)
      (simp_all add: sample_onyc_def sample_mint_def)
  have ba: "load_buffer_state sample_env ?ba = Ok b"
    "validate_buffer_onyc_vault_accounts sample_env b ?ba sample_onyc 9 = Ok ()"
    by (simp_all add: load_buffer_state_Ok validate_buffer_onyc_vault_accounts_def sample_launched_def sample_live_def
        sample_opened_def sample_deployment_def sample_protocol_def sample_world_def sample_token_def b_def)
  have "\<exists>r b'. accrue_buffer plain_token_program ?st sample_offer sample_onyc
      (ba_reserve_vault_onyc_account ?ba) (ba_management_fee_vault_onyc_account ?ba)
      (ba_performance_fee_vault_onyc_account ?ba) 104 9 5000 b ?L = Ok (r, b', ?L) \<and> b_previous_supply b' = 5000"
    by (simp add: accrue_buffer_def sample_price i64_as_u64_def checked_sub_i64_def int_defs
        sample_onyc_def sample_mint_def set_buffer_baseline_after_supply_change_def b_def zero_buffer_state_def)
  then obtain r b' where acc: "accrue_buffer plain_token_program ?st sample_offer sample_onyc
      (ba_reserve_vault_onyc_account ?ba) (ba_management_fee_vault_onyc_account ?ba)
      (ba_performance_fee_vault_onyc_account ?ba) 104 9 5000 b ?L = Ok (r, b', ?L)" "b_previous_supply b' = 5000" by blast
  obtain ba' where str: "store_buffer_state ?ba b' = Ok ba'" "load_buffer_state sample_env ba' = Ok b'"
    by (simp add: store_buffer_state_Ok load_buffer_state_Ok) (simp add: sample_launched_def)
  have st: "s_worker ?st = 8" "s_onyc_mint ?st = 22" "\<not> s_is_killed ?st" "s_main_offer ?st = 199"
    by (simp_all add: sample_launched_def zero_state_def)
  have main: "load_main_offer sample_env ((absent_account 199)\<lparr>a_owner := 50, a_data := AccountData sample_offer\<rparr>) ?st = Ok sample_offer"
    by (simp add: load_main_offer_def st load_pda_account_def deserialize_pda_account_def)
  have auth: "m_mint_authority sample_onyc = Some 104" by (simp add: sample_onyc_def sample_mint_def)
  have "accrue_buffer_from_accounts sample_env plain_token_program ?st ?ba sample_offer sample_onyc 104 9 ?L = Ok (r, ba', ?L)"
    using acc(1) str(1) by (simp add: accrue_buffer_from_accounts_def ba cong: eval_congs)
  then have "settle_buffer sample_env plain_token_program ?st 8 sample_onyc 9
      ((absent_account 199)\<lparr>a_owner := 50, a_data := AccountData sample_offer\<rparr>) (absent_account 102) (buffer_view ?p) =
    Ok \<lparr>w_ledger = ?L, w_buffer_accounts = ba', w_market_stats =
      (absent_account 101)\<lparr>a_owner := 50, a_data := AccountData sample_stats\<rparr>\<rparr>"
    by (simp add: settle_buffer_def st main auth accrue_and_refresh_def buffer_view_def p sample_refresh default_pubkey_def
        cong: eval_congs)
  then have "exec_entry sample_runtime sample_first_settlement sample_launched =
      Ok (sample_launched\<lparr>pg_core := put_buffer ?p \<lparr>w_ledger = ?L, w_buffer_accounts = ba', w_market_stats =
        (absent_account 101)\<lparr>a_owner := 50, a_data := AccountData sample_stats\<rparr>\<rparr>\<rparr>)"
    by (simp add: sample_first_settlement_def Let_def p entry_existing_def bind_accounts_def env update_def)
  with str(2) acc(2) show ?thesis by (simp add: put_buffer_def load_buffer_state_Ok)
qed

theorem baseline_is_actual_supply_from_deployment_witness:
  "\<exists>P' b. run_ops (exec_entry sample_runtime) (sample_calls @ sample_launch_calls @ [sample_first_settlement])
       sample_deployment = P' \<and>
     a_owner (ba_buffer_state (pw_buffer_accounts (pg_core P'))) = 50 \<and>
     a_data (ba_buffer_state (pw_buffer_accounts (pg_core P'))) = AccountData b \<and>
     b_previous_supply b = 5000 \<and> b_previous_supply b = l_supply (pw_ledger (pg_core P')) 22"
proof -
  let ?cs = "sample_calls @ sample_launch_calls @ [sample_first_settlement]"
  obtain P' b where ok: "exec_entry sample_runtime sample_first_settlement sample_launched = Ok P'"
    and b: "a_owner (ba_buffer_state (pw_buffer_accounts (pg_core P'))) = 50"
     "a_data (ba_buffer_state (pw_buffer_accounts (pg_core P'))) = AccountData b" "b_previous_supply b = 5000"
    using sample_first_settlement_ok by blast
  have run: "run_ops (exec_entry sample_runtime) ?cs sample_deployment = P'"
    by (simp add: run_ops_append sample_run sample_launch ok del: exec_entry.simps)
  have "list_all (\<lambda>(now, c). entry_keeps_books 22 c) ?cs"
    using sample_calls_typed(2) by (simp add: sample_launch_calls_def sample_first_settlement_def)
  with baseline_is_actual_supply_from_deployment [of sample_runtime sample_deployment 22 ?cs]
    plain_token_program_laws sample_deployment_new
  have "baseline 50 22 (pw_buffer_accounts (pg_core P')) (pw_ledger (pg_core P'))" unfolding run by simp
  then have "b_previous_supply b = l_supply (pw_ledger (pg_core P')) 22" using b by (simp add: baseline_def)
  with run b show ?thesis by blast
qed

theorem closing_the_state_stops_the_program_witness:
  "exec_entry sample_runtime (2000, CloseState 7 10 20) sample_live = Ok (sample_live\<lparr>pg_state_exists := False\<rparr>) \<and>
   run_ops (exec_entry sample_runtime) [(3000, MakeOffer sample_accounts 254 50 False True), (3000, CloseState 7 10 20)]
     (sample_live\<lparr>pg_state_exists := False\<rparr>) = sample_live\<lparr>pg_state_exists := False\<rparr>"
proof -
  have boss: "s_boss (pw_state (pg_core sample_live)) = 7" "pg_state_exists sample_live"
    by (simp_all add: sample_live_def sample_opened_def)
  have "pubkey_of_bytes (key_bytes 7) = 7" "length (key_bytes 7) = 32"
    by (simp_all add: key_bytes_roundtrip) (simp add: key_bytes_def)
  then have ok: "exec_entry sample_runtime (2000, CloseState 7 10 20) sample_live = Ok (sample_live\<lparr>pg_state_exists := False\<rparr>)"
    by (simp add: Let_def entry_close_state_def close_state_def boss sample_runtime_def runtime_at_def int_defs)
  have "list_all (\<lambda>(now, c). \<not> reopens c) [(3000, MakeOffer sample_accounts 254 50 False True), (3000, CloseState 7 10 20)]"
    by simp
  from closing_the_state_stops_the_program [OF sample_serializes ok this] boss ok show ?thesis by simp
qed

theorem kill_switch_freezes_every_entry_point_witness:
  "pw_ledger (pg_core (run_ops (exec_entry sample_runtime)
       [(5000, ChangeOffer 199 (SetDisabled 7 True)), (5000, Existing (snd sample_settlement)), (6000, CloseState 7 10 20)]
       (sample_live\<lparr>pg_core := (pg_core sample_live)\<lparr>pw_state := sample_config\<lparr>s_is_killed := True\<rparr>\<rparr>\<rparr>))) =
     w_ledger sample_world"
proof -
  let ?P = "sample_live\<lparr>pg_core := (pg_core sample_live)\<lparr>pw_state := sample_config\<lparr>s_is_killed := True\<rparr>\<rparr>\<rparr>"
  have "s_is_killed (pw_state (pg_core ?P))" by simp
  moreover have "list_all (\<lambda>(now, c). \<not> entry_lifts_halt c) [(5000, ChangeOffer 199 (SetDisabled 7 True)),
      (5000, Existing (snd sample_settlement)), (6000, CloseState 7 10 20)]"
    by (simp add: sample_settlement_def)
  ultimately have "pw_ledger (pg_core (run_ops (exec_entry sample_runtime) [(5000, ChangeOffer 199 (SetDisabled 7 True)),
      (5000, Existing (snd sample_settlement)), (6000, CloseState 7 10 20)] ?P)) = pw_ledger (pg_core ?P)"
    by (rule kill_switch_freezes_every_entry_point [THEN conjunct1])
  also have "\<dots> = w_ledger sample_world"
    by (simp add: sample_live_def sample_opened_def sample_deployment_def sample_protocol_def)
  finally show ?thesis .
qed

definition sample_market :: program where
  "sample_market = sample_live\<lparr>pg_offers := absent_account(199 := sample_main_offer\<lparr>a_key := 199\<rparr>),
     pg_mints := (\<lambda>k. if k = 22 then sample_onyc else sample_mint k None 0),
     pg_core := (pg_core sample_live)\<lparr>pw_state := sample_config,
       pw_ledger := \<lparr>l_bal = (\<lambda>x. if x = 1081 then 1000 else 0), l_supply = (\<lambda>k. if k = 22 then 5000 else 0)\<rparr>\<rparr>\<rparr>"

lemma sample_market_accounts:
  "mint_at sample_market (sample_mint 21 None 0) = sample_mint 21 None 0" "mint_at sample_market sample_onyc = sample_onyc"
  "bind_take sample_market sample_direct = sample_direct"
proof -
  show m: "mint_at sample_market (sample_mint 21 None 0) = sample_mint 21 None 0"
      "mint_at sample_market sample_onyc = sample_onyc"
    by (simp_all add: mint_at_def reload_def sample_market_def) (simp_all add: sample_mint_def sample_onyc_def)
  show "bind_take sample_market sample_direct = sample_direct"
    by (simp add: bind_take_def sample_direct_def m offer_at_def sample_main_offer_def) (simp add: sample_market_def sample_main_offer_def)
qed

lemma sample_market_take:
  "\<exists>P'. exec_entry sample_runtime (5000, Existing (TakeOffer sv sample_direct 1000 None)) sample_market = Ok P'"
proof -
  let ?L = "pw_ledger (pg_core sample_market)"
  have "l_bal ?L 1081 = 1000" "l_supply ?L 22 = 5000" by (simp_all add: sample_market_def)
  then obtain L' where "take_offer sample_env plain_token_program sv sample_config sample_direct 1000 None ?L = Ok L'"
    using sample_direct_ok by blast
  moreover have env: "sample_env\<lparr>unix_timestamp := 5000\<rparr> = sample_env" by (simp add: sample_env_def)
  moreover have "pw_state (pg_core sample_market) = sample_config" "pg_state_exists sample_market"
    by (simp_all add: sample_market_def sample_live_def sample_opened_def)
  moreover have "reload ?L (k_token_in_mint sample_direct) = k_token_in_mint sample_direct"
    "reload ?L (k_token_out_mint sample_direct) = k_token_out_mint sample_direct"
    by (simp_all add: sample_direct_def sample_market_def reload_def) (simp_all add: sample_mint_def sample_onyc_def)
  ultimately show ?thesis
    by (simp add: Let_def entry_existing_def bind_accounts_def sample_market_accounts update_def env)
qed

theorem published_nav_is_the_execution_price_witness:
  "\<exists>P' net fee out. exec_entry sample_runtime (5000, Existing (TakeOffer sample_sysvar sample_direct 1000 None))
       sample_market = Ok P' \<and>
     exec_query sample_runtime 5000 (GetNav (sample_mint 21 None 0) sample_onyc) sample_market = Ok (Amount 1000267397) \<and>
     calculate_fees 1000 50 = Ok \<lparr>fr_token_in_fee_amount = fee, fr_token_in_net_amount = net\<rparr> \<and>
     calculate_token_out_amount net 1000267397 6 6 = Ok out \<and> l_bal (pw_ledger (pg_core P')) 1082 = out"
proof -
  obtain P' where ok: "exec_entry sample_runtime (5000, Existing (TakeOffer sample_sysvar sample_direct 1000 None))
      sample_market = Ok P'"
    using sample_market_take by blast
  have k: "k_token_in_mint sample_direct = sample_mint 21 None 0" "k_token_out_mint sample_direct = sample_onyc"
    "t_key (k_user_token_in_account sample_direct) = 1081" "t_key (k_boss_token_in_account sample_direct) = 1091"
    "t_key (k_user_token_out_account sample_direct) = 1082" "t_key (k_vault_token_out_account sample_direct) = 2072"
    by (simp_all add: sample_direct_def sample_token_def)
  have off: "stored_offer (sample_env\<lparr>unix_timestamp := 5000\<rparr>) sample_market (sample_mint 21 None 0) sample_onyc = Ok sample_offer"
    by (simp add: stored_offer_def sample_market_def sample_main_offer_def)
  have change: "compute_next_price_change_timestamp sample_offer sample_vector 5000 = Ok 87400"
    by (simp add: compute_next_price_change_timestamp_def find_next_vector_after_def sample_offer_def
        sample_vector_def default_vector_def price_eval_simps)
  have nav: "exec_query sample_runtime 5000 (GetNav (k_token_in_mint sample_direct) (k_token_out_mint sample_direct))
      sample_market = Ok (Amount 1000267397)"
    unfolding k
    by (simp add: Let_def off answer_with_def get_nav_def sample_offer_flags get_offer_valuation_snapshot_def
        sample_price i64_as_u64_def change)
  have bal: "l_bal (pw_ledger (pg_core sample_market)) 1082 = 0" by (simp add: sample_market_def)
  have "distinct [t_key (k_user_token_in_account sample_direct), t_key (k_boss_token_in_account sample_direct),
      t_key (k_user_token_out_account sample_direct), t_key (k_vault_token_out_account sample_direct)]"
    by (simp add: k)
  from published_nav_is_the_execution_price [OF _ ok nav this] show ?thesis
    using ok nav plain_token_program_laws
    by (simp add: k off bal sample_market_accounts sample_offer_flags sample_runtime_simps)
      (simp add: sample_mint_def sample_onyc_def)
qed

end
