(* ===== verification/Fuzz_Harness.thy ===== *)
theory Fuzz_Harness
  imports Treasury
begin

text \<open>
  The fuzz harness beside the program (\<open>trident-tests/fuzz_0\<close>): the assertions of
  \<open>invariants.rs\<close>, the vector helpers of \<open>utility.rs\<close> and the functions of \<open>test_fuzz.rs\<close> that
  send one instruction and check its outcome, with the flows over the boss and the admins.

  The harness executes the instructions of the program, so its functions are modelled over the
  program's own definitions; a transaction that fails leaves the accounts as they were. A failed
  assertion, \<open>panic!\<close>, \<open>expect\<close> on nothing or an arithmetic overflow is \<open>Err Panic\<close>. The random
  choices of a flow are arguments. The generated mirror types of \<open>types.rs\<close> have the fields of
  the program's accounts, whose records stand for them; a token account is its balance.

  The theorems say which assertions every run of the program satisfies, and which assertions no
  longer describe the program.
\<close>

section \<open>Assertions\<close>

definition assert_that :: "bool \<Rightarrow> unit result" where
  "assert_that b = require b Panic (Ok ())"

lemma assert_that_simps [simp]:
  "assert_that b = Ok u \<longleftrightarrow> b" "assert_that b = Err e \<longleftrightarrow> \<not> b \<and> e = Panic" "assert_that True = Ok ()"
  by (auto simp: assert_that_def require_def)

text \<open>
  The loops over the 20 admin slots return at the first slot that held \<open>old\<close> before, after
  asserting what the slot holds now.
\<close>

fun check_first_slot :: "pubkey \<Rightarrow> pubkey \<Rightarrow> nat list \<Rightarrow> pubkey list \<Rightarrow> pubkey list \<Rightarrow> unit result" where
  "check_first_slot old new [] before after = Err Panic"
| "check_first_slot old new (i # is) before after =
     (if before ! i = old then assert_that (after ! i = new)
      else check_first_slot old new is before after)"

definition remove_admin_invariant :: "state \<Rightarrow> state \<Rightarrow> pubkey \<Rightarrow> unit result" where
  "remove_admin_invariant state_after state_before removed_admin =
     check_first_slot removed_admin default_pubkey [0..<20] (s_admins state_before) (s_admins state_after)"

definition set_admin_invariant :: "state \<Rightarrow> state \<Rightarrow> pubkey \<Rightarrow> unit result" where
  "set_admin_invariant state_after state_before new_admin =
     check_first_slot default_pubkey new_admin [0..<20] (s_admins state_before) (s_admins state_after)"

definition propose_boss_invariant :: "state \<Rightarrow> state \<Rightarrow> pubkey \<Rightarrow> pubkey \<Rightarrow> unit result" where
  "propose_boss_invariant state_after state_before new_boss old_boss =
     and_then (assert_that (s_proposed_boss state_after = new_boss)) (\<lambda>_.
     assert_that (s_boss state_before = old_boss))"

definition accept_boss_invariant :: "state \<Rightarrow> state \<Rightarrow> pubkey \<Rightarrow> unit result" where
  "accept_boss_invariant state_after state_before new_boss =
     and_then (assert_that (s_proposed_boss state_before = new_boss)) (\<lambda>_.
     and_then (assert_that (s_proposed_boss state_after = default_pubkey)) (\<lambda>_.
     assert_that (s_boss state_after = new_boss)))"

definition find_active_pricing_vector :: "offer_vector list \<Rightarrow> u64 \<Rightarrow> offer_vector option" where
  "find_active_pricing_vector vectors time =
     max_by_key v_start_time (filter (\<lambda>v. v_start_time v \<noteq> 0 \<and> v_start_time v \<le> time) vectors)"

definition SECONDS_IN_YEAR :: u128 where [const_defs]: "SECONDS_IN_YEAR = 31536000"

definition calculate_price :: "u64 \<Rightarrow> u64 \<Rightarrow> u64 \<Rightarrow> u64 \<Rightarrow> u64 \<Rightarrow> u64 result" where
  "calculate_price apr base_price base_time price_fix_duration current_time =
     (if base_time > current_time then Ok base_price
      else
        let elapsed_since_start = saturating_sub current_time base_time in
        and_then (ok_or (checked_div elapsed_since_start price_fix_duration) Panic) (\<lambda>current_step.
        and_then (ok_or (checked_add u64_max current_step 1) Panic) (\<lambda>k.
        and_then (ok_or (checked_mul u64_max k price_fix_duration) Panic) (\<lambda>step_end_time.
        and_then (ok_or (checked_mul u128_max APR_SCALE SECONDS_IN_YEAR) Panic) (\<lambda>factor_den.
        and_then (ok_or (checked_mul u128_max apr step_end_time) Panic) (\<lambda>y_part.
        and_then (ok_or (checked_add u128_max factor_den y_part) Panic) (\<lambda>factor_num.
        and_then (ok_or (checked_mul u128_max base_price factor_num) Panic) (\<lambda>scaled.
        and_then (ok_or (checked_div scaled factor_den) Panic) (\<lambda>price_u128.
        if price_u128 > u64_max then Err Panic else Ok (as_u64 price_u128))))))))))"

definition calculate_token_out :: "u64 \<Rightarrow> u64 \<Rightarrow> u8 \<Rightarrow> u8 \<Rightarrow> u64 result" where
  "calculate_token_out token_in_amount price token_in_decimals token_out_decimals =
     and_then (ok_or (checked_mul u128_max token_in_amount (10 ^ 9)) Panic) (\<lambda>scaled.
     and_then (ok_or (checked_pow u128_max 10 token_out_decimals) Panic) (\<lambda>out_scale.
     and_then (ok_or (checked_mul u128_max scaled out_scale) Panic) (\<lambda>numerator.
     and_then (ok_or (checked_pow u128_max 10 token_in_decimals) Panic) (\<lambda>in_scale.
     and_then (ok_or (checked_mul u128_max price in_scale) Panic) (\<lambda>denominator.
     and_then (ok_or (checked_div numerator denominator) Panic) (\<lambda>token_out.
     if token_out > u64_max then Err Panic else Ok (as_u64 token_out)))))))"

text \<open>The arguments that the source ignores (names with an underscore) are left out.\<close>

record offer_balances =
  ob_user_token_in :: u64
  ob_user_token_out :: "u64 option"
  ob_boss_token_in :: u64

text \<open>
  The fee is at most the amount for at most 10000 basis points; the subtraction of a larger one
  panics, and so does reading the output account when it does not exist afterwards.
\<close>

definition take_offer_invariant ::
  "offer \<Rightarrow> offer_balances \<Rightarrow> offer_balances \<Rightarrow> u8 \<Rightarrow> u8 \<Rightarrow> u64 \<Rightarrow> u64 \<Rightarrow> unit result" where
  "take_offer_invariant offer_before before after token_in_decimals token_out_decimals
     token_in_amount current_time =
     and_then (ok_or (checked_sub (ob_user_token_in before) (ob_user_token_in after)) Panic) (\<lambda>user_paid.
     and_then (assert_that (user_paid = token_in_amount)) (\<lambda>_.
     and_then (ok_or (checked_sub (ob_boss_token_in after) (ob_boss_token_in before)) Panic) (\<lambda>boss_received.
     and_then (assert_that (boss_received = token_in_amount)) (\<lambda>_.
     let out_before = (case ob_user_token_out before of Some n \<Rightarrow> n | None \<Rightarrow> 0) in
     and_then (ok_or (ob_user_token_out after) Panic) (\<lambda>out_after.
     and_then (ok_or (checked_sub out_after out_before) Panic) (\<lambda>user_received.
     and_then (ok_or (find_active_pricing_vector (o_vectors offer_before) current_time) Panic) (\<lambda>active_vector.
     and_then (calculate_price (v_apr active_vector) (v_base_price active_vector) (v_base_time active_vector)
         (v_price_fix_duration active_vector) current_time) (\<lambda>price.
     let fee = as_u64 (token_in_amount * o_fee_basis_points offer_before div 10000) in
     and_then (ok_or (checked_sub token_in_amount fee) Panic) (\<lambda>remaining.
     and_then (calculate_token_out remaining price token_in_decimals token_out_decimals) (\<lambda>expected.
     assert_that (user_received = expected)))))))))))"

definition initialize_invariant :: "state \<Rightarrow> pubkey \<Rightarrow> pubkey \<Rightarrow> unit result" where
  "initialize_invariant state_account boss onyc_mint =
     and_then (assert_that (s_boss state_account = boss)) (\<lambda>_.
     and_then (assert_that (s_proposed_boss state_account = default_pubkey)) (\<lambda>_.
     and_then (assert_that (\<not> s_is_killed state_account)) (\<lambda>_.
     and_then (assert_that (s_onyc_mint state_account = onyc_mint)) (\<lambda>_.
     and_then (assert_that (s_admins state_account = replicate 20 default_pubkey)) (\<lambda>_.
     and_then (assert_that (s_approver1 state_account = default_pubkey)) (\<lambda>_.
     and_then (assert_that (s_approver2 state_account = default_pubkey)) (\<lambda>_.
     assert_that (s_max_supply state_account = 0))))))))"

definition initialize_permissionless_authority_invariant :: "nat list account \<Rightarrow> nat list \<Rightarrow> unit result"
  where
  "initialize_permissionless_authority_invariant permissionless_authority name =
     (case a_data permissionless_authority of
        AccountData stored \<Rightarrow> assert_that (stored = trim name)
      | _ \<Rightarrow> Err Panic)"

definition offer_vault_deposit_invariant :: "u64 \<Rightarrow> u64 \<Rightarrow> u64 option \<Rightarrow> u64 \<Rightarrow> u64 \<Rightarrow> unit result" where
  "offer_vault_deposit_invariant boss_before boss_after vault_before vault_after amount =
     and_then (ok_or (checked_sub boss_before amount) Panic) (\<lambda>expected.
     and_then (assert_that (expected = boss_after)) (\<lambda>_.
     case vault_before of
       Some vault_before \<Rightarrow>
         and_then (ok_or (checked_add u64_max vault_before amount) Panic) (\<lambda>expected.
         assert_that (expected = vault_after))
     | None \<Rightarrow> assert_that (vault_after = amount)))"

definition offer_vault_withdraw_invariant :: "u64 \<Rightarrow> u64 \<Rightarrow> u64 \<Rightarrow> u64 \<Rightarrow> u64 \<Rightarrow> unit result" where
  "offer_vault_withdraw_invariant boss_before boss_after vault_before vault_after amount =
     and_then (ok_or (checked_add u64_max boss_before amount) Panic) (\<lambda>expected.
     and_then (assert_that (expected = boss_after)) (\<lambda>_.
     and_then (ok_or (checked_sub vault_before amount) Panic) (\<lambda>expected.
     assert_that (expected = vault_after))))"

text \<open>The source computes whether all vectors are empty and drops the result.\<close>

definition make_offer_invariant :: "offer \<Rightarrow> u16 \<Rightarrow> pubkey \<Rightarrow> pubkey \<Rightarrow> bool \<Rightarrow> bool \<Rightarrow> unit result" where
  "make_offer_invariant offer fee_basis_points token_in_mint token_out_mint approval permissionless =
     and_then (assert_that (o_token_in_mint offer = token_in_mint)) (\<lambda>_.
     and_then (assert_that (o_token_out_mint offer = token_out_mint)) (\<lambda>_.
     and_then (assert_that (o_fee_basis_points offer = fee_basis_points)) (\<lambda>_.
     and_then (assert_that (o_needs_approval offer = of_bool approval)) (\<lambda>_.
     assert_that (o_allow_permissionless offer = of_bool permissionless)))))"

definition fuzz_find_active_vector_at :: "offer \<Rightarrow> u64 \<Rightarrow> offer_vector option" where
  "fuzz_find_active_vector_at offer time =
     max_by_key v_start_time (filter (\<lambda>v. v_start_time v \<noteq> 0 \<and> v_start_time v \<le> time) (o_vectors offer))"

definition fuzz_clean_old_vectors :: "offer \<Rightarrow> offer_vector \<Rightarrow> u64 \<Rightarrow> offer result" where
  "fuzz_clean_old_vectors offer new_vector current_time =
     (case (if v_start_time new_vector = current_time then Some new_vector
            else fuzz_find_active_vector_at offer current_time) of
        None \<Rightarrow> Ok offer
      | Some active_vector \<Rightarrow>
          let active_start = v_start_time active_vector in
          and_then (ok_or (checked_sub active_start 1) Panic) (\<lambda>before.
          let prev_start = (case fuzz_find_active_vector_at offer before of
                              Some v \<Rightarrow> v_start_time v
                            | None \<Rightarrow> 0)
          in Ok (offer\<lparr>o_vectors :=
               map (\<lambda>v. if v_start_time v \<noteq> 0 \<and> v_start_time v \<noteq> active_start \<and>
                           v_start_time v \<noteq> prev_start \<and> v_start_time v < active_start
                         then default_vector else v) (o_vectors offer)\<rparr>)))"

text \<open>The new slot's start time is compared with \<open>base_time\<close>.\<close>

definition add_offer_vector_invariant ::
  "offer \<Rightarrow> offer \<Rightarrow> u64 option \<Rightarrow> u64 \<Rightarrow> u64 \<Rightarrow> u64 \<Rightarrow> u64 \<Rightarrow> i64 \<Rightarrow> unit result" where
  "add_offer_vector_invariant offer_after offer_before start_time_opt base_time base_price apr
     price_fix_duration current_time =
     (let start_time = (case start_time_opt of Some t \<Rightarrow> t | None \<Rightarrow> max (i64_as_u64 current_time) base_time);
          new_vector = \<lparr>v_start_time = start_time, v_base_time = base_time, v_base_price = base_price,
            v_apr = apr, v_price_fix_duration = price_fix_duration\<rparr>
      in
      and_then (fuzz_clean_old_vectors offer_before new_vector (i64_as_u64 current_time)) (\<lambda>offer_before.
      and_then (ok_or (position_from 0 (\<lambda>v. v_start_time v = 0) (o_vectors offer_before)) Panic) (\<lambda>empty_index.
      let slot = o_vectors offer_after ! empty_index in
      and_then (assert_that (length (o_vectors offer_after) = 10)) (\<lambda>_.
      and_then (assert_that (v_start_time slot = base_time)) (\<lambda>_.
      and_then (assert_that (v_base_time slot = base_time)) (\<lambda>_.
      and_then (assert_that (v_base_price slot = base_price)) (\<lambda>_.
      and_then (assert_that (v_apr slot = apr)) (\<lambda>_.
      assert_that (v_price_fix_duration slot = price_fix_duration)))))))))"

section \<open>One instruction, sent and checked\<close>

text \<open>
  The code that a failed transaction reports. The program's enum is numbered from 6000, as the
  interface description in \<open>target/idl\<close> lists it; \<open>anchor_code\<close> is the code of the account
  constraint that failed, which Anchor defines.
\<close>

fun custom_error_code :: "nat \<Rightarrow> error \<Rightarrow> nat option" where
  "custom_error_code anchor_code (OnreError n) = Some (6000 + n)"
| "custom_error_code anchor_code AnchorConstraint = Some anchor_code"
| "custom_error_code anchor_code (TokenProgramError n) = Some n"
| "custom_error_code anchor_code Panic = None"

definition is_custom_error_with_code :: "nat \<Rightarrow> error \<Rightarrow> nat \<Rightarrow> bool" where
  "is_custom_error_with_code anchor_code err code \<longleftrightarrow> custom_error_code anchor_code err = Some code"

definition fuzz_remove_admin :: "nat \<Rightarrow> pubkey \<Rightarrow> pubkey \<Rightarrow> state \<Rightarrow> state result" where
  "fuzz_remove_admin anchor_code boss removed_admin state_before =
     (case remove_admin boss removed_admin state_before of
        Ok state_after \<Rightarrow>
          and_then (remove_admin_invariant state_after state_before removed_admin) (\<lambda>_. Ok state_after)
      | Err err \<Rightarrow>
          and_then (assert_that ((removed_admin \<notin> set (s_admins state_before)) =
              is_custom_error_with_code anchor_code err 6000)) (\<lambda>_. Ok state_before))"

definition fuzz_set_admin :: "pubkey \<Rightarrow> pubkey \<Rightarrow> state \<Rightarrow> state result" where
  "fuzz_set_admin boss new_admin state_before =
     (case add_admin boss new_admin state_before of
        Ok state_after \<Rightarrow>
          and_then (set_admin_invariant state_after state_before new_admin) (\<lambda>_. Ok state_after)
      | Err err \<Rightarrow> Ok state_before)"

definition fuzz_propose_boss :: "nat \<Rightarrow> pubkey \<Rightarrow> pubkey \<Rightarrow> state \<Rightarrow> state result" where
  "fuzz_propose_boss anchor_code old_boss new_boss state_before =
     (case propose_boss old_boss new_boss state_before of
        Ok state_after \<Rightarrow>
          and_then (propose_boss_invariant state_after state_before new_boss old_boss) (\<lambda>_. Ok state_after)
      | Err err \<Rightarrow>
          and_then (assert_that ((s_boss state_before \<noteq> old_boss) =
              is_custom_error_with_code anchor_code err 2001)) (\<lambda>_. Ok state_before))"

definition fuzz_accept_boss :: "nat \<Rightarrow> pubkey \<Rightarrow> state \<Rightarrow> state result" where
  "fuzz_accept_boss anchor_code new_boss state_before =
     (case accept_boss new_boss state_before of
        Ok state_after \<Rightarrow>
          and_then (accept_boss_invariant state_after state_before new_boss) (\<lambda>_. Ok state_after)
      | Err err \<Rightarrow>
          and_then (assert_that ((s_proposed_boss state_before \<noteq> new_boss) =
              is_custom_error_with_code anchor_code err 6000)) (\<lambda>_. Ok state_before))"

definition offer_balances_of :: "take_offer_accounts \<Rightarrow> bool \<Rightarrow> ledger \<Rightarrow> offer_balances" where
  "offer_balances_of a user_out_exists L =
     \<lparr>ob_user_token_in = l_bal L (t_key (k_user_token_in_account a)),
      ob_user_token_out = (if user_out_exists then Some (l_bal L (t_key (k_user_token_out_account a))) else None),
      ob_boss_token_in = l_bal L (t_key (k_boss_token_in_account a))\<rparr>"

text \<open>
  The harness expects every account but the user's output account before the instruction, and
  that one afterwards; the instruction has created it.
\<close>

definition fuzz_take_offer ::
  "env \<Rightarrow> spl_token \<Rightarrow> sysvar \<Rightarrow> state \<Rightarrow> take_offer_accounts \<Rightarrow> u64 \<Rightarrow> ledger \<Rightarrow> ledger result" where
  "fuzz_take_offer e spl sv st a token_in_amount L =
     and_then (map_err (deserialize_pda_account (k_offer a) Panic) Panic) (\<lambda>offer_before.
     and_then (assert_that (t_is_token (k_user_token_in_account a) \<and> t_is_token (k_boss_token_in_account a) \<and>
         t_is_token (k_vault_token_in_account a) \<and> t_is_token (k_vault_token_out_account a))) (\<lambda>_.
     case take_offer e spl sv st a token_in_amount None L of
       Err _ \<Rightarrow> Err Panic
     | Ok L' \<Rightarrow>
         and_then (take_offer_invariant offer_before
             (offer_balances_of a (t_is_token (k_user_token_out_account a)) L) (offer_balances_of a True L')
             (m_decimals (k_token_in_mint a)) (m_decimals (k_token_out_mint a)) token_in_amount
             (i64_as_u64 (unix_timestamp e))) (\<lambda>_. Ok L')))"

definition fuzz_add_offer_vector ::
  "nat \<Rightarrow> state \<Rightarrow> offer_accounts \<Rightarrow> i64 \<Rightarrow> u64 option \<Rightarrow> u64 \<Rightarrow> u64 \<Rightarrow> u64 \<Rightarrow> u64 \<Rightarrow> offer \<Rightarrow> offer result" where
  "fuzz_add_offer_vector anchor_code st a current_time start_time base_time base_price apr
     price_fix_duration offer_before =
     (case add_offer_vector st a current_time start_time base_time base_price apr price_fix_duration
         offer_before of
        Ok offer_after \<Rightarrow>
          and_then (add_offer_vector_invariant offer_after offer_before start_time base_time base_price
              apr price_fix_duration current_time) (\<lambda>_. Ok offer_after)
      | Err err \<Rightarrow>
          let has_empty_slot = list_ex (\<lambda>v. v_start_time v = 0) (o_vectors offer_before) in
          and_then (assert_that ((\<not> has_empty_slot) = is_custom_error_with_code anchor_code err 6003))
            (\<lambda>_. Ok offer_before))"

definition fuzz_make_offer ::
  "state \<Rightarrow> offer_accounts \<Rightarrow> u8 \<Rightarrow> u16 \<Rightarrow> bool \<Rightarrow> bool \<Rightarrow> offer option \<Rightarrow> offer result" where
  "fuzz_make_offer st a bump fee_basis_points approval permissionless existing =
     (case make_offer st a bump fee_basis_points approval permissionless existing of
        Err _ \<Rightarrow> Err Panic
      | Ok offer \<Rightarrow>
          and_then (make_offer_invariant offer fee_basis_points (oa_token_in_mint a) (oa_token_out_mint a)
              approval permissionless) (\<lambda>_. Ok offer))"

definition fuzz_withdraw_from_vault ::
  "env \<Rightarrow> spl_token \<Rightarrow> state \<Rightarrow> vault_accounts \<Rightarrow> u64 \<Rightarrow> ledger \<Rightarrow> ledger result" where
  "fuzz_withdraw_from_vault e spl st a withdraw_amount L =
     (let boss_ata = t_key (va_party_token_account a); vault = t_key (va_vault_token_account a) in
      and_then (assert_that (t_is_token (va_party_token_account a) \<and> t_is_token (va_vault_token_account a))) (\<lambda>_.
      case offer_vault_withdraw e spl st a withdraw_amount L of
        Err _ \<Rightarrow> Err Panic
      | Ok L' \<Rightarrow>
          and_then (offer_vault_withdraw_invariant (l_bal L boss_ata) (l_bal L' boss_ata) (l_bal L vault)
              (l_bal L' vault) withdraw_amount) (\<lambda>_. Ok L')))"

definition fuzz_setup_and_initialize ::
  "pubkey \<Rightarrow> pubkey \<Rightarrow> pubkey \<Rightarrow> program_data_account option \<Rightarrow> pubkey \<Rightarrow> pubkey \<Rightarrow> u8 \<Rightarrow> state option \<Rightarrow>
     state result" where
  "fuzz_setup_and_initialize bpf_loader expected_pd owner program_data boss onyc_mint bump existing =
     (case initialize bpf_loader expected_pd owner program_data boss onyc_mint bump existing of
        Err _ \<Rightarrow> Err Panic
      | Ok state \<Rightarrow> and_then (initialize_invariant state boss onyc_mint) (\<lambda>_. Ok state))"

definition fuzz_setup_permissionless_authority ::
  "env \<Rightarrow> state \<Rightarrow> pubkey \<Rightarrow> nat list \<Rightarrow> nat list account \<Rightarrow> nat list account result" where
  "fuzz_setup_permissionless_authority e st boss name account =
     (case initialize_permissionless_authority e st boss name account of
        Err _ \<Rightarrow> Err Panic
      | Ok account \<Rightarrow>
          and_then (initialize_permissionless_authority_invariant account name) (\<lambda>_. Ok account))"

section \<open>Flows\<close>

definition fuzz_flow1 ::
  "nat \<Rightarrow> env \<Rightarrow> spl_token \<Rightarrow> sysvar \<Rightarrow> state \<Rightarrow> offer_accounts \<Rightarrow> take_offer_accounts \<Rightarrow> bool \<Rightarrow> u64 \<Rightarrow> u64 \<Rightarrow>
     u64 \<Rightarrow> offer \<Rightarrow> ledger \<Rightarrow> (offer \<times> ledger) result" where
  "fuzz_flow1 anchor_code e spl sv st oa a random_bool base_price apr price_fix_duration offer L =
     (let base_time = i64_as_u64 (unix_timestamp e);
          start_time = (if random_bool then None else Some base_time)
      in
      and_then (fuzz_add_offer_vector anchor_code st oa (unix_timestamp e) start_time base_time base_price apr
          price_fix_duration offer) (\<lambda>offer.
      let e = e\<lparr>unix_timestamp := unix_timestamp e + 100000000\<rparr>;
          a = a\<lparr>k_offer := (k_offer a)\<lparr>a_data := AccountData offer\<rparr>\<rparr>
      in
      and_then (fuzz_take_offer e spl sv st a 100 L) (\<lambda>L. Ok (offer, L))))"

definition fuzz_flow2 :: "nat \<Rightarrow> pubkey \<Rightarrow> nat \<Rightarrow> pubkey \<Rightarrow> pubkey \<Rightarrow> state \<Rightarrow> state result" where
  "fuzz_flow2 anchor_code boss x random_pubkey new_boss s =
     (let old_boss = (if x = 0 then boss else random_pubkey) in
      and_then (fuzz_propose_boss anchor_code old_boss new_boss s) (\<lambda>s.
      and_then (fuzz_accept_boss anchor_code new_boss s) (\<lambda>s.
      and_then (fuzz_propose_boss anchor_code new_boss old_boss s) (\<lambda>s.
      fuzz_accept_boss anchor_code old_boss s))))"

definition fuzz_flow3 :: "pubkey \<Rightarrow> pubkey \<Rightarrow> state \<Rightarrow> state result" where
  "fuzz_flow3 boss new_admin s = fuzz_set_admin boss new_admin s"

text \<open>\<open>stored_admin\<close> is a random key of the harness's admin storage, nothing when it is empty.\<close>

definition fuzz_flow4 :: "nat \<Rightarrow> pubkey \<Rightarrow> nat \<Rightarrow> pubkey option \<Rightarrow> pubkey \<Rightarrow> state \<Rightarrow> state result" where
  "fuzz_flow4 anchor_code boss x stored_admin random_pubkey s =
     (let removed_admin = (if x = 0 then (case stored_admin of None \<Rightarrow> random_pubkey | Some k \<Rightarrow> k)
                           else random_pubkey)
      in fuzz_remove_admin anchor_code boss removed_admin s)"

section \<open>Verdicts on governance\<close>

lemma check_first_slot_skip:
  "\<forall>j \<in> set is. before ! j \<noteq> old \<Longrightarrow>
     check_first_slot old new (is @ js) before after = check_first_slot old new js before after"
  by (induction "is") auto

lemma check_first_slot_hit:
  assumes "replace_first old new before = Some after" and "length before = n"
  shows "check_first_slot old new [0..<n] before after = Ok ()"
proof -
  from replace_first_split [OF assms(1)] obtain us vs where
    b: "before = us @ old # vs" and a: "after = us @ new # vs" and us: "old \<notin> set us" by blast
  have n: "[0..<n] = [0..<length us] @ length us # [Suc (length us)..<n]"
  proof -
    have "[0..<n] = [0..<length us] @ [length us..<n]"
      using assms(2) b upt_add_eq_append [of 0 "length us" "Suc (length vs)"] by simp
    then show ?thesis using assms(2) b by (simp add: upt_conv_Cons)
  qed
  have "\<forall>j \<in> set [0..<length us]. before ! j \<noteq> old"
    using us unfolding b by (auto simp: nth_append)
  then show ?thesis unfolding n by (simp add: check_first_slot_skip) (simp add: a b)
qed

lemma remove_admin_checked:
  "state_wf s \<Longrightarrow> remove_admin k a s = Ok s' \<Longrightarrow> remove_admin_invariant s' s a = Ok ()"
  by (auto simp: remove_admin_def remove_admin_invariant_def state_wf_def MAX_ADMINS_def
      split: option.splits intro: check_first_slot_hit)

lemma set_admin_checked:
  "state_wf s \<Longrightarrow> add_admin k a s = Ok s' \<Longrightarrow> set_admin_invariant s' s a = Ok ()"
  by (auto simp: add_admin_def set_admin_invariant_def state_wf_def MAX_ADMINS_def
      split: option.splits intro: check_first_slot_hit)

lemma fuzz_set_admin_eq:
  "state_wf s \<Longrightarrow> fuzz_set_admin boss k s = (case add_admin boss k s of Ok s' \<Rightarrow> Ok s' | Err _ \<Rightarrow> Ok s)"
  by (auto simp: fuzz_set_admin_def set_admin_checked split: result.splits)

lemma fuzz_propose_boss_eq:
  "fuzz_propose_boss 2001 old new s = (case propose_boss old new s of Ok s' \<Rightarrow> Ok s' | Err _ \<Rightarrow> Ok s)"
  by (auto simp: fuzz_propose_boss_def propose_boss_def propose_boss_invariant_def require_def
      is_custom_error_with_code_def)

lemma fuzz_accept_boss_eq:
  "fuzz_accept_boss anchor_code k s =
     (if s_proposed_boss s \<noteq> k then Err Panic
      else if k = default_pubkey then Ok s
      else Ok (s\<lparr>s_boss := k, s_proposed_boss := default_pubkey\<rparr>))"
  by (auto simp: fuzz_accept_boss_def accept_boss_def accept_boss_invariant_def require_def assert_that_def
      is_custom_error_with_code_def)

lemma fuzz_remove_admin_eq:
  assumes "state_wf s"
  shows "fuzz_remove_admin anchor_code (s_boss s) k s =
     (if k \<in> set (s_admins s) then remove_admin (s_boss s) k s else Err Panic)"
proof (cases "replace_first k default_pubkey (s_admins s)")
  case None
  then have "k \<notin> set (s_admins s)" by (simp add: replace_first_None_iff)
  moreover have "remove_admin (s_boss s) k s = Err AdminNotFound"
    using None by (simp add: remove_admin_def)
  ultimately show ?thesis
    by (simp add: fuzz_remove_admin_def is_custom_error_with_code_def assert_that_def)
next
  case (Some as)
  then have "k \<in> set (s_admins s)" by (metis option.distinct(1) replace_first_None_iff)
  moreover have "remove_admin (s_boss s) k s = Ok (s\<lparr>s_admins := as\<rparr>)"
    using Some by (simp add: remove_admin_def)
  ultimately show ?thesis
    by (simp add: fuzz_remove_admin_def remove_admin_checked [OF assms])
qed

text \<open>
  C37: The harness's checks of the governance instructions, decided on every well-formed state. Adding an admin and
  proposing a boss are never rejected: a success satisfies the assertions, a failure carries the
  expected code. Removing an admin and accepting the boss role are accepted exactly when the
  instruction has something to do. For a key that is not an admin, or not the proposed boss, the
  program answers as it should, but with error codes 6089, 6083 or 6084 where the harness expects
  6000, and the harness aborts.
\<close>

theorem harness_verdicts_on_governance:
  assumes "state_wf s"
  shows "fuzz_set_admin boss k s = (case add_admin boss k s of Ok s' \<Rightarrow> Ok s' | Err _ \<Rightarrow> Ok s) \<and>
    fuzz_propose_boss 2001 old new s = (case propose_boss old new s of Ok s' \<Rightarrow> Ok s' | Err _ \<Rightarrow> Ok s) \<and>
    fuzz_remove_admin anchor_code (s_boss s) k s =
      (if k \<in> set (s_admins s) then remove_admin (s_boss s) k s else Err Panic) \<and>
    fuzz_accept_boss anchor_code k s =
      (if s_proposed_boss s \<noteq> k then Err Panic
       else if k = default_pubkey then Ok s
       else Ok (s\<lparr>s_boss := k, s_proposed_boss := default_pubkey\<rparr>))"
  by (intro conjI fuzz_set_admin_eq [OF assms] fuzz_propose_boss_eq fuzz_remove_admin_eq [OF assms]
      fuzz_accept_boss_eq)

definition sample_governance :: state where
  "sample_governance = zero_state\<lparr>s_boss := 7, s_admins := 8 # replicate 19 default_pubkey\<rparr>"

lemma sample_governance_wf: "state_wf sample_governance"
  by (simp add: state_wf_def sample_governance_def zero_state_def MAX_ADMINS_def live_admins_def
      default_pubkey_def)

theorem harness_verdicts_on_governance_witness:
  "fuzz_remove_admin 2001 7 9 sample_governance = Err Panic \<and> remove_admin 7 9 sample_governance = Err AdminNotFound \<and>
   fuzz_remove_admin 2001 7 8 sample_governance = Ok (sample_governance\<lparr>s_admins := replicate 20 default_pubkey\<rparr>)"
proof -
  have s: "s_boss sample_governance = 7" "s_admins sample_governance = 8 # replicate 19 default_pubkey"
    by (simp_all add: sample_governance_def)
  have r: "remove_admin 7 9 sample_governance = Err AdminNotFound"
    "remove_admin 7 8 sample_governance = Ok (sample_governance\<lparr>s_admins := replicate 20 default_pubkey\<rparr>)"
    by (simp_all add: remove_admin_def s default_pubkey_def numeral_eq_Suc)
  show ?thesis
    using harness_verdicts_on_governance [OF sample_governance_wf, of 7 9 7 7 2001]
      harness_verdicts_on_governance [OF sample_governance_wf, of 7 8 7 7 2001] r
    unfolding s by (simp add: default_pubkey_def)
qed

text \<open>
  The flow over the boss. Started by the boss with a usable new key it hands the role over and
  back, and leaves the state as it was with no proposal open; started by anybody else it aborts,
  unless the new key had been proposed already.
\<close>

theorem boss_flow_restores_the_boss:
  assumes "state_wf s" and "new_boss \<noteq> default_pubkey"
  shows "fuzz_flow2 2001 (s_boss s) 0 random new_boss s = Ok (s\<lparr>s_proposed_boss := default_pubkey\<rparr>) \<and>
    (random \<noteq> s_boss s \<and> s_proposed_boss s \<noteq> new_boss \<longrightarrow>
      fuzz_flow2 2001 (s_boss s) 1 random new_boss s = Err Panic)"
proof -
  have "s_boss s \<noteq> default_pubkey" using assms by (simp add: state_wf_def)
  then show ?thesis
    using assms(2)
    by (simp add: fuzz_flow2_def Let_def fuzz_propose_boss_eq fuzz_accept_boss_eq propose_boss_def)
qed

theorem boss_flow_restores_the_boss_witness:
  "fuzz_flow2 2001 7 0 5 9 sample_governance = Ok sample_governance \<and>
   fuzz_flow2 2001 7 1 5 9 sample_governance = Err Panic"
proof -
  have "s_boss sample_governance = 7" "s_proposed_boss sample_governance = default_pubkey"
    "sample_governance\<lparr>s_proposed_boss := default_pubkey\<rparr> = sample_governance"
    by (simp_all add: sample_governance_def zero_state_def)
  then show ?thesis
    using boss_flow_restores_the_boss [OF sample_governance_wf, of 9 5] by (simp add: default_pubkey_def)
qed

section \<open>Verdicts on offers and vaults\<close>

lemma fuzz_find_active_vector_eq:
  "find_active_vector_at offer time = ok_or (fuzz_find_active_vector_at offer time) NoActiveVector"
  "fuzz_find_active_vector_at offer time = find_active_pricing_vector (o_vectors offer) time"
  by (simp_all add: find_active_vector_at_def fuzz_find_active_vector_at_def find_active_pricing_vector_def)

text \<open>The helpers that the harness copies from the program agree with the program.\<close>

lemma fuzz_clean_old_vectors_eq: "fuzz_clean_old_vectors = clean_old_vectors"
  by (intro ext)
    (auto simp: fuzz_clean_old_vectors_def clean_old_vectors_def fuzz_find_active_vector_eq(1) ok_or_def
      Let_def and_then_def split: option.splits)

lemma add_offer_vector_slot:
  assumes "add_offer_vector st a now start_opt bt bp apr d offer = Ok offer'"
  defines "start \<equiv> (case start_opt of Some t \<Rightarrow> t | None \<Rightarrow> max (i64_as_u64 now) bt)"
  defines "nv \<equiv> \<lparr>v_start_time = start, v_base_time = bt, v_base_price = bp, v_apr = apr, v_price_fix_duration = d\<rparr>"
  obtains cleaned i where "clean_old_vectors offer nv (i64_as_u64 now) = Ok cleaned"
    "position_from 0 (\<lambda>v. v_start_time v = 0) (o_vectors cleaned) = Some i"
    "o_vectors offer' ! i = nv"
proof -
  from assms(1) obtain cleaned i where *: "clean_old_vectors offer nv (i64_as_u64 now) = Ok cleaned"
    "find_vector_index_by_start_time cleaned 0 = Some i"
    "offer' = cleaned\<lparr>o_vectors := (o_vectors cleaned)[i := nv]\<rparr>"
    unfolding add_offer_vector_def Let_def start_def nv_def by auto
  have "i < length (o_vectors cleaned)" using *(2) by (rule vector_index_split) simp
  then have "o_vectors offer' ! i = nv" unfolding *(3) by (simp del: nth_list_update add: nth_list_update_eq)
  with * show ?thesis
    by (intro that) (simp_all add: find_vector_index_by_start_time_def)
qed

lemma add_offer_vector_invariant_eq:
  assumes wf: "offer_wf offer" and ok: "add_offer_vector st a now start_opt bt bp apr d offer = Ok offer'"
  shows "add_offer_vector_invariant offer' offer start_opt bt bp apr d now =
     assert_that ((case start_opt of Some t \<Rightarrow> t | None \<Rightarrow> max (i64_as_u64 now) bt) = bt)"
proof -
  have "length (o_vectors offer') = 10"
    using add_offer_vector_wf [OF wf ok] by (simp add: offer_wf_def MAX_VECTORS_def)
  then show ?thesis
    by - (rule add_offer_vector_slot [OF ok],
      simp add: add_offer_vector_invariant_def Let_def fuzz_clean_old_vectors_eq assert_that_def require_def)
qed

lemma validate_inputs_Err:
  "validate_inputs s bt bp d now offer = Err e \<Longrightarrow>
     e \<in> {StartTimeInPast, ZeroValue, DuplicateStartTime, InvalidTimeRange}"
  by (auto simp: validate_inputs_def Let_def require_def split: if_splits option.splits)

lemma clean_old_vectors_Err: "clean_old_vectors offer nv now = Err e \<Longrightarrow> e = Panic"
  by (auto simp: clean_old_vectors_def Let_def and_then_def ok_or_def split: result.splits option.splits if_splits)

lemma add_offer_vector_Err:
  assumes "add_offer_vector st a now start_opt bt bp apr d offer = Err e"
  shows "e \<in> {InvalidTokenInMint, InvalidTokenOutMint, AnchorConstraint, StartTimeInPast, ZeroValue,
    DuplicateStartTime, InvalidTimeRange, Panic, TooManyVectors}"
  using assms
  by (auto simp: add_offer_vector_def check_offer_accounts_def Let_def and_then_def ok_or_def require_def
      split: if_splits result.splits option.splits dest!: validate_inputs_Err clean_old_vectors_Err)

text \<open>
  C38: The harness's check of \<open>add_offer_vector\<close>, decided. A vector the program has stored is accepted
  exactly when it starts at its base time, because the assertion compares the slot's start time
  with the base time. A refused vector is accepted as refused exactly when the offer had an empty
  slot: for a full offer the harness expects code 6003, and no error of the instruction has it.
\<close>

theorem harness_verdict_on_vectors:
  assumes "offer_wf offer" and "anchor_code \<noteq> 6003"
  shows "fuzz_add_offer_vector anchor_code st a now start_opt base_time base_price apr duration offer =
    (case add_offer_vector st a now start_opt base_time base_price apr duration offer of
       Ok offer' \<Rightarrow>
         if (case start_opt of Some t \<Rightarrow> t | None \<Rightarrow> max (i64_as_u64 now) base_time) = base_time then Ok offer'
         else Err Panic
     | Err _ \<Rightarrow> if \<exists>v \<in> set (o_vectors offer). v_start_time v = 0 then Ok offer else Err Panic)"
proof (cases "add_offer_vector st a now start_opt base_time base_price apr duration offer")
  case (Ok offer')
  then show ?thesis
    by (simp add: fuzz_add_offer_vector_def add_offer_vector_invariant_eq [OF assms(1)] assert_that_def)
next
  case (Err e)
  have "\<not> is_custom_error_with_code anchor_code e 6003"
    using add_offer_vector_Err [OF Err] assms(2) by (auto simp: is_custom_error_with_code_def)
  with Err show ?thesis
    by (auto simp: fuzz_add_offer_vector_def Let_def assert_that_def list_ex_iff require_def)
qed

theorem harness_verdict_on_vectors_witness:
  "fuzz_add_offer_vector 2001 sample_state sample_accounts 1000 None 1000 1000000000 97600 86400 made_offer =
     Ok one_vector_offer"
  using harness_verdict_on_vectors [OF made_offer_wf, where anchor_code = 2001 and st = sample_state
      and a = sample_accounts and now = 1000 and start_opt = None and base_time = 1000 and base_price = 1000000000
      and apr = 97600 and duration = 86400] add_sample_vector
  by (simp add: i64_as_u64_def)

text \<open>The set-up of the harness: the assertions on a new state, a new offer and the authority's name hold.\<close>

lemma fuzz_initialize_eq:
  "initialize l e w pd boss mint bump existing = Ok s \<Longrightarrow>
     fuzz_setup_and_initialize l e w pd boss mint bump existing = Ok s"
  by (auto simp: fuzz_setup_and_initialize_def initialize_def initialize_invariant_def Let_def MAX_ADMINS_def)

lemma fuzz_make_offer_eq:
  "make_offer st a bump fee ap pl existing = Ok offer \<Longrightarrow>
     fuzz_make_offer st a bump fee ap pl existing = Ok offer"
  by (auto simp: fuzz_make_offer_def make_offer_def make_offer_invariant_def set_disabled_def
      set_permissionless_def set_approval_def)

lemma fuzz_permissionless_authority_eq:
  "initialize_permissionless_authority e st boss name acc = Ok acc' \<Longrightarrow>
     fuzz_setup_permissionless_authority e st boss name acc = Ok acc'"
  by (auto simp: fuzz_setup_permissionless_authority_def initialize_permissionless_authority_def
      initialize_permissionless_authority_invariant_def)

lemma fuzz_withdraw_eq:
  assumes "spl_laws spl" and "offer_vault_withdraw e spl st a n L = Ok L'"
    and "t_key (va_party_token_account a) \<noteq> t_key (va_vault_token_account a)"
    and "l_bal L (t_key (va_party_token_account a)) + n \<le> u64_max"
    and "t_is_token (va_party_token_account a)"
  shows "fuzz_withdraw_from_vault e spl st a n L = Ok L'"
proof -
  from assms(2) obtain dst where
    t: "t_is_token (va_vault_token_account a)" and v: "dst = t_key (va_party_token_account a)"
    and tr: "transfer_tokens spl (va_token_mint a) (t_key (va_vault_token_account a)) dst
      (pda e [Seed ''offer_vault_authority'']) n L = Ok L'"
    unfolding offer_vault_withdraw_def vault_withdraw_def Let_def
    by (auto simp: get_associated_token_account_Ok dest: get_or_create_associated_token_account_Ok(1))
  from transfer_tokens_Ok [OF assms(1) tr] show ?thesis
    using assms(3-5) t v by (auto simp: fuzz_withdraw_from_vault_def Let_def assms(2)
        offer_vault_withdraw_invariant_def checked_sub_def checked_add_def)
qed

section \<open>Verdict on taking an offer\<close>

lemma calculate_price_zero_apr:
  assumes "calculate_step_price_at 0 bp bt d now = Ok p" and "bp \<le> u64_max"
  shows "calculate_price 0 bp bt d now = Ok bp" and "p = bp"
proof -
  from assms(1) obtain k where bt: "bt \<le> now"
    and k: "checked_div (saturating_sub now bt) d = Some k" "k + 1 \<le> u64_max" "(k + 1) * d \<le> u64_max"
    by (auto simp: calculate_step_price_at_def Let_def calculate_vector_price_def)
  from assms(1) show "p = bp"
    by (auto simp: calculate_step_price_at_def Let_def calculate_vector_price_def)
  have "bp * 31536000000000 \<le> u128_max"
    using mult_le_mono1 [OF assms(2), of 31536000000000] by (simp add: int_defs)
  with bt k assms(2) show "calculate_price 0 bp bt d now = Ok bp"
    by (simp add: calculate_price_def Let_def checked_add_def checked_mul_def checked_div_def [of _ 31536000000000]
        APR_SCALE_def SECONDS_IN_YEAR_def as_u64_id int_defs)
qed

lemma calculate_token_out_Ok:
  assumes "calculate_token_out n p d_in d_out = Ok r"
  shows "0 < p" and "r = n * 10 ^ (d_out + 9) div (p * 10 ^ d_in)"
proof -
  from assms have "checked_div (n * 10 ^ 9 * 10 ^ d_out) (p * 10 ^ d_in) = Some r"
    by (auto simp: calculate_token_out_def checked_pow_def as_u64_id split: if_splits)
  moreover have "n * 10 ^ 9 * 10 ^ d_out = n * 10 ^ (d_out + 9)" by (simp add: power_add)
  ultimately have "checked_div (n * 10 ^ (d_out + 9)) (p * 10 ^ d_in) = Some r" by (simp only:)
  then show "0 < p" "r = n * 10 ^ (d_out + 9) div (p * 10 ^ d_in)"
    by (auto simp: checked_div_def split: if_splits)
qed

lemma calculate_token_out_agrees:
  assumes "calculate_token_out_amount n p d_in d_out = Ok r"
  shows "calculate_token_out n p d_in d_out = Ok r"
proof -
  let ?N = "n * 10 ^ (d_out + 9)"
  have r: "0 < p" "d_in \<le> 18" "d_out \<le> 18" "?N \<le> u128_max" "p * 10 ^ d_in \<le> u128_max"
    "r = ?N div (p * 10 ^ d_in)" "r \<le> u64_max"
    using assms unfolding token_out_amount_Ok by blast+
  have small: "checked_pow u128_max 10 d = Some (10 ^ d)" if "d \<le> 18" for d
    using power_increasing [OF that, of "10::nat"] by (simp add: checked_pow_def int_defs)
  have N: "n * 10 ^ 9 * 10 ^ d_out = ?N" by (simp add: power_add)
  have "n * 10 ^ 9 \<le> ?N" unfolding N [symmetric] by simp
  with r(4) have "checked_mul u128_max n (10 ^ 9) = Some (n * 10 ^ 9)"
    by (simp only: checked_mul_def if_True le_trans)
  moreover have "checked_mul u128_max (n * 10 ^ 9) (10 ^ d_out) = Some ?N"
    using r(4) by (simp only: checked_mul_def N if_True)
  moreover have "checked_mul u128_max p (10 ^ d_in) = Some (p * 10 ^ d_in)"
    using r(5) by (simp only: checked_mul_def if_True)
  moreover have "checked_div ?N (p * 10 ^ d_in) = Some r"
    using r(1,6) by (simp add: checked_div_def)
  ultimately show ?thesis
    using r(7) unfolding calculate_token_out_def small [OF r(2)] small [OF r(3)] ok_or_simps and_then_simps
    by (simp only: ok_or_simps and_then_simps as_u64_id) (simp add: as_u64_id)
qed

text \<open>One more unit paid buys at least one more unit when a unit of input is worth a unit of output.\<close>

lemma token_out_strict:
  assumes "calculate_token_out_amount n p d_in d_out = Ok r" and "p * 10 ^ d_in \<le> 10 ^ (d_out + 9)"
  shows "calculate_token_out (Suc n) p d_in d_out \<noteq> Ok r"
proof
  assume more: "calculate_token_out (Suc n) p d_in d_out = Ok r"
  let ?B = "p * 10 ^ d_in" and ?A = "(10::nat) ^ (d_out + 9)"
  have r: "r = n * ?A div ?B" using assms(1) by (simp add: token_out_amount_Ok)
  have B: "0 < ?B" using calculate_token_out_Ok(1) [OF more] by simp
  have "Suc (n * ?A div ?B) = (n * ?A + ?B) div ?B" using B by simp
  also have "\<dots> \<le> Suc n * ?A div ?B" using assms(2) by (intro div_le_mono) simp
  finally show False using calculate_token_out_Ok(2) [OF more] r by linarith
qed

lemma floor_and_ceiling_fee:
  assumes "amount \<le> u64_max" and "bps \<le> MAX_BASIS_POINTS"
    and "calculate_fees amount bps = Ok \<lparr>fr_token_in_fee_amount = fee, fr_token_in_net_amount = net\<rparr>"
  shows "checked_sub amount (as_u64 (amount * bps div 10000)) =
    Some (if 10000 dvd amount * bps then net else Suc net)"
proof -
  let ?c = "(amount * bps + 9999) div 10000" and ?f = "amount * bps div 10000"
  have fee: "fee = ?c" "net = amount - ?c" and c: "?c \<le> amount"
    using assms(3) calculate_fees_total [OF assms(1,2)] by auto
  have f: "?f \<le> ?c" by (rule div_le_mono) simp
  then have id: "as_u64 ?f = ?f" using c assms(1) by (intro as_u64_id) linarith
  have dv: "10000 dvd amount * bps \<Longrightarrow> ?c = ?f" by (elim dvdE) simp
  moreover have "?c = Suc ?f" if "\<not> 10000 dvd amount * bps"
  proof -
    let ?m = "amount * bps mod 10000"
    have m: "0 < ?m" "?m < 10000" using that by (auto simp: dvd_eq_mod_eq_0)
    have "amount * bps + 9999 = ?m - 1 + Suc ?f * 10000"
      using m(1) div_mult_mod_eq [of "amount * bps" 10000] by simp
    also have "\<dots> div 10000 = Suc ?f" using m by (subst div_mult_self1) auto
    finally show ?thesis .
  qed
  ultimately show ?thesis using f c id fee
    by (cases "10000 dvd amount * bps") (simp_all add: checked_sub_def Suc_diff_Suc Suc_le_eq)
qed

lemma take_offer_balances:
  assumes laws: "spl_laws spl" and ok: "take_offer e spl sv st a amount None L = Ok L'"
    and offer: "a_data (k_offer a) = AccountData offer"
    and nb: "\<not> program_controls_mint (k_token_in_mint a) (pda e [Seed ''mint_authority''])"
    and dist: "distinct [t_key (k_user_token_in_account a), t_key (k_boss_token_in_account a),
      t_key (k_user_token_out_account a), t_key (k_vault_token_out_account a)]"
  obtains price net fee out where
    "compute_offer_current_price offer (i64_as_u64 (unix_timestamp e)) = Ok price"
    "calculate_fees amount (o_fee_basis_points offer) = Ok \<lparr>fr_token_in_fee_amount = fee, fr_token_in_net_amount = net\<rparr>"
    "calculate_token_out_amount net price (m_decimals (k_token_in_mint a)) (m_decimals (k_token_out_mint a)) = Ok out"
    "l_bal L (t_key (k_user_token_in_account a)) = l_bal L' (t_key (k_user_token_in_account a)) + amount"
    "l_bal L' (t_key (k_boss_token_in_account a)) = l_bal L (t_key (k_boss_token_in_account a)) + amount"
    "l_bal L' (t_key (k_user_token_out_account a)) = l_bal L (t_key (k_user_token_out_account a)) + out"
proof -
  note keys = take_offer_accounts_exist [OF ok]
  note eff = take_offer_effect [OF laws ok, folded keys(2-5)]
  obtain price net fee out where parts: "compute_offer_current_price offer (i64_as_u64 (unix_timestamp e)) = Ok price"
    "calculate_fees amount (o_fee_basis_points offer) = Ok \<lparr>fr_token_in_fee_amount = fee, fr_token_in_net_amount = net\<rparr>"
    "calculate_token_out_amount net price (m_decimals (k_token_in_mint a)) (m_decimals (k_token_out_mint a)) = Ok out"
    and bal: "\<forall>acc. int (l_bal L' acc) = int (l_bal L acc)
      - part (acc = t_key (k_user_token_in_account a)) amount
      + part (acc = t_key (k_boss_token_in_account a)) amount
      - part (\<not> program_controls_mint (k_token_out_mint a) (pda e [Seed ''mint_authority'']) \<and>
          acc = t_key (k_vault_token_out_account a)) out
      + part (acc = t_key (k_user_token_out_account a)) out"
    using eff unfolding offer account_data.inject if_not_P [OF nb] by (elim exE conjE) (hypsubst, rule that, assumption+)
  show thesis
    by (rule that [OF parts]) (use bal [rule_format, of "t_key (k_user_token_in_account a)"]
      bal [rule_format, of "t_key (k_boss_token_in_account a)"]
      bal [rule_format, of "t_key (k_user_token_out_account a)"] dist in \<open>simp_all add: part_def\<close>)
qed

text \<open>
  C36: The harness's check of \<open>take_offer\<close>, decided for a vector without interest and a mint that is
  not burned, where one unit of input is worth at least one unit of output. Every run of the
  program that succeeds pays and receives what the first two assertions ask for. The third one
  accepts the run exactly when the fee is a whole number of base units: the program rounds a
  fractional fee up, the harness rounds it down and expects the user to receive more.
\<close>

theorem harness_verdict_on_taking_an_offer:
  assumes laws: "spl_laws spl" and ok: "take_offer e spl sv st a amount None L = Ok L'"
    and offer: "a_data (k_offer a) = AccountData offer"
    and v: "find_active_vector_at offer (i64_as_u64 (unix_timestamp e)) = Ok v" "v_apr v = 0" "v_base_price v \<le> u64_max"
    and small: "amount \<le> u64_max" "o_fee_basis_points offer \<le> MAX_BASIS_POINTS"
    and nb: "\<not> program_controls_mint (k_token_in_mint a) (pda e [Seed ''mint_authority''])"
    and dist: "distinct [t_key (k_user_token_in_account a), t_key (k_boss_token_in_account a),
      t_key (k_user_token_out_account a), t_key (k_vault_token_out_account a)]"
    and fresh: "t_is_token (k_user_token_out_account a) \<or> l_bal L (t_key (k_user_token_out_account a)) = 0"
    and rate: "v_base_price v * 10 ^ m_decimals (k_token_in_mint a) \<le> 10 ^ (m_decimals (k_token_out_mint a) + 9)"
  shows "fuzz_take_offer e spl sv st a amount L =
    (if 10000 dvd amount * o_fee_basis_points offer then Ok L' else Err Panic)"
proof -
  let ?now = "i64_as_u64 (unix_timestamp e)" and ?in = "m_decimals (k_token_in_mint a)"
    and ?out = "m_decimals (k_token_out_mint a)" and ?whole = "10000 dvd amount * o_fee_basis_points offer"
  obtain price net fee out where
    price: "compute_offer_current_price offer ?now = Ok price"
    and fees: "calculate_fees amount (o_fee_basis_points offer) =
      Ok \<lparr>fr_token_in_fee_amount = fee, fr_token_in_net_amount = net\<rparr>"
    and conv: "calculate_token_out_amount net price ?in ?out = Ok out"
    and b: "l_bal L (t_key (k_user_token_in_account a)) = l_bal L' (t_key (k_user_token_in_account a)) + amount"
    "l_bal L' (t_key (k_boss_token_in_account a)) = l_bal L (t_key (k_boss_token_in_account a)) + amount"
    "l_bal L' (t_key (k_user_token_out_account a)) = l_bal L (t_key (k_user_token_out_account a)) + out"
    using take_offer_balances [OF laws ok offer nb dist] .
  have bp: "price = v_base_price v"
    and hp: "calculate_price 0 (v_base_price v) (v_base_time v) (v_price_fix_duration v) ?now = Ok (v_base_price v)"
    using price v calculate_price_zero_apr [of "v_base_price v" "v_base_time v" "v_price_fix_duration v" ?now price]
    by (auto simp: compute_offer_current_price_def get_active_vector_and_current_price_def)
  have active: "find_active_pricing_vector (o_vectors offer) ?now = Some v"
    using v(1) by (simp add: fuzz_find_active_vector_eq)
  let ?verdict = "and_then (calculate_token_out (if ?whole then net else Suc net) price ?in ?out)
      (\<lambda>expected. assert_that (out = expected))"
  have ob: "(case ob_user_token_out (offer_balances_of a (t_is_token (k_user_token_out_account a)) L) of
      Some n \<Rightarrow> n | None \<Rightarrow> 0) = l_bal L (t_key (k_user_token_out_account a))"
    using fresh by (auto simp: offer_balances_of_def)
  have "take_offer_invariant offer (offer_balances_of a (t_is_token (k_user_token_out_account a)) L)
      (offer_balances_of a True L') ?in ?out amount ?now = ?verdict"
    using b unfolding take_offer_invariant_def Let_def ob
    by (simp add: offer_balances_of_def checked_sub_def [of _ "l_bal _ _"]
        active v(2) hp bp floor_and_ceiling_fee [OF small fees] split del: if_split)
  then have run: "fuzz_take_offer e spl sv st a amount L = and_then ?verdict (\<lambda>_. Ok L')"
    using take_offer_accounts_exist(1) [OF ok] by (simp add: fuzz_take_offer_def deserialize_pda_account_def offer ok)
  show ?thesis
  proof (cases ?whole)
    case True
    then show ?thesis unfolding run by (simp add: calculate_token_out_agrees [OF conv])
  next
    case False
    have "calculate_token_out (Suc net) price ?in ?out \<noteq> Ok out"
      using conv rate by (intro token_out_strict) (simp_all add: bp)
    moreover have "calculate_token_out (Suc net) price ?in ?out = Err e' \<Longrightarrow> e' = Panic" for e'
      by (auto simp: calculate_token_out_def and_then_def ok_or_def split: option.splits if_splits)
    ultimately show ?thesis
      unfolding run using False by (cases "calculate_token_out (Suc net) price ?in ?out") (auto simp: assert_that_def)
  qed
qed

definition sample_flat_vector :: offer_vector where
  "sample_flat_vector = sample_vector\<lparr>v_apr := 0\<rparr>"

definition sample_flat_offer :: offer where
  "sample_flat_offer = sample_offer\<lparr>o_vectors := sample_flat_vector # replicate 9 default_vector\<rparr>"

definition sample_flat :: take_offer_accounts where
  "sample_flat = sample_direct\<lparr>k_offer := (k_offer sample_direct)\<lparr>a_data := AccountData sample_flat_offer\<rparr>\<rparr>"

lemma sample_flat_active: "find_active_vector_at sample_flat_offer 5000 = Ok sample_flat_vector"
  by (simp add: find_active_vector_at_def sample_flat_offer_def sample_flat_vector_def sample_vector_def
      default_vector_def)

lemma sample_flat_flags:
  "\<not> is_disabled sample_flat_offer" "\<not> needs_approval sample_flat_offer" "o_token_in_mint sample_flat_offer = 21"
  "o_token_out_mint sample_flat_offer = 22" "o_fee_basis_points sample_flat_offer = 50"
  by (simp_all add: sample_flat_offer_def sample_offer_def is_disabled_def needs_approval_def)

lemma sample_flat_core:
  "process_offer_core sample_env sample_flat_offer 1000 (sample_mint 21 None 0) sample_onyc 50 =
     Ok \<lparr>op_current_price = 1000000000, op_token_in_net_amount = 995, op_token_in_fee_amount = 5,
         op_token_out_amount = 995\<rparr>"
proof -
  have "calculate_current_step_price 5000 (v_apr sample_flat_vector) (v_base_price sample_flat_vector)
      (v_base_time sample_flat_vector) (v_price_fix_duration sample_flat_vector) = Ok 1000000000"
    by (simp add: calculate_current_step_price_def sample_flat_vector_def sample_vector_def i64_as_u64_def
        price_eval_simps)
  moreover have "calculate_fees 1000 50 = Ok \<lparr>fr_token_in_fee_amount = 5, fr_token_in_net_amount = 995\<rparr>"
    using calculate_fees_total(1) [of 1000 50] by (simp add: const_defs int_defs)
  moreover have "calculate_token_out_amount 995 1000000000 6 6 = Ok 995"
    by (simp add: token_out_amount_Ok const_defs int_defs)
  ultimately show ?thesis
    by (simp add: process_offer_core_def process_offer_core_at_def sample_onyc_def sample_mint_def
        require_mints_def sample_flat_flags sample_flat_active i64_as_u64_def cong: eval_congs)
qed

lemma sample_flat_simps:
  "k_boss sample_flat = 7" "k_token_out_mint sample_flat = sample_onyc" "k_user sample_flat = 6"
  "k_token_in_mint sample_flat = sample_mint 21 None 0" "k_user_token_in_account sample_flat = sample_token 1081"
  "k_user_token_out_account sample_flat = sample_token 1082" "k_boss_token_in_account sample_flat = sample_token 1091"
  "k_vault_token_out_account sample_flat = sample_token 2072" "a_data (k_offer sample_flat) = AccountData sample_flat_offer"
  by (simp_all add: sample_flat_def sample_direct_def)

lemma sample_flat_ok:
  "\<exists>L'. take_offer sample_env plain_token_program sv sample_config sample_flat 1000 None sample_purse = Ok L'"
proof -
  have "check_take_offer_accounts sample_env sample_config (Some 7) sample_flat = Ok sample_flat_offer"
    by (simp add: check_take_offer_accounts_def sample_flat_def sample_direct_def Let_def take_eval_simps
        sample_flat_flags cong: eval_congs)
  moreover have "get_or_create_associated_token_account sample_env (sample_token 1082) 6
      22 (k_token_out_program sample_flat) AnchorConstraint = Ok 1082"
    "get_associated_token_account sample_env (sample_token 1091) 7 21
      (k_token_in_program sample_flat) AnchorConstraint = Ok 1091"
    "t_key (sample_token 1081) = 1081"
    "validate_take_offer_authorities sample_env (k_vault_authority sample_flat) (k_mint_authority sample_flat)
      (k_instructions_sysvar sample_flat) = Ok (255, 255)"
    by (simp_all add: sample_flat_def sample_direct_def take_eval_simps)
  moreover have "verify_offer_approval sample_env sample_flat_offer None 6 a1 a2 sv = Ok ()" for a1 a2
    by (simp add: verify_offer_approval_def sample_flat_flags)
  moreover have "\<exists>L'. execute_token_operations plain_token_program (offer_order sample_config sample_flat
      \<lparr>op_current_price = 1000000000, op_token_in_net_amount = 995, op_token_in_fee_amount = 5,
         op_token_out_amount = 995\<rparr> sample_onyc 6 1081 1091 None 0 1091 1082) sample_purse = Ok L'"
    by (simp add: execute_token_operations_def pay_token_in_def distribute_token_out_def Let_def
        token_eval_simps offer_order_def sample_flat_def sample_direct_def sample_purse_def sample_mint_def
        sample_onyc_def sample_config_def zero_state_def int_defs cong: eval_congs)
  ultimately show ?thesis
    by (simp add: take_offer_def sample_flat_simps require_enabled_def sample_flat_flags sample_flat_core
        cong: eval_congs)
qed

theorem harness_verdict_on_taking_an_offer_witness:
  "\<exists>L'. take_offer sample_env plain_token_program sample_sysvar sample_config sample_flat 1000 None sample_purse = Ok L' \<and>
     fuzz_take_offer sample_env plain_token_program sample_sysvar sample_config sample_flat 1000 sample_purse = Ok L'"
proof -
  obtain L' where ok: "take_offer sample_env plain_token_program sample_sysvar sample_config sample_flat 1000 None
      sample_purse = Ok L'"
    using sample_flat_ok by blast
  have "fuzz_take_offer sample_env plain_token_program sample_sysvar sample_config sample_flat 1000 sample_purse =
      (if 10000 dvd 1000 * o_fee_basis_points sample_flat_offer then Ok L' else Err Panic)"
    by (rule harness_verdict_on_taking_an_offer [OF plain_token_program_laws ok, where v = sample_flat_vector])
      (simp_all add: sample_flat_simps sample_flat_active sample_flat_flags sample_token_def i64_as_u64_def
        program_controls_mint_def sample_mint_def sample_onyc_def sample_purse_def const_defs int_defs,
       simp_all add: sample_flat_vector_def sample_vector_def)
  then show ?thesis using ok by (simp add: sample_flat_flags)
qed

text \<open>For a vector whose base time lies ahead the harness has a price and the program has none.\<close>

lemma harness_prices_early_vectors:
  "now < base_time \<Longrightarrow> calculate_price apr base_price base_time duration now = Ok base_price"
  "now < base_time \<Longrightarrow> calculate_step_price_at apr base_price base_time duration now = Err NoActiveVector"
  by (simp_all add: calculate_price_def calculate_step_price_at_def)

text \<open>
  The harness's copy of the price is not the program's price. It grows by simple interest over
  the whole elapsed time, where the program compounds every day: at 9.76% and the 100,000,000
  seconds by which the pricing flow moves the clock, one token costs 1.309646027 there and
  1.362886171 in the program.
\<close>

theorem harness_price_is_simple_interest:
  "calculate_price 97600 1000000000 1000 86400 100001000 = Ok 1309646027 \<and>
   calculate_step_price_at 97600 1000000000 1000 86400 100001000 = Ok 1362886171"
proof
  show "calculate_price 97600 1000000000 1000 86400 100001000 = Ok 1309646027"
    by (simp add: calculate_price_def SECONDS_IN_YEAR_def price_eval_simps)
  show "calculate_step_price_at 97600 1000000000 1000 86400 100001000 = Ok 1362886171"
    by (simp add: price_eval_simps)
qed

end
