(* ===== verification/Fuzz_Start.thy ===== *)
theory Fuzz_Start
  imports Fuzz_Harness
begin

text \<open>
  The set-up of the fuzz harness (\<open>start\<close> of \<open>trident-tests/fuzz_0/test_fuzz.rs\<close>) and its helpers:
  the accounts in the test framework's bank as the harness reads them, the calls that make mints
  and token accounts, and the program instructions that the set-up sends.

  The framework is the parameter \<open>trident\<close>: a field is the transaction that the framework builds and
  processes. What the proofs use of it is \<open>trident_laws\<close>. Each storage of \<open>fuzz_accounts.rs\<close> holds the
  one address that \<open>start\<close> puts there; the addresses and the other random choices are arguments.

  A transaction names its accounts by position. For the vault deposit the positions matter: the
  client of \<open>types.rs\<close> sends them in another order than the account struct of the program declares
  them, so the model keeps the list. For the other instructions of the set-up the two orders agree,
  and the model passes the accounts by name.

  The theorem says that the set-up panics for every random choice, at the first deposit, and that
  nothing but the order of the accounts is the reason.
\<close>

section \<open>The bank\<close>

definition TOKEN_2022_PROGRAM_ID :: pubkey where [const_defs]:
  "TOKEN_2022_PROGRAM_ID = 3106054213517619466333521364411816883583182866730275619636245252638471457788"

definition TOKEN_PROGRAM_ID :: pubkey where [const_defs]:
  "TOKEN_PROGRAM_ID = 3106054211088883198575105191760876350940303353676611666299516346430146937001"

definition BOSS :: pubkey where [const_defs]:
  "BOSS = 83633737947827007612092742073347922055834421594388095368205589375120109159432"

record token_pairs =
  tp_token_in :: pubkey
  tp_token_out :: pubkey
  tp_token_program_in :: pubkey
  tp_token_program_out :: pubkey

text \<open>
  The storages of \<open>AccountAddresses\<close> that hold addresses without seeds; the state, the authorities and
  the offer are at derived addresses, and \<open>start\<close> leaves the admins empty.
\<close>

record account_addresses =
  fa_random_token_authority :: pubkey
  fa_payer :: pubkey
  fa_onyc_mint :: pubkey
  fa_token_mint_a :: pubkey
  fa_token_mint_b :: pubkey
  fa_token_mint_2022_a :: pubkey
  fa_token_mint_2022_b :: pubkey
  fa_user :: pubkey

text \<open>
  \<open>bk_tokens\<close> says which token program owns the token account at an address; \<open>bk_funded\<close> are the
  accounts that hold enough lamports for the rent of the accounts below.
\<close>

record bank =
  bk_funded :: "pubkey set"
  bk_state :: "state option"
  bk_permissionless :: "nat list account"
  bk_offers :: "pubkey \<rightharpoonup> offer"
  bk_mints :: "pubkey \<rightharpoonup> mint"
  bk_tokens :: "pubkey \<rightharpoonup> pubkey"
  bk_ledger :: ledger

record trident =
  td_airdrop :: "pubkey \<Rightarrow> u64 \<Rightarrow> bank \<Rightarrow> bank"
  td_initialize_mint :: "pubkey \<Rightarrow> pubkey \<Rightarrow> pubkey \<Rightarrow> u8 \<Rightarrow> pubkey \<Rightarrow> bank \<Rightarrow> bank result"
  td_initialize_associated_token_account :: "pubkey \<Rightarrow> pubkey \<Rightarrow> pubkey \<Rightarrow> pubkey \<Rightarrow> bank \<Rightarrow> bank result"
  td_mint_to :: "pubkey \<Rightarrow> pubkey \<Rightarrow> pubkey \<Rightarrow> pubkey \<Rightarrow> u64 \<Rightarrow> bank \<Rightarrow> bank result"

text \<open>The program as the loader has deployed it.\<close>

record deployment =
  dp_bpf_loader :: pubkey
  dp_program_data_address :: pubkey
  dp_owner :: pubkey
  dp_program_data :: "program_data_account option"

section \<open>Helpers\<close>

text \<open>The first argument of a field of \<open>trident\<close> is the token program that the called function names.\<close>

definition setup_mint :: "trident \<Rightarrow> pubkey \<Rightarrow> pubkey \<Rightarrow> u8 \<Rightarrow> pubkey \<Rightarrow> bank \<Rightarrow> bank result" where
  "setup_mint td payer address decimals mint_authority b =
     map_err (td_initialize_mint td TOKEN_PROGRAM_ID payer address decimals mint_authority b) Panic"

definition setup_mint_2022 :: "trident \<Rightarrow> pubkey \<Rightarrow> pubkey \<Rightarrow> u8 \<Rightarrow> pubkey \<Rightarrow> bank \<Rightarrow> bank result" where
  "setup_mint_2022 td payer address decimals mint_authority b =
     map_err (td_initialize_mint td TOKEN_2022_PROGRAM_ID payer address decimals mint_authority b) Panic"

definition setup_associated_token_account ::
  "trident \<Rightarrow> pubkey \<Rightarrow> pubkey \<Rightarrow> pubkey \<Rightarrow> bank \<Rightarrow> bank result" where
  "setup_associated_token_account td payer token_mint owner b =
     map_err (td_initialize_associated_token_account td TOKEN_PROGRAM_ID payer token_mint owner b) Panic"

definition setup_associated_token_account_2022 ::
  "trident \<Rightarrow> pubkey \<Rightarrow> pubkey \<Rightarrow> pubkey \<Rightarrow> bank \<Rightarrow> bank result" where
  "setup_associated_token_account_2022 td payer token_mint owner b =
     map_err (td_initialize_associated_token_account td TOKEN_2022_PROGRAM_ID payer token_mint owner b) Panic"

definition mint_to_ata ::
  "env \<Rightarrow> trident \<Rightarrow> pubkey \<Rightarrow> pubkey \<Rightarrow> u64 \<Rightarrow> pubkey \<Rightarrow> bank \<Rightarrow> bank result" where
  "mint_to_ata e td token_mint owner amount mint_authority b =
     (let token_account = get_associated_token_address_with_program_id e owner token_mint TOKEN_PROGRAM_ID in
      map_err (td_mint_to td TOKEN_PROGRAM_ID token_account token_mint mint_authority amount b) Panic)"

definition mint_to_2022_ata ::
  "env \<Rightarrow> trident \<Rightarrow> pubkey \<Rightarrow> pubkey \<Rightarrow> u64 \<Rightarrow> pubkey \<Rightarrow> bank \<Rightarrow> bank result" where
  "mint_to_2022_ata e td token_mint owner amount mint_authority b =
     (let token_account = get_associated_token_address_with_program_id e owner token_mint TOKEN_2022_PROGRAM_ID in
      map_err (td_mint_to td TOKEN_2022_PROGRAM_ID token_account token_mint mint_authority amount b) Panic)"

definition token_at :: "env \<Rightarrow> bank \<Rightarrow> pubkey \<Rightarrow> token_info" where
  "token_at e b k =
     (case bk_tokens b k of
        Some token_program \<Rightarrow> \<lparr>t_key = k, t_owner = token_program, t_is_token = True\<rparr>
      | None \<Rightarrow> \<lparr>t_key = k, t_owner = system_program_id e, t_is_token = False\<rparr>)"

text \<open>
  The client of the vault deposit (\<open>types.rs\<close>): an account of an instruction with its flags, and
  the list in the order in which the client pushes it.
\<close>

record account_meta =
  ac_pubkey :: pubkey
  ac_is_signer :: bool
  ac_is_writable :: bool

definition new_readonly :: "pubkey \<Rightarrow> bool \<Rightarrow> account_meta" where
  "new_readonly k is_signer = \<lparr>ac_pubkey = k, ac_is_signer = is_signer, ac_is_writable = False\<rparr>"

definition new_writable :: "pubkey \<Rightarrow> bool \<Rightarrow> account_meta" where
  "new_writable k is_signer = \<lparr>ac_pubkey = k, ac_is_signer = is_signer, ac_is_writable = True\<rparr>"

record offer_vault_deposit_accounts =
  dv_vault_authority :: pubkey
  dv_token_mint :: pubkey
  dv_boss_token_account :: pubkey
  dv_vault_token_account :: pubkey
  dv_boss :: pubkey
  dv_state :: pubkey
  dv_token_program :: pubkey

definition ASSOCIATED_TOKEN_PROGRAM_ID :: pubkey where [const_defs]:
  "ASSOCIATED_TOKEN_PROGRAM_ID = 63590851936555425018482094543133168213809614203979002813017495418995103889497"

definition to_account_metas :: "env \<Rightarrow> offer_vault_deposit_accounts \<Rightarrow> account_meta list" where
  "to_account_metas e accounts =
     [new_readonly (dv_vault_authority accounts) False,
      new_readonly (dv_token_mint accounts) False,
      new_writable (dv_boss_token_account accounts) False,
      new_writable (dv_vault_token_account accounts) False,
      new_writable (dv_boss accounts) True,
      new_readonly (dv_state accounts) False,
      new_readonly (dv_token_program accounts) False,
      new_readonly ASSOCIATED_TOKEN_PROGRAM_ID False,
      new_readonly (system_program_id e) False]"

text \<open>
  The program's side: Anchor fills the struct \<open>OfferVaultDeposit\<close> from the positions, in the order
  of its fields. The one account that holds a \<open>State\<close> is at the derived address. The associated
  token accounts are checked by the handler's model.
\<close>

fun offer_vault_deposit_try_accounts :: "env \<Rightarrow> account_meta list \<Rightarrow> bank \<Rightarrow> (state \<times> vault_accounts) result" where
  "offer_vault_deposit_try_accounts e (state # vault_authority # token_mint # depositor_token_account #
       vault_token_account # depositor # token_program # associated_token_program # system_program # _) b =
     and_then (ok_or (if ac_pubkey state = pda e [Seed ''state''] then bk_state b else None) AnchorConstraint) (\<lambda>st.
     require (ac_pubkey vault_authority = pda e [Seed ''offer_vault_authority'']) AnchorConstraint (
     and_then (ok_or (bk_mints b (ac_pubkey token_mint)) AnchorConstraint) (\<lambda>m.
     require (ac_is_writable depositor_token_account) AnchorConstraint (
     require (ac_is_writable vault_token_account) AnchorConstraint (
     require (ac_is_signer depositor \<and> ac_is_writable depositor) AnchorConstraint (
     require (ac_pubkey token_program \<in> {TOKEN_PROGRAM_ID, TOKEN_2022_PROGRAM_ID}) AnchorConstraint (
     require (ac_pubkey associated_token_program = ASSOCIATED_TOKEN_PROGRAM_ID) AnchorConstraint (
     require (ac_pubkey system_program = system_program_id e) AnchorConstraint (
     Ok (st, \<lparr>va_token_mint = reload (bk_ledger b) m,
              va_party_token_account = token_at e b (ac_pubkey depositor_token_account),
              va_vault_token_account = token_at e b (ac_pubkey vault_token_account),
              va_party = ac_pubkey depositor, va_token_program = ac_pubkey token_program\<rparr>))))))))))"
| "offer_vault_deposit_try_accounts e _ b = Err AnchorConstraint"

definition process_offer_vault_deposit ::
  "env \<Rightarrow> spl_token \<Rightarrow> account_meta list \<Rightarrow> u64 \<Rightarrow> bank \<Rightarrow> bank result" where
  "process_offer_vault_deposit e spl metas amount b =
     and_then (offer_vault_deposit_try_accounts e metas b) (\<lambda>(st, a).
     and_then (offer_vault_deposit e spl st a amount (bk_ledger b)) (\<lambda>L.
     Ok (b\<lparr>bk_ledger := L,
           bk_tokens := (bk_tokens b)(t_key (va_vault_token_account a) \<mapsto> va_token_program a)\<rparr>)))"

text \<open>
  The boss of the storage signs; \<open>from\<close> only derives the address of the token account.
\<close>

definition deposit_accounts :: "env \<Rightarrow> pubkey \<Rightarrow> pubkey \<Rightarrow> pubkey \<Rightarrow> offer_vault_deposit_accounts" where
  "deposit_accounts e token_mint from token_program_id =
     (let offer_vault_authority = pda e [Seed ''offer_vault_authority''] in
      \<lparr>dv_vault_authority = offer_vault_authority, dv_token_mint = token_mint,
       dv_boss_token_account = get_associated_token_address_with_program_id e from token_mint token_program_id,
       dv_vault_token_account =
         get_associated_token_address_with_program_id e offer_vault_authority token_mint token_program_id,
       dv_boss = BOSS, dv_state = pda e [Seed ''state''], dv_token_program = token_program_id\<rparr>)"

definition deposit_to_vault ::
  "env \<Rightarrow> spl_token \<Rightarrow> u64 \<Rightarrow> pubkey \<Rightarrow> pubkey \<Rightarrow> pubkey \<Rightarrow> bank \<Rightarrow> bank result" where
  "deposit_to_vault e spl deposit_amount token_mint from token_program_id b =
     (let accounts = deposit_accounts e token_mint from token_program_id;
          boss_ata = dv_boss_token_account accounts; vault = dv_vault_token_account accounts
      in
      and_then (assert_that (bk_tokens b boss_ata \<noteq> None)) (\<lambda>_.
      case process_offer_vault_deposit e spl (to_account_metas e accounts) deposit_amount b of
        Err _ \<Rightarrow> Err Panic
      | Ok b' \<Rightarrow>
          and_then (assert_that (bk_tokens b' vault \<noteq> None \<and> bk_tokens b' boss_ata \<noteq> None)) (\<lambda>_.
          and_then (offer_vault_deposit_invariant (l_bal (bk_ledger b) boss_ata) (l_bal (bk_ledger b') boss_ata)
              (if bk_tokens b vault = None then None else Some (l_bal (bk_ledger b) vault))
              (l_bal (bk_ledger b') vault) deposit_amount) (\<lambda>_.
          Ok b'))))"

text \<open>The accounts that \<open>withdraw_from_vault\<close> passes, with the same boss.\<close>

definition vault_accounts_at :: "env \<Rightarrow> pubkey \<Rightarrow> pubkey \<Rightarrow> mint \<Rightarrow> bank \<Rightarrow> vault_accounts" where
  "vault_accounts_at e from token_program_id m b =
     (let offer_vault_authority = pda e [Seed ''offer_vault_authority''] in
      \<lparr>va_token_mint = reload (bk_ledger b) m,
       va_party_token_account = token_at e b
         (get_associated_token_address_with_program_id e from (m_key m) token_program_id),
       va_vault_token_account = token_at e b
         (get_associated_token_address_with_program_id e offer_vault_authority (m_key m) token_program_id),
       va_party = BOSS, va_token_program = token_program_id\<rparr>)"

definition withdraw_from_vault ::
  "env \<Rightarrow> spl_token \<Rightarrow> u64 \<Rightarrow> pubkey \<Rightarrow> pubkey \<Rightarrow> pubkey \<Rightarrow> bank \<Rightarrow> bank result" where
  "withdraw_from_vault e spl withdraw_amount token_mint from token_program_id b =
     and_then (ok_or (bk_state b) Panic) (\<lambda>st.
     and_then (ok_or (bk_mints b token_mint) Panic) (\<lambda>m.
     and_then (fuzz_withdraw_from_vault e spl st (vault_accounts_at e from token_program_id m b) withdraw_amount
         (bk_ledger b)) (\<lambda>L.
     Ok (b\<lparr>bk_ledger := L\<rparr>))))"

definition setup_onyc_mint_and_initialize ::
  "env \<Rightarrow> trident \<Rightarrow> deployment \<Rightarrow> pubkey \<Rightarrow> pubkey \<Rightarrow> pubkey \<Rightarrow> pubkey \<Rightarrow> bank \<Rightarrow> bank result" where
  "setup_onyc_mint_and_initialize e td dp payer boss mint_authority onyc_mint b =
     and_then (map_err (td_initialize_mint td TOKEN_2022_PROGRAM_ID payer onyc_mint 8 mint_authority b) Panic) (\<lambda>b.
     and_then (fuzz_setup_and_initialize (dp_bpf_loader dp) (dp_program_data_address dp) (dp_owner dp)
         (dp_program_data dp) boss onyc_mint (snd (find_program_address e [Seed ''state''])) (bk_state b)) (\<lambda>st.
     Ok (b\<lparr>bk_state := Some st\<rparr>)))"

definition setup_permissionless_authority :: "env \<Rightarrow> nat list \<Rightarrow> bank \<Rightarrow> bank result" where
  "setup_permissionless_authority e name b =
     and_then (ok_or (bk_state b) Panic) (\<lambda>st.
     and_then (fuzz_setup_permissionless_authority e st BOSS name (bk_permissionless b)) (\<lambda>account.
     Ok (b\<lparr>bk_permissionless := account\<rparr>)))"

text \<open>\<open>make_offer\<close> also creates the vault's token account for the input mint when it is missing.\<close>

definition harness_make_offer :: "env \<Rightarrow> token_pairs \<Rightarrow> u16 \<Rightarrow> bool \<Rightarrow> bool \<Rightarrow> bank \<Rightarrow> bank result" where
  "harness_make_offer e tp fee_basis_points approval permissionless b =
     and_then (ok_or (bk_state b) Panic) (\<lambda>st.
     and_then (ok_or (bk_mints b (tp_token_in tp)) Panic) (\<lambda>_.
     and_then (ok_or (bk_mints b (tp_token_out tp)) Panic) (\<lambda>_.
     let vault_token_account_a = get_associated_token_address_with_program_id e
           (pda e [Seed ''offer_vault_authority'']) (tp_token_in tp) (tp_token_program_in tp);
         (offer_key, bump) = find_program_address e (offer_seeds (tp_token_in tp) (tp_token_out tp))
     in
     and_then (fuzz_make_offer st
         \<lparr>oa_token_in_mint = tp_token_in tp, oa_token_out_mint = tp_token_out tp, oa_boss = BOSS\<rparr> bump
         fee_basis_points approval permissionless (bk_offers b offer_key)) (\<lambda>offer.
     Ok (b\<lparr>bk_offers := (bk_offers b)(offer_key \<mapsto> offer),
           bk_tokens := (bk_tokens b)(vault_token_account_a \<mapsto> tp_token_program_in tp)\<rparr>)))))"

section \<open>The set-up\<close>

fun run_steps :: "('s \<Rightarrow> 's result) list \<Rightarrow> 's \<Rightarrow> 's result" where
  "run_steps [] b = Ok b"
| "run_steps (step # steps) b = and_then (step b) (run_steps steps)"

definition LAMPORTS_PER_SOL :: u64 where [const_defs]: "LAMPORTS_PER_SOL = 1000000000"

text \<open>The random values of one run.\<close>

record start_choices = account_addresses +
  sc_random_name :: "nat list"
  sc_deposit_amount :: u64
  sc_withdraw_amount :: u64
  sc_fee_basis_points :: u16

definition start_accounts :: "env \<Rightarrow> trident \<Rightarrow> deployment \<Rightarrow> start_choices \<Rightarrow> bank \<Rightarrow> bank result" where
  "start_accounts e td dp ch b =
     (let boss = BOSS; auth = fa_random_token_authority ch;
          b = td_airdrop td boss (500 * LAMPORTS_PER_SOL) b;
          b = td_airdrop td (fa_payer ch) (100 * LAMPORTS_PER_SOL) b
      in run_steps
        [setup_onyc_mint_and_initialize e td dp (fa_payer ch) boss auth (fa_onyc_mint ch),
         setup_permissionless_authority e (sc_random_name ch),
         setup_mint td (fa_payer ch) (fa_token_mint_a ch) 4 auth,
         setup_mint_2022 td (fa_payer ch) (fa_token_mint_2022_a ch) 4 auth,
         setup_mint td (fa_payer ch) (fa_token_mint_b ch) 9 auth,
         setup_mint_2022 td (fa_payer ch) (fa_token_mint_2022_b ch) 4 auth,
         setup_associated_token_account td (fa_payer ch) (fa_token_mint_a ch) boss,
         setup_associated_token_account_2022 td (fa_payer ch) (fa_token_mint_2022_a ch) boss,
         setup_associated_token_account td (fa_payer ch) (fa_token_mint_b ch) boss,
         setup_associated_token_account_2022 td (fa_payer ch) (fa_token_mint_2022_b ch) boss,
         mint_to_ata e td (fa_token_mint_a ch) boss 100000000000000 auth,
         mint_to_2022_ata e td (fa_token_mint_2022_a ch) boss 100000000000000 auth,
         mint_to_ata e td (fa_token_mint_b ch) boss 100000000000000 auth,
         mint_to_2022_ata e td (fa_token_mint_2022_b ch) boss 100000000000000 auth] b)"

definition start_vaults :: "env \<Rightarrow> spl_token \<Rightarrow> start_choices \<Rightarrow> bank \<Rightarrow> bank result" where
  "start_vaults e spl ch b =
     (let boss = BOSS; deposit = sc_deposit_amount ch; withdraw = sc_withdraw_amount ch in
      run_steps
        [deposit_to_vault e spl deposit (fa_token_mint_a ch) boss TOKEN_PROGRAM_ID,
         deposit_to_vault e spl deposit (fa_token_mint_2022_a ch) boss TOKEN_2022_PROGRAM_ID,
         deposit_to_vault e spl deposit (fa_token_mint_b ch) boss TOKEN_PROGRAM_ID,
         deposit_to_vault e spl deposit (fa_token_mint_2022_b ch) boss TOKEN_2022_PROGRAM_ID,
         withdraw_from_vault e spl withdraw (fa_token_mint_a ch) boss TOKEN_PROGRAM_ID,
         withdraw_from_vault e spl withdraw (fa_token_mint_2022_a ch) boss TOKEN_2022_PROGRAM_ID,
         withdraw_from_vault e spl withdraw (fa_token_mint_b ch) boss TOKEN_PROGRAM_ID,
         withdraw_from_vault e spl withdraw (fa_token_mint_2022_b ch) boss TOKEN_2022_PROGRAM_ID] b)"

definition start_users :: "env \<Rightarrow> trident \<Rightarrow> start_choices \<Rightarrow> bank \<Rightarrow> bank result" where
  "start_users e td ch b =
     (let vault_authority = pda e [Seed ''offer_vault_authority'']; auth = fa_random_token_authority ch in
      run_steps
        [mint_to_ata e td (fa_token_mint_a ch) vault_authority 100000000000000 auth,
         mint_to_2022_ata e td (fa_token_mint_2022_a ch) vault_authority 100000000000000 auth,
         mint_to_ata e td (fa_token_mint_b ch) vault_authority 100000000000000 auth,
         mint_to_2022_ata e td (fa_token_mint_2022_b ch) vault_authority 100000000000000 auth,
         setup_associated_token_account td (fa_payer ch) (fa_token_mint_a ch) (fa_user ch),
         setup_associated_token_account_2022 td (fa_payer ch) (fa_token_mint_2022_a ch) (fa_user ch),
         setup_associated_token_account td (fa_payer ch) (fa_token_mint_b ch) (fa_user ch),
         setup_associated_token_account_2022 td (fa_payer ch) (fa_token_mint_2022_b ch) (fa_user ch),
         mint_to_ata e td (fa_token_mint_a ch) (fa_user ch) 100000000000000 auth,
         mint_to_2022_ata e td (fa_token_mint_2022_a ch) (fa_user ch) 100000000000000 auth] b)"

definition token_mixing :: "start_choices \<Rightarrow> token_pairs" where
  "token_mixing ch = \<lparr>tp_token_in = fa_token_mint_2022_a ch, tp_token_out = fa_token_mint_b ch,
     tp_token_program_in = TOKEN_2022_PROGRAM_ID, tp_token_program_out = TOKEN_PROGRAM_ID\<rparr>"

definition start :: "env \<Rightarrow> spl_token \<Rightarrow> trident \<Rightarrow> deployment \<Rightarrow> start_choices \<Rightarrow> bank \<Rightarrow> bank result" where
  "start e spl td dp ch =
     run_steps
       [start_accounts e td dp ch, start_vaults e spl ch, start_users e td ch,
        harness_make_offer e (token_mixing ch) (sc_fee_basis_points ch) False False]"

section \<open>Laws of the test framework\<close>

abbreviation ata :: "env \<Rightarrow> pubkey \<Rightarrow> pubkey \<Rightarrow> pubkey \<Rightarrow> pubkey" where
  "ata \<equiv> get_associated_token_address_with_program_id"

definition new_mint :: "pubkey \<Rightarrow> pubkey \<Rightarrow> u8 \<Rightarrow> pubkey \<Rightarrow> mint" where
  "new_mint prog address decimals mint_authority = \<lparr>m_key = address, m_owner = prog, m_decimals = decimals,
     m_mint_authority = Some mint_authority, m_supply = 0, m_epoch_fee = None\<rparr>"

text \<open>
  An airdrop of 100 SOL or more pays the rent of the accounts of one run. A mint is made at an unused
  address and a token account at the associated address of an existing mint, both empty; the mint
  authority mints to such an account.
\<close>

definition trident_laws :: "env \<Rightarrow> trident \<Rightarrow> bool" where
  "trident_laws e td \<longleftrightarrow>
     (\<forall>k n b. 100 * LAMPORTS_PER_SOL \<le> n \<longrightarrow> td_airdrop td k n b = b\<lparr>bk_funded := insert k (bk_funded b)\<rparr>) \<and>
     (\<forall>prog py k d auth b. py \<in> bk_funded b \<and> bk_mints b k = None \<and> l_supply (bk_ledger b) k = 0 \<longrightarrow>
        td_initialize_mint td prog py k d auth b =
          Ok (b\<lparr>bk_mints := (bk_mints b)(k \<mapsto> new_mint prog k d auth)\<rparr>)) \<and>
     (\<forall>prog py m owner b mi. py \<in> bk_funded b \<and> bk_mints b m = Some mi \<and> m_owner mi = prog \<and>
        bk_tokens b (ata e owner m prog) = None \<and> l_bal (bk_ledger b) (ata e owner m prog) = 0 \<longrightarrow>
        td_initialize_associated_token_account td prog py m owner b =
          Ok (b\<lparr>bk_tokens := (bk_tokens b)(ata e owner m prog \<mapsto> prog)\<rparr>)) \<and>
     (\<forall>prog m owner auth n b mi. bk_tokens b (ata e owner m prog) = Some prog \<and> bk_mints b m = Some mi \<and>
        m_owner mi = prog \<and> m_mint_authority mi = Some auth \<and> l_supply (bk_ledger b) m + n \<le> u64_max \<longrightarrow>
        td_mint_to td prog (ata e owner m prog) m auth n b =
          Ok (b\<lparr>bk_ledger := (bk_ledger b)\<lparr>l_bal := credit (ata e owner m prog) n (l_bal (bk_ledger b)),
            l_supply := credit m n (l_supply (bk_ledger b))\<rparr>\<rparr>))"

lemma airdrop_funds:
  "trident_laws e td \<Longrightarrow> 100 * LAMPORTS_PER_SOL \<le> n \<Longrightarrow> td_airdrop td k n b = b\<lparr>bk_funded := insert k (bk_funded b)\<rparr>"
  by (simp add: trident_laws_def)

lemma mint_made:
  assumes "trident_laws e td" "py \<in> bk_funded b" "bk_mints b k = None" "l_supply (bk_ledger b) k = 0"
  shows "td_initialize_mint td prog py k d auth b = Ok (b\<lparr>bk_mints := (bk_mints b)(k \<mapsto> new_mint prog k d auth)\<rparr>)"
  using assms by (simp add: trident_laws_def)

lemma ata_made:
  assumes "trident_laws e td" "py \<in> bk_funded b" "bk_mints b m = Some mi" "m_owner mi = prog"
    "bk_tokens b (ata e owner m prog) = None" "l_bal (bk_ledger b) (ata e owner m prog) = 0"
  shows "td_initialize_associated_token_account td prog py m owner b =
    Ok (b\<lparr>bk_tokens := (bk_tokens b)(ata e owner m prog \<mapsto> prog)\<rparr>)"
  using assms by (auto simp: trident_laws_def)

lemma minted:
  assumes "trident_laws e td" "bk_tokens b (ata e owner m prog) = Some prog" "bk_mints b m = Some mi"
    "m_owner mi = prog" "m_mint_authority mi = Some auth" "l_supply (bk_ledger b) m + n \<le> u64_max"
  shows "td_mint_to td prog (ata e owner m prog) m auth n b =
    Ok (b\<lparr>bk_ledger := (bk_ledger b)\<lparr>l_bal := credit (ata e owner m prog) n (l_bal (bk_ledger b)),
      l_supply := credit m n (l_supply (bk_ledger b))\<rparr>\<rparr>)"
  using assms by (auto simp: trident_laws_def)

section \<open>How the set-up ends\<close>

definition fresh_bank :: "env \<Rightarrow> bank" where
  "fresh_bank e = \<lparr>bk_funded = {}, bk_state = None,
     bk_permissionless = \<lparr>a_key = pda e [Seed ''permissionless-1''], a_owner = system_program_id e,
       a_writable = True, a_data = NoData\<rparr>,
     bk_offers = Map.empty, bk_mints = Map.empty, bk_tokens = Map.empty,
     bk_ledger = \<lparr>l_bal = \<lambda>_. 0, l_supply = \<lambda>_. 0\<rparr>\<rparr>"

text \<open>The mints of the run with their token programs, in the order in which the set-up visits them.\<close>

definition trade_mints :: "start_choices \<Rightarrow> (pubkey \<times> pubkey) list" where
  "trade_mints ch = [(fa_token_mint_a ch, TOKEN_PROGRAM_ID), (fa_token_mint_2022_a ch, TOKEN_2022_PROGRAM_ID),
     (fa_token_mint_b ch, TOKEN_PROGRAM_ID), (fa_token_mint_2022_b ch, TOKEN_2022_PROGRAM_ID)]"

definition offer_vault_authority :: "env \<Rightarrow> pubkey" where
  "offer_vault_authority e = pda e [Seed ''offer_vault_authority'']"

definition token_owners :: "env \<Rightarrow> start_choices \<Rightarrow> pubkey set" where
  "token_owners e ch = {BOSS, offer_vault_authority e, fa_user ch}"

text \<open>Random and derived addresses do not collide.\<close>

definition addresses_distinct :: "env \<Rightarrow> start_choices \<Rightarrow> bool" where
  "addresses_distinct e ch \<longleftrightarrow>
     distinct (fa_onyc_mint ch # map fst (trade_mints ch)) \<and>
     distinct [BOSS, offer_vault_authority e, fa_user ch] \<and>
     inj_on (\<lambda>(owner, m, prog). ata e owner m prog) (token_owners e ch \<times> set (trade_mints ch))"

text \<open>The program is deployed, and upgradeable by the boss if at all.\<close>

definition deployed :: "deployment \<Rightarrow> bool" where
  "deployed dp \<longleftrightarrow> dp_owner dp = dp_bpf_loader dp \<and>
     (case dp_program_data dp of
        None \<Rightarrow> False
      | Some pd \<Rightarrow> pd_owner pd = dp_bpf_loader dp \<and> pd_key pd = dp_program_data_address dp \<and>
          pd_content pd \<in> {Some (ProgramData None), Some (ProgramData (Some BOSS))})"

text \<open>
  Between the associated accounts of one of these mints, which have no transfer fee, a positive
  amount that the source holds and the target can take is moved.
\<close>

definition pays_when_funded :: "env \<Rightarrow> spl_token \<Rightarrow> (pubkey \<rightharpoonup> mint) \<Rightarrow> bool" where
  "pays_when_funded e spl mints \<longleftrightarrow>
     (\<forall>k m from to n L. mints k = Some m \<and> 0 < n \<and> n \<le> l_bal L (ata e from k (m_owner m)) \<and>
        l_bal L (ata e to k (m_owner m)) + n \<le> u64_max \<longrightarrow>
        (\<exists>L'. transfer_checked spl L k (ata e from k (m_owner m)) (ata e to k (m_owner m)) from n (m_decimals m) = Ok L'))"

definition setup_mints :: "start_choices \<Rightarrow> pubkey \<rightharpoonup> mint" where
  "setup_mints ch =
     (let made = (\<lambda>prog k d. new_mint prog k d (fa_random_token_authority ch)) in
      [fa_onyc_mint ch \<mapsto> made TOKEN_2022_PROGRAM_ID (fa_onyc_mint ch) 8,
       fa_token_mint_a ch \<mapsto> made TOKEN_PROGRAM_ID (fa_token_mint_a ch) 4,
       fa_token_mint_2022_a ch \<mapsto> made TOKEN_2022_PROGRAM_ID (fa_token_mint_2022_a ch) 4,
       fa_token_mint_b ch \<mapsto> made TOKEN_PROGRAM_ID (fa_token_mint_b ch) 9,
       fa_token_mint_2022_b ch \<mapsto> made TOKEN_2022_PROGRAM_ID (fa_token_mint_2022_b ch) 4])"

definition framework_ok :: "env \<Rightarrow> spl_token \<Rightarrow> trident \<Rightarrow> start_choices \<Rightarrow> bool" where
  "framework_ok e spl td ch \<longleftrightarrow> trident_laws e td \<and> spl_laws spl \<and> pays_when_funded e spl (setup_mints ch) \<and>
     addresses_distinct e ch \<and> system_program_id e \<notin> {TOKEN_PROGRAM_ID, TOKEN_2022_PROGRAM_ID} \<and>
     (\<forall>k. create_account e k = Ok () \<and> create_idempotent e k = Ok ())"

section \<open>Steps\<close>

text \<open>
  The bank between two steps: \<open>T\<close> are the owners and mints that have a token account, \<open>n\<close> its balance,
  \<open>s\<close> the supply of a mint.
\<close>

definition bank_at ::
  "env \<Rightarrow> start_choices \<Rightarrow> (pubkey \<times> pubkey) set \<Rightarrow> (pubkey \<times> pubkey \<Rightarrow> u64) \<Rightarrow> (pubkey \<Rightarrow> u64) \<Rightarrow> bank \<Rightarrow> bool" where
  "bank_at e ch T n s b \<longleftrightarrow>
     fa_payer ch \<in> bk_funded b \<and> bk_mints b = setup_mints ch \<and> bk_offers b = Map.empty \<and>
     (\<exists>st. bk_state b = Some st \<and> s_boss st = BOSS \<and> \<not> s_is_killed st) \<and>
     (\<forall>m prog. (m, prog) \<in> set (trade_mints ch) \<longrightarrow> l_supply (bk_ledger b) m = s m \<and>
        (\<forall>owner \<in> token_owners e ch.
           bk_tokens b (ata e owner m prog) = (if (owner, m) \<in> T then Some prog else None) \<and>
           l_bal (bk_ledger b) (ata e owner m prog) = n (owner, m)))"

definition ends :: "('s \<Rightarrow> bool) \<Rightarrow> ('s \<Rightarrow> 's result) \<Rightarrow> ('s \<Rightarrow> bool) \<Rightarrow> bool" where
  "ends P step Q \<longleftrightarrow> (\<forall>b. P b \<longrightarrow> (\<exists>b'. step b = Ok b' \<and> Q b'))"

lemma ends_Cons: "ends P step Q \<Longrightarrow> ends Q (run_steps steps) R \<Longrightarrow> ends P (run_steps (step # steps)) R"
  by (fastforce simp: ends_def)

lemma trade_mint:
  assumes "addresses_distinct e ch" and "(m, prog) \<in> set (trade_mints ch)"
  shows "\<exists>d. setup_mints ch m = Some (new_mint prog m d (fa_random_token_authority ch))"
    and "(m, prog') \<in> set (trade_mints ch) \<longleftrightarrow> prog' = prog"
  using assms by (auto simp: addresses_distinct_def trade_mints_def setup_mints_def Let_def)

lemma ata_eq:
  assumes "addresses_distinct e ch" "(m, prog) \<in> set (trade_mints ch)" "(m', prog') \<in> set (trade_mints ch)"
    "owner \<in> token_owners e ch" "owner' \<in> token_owners e ch"
  shows "ata e owner m prog = ata e owner' m' prog' \<longleftrightarrow> owner = owner' \<and> m = m'"
proof -
  have "ata e owner m prog = ata e owner' m' prog' \<longleftrightarrow> (owner, m, prog) = (owner', m', prog')"
    using assms inj_onD [of "\<lambda>(owner, m, prog). ata e owner m prog" "token_owners e ch \<times> set (trade_mints ch)"
        "(owner, m, prog)" "(owner', m', prog')"] unfolding addresses_distinct_def by auto
  with trade_mint(2) [OF assms(1,2)] assms(3) show ?thesis by auto
qed

lemma account_step:
  assumes "framework_ok e spl td ch" "(m, prog) \<in> set (trade_mints ch)" "owner \<in> token_owners e ch"
    "(owner, m) \<notin> T" "n (owner, m) = 0"
  shows "ends (bank_at e ch T n s) (\<lambda>b. map_err (td_initialize_associated_token_account td prog (fa_payer ch) m owner b) Panic)
    (bank_at e ch (insert (owner, m) T) n s)"
  unfolding ends_def
proof safe
  fix b
  assume b: "bank_at e ch T n s b"
  have d: "addresses_distinct e ch" and laws: "trident_laws e td" using assms(1) by (auto simp: framework_ok_def)
  from trade_mint(1) [OF d assms(2)] obtain mi where "bk_mints b m = Some mi" "m_owner mi = prog"
    using b by (auto simp: bank_at_def new_mint_def)
  moreover have "fa_payer ch \<in> bk_funded b" "bk_tokens b (ata e owner m prog) = None"
      "l_bal (bk_ledger b) (ata e owner m prog) = 0"
    using b assms(2-5) by (auto simp: bank_at_def)
  ultimately have "td_initialize_associated_token_account td prog (fa_payer ch) m owner b =
    Ok (b\<lparr>bk_tokens := (bk_tokens b)(ata e owner m prog \<mapsto> prog)\<rparr>)" by (intro ata_made [OF laws])
  moreover have "bank_at e ch (insert (owner, m) T) n s (b\<lparr>bk_tokens := (bk_tokens b)(ata e owner m prog \<mapsto> prog)\<rparr>)"
    using b assms(2,3) trade_mint(2) [OF d assms(2)] by (auto simp: bank_at_def ata_eq [OF d])
  ultimately show "\<exists>b'. map_err (td_initialize_associated_token_account td prog (fa_payer ch) m owner b) Panic = Ok b' \<and>
      bank_at e ch (insert (owner, m) T) n s b'" by simp
qed

lemma mint_step:
  assumes "framework_ok e spl td ch" "(m, prog) \<in> set (trade_mints ch)" "owner \<in> token_owners e ch"
    "(owner, m) \<in> T" "s m + k \<le> u64_max"
  shows "ends (bank_at e ch T n s)
    (\<lambda>b. map_err (td_mint_to td prog (ata e owner m prog) m (fa_random_token_authority ch) k b) Panic)
    (bank_at e ch T (n((owner, m) := n (owner, m) + k)) (s(m := s m + k)))"
  unfolding ends_def
proof safe
  fix b
  assume b: "bank_at e ch T n s b"
  let ?b = "b\<lparr>bk_ledger := (bk_ledger b)\<lparr>l_bal := credit (ata e owner m prog) k (l_bal (bk_ledger b)),
      l_supply := credit m k (l_supply (bk_ledger b))\<rparr>\<rparr>"
  have d: "addresses_distinct e ch" and laws: "trident_laws e td" using assms(1) by (auto simp: framework_ok_def)
  from trade_mint(1) [OF d assms(2)] obtain mi where "bk_mints b m = Some mi" "m_owner mi = prog"
      "m_mint_authority mi = Some (fa_random_token_authority ch)"
    using b by (auto simp: bank_at_def new_mint_def)
  moreover have "bk_tokens b (ata e owner m prog) = Some prog" "l_supply (bk_ledger b) m + k \<le> u64_max"
    using b assms(2-5) by (auto simp: bank_at_def)
  ultimately have "td_mint_to td prog (ata e owner m prog) m (fa_random_token_authority ch) k b = Ok ?b"
    by (intro minted [OF laws])
  moreover have "bank_at e ch T (n((owner, m) := n (owner, m) + k)) (s(m := s m + k)) ?b"
    using b assms(2,3) by (auto simp: bank_at_def ata_eq [OF d] credit_def)
  ultimately show "\<exists>b'. map_err (td_mint_to td prog (ata e owner m prog) m (fa_random_token_authority ch) k b) Panic = Ok b' \<and>
      bank_at e ch T (n((owner, m) := n (owner, m) + k)) (s(m := s m + k)) b'" by simp
qed

lemma token_at_simps [simp]:
  "t_key (token_at e b k) = k"
  "t_is_token (token_at e b k) \<longleftrightarrow> bk_tokens b k \<noteq> None"
  "t_owner (token_at e b k) = (case bk_tokens b k of Some prog \<Rightarrow> prog | None \<Rightarrow> system_program_id e)"
  by (simp_all add: token_at_def split: option.splits)

lemma new_mint_simps [simp]:
  "m_key (new_mint prog k d auth) = k" "m_owner (new_mint prog k d auth) = prog"
  "m_decimals (new_mint prog k d auth) = d" "\<not> has_transfer_fee (reload L (new_mint prog k d auth))"
  by (simp_all add: new_mint_def reload_def has_transfer_fee_def)

text \<open>What every step on the vault of one mint reads, in any bank between two steps.\<close>

lemma vault_bank:
  assumes "framework_ok e spl td ch" "(m, prog) \<in> set (trade_mints ch)" "bank_at e ch T n s b"
  shows "\<exists>st mi. bk_state b = Some st \<and> s_boss st = BOSS \<and> \<not> s_is_killed st \<and> bk_mints b m = Some mi \<and>
    setup_mints ch m = Some mi \<and> m_key mi = m \<and> m_owner mi = prog \<and> \<not> has_transfer_fee (reload (bk_ledger b) mi)"
    and "prog \<noteq> system_program_id e"
    and "bk_tokens b (ata e BOSS m prog) = (if (BOSS, m) \<in> T then Some prog else None)"
    and "bk_tokens b (ata e (offer_vault_authority e) m prog) = (if (offer_vault_authority e, m) \<in> T then Some prog else None)"
    and "l_bal (bk_ledger b) (ata e BOSS m prog) = n (BOSS, m)"
    and "l_bal (bk_ledger b) (ata e (offer_vault_authority e) m prog) = n (offer_vault_authority e, m)"
    and "ata e BOSS m prog \<noteq> ata e (offer_vault_authority e) m prog" and "BOSS \<noteq> offer_vault_authority e"
proof -
  have d: "addresses_distinct e ch" using assms(1) by (auto simp: framework_ok_def)
  obtain dec where "setup_mints ch m = Some (new_mint prog m dec (fa_random_token_authority ch))"
    using trade_mint(1) [OF d assms(2)] by blast
  then show "\<exists>st mi. bk_state b = Some st \<and> s_boss st = BOSS \<and> \<not> s_is_killed st \<and> bk_mints b m = Some mi \<and>
    setup_mints ch m = Some mi \<and> m_key mi = m \<and> m_owner mi = prog \<and> \<not> has_transfer_fee (reload (bk_ledger b) mi)"
    using assms(3) by (auto simp: bank_at_def)
  show "prog \<noteq> system_program_id e"
    using assms(1,2) by (auto simp: framework_ok_def trade_mints_def)
  show "ata e BOSS m prog \<noteq> ata e (offer_vault_authority e) m prog"
    using ata_eq [OF d assms(2,2)] d by (auto simp: token_owners_def addresses_distinct_def)
  show "BOSS \<noteq> offer_vault_authority e" using d by (simp add: addresses_distinct_def)
qed (use assms(2,3) in \<open>auto simp: bank_at_def token_owners_def\<close>)

lemma moved_bank:
  assumes "framework_ok e spl td ch" "(m, prog) \<in> set (trade_mints ch)" "bank_at e ch T n s b"
    "from \<in> token_owners e ch" "to \<in> token_owners e ch" "from \<noteq> to" "to = offer_vault_authority e \<or> (to, m) \<in> T"
  shows "bank_at e ch (insert (to, m) T) (n((from, m) := n (from, m) - k, (to, m) := n (to, m) + k)) s
    (b\<lparr>bk_ledger := (bk_ledger b)\<lparr>l_bal := credit (ata e to m prog) k (debit (ata e from m prog) k (l_bal (bk_ledger b)))\<rparr>,
       bk_tokens := (bk_tokens b)(ata e to m prog \<mapsto> prog)\<rparr>)"
proof -
  have d: "addresses_distinct e ch" using assms(1) by (auto simp: framework_ok_def)
  show ?thesis using assms(2-) trade_mint(2) [OF d assms(2)]
    by (auto simp: bank_at_def ata_eq [OF d] credit_def debit_def)
qed

lemma funded_transfer:
  assumes "framework_ok e spl td ch" "setup_mints ch m = Some mi" "m_key mi = m" "m_owner mi = prog"
    and "0 < k" "k \<le> l_bal L (ata e from m prog)" "l_bal L (ata e to m prog) + k \<le> u64_max"
  shows "\<exists>L'. transfer_tokens spl (reload L mi) (ata e from m prog) (ata e to m prog) from k L = Ok L'"
  using assms unfolding framework_ok_def pays_when_funded_def transfer_tokens_def by (auto simp: reload_def)

text \<open>
  The deposit with the accounts in the order of the program's struct: the state moves from the sixth
  position to the first.
\<close>

definition program_order :: "'a list \<Rightarrow> 'a list" where
  "program_order metas = metas ! 5 # take 5 metas @ drop 6 metas"

lemma ordered_deposit:
  assumes ok: "framework_ok e spl td ch" and mp: "(m, prog) \<in> set (trade_mints ch)" and b: "bank_at e ch T n s b"
    and "(BOSS, m) \<in> T" "0 < k" "k \<le> n (BOSS, m)" "n (offer_vault_authority e, m) + k \<le> u64_max"
  shows "\<exists>b'. process_offer_vault_deposit e spl (program_order (to_account_metas e (deposit_accounts e m BOSS prog))) k b = Ok b' \<and>
    bank_at e ch (insert (offer_vault_authority e, m) T)
      (n((BOSS, m) := n (BOSS, m) - k, (offer_vault_authority e, m) := n (offer_vault_authority e, m) + k)) s b'"
proof -
  note v = vault_bank [OF ok mp b]
  from v(1) obtain st mi where st: "bk_state b = Some st" "s_boss st = BOSS" "\<not> s_is_killed st"
    and mi: "bk_mints b m = Some mi" "setup_mints ch m = Some mi" "m_key mi = m" "m_owner mi = prog"
      "\<not> has_transfer_fee (reload (bk_ledger b) mi)" by blast
  have laws: "spl_laws spl" and cr: "\<And>k. create_idempotent e k = Ok ()"
    using ok by (auto simp: framework_ok_def)
  have prog: "prog \<in> {TOKEN_PROGRAM_ID, TOKEN_2022_PROGRAM_ID}" using mp by (auto simp: trade_mints_def)
  let ?va = "\<lparr>va_token_mint = reload (bk_ledger b) mi, va_party_token_account = token_at e b (ata e BOSS m prog),
      va_vault_token_account = token_at e b (ata e (offer_vault_authority e) m prog), va_party = BOSS, va_token_program = prog\<rparr>"
  obtain L' where tr: "transfer_tokens spl (reload (bk_ledger b) mi) (ata e BOSS m prog)
      (ata e (offer_vault_authority e) m prog) BOSS k (bk_ledger b) = Ok L'"
    using funded_transfer [OF ok mi(2-4)] assms(5-7) v(5,6) by metis
  have dep: "offer_vault_deposit e spl st ?va k (bk_ledger b) = Ok L'"
    using tr st mi v(2-4) assms(4) cr by (simp add: offer_vault_deposit_def vault_deposit_def
        get_associated_token_account_def get_or_create_associated_token_account_def reload_def
        validate_associated_token_address_def token_account_try_from_def offer_vault_authority_def [symmetric])
  have acc: "offer_vault_deposit_try_accounts e (program_order (to_account_metas e (deposit_accounts e m BOSS prog))) b = Ok (st, ?va)"
    using st mi prog by (auto simp: program_order_def to_account_metas_def deposit_accounts_def new_readonly_def new_writable_def
        offer_vault_authority_def Let_def)
  have "process_offer_vault_deposit e spl (program_order (to_account_metas e (deposit_accounts e m BOSS prog))) k b =
      Ok (b\<lparr>bk_ledger := L', bk_tokens := (bk_tokens b)(ata e (offer_vault_authority e) m prog \<mapsto> prog)\<rparr>)"
    using dep by (simp add: process_offer_vault_deposit_def acc)
  moreover note transfer_tokens_Ok(2) [OF laws tr]
  ultimately show ?thesis
    using moved_bank [OF ok mp b, of BOSS "offer_vault_authority e" k] v(8) by (auto simp: token_owners_def)
qed

text \<open>With the accounts in the order of the client, the vault authority stands where the state should.\<close>

lemma client_order_rejected:
  assumes "pda e [Seed ''state''] \<noteq> pda e [Seed ''offer_vault_authority'']"
  shows "process_offer_vault_deposit e spl (to_account_metas e (deposit_accounts e m from prog)) k b = Err AnchorConstraint"
  using assms by (simp add: process_offer_vault_deposit_def to_account_metas_def deposit_accounts_def new_readonly_def
      new_writable_def Let_def)

lemma deposit_panics:
  assumes "pda e [Seed ''state''] \<noteq> pda e [Seed ''offer_vault_authority'']"
  shows "deposit_to_vault e spl k m from prog b = Err Panic"
  by (simp add: deposit_to_vault_def client_order_rejected [OF assms] Let_def assert_that_def require_def)

text \<open>Whatever goes wrong in the set-up before is a panic too.\<close>

lemma run_steps_panics:
  assumes "run_steps steps b = Err x" and "\<And>f b x. f \<in> set steps \<Longrightarrow> f b = Err x \<Longrightarrow> x = Panic"
  shows "x = Panic"
  using assms
proof (induction steps arbitrary: b)
  case (Cons f steps)
  show ?case
  proof (cases "f b")
    case (Ok b')
    with Cons.prems show ?thesis by (intro Cons.IH [of b']) auto
  next
    case (Err y)
    with Cons.prems show ?thesis by auto
  qed
qed simp

lemma setup_helpers_panic:
  "setup_onyc_mint_and_initialize e td dp py boss auth m b = Err x \<Longrightarrow> x = Panic"
  "setup_permissionless_authority e name b = Err x \<Longrightarrow> x = Panic"
  "setup_mint td py k d auth b = Err x \<Longrightarrow> x = Panic"
  "setup_mint_2022 td py k d auth b = Err x \<Longrightarrow> x = Panic"
  "setup_associated_token_account td py m owner b = Err x \<Longrightarrow> x = Panic"
  "setup_associated_token_account_2022 td py m owner b = Err x \<Longrightarrow> x = Panic"
  "mint_to_ata e td m owner n auth b = Err x \<Longrightarrow> x = Panic"
  "mint_to_2022_ata e td m owner n auth b = Err x \<Longrightarrow> x = Panic"
  by (auto simp: setup_onyc_mint_and_initialize_def fuzz_setup_and_initialize_def initialize_invariant_def
      setup_permissionless_authority_def fuzz_setup_permissionless_authority_def
      initialize_permissionless_authority_invariant_def setup_mint_def setup_mint_2022_def setup_associated_token_account_def
      setup_associated_token_account_2022_def mint_to_ata_def mint_to_2022_ata_def map_err_def and_then_def ok_or_def
      assert_that_def require_def Let_def
      split: result.splits option.splits if_splits account_data.splits)

lemma start_accounts_panics: "start_accounts e td dp ch b = Err x \<Longrightarrow> x = Panic"
  unfolding start_accounts_def Let_def by (erule run_steps_panics) (auto dest: setup_helpers_panic)

lemma start_panics:
  assumes "pda e [Seed ''state''] \<noteq> pda e [Seed ''offer_vault_authority'']"
  shows "start e spl td dp ch b = Err Panic"
proof (cases "start_accounts e td dp ch b")
  case (Ok b')
  have "start_vaults e spl ch b' = Err Panic" by (simp add: start_vaults_def Let_def deposit_panics [OF assms])
  with Ok show ?thesis by (simp add: start_def)
next
  case (Err x)
  with start_accounts_panics [OF Err] show ?thesis by (simp add: start_def)
qed

section \<open>Phases\<close>

lemma bank_at_cong:
  assumes "bank_at e ch T n s b"
    and "\<And>m owner. m \<in> fst ` set (trade_mints ch) \<Longrightarrow> owner \<in> token_owners e ch \<Longrightarrow>
      ((owner, m) \<in> T \<longleftrightarrow> (owner, m) \<in> T') \<and> n (owner, m) = n' (owner, m) \<and> s m = s' m"
  shows "bank_at e ch T' n' s' b"
proof -
  have "m \<in> fst ` set (trade_mints ch)" if "(m, prog) \<in> set (trade_mints ch)" for m prog
    using that by force
  moreover from this have "s m = s' m" if "(m, prog) \<in> set (trade_mints ch)" for m prog
    using assms(2) [of m BOSS] that by (auto simp: token_owners_def)
  ultimately show ?thesis using assms by (auto simp: bank_at_def)
qed

lemma ends_bank_at:
  assumes "ends P f (bank_at e ch T n s)"
    and "\<And>m owner. m \<in> fst ` set (trade_mints ch) \<Longrightarrow> owner \<in> token_owners e ch \<Longrightarrow>
      ((owner, m) \<in> T \<longleftrightarrow> (owner, m) \<in> T') \<and> n (owner, m) = n' (owner, m) \<and> s m = s' m"
  shows "ends P f (bank_at e ch T' n' s')"
  using assms(1) bank_at_cong [OF _ assms(2)] unfolding ends_def by blast

lemma ends_append: "ends P (run_steps xs) Q \<Longrightarrow> ends Q (run_steps ys) R \<Longrightarrow> ends P (run_steps (xs @ ys)) R"
proof (induction xs arbitrary: P)
  case Nil
  then show ?case by (auto simp: ends_def)
next
  case (Cons x xs)
  have "ends (\<lambda>b'. \<exists>b. P b \<and> x b = Ok b') (run_steps xs) Q"
    using Cons.prems(1) by (fastforce simp: ends_def)
  from Cons.IH [OF this Cons.prems(2)] show ?case
    using Cons.prems(1) by (fastforce simp: ends_def)
qed

lemma keys_differ:
  assumes "framework_ok e spl td ch"
  shows "fa_token_mint_a ch \<noteq> fa_token_mint_2022_a ch" "fa_token_mint_a ch \<noteq> fa_token_mint_b ch"
    "fa_token_mint_a ch \<noteq> fa_token_mint_2022_b ch" "fa_token_mint_2022_a ch \<noteq> fa_token_mint_b ch"
    "fa_token_mint_2022_a ch \<noteq> fa_token_mint_2022_b ch" "fa_token_mint_b ch \<noteq> fa_token_mint_2022_b ch"
    "BOSS \<noteq> offer_vault_authority e" "BOSS \<noteq> fa_user ch" "offer_vault_authority e \<noteq> fa_user ch"
  using assms by (auto simp: framework_ok_def addresses_distinct_def trade_mints_def)

lemma ends_map_Cons:
  assumes "ends P (f x) Q" "ends Q (run_steps (map f xs)) R" "\<And>b. R b \<Longrightarrow> R' b"
  shows "ends P (run_steps (map f (x # xs))) R'"
  using ends_Cons [OF assms(1,2)] assms(3) by (fastforce simp: ends_def)

text \<open>The set-up repeats each call for a list of mints.\<close>

definition some_mints :: "start_choices \<Rightarrow> (pubkey \<times> pubkey) list \<Rightarrow> bool" where
  "some_mints ch ps \<longleftrightarrow> set ps \<subseteq> set (trade_mints ch) \<and> distinct (map fst ps)"

lemma some_mints_Cons: "some_mints ch ((m, prog) # ps) \<longleftrightarrow>
  (m, prog) \<in> set (trade_mints ch) \<and> m \<notin> fst ` set ps \<and> some_mints ch ps"
  by (auto simp: some_mints_def)

abbreviation account_calls :: "trident \<Rightarrow> start_choices \<Rightarrow> pubkey \<Rightarrow> (pubkey \<times> pubkey) list \<Rightarrow> (bank \<Rightarrow> bank result) list" where
  "account_calls td ch owner ps \<equiv>
     map (\<lambda>(m, prog) b. map_err (td_initialize_associated_token_account td prog (fa_payer ch) m owner b) Panic) ps"

abbreviation mint_calls ::
  "env \<Rightarrow> trident \<Rightarrow> start_choices \<Rightarrow> pubkey \<Rightarrow> u64 \<Rightarrow> (pubkey \<times> pubkey) list \<Rightarrow> (bank \<Rightarrow> bank result) list" where
  "mint_calls e td ch owner k ps \<equiv>
     map (\<lambda>(m, prog) b. map_err (td_mint_to td prog (ata e owner m prog) m (fa_random_token_authority ch) k b) Panic) ps"

lemma calls_of_helpers:
  "setup_associated_token_account td py m owner =
     (\<lambda>b. map_err (td_initialize_associated_token_account td TOKEN_PROGRAM_ID py m owner b) Panic)"
  "setup_associated_token_account_2022 td py m owner =
     (\<lambda>b. map_err (td_initialize_associated_token_account td TOKEN_2022_PROGRAM_ID py m owner b) Panic)"
  "mint_to_ata e td m owner k auth =
     (\<lambda>b. map_err (td_mint_to td TOKEN_PROGRAM_ID (ata e owner m TOKEN_PROGRAM_ID) m auth k b) Panic)"
  "mint_to_2022_ata e td m owner k auth =
     (\<lambda>b. map_err (td_mint_to td TOKEN_2022_PROGRAM_ID (ata e owner m TOKEN_2022_PROGRAM_ID) m auth k b) Panic)"
  by (simp_all add: fun_eq_iff setup_associated_token_account_def setup_associated_token_account_2022_def
      mint_to_ata_def mint_to_2022_ata_def)

lemma account_block:
  assumes "framework_ok e spl td ch" "owner \<in> token_owners e ch"
  shows "some_mints ch ps \<Longrightarrow> \<forall>m \<in> fst ` set ps. (owner, m) \<notin> T \<and> n (owner, m) = 0 \<Longrightarrow>
    ends (bank_at e ch T n s)
      (run_steps (account_calls td ch owner ps))
      (bank_at e ch (T \<union> {owner} \<times> fst ` set ps) n s)"
proof (induction ps arbitrary: T)
  case Nil
  then show ?case by (simp add: ends_def)
next
  case (Cons mp ps)
  obtain m prog where mp: "mp = (m, prog)" by fastforce
  show ?case
  proof (rule ends_map_Cons)
    show "ends (bank_at e ch T n s) ((\<lambda>(m, prog) b. map_err (td_initialize_associated_token_account td prog
        (fa_payer ch) m owner b) Panic) mp) (bank_at e ch (insert (owner, m) T) n s)"
      using account_step [OF assms(1) _ assms(2)] Cons.prems by (simp add: mp some_mints_Cons)
    show "ends (bank_at e ch (insert (owner, m) T) n s)
      (run_steps (account_calls td ch owner ps))
      (bank_at e ch (insert (owner, m) T \<union> {owner} \<times> fst ` set ps) n s)"
      using Cons.prems by (intro Cons.IH) (auto simp: mp some_mints_Cons)
  qed (auto simp: mp elim: bank_at_cong)
qed

lemma mint_block:
  assumes "framework_ok e spl td ch" "owner \<in> token_owners e ch"
  shows "some_mints ch ps \<Longrightarrow> \<forall>m \<in> fst ` set ps. (owner, m) \<in> T \<and> s m + k \<le> u64_max \<Longrightarrow>
    ends (bank_at e ch T n s)
      (run_steps (mint_calls e td ch owner k ps))
      (bank_at e ch T (\<lambda>(o', m). n (o', m) + (if o' = owner \<and> m \<in> fst ` set ps then k else 0))
         (\<lambda>m. s m + (if m \<in> fst ` set ps then k else 0)))"
proof (induction ps arbitrary: n s)
  case Nil
  then show ?case by (simp add: ends_def)
next
  case (Cons mp ps)
  obtain m prog where mp: "mp = (m, prog)" by fastforce
  let ?n = "n((owner, m) := n (owner, m) + k)" and ?s = "s(m := s m + k)"
  show ?case
  proof (rule ends_map_Cons)
    show "ends (bank_at e ch T n s) ((\<lambda>(m, prog) b. map_err (td_mint_to td prog (ata e owner m prog) m
        (fa_random_token_authority ch) k b) Panic) mp) (bank_at e ch T ?n ?s)"
      using mint_step [OF assms(1) _ assms(2)] Cons.prems by (simp add: mp some_mints_Cons)
    show "ends (bank_at e ch T ?n ?s)
      (run_steps (mint_calls e td ch owner k ps))
      (bank_at e ch T (\<lambda>(o', m). ?n (o', m) + (if o' = owner \<and> m \<in> fst ` set ps then k else 0))
         (\<lambda>m. ?s m + (if m \<in> fst ` set ps then k else 0)))"
      using Cons.prems by (intro Cons.IH) (auto simp: mp some_mints_Cons)
  qed (use Cons.prems in \<open>auto simp: mp some_mints_Cons elim!: bank_at_cong\<close>)
qed

abbreviation vault :: "env \<Rightarrow> pubkey" where
  "vault \<equiv> offer_vault_authority"

lemma all_mints: "framework_ok e spl td ch \<Longrightarrow> some_mints ch (trade_mints ch)"
  using keys_differ [of e spl td ch] by (simp add: some_mints_def trade_mints_def)

lemma token_owner [simp]: "BOSS \<in> token_owners e ch" "vault e \<in> token_owners e ch" "fa_user ch \<in> token_owners e ch"
  by (simp_all add: token_owners_def)

lemma initialized:
  assumes "deployed dp"
  shows "\<exists>st. fuzz_setup_and_initialize (dp_bpf_loader dp) (dp_program_data_address dp) (dp_owner dp)
    (dp_program_data dp) BOSS onyc bump None = Ok st \<and> s_boss st = BOSS \<and> \<not> s_is_killed st"
  using assms by (auto simp: deployed_def fuzz_setup_and_initialize_def initialize_def get_upgrade_authority_def
      initialize_invariant_def Let_def MAX_ADMINS_def require_def zero_state_def split: option.splits)

definition usable_name :: "nat list \<Rightarrow> bool" where
  "usable_name name \<longleftrightarrow> trim name \<noteq> [] \<and> utf8_length (trim name) \<le> 50"

definition funded_bank :: "env \<Rightarrow> start_choices \<Rightarrow> bank" where
  "funded_bank e ch = (fresh_bank e)\<lparr>bk_funded := {fa_payer ch, BOSS}\<rparr>"

lemma mints_set_up:
  assumes ok: "framework_ok e spl td ch" and dp: "deployed dp" and name: "usable_name (sc_random_name ch)"
  defines "auth \<equiv> fa_random_token_authority ch"
  shows "ends (\<lambda>b. b = funded_bank e ch)
    (run_steps [setup_onyc_mint_and_initialize e td dp (fa_payer ch) BOSS auth (fa_onyc_mint ch),
         setup_permissionless_authority e (sc_random_name ch),
         setup_mint td (fa_payer ch) (fa_token_mint_a ch) 4 auth,
         setup_mint_2022 td (fa_payer ch) (fa_token_mint_2022_a ch) 4 auth,
         setup_mint td (fa_payer ch) (fa_token_mint_b ch) 9 auth,
         setup_mint_2022 td (fa_payer ch) (fa_token_mint_2022_b ch) 4 auth])
    (bank_at e ch {} (\<lambda>_. 0) (\<lambda>_. 0))"
proof -
  have laws: "trident_laws e td" and cr: "\<And>k. create_account e k = Ok ()"
    using ok by (auto simp: framework_ok_def)
  note m = mint_made [OF laws]
  obtain st where st: "fuzz_setup_and_initialize (dp_bpf_loader dp) (dp_program_data_address dp) (dp_owner dp)
    (dp_program_data dp) BOSS (fa_onyc_mint ch) (snd (find_program_address e [Seed ''state''])) None = Ok st"
    "s_boss st = BOSS" "\<not> s_is_killed st" using initialized [OF dp] by blast
  have "\<exists>acc. initialize_permissionless_authority e st BOSS (sc_random_name ch) (bk_permissionless (fresh_bank e)) = Ok acc"
    using name st(2) cr by (simp add: usable_name_def initialize_permissionless_authority_def fresh_bank_def)
  then obtain acc where acc: "fuzz_setup_permissionless_authority e st BOSS (sc_random_name ch)
     (bk_permissionless (fresh_bank e)) = Ok acc" using fuzz_permissionless_authority_eq by blast
  have "fa_onyc_mint ch \<notin> fst ` set (trade_mints ch)" using ok by (auto simp: framework_ok_def addresses_distinct_def)
  then show ?thesis using st acc keys_differ(1-6) [OF ok]
    by (auto simp: ends_def setup_onyc_mint_and_initialize_def setup_permissionless_authority_def setup_mint_def
        setup_mint_2022_def m funded_bank_def fresh_bank_def bank_at_def setup_mints_def auth_def trade_mints_def Let_def)
qed

lemma accounts_set_up:
  assumes ok: "framework_ok e spl td ch" and dp: "deployed dp" and name: "usable_name (sc_random_name ch)"
  shows "ends (\<lambda>b. b = fresh_bank e) (start_accounts e td dp ch)
    (bank_at e ch ({BOSS} \<times> UNIV) (\<lambda>(owner, m). if owner = BOSS then 100000000000000 else 0) (\<lambda>_. 100000000000000))"
proof -
  let ?auth = "fa_random_token_authority ch"
  let ?steps = "[setup_onyc_mint_and_initialize e td dp (fa_payer ch) BOSS ?auth (fa_onyc_mint ch),
      setup_permissionless_authority e (sc_random_name ch),
      setup_mint td (fa_payer ch) (fa_token_mint_a ch) 4 ?auth, setup_mint_2022 td (fa_payer ch) (fa_token_mint_2022_a ch) 4 ?auth,
      setup_mint td (fa_payer ch) (fa_token_mint_b ch) 9 ?auth, setup_mint_2022 td (fa_payer ch) (fa_token_mint_2022_b ch) 4 ?auth] @
    account_calls td ch BOSS (trade_mints ch) @ mint_calls e td ch BOSS 100000000000000 (trade_mints ch)"
  have laws: "trident_laws e td" using ok by (simp add: framework_ok_def)
  have "start_accounts e td dp ch (fresh_bank e) = run_steps ?steps (funded_bank e ch)"
    by (simp add: start_accounts_def Let_def airdrop_funds [OF laws] LAMPORTS_PER_SOL_def funded_bank_def calls_of_helpers
        trade_mints_def fresh_bank_def del: run_steps.simps)
  then have eq: "ends (\<lambda>b. b = fresh_bank e) (start_accounts e td dp ch) Q \<longleftrightarrow>
      ends (\<lambda>b. b = funded_bank e ch) (run_steps ?steps) Q" for Q
    unfolding ends_def by metis
  have "ends (\<lambda>b. b = funded_bank e ch) (run_steps ?steps)
    (bank_at e ch ({} \<union> {BOSS} \<times> fst ` set (trade_mints ch))
       (\<lambda>(o', m). 0 + (if o' = BOSS \<and> m \<in> fst ` set (trade_mints ch) then 100000000000000 else 0))
       (\<lambda>m. 0 + (if m \<in> fst ` set (trade_mints ch) then 100000000000000 else 0)))"
    by (rule ends_append [OF mints_set_up [OF ok dp name] ends_append [OF account_block [OF ok token_owner(1) all_mints [OF ok]]
          mint_block [OF ok token_owner(1) all_mints [OF ok]]]]) (auto simp: int_defs)
  then show ?thesis unfolding eq by (rule ends_bank_at) simp
qed

definition in_range :: "start_choices \<Rightarrow> bool" where
  "in_range ch \<longleftrightarrow> sc_deposit_amount ch \<in> {1000..<100000000000000} \<and> sc_withdraw_amount ch \<in> {1000..<2000} \<and>
     sc_fee_basis_points ch \<in> {1..<1000} \<and> usable_name (sc_random_name ch)"

text \<open>
  C39: The set-up of the fuzz harness panics for every random choice, so none of its flows ever runs.
  The accounts, mints and balances of the boss are set up as intended, but every deposit into the
  offer vault that follows is refused: the client sends the vault authority where the program
  expects the state. The same deposits with the accounts in the order of the program succeed and
  move exactly the chosen amount.
\<close>

theorem harness_setup_verdict:
  assumes ok: "framework_ok e spl td ch" and dp: "deployed dp" and r: "in_range ch"
    and pdas: "pda e [Seed ''state''] \<noteq> pda e [Seed ''offer_vault_authority'']"
  defines "n \<equiv> sc_deposit_amount ch" and "metas \<equiv> \<lambda>m prog. to_account_metas e (deposit_accounts e m BOSS prog)"
  shows "start e spl td dp ch (fresh_bank e) = Err Panic \<and>
    (\<exists>b. start_accounts e td dp ch (fresh_bank e) = Ok b \<and> start_vaults e spl ch b = Err Panic \<and>
      (\<forall>(m, prog) \<in> set (trade_mints ch).
        l_bal (bk_ledger b) (ata e BOSS m prog) = 100000000000000 \<and>
        process_offer_vault_deposit e spl (metas m prog) n b = Err AnchorConstraint \<and>
        (\<exists>b'. process_offer_vault_deposit e spl (program_order (metas m prog)) n b = Ok b' \<and>
          l_bal (bk_ledger b') (ata e BOSS m prog) = 100000000000000 - n \<and>
          l_bal (bk_ledger b') (ata e (offer_vault_authority e) m prog) = n)))"
proof -
  let ?P = "bank_at e ch ({BOSS} \<times> UNIV) (\<lambda>(owner, m). if owner = BOSS then 100000000000000 else 0) (\<lambda>_. 100000000000000)"
  have "usable_name (sc_random_name ch)" using r by (simp add: in_range_def)
  from accounts_set_up [OF ok dp this] obtain b where b: "start_accounts e td dp ch (fresh_bank e) = Ok b" "?P b"
    unfolding ends_def by blast
  have "l_bal (bk_ledger b) (ata e BOSS m prog) = 100000000000000 \<and>
      process_offer_vault_deposit e spl (metas m prog) n b = Err AnchorConstraint \<and>
      (\<exists>b'. process_offer_vault_deposit e spl (program_order (metas m prog)) n b = Ok b' \<and>
          l_bal (bk_ledger b') (ata e BOSS m prog) = 100000000000000 - n \<and>
          l_bal (bk_ledger b') (ata e (offer_vault_authority e) m prog) = n)"
    if mp: "(m, prog) \<in> set (trade_mints ch)" for m prog
  proof -
    have "0 < n" "n \<le> 100000000000000" "n \<le> u64_max" using r by (simp_all add: in_range_def n_def int_defs)
    with ordered_deposit [OF ok mp b(2), of n] keys_differ(7) [OF ok] obtain b' where
      b': "process_offer_vault_deposit e spl (program_order (metas m prog)) n b = Ok b'"
        "bank_at e ch (insert (vault e, m) ({BOSS} \<times> UNIV)) ((\<lambda>(owner, m). if owner = BOSS then 100000000000000 else 0)
          ((BOSS, m) := 100000000000000 - n, (vault e, m) := n)) (\<lambda>_. 100000000000000) b'"
      by (auto simp: metas_def)
    from vault_bank(5,6) [OF ok mp b'(2)] keys_differ(7) [OF ok]
    have "l_bal (bk_ledger b') (ata e BOSS m prog) = 100000000000000 - n" "l_bal (bk_ledger b') (ata e (vault e) m prog) = n"
      by simp_all
    with b'(1) vault_bank(5) [OF ok mp b(2)] client_order_rejected [OF pdas] show ?thesis
      by (simp add: metas_def)
  qed
  moreover have "start_vaults e spl ch b = Err Panic" by (simp add: start_vaults_def Let_def deposit_panics [OF pdas])
  ultimately show ?thesis using start_panics [OF pdas] b(1) by auto
qed

definition sample_trident :: trident where
  "sample_trident = \<lparr>
     td_airdrop = (\<lambda>k n b. b\<lparr>bk_funded := insert k (bk_funded b)\<rparr>),
     td_initialize_mint = (\<lambda>prog py k d auth b. Ok (b\<lparr>bk_mints := (bk_mints b)(k \<mapsto> new_mint prog k d auth)\<rparr>)),
     td_initialize_associated_token_account = (\<lambda>prog py m owner b.
       Ok (b\<lparr>bk_tokens := (bk_tokens b)(ata sample_env owner m prog \<mapsto> prog)\<rparr>)),
     td_mint_to = (\<lambda>prog k m auth n b.
       Ok (b\<lparr>bk_ledger := (bk_ledger b)\<lparr>l_bal := credit k n (l_bal (bk_ledger b)),
         l_supply := credit m n (l_supply (bk_ledger b))\<rparr>\<rparr>))\<rparr>"

definition sample_choices :: start_choices where
  "sample_choices = \<lparr>fa_random_token_authority = 11, fa_payer = 12, fa_onyc_mint = 5, fa_token_mint_a = 1,
     fa_token_mint_b = 2, fa_token_mint_2022_a = 3, fa_token_mint_2022_b = 4, fa_user = 13,
     sc_random_name = [102, 117, 122, 122], sc_deposit_amount = 5000, sc_withdraw_amount = 1500,
     sc_fee_basis_points = 30\<rparr>"

definition sample_deployment :: deployment where
  "sample_deployment = \<lparr>dp_bpf_loader = 60, dp_program_data_address = 61, dp_owner = 60,
     dp_program_data = Some \<lparr>pd_key = 61, pd_owner = 60, pd_content = Some (ProgramData (Some BOSS))\<rparr>\<rparr>"

lemma sample_framework_ok: "framework_ok sample_env plain_token_program sample_trident sample_choices"
proof -
  have "trident_laws sample_env sample_trident" by (simp add: trident_laws_def sample_trident_def)
  moreover have "pays_when_funded sample_env plain_token_program (setup_mints sample_choices)"
    by (auto simp: pays_when_funded_def plain_token_program_def)
  moreover have "addresses_distinct sample_env sample_choices"
    by (simp add: addresses_distinct_def trade_mints_def sample_choices_def token_owners_def offer_vault_authority_def
        inj_on_def const_defs)
  ultimately show ?thesis by (simp add: framework_ok_def plain_token_program_laws const_defs)
qed

theorem harness_setup_verdict_witness:
  "start sample_env plain_token_program sample_trident sample_deployment sample_choices (fresh_bank sample_env) = Err Panic \<and>
   (\<exists>b b'. start_accounts sample_env sample_trident sample_deployment sample_choices (fresh_bank sample_env) = Ok b \<and>
     l_bal (bk_ledger b) (ata sample_env BOSS 3 TOKEN_2022_PROGRAM_ID) = 100000000000000 \<and>
     process_offer_vault_deposit sample_env plain_token_program
       (program_order (to_account_metas sample_env (deposit_accounts sample_env 3 BOSS TOKEN_2022_PROGRAM_ID))) 5000 b = Ok b' \<and>
     l_bal (bk_ledger b') (ata sample_env 105 3 TOKEN_2022_PROGRAM_ID) = 5000)"
proof -
  have dp: "deployed sample_deployment" by (simp add: deployed_def sample_deployment_def)
  have r: "in_range sample_choices"
    by (simp add: in_range_def sample_choices_def usable_name_def trim_def is_whitespace_def utf8_length_def)
  have pdas: "pda sample_env [Seed ''state''] \<noteq> pda sample_env [Seed ''offer_vault_authority'']"
    by (simp add: sample_pda_def)
  have mem: "(3, TOKEN_2022_PROGRAM_ID) \<in> set (trade_mints sample_choices)"
    and k: "offer_vault_authority sample_env = 105" "sc_deposit_amount sample_choices = 5000"
    by (simp_all add: trade_mints_def sample_choices_def offer_vault_authority_def)
  note th = harness_setup_verdict [OF sample_framework_ok dp r pdas, unfolded k]
  from conjunct2 [OF th] obtain b where
    b: "start_accounts sample_env sample_trident sample_deployment sample_choices (fresh_bank sample_env) = Ok b"
    and all: "\<forall>(m, prog) \<in> set (trade_mints sample_choices).
        l_bal (bk_ledger b) (ata sample_env BOSS m prog) = 100000000000000 \<and>
        process_offer_vault_deposit sample_env plain_token_program
          (to_account_metas sample_env (deposit_accounts sample_env m BOSS prog)) 5000 b = Err AnchorConstraint \<and>
        (\<exists>b'. process_offer_vault_deposit sample_env plain_token_program
            (program_order (to_account_metas sample_env (deposit_accounts sample_env m BOSS prog))) 5000 b = Ok b' \<and>
          l_bal (bk_ledger b') (ata sample_env BOSS m prog) = 100000000000000 - 5000 \<and>
          l_bal (bk_ledger b') (ata sample_env 105 m prog) = 5000)"
    by blast
  from bspec [OF all mem] obtain b' where
    "l_bal (bk_ledger b) (ata sample_env BOSS 3 TOKEN_2022_PROGRAM_ID) = 100000000000000"
    "process_offer_vault_deposit sample_env plain_token_program
       (program_order (to_account_metas sample_env (deposit_accounts sample_env 3 BOSS TOKEN_2022_PROGRAM_ID))) 5000 b = Ok b'"
    "l_bal (bk_ledger b') (ata sample_env 105 3 TOKEN_2022_PROGRAM_ID) = 5000"
    unfolding prod.case by blast
  with conjunct1 [OF th] b show ?thesis by blast
qed

end
