(* ===== verification/Event_Log.thy ===== *)
theory Event_Log
  imports Entry_Points Fuzz_Harness
begin

text \<open>
  The events that the instructions emit, and an observer who sees nothing but the event log. Each
  event carries the fields of its struct; an instruction emits its events only when it succeeds.
  The observer folds the log into a view of the state. The theorems show that the log is complete:
  the view is, after every sequence of instructions, what the accounts hold.
\<close>

section \<open>Observers\<close>

primrec event_log :: "('op \<Rightarrow> 's \<Rightarrow> 's result) \<Rightarrow> ('op \<Rightarrow> 's \<Rightarrow> 'ev list) \<Rightarrow> 'op list \<Rightarrow> 's \<Rightarrow> 'ev list" where
  "event_log exec events [] s = []"
| "event_log exec events (c # cs) s =
     (case exec c s of Ok s' \<Rightarrow> events c s @ event_log exec events cs s' | Err _ \<Rightarrow> event_log exec events cs s)"

text \<open>
  The interface of an observer: one successful instruction takes the view along. It extends the
  machine with its guarded invariant.
\<close>

locale observed_machine = guarded_machine exec inv ok
  for exec :: "'op \<Rightarrow> 's \<Rightarrow> 's result" and inv :: "'s \<Rightarrow> bool" and ok :: "'op \<Rightarrow> bool" +
  fixes events :: "'op \<Rightarrow> 's \<Rightarrow> 'ev list"
    and observe :: "'ev \<Rightarrow> 'v \<Rightarrow> 'v"
    and sees :: "'v \<Rightarrow> 's \<Rightarrow> bool"
  assumes step_seen: "ok c \<Longrightarrow> inv s \<Longrightarrow> exec c s = Ok s' \<Longrightarrow> sees v s \<Longrightarrow> sees (fold observe (events c s) v) s'"
begin

lemma run_seen:
  "list_all ok cs \<Longrightarrow> inv s \<Longrightarrow> sees v s \<Longrightarrow>
     sees (fold observe (event_log exec events cs s) v) (run_ops exec cs s)"
proof (induction cs arbitrary: s v)
  case (Cons c cs)
  then show ?case by (cases "exec c s") (auto intro: step_inv step_seen)
qed simp

end

section \<open>Governance\<close>

datatype gov_event =
    BossProposedEvent pubkey pubkey
  | BossAcceptedEvent pubkey pubkey
  | AdminAddedEvent pubkey pubkey
  | AdminRemovedEvent pubkey pubkey
  | AdminsClearedEvent pubkey
  | KillSwitchToggledEvent bool pubkey
  | ApproverAddedEvent pubkey pubkey
  | ApproverRemovedEvent pubkey pubkey
  | WorkerUpdatedEvent pubkey pubkey
  | MainOfferUpdatedEvent pubkey pubkey
  | ONycMintUpdatedEvent pubkey pubkey
  | MaxSupplyConfiguredEvent u64 u64
  | MaxMintAmountConfiguredEvent u64 u64

text \<open>Each instruction emits one event, with the values before and after the change.\<close>

fun gov_events :: "gov_op \<Rightarrow> state \<Rightarrow> gov_event list" where
  "gov_events (ProposeBoss boss new_boss) s = [BossProposedEvent boss new_boss]"
| "gov_events (AcceptBoss signer) s = [BossAcceptedEvent (s_boss s) (s_proposed_boss s)]"
| "gov_events (AddAdmin boss new_admin) s = [AdminAddedEvent new_admin boss]"
| "gov_events (RemoveAdmin boss admin_to_remove) s = [AdminRemovedEvent admin_to_remove boss]"
| "gov_events (ClearAdmins boss) s = [AdminsClearedEvent boss]"
| "gov_events (SetKillSwitch signer enable) s = [KillSwitchToggledEvent enable signer]"
| "gov_events (AddApprover boss approver) s = [ApproverAddedEvent approver boss]"
| "gov_events (RemoveApprover boss approver) s = [ApproverRemovedEvent approver boss]"
| "gov_events (SetWorker boss new_worker) s = [WorkerUpdatedEvent (s_worker s) new_worker]"
| "gov_events (SetMainOffer boss new_main_offer m) s = [MainOfferUpdatedEvent (s_main_offer s) new_main_offer]"
| "gov_events (SetOnycMint boss m) s = [ONycMintUpdatedEvent (s_onyc_mint s) m]"
| "gov_events (ConfigureMaxSupply boss max_supply) s = [MaxSupplyConfiguredEvent (s_max_supply s) max_supply]"
| "gov_events (ConfigureMaxMintAmount boss max_mint_amount) s =
     [MaxMintAmountConfiguredEvent (s_max_mint_amount s) max_mint_amount]"

text \<open>The observer knows admins and approvers as sets: which slot a key is stored in has no meaning.\<close>

record gov_view =
  gv_boss :: pubkey
  gv_proposed_boss :: pubkey
  gv_admins :: "pubkey set"
  gv_approvers :: "pubkey set"
  gv_is_killed :: bool
  gv_worker :: pubkey
  gv_main_offer :: pubkey
  gv_onyc_mint :: pubkey
  gv_max_supply :: u64
  gv_max_mint_amount :: u64

definition gov_view_of :: "state \<Rightarrow> gov_view" where
  "gov_view_of s = \<lparr>gv_boss = s_boss s, gv_proposed_boss = s_proposed_boss s,
     gv_admins = set (s_admins s) - {default_pubkey},
     gv_approvers = {s_approver1 s, s_approver2 s} - {default_pubkey},
     gv_is_killed = s_is_killed s, gv_worker = s_worker s, gv_main_offer = s_main_offer s,
     gv_onyc_mint = s_onyc_mint s, gv_max_supply = s_max_supply s, gv_max_mint_amount = s_max_mint_amount s\<rparr>"

fun observe_gov :: "gov_event \<Rightarrow> gov_view \<Rightarrow> gov_view" where
  "observe_gov (BossProposedEvent boss new) v = v\<lparr>gv_proposed_boss := new\<rparr>"
| "observe_gov (BossAcceptedEvent old new) v = v\<lparr>gv_boss := new, gv_proposed_boss := default_pubkey\<rparr>"
| "observe_gov (AdminAddedEvent k boss) v = v\<lparr>gv_admins := insert k (gv_admins v)\<rparr>"
| "observe_gov (AdminRemovedEvent k boss) v = v\<lparr>gv_admins := gv_admins v - {k}\<rparr>"
| "observe_gov (AdminsClearedEvent boss) v = v\<lparr>gv_admins := {}\<rparr>"
| "observe_gov (KillSwitchToggledEvent b k) v = v\<lparr>gv_is_killed := b\<rparr>"
| "observe_gov (ApproverAddedEvent k boss) v = v\<lparr>gv_approvers := insert k (gv_approvers v)\<rparr>"
| "observe_gov (ApproverRemovedEvent k boss) v = v\<lparr>gv_approvers := gv_approvers v - {k}\<rparr>"
| "observe_gov (WorkerUpdatedEvent old new) v = v\<lparr>gv_worker := new\<rparr>"
| "observe_gov (MainOfferUpdatedEvent old new) v = v\<lparr>gv_main_offer := new\<rparr>"
| "observe_gov (ONycMintUpdatedEvent old new) v = v\<lparr>gv_onyc_mint := new\<rparr>"
| "observe_gov (MaxSupplyConfiguredEvent old new) v = v\<lparr>gv_max_supply := new\<rparr>"
| "observe_gov (MaxMintAmountConfiguredEvent old new) v = v\<lparr>gv_max_mint_amount := new\<rparr>"

lemma admin_added_set:
  assumes "replace_first default_pubkey k as = Some bs" and "k \<notin> set as"
  shows "set bs - {default_pubkey} = insert k (set as - {default_pubkey})"
proof -
  obtain us vs where "as = us @ default_pubkey # vs" "bs = us @ k # vs"
    using replace_first_split [OF assms(1)] by auto
  then show ?thesis using assms(2) by auto
qed

lemma admin_removed_set:
  assumes "replace_first k default_pubkey as = Some bs" and "distinct (live_admins as)"
  shows "set bs - {default_pubkey} = set as - {default_pubkey} - {k}"
proof -
  obtain us vs where "as = us @ k # vs" "bs = us @ default_pubkey # vs"
    using replace_first_split [OF assms(1)] by auto
  then show ?thesis using assms(2) by (auto simp: live_admins_def split: if_splits)
qed

lemma approver_sets:
  fixes a b k d :: pubkey
  shows "k \<noteq> d \<Longrightarrow> {k, b} - {d} = insert k ({d, b} - {d})" and "k \<noteq> d \<Longrightarrow> {a, k} - {d} = insert k ({a, d} - {d})"
    and "k \<noteq> b \<Longrightarrow> {k, b} - {d} - {k} = {d, b} - {d}" and "k \<noteq> a \<Longrightarrow> {a, k} - {d} - {k} = {a, d} - {d}"
  by auto

lemma gov_step_seen:
  assumes wf: "state_wf s" and ok: "exec_gov c s = Ok s'"
  shows "fold observe_gov (gov_events c s) (gov_view_of s) = gov_view_of s'"
proof (cases c)
  case (AddAdmin boss k)
  then obtain as where "replace_first default_pubkey k (s_admins s) = Some as" "k \<notin> set (s_admins s)"
      "s' = s\<lparr>s_admins := as\<rparr>"
    using ok by (auto simp: add_admin_def split: option.splits)
  then show ?thesis using AddAdmin by (simp add: gov_view_of_def admin_added_set)
next
  case (RemoveAdmin boss k)
  then obtain as where "replace_first k default_pubkey (s_admins s) = Some as" "s' = s\<lparr>s_admins := as\<rparr>"
    using ok by (auto simp: remove_admin_def split: option.splits)
  then show ?thesis using RemoveAdmin wf by (simp add: gov_view_of_def state_wf_def admin_removed_set)
next
  case (AddApprover boss k)
  then have "k \<noteq> default_pubkey" and "s_approver1 s = default_pubkey \<and> s' = s\<lparr>s_approver1 := k\<rparr> \<or>
      s_approver2 s = default_pubkey \<and> s' = s\<lparr>s_approver2 := k\<rparr>"
    using ok by (auto simp: add_approver_def split: if_splits)
  then show ?thesis using AddApprover by (elim disjE conjE) (simp_all add: gov_view_of_def approver_sets)
next
  case (RemoveApprover boss k)
  then consider "s_approver1 s = k" "k \<noteq> s_approver2 s" "s' = s\<lparr>s_approver1 := default_pubkey\<rparr>"
    | "s_approver2 s = k" "k \<noteq> s_approver1 s" "s' = s\<lparr>s_approver2 := default_pubkey\<rparr>"
    using ok wf by (auto simp: remove_approver_def state_wf_def split: if_splits)
  then show ?thesis
  proof cases
    case 1
    then show ?thesis using RemoveApprover approver_sets(3) [of k "s_approver2 s" default_pubkey]
      by (simp add: gov_view_of_def)
  next
    case 2
    then show ?thesis using RemoveApprover approver_sets(4) [of k "s_approver1 s" default_pubkey]
      by (simp add: gov_view_of_def)
  qed
qed (use ok in \<open>auto simp: gov_op_defs gov_view_of_def Let_def split: if_splits\<close>)

interpretation gov_log: observed_machine exec_gov state_wf "\<lambda>_. True" gov_events observe_gov
    "\<lambda>v s. v = gov_view_of s"
  by unfold_locales (use gov_step_seen in blast)

text \<open>
  C23: The event log determines the governance state. An observer who knows the state once and then
  reads nothing but the events knows, after every sequence of governance instructions, failing ones
  included, the boss and the proposed boss, all admins and approvers, the kill switch, the worker,
  the main offer, the ONyc mint and both caps.
\<close>

theorem governance_log_determines_the_state:
  assumes "state_wf s"
  shows "fold observe_gov (event_log exec_gov gov_events cs s) (gov_view_of s) = gov_view_of (run_ops exec_gov cs s)"
  by (rule gov_log.run_seen) (simp_all add: list_all_iff assms)

theorem governance_log_determines_the_state_witness:
  "gv_admins (fold observe_gov (event_log exec_gov gov_events [AddAdmin 7 11, RemoveAdmin 7 8, AddAdmin 9 12]
     sample_governance) (gov_view_of sample_governance)) = {11}"
  unfolding governance_log_determines_the_state [OF sample_governance_wf]
  by (auto simp: gov_view_of_def sample_governance_def zero_state_def add_admin_def remove_admin_def default_pubkey_def
      numeral_eq_Suc)

section \<open>Offers\<close>

datatype offer_event =
    OfferMadeEvent pubkey pubkey pubkey u16 pubkey bool bool
  | OfferVectorAddedEvent pubkey u64 u64 u64 u64 u64
  | OfferVectorEvictedEvent pubkey pubkey u64
  | OfferVectorDeletedEvent pubkey u64
  | AllOfferVectorsDeletedEvent pubkey u8
  | OfferFeeUpdatedEvent pubkey u16 u16 pubkey
  | OfferPermissionlessFeeUpdatedEvent pubkey u16 u16 pubkey
  | OfferDisabledSetEvent pubkey bool pubkey

text \<open>The loop of \<open>clean_old_vectors\<close> emits one event for every slot that it clears.\<close>

definition eviction_events :: "offer \<Rightarrow> offer_vector \<Rightarrow> u64 \<Rightarrow> offer_event list" where
  "eviction_events offer new_vector current_time =
     (case (if v_start_time new_vector = current_time then Ok new_vector
            else find_active_vector_at offer current_time) of
        Err _ \<Rightarrow> []
      | Ok active_vector \<Rightarrow>
          let active_start = v_start_time active_vector;
              prev_start = (case find_active_vector_at offer (active_start - 1) of
                              Ok v \<Rightarrow> v_start_time v
                            | Err _ \<Rightarrow> 0)
          in map (\<lambda>v. OfferVectorEvictedEvent (o_token_in_mint offer) (o_token_out_mint offer) (v_start_time v))
               (filter (\<lambda>v. v_start_time v \<noteq> 0 \<and> v_start_time v \<noteq> active_start \<and>
                            v_start_time v \<noteq> prev_start \<and> v_start_time v < active_start) (o_vectors offer)))"

fun offer_events :: "pubkey \<Rightarrow> offer_op \<Rightarrow> offer \<Rightarrow> offer_event list" where
  "offer_events key (AddVector a now start_opt base_time base_price apr duration) offer =
     (let current_time = i64_as_u64 now;
          start_time = (case start_opt of Some t \<Rightarrow> t | None \<Rightarrow> max current_time base_time);
          new_vector = \<lparr>v_start_time = start_time, v_base_time = base_time, v_base_price = base_price,
            v_apr = apr, v_price_fix_duration = duration\<rparr>
      in eviction_events offer new_vector current_time @
         [OfferVectorAddedEvent key start_time base_time base_price apr duration])"
| "offer_events key (DeleteVector a now t) offer = [OfferVectorDeletedEvent key t]"
| "offer_events key (DeleteAllVectors a) offer =
     [AllOfferVectorsDeletedEvent key (length (filter (\<lambda>v. v_start_time v \<noteq> 0) (o_vectors offer)))]"
| "offer_events key (UpdateFee a fee) offer = [OfferFeeUpdatedEvent key (o_fee_basis_points offer) fee (oa_boss a)]"
| "offer_events key (UpdatePermissionlessFee a fee) offer =
     [OfferPermissionlessFeeUpdatedEvent key (o_fee_basis_points_permissionless offer) fee (oa_boss a)]"
| "offer_events key (SetDisabled signer disabled) offer = [OfferDisabledSetEvent key disabled signer]"

text \<open>The observer's view of an offer. Vectors are known by their start time; zero marks an empty slot.\<close>

record offer_picture =
  ov_token_in_mint :: pubkey
  ov_token_out_mint :: pubkey
  ov_vectors :: "u64 \<rightharpoonup> offer_vector"
  ov_fee :: u16
  ov_fee_permissionless :: u16
  ov_needs_approval :: bool
  ov_allow_permissionless :: bool
  ov_disabled :: bool

definition vectors_at :: "offer_vector list \<Rightarrow> u64 \<rightharpoonup> offer_vector" where
  "vectors_at vs t = (if t = 0 then None else List.find (\<lambda>v. v_start_time v = t) vs)"

definition offer_picture_of :: "offer \<Rightarrow> offer_picture" where
  "offer_picture_of offer = \<lparr>ov_token_in_mint = o_token_in_mint offer, ov_token_out_mint = o_token_out_mint offer,
     ov_vectors = vectors_at (o_vectors offer), ov_fee = o_fee_basis_points offer,
     ov_fee_permissionless = o_fee_basis_points_permissionless offer,
     ov_needs_approval = needs_approval offer, ov_allow_permissionless = allow_permissionless offer,
     ov_disabled = is_disabled offer\<rparr>"

fun observe_offer :: "offer_event \<Rightarrow> offer_picture \<Rightarrow> offer_picture" where
  "observe_offer (OfferVectorAddedEvent key s bt bp apr d) v =
     v\<lparr>ov_vectors := (ov_vectors v)(s := (if s = 0 then None else Some \<lparr>v_start_time = s, v_base_time = bt,
       v_base_price = bp, v_apr = apr, v_price_fix_duration = d\<rparr>))\<rparr>"
| "observe_offer (OfferVectorEvictedEvent i out s) v = v\<lparr>ov_vectors := (ov_vectors v)(s := None)\<rparr>"
| "observe_offer (OfferVectorDeletedEvent key s) v = v\<lparr>ov_vectors := (ov_vectors v)(s := None)\<rparr>"
| "observe_offer (AllOfferVectorsDeletedEvent key n) v = v\<lparr>ov_vectors := (\<lambda>_. None)\<rparr>"
| "observe_offer (OfferFeeUpdatedEvent key old new boss) v = v\<lparr>ov_fee := new\<rparr>"
| "observe_offer (OfferPermissionlessFeeUpdatedEvent key old new boss) v = v\<lparr>ov_fee_permissionless := new\<rparr>"
| "observe_offer (OfferDisabledSetEvent key b signer) v = v\<lparr>ov_disabled := b\<rparr>"
| "observe_offer (OfferMadeEvent key i out fee boss ap pl) v = v"

lemma vectors_at_cleared:
  "vectors_at (map (\<lambda>v. if P (v_start_time v) then default_vector else v) vs) t =
     (if P t then None else vectors_at vs t)"
  by (induction vs) (auto simp: vectors_at_def)

lemma find_append: "List.find p (us @ vs) = (case List.find p us of None \<Rightarrow> List.find p vs | Some v \<Rightarrow> Some v)"
  by (induction us) auto

lemma vectors_at_slot:
  "vectors_at (us @ v # vs) = (\<lambda>t. if t = 0 then None else case vectors_at us t of Some w \<Rightarrow> Some w
     | None \<Rightarrow> if v_start_time v = t then Some v else vectors_at vs t)"
  by (rule ext) (simp add: vectors_at_def find_append split: option.splits)

lemma vectors_at_None: "t \<notin> set (start_times vs) \<Longrightarrow> vectors_at vs t = None"
  by (induction vs) (auto simp: vectors_at_def split: if_splits)

lemma vectors_at_filled:
  assumes "v_start_time w \<notin> set (start_times (us @ v # vs))" and "v_start_time v = 0"
  shows "vectors_at (us @ w # vs) = (vectors_at (us @ v # vs))(v_start_time w :=
    (if v_start_time w = 0 then None else Some w))"
  using assms vectors_at_None [of "v_start_time w" us]
  by (auto simp: vectors_at_slot fun_eq_iff split: option.splits)

lemma vectors_at_emptied:
  assumes "distinct (start_times (us @ v # vs))" and "v_start_time v \<noteq> 0"
  shows "vectors_at (us @ default_vector # vs) = (vectors_at (us @ v # vs))(v_start_time v := None)"
  using assms vectors_at_None [of "v_start_time v" us] vectors_at_None [of "v_start_time v" vs]
  by (auto simp: vectors_at_slot fun_eq_iff split: option.splits)

lemma ov_vectors_of: "ov_vectors (offer_picture_of offer) = vectors_at (o_vectors offer)"
  by (simp add: offer_picture_of_def)

lemma fold_evictions:
  "fold observe_offer (map (\<lambda>v. OfferVectorEvictedEvent i out (v_start_time v)) vs) V =
     V\<lparr>ov_vectors := (\<lambda>t. if t \<in> v_start_time ` set vs then None else ov_vectors V t)\<rparr>"
  by (induction vs arbitrary: V) (auto simp: fun_eq_iff)

lemma evictions_seen:
  assumes "clean_old_vectors offer nv now = Ok offer'"
  shows "fold observe_offer (eviction_events offer nv now) (offer_picture_of offer) = offer_picture_of offer'"
proof (cases "if v_start_time nv = now then Ok nv else find_active_vector_at offer now")
  case (Err err)
  then show ?thesis using assms by (auto simp: clean_old_vectors_def eviction_events_def split: if_splits)
next
  case (Ok active)
  define P where "P t \<longleftrightarrow> t \<noteq> 0 \<and> t \<noteq> v_start_time active \<and>
      t \<noteq> (case find_active_vector_at offer (v_start_time active - 1) of Ok v \<Rightarrow> v_start_time v | Err _ \<Rightarrow> 0) \<and>
      t < v_start_time active" for t
  have offer': "offer' = offer\<lparr>o_vectors := map (\<lambda>v. if P (v_start_time v) then default_vector else v) (o_vectors offer)\<rparr>"
    using assms Ok by (auto simp: clean_old_vectors_def Let_def checked_sub_def P_def split: if_splits)
  have ev: "eviction_events offer nv now = map (\<lambda>v. OfferVectorEvictedEvent (o_token_in_mint offer)
      (o_token_out_mint offer) (v_start_time v)) (filter (\<lambda>v. P (v_start_time v)) (o_vectors offer))"
    using Ok by (simp add: eviction_events_def Let_def P_def)
  have "(\<lambda>t. if t \<in> v_start_time ` set (filter (\<lambda>v. P (v_start_time v)) (o_vectors offer)) then None
      else vectors_at (o_vectors offer) t) = vectors_at (o_vectors offer')"
    unfolding offer' by (rule ext) (auto simp: vectors_at_cleared set_start_times image_iff intro!: vectors_at_None)
  then show ?thesis
    unfolding ev fold_evictions ov_vectors_of
    by (simp add: offer_picture_of_def offer' needs_approval_def allow_permissionless_def is_disabled_def)
qed

lemma offer_view_vectors:
  "offer_picture_of (offer\<lparr>o_vectors := vs\<rparr>) = (offer_picture_of offer)\<lparr>ov_vectors := vectors_at vs\<rparr>"
  by (simp add: offer_picture_of_def needs_approval_def allow_permissionless_def is_disabled_def)

lemma add_vector_seen:
  assumes ok: "add_offer_vector st a now start_opt bt bp apr d offer = Ok offer'"
  shows "fold observe_offer (offer_events key (AddVector a now start_opt bt bp apr d) offer) (offer_picture_of offer) =
    offer_picture_of offer'"
proof -
  define t where "t = (case start_opt of Some t \<Rightarrow> t | None \<Rightarrow> max (i64_as_u64 now) bt)"
  define nv where "nv = \<lparr>v_start_time = t, v_base_time = bt, v_base_price = bp, v_apr = apr, v_price_fix_duration = d\<rparr>"
  obtain cleaned i where val: "validate_inputs t bt bp d (i64_as_u64 now) offer = Ok ()"
    and cl: "clean_old_vectors offer nv (i64_as_u64 now) = Ok cleaned"
    and i: "find_vector_index_by_start_time cleaned 0 = Some i"
    and offer': "offer' = cleaned\<lparr>o_vectors := (o_vectors cleaned)[i := nv]\<rparr>"
    using ok unfolding add_offer_vector_def Let_def t_def nv_def by auto
  obtain us v vs where split: "o_vectors cleaned = us @ v # vs" "i = length us" "v_start_time v = 0"
    using i by (rule vector_index_split)
  have "set (start_times (o_vectors cleaned)) \<subseteq> set (start_times (o_vectors offer))"
    using cl by (cases rule: clean_old_vectors_cases) (auto simp: set_start_times)
  moreover have "t \<notin> set (start_times (o_vectors offer))" using val unfolding validate_inputs_Ok by auto
  ultimately have "v_start_time nv \<notin> set (start_times (us @ v # vs))" by (auto simp: split nv_def)
  from vectors_at_filled [OF this split(3)]
  have "offer_picture_of offer' = observe_offer (OfferVectorAddedEvent key t bt bp apr d) (offer_picture_of cleaned)"
    by (simp add: offer' offer_view_vectors split list_update_append nv_def) (simp add: offer_picture_of_def split)
  then show ?thesis using evictions_seen [OF cl] by (simp add: Let_def t_def [symmetric] nv_def [symmetric])
qed

lemma delete_vector_seen:
  assumes "offer_wf offer" and ok: "delete_offer_vector st a now t offer = Ok offer'"
  shows "observe_offer (OfferVectorDeletedEvent key t) (offer_picture_of offer) = offer_picture_of offer'"
proof -
  obtain i where i: "find_vector_index_by_start_time offer t = Some i" "t \<noteq> 0"
    and offer': "offer' = offer\<lparr>o_vectors := (o_vectors offer)[i := default_vector]\<rparr>"
    using ok unfolding delete_offer_vector_def by auto
  obtain us v vs where split: "o_vectors offer = us @ v # vs" "i = length us" "v_start_time v = t"
    using i(1) by (rule vector_index_split)
  have "distinct (start_times (us @ v # vs))" using assms(1) split by (simp add: offer_wf_def)
  from vectors_at_emptied [OF this] i(2) split(3) show ?thesis
    by (simp add: offer' offer_view_vectors split list_update_append) (simp add: offer_picture_of_def split)
qed

lemma offer_step_seen:
  assumes "offer_wf offer" and ok: "exec_offer st c offer = Ok offer'"
  shows "fold observe_offer (offer_events key c offer) (offer_picture_of offer) = offer_picture_of offer'"
proof (cases c)
  case (AddVector a now start_opt bt bp apr d)
  then show ?thesis using ok add_vector_seen by simp
next
  case (DeleteVector a now t)
  then show ?thesis using ok delete_vector_seen [OF assms(1)] by simp
next
  case (DeleteAllVectors a)
  have "vectors_at (map (\<lambda>v. if v_start_time v \<noteq> 0 then default_vector else v) vs) = (\<lambda>_. None)" for vs
    using vectors_at_cleared [of "\<lambda>t. t \<noteq> 0" vs] by (auto simp: fun_eq_iff vectors_at_def)
  then show ?thesis using DeleteAllVectors ok
    by (auto simp: delete_all_offer_vectors_def offer_view_vectors)
qed (use ok in \<open>auto simp: offer_picture_of_def update_offer_fee_def update_offer_permissionless_fee_def
    set_offer_disabled_def set_disabled_def needs_approval_def allow_permissionless_def is_disabled_def
    split: if_splits\<close>)

text \<open>
  The observer of all offers. Events name the offer by its address, an eviction by the two mints;
  a made event opens the view of a new offer.
\<close>

fun concerns :: "offer_event \<Rightarrow> pubkey \<Rightarrow> offer_picture \<Rightarrow> bool" where
  "concerns (OfferVectorEvictedEvent i out s) k v \<longleftrightarrow> ov_token_in_mint v = i \<and> ov_token_out_mint v = out"
| "concerns (OfferVectorAddedEvent key s bt bp apr d) k v \<longleftrightarrow> key = k"
| "concerns (OfferVectorDeletedEvent key s) k v \<longleftrightarrow> key = k"
| "concerns (AllOfferVectorsDeletedEvent key n) k v \<longleftrightarrow> key = k"
| "concerns (OfferFeeUpdatedEvent key old new boss) k v \<longleftrightarrow> key = k"
| "concerns (OfferPermissionlessFeeUpdatedEvent key old new boss) k v \<longleftrightarrow> key = k"
| "concerns (OfferDisabledSetEvent key b signer) k v \<longleftrightarrow> key = k"
| "concerns (OfferMadeEvent key i out fee boss ap pl) k v \<longleftrightarrow> key = k"

fun observe_offers :: "offer_event \<Rightarrow> (pubkey \<rightharpoonup> offer_picture) \<Rightarrow> (pubkey \<rightharpoonup> offer_picture)" where
  "observe_offers (OfferMadeEvent key i out fee boss ap pl) V =
     V(key \<mapsto> \<lparr>ov_token_in_mint = i, ov_token_out_mint = out, ov_vectors = (\<lambda>_. None), ov_fee = fee,
       ov_fee_permissionless = 0, ov_needs_approval = ap, ov_allow_permissionless = pl, ov_disabled = False\<rparr>)"
| "observe_offers ev V = (\<lambda>k. map_option (\<lambda>v. if concerns ev k v then observe_offer ev v else v) (V k))"

text \<open>The events of a call, on the accounts it finds.\<close>

fun entry_offer_events :: "runtime \<Rightarrow> i64 \<times> entry \<Rightarrow> program \<Rightarrow> offer_event list" where
  "entry_offer_events rt (now, MakeOffer a bump fee ap pl) P =
     [OfferMadeEvent (pda (rt_env rt) (offer_seeds (oa_token_in_mint a) (oa_token_out_mint a)))
       (oa_token_in_mint a) (oa_token_out_mint a) fee (oa_boss a) ap pl]"
| "entry_offer_events rt (now, ChangeOffer key op) P =
     (case a_data (pg_offers P key) of AccountData offer \<Rightarrow> offer_events key (at_time now op) offer | _ \<Rightarrow> [])"
| "entry_offer_events rt (now, c) P = []"

definition stored_view :: "env \<Rightarrow> program \<Rightarrow> pubkey \<rightharpoonup> offer_picture" where
  "stored_view e P k =
     (if a_owner (pg_offers P k) = program_id e
      then case a_data (pg_offers P k) of AccountData offer \<Rightarrow> Some (offer_picture_of offer) | _ \<Rightarrow> None
      else None)"

text \<open>Every stored offer is well-formed and stands at the address that its mints give.\<close>

definition offers_placed :: "env \<Rightarrow> program \<Rightarrow> bool" where
  "offers_placed e P \<longleftrightarrow> offers_ok e P \<and> (\<forall>k offer. a_owner (pg_offers P k) = program_id e \<longrightarrow>
     a_data (pg_offers P k) = AccountData offer \<longrightarrow>
     k = pda e (offer_seeds (o_token_in_mint offer) (o_token_out_mint offer)))"

fun about_offer :: "pubkey \<Rightarrow> pubkey \<Rightarrow> pubkey \<Rightarrow> offer_event \<Rightarrow> bool" where
  "about_offer key i out (OfferVectorEvictedEvent i' out' s) \<longleftrightarrow> i' = i \<and> out' = out"
| "about_offer key i out (OfferMadeEvent key' i' out' fee boss ap pl) \<longleftrightarrow> False"
| "about_offer key i out ev \<longleftrightarrow> (\<forall>v. concerns ev key v) \<and> (\<forall>k v. concerns ev k v \<longrightarrow> k = key)"

lemma observe_keeps_mints [simp]:
  "ov_token_in_mint (observe_offer ev v) = ov_token_in_mint v"
  "ov_token_out_mint (observe_offer ev v) = ov_token_out_mint v"
  by (cases ev; simp)+

lemma about_concerns:
  assumes "about_offer key i out ev" and "k = key \<longleftrightarrow> ov_token_in_mint v = i \<and> ov_token_out_mint v = out"
  shows "concerns ev k v \<longleftrightarrow> k = key"
  using assms by (cases ev) auto

lemma fold_concerning:
  assumes "list_all (about_offer key i out) evs" and "V k = Some v"
    and "k = key \<longleftrightarrow> ov_token_in_mint v = i \<and> ov_token_out_mint v = out"
  shows "fold observe_offers evs V k = Some (if k = key then fold observe_offer evs v else v)"
  using assms
proof (induction evs arbitrary: V v)
  case (Cons ev evs)
  have ev: "about_offer key i out ev" using Cons.prems(1) by simp
  have "observe_offers ev V k = Some (if concerns ev k v then observe_offer ev v else v)"
    using ev Cons.prems(2) by (cases ev) auto
  then have "observe_offers ev V k = Some (if k = key then observe_offer ev v else v)"
    by (simp only: about_concerns [OF ev Cons.prems(3)])
  moreover have "k = key \<longleftrightarrow> ov_token_in_mint (if k = key then observe_offer ev v else v) = i \<and>
      ov_token_out_mint (if k = key then observe_offer ev v else v) = out"
    unfolding if_distrib observe_keeps_mints using Cons.prems(3) by simp
  moreover have "list_all (about_offer key i out) evs" using Cons.prems(1) by simp
  ultimately have "fold observe_offers evs (observe_offers ev V) k =
      Some (if k = key then fold observe_offer evs (if k = key then observe_offer ev v else v)
            else (if k = key then observe_offer ev v else v))"
    by (intro Cons.IH)
  then show ?case by (cases "k = key") (simp_all only: fold_simps if_True if_False simp_thms)
qed simp

lemma fold_absent:
  "list_all (about_offer key i out) evs \<Longrightarrow> V k = None \<Longrightarrow> fold observe_offers evs V k = None"
proof (induction evs arbitrary: V)
  case (Cons ev evs)
  then have "observe_offers ev V k = None" by (cases ev) auto
  then show ?case using Cons by simp
qed simp

lemma eviction_events_about:
  "list_all (about_offer key (o_token_in_mint offer) (o_token_out_mint offer)) (eviction_events offer nv now)"
  by (cases "if v_start_time nv = now then Ok nv else find_active_vector_at offer now")
    (simp_all add: eviction_events_def Let_def list_all_iff)

lemma offer_events_about:
  "list_all (about_offer key (o_token_in_mint offer) (o_token_out_mint offer)) (offer_events key c offer)"
  by (cases c) (auto simp: Let_def eviction_events_about)

lemma exec_offer_mints:
  "exec_offer st c offer = Ok offer' \<Longrightarrow>
     o_token_in_mint offer' = o_token_in_mint offer \<and> o_token_out_mint offer' = o_token_out_mint offer"
  by (cases c)
    (auto simp: add_offer_vector_def clean_old_vectors_def delete_offer_vector_def delete_all_offer_vectors_def
      update_offer_fee_def update_offer_permissionless_fee_def set_offer_disabled_def set_disabled_def Let_def
      split: result.splits if_splits)

lemma other_entries_keep_offers:
  assumes "exec_entry rt (now, c) P = Ok P'"
    and "\<And>a bump fee ap pl. c \<noteq> MakeOffer a bump fee ap pl" and "\<And>key op. c \<noteq> ChangeOffer key op"
  shows "pg_offers P' = pg_offers P" and "entry_offer_events rt (now, c) P = []"
  using assms
  by (cases c; auto simp: Let_def entry_initialize_def entry_close_state_def entry_permissionless_authority_def
      entry_transfer_mint_authority_def entry_initialize_buffer_def entry_make_redemption_offer_def
      entry_refresh_market_stats_def entry_set_excluded_accounts_def entry_update_excluded_balance_def
      entry_existing_def simp del: exec_protocol.simps)+

lemma make_offer_view:
  assumes "make_offer st a bump fee ap pl existing = Ok offer"
  shows "offer_picture_of offer = \<lparr>ov_token_in_mint = oa_token_in_mint a, ov_token_out_mint = oa_token_out_mint a,
    ov_vectors = (\<lambda>_. None), ov_fee = fee, ov_fee_permissionless = 0, ov_needs_approval = ap,
    ov_allow_permissionless = pl, ov_disabled = False\<rparr>"
proof -
  have "vectors_at (replicate n default_vector) = (\<lambda>_. None)" for n
    by (rule ext) (rule vectors_at_None, simp add: set_start_times)
  then show ?thesis using assms
    by (auto simp: make_offer_def offer_picture_of_def zero_offer_def set_disabled_def set_permissionless_def
        set_approval_def needs_approval_def allow_permissionless_def is_disabled_def split: if_splits)
qed

lemma make_offer_step:
  assumes "offers_placed (rt_env rt) P" and "entry_make_offer (runtime_at rt now) a bump fee ap pl P = Ok P'"
  shows "offers_placed (rt_env rt) P'"
    and "stored_view (rt_env rt) P' = fold observe_offers (entry_offer_events rt (now, MakeOffer a bump fee ap pl) P)
      (stored_view (rt_env rt) P)"
proof -
  let ?key = "pda (rt_env rt) (offer_seeds (oa_token_in_mint a) (oa_token_out_mint a))"
  have pda: "pda (runtime_at rt now) seeds = pda (rt_env rt) seeds" for seeds
    by (simp add: runtime_at_def)
  have pid: "program_id (runtime_at rt now) = program_id (rt_env rt)"
    by (simp add: runtime_at_def)
  obtain offer existing where m: "make_offer (pw_state (pg_core P)) a bump fee ap pl existing = Ok offer"
    and P': "P' = P\<lparr>pg_offers := (pg_offers P)(?key := (pg_offers P ?key)\<lparr>a_key := ?key,
      a_owner := program_id (rt_env rt), a_data := AccountData offer\<rparr>)\<rparr>"
    using assms(2) unfolding entry_make_offer_def Let_def and_then_eq_Ok pda pid by blast
  have mints: "o_token_in_mint offer = oa_token_in_mint a" "o_token_out_mint offer = oa_token_out_mint a"
    using arg_cong [OF make_offer_view [OF m], of ov_token_in_mint]
      arg_cong [OF make_offer_view [OF m], of ov_token_out_mint] by (simp_all add: offer_picture_of_def)
  show "offers_placed (rt_env rt) P'"
    using assms(1) make_offer_wf [OF m] mints by (auto simp: P' offers_placed_def offers_ok_def)
  show "stored_view (rt_env rt) P' = fold observe_offers (entry_offer_events rt (now, MakeOffer a bump fee ap pl) P)
      (stored_view (rt_env rt) P)"
    by (rule ext) (simp add: P' stored_view_def make_offer_view [OF m])
qed

lemma change_offer_step:
  assumes placed: "offers_placed (rt_env rt) P" and "entry_change_offer (runtime_at rt now) key op P = Ok P'"
  shows "offers_placed (rt_env rt) P'"
    and "stored_view (rt_env rt) P' = fold observe_offers (entry_offer_events rt (now, ChangeOffer key op) P)
      (stored_view (rt_env rt) P)"
proof -
  obtain offer offer' where o: "a_owner (pg_offers P key) = program_id (rt_env rt)"
      "a_data (pg_offers P key) = AccountData offer"
    and x: "exec_offer (pw_state (pg_core P)) (at_time now op) offer = Ok offer'"
    and P': "P' = P\<lparr>pg_offers := (pg_offers P)(key := (pg_offers P key)\<lparr>a_data := AccountData offer'\<rparr>)\<rparr>"
    using assms(2) unfolding entry_change_offer_def Let_def by (auto simp: runtime_at_def)
  have wf: "offer_wf offer" and key: "key = pda (rt_env rt) (offer_seeds (o_token_in_mint offer) (o_token_out_mint offer))"
    using placed o by (auto simp: offers_placed_def offers_ok_def)
  show "offers_placed (rt_env rt) P'"
    using placed exec_offer_wf [OF wf x] exec_offer_mints [OF x] key
    by (auto simp: P' offers_placed_def offers_ok_def)
  define evs where "evs = offer_events key (at_time now op) offer"
  have about: "list_all (about_offer key (o_token_in_mint offer) (o_token_out_mint offer)) evs"
    unfolding evs_def by (rule offer_events_about)
  have "stored_view (rt_env rt) P' k = fold observe_offers evs (stored_view (rt_env rt) P) k" for k
  proof (cases "stored_view (rt_env rt) P k")
    case None
    then have "k \<noteq> key" using o by (auto simp: stored_view_def)
    then have "stored_view (rt_env rt) P' k = stored_view (rt_env rt) P k" by (simp add: P' stored_view_def)
    then show ?thesis using None fold_absent [OF about, of "stored_view (rt_env rt) P"] by simp
  next
    case (Some v)
    then obtain w where w: "a_owner (pg_offers P k) = program_id (rt_env rt)" "a_data (pg_offers P k) = AccountData w"
      "v = offer_picture_of w" by (auto simp: stored_view_def split: if_splits account_data.splits)
    then have k: "k = pda (rt_env rt) (offer_seeds (o_token_in_mint w) (o_token_out_mint w))"
      using placed by (auto simp: offers_placed_def)
    have "k = key \<Longrightarrow> w = offer" using o(2) w(2) by simp
    moreover have "o_token_in_mint w = o_token_in_mint offer \<Longrightarrow> o_token_out_mint w = o_token_out_mint offer \<Longrightarrow> k = key"
      using k key by metis
    ultimately have "k = key \<longleftrightarrow> ov_token_in_mint v = o_token_in_mint offer \<and> ov_token_out_mint v = o_token_out_mint offer"
      unfolding w(3) offer_picture_of_def by auto
    from fold_concerning [OF about, of "stored_view (rt_env rt) P", OF Some this]
    have f: "fold observe_offers evs (stored_view (rt_env rt) P) k =
        Some (if k = key then offer_picture_of offer' else v)"
      using \<open>k = key \<Longrightarrow> w = offer\<close> w(3) offer_step_seen [OF wf x, of key] by (auto simp: evs_def)
    show ?thesis unfolding f using o(1) w by (simp add: P' stored_view_def)
  qed
  then show "stored_view (rt_env rt) P' = fold observe_offers (entry_offer_events rt (now, ChangeOffer key op) P)
      (stored_view (rt_env rt) P)"
    using o by (simp add: evs_def fun_eq_iff)
qed

lemma entry_offers_step:
  assumes placed: "offers_placed (rt_env rt) P" and ok: "exec_entry rt (now, c) P = Ok P'"
  shows "offers_placed (rt_env rt) P' \<and>
    stored_view (rt_env rt) P' = fold observe_offers (entry_offer_events rt (now, c) P) (stored_view (rt_env rt) P)"
proof (cases "(\<exists>a bump fee ap pl. c = MakeOffer a bump fee ap pl) \<or> (\<exists>key op. c = ChangeOffer key op)")
  case True
  then show ?thesis
    using ok make_offer_step [OF placed] change_offer_step [OF placed]
    by (auto simp: Let_def simp del: entry_offer_events.simps)
next
  case False
  note o = other_entries_keep_offers [OF ok]
  have "pg_offers P' = pg_offers P" and "entry_offer_events rt (now, c) P = []" using o False by auto
  then show ?thesis using placed by (simp add: offers_placed_def offers_ok_def stored_view_def fun_eq_iff)
qed

interpretation offer_log: observed_machine "exec_entry rt" "offers_placed (rt_env rt)" "\<lambda>_. True"
    "entry_offer_events rt" observe_offers "\<lambda>V P. V = stored_view (rt_env rt) P" for rt
  by unfold_locales (use entry_offers_step in \<open>auto simp del: exec_entry.simps entry_offer_events.simps\<close>)

text \<open>
  C18: The event log determines every offer. From deployment on, whatever entry points are called in
  whatever order, failing calls included, an observer who starts with nothing and reads only the
  events of the offer instructions knows all stored offers exactly: their mints, every pricing
  vector by its start time, both fees, and the approval, permissionless and disabled flags,
  evictions of old vectors included.
\<close>

theorem offer_log_determines_every_offer:
  assumes "new_deployment (rt_env rt) P"
  shows "fold observe_offers (event_log (exec_entry rt) (entry_offer_events rt) cs P) (\<lambda>_. None) =
    stored_view (rt_env rt) (run_ops (exec_entry rt) cs P)"
proof (rule offer_log.run_seen)
  show "offers_placed (rt_env rt) P" "(\<lambda>_. None) = stored_view (rt_env rt) P"
    using assms by (auto simp: new_deployment_def offers_placed_def offers_ok_def stored_view_def fun_eq_iff)
qed (simp add: list_all_iff)

theorem offer_log_determines_every_offer_witness:
  "fold observe_offers (event_log (exec_entry sample_runtime) (entry_offer_events sample_runtime) sample_calls
     sample_deployment) (\<lambda>_. None) 199 = Some (offer_picture_of one_vector_offer)"
proof -
  have rt: "rt_env sample_runtime = sample_env" by (simp add: sample_runtime_def)
  have "new_deployment (rt_env sample_runtime) sample_deployment" unfolding rt by (rule sample_deployment_new)
  from offer_log_determines_every_offer [OF this, of sample_calls] show ?thesis
    by (simp add: sample_run stored_view_def sample_live_def rt)
qed

section \<open>Redemptions\<close>

datatype redemption_event =
    RedemptionOfferCreatedEvent pubkey pubkey pubkey pubkey u16 u16 u16
  | RedemptionRequestCreatedEvent pubkey pubkey pubkey u64 u64
  | RedemptionRequestFulfilledEvent pubkey pubkey pubkey u64 u64 u64 u64 u64 u64 bool
  | RedemptionRequestCancelledEvent pubkey pubkey pubkey u64 u64 pubkey
  | RedemptionOfferFeeUpdatedEvent pubkey u16 u16 pubkey
  | RedemptionOfferPropAmmSellFeeUpdatedEvent pubkey u16 u16 pubkey
  | RedemptionOfferVaultTargetUpdatedEvent pubkey u16 u16 pubkey
  | RedemptionOfferDisabledSetEvent pubkey bool pubkey

definition request_address :: "env \<Rightarrow> pubkey \<Rightarrow> u64 \<Rightarrow> pubkey" where
  "request_address e redemption_offer request_id =
     pda e [Seed ''redemption_request'', KeySeed redemption_offer, U64Seed request_id]"

definition redemption_offer_created_event :: "env \<Rightarrow> mint \<Rightarrow> mint \<Rightarrow> u16 \<Rightarrow> u16 \<Rightarrow> redemption_event" where
  "redemption_offer_created_event e token_in_mint token_out_mint fee_basis_points fee_basis_points_prop_amm_sell =
     RedemptionOfferCreatedEvent (pda e (redemption_offer_seeds (m_key token_in_mint) (m_key token_out_mint)))
       (pda e (offer_seeds (m_key token_out_mint) (m_key token_in_mint))) (m_key token_in_mint) (m_key token_out_mint)
       fee_basis_points fee_basis_points_prop_amm_sell 0"

definition fulfilled_event ::
  "env \<Rightarrow> pubkey \<Rightarrow> redemption_request \<Rightarrow> redemption_process_result \<Rightarrow> u64 \<Rightarrow> redemption_event" where
  "fulfilled_event e key request rp amount =
     (let new_fulfilled_amount = rr_fulfilled_amount request + amount in
      RedemptionRequestFulfilledEvent (request_address e key (rr_request_id request)) key (rr_redeemer request)
        (rp_token_in_net_amount rp) (rp_token_in_fee_amount rp) (rp_token_out_amount rp) (rp_price rp) amount
        new_fulfilled_amount (new_fulfilled_amount = rr_amount request))"

fun redemption_events :: "redemption_op \<Rightarrow> redemption_world \<Rightarrow> redemption_event list" where
  "redemption_events (CreateRequest e st oa redeemer m prog amount) w =
     (let request_id = ro_request_counter (rw_redemption_offer w) in
      [RedemptionRequestCreatedEvent (request_address e (rw_key w) request_id) (rw_key w) redeemer amount request_id])"
| "redemption_events (CancelRequest e st signer redeemer worker m prog t i) w =
     (case rw_requests w i of None \<Rightarrow> []
      | Some r \<Rightarrow> [RedemptionRequestCancelledEvent (request_address e (rw_key w) i) (rw_key w) redeemer (rr_amount r)
          (rr_amount r - rr_fulfilled_amount r) signer])"
| "redemption_events (FulfillRequest e st a i amount) w =
     (case check_fulfill_accounts e st a i w of Err _ \<Rightarrow> []
      | Ok (offer, request, ft, ro) \<Rightarrow>
          (case process_redemption_core e offer amount (f_token_in_mint a) (f_token_out_mint a)
              (ro_fee_basis_points ro) 0 of Err _ \<Rightarrow> []
           | Ok rp \<Rightarrow> [fulfilled_event e (rw_key w) request rp amount]))"
| "redemption_events (UpdateRedemptionFee st boss fee) w =
     [RedemptionOfferFeeUpdatedEvent (rw_key w) (ro_fee_basis_points (rw_redemption_offer w)) fee boss]"
| "redemption_events (UpdateSellFee st boss fee) w =
     [RedemptionOfferPropAmmSellFeeUpdatedEvent (rw_key w)
       (ro_fee_basis_points_prop_amm_sell (rw_redemption_offer w)) fee boss]"
| "redemption_events (UpdateVaultTarget st boss target) w =
     [RedemptionOfferVaultTargetUpdatedEvent (rw_key w) (ro_vault_target_bps (rw_redemption_offer w)) target boss]"
| "redemption_events (SetRedemptionDisabled st signer disabled) w =
     [RedemptionOfferDisabledSetEvent (rw_key w) disabled signer]"

text \<open>The observer knows the open requests by their address: redeemer, amount and the part fulfilled.\<close>

record queue_view =
  qv_requests :: "pubkey \<rightharpoonup> pubkey \<times> u64 \<times> u64"
  qv_fee :: u16
  qv_sell_fee :: u16
  qv_vault_target :: u16
  qv_disabled :: bool

fun observe_redemption :: "redemption_event \<Rightarrow> queue_view \<Rightarrow> queue_view" where
  "observe_redemption (RedemptionOfferCreatedEvent key offer i out fee sell_fee target) v =
     \<lparr>qv_requests = (\<lambda>_. None), qv_fee = fee, qv_sell_fee = sell_fee, qv_vault_target = target, qv_disabled = False\<rparr>"
| "observe_redemption (RedemptionRequestCreatedEvent request key redeemer amount request_id) v =
     v\<lparr>qv_requests := (qv_requests v)(request \<mapsto> (redeemer, amount, 0))\<rparr>"
| "observe_redemption (RedemptionRequestFulfilledEvent request key redeemer net fee out price fulfilled new_total full) v =
     v\<lparr>qv_requests := (qv_requests v)(request := (if full then None
       else map_option (\<lambda>(redeemer, amount, _). (redeemer, amount, new_total)) (qv_requests v request)))\<rparr>"
| "observe_redemption (RedemptionRequestCancelledEvent request key redeemer original returned signer) v =
     v\<lparr>qv_requests := (qv_requests v)(request := None)\<rparr>"
| "observe_redemption (RedemptionOfferFeeUpdatedEvent key old new boss) v = v\<lparr>qv_fee := new\<rparr>"
| "observe_redemption (RedemptionOfferPropAmmSellFeeUpdatedEvent key old new boss) v = v\<lparr>qv_sell_fee := new\<rparr>"
| "observe_redemption (RedemptionOfferVaultTargetUpdatedEvent key old new boss) v = v\<lparr>qv_vault_target := new\<rparr>"
| "observe_redemption (RedemptionOfferDisabledSetEvent key disabled signer) v = v\<lparr>qv_disabled := disabled\<rparr>"

definition request_details :: "redemption_request \<Rightarrow> pubkey \<times> u64 \<times> u64" where
  "request_details r = (rr_redeemer r, rr_amount r, rr_fulfilled_amount r)"

definition sees_queue :: "(u64 \<Rightarrow> pubkey) \<Rightarrow> queue_view \<Rightarrow> redemption_world \<Rightarrow> bool" where
  "sees_queue address v w \<longleftrightarrow>
     (\<forall>i. qv_requests v (address i) = map_option request_details (rw_requests w i)) \<and>
     qv_fee v = ro_fee_basis_points (rw_redemption_offer w) \<and>
     qv_sell_fee v = ro_fee_basis_points_prop_amm_sell (rw_redemption_offer w) \<and>
     qv_vault_target v = ro_vault_target_bps (rw_redemption_offer w) \<and>
     qv_disabled v = ro_is_disabled (rw_redemption_offer w)"

text \<open>All calls derive the addresses of the requests alike, and no two requests share one.\<close>

fun derives :: "pubkey \<Rightarrow> (u64 \<Rightarrow> pubkey) \<Rightarrow> redemption_op \<Rightarrow> bool" where
  "derives key address (CreateRequest e st oa redeemer m prog amount) \<longleftrightarrow> request_address e key = address"
| "derives key address (CancelRequest e st signer redeemer worker m prog t i) \<longleftrightarrow> request_address e key = address"
| "derives key address (FulfillRequest e st a i amount) \<longleftrightarrow> request_address e key = address"
| "derives key address _ \<longleftrightarrow> True"

lemma fulfil_seen:
  assumes ok: "fulfill_redemption_request e spl st a i amount w = Ok w'" and "inj address"
    and "request_address e (rw_key w) = address" and sees: "sees_queue address v w"
  shows "sees_queue address (fold observe_redemption (redemption_events (FulfillRequest e st a i amount) w) v) w'"
proof -
  obtain offer r ft ro where chk: "check_fulfill_accounts e st a i w = Ok (offer, r, ft, ro)"
    using ok unfolding fulfill_redemption_request_def by auto
  obtain r' rp where x: "rw_requests w i = Some r'" "rr_request_id r' = i"
      "rw_redemption_offer w' = (rw_redemption_offer w)\<lparr>
         ro_executed_redemptions := ro_executed_redemptions (rw_redemption_offer w) + amount,
         ro_requested_redemptions := ro_requested_redemptions (rw_redemption_offer w) - amount\<rparr>"
      "rw_requests w' = (rw_requests w)(i := (if rr_fulfilled_amount r' + amount = rr_amount r' then None
         else Some (r'\<lparr>rr_fulfilled_amount := rr_fulfilled_amount r' + amount\<rparr>)))"
    using fulfill_redemption_request_Ok [OF ok] by metis
  have r: "r = r'" using check_fulfill_accounts_Ok(1) [OF chk] x(1) by simp
  obtain rp where rp: "process_redemption_core e offer amount (f_token_in_mint a) (f_token_out_mint a)
      (ro_fee_basis_points ro) 0 = Ok rp"
    using ok chk unfolding fulfill_redemption_request_def execute_fulfill_redemption_request_def by auto
  have ev: "redemption_events (FulfillRequest e st a i amount) w = [fulfilled_event e (rw_key w) r rp amount]"
    by (simp add: chk rp)
  show ?thesis
    using sees x assms(2,3) unfolding ev
    by (auto simp: fulfilled_event_def Let_def r sees_queue_def request_details_def ro_is_disabled_def inj_eq)
qed

lemma queue_step_seen:
  assumes "derives (rw_key w) address c" and "inj address" and ok: "exec_redemption spl c w = Ok w'"
    and sees: "sees_queue address v w"
  shows "sees_queue address (fold observe_redemption (redemption_events c w) v) w'"
proof (cases c)
  case (CreateRequest e st oa redeemer m prog amount)
  then have "create_redemption_request e spl st oa redeemer m prog amount w = Ok w'" using ok by simp
  then show ?thesis
    by (rule create_redemption_request_Ok)
      (use CreateRequest assms in \<open>auto simp: Let_def sees_queue_def request_details_def ro_is_disabled_def inj_eq\<close>)
next
  case (CancelRequest e st signer redeemer worker m prog t i)
  then have "cancel_redemption_request e spl st signer redeemer worker m prog t i w = Ok w'" using ok by simp
  then show ?thesis
    by (rule cancel_redemption_request_Ok)
      (use CancelRequest assms in \<open>auto simp: sees_queue_def ro_is_disabled_def inj_eq\<close>)
next
  case (FulfillRequest e st a i amount)
  then show ?thesis using ok assms fulfil_seen by simp
qed (use ok sees in \<open>auto simp: configure_def sees_queue_def update_redemption_offer_fee_def
    update_redemption_offer_prop_amm_sell_fee_def update_redemption_offer_vault_target_def
    set_redemption_offer_disabled_def ro_set_disabled_def ro_is_disabled_def split: if_splits\<close>)

lemma exec_redemption_key: "exec_redemption spl c w = Ok w' \<Longrightarrow> rw_key w' = rw_key w"
  by (cases c)
    (auto simp: create_redemption_request_def cancel_redemption_request_def fulfill_redemption_request_def
      execute_fulfill_redemption_request_def settle_redemption_def record_fulfillment_def configure_def Let_def
      split del: if_split)

interpretation queue_log: observed_machine "exec_redemption spl"
    "\<lambda>w. redemption_wf w \<and> rw_key w = key \<and> inj address" "derives key address"
    redemption_events observe_redemption "sees_queue address" for spl key address
  by unfold_locales (auto intro: exec_redemption_wf queue_step_seen simp: exec_redemption_key
      simp del: exec_redemption.simps)

text \<open>The view of a new redemption offer is what its created event says.\<close>

lemma new_queue_seen:
  assumes "make_redemption_offer e st boss m_in prog m_out fee sell_fee existing = Ok ro"
    and "rw_redemption_offer w = ro" and "rw_requests w = (\<lambda>_. None)"
  shows "sees_queue address (observe_redemption (redemption_offer_created_event e m_in m_out fee sell_fee) v) w"
proof -
  have "ro_fee_basis_points ro = fee" "ro_fee_basis_points_prop_amm_sell ro = sell_fee" "ro_vault_target_bps ro = 0"
    "ro_disabled ro = 0"
    using assms(1) by (auto simp: make_redemption_offer_def)
  then show ?thesis using assms(2,3) by (simp add: redemption_offer_created_event_def sees_queue_def ro_is_disabled_def)
qed

definition left_of :: "(pubkey \<times> u64 \<times> u64) option \<Rightarrow> nat" where
  "left_of d = (case d of None \<Rightarrow> 0 | Some (_, amount, fulfilled) \<Rightarrow> amount - fulfilled)"

text \<open>
  C22: The event log determines the redemption queue. An observer who has seen a redemption offer
  once and then reads nothing but its events knows, after every sequence of redemption
  instructions, failing ones included, every open request with its redeemer, amount and fulfilled
  part, the fees, the vault target and the disabled flag; and the stored total of requested
  redemptions is the sum of what is left of the requests in that view. The addresses of requests
  are assumed to be derived without collisions.
\<close>

theorem redemption_log_determines_the_queue:
  fixes w :: redemption_world and spl :: spl_token
  assumes "redemption_wf w" and "inj address" and "list_all (derives (rw_key w) address) cs"
    and "sees_queue address v w"
  defines "v' \<equiv> fold observe_redemption (event_log (exec_redemption spl) redemption_events cs w) v"
    and "w' \<equiv> run_ops (exec_redemption spl) cs w"
  shows "sees_queue address v' w' \<and> ro_requested_redemptions (rw_redemption_offer w') =
    (\<Sum>i < ro_request_counter (rw_redemption_offer w'). left_of (qv_requests v' (address i)))"
proof -
  have inv: "redemption_wf w \<and> rw_key w = rw_key w \<and> inj address" using assms by simp
  have sees: "sees_queue address v' w'" unfolding v'_def w'_def using assms(3) inv assms(4) by (rule queue_log.run_seen)
  have "left_of (qv_requests v' (address i)) = remaining (rw_requests w' i)" for i
    using sees by (cases "rw_requests w' i") (auto simp: sees_queue_def left_of_def request_details_def)
  then show ?thesis
    using sees queue.run_inv [OF assms(1), of spl cs] by (simp add: w'_def redemption_wf_def Let_def)
qed

definition queue_env :: env where
  "queue_env = sample_env\<lparr>find_program_address := (\<lambda>seeds.
     case seeds of [Seed s, KeySeed k, U64Seed i] \<Rightarrow> (5000 + i, 255) | _ \<Rightarrow> sample_pda seeds)\<rparr>"

definition sample_queue_view :: queue_view where
  "sample_queue_view = \<lparr>qv_requests = (\<lambda>k. if k = 5000 then Some (6, 1000, 400) else None), qv_fee = 100,
     qv_sell_fee = 50, qv_vault_target = 0, qv_disabled = False\<rparr>"

theorem redemption_log_determines_the_queue_witness:
  "qv_fee (fold observe_redemption (event_log (exec_redemption plain_token_program) redemption_events
       [UpdateRedemptionFee sample_config 7 500,
        CancelRequest queue_env sample_config 6 6 8 sample_onyc 9 (sample_token 1082) 0] sample_redemption_world)
       sample_queue_view) =
   ro_fee_basis_points (rw_redemption_offer (run_ops (exec_redemption plain_token_program)
       [UpdateRedemptionFee sample_config 7 500,
        CancelRequest queue_env sample_config 6 6 8 sample_onyc 9 (sample_token 1082) 0] sample_redemption_world))"
proof -
  let ?cs = "[UpdateRedemptionFee sample_config 7 500,
    CancelRequest queue_env sample_config 6 6 8 sample_onyc 9 (sample_token 1082) 0]"
  have addr: "request_address queue_env k = (\<lambda>i. 5000 + i)" for k
    by (simp add: request_address_def queue_env_def fun_eq_iff)
  have wf: "redemption_wf sample_redemption_world"
    by (auto simp: redemption_wf_def sample_redemption_world_def sample_redemption_offer_def
        sample_request_def const_defs)
  have inj: "inj (\<lambda>i. 5000 + i :: nat)" by (simp add: inj_def)
  have der: "list_all (derives (rw_key sample_redemption_world) (\<lambda>i. 5000 + i)) ?cs" by (simp add: addr)
  have "sees_queue (\<lambda>i. 5000 + i) sample_queue_view sample_redemption_world"
    by (auto simp: sees_queue_def sample_queue_view_def sample_redemption_world_def sample_redemption_offer_def
        sample_request_def request_details_def ro_is_disabled_def)
  from redemption_log_determines_the_queue [OF wf inj der this, where spl = plain_token_program] show ?thesis
    unfolding sees_queue_def by blast
qed

end
