(* ===== verification/Buffer_Events.thy ===== *)
theory Buffer_Events
  imports Event_Log
begin

text \<open>
  The events of the BUFFER (\<open>buffer/events.rs\<close>). Every accrual reports its result. The observer of
  the log alone, and that each instruction that accrues is seen by it: \<open>Program_Events\<close> adds the
  movements of the reserve vault and draws the conclusion for whole runs.
\<close>

section \<open>The BUFFER\<close>

record buffer_accrued =
  ae_token_in_mint :: pubkey
  ae_onyc_mint :: pubkey
  ae_seconds_elapsed :: u64
  ae_apr_delta :: u64
  ae_buffer_mint_amount :: u64
  ae_reserve_mint_amount :: u64
  ae_management_fee_mint_amount :: u64
  ae_performance_fee_mint_amount :: u64
  ae_old_previous_supply :: u64
  ae_new_previous_supply :: u64
  ae_old_previous_performance_fee_high_watermark :: u64
  ae_new_performance_fee_high_watermark :: u64
  ae_current_nav :: u64
  ae_post_accrual_supply :: u64
  ae_timestamp :: i64

datatype buffer_event =
    BufferInitializedEvent pubkey pubkey pubkey i64
  | BufferGrossYieldUpdatedEvent u64
  | BufferFeeConfigUpdatedEvent u16 u16 u16 u16 bool bool
  | BufferAccruedEvent buffer_accrued
  | BufferBurnedForNavEvent u64 u64 u64 u64

definition emit_buffer_accrued_event :: "offer \<Rightarrow> mint \<Rightarrow> buffer_accrual_result \<Rightarrow> buffer_event" where
  "emit_buffer_accrued_event offer onyc_mint r = BufferAccruedEvent \<lparr>
     ae_token_in_mint = o_token_in_mint offer,
     ae_onyc_mint = m_key onyc_mint,
     ae_seconds_elapsed = ar_seconds_elapsed r,
     ae_apr_delta = ar_apr_delta r,
     ae_buffer_mint_amount = ar_buffer_mint_amount r,
     ae_reserve_mint_amount = ar_reserve_mint_amount r,
     ae_management_fee_mint_amount = ar_management_fee_mint_amount r,
     ae_performance_fee_mint_amount = ar_performance_fee_mint_amount r,
     ae_old_previous_supply = ar_old_previous_supply r,
     ae_new_previous_supply = ar_new_previous_supply r,
     ae_old_previous_performance_fee_high_watermark = ar_old_previous_performance_fee_high_watermark r,
     ae_new_performance_fee_high_watermark = ar_new_performance_fee_high_watermark r,
     ae_current_nav = ar_current_nav r,
     ae_post_accrual_supply = ar_post_accrual_supply r,
     ae_timestamp = ar_timestamp r\<rparr>"

text \<open>A handler that fails emits nothing: its transaction is rolled back.\<close>

definition events_of :: "'ev list result \<Rightarrow> 'ev list" where
  "events_of r = (case r of Ok evs \<Rightarrow> evs | Err _ \<Rightarrow> [])"

lemma events_of_Ok [simp]: "events_of (Ok evs) = evs"
  by (simp add: events_of_def)

definition accrual_events ::
  "env \<Rightarrow> spl_token \<Rightarrow> state \<Rightarrow> offer \<Rightarrow> mint \<Rightarrow> pubkey \<Rightarrow> buffer_world \<Rightarrow> buffer_event list result" where
  "accrual_events e spl st offer onyc_mint token_program w =
     and_then (accrue_buffer_from_accounts e spl st (w_buffer_accounts w) offer onyc_mint
         (pda e [Seed ''mint_authority'']) token_program (w_ledger w)) (\<lambda>(result, _, _).
     Ok [emit_buffer_accrued_event offer onyc_mint result])"

definition burn_events ::
  "env \<Rightarrow> spl_token \<Rightarrow> state \<Rightarrow> pubkey \<Rightarrow> mint \<Rightarrow> pubkey \<Rightarrow> offer account \<Rightarrow> configurable_vault \<Rightarrow>
     configurable_vault \<Rightarrow> circulating_supply_excluded_balance account \<Rightarrow> u64 \<Rightarrow> buffer_world \<Rightarrow>
     buffer_event list result" where
  "burn_events e spl st boss onyc_mint token_program main_offer management_fee_vault
     performance_fee_vault eb asset_adjustment_amount w =
     (let ba = w_buffer_accounts w; now = unix_timestamp e in
      and_then (check_burn_accounts e st boss onyc_mint token_program main_offer
          management_fee_vault performance_fee_vault ba) (\<lambda>(b, offer).
      and_then (compute_offer_current_price offer (i64_as_u64 now)) (\<lambda>quoted_nav.
      and_then (accrue_buffer spl st offer onyc_mint (ba_reserve_vault_onyc_account ba)
          (ba_management_fee_vault_onyc_account ba) (ba_performance_fee_vault_onyc_account ba)
          (pda e [Seed ''mint_authority'']) token_program now b (w_ledger w)) (\<lambda>(accrual, _, _).
      and_then (load_circulating_supply_excluded_balance_amount e eb) (\<lambda>excluded_amount.
      and_then (calculate_circulating_supply (ar_post_accrual_supply accrual) excluded_amount)
        (\<lambda>circulating_supply.
      and_then (map_err (calculate_tvl circulating_supply (ar_current_nav accrual)) MathOverflow)
        (\<lambda>total_assets_before_burn.
      and_then (calculate_burn_amount circulating_supply asset_adjustment_amount
          (ar_current_nav accrual) quoted_nav) (\<lambda>burn_amount.
      Ok [emit_buffer_accrued_event offer onyc_mint accrual,
          BufferBurnedForNavEvent burn_amount asset_adjustment_amount total_assets_before_burn quoted_nav]))))))))"

fun buffer_events :: "spl_token \<Rightarrow> mint \<Rightarrow> buffer_op \<Rightarrow> buffer_world \<Rightarrow> buffer_event list" where
  "buffer_events spl m (Settle e st worker prog mo eb) w =
     events_of (and_then (load_main_offer e mo st) (\<lambda>offer.
       accrual_events e spl st offer (reload (w_ledger w) m) prog w))"
| "buffer_events spl m (SetGrossApr e st boss prog mo eb gross_yield) w =
     events_of (and_then (check_buffer_config_accounts e st boss (reload (w_ledger w) m) mo) (\<lambda>offer.
       and_then (accrual_events e spl st offer (reload (w_ledger w) m) prog w) (\<lambda>evs.
       Ok (evs @ [BufferGrossYieldUpdatedEvent gross_yield]))))"
| "buffer_events spl m (SetFeeConfig e st boss prog mo eb mf pf en) w =
     events_of (and_then (check_buffer_config_accounts e st boss (reload (w_ledger w) m) mo) (\<lambda>offer.
       and_then (load_buffer_state e (w_buffer_accounts w)) (\<lambda>b.
       and_then (accrual_events e spl st offer (reload (w_ledger w) m) prog w) (\<lambda>evs.
       Ok (evs @ [BufferFeeConfigUpdatedEvent (b_management_fee_basis_points b) mf
         (b_performance_fee_basis_points b) pf (b_performance_fee_high_watermark_enabled b) en])))))"
| "buffer_events spl m (BurnForNav e st boss prog mo mv pv eb adj) w =
     events_of (burn_events e spl st boss (reload (w_ledger w) m) prog mo mv pv eb adj w)"

text \<open>
  The observer of the BUFFER: its configuration and baseline, the ONyc supply and the balance of the
  reserve vault.
\<close>

record buffer_picture =
  bp_pool :: buffer_state
  bp_supply :: u64
  bp_reserve :: u64

fun observe_buffer :: "buffer_event \<Rightarrow> buffer_picture \<Rightarrow> buffer_picture" where
  "observe_buffer (BufferInitializedEvent k m mo t) v = v"
| "observe_buffer (BufferGrossYieldUpdatedEvent gross_yield) v = v\<lparr>bp_pool := (bp_pool v)\<lparr>b_gross_apr := gross_yield\<rparr>\<rparr>"
| "observe_buffer (BufferFeeConfigUpdatedEvent old_m new_m old_p new_p old_w new_w) v =
     v\<lparr>bp_pool := (bp_pool v)\<lparr>b_management_fee_basis_points := new_m, b_performance_fee_basis_points := new_p,
       b_performance_fee_high_watermark_enabled := new_w\<rparr>\<rparr>"
| "observe_buffer (BufferAccruedEvent a) v =
     \<lparr>bp_pool = (bp_pool v)\<lparr>b_previous_supply := ae_new_previous_supply a,
        b_performance_fee_high_watermark := ae_new_performance_fee_high_watermark a,
        b_last_accrual_timestamp := ae_timestamp a\<rparr>,
      bp_supply = ae_post_accrual_supply a, bp_reserve = bp_reserve v + ae_reserve_mint_amount a\<rparr>"
| "observe_buffer (BufferBurnedForNavEvent n adj assets nav) v =
     \<lparr>bp_pool = (bp_pool v)\<lparr>b_previous_supply := b_previous_supply (bp_pool v) - n\<rparr>,
      bp_supply = bp_supply v - n, bp_reserve = bp_reserve v - n\<rparr>"

definition buffer_picture_of :: "mint \<Rightarrow> buffer_state \<Rightarrow> buffer_world \<Rightarrow> buffer_picture" where
  "buffer_picture_of m b w = \<lparr>bp_pool = b, bp_supply = l_supply (w_ledger w) (m_key m),
     bp_reserve = l_bal (w_ledger w) (t_key (ba_reserve_vault_onyc_account (w_buffer_accounts w)))\<rparr>"

definition sees_buffer :: "mint \<Rightarrow> buffer_picture \<Rightarrow> buffer_world \<Rightarrow> bool" where
  "sees_buffer m v w \<longleftrightarrow> (\<exists>b. pool w = AccountData b \<and> v = buffer_picture_of m b w)"

definition reserve_separate :: "buffer_accrual_accounts \<Rightarrow> bool" where
  "reserve_separate ba \<longleftrightarrow> t_key (ba_reserve_vault_onyc_account ba) \<noteq> t_key (ba_management_fee_vault_onyc_account ba) \<and>
     t_key (ba_reserve_vault_onyc_account ba) \<noteq> t_key (ba_performance_fee_vault_onyc_account ba)"

lemma accrue_buffer_reported:
  assumes "accrue_buffer spl st offer m rv mv pv auth prog now b L = Ok (r, b', L')"
  shows "ar_new_previous_supply r = b_previous_supply b'" and "ar_timestamp r = now"
  using assms unfolding accrue_buffer_def Let_def
  by (cases "b_previous_supply b = 0"; auto)+

lemma accrual_seen:
  assumes laws: "spl_laws spl" and sep: "reserve_separate ba"
    and acc: "accrue_buffer spl st offer (reload L m) (ba_reserve_vault_onyc_account ba)
        (ba_management_fee_vault_onyc_account ba) (ba_performance_fee_vault_onyc_account ba) auth prog now b L =
        Ok (r, b', L')"
    and w: "w_buffer_accounts w = ba" "w_ledger w = L"
    and w': "ba_reserve_vault_onyc_account (w_buffer_accounts w') = ba_reserve_vault_onyc_account ba" "w_ledger w' = L'"
  shows "observe_buffer (emit_buffer_accrued_event offer (reload L m) r) (buffer_picture_of m b w) =
    buffer_picture_of m b' w'"
proof -
  have fresh: "m_supply (reload L m) = l_supply L (m_key (reload L m))" by simp
  note eff = accrue_buffer_effect [OF laws fresh acc, unfolded accrual_effect_def]
  have "int (l_bal L' (t_key (ba_reserve_vault_onyc_account ba))) =
      int (l_bal L (t_key (ba_reserve_vault_onyc_account ba)) + ar_reserve_mint_amount r)"
    using eff sep by (simp add: reserve_separate_def part_def)
  then have bal: "l_bal L' (t_key (ba_reserve_vault_onyc_account ba)) =
      l_bal L (t_key (ba_reserve_vault_onyc_account ba)) + ar_reserve_mint_amount r"
    by (simp only: of_nat_eq_iff)
  show ?thesis
    using eff by (simp add: emit_buffer_accrued_event_def buffer_picture_of_def w w' bal accrue_buffer_reported [OF acc])
qed

lemma refresh_seen:
  assumes laws: "spl_laws spl" and sep: "reserve_separate (w_buffer_accounts w)" and b: "pool w = AccountData b"
    and ok: "accrue_and_refresh e spl st offer (reload (w_ledger w) m) (pda e [Seed ''mint_authority'']) prog eb w = Ok w1"
  obtains b1 ev where "accrual_events e spl st offer (reload (w_ledger w) m) prog w = Ok [ev]" "pool w1 = AccountData b1"
    "observe_buffer ev (buffer_picture_of m b w) = buffer_picture_of m b1 w1"
    "w_buffer_accounts w1 = (w_buffer_accounts w)\<lparr>ba_buffer_state := ba_buffer_state (w_buffer_accounts w1)\<rparr>"
proof -
  let ?m = "reload (w_ledger w) m"
  from ok obtain r ba1 L1 ms where
    f: "accrue_buffer_from_accounts e spl st (w_buffer_accounts w) offer ?m (pda e [Seed ''mint_authority'']) prog
        (w_ledger w) = Ok (r, ba1, L1)"
    and w1: "w1 = \<lparr>w_ledger = L1, w_buffer_accounts = ba1, w_market_stats = ms\<rparr>"
    unfolding accrue_and_refresh_def by auto
  from f b obtain b1 where
    acc: "accrue_buffer spl st offer ?m (ba_reserve_vault_onyc_account (w_buffer_accounts w))
        (ba_management_fee_vault_onyc_account (w_buffer_accounts w))
        (ba_performance_fee_vault_onyc_account (w_buffer_accounts w)) (pda e [Seed ''mint_authority'']) prog
        (unix_timestamp e) b (w_ledger w) = Ok (r, b1, L1)"
    and s: "store_buffer_state (w_buffer_accounts w) b1 = Ok ba1"
    unfolding accrue_buffer_from_accounts_def by (auto simp: load_buffer_state_Ok pool_def)
  show ?thesis
    by (rule that [of "emit_buffer_accrued_event offer ?m r" b1])
      (use f s w1 in \<open>simp_all add: accrual_events_def pool_def store_buffer_state_Ok
         accrual_seen [OF laws sep acc]\<close>)
qed

lemma stored_picture:
  assumes "load_buffer_state e (w_buffer_accounts w1) = Ok b1"
    and "store_buffer_state (w_buffer_accounts w1) b2 = Ok ba" and "w' = w1\<lparr>w_buffer_accounts := ba\<rparr>"
  shows "pool w1 = AccountData b1" and "pool w' = AccountData b2"
    and "buffer_picture_of m b2 w' = (buffer_picture_of m b1 w1)\<lparr>bp_pool := b2\<rparr>"
    and "w_buffer_accounts w' = (w_buffer_accounts w1)\<lparr>ba_buffer_state := ba_buffer_state (w_buffer_accounts w')\<rparr>"
  using assms by (simp_all add: load_buffer_state_Ok store_buffer_state_Ok pool_def buffer_picture_of_def)

text \<open>One instruction: the next picture and the accounts of the pool, which keep their addresses.\<close>

definition buffer_step_seen :: "spl_token \<Rightarrow> mint \<Rightarrow> buffer_op \<Rightarrow> buffer_world \<Rightarrow> buffer_world \<Rightarrow> bool" where
  "buffer_step_seen spl m c w w' \<longleftrightarrow>
     (\<forall>v. sees_buffer m v w \<longrightarrow> sees_buffer m (fold observe_buffer (buffer_events spl m c w) v) w') \<and>
     w_buffer_accounts w' = (w_buffer_accounts w)\<lparr>ba_buffer_state := ba_buffer_state (w_buffer_accounts w')\<rparr>"

lemma buffer_step_seenI:
  assumes "pool w = AccountData b" and "pool w' = AccountData b'"
    and "fold observe_buffer (buffer_events spl m c w) (buffer_picture_of m b w) = buffer_picture_of m b' w'"
    and "w_buffer_accounts w' = (w_buffer_accounts w)\<lparr>ba_buffer_state := ba_buffer_state (w_buffer_accounts w')\<rparr>"
  shows "buffer_step_seen spl m c w w'"
  using assms by (auto simp: buffer_step_seen_def sees_buffer_def)

lemma gross_apr_seen:
  assumes laws: "spl_laws spl" and sep: "reserve_separate (w_buffer_accounts w)"
    and ok: "set_buffer_gross_apr e spl st boss (reload (w_ledger w) m) prog mo eb apr w = Ok w'"
  shows "buffer_step_seen spl m (SetGrossApr e st boss prog mo eb apr) w w'"
proof -
  let ?m = "reload (w_ledger w) m"
  from ok obtain b b1 w1 ba and offer :: offer where
    chk: "check_buffer_config_accounts e st boss ?m mo = Ok offer" and ld: "load_buffer_state e (w_buffer_accounts w) = Ok b"
    and acc: "accrue_and_refresh e spl st offer ?m (pda e [Seed ''mint_authority'']) prog eb w = Ok w1"
    and ld1: "load_buffer_state e (w_buffer_accounts w1) = Ok b1"
    and str: "store_buffer_state (w_buffer_accounts w1) (b1\<lparr>b_gross_apr := apr\<rparr>) = Ok ba"
    and w': "w' = w1\<lparr>w_buffer_accounts := ba\<rparr>"
    unfolding set_buffer_gross_apr_def by clarsimp
  have b: "pool w = AccountData b" using ld by (simp add: load_buffer_state_Ok pool_def)
  note st = stored_picture [OF ld1 str w']
  from refresh_seen [OF laws sep b acc] obtain ev where
    "accrual_events e spl st offer ?m prog w = Ok [ev]"
    "observe_buffer ev (buffer_picture_of m b w) = buffer_picture_of m b1 w1"
    and ba: "w_buffer_accounts w1 = (w_buffer_accounts w)\<lparr>ba_buffer_state := ba_buffer_state (w_buffer_accounts w1)\<rparr>"
    using st(1) by (metis account_data.inject)
  then have "fold observe_buffer (buffer_events spl m (SetGrossApr e st boss prog mo eb apr) w)
      (buffer_picture_of m b w) = buffer_picture_of m (b1\<lparr>b_gross_apr := apr\<rparr>) w'"
    using chk by (simp add: st(3)) (simp add: buffer_picture_of_def)
  then show ?thesis by (rule buffer_step_seenI [OF b st(2)]) (subst st(4), subst ba, simp)
qed

lemma fee_config_seen:
  assumes laws: "spl_laws spl" and sep: "reserve_separate (w_buffer_accounts w)"
    and ok: "set_buffer_fee_config e spl st boss (reload (w_ledger w) m) prog mo eb mf pf en w = Ok w'"
  shows "buffer_step_seen spl m (SetFeeConfig e st boss prog mo eb mf pf en) w w'"
proof -
  let ?m = "reload (w_ledger w) m"
  let ?new = "\<lambda>b. b\<lparr>b_management_fee_basis_points := mf, b_performance_fee_basis_points := pf,
    b_performance_fee_high_watermark_enabled := en\<rparr>"
  from ok obtain b b1 w1 ba and offer :: offer where
    chk: "check_buffer_config_accounts e st boss ?m mo = Ok offer" and ld: "load_buffer_state e (w_buffer_accounts w) = Ok b"
    and acc: "accrue_and_refresh e spl st offer ?m (pda e [Seed ''mint_authority'']) prog eb w = Ok w1"
    and ld1: "load_buffer_state e (w_buffer_accounts w1) = Ok b1"
    and str: "store_buffer_state (w_buffer_accounts w1) (?new b1) = Ok ba"
    and w': "w' = w1\<lparr>w_buffer_accounts := ba\<rparr>"
    unfolding set_buffer_fee_config_def by clarsimp
  have b: "pool w = AccountData b" using ld by (simp add: load_buffer_state_Ok pool_def)
  note st = stored_picture [OF ld1 str w']
  from refresh_seen [OF laws sep b acc] obtain ev where
    "accrual_events e spl st offer ?m prog w = Ok [ev]"
    "observe_buffer ev (buffer_picture_of m b w) = buffer_picture_of m b1 w1"
    and ba: "w_buffer_accounts w1 = (w_buffer_accounts w)\<lparr>ba_buffer_state := ba_buffer_state (w_buffer_accounts w1)\<rparr>"
    using st(1) by (metis account_data.inject)
  then have "fold observe_buffer (buffer_events spl m (SetFeeConfig e st boss prog mo eb mf pf en) w)
      (buffer_picture_of m b w) = buffer_picture_of m (?new b1) w'"
    using chk ld by (simp add: st(3)) (simp add: buffer_picture_of_def)
  then show ?thesis by (rule buffer_step_seenI [OF b st(2)]) (subst st(4), subst ba, simp)
qed

lemma settle_seen:
  assumes laws: "spl_laws spl" and sep: "reserve_separate (w_buffer_accounts w)"
    and ok: "settle_buffer e spl st worker (reload (w_ledger w) m) prog mo eb w = Ok w'"
  shows "buffer_step_seen spl m (Settle e st worker prog mo eb) w w'"
proof -
  from ok obtain offer where offer: "load_main_offer e mo st = Ok offer"
    and acc: "accrue_and_refresh e spl st offer (reload (w_ledger w) m) (pda e [Seed ''mint_authority'']) prog eb w = Ok w'"
    unfolding settle_buffer_def by clarsimp
  then obtain b where b: "pool w = AccountData b"
    unfolding accrue_and_refresh_def accrue_buffer_from_accounts_def by (auto simp: load_buffer_state_Ok pool_def)
  from refresh_seen [OF laws sep b acc] obtain b1 ev where
    "accrual_events e spl st offer (reload (w_ledger w) m) prog w = Ok [ev]" "pool w' = AccountData b1"
    "observe_buffer ev (buffer_picture_of m b w) = buffer_picture_of m b1 w'"
    "w_buffer_accounts w' = (w_buffer_accounts w)\<lparr>ba_buffer_state := ba_buffer_state (w_buffer_accounts w')\<rparr>" .
  then show ?thesis by (intro buffer_step_seenI [OF b]) (simp_all add: offer)
qed

lemma burn_seen:
  assumes laws: "spl_laws spl" and sep: "reserve_separate (w_buffer_accounts w)"
    and ok: "burn_for_nav_increase e spl st boss (reload (w_ledger w) m) prog mo mv pv eb adj w = Ok w'"
  shows "buffer_step_seen spl m (BurnForNav e st boss prog mo mv pv eb adj) w w'"
proof -
  let ?rv = "ba_reserve_vault_onyc_account (w_buffer_accounts w)" and ?m = "reload (w_ledger w) m"
  from ok obtain b r b1 L L' nav excluded circ assets n ba' ms and offer :: offer where
    chk: "check_burn_accounts e st boss ?m prog mo mv pv (w_buffer_accounts w) = Ok (b, offer)"
    and price: "compute_offer_current_price offer (i64_as_u64 (unix_timestamp e)) = Ok nav"
    and acc: "accrue_buffer spl st offer ?m ?rv (ba_management_fee_vault_onyc_account (w_buffer_accounts w))
         (ba_performance_fee_vault_onyc_account (w_buffer_accounts w)) (pda e [Seed ''mint_authority''])
         prog (unix_timestamp e) b (w_ledger w) = Ok (r, b1, L)"
    and amounts: "load_circulating_supply_excluded_balance_amount e eb = Ok excluded"
      "calculate_circulating_supply (ar_post_accrual_supply r) excluded = Ok circ"
      "map_err (calculate_tvl circ (ar_current_nav r)) MathOverflow = Ok assets"
      "calculate_burn_amount circ adj (ar_current_nav r) nav = Ok n"
    and tok: "burn_tokens spl ?m (t_key ?rv) (pda e [Seed ''reserve_vault_authority'']) n L = Ok L'"
    and s: "store_buffer_state (w_buffer_accounts w) (set_buffer_baseline_after_supply_change
         (ar_post_accrual_supply r - n) (unix_timestamp e) b1) = Ok ba'"
    and w': "w' = \<lparr>w_ledger = L', w_buffer_accounts = ba', w_market_stats = ms\<rparr>"
    unfolding burn_for_nav_increase_def Let_def by clarsimp
  have b: "pool w = AccountData b" using check_burn_accounts_Ok [OF chk] by (simp add: pool_def)
  have fresh: "m_supply ?m = l_supply (w_ledger w) (m_key ?m)" by simp
  note eff = accrue_buffer_effect [OF laws fresh acc, unfolded accrual_effect_def]
  let ?w1 = "w\<lparr>w_ledger := L\<rparr>" and ?ev = "emit_buffer_accrued_event offer ?m r"
  let ?b2 = "set_buffer_baseline_after_supply_change (ar_post_accrual_supply r - n) (unix_timestamp e) b1"
  have "observe_buffer ?ev (buffer_picture_of m b w) = buffer_picture_of m b1 ?w1"
    by (rule accrual_seen [OF laws sep acc]) simp_all
  moreover have "observe_buffer (BufferBurnedForNavEvent n adj assets nav) (buffer_picture_of m b1 ?w1) =
      buffer_picture_of m ?b2 w'"
    using eff burn_tokens_Ok [OF laws tok] s
    by (simp add: buffer_picture_of_def w' store_buffer_state_Ok set_buffer_baseline_after_supply_change_def debit_def)
  ultimately have "fold observe_buffer (buffer_events spl m (BurnForNav e st boss prog mo mv pv eb adj) w)
      (buffer_picture_of m b w) = buffer_picture_of m ?b2 w'"
    using chk price acc amounts by (simp add: burn_events_def)
  then show ?thesis
    by (rule buffer_step_seenI [OF b, rotated]) (use s w' in \<open>simp_all add: store_buffer_state_Ok pool_def\<close>)
qed

lemma buffer_op_seen:
  assumes "spl_laws spl" and "reserve_separate (w_buffer_accounts w)" and "exec_buffer spl m c w = Ok w'"
  shows "buffer_step_seen spl m c w w'"
proof (cases c)
  case Settle
  then show ?thesis using settle_seen assms by simp
next
  case SetGrossApr
  then show ?thesis using gross_apr_seen assms by simp
next
  case SetFeeConfig
  then show ?thesis using fee_config_seen assms by simp
next
  case BurnForNav
  then show ?thesis using burn_seen assms by simp
qed

lemma buffer_step_separate:
  "buffer_step_seen spl m c w w' \<Longrightarrow> reserve_separate (w_buffer_accounts w) \<Longrightarrow> reserve_separate (w_buffer_accounts w')"
  unfolding buffer_step_seen_def reserve_separate_def
  by (metis buffer_accrual_accounts.select_convs(2,3,4) buffer_accrual_accounts.surjective
      buffer_accrual_accounts.update_convs(1))

end
