(* ===== verification/Program_Events.thy ===== *)
theory Program_Events
  imports Buffer_Events
begin

text \<open>
  The events of the remaining instructions (exchanges, Prop AMM configuration, vaults, mint
  authority, market data and its queries) and the log of the whole program: what each entry point
  emits when it succeeds. The theorems say which calls leave no trace in the log and that the log of
  the BUFFER and its reserve determines the pool; \<open>Event_Amounts\<close> adds that the amounts in the log are
  the amounts that moved.
\<close>

section \<open>Event types\<close>

record offer_taken =
  ot_offer_pda :: pubkey
  ot_token_in_amount :: u64
  ot_token_out_amount :: u64
  ot_fee_amount :: u64
  ot_user :: pubkey

datatype exchange_event =
    OfferTakenEvent offer_taken
  | OfferTakenPermissionlessEvent offer_taken

record prop_amm_configured =
  pe_offer :: pubkey
  pe_asset_mint :: pubkey
  pe_onyc_mint :: pubkey
  pe_old :: pair_config
  pe_new :: pair_config

datatype vault_event =
    OfferVaultDepositEvent pubkey u64 pubkey
  | OfferVaultWithdrawEvent pubkey u64 pubkey
  | RedemptionVaultDepositEvent pubkey u64 pubkey
  | RedemptionVaultWithdrawEvent pubkey u64 pubkey
  | ReserveVaultDepositedEvent u64 pubkey pubkey
  | ReserveVaultWithdrawnEvent u64 pubkey pubkey
  | ConfigurableVaultDestinationUpdatedEvent u8 pubkey pubkey
  | ConfigurableVaultWithdrawnEvent u8 pubkey pubkey u64

datatype mint_event =
    OnycTokensMintedEvent pubkey pubkey u64
  | MintAuthorityTransferredToProgramEvent pubkey pubkey pubkey
  | MintAuthorityTransferredToBossEvent pubkey pubkey pubkey

datatype market_event =
    MarketStatsRefreshedEvent pubkey pubkey i64 u64
  | CirculatingSupplyExcludedAccountsSetEvent "pubkey list" pubkey
  | CirculatingSupplyExcludedBalanceUpdatedEvent u64 pubkey i64 u64

datatype program_event =
    Governance gov_event
  | StateClosedEvent pubkey pubkey
  | Offers offer_event
  | Redemptions redemption_event
  | Pool buffer_event
  | Exchange exchange_event
  | PropAmmConfiguredEvent prop_amm_configured
  | Vault vault_event
  | Minting mint_event
  | Market market_event

section \<open>Exchanges\<close>

text \<open>An exchange that accrues emits the event of the accrual before its own.\<close>

definition accrued :: "offer option \<Rightarrow> mint \<Rightarrow> buffer_accrual_result option \<Rightarrow> program_event list" where
  "accrued main_offer onyc_mint accrual =
     (case (main_offer, accrual) of
        (Some offer, Some result) \<Rightarrow> [Pool (emit_buffer_accrued_event offer onyc_mint result)]
      | _ \<Rightarrow> [])"

definition taken :: "pubkey \<Rightarrow> u64 \<Rightarrow> u64 \<Rightarrow> u64 \<Rightarrow> pubkey \<Rightarrow> offer_taken" where
  "taken offer_pda net out fee user = \<lparr>ot_offer_pda = offer_pda, ot_token_in_amount = net,
     ot_token_out_amount = out, ot_fee_amount = fee, ot_user = user\<rparr>"

definition taken_at :: "'a take_accounts_scheme \<Rightarrow> offer_process_result \<Rightarrow> offer_taken" where
  "taken_at a r = taken (a_key (k_offer a)) (op_token_in_net_amount r) (op_token_out_amount r)
     (op_token_in_fee_amount r) (k_user a)"

definition take_offer_events ::
  "env \<Rightarrow> state \<Rightarrow> take_offer_accounts \<Rightarrow> u64 \<Rightarrow> program_event list result" where
  "take_offer_events e st a token_in_amount =
     and_then (check_take_offer_accounts e st (Some (k_boss a)) a) (\<lambda>offer.
     and_then (process_offer_core e offer token_in_amount (k_token_in_mint a) (k_token_out_mint a)
         (o_fee_basis_points offer)) (\<lambda>r.
     Ok [Exchange (OfferTakenEvent (taken_at a r))]))"

definition take_offer_v2_events ::
  "env \<Rightarrow> spl_token \<Rightarrow> sysvar \<Rightarrow> state \<Rightarrow> take_offer_v2_accounts \<Rightarrow> u64 \<Rightarrow> approval_message option \<Rightarrow>
     offer_world \<Rightarrow> program_event list result" where
  "take_offer_v2_events e spl sv st a token_in_amount approval w =
     and_then (prepare_take_offer_v2 e sv st a token_in_amount approval (ow_buffer_accounts w))
       (\<lambda>(r, should_accrue, main_offer, _).
     and_then (accrue_before_mint e spl st a should_accrue main_offer (ow_buffer_accounts w) (ow_ledger w))
       (\<lambda>(accrual, _, _).
     Ok (accrued main_offer (k_token_out_mint a) accrual @ [Exchange (OfferTakenEvent (taken_at a r))])))"

definition permissionless_events ::
  "env \<Rightarrow> spl_token \<Rightarrow> state \<Rightarrow> 'a permissionless_accounts_scheme \<Rightarrow> offer \<Rightarrow> u64 \<Rightarrow> u16 option \<Rightarrow>
     buffer_accrual_accounts option \<Rightarrow> permissionless_refresh option \<Rightarrow> ledger \<Rightarrow> program_event list result" where
  "permissionless_events e spl st a offer token_in_amount fee_override buffer_accounts refresh L =
     and_then (prepare_permissionless e st a offer token_in_amount fee_override buffer_accounts refresh)
       (\<lambda>(r, should_accrue, main_offer).
     and_then (case buffer_accounts of
         None \<Rightarrow> Ok None
       | Some ba \<Rightarrow> and_then (accrue_before_mint e spl st a should_accrue main_offer ba L)
           (\<lambda>(accrual, _, _). Ok accrual)) (\<lambda>accrual.
     Ok (accrued main_offer (k_token_out_mint a) accrual @
       [Exchange (OfferTakenPermissionlessEvent (taken_at a r))])))"

definition take_offer_permissionless_events ::
  "env \<Rightarrow> spl_token \<Rightarrow> state \<Rightarrow> take_offer_permissionless_accounts \<Rightarrow> u64 \<Rightarrow> ledger \<Rightarrow>
     program_event list result" where
  "take_offer_permissionless_events e spl st a token_in_amount L =
     and_then (check_permissionless_accounts e st (Some (kp_boss a)) a) (\<lambda>offer.
     permissionless_events e spl st a offer token_in_amount None None None L)"

definition take_offer_permissionless_v2_events ::
  "env \<Rightarrow> spl_token \<Rightarrow> state \<Rightarrow> take_offer_permissionless_v2_accounts \<Rightarrow> u64 \<Rightarrow> offer_world \<Rightarrow>
     program_event list result" where
  "take_offer_permissionless_v2_events e spl st a token_in_amount w =
     and_then (check_permissionless_accounts e st None a) (\<lambda>offer.
     permissionless_events e spl st a offer token_in_amount (Some (permissionless_fee_basis_points offer))
       (Some (ow_buffer_accounts w))
       (Some \<lparr>pr_market_stats = ow_market_stats w, pr_excluded_balance = kp2_excluded_balance a,
          pr_main_offer = kp2_main_offer a\<rparr>) (ow_ledger w))"

text \<open>A buy on the Prop AMM emits no event of its own.\<close>

definition open_swap_buy_events ::
  "env \<Rightarrow> spl_token \<Rightarrow> state \<Rightarrow> open_swap_buy_accounts \<Rightarrow> swap_world \<Rightarrow> program_event list result" where
  "open_swap_buy_events e spl st a w =
     and_then (accrue_before_buy e spl st a (sw_buffer_accounts w) (sw_ledger w))
       (\<lambda>(main_offer, accrual, _, _).
     Ok (accrued main_offer (k_token_out_mint a) accrual))"

text \<open>The output that a sell reports is the one the curve has dampened.\<close>

definition open_swap_sell_events ::
  "env \<Rightarrow> spl_token \<Rightarrow> state \<Rightarrow> open_swap_sell_accounts \<Rightarrow> u64 \<Rightarrow> u64 \<Rightarrow> swap_world \<Rightarrow>
     program_event list result" where
  "open_swap_sell_events e spl st a token_in_amount minimum_out w =
     and_then (check_open_swap_sell_accounts e st a w) (\<lambda>(offer, ps).
     and_then (refresh_before_sell e st a offer w) (\<lambda>(main_offer, _, _, liquidity).
     and_then (accrue_before_sell e spl st a main_offer (sw_buffer_accounts w) (sw_ledger w))
       (\<lambda>(accrual, _, L).
     and_then (price_swap_sell e offer (if accrual \<noteq> None then reload L (ys_token_in_mint a)
           else ys_token_in_mint a) (ys_token_out_mint a) liquidity ps token_in_amount minimum_out)
       (\<lambda>(r, token_out_amount).
     Ok (accrued (Some main_offer) (ys_token_in_mint a) accrual @
       [Exchange (OfferTakenEvent (taken (a_key (ys_offer a)) (rp_token_in_net_amount r) token_out_amount
          (rp_token_in_fee_amount r) (ys_user a)))])))))"

section \<open>Prop AMM configuration\<close>

definition pair_config_of :: "prop_amm_pair_state \<Rightarrow> pair_config" where
  "pair_config_of ps = \<lparr>pc_enabled = ps_enabled ps, pc_curve_peg_haircut_bps = ps_curve_peg_haircut_bps ps,
     pc_curve_exponent_scaled = ps_curve_exponent_scaled ps, pc_cadence_threshold = ps_cadence_threshold ps,
     pc_cadence_wave_scaled = ps_cadence_wave_scaled ps,
     pc_epoch_duration_seconds = ps_epoch_duration_seconds ps,
     pc_wall_sensitivity_scaled = ps_wall_sensitivity_scaled ps,
     pc_minimum_sell_haircut_onyc = ps_minimum_sell_haircut_onyc ps\<rparr>"

definition configure_prop_amm_events ::
  "env \<Rightarrow> state \<Rightarrow> configure_accounts \<Rightarrow> pair_config \<Rightarrow> prop_amm_pair_state account \<Rightarrow>
     program_event list result" where
  "configure_prop_amm_events e st a c account =
     and_then (init_pair_if_needed e account) (\<lambda>ps.
     Ok [PropAmmConfiguredEvent \<lparr>pe_offer = a_key (ca_offer a), pe_asset_mint = ca_asset_mint a,
       pe_onyc_mint = s_onyc_mint st, pe_old = pair_config_of ps, pe_new = c\<rparr>])"

section \<open>Redemptions, mints and vaults\<close>

text \<open>A fulfilment reports the accrual of its settlement before its own event.\<close>

definition fulfil_accrual_events ::
  "env \<Rightarrow> spl_token \<Rightarrow> state \<Rightarrow> fulfill_accounts \<Rightarrow> redemption_world \<Rightarrow> program_event list result" where
  "fulfil_accrual_events e spl st a w =
     (let mint_authority = pda e [Seed ''mint_authority''] in
      and_then (check_is_initialized e (rw_buffer_accounts w)) (\<lambda>buffer_is_initialized.
      if m_key (f_token_in_mint a) = s_onyc_mint st \<and>
          program_controls_mint (f_token_in_mint a) mint_authority \<and> buffer_is_initialized
      then
        and_then (load_main_offer e (f_main_offer a) st) (\<lambda>canonical_offer.
        and_then (accrue_buffer_from_accounts e spl st (rw_buffer_accounts w) canonical_offer
            (f_token_in_mint a) mint_authority (f_token_in_program a) (rw_ledger w)) (\<lambda>(accrual, _, _).
        Ok (accrued (Some canonical_offer) (f_token_in_mint a) (Some accrual))))
      else Ok []))"

definition mint_to_events ::
  "env \<Rightarrow> spl_token \<Rightarrow> state \<Rightarrow> mint_to_accounts \<Rightarrow> u64 \<Rightarrow> buffer_world \<Rightarrow> program_event list result" where
  "mint_to_events e spl st a amount w =
     (let mint_authority = pda e [Seed ''mint_authority'']; m = mt_onyc_mint a in
      and_then (load_main_offer e (mt_main_offer a) st) (\<lambda>offer.
      and_then (check_is_initialized e (w_buffer_accounts w)) (\<lambda>buffer_is_initialized.
      and_then (if should_accrue_onyc_mint st m buffer_is_initialized mint_authority
          then and_then (accrue_buffer_from_accounts e spl st (w_buffer_accounts w) offer m
              mint_authority (mt_token_program a) (w_ledger w)) (\<lambda>(accrual, _, _). Ok (Some accrual))
          else Ok None) (\<lambda>accrual.
      Ok (accrued (Some offer) m accrual @ [Minting (OnycTokensMintedEvent (m_key m) (mt_boss a) amount)])))))"

definition set_destination_events ::
  "env \<Rightarrow> configurable_vault_kind \<Rightarrow> pubkey \<Rightarrow> configurable_vault account \<Rightarrow> program_event list result" where
  "set_destination_events e kind withdrawal_destination account =
     and_then (if a_owner account = system_program_id e
         then and_then (create_account e (a_key account)) (\<lambda>_. Ok zero_vault)
         else load_pda_account account (program_id e) AnchorConstraint AnchorConstraint) (\<lambda>vault.
     Ok [Vault (ConfigurableVaultDestinationUpdatedEvent (as_u8 kind) (cv_withdrawal_destination vault)
       withdrawal_destination)])"

definition withdraw_configurable_vault_events ::
  "env \<Rightarrow> withdraw_vault_accounts \<Rightarrow> configurable_vault_kind \<Rightarrow> u64 \<Rightarrow> ledger \<Rightarrow> program_event list result" where
  "withdraw_configurable_vault_events e a kind amount L =
     and_then (load_pda_account (wv_vault a) (program_id e) AnchorConstraint AnchorConstraint) (\<lambda>vault.
     and_then (get_associated_token_account e (wv_vault_token_account a) (a_key (wv_vault a))
         (m_key (wv_mint a)) (wv_token_program a) AnchorConstraint) (\<lambda>vault_token.
     Ok [Vault (ConfigurableVaultWithdrawnEvent (as_u8 kind) (m_key (wv_mint a))
       (cv_withdrawal_destination vault) (if amount = 0 then l_bal L vault_token else amount))]))"

section \<open>The log of the program\<close>

text \<open>
  What a successful instruction emits. It runs at \<open>now\<close> and loads the mints as \<open>exec_protocol\<close> does.
\<close>

fun protocol_events :: "spl_token \<Rightarrow> env \<Rightarrow> i64 \<times> instruction \<Rightarrow> protocol \<Rightarrow> program_event list" where
  "protocol_events spl env (now, ix) p =
     (let e = env\<lparr>unix_timestamp := now\<rparr>; st = pw_state p; L = pw_ledger p;
          pool = (\<lambda>m c. map Pool (buffer_events spl m c (buffer_view p)));
          queue = (\<lambda>c. map Redemptions (redemption_events c (redemption_view p)))
      in
      case ix of
        Govern c \<Rightarrow> map Governance (gov_events c st)
      | SettleBuffer worker m prog mo eb \<Rightarrow> pool m (Settle e st worker prog mo eb)
      | SetBufferGrossApr boss m prog mo eb apr \<Rightarrow> pool m (SetGrossApr e st boss prog mo eb apr)
      | SetBufferFeeConfig boss m prog mo eb mf pf en \<Rightarrow> pool m (SetFeeConfig e st boss prog mo eb mf pf en)
      | BurnForNavIncrease boss m prog mo mv pv eb adj \<Rightarrow> pool m (BurnForNav e st boss prog mo mv pv eb adj)
      | MintTo a amount \<Rightarrow>
          events_of (mint_to_events e spl st (a\<lparr>mt_onyc_mint := reload L (mt_onyc_mint a)\<rparr>) amount (buffer_view p))
      | TakeOffer sv a amount approval \<Rightarrow>
          events_of (take_offer_events e st (a\<lparr>k_token_in_mint := reload L (k_token_in_mint a),
            k_token_out_mint := reload L (k_token_out_mint a)\<rparr>) amount)
      | TakeOfferV2 sv a amount approval \<Rightarrow>
          events_of (take_offer_v2_events e spl sv st (a\<lparr>k_token_in_mint := reload L (k_token_in_mint a),
            k_token_out_mint := reload L (k_token_out_mint a)\<rparr>) amount approval (offer_view OfferFee p))
      | TakeOfferPermissionless a amount approval \<Rightarrow>
          events_of (take_offer_permissionless_events e spl st (a\<lparr>k_token_in_mint := reload L (k_token_in_mint a),
            k_token_out_mint := reload L (k_token_out_mint a)\<rparr>) amount L)
      | TakeOfferPermissionlessV2 a amount \<Rightarrow>
          events_of (take_offer_permissionless_v2_events e spl st (a\<lparr>k_token_in_mint := reload L (k_token_in_mint a),
            k_token_out_mint := reload L (k_token_out_mint a)\<rparr>) amount (offer_view PermissionlessOfferFee p))
      | ConfigurePropAmm a c \<Rightarrow> events_of (configure_prop_amm_events e st a c (pw_pair p))
      | OpenSwapBuy a amount minimum_out \<Rightarrow>
          events_of (open_swap_buy_events e spl st (a\<lparr>k_token_in_mint := reload L (k_token_in_mint a),
            k_token_out_mint := reload L (k_token_out_mint a)\<rparr>) (swap_view PropAmmBuyFee p))
      | OpenSwapSell a amount minimum_out \<Rightarrow>
          events_of (open_swap_sell_events e spl st (a\<lparr>ys_token_in_mint := reload L (ys_token_in_mint a),
            ys_token_out_mint := reload L (ys_token_out_mint a)\<rparr>) amount minimum_out (swap_view PropAmmSellFee p))
      | CreateRedemptionRequest oa redeemer m prog amount \<Rightarrow>
          queue (CreateRequest e st oa redeemer (reload L m) prog amount)
      | CancelRedemptionRequest signer redeemer worker m prog t i \<Rightarrow>
          queue (CancelRequest e st signer redeemer worker (reload L m) prog t i)
      | FulfillRedemptionRequest a i amount \<Rightarrow>
          (let a = a\<lparr>f_token_in_mint := reload L (f_token_in_mint a), f_token_out_mint := reload L (f_token_out_mint a)\<rparr>
           in events_of (fulfil_accrual_events e spl st a (redemption_view p)) @ queue (FulfillRequest e st a i amount))
      | UpdateRedemptionOfferFee boss fee \<Rightarrow> queue (UpdateRedemptionFee st boss fee)
      | UpdateRedemptionOfferSellFee boss fee \<Rightarrow> queue (UpdateSellFee st boss fee)
      | UpdateRedemptionOfferVaultTarget boss target \<Rightarrow> queue (UpdateVaultTarget st boss target)
      | SetRedemptionOfferDisabled signer disabled \<Rightarrow> queue (SetRedemptionDisabled st signer disabled)
      | OfferVaultDeposit a amount \<Rightarrow>
          [Vault (OfferVaultDepositEvent (m_key (va_token_mint a)) amount (va_party a))]
      | OfferVaultWithdraw a amount \<Rightarrow>
          [Vault (OfferVaultWithdrawEvent (m_key (va_token_mint a)) amount (va_party a))]
      | RedemptionVaultDeposit a amount \<Rightarrow>
          [Vault (RedemptionVaultDepositEvent (m_key (va_token_mint a)) amount (va_party a))]
      | RedemptionVaultWithdraw a amount \<Rightarrow>
          [Vault (RedemptionVaultWithdrawEvent (m_key (va_token_mint a)) amount (va_party a))]
      | DepositReserveVault a amount \<Rightarrow>
          [Vault (ReserveVaultDepositedEvent amount (m_key (va_token_mint a)) (va_party a))]
      | WithdrawReserveVault a amount \<Rightarrow>
          [Vault (ReserveVaultWithdrawnEvent amount (m_key (va_token_mint a)) (va_party a))]
      | SetConfigurableVaultDestination boss kind dst \<Rightarrow>
          events_of (set_destination_events e kind dst (pw_vaults p kind))
      | WithdrawConfigurableVault a kind amount \<Rightarrow>
          events_of (withdraw_configurable_vault_events e (a\<lparr>wv_vault := pw_vaults p kind\<rparr>) kind amount L))"

text \<open>The amount of the excluded balance is what the call stores.\<close>

definition excluded_balance_events ::
  "env \<Rightarrow> pubkey \<Rightarrow> circulating_supply_excluded_balance account \<Rightarrow> program_event list" where
  "excluded_balance_events e updater stored =
     (case a_data stored of
        AccountData eb \<Rightarrow> [Market (CirculatingSupplyExcludedBalanceUpdatedEvent (eb_amount eb) updater
          (unix_timestamp e) (slot e))]
      | _ \<Rightarrow> [])"

fun program_events :: "runtime \<Rightarrow> i64 \<times> entry \<Rightarrow> program \<Rightarrow> program_event list" where
  "program_events rt (now, c) P =
     (let e = runtime_at rt now; p = pg_core P in
      case c of
        Initialize owner pd boss onyc_mint bump \<Rightarrow> []
      | CloseState boss boss_lamports state_lamports \<Rightarrow> [StateClosedEvent (pda e [Seed ''state'']) boss]
      | InitializePermissionlessAuthority boss name \<Rightarrow> []
      | MakeOffer a bump fee ap pl \<Rightarrow> map Offers (entry_offer_events rt (now, c) P)
      | ChangeOffer key op \<Rightarrow> map Offers (entry_offer_events rt (now, c) P)
      | TransferMintAuthorityToProgram boss m \<Rightarrow>
          [Minting (MintAuthorityTransferredToProgramEvent (m_key m) boss (pda e [Seed ''mint_authority'']))]
      | TransferMintAuthorityToBoss boss m \<Rightarrow>
          [Minting (MintAuthorityTransferredToBossEvent (m_key m) (pda e [Seed ''mint_authority'']) boss)]
      | InitializeBuffer boss m main_offer prog \<Rightarrow>
          [Pool (BufferInitializedEvent (a_key (ba_buffer_state (pw_buffer_accounts p))) (m_key m)
             (a_key main_offer) now)]
      | MakeRedemptionOffer boss m_in prog m_out fee sell_fee existing \<Rightarrow>
          [Redemptions (redemption_offer_created_event e m_in m_out fee sell_fee)]
      | RefreshMarketStats main_offer m_in onyc_mint eb \<Rightarrow>
          [Market (MarketStatsRefreshedEvent (a_key (pw_market_stats p)) (a_key main_offer) now (slot e))]
      | SetExcludedAccounts boss owners \<Rightarrow> [Market (CirculatingSupplyExcludedAccountsSetEvent owners boss)]
      | UpdateExcludedBalance signer m prog token_accounts \<Rightarrow>
          (case entry_update_excluded_balance e m prog token_accounts P of
             Ok P' \<Rightarrow> excluded_balance_events e signer (pg_excluded_balance P')
           | Err _ \<Rightarrow> [])
      | Existing ix \<Rightarrow>
          (case bind_accounts e P ix of
             Ok ix \<Rightarrow> protocol_events (rt_spl rt) (rt_env rt) (now, ix) p
           | Err _ \<Rightarrow> []))"

section \<open>Silent calls\<close>

text \<open>The calls that may leave no event: the two that create an account, and a buy on the Prop AMM.\<close>

fun silent :: "entry \<Rightarrow> bool" where
  "silent (Initialize owner pd boss onyc_mint bump) = True"
| "silent (InitializePermissionlessAuthority boss name) = True"
| "silent (Existing (OpenSwapBuy a amount minimum_out)) = True"
| "silent _ = False"

lemma accrual_events_logged:
  "accrue_and_refresh e spl st offer m (pda e [Seed ''mint_authority'']) prog eb w = Ok w' \<Longrightarrow>
     \<exists>ev. accrual_events e spl st offer m prog w = Ok [ev]"
  by (auto simp: accrue_and_refresh_def accrual_events_def)

lemma buffer_logged:
  assumes "exec_buffer spl m c w = Ok w'"
  shows "buffer_events spl m c w \<noteq> []"
proof (cases c)
  case Settle
  then show ?thesis using assms by (auto simp: settle_buffer_def dest!: accrual_events_logged)
next
  case SetGrossApr
  then show ?thesis using assms by (auto simp: set_buffer_gross_apr_def dest!: accrual_events_logged)
next
  case SetFeeConfig
  then show ?thesis using assms by (auto simp: set_buffer_fee_config_def dest!: accrual_events_logged)
next
  case BurnForNav
  then show ?thesis using assms by (auto simp: burn_for_nav_increase_def burn_events_def Let_def)
qed

lemma redemption_logged:
  assumes "exec_redemption spl c w = Ok w'"
  shows "redemption_events c w \<noteq> []"
proof (cases c)
  case (CancelRequest e st signer redeemer worker m prog t i)
  then have "cancel_redemption_request e spl st signer redeemer worker m prog t i w = Ok w'" using assms by simp
  then show ?thesis by (rule cancel_redemption_request_Ok) (simp add: CancelRequest)
next
  case FulfillRequest
  then show ?thesis
    using assms by (auto simp: fulfill_redemption_request_def execute_fulfill_redemption_request_def)
qed (simp_all add: Let_def)

lemma exchange_logged:
  "take_offer e spl sv st a amount approval L = Ok L' \<Longrightarrow> events_of (take_offer_events e st a amount) \<noteq> []"
  "take_offer_v2 e spl sv st a2 amount approval w = Ok w' \<Longrightarrow>
     events_of (take_offer_v2_events e spl sv st a2 amount approval w) \<noteq> []"
  by (auto simp: take_offer_def take_offer_events_def take_offer_v2_def execute_take_offer_v2_def
      settle_take_offer_v2_def take_offer_v2_events_def Let_def split del: if_split)

lemma permissionless_logged:
  assumes "execute_take_offer_permissionless e spl st a offer amount pin dst fdst pout uo fo ba mr rr L = Ok x"
  shows "\<exists>evs. permissionless_events e spl st a offer amount fo ba mr L = Ok evs \<and> evs \<noteq> []"
  using assms by (cases ba) (auto simp: execute_take_offer_permissionless_def permissionless_events_def Let_def
    split del: if_split)

lemma permissionless_flows_logged:
  "take_offer_permissionless e spl st a amount approval L = Ok L' \<Longrightarrow>
     events_of (take_offer_permissionless_events e spl st a amount L) \<noteq> []"
  "take_offer_permissionless_v2 e spl st a2 amount w = Ok w' \<Longrightarrow>
     events_of (take_offer_permissionless_v2_events e spl st a2 amount w) \<noteq> []"
  by (auto simp: take_offer_permissionless_def take_offer_permissionless_events_def
      take_offer_permissionless_v2_def take_offer_permissionless_v2_events_def dest!: permissionless_logged)

lemma sell_logged:
  "open_swap_sell e spl st a amount mn w = Ok w' \<Longrightarrow> events_of (open_swap_sell_events e spl st a amount mn w) \<noteq> []"
  by (auto simp: open_swap_sell_def execute_open_swap_sell_def settle_swap_sell_def open_swap_sell_events_def
      Let_def split del: if_split)

lemma mint_logged:
  "mint_to e spl st a amount w = Ok w' \<Longrightarrow> events_of (mint_to_events e spl st a amount w) \<noteq> []"
  by (auto simp: mint_to_def mint_to_events_def Let_def split: if_splits)

lemma administration_logged:
  "configure_prop_amm e st a c ps = Ok ps' \<Longrightarrow> events_of (configure_prop_amm_events e st a c ps) \<noteq> []"
  "set_configurable_vault_destination e st boss kind dst v = Ok v' \<Longrightarrow>
     events_of (set_destination_events e kind dst v) \<noteq> []"
  by (auto simp: configure_prop_amm_def configure_prop_amm_events_def set_configurable_vault_destination_def
      set_destination_events_def Let_def split: prod.splits split del: if_split)

lemma withdrawal_logged:
  "withdraw_configurable_vault e spl st a kind amount L = Ok L' \<Longrightarrow>
     events_of (withdraw_configurable_vault_events e a kind amount L) \<noteq> []"
  by (auto simp: withdraw_configurable_vault_def withdraw_configurable_vault_events_def load_pda_account_def
      deserialize_pda_account_def Let_def split del: if_split)

lemmas flows_logged = exchange_logged permissionless_flows_logged sell_logged mint_logged administration_logged
  withdrawal_logged

text \<open>The instructions of the two component machines inside the program.\<close>

lemma protocol_pool_logged:
  assumes "exec_protocol spl env (now, ix) p = Ok p'"
    and "(\<exists>a b c d e. ix = SettleBuffer a b c d e) \<or> (\<exists>a b c d e f. ix = SetBufferGrossApr a b c d e f) \<or>
      (\<exists>a b c d e f g h. ix = SetBufferFeeConfig a b c d e f g h) \<or>
      (\<exists>a b c d e f g h. ix = BurnForNavIncrease a b c d e f g h)"
  shows "protocol_events spl env (now, ix) p \<noteq> []"
proof -
  have w: "w_ledger (buffer_view p) = pw_ledger p" by (simp add: buffer_view_def)
  show ?thesis
    using assms by (elim disjE exE)
      (auto simp: update_Ok Let_def simp del: buffer_events.simps
        dest!: buffer_logged [of spl _ "Settle _ _ _ _ _ _" "buffer_view p", unfolded exec_buffer.simps w]
          buffer_logged [of spl _ "SetGrossApr _ _ _ _ _ _ _" "buffer_view p", unfolded exec_buffer.simps w]
          buffer_logged [of spl _ "SetFeeConfig _ _ _ _ _ _ _ _ _" "buffer_view p", unfolded exec_buffer.simps w]
          buffer_logged [of spl _ "BurnForNav _ _ _ _ _ _ _ _ _" "buffer_view p", unfolded exec_buffer.simps w])
qed

lemma protocol_queue_logged:
  assumes "exec_protocol spl env (now, ix) p = Ok p'" and "on_redemptions ix"
  shows "protocol_events spl env (now, ix) p \<noteq> []"
proof (cases ix)
  case (CancelRedemptionRequest signer redeemer worker m prog t i)
  then show ?thesis
    using assms redemption_logged [of spl "CancelRequest (env\<lparr>unix_timestamp := now\<rparr>) (pw_state p) signer redeemer worker
      (reload (pw_ledger p) m) prog t i" "redemption_view p"]
    by (auto simp: update_Ok Let_def simp del: redemption_events.simps)
next
  case (FulfillRedemptionRequest a i amount)
  then show ?thesis
    using assms redemption_logged [of spl "FulfillRequest (env\<lparr>unix_timestamp := now\<rparr>) (pw_state p)
      (a\<lparr>f_token_in_mint := reload (pw_ledger p) (f_token_in_mint a),
         f_token_out_mint := reload (pw_ledger p) (f_token_out_mint a)\<rparr>) i amount" "redemption_view p"]
    by (auto simp: update_Ok Let_def simp del: redemption_events.simps)
qed (use assms in \<open>auto simp: Let_def\<close>)

lemma protocol_logged:
  assumes ok: "exec_protocol spl env (now, ix) p = Ok p'" and "\<not> silent (Existing ix)"
  shows "protocol_events spl env (now, ix) p \<noteq> []"
proof (cases "on_redemptions ix \<or> (\<exists>c. ix = Govern c) \<or> (\<exists>a b c d e. ix = SettleBuffer a b c d e) \<or>
    (\<exists>a b c d e f. ix = SetBufferGrossApr a b c d e f) \<or> (\<exists>a b c d e f g h. ix = SetBufferFeeConfig a b c d e f g h) \<or>
    (\<exists>a b c d e f g h. ix = BurnForNavIncrease a b c d e f g h)")
  case True
  have "gov_events c s \<noteq> []" for c s by (cases c) simp_all
  then have "protocol_events spl env (now, Govern c) p \<noteq> []" for c by (simp add: Let_def)
  then show ?thesis
    using True protocol_queue_logged [OF ok] protocol_pool_logged [OF ok]
    by (elim disjE exE) (simp_all del: protocol_events.simps)
next
  case False
  then show ?thesis
    using assms flows_logged by (cases ix) (auto simp: update_Ok Let_def)
qed

lemma change_offer_logged:
  assumes "entry_change_offer e key op P = Ok P'"
  shows "entry_offer_events rt (now, ChangeOffer key op) P \<noteq> []"
proof -
  have "offer_events key c offer \<noteq> []" for c offer by (cases c) (simp_all add: Let_def)
  then show ?thesis using assms by (auto simp: entry_change_offer_def Let_def)
qed

lemma entry_logged:
  assumes ok: "exec_entry rt (now, c) P = Ok P'" and "\<not> silent c"
  shows "program_events rt (now, c) P \<noteq> []"
proof (cases c)
  case (Existing ix)
  then obtain ix' p where ix': "bind_accounts (runtime_at rt now) P ix = Ok ix'"
    and p: "exec_protocol (rt_spl rt) (rt_env rt) (now, ix') (pg_core P) = Ok p"
    using ok by (auto simp: entry_existing_def Let_def simp del: exec_protocol.simps)
  have "\<not> silent (Existing ix')"
    using ix' assms(2) Existing by (cases "(runtime_at rt now, P, ix)" rule: bind_governance.cases) (auto simp: bind_accounts_def)
  then show ?thesis
    using protocol_logged [OF p] by (simp add: Existing ix' del: protocol_events.simps)
next
  case (ChangeOffer key op)
  then show ?thesis using ok change_offer_logged by (auto simp: Let_def simp del: entry_offer_events.simps)
next
  case (UpdateExcludedBalance signer m prog accs)
  then have x: "entry_update_excluded_balance (runtime_at rt now) m prog accs P = Ok P'" using ok by (simp add: Let_def)
  then obtain eb where "a_data (pg_excluded_balance P') = AccountData eb"
    by (auto simp: entry_update_excluded_balance_def Let_def)
  then show ?thesis using x by (simp add: UpdateExcludedBalance excluded_balance_events_def Let_def)
qed (use assms in \<open>simp_all add: Let_def\<close>)

text \<open>
  C20: Nothing happens behind the log. Whatever entry points are called, in whatever order and
  whether they succeed or fail: as long as none of them creates the state account or the
  permissionless authority or buys on the Prop AMM, a run that emits no event changes nothing, no
  balance, no supply and no account. Those three kinds of calls are the only ones that can change the
  program without an event.
\<close>

theorem unlogged_runs_change_nothing:
  assumes "list_all (\<lambda>(now, c). \<not> silent c) cs"
    and "event_log (exec_entry rt) (program_events rt) cs P = []"
  shows "run_ops (exec_entry rt) cs P = P"
  using assms
proof (induction cs arbitrary: P)
  case (Cons x cs)
  obtain now c where x: "x = (now, c)" by force
  show ?case
  proof (cases "exec_entry rt (now, c) P")
    case (Ok P')
    have "\<not> silent c" "program_events rt (now, c) P = []" using Cons.prems Ok by (simp_all add: x)
    then show ?thesis using entry_logged [OF Ok] by blast
  next
    case (Err err)
    then show ?thesis using Cons by (simp add: x)
  qed
qed simp

theorem unlogged_runs_change_nothing_witness:
  "run_ops (exec_entry sample_runtime) [(900, MakeOffer sample_accounts 254 50 False True),
     (900, Existing (snd sample_settlement))] sample_deployment = sample_deployment"
proof -
  let ?cs = "[(900, MakeOffer sample_accounts 254 50 False True), (900, Existing (snd sample_settlement))]"
  have "list_all (\<lambda>(now, c). \<not> silent c) ?cs" by (simp add: sample_settlement_def)
  moreover have "event_log (exec_entry sample_runtime) (program_events sample_runtime) ?cs sample_deployment = []"
    by (simp add: Let_def sample_deployment_def)
  ultimately show ?thesis by (rule unlogged_runs_change_nothing)
qed

section \<open>Queries\<close>

datatype query_event =
    GetNAVEvent pubkey u64 u64 u64
  | GetAPYEvent pubkey u64 u64 u64
  | GetNavAdjustmentEvent pubkey u64 "u64 option" i64 u64
  | GetTVLEvent pubkey u64 u64 u64 u64
  | GetCirculatingSupplyEvent u64 u64 u64 u64
  | GetCirculatingSupplyV2Event u64 u64 u64 u64

definition get_nav_event :: "env \<Rightarrow> pubkey \<Rightarrow> offer \<Rightarrow> query_event result" where
  "get_nav_event e offer_pda offer =
     (let current_time = i64_as_u64 (unix_timestamp e) in
      and_then (get_offer_valuation_snapshot offer current_time) (\<lambda>valuation.
      Ok (GetNAVEvent offer_pda (ovs_current_price valuation) current_time
        (ovs_next_price_change_timestamp valuation))))"

definition get_apy_event :: "env \<Rightarrow> pubkey \<Rightarrow> offer \<Rightarrow> query_event result" where
  "get_apy_event e offer_pda offer =
     (let current_time = i64_as_u64 (unix_timestamp e) in
      and_then (find_active_vector_at offer current_time) (\<lambda>active_vector.
      and_then (calculate_apy_from_apr (v_apr active_vector)) (\<lambda>apy.
      Ok (GetAPYEvent offer_pda apy (v_apr active_vector) current_time))))"

definition get_nav_adjustment_event :: "env \<Rightarrow> pubkey \<Rightarrow> offer \<Rightarrow> query_event result" where
  "get_nav_adjustment_event e offer_pda offer =
     (let current_time = i64_as_u64 (unix_timestamp e) in
      and_then (find_active_vector_at offer current_time) (\<lambda>active_vector.
      and_then (get_nav_adjustment_snapshot offer active_vector) (\<lambda>snapshot.
      Ok (GetNavAdjustmentEvent offer_pda (nas_current_price snapshot) (nas_previous_price snapshot)
        (nas_adjustment snapshot) current_time))))"

text \<open>Both versions of the TVL query emit the same event; \<open>excluded\<close> is the amount not in circulation.\<close>

definition get_tvl_event :: "env \<Rightarrow> pubkey \<Rightarrow> offer \<Rightarrow> mint \<Rightarrow> u64 \<Rightarrow> query_event result" where
  "get_tvl_event e offer_pda offer token_out_mint excluded =
     (let current_time = i64_as_u64 (unix_timestamp e) in
      and_then (get_active_vector_and_current_price offer current_time) (\<lambda>(_, current_price).
      and_then (calculate_circulating_supply (m_supply token_out_mint) excluded) (\<lambda>token_supply.
      and_then (map_err (calculate_tvl token_supply current_price) Overflow) (\<lambda>tvl.
      Ok (GetTVLEvent offer_pda tvl current_price token_supply current_time)))))"

fun query_events :: "runtime \<Rightarrow> i64 \<Rightarrow> query \<Rightarrow> program \<Rightarrow> query_event list result" where
  "query_events rt now (GetNav m_in m_out) P =
     (let e = runtime_at rt now in
      and_then (stored_offer e P m_in m_out) (\<lambda>offer.
      and_then (get_nav_event e (pda e (offer_seeds (m_key m_in) (m_key m_out))) offer) (\<lambda>ev. Ok [ev])))"
| "query_events rt now (GetApy m_in m_out) P =
     (let e = runtime_at rt now in
      and_then (stored_offer e P m_in m_out) (\<lambda>offer.
      and_then (get_apy_event e (pda e (offer_seeds (m_key m_in) (m_key m_out))) offer) (\<lambda>ev. Ok [ev])))"
| "query_events rt now (GetNavAdjustment m_in m_out) P =
     (let e = runtime_at rt now in
      and_then (stored_offer e P m_in m_out) (\<lambda>offer.
      and_then (get_nav_adjustment_event e (pda e (offer_seeds (m_key m_in) (m_key m_out))) offer) (\<lambda>ev. Ok [ev])))"
| "query_events rt now (GetTvl m_in m_out vault prog) P =
     (let e = runtime_at rt now in
      and_then (stored_offer e P m_in m_out) (\<lambda>offer.
      and_then (get_tvl_event e (pda e (offer_seeds (m_key m_in) (m_key m_out))) offer (mint_at P m_out)
          (read_optional_token_account_amount (pw_ledger (pg_core P)) vault prog)) (\<lambda>ev. Ok [ev])))"
| "query_events rt now (GetTvlV2 m_in m_out eb) P =
     (let e = runtime_at rt now in
      and_then (stored_offer e P m_in m_out) (\<lambda>offer.
      and_then (load_circulating_supply_excluded_balance_amount e (excluded_balance_at P eb)) (\<lambda>excluded.
      and_then (get_tvl_event e (pda e (offer_seeds (m_key m_in) (m_key m_out))) offer (mint_at P m_out) excluded)
        (\<lambda>ev. Ok [ev]))))"
| "query_events rt now (GetCirculatingSupply m vault prog) P =
     (let vault_amount = read_optional_token_account_amount (pw_ledger (pg_core P)) vault prog;
          total_supply = m_supply (mint_at P m)
      in
      and_then (calculate_circulating_supply total_supply vault_amount) (\<lambda>circulating_supply.
      Ok [GetCirculatingSupplyEvent circulating_supply total_supply vault_amount (i64_as_u64 now)]))"
| "query_events rt now (GetCirculatingSupplyV2 m eb) P =
     (let total_supply = m_supply (mint_at P m) in
      and_then (load_circulating_supply_excluded_balance_amount (runtime_at rt now) (excluded_balance_at P eb))
        (\<lambda>excluded_amount.
      and_then (calculate_circulating_supply total_supply excluded_amount) (\<lambda>circulating_supply.
      Ok [GetCirculatingSupplyV2Event circulating_supply total_supply excluded_amount (i64_as_u64 now)])))"
| "query_events rt now (QuoteSwapBuy a amount) P = Ok []"
| "query_events rt now (QuoteSwapSell a amount) P = Ok []"

text \<open>The value a query event reports and the time it names.\<close>

fun reported :: "query_event \<Rightarrow> answer \<times> u64" where
  "reported (GetNAVEvent k price t next_change) = (Amount price, t)"
| "reported (GetAPYEvent k apy apr t) = (Amount apy, t)"
| "reported (GetNavAdjustmentEvent k price previous adjustment t) = (Signed adjustment, t)"
| "reported (GetTVLEvent k tvl price supply t) = (Amount tvl, t)"
| "reported (GetCirculatingSupplyEvent circulating all_tokens vault t) = (Amount circulating, t)"
| "reported (GetCirculatingSupplyV2Event circulating all_tokens excluded t) = (Amount circulating, t)"

lemmas query_defs = get_nav_event_def get_apy_event_def get_nav_adjustment_event_def get_tvl_event_def
  get_nav_def get_apy_def get_nav_adjustment_def get_tvl_def get_tvl_v2_def get_circulating_supply_def
  get_circulating_supply_v2_def

text \<open>Every answer but a quote is also an event, with the answer and the time of the query.\<close>

lemma query_reports_answer:
  assumes "exec_query rt now q P = Ok ans"
  shows "case ans of Quote quote \<Rightarrow> query_events rt now q P = Ok []
    | _ \<Rightarrow> \<exists>ev. query_events rt now q P = Ok [ev] \<and> reported ev = (ans, i64_as_u64 now)"
  using assms
  by (cases q) (auto simp: query_defs answer_with_def Let_def runtime_at_def split: prod.splits)

section \<open>The BUFFER and its reserve\<close>

text \<open>
  The instructions of the BUFFER after its initialization: those that accrue, and the deposits into
  and withdrawals from the reserve vault, which name the pool account, the ONyc mint and the
  reserve vault of the pool.
\<close>

datatype reserve_op =
    Pooled buffer_op
  | DepositReserve env state vault_accounts u64
  | WithdrawReserve env state vault_accounts u64

definition reserve_accounts :: "mint \<Rightarrow> vault_accounts \<Rightarrow> buffer_world \<Rightarrow> vault_accounts" where
  "reserve_accounts m a w = a\<lparr>va_token_mint := reload (w_ledger w) m,
     va_vault_token_account := ba_reserve_vault_onyc_account (w_buffer_accounts w)\<rparr>"

fun exec_reserve :: "spl_token \<Rightarrow> mint \<Rightarrow> reserve_op \<Rightarrow> buffer_world \<Rightarrow> buffer_world result" where
  "exec_reserve spl m (Pooled c) w = exec_buffer spl m c w"
| "exec_reserve spl m (DepositReserve e st a amount) w =
     and_then (deposit_reserve_vault e spl st (ba_buffer_state (w_buffer_accounts w))
       (reserve_accounts m a w) amount (w_ledger w)) (\<lambda>L. Ok (w\<lparr>w_ledger := L\<rparr>))"
| "exec_reserve spl m (WithdrawReserve e st a amount) w =
     and_then (withdraw_reserve_vault e spl st (ba_buffer_state (w_buffer_accounts w))
       (reserve_accounts m a w) amount (w_ledger w)) (\<lambda>L. Ok (w\<lparr>w_ledger := L\<rparr>))"

fun reserve_events :: "spl_token \<Rightarrow> mint \<Rightarrow> reserve_op \<Rightarrow> buffer_world \<Rightarrow> program_event list" where
  "reserve_events spl m (Pooled c) w = map Pool (buffer_events spl m c w)"
| "reserve_events spl m (DepositReserve e st a amount) w =
     [Vault (ReserveVaultDepositedEvent amount (m_key m) (va_party a))]"
| "reserve_events spl m (WithdrawReserve e st a amount) w =
     [Vault (ReserveVaultWithdrawnEvent amount (m_key m) (va_party a))]"

fun observe_reserve :: "program_event \<Rightarrow> buffer_picture \<Rightarrow> buffer_picture" where
  "observe_reserve (Pool ev) v = observe_buffer ev v"
| "observe_reserve (Vault (ReserveVaultDepositedEvent amount m k)) v = v\<lparr>bp_reserve := bp_reserve v + amount\<rparr>"
| "observe_reserve (Vault (ReserveVaultWithdrawnEvent amount m k)) v = v\<lparr>bp_reserve := bp_reserve v - amount\<rparr>"
| "observe_reserve ev v = v"

text \<open>The reserve vault is not the token account of the party that deposits or withdraws.\<close>

fun party_separate :: "pubkey \<Rightarrow> reserve_op \<Rightarrow> bool" where
  "party_separate reserve (Pooled c) = True"
| "party_separate reserve (DepositReserve e st a amount) = (t_key (va_party_token_account a) \<noteq> reserve)"
| "party_separate reserve (WithdrawReserve e st a amount) = (t_key (va_party_token_account a) \<noteq> reserve)"

lemma fold_observe_pool: "fold observe_reserve (map Pool evs) v = fold observe_buffer evs v"
  by (induction evs arbitrary: v) simp_all

lemma deposit_reserve_moves:
  assumes "spl_laws spl" and "deposit_reserve_vault e spl st ba a amount L = Ok L'"
  shows "L' = L\<lparr>l_bal := credit (t_key (va_vault_token_account a)) amount
    (debit (t_key (va_party_token_account a)) amount (l_bal L))\<rparr>"
  using assms transfer_tokens_Ok(2) [OF assms(1)] get_or_create_associated_token_account_Ok(1)
  unfolding deposit_reserve_vault_def vault_deposit_def Let_def
  by (fastforce simp: get_associated_token_account_Ok)

lemma withdraw_reserve_moves:
  assumes "spl_laws spl" and "withdraw_reserve_vault e spl st ba a amount L = Ok L'"
  shows "amount \<le> l_bal L (t_key (va_vault_token_account a))"
    and "L' = L\<lparr>l_bal := credit (t_key (va_party_token_account a)) amount
      (debit (t_key (va_vault_token_account a)) amount (l_bal L))\<rparr>"
proof -
  from assms(2) obtain dst where
    "get_or_create_associated_token_account e (va_party_token_account a) (va_party a) (m_key (va_token_mint a))
      (va_token_program a) AnchorConstraint = Ok dst"
    and t: "transfer_tokens spl (va_token_mint a) (t_key (va_vault_token_account a)) dst
      (pda e [Seed ''reserve_vault_authority'']) amount L = Ok L'"
    unfolding withdraw_reserve_vault_def vault_withdraw_def Let_def
    by (auto simp: get_associated_token_account_Ok)
  then have "dst = t_key (va_party_token_account a)" by (rule_tac get_or_create_associated_token_account_Ok(1))
  with transfer_tokens_Ok [OF assms(1) t] show "amount \<le> l_bal L (t_key (va_vault_token_account a))"
    and "L' = L\<lparr>l_bal := credit (t_key (va_party_token_account a)) amount
      (debit (t_key (va_vault_token_account a)) amount (l_bal L))\<rparr>" by simp_all
qed

abbreviation reserve_key :: "buffer_world \<Rightarrow> pubkey" where
  "reserve_key w \<equiv> t_key (ba_reserve_vault_onyc_account (w_buffer_accounts w))"

lemma reserve_move_seen:
  assumes "w' = w\<lparr>w_ledger := (w_ledger w)\<lparr>l_bal := bal\<rparr>\<rparr>" and "sees_buffer m v w"
  shows "sees_buffer m (v\<lparr>bp_reserve := bal (reserve_key w)\<rparr>) w'"
  using assms by (auto simp: sees_buffer_def buffer_picture_of_def pool_def)

lemma reserve_op_seen:
  assumes laws: "spl_laws spl" and sep: "reserve_separate (w_buffer_accounts w)"
    and party: "party_separate (reserve_key w) c" and ok: "exec_reserve spl m c w = Ok w'"
  shows "sees_buffer m v w \<Longrightarrow> sees_buffer m (fold observe_reserve (reserve_events spl m c w) v) w'"
    and "reserve_separate (w_buffer_accounts w') \<and> reserve_key w' = reserve_key w"
proof (atomize (full), cases c)
  case (Pooled c')
  with ok buffer_op_seen [OF laws sep] have s: "buffer_step_seen spl m c' w w'" by simp
  then have "reserve_key w' = reserve_key w"
    unfolding buffer_step_seen_def by (metis buffer_accrual_accounts.select_convs(2)
        buffer_accrual_accounts.surjective buffer_accrual_accounts.update_convs(1))
  with s show "(sees_buffer m v w \<longrightarrow> sees_buffer m (fold observe_reserve (reserve_events spl m c w) v) w') \<and>
      reserve_separate (w_buffer_accounts w') \<and> reserve_key w' = reserve_key w"
    using Pooled buffer_step_separate [OF s sep] by (simp add: fold_observe_pool buffer_step_seen_def)
next
  case (DepositReserve e st a n)
  with ok obtain L' where d: "deposit_reserve_vault e spl st (ba_buffer_state (w_buffer_accounts w))
      (reserve_accounts m a w) n (w_ledger w) = Ok L'" and w': "w' = w\<lparr>w_ledger := L'\<rparr>" by auto
  have "L' = (w_ledger w)\<lparr>l_bal := credit (reserve_key w) n (debit (t_key (va_party_token_account a)) n (l_bal (w_ledger w)))\<rparr>"
    using deposit_reserve_moves [OF laws d] by (simp add: reserve_accounts_def)
  from reserve_move_seen [OF w' [unfolded this], of m v]
  show "(sees_buffer m v w \<longrightarrow> sees_buffer m (fold observe_reserve (reserve_events spl m c w) v) w') \<and>
      reserve_separate (w_buffer_accounts w') \<and> reserve_key w' = reserve_key w"
    using DepositReserve party sep w' by (auto simp: sees_buffer_def buffer_picture_of_def credit_def debit_def)
next
  case (WithdrawReserve e st a n)
  with ok obtain L' where d: "withdraw_reserve_vault e spl st (ba_buffer_state (w_buffer_accounts w))
      (reserve_accounts m a w) n (w_ledger w) = Ok L'" and w': "w' = w\<lparr>w_ledger := L'\<rparr>" by auto
  have "L' = (w_ledger w)\<lparr>l_bal := credit (t_key (va_party_token_account a)) n (debit (reserve_key w) n (l_bal (w_ledger w)))\<rparr>"
    using withdraw_reserve_moves(2) [OF laws d] by (simp add: reserve_accounts_def)
  from reserve_move_seen [OF w' [unfolded this], of m v]
  show "(sees_buffer m v w \<longrightarrow> sees_buffer m (fold observe_reserve (reserve_events spl m c w) v) w') \<and>
      reserve_separate (w_buffer_accounts w') \<and> reserve_key w' = reserve_key w"
    using WithdrawReserve party sep w' by (auto simp: sees_buffer_def buffer_picture_of_def credit_def debit_def)
qed

interpretation reserve_log: observed_machine "exec_reserve spl m"
    "\<lambda>w. spl_laws spl \<and> reserve_separate (w_buffer_accounts w) \<and> reserve_key w = reserve" "party_separate reserve"
    "reserve_events spl m" observe_reserve "sees_buffer m" for spl m reserve
  by unfold_locales (use reserve_op_seen in blast)+

text \<open>
  C21: The event log determines the BUFFER. An observer who knows the pool once and then reads nothing
  but the events knows, after every sequence of settlements, rate and fee changes, NAV burns and
  deposits into and withdrawals from the reserve vault, failing ones included, the whole pool account
  (rates, fees, watermark, baseline supply and time of the last accrual), the actual ONyc supply and
  the balance of the reserve vault. The reserve vault is a token account of its own, apart from the
  fee vaults and from the account of whoever deposits or withdraws.
\<close>

theorem buffer_log_determines_the_pool:
  fixes w :: buffer_world and spl :: spl_token and m :: mint and cs :: "reserve_op list"
  assumes "spl_laws spl" and "reserve_separate (w_buffer_accounts w)" and "pool w = AccountData b"
    and "list_all (party_separate (t_key (ba_reserve_vault_onyc_account (w_buffer_accounts w)))) cs"
  defines "w' \<equiv> run_ops (exec_reserve spl m) cs w"
  shows "\<exists>b'. pool w' = AccountData b' \<and>
    fold observe_reserve (event_log (exec_reserve spl m) (reserve_events spl m) cs w) (buffer_picture_of m b w) =
    \<lparr>bp_pool = b', bp_supply = l_supply (w_ledger w') (m_key m),
     bp_reserve = l_bal (w_ledger w') (t_key (ba_reserve_vault_onyc_account (w_buffer_accounts w')))\<rparr>"
proof -
  have "sees_buffer m (fold observe_reserve (event_log (exec_reserve spl m) (reserve_events spl m) cs w)
      (buffer_picture_of m b w)) w'"
    unfolding w'_def by (rule reserve_log.run_seen [OF assms(4)]) (use assms in \<open>auto simp: sees_buffer_def\<close>)
  then show ?thesis by (simp add: sees_buffer_def buffer_picture_of_def)
qed

definition sample_reserve_move :: vault_accounts where
  "sample_reserve_move = \<lparr>va_token_mint = sample_onyc, va_party_token_account = sample_token 1092,
     va_vault_token_account = sample_token 2082, va_party = 7, va_token_program = 9\<rparr>"

definition sample_reserve_ops :: "reserve_op list" where
  "sample_reserve_ops =
     [WithdrawReserve sample_env sample_config sample_reserve_move 400,
      DepositReserve sample_env sample_config sample_reserve_move 100,
      Pooled (Settle sample_env sample_config 8 9 sample_main_offer (absent_account 102)),
      Pooled (BurnForNav sample_env sample_config 7 9 sample_main_offer (vault_init_value ManagementFee 255)
        (vault_init_value PerformanceFee 255) (absent_account 102) 500)]"

lemma sample_reserve_moves_ok:
  "l_bal (w_ledger (run_ops (exec_reserve plain_token_program sample_onyc) (take 2 sample_reserve_ops) sample_world)) 2082 = 700"
  by (simp add: sample_reserve_ops_def sample_reserve_move_def deposit_reserve_vault_def withdraw_reserve_vault_def
      check_reserve_accounts_def vault_deposit_def vault_withdraw_def reserve_accounts_def load_pda_account_def
      deserialize_pda_account_def sample_world_def sample_config_def zero_state_def sample_buffer_def
      get_or_create_associated_token_account_def get_associated_token_account_def validate_associated_token_address_def
      token_account_try_from_def sample_token_def transfer_tokens_def plain_token_program_def credit_def debit_def
      has_transfer_fee_def sample_onyc_def sample_mint_def zero_buffer_state_def reload_def cong: eval_congs)

theorem buffer_log_determines_the_pool_witness:
  "l_bal (w_ledger (run_ops (exec_reserve plain_token_program sample_onyc) (take 2 sample_reserve_ops) sample_world)) 2082 = 700 \<and>
   (\<exists>b'. pool (run_ops (exec_reserve plain_token_program sample_onyc) sample_reserve_ops sample_world) = AccountData b' \<and>
     bp_pool (fold observe_reserve (event_log (exec_reserve plain_token_program sample_onyc)
       (reserve_events plain_token_program sample_onyc) sample_reserve_ops sample_world)
       \<lparr>bp_pool = sample_buffer\<lparr>b_previous_supply := 0\<rparr>, bp_supply = 5000, bp_reserve = 1000\<rparr>) = b')"
proof -
  have sep: "reserve_separate (w_buffer_accounts sample_world)"
    by (simp add: reserve_separate_def sample_world_def sample_token_def)
  have b: "pool sample_world = AccountData (sample_buffer\<lparr>b_previous_supply := 0\<rparr>)"
    by (simp add: pool_def sample_world_def)
  have v: "buffer_picture_of sample_onyc (sample_buffer\<lparr>b_previous_supply := 0\<rparr>) sample_world =
      \<lparr>bp_pool = sample_buffer\<lparr>b_previous_supply := 0\<rparr>, bp_supply = 5000, bp_reserve = 1000\<rparr>"
    by (simp add: buffer_picture_of_def sample_world_def sample_token_def)
  have ops: "list_all (party_separate (reserve_key sample_world)) sample_reserve_ops"
    by (simp add: sample_reserve_ops_def sample_reserve_move_def sample_world_def sample_token_def)
  show ?thesis
    using buffer_log_determines_the_pool [OF plain_token_program_laws sep b ops, of sample_onyc] sample_reserve_moves_ok
    unfolding v by (metis buffer_picture.select_convs(1))
qed

end
