(* ===== verification/Event_Amounts.thy ===== *)
theory Event_Amounts
  imports Program_Events
begin

text \<open>
  What the events of an exchange say about the ledger. Each of the five instructions that emit such
  an event reports the net amount, the fee and the output; the theorem compares them with the
  balances of the user's two token accounts.
\<close>

section \<open>The accounts of an exchange\<close>

text \<open>
  The token accounts of the program and the boss that an exchange may touch: those of the boss, the
  redemption vault, the offer vault and the configurable vaults, and the three of the BUFFER.
\<close>

definition buffer_vaults :: "buffer_accrual_accounts \<Rightarrow> pubkey set" where
  "buffer_vaults ba = {t_key (ba_reserve_vault_onyc_account ba), t_key (ba_management_fee_vault_onyc_account ba),
     t_key (ba_performance_fee_vault_onyc_account ba)}"

definition program_accounts ::
  "env \<Rightarrow> state \<Rightarrow> buffer_accrual_accounts \<Rightarrow> pubkey \<Rightarrow> pubkey \<Rightarrow> pubkey \<Rightarrow> pubkey \<Rightarrow> pubkey set" where
  "program_accounts e st ba tin pin tout pout =
     (let ata = get_associated_token_address_with_program_id e;
          redemption_authority = pda e [Seed ''redemption_offer_vault_authority'']
      in {ata (s_boss st) tin pin, ata redemption_authority tin pin, ata redemption_authority tout pout,
          ata (pda e [Seed ''offer_vault_authority'']) tout pout} \<union>
         range (\<lambda>kind. ata (pda e (vault_seeds kind)) tin pin) \<union> buffer_vaults ba)"

definition traded :: "pubkey \<Rightarrow> pubkey \<Rightarrow> u64 \<Rightarrow> offer_taken \<Rightarrow> ledger \<Rightarrow> ledger \<Rightarrow> bool" where
  "traded user_in user_out amount t L L' \<longleftrightarrow> ot_token_in_amount t + ot_fee_amount t = amount \<and>
     l_bal L user_in = l_bal L' user_in + amount \<and> l_bal L' user_out = l_bal L user_out + ot_token_out_amount t"

lemma traded_by_order:
  assumes bal: "\<And>x. x \<notin> buffer_vaults ba \<Longrightarrow> int (l_bal L' x) = int (l_bal L x) - part (x = ui) amount
      + part (\<not> burns \<and> rdst = Some x) refill + part (\<not> burns \<and> x = dst) (net - refill) + part (x = fdst) fee
      - part (\<not> mints \<and> x = vo) out + part (x = uo) out"
    and "{ui, uo} \<inter> S = {}" and "ui \<noteq> uo" and "buffer_vaults ba \<union> set_option rdst \<union> {dst, fdst, vo} \<subseteq> S"
    and "net + fee = amount"
  shows "traded ui uo amount (taken offer_pda net out fee user) L L'"
proof -
  have n: "x \<notin> buffer_vaults ba" "rdst \<noteq> Some x" "x \<noteq> dst" "x \<noteq> fdst" "x \<noteq> vo" if "x \<in> {ui, uo}" for x
    using assms(2,4) that by auto
  have "int (l_bal L' ui) = int (l_bal L ui) - int amount" "int (l_bal L' uo) = int (l_bal L uo) + int out"
    using bal [of ui] bal [of uo] n [of ui] n [of uo] assms(3) by (simp_all add: part_def)
  then show ?thesis using assms(5) by (simp add: traded_def taken_def)
qed

lemma taken_at_user [simp]: "ot_user (taken_at a r) = k_user a" "ot_user (taken k net out fee u) = u"
  by (simp_all add: taken_at_def taken_def)

section \<open>Direct execution\<close>

lemma take_offer_traded:
  assumes laws: "spl_laws spl" and ok: "take_offer e spl sv st a amount approval L = Ok L'"
  defines "tin \<equiv> m_key (k_token_in_mint a)" and "tout \<equiv> m_key (k_token_out_mint a)"
    and "ui \<equiv> get_associated_token_address_with_program_id e (k_user a) (m_key (k_token_in_mint a)) (k_token_in_program a)"
    and "uo \<equiv> get_associated_token_address_with_program_id e (k_user a) (m_key (k_token_out_mint a)) (k_token_out_program a)"
  assumes "{ui, uo} \<inter> program_accounts e st ba tin (k_token_in_program a) tout (k_token_out_program a) = {}" and "ui \<noteq> uo"
  shows "\<exists>t. take_offer_events e st a amount = Ok [Exchange (OfferTakenEvent t)] \<and> ot_user t = k_user a \<and>
    traded ui uo amount t L L'"
proof -
  from ok obtain offer user_out boss_in r where
    chk: "check_take_offer_accounts e st (Some (k_boss a)) a = Ok offer"
    and uo': "get_or_create_associated_token_account e (k_user_token_out_account a) (k_user a)
      tout (k_token_out_program a) AnchorConstraint = Ok user_out"
    and bi: "get_associated_token_account e (k_boss_token_in_account a) (k_boss a) tin
      (k_token_in_program a) AnchorConstraint = Ok boss_in"
    and auth: "\<exists>u. validate_take_offer_authorities e (k_vault_authority a) (k_mint_authority a)
      (k_instructions_sysvar a) = Ok u"
    and r: "process_offer_core e offer amount (k_token_in_mint a) (k_token_out_mint a)
      (o_fee_basis_points offer) = Ok r"
    and ex: "execute_token_operations spl (offer_order st a r (k_token_out_mint a) (k_user a)
      (t_key (k_user_token_in_account a)) boss_in None 0 boss_in user_out) L = Ok L'"
    unfolding take_offer_def tin_def tout_def by auto
  note c = check_take_offer_accounts_Ok [OF chk]
  have va: "k_vault_authority a = pda e [Seed ''offer_vault_authority'']"
    using auth validate_take_offer_authorities_Ok by blast
  have b: "boss_in = get_associated_token_address_with_program_id e (s_boss st) tin (k_token_in_program a)"
    using bi c(6) [OF refl] by (simp add: get_associated_token_account_Ok)
  have u: "user_out = uo" "t_key (k_user_token_in_account a) = ui"
    using get_or_create_associated_token_account_Ok [OF uo'] c(5) by (simp_all add: ui_def uo_def tout_def)
  note eff = offer_order_effect(1) [OF laws refl refl ex, unfolded u process_offer_core_pays [OF r]]
  have "traded ui uo amount (taken_at a r) L L'"
    unfolding taken_at_def
    by (rule traded_by_order [OF eff assms(7,8)])
      (use c(4) process_offer_core_pays [OF r] in \<open>auto simp: b va tout_def program_accounts_def Let_def\<close>)
  moreover have "take_offer_events e st a amount = Ok [Exchange (OfferTakenEvent (taken_at a r))]"
    by (simp add: take_offer_events_def chk r)
  ultimately show ?thesis by (intro exI [of _ "taken_at a r"]) simp
qed

lemma accrue_before_mint_balances:
  assumes "spl_laws spl" and "m_supply (k_token_out_mint a) = l_supply L (m_key (k_token_out_mint a))"
    and "accrue_before_mint e spl st a should mo ba L = Ok (accr, ba1, L1)" and "x \<notin> buffer_vaults ba"
  shows "l_bal L1 x = l_bal L x"
  using accrue_before_mint_effect [OF assms(1-3)]
proof (elim disjE exE conjE)
  fix r b b'
  assume "accrual_effect st (k_token_out_mint a) (t_key (ba_reserve_vault_onyc_account ba))
       (t_key (ba_management_fee_vault_onyc_account ba)) (t_key (ba_performance_fee_vault_onyc_account ba))
       (unix_timestamp e) b L r b' L1"
  then have "int (l_bal L1 x) = int (l_bal L x)"
    using assms(4) unfolding accrual_effect_def buffer_vaults_def by simp
  then show ?thesis by simp
qed simp

lemma take_offer_v2_traded:
  assumes laws: "spl_laws spl"
    and fresh: "m_supply (k_token_out_mint a) = l_supply (ow_ledger w) (m_key (k_token_out_mint a))"
    and ok: "take_offer_v2 e spl sv st a amount approval w = Ok w'"
  defines "tin \<equiv> m_key (k_token_in_mint a)" and "tout \<equiv> m_key (k_token_out_mint a)"
    and "ui \<equiv> get_associated_token_address_with_program_id e (k_user a) (m_key (k_token_in_mint a)) (k_token_in_program a)"
    and "uo \<equiv> get_associated_token_address_with_program_id e (k_user a) (m_key (k_token_out_mint a)) (k_token_out_program a)"
    and "S \<equiv> program_accounts e st (ow_buffer_accounts w) (m_key (k_token_in_mint a)) (k_token_in_program a)
      (m_key (k_token_out_mint a)) (k_token_out_program a)"
  assumes out: "{ui, uo} \<inter> S = {}" and "ui \<noteq> uo"
  shows "\<exists>pre t. take_offer_v2_events e spl sv st a amount approval w = Ok (pre @ [Exchange (OfferTakenEvent t)]) \<and>
    ot_user t = k_user a \<and> traded ui uo amount t (ow_ledger w) (ow_ledger w')"
proof -
  from ok obtain r should mo bps proceeds pv fee fv rdst refill user_out accr ba1 L1 where
    prep: "prepare_take_offer_v2 e sv st a amount approval (ow_buffer_accounts w) = Ok (r, should, mo, bps)"
    and pr: "get_or_create_configurable_vault_token_account e OfferProceeds (ow_proceeds_vault w)
      (k2_offer_proceeds_token_in_account a) tin (k_token_in_program a) = Ok (proceeds, pv)"
    and fe: "get_or_create_configurable_vault_token_account e OfferFee (ow_fee_vault w)
      (k2_offer_fee_token_in_account a) tin (k_token_in_program a) = Ok (fee, fv)"
    and rf: "redemption_refill e a (k2_redemption_vault_token_in_account a) (Some (ow_market_stats w)) bps
      (op_token_in_net_amount r) (ow_ledger w) = Ok (rdst, refill)"
    and uo': "get_or_create_associated_token_account e (k_user_token_out_account a) (k_user a) tout
      (k_token_out_program a) InvalidUserTokenOutAccount = Ok user_out"
    and acc: "accrue_before_mint e spl st a should mo (ow_buffer_accounts w) (ow_ledger w) = Ok (accr, ba1, L1)"
    and ex: "execute_token_operations spl (offer_order st a r (if accr \<noteq> None then reload L1 (k_token_out_mint a)
        else k_token_out_mint a) (k_user a) (t_key (k_user_token_in_account a)) proceeds rdst refill fee user_out) L1 =
      Ok (ow_ledger w')"
    unfolding take_offer_v2_def execute_take_offer_v2_def settle_take_offer_v2_def Let_def tin_def tout_def
      get_or_create_configurable_vault_token_account_pair_def
    by (auto split del: if_split)
  from prep obtain offer where chk: "check_take_offer_accounts e st None a = Ok offer"
    and va: "k_vault_authority a = pda e [Seed ''offer_vault_authority'']"
    and r: "process_offer_core e offer amount (k_token_in_mint a) (k_token_out_mint a) (o_fee_basis_points offer) = Ok r"
    by (rule prepare_take_offer_v2_Ok)
  note c = check_take_offer_accounts_Ok [OF chk]
  have u: "user_out = uo" "t_key (k_user_token_in_account a) = ui"
    using get_or_create_associated_token_account_Ok [OF uo'] c(5) by (simp_all add: ui_def uo_def tout_def)
  note eff = offer_order_effect(1) [OF laws _ _ ex, unfolded u process_offer_core_pays [OF r]]
  have bal: "x \<notin> buffer_vaults (ow_buffer_accounts w) \<Longrightarrow> int (l_bal (ow_ledger w') x) = int (l_bal (ow_ledger w) x)
      - part (x = ui) amount
      + part (\<not> program_controls_mint (k_token_in_mint a) (k_mint_authority a) \<and> rdst = Some x) refill
      + part (\<not> program_controls_mint (k_token_in_mint a) (k_mint_authority a) \<and> x = proceeds)
          (op_token_in_net_amount r - refill)
      + part (x = fee) (op_token_in_fee_amount r)
      - part (\<not> program_controls_mint (k_token_out_mint a) (k_mint_authority a) \<and>
          x = t_key (k_vault_token_out_account a)) (op_token_out_amount r)
      + part (x = uo) (op_token_out_amount r)" for x
    using eff [of x] accrue_before_mint_balances [OF laws fresh acc, of x] by simp
  have S: "buffer_vaults (ow_buffer_accounts w) \<union> set_option rdst \<union> {proceeds, fee, t_key (k_vault_token_out_account a)} \<subseteq> S"
    using redemption_refill_Ok [OF rf] configurable_vault_token_account_Ok [OF pr]
      configurable_vault_token_account_Ok [OF fe] c(4)
    by (auto simp: S_def program_accounts_def Let_def va tin_def)
  have "traded ui uo amount (taken_at a r) (ow_ledger w) (ow_ledger w')"
    unfolding taken_at_def by (rule traded_by_order [OF bal out \<open>ui \<noteq> uo\<close> S process_offer_core_pays [OF r]])
  moreover have "take_offer_v2_events e spl sv st a amount approval w =
      Ok (accrued mo (k_token_out_mint a) accr @ [Exchange (OfferTakenEvent (taken_at a r))])"
    by (simp add: take_offer_v2_events_def prep acc)
  ultimately show ?thesis by auto
qed

section \<open>Permissionless execution\<close>

text \<open>The part that both versions share; \<open>ba\<close> are the BUFFER's accounts, which only the second passes.\<close>

lemma permissionless_traded:
  assumes laws: "spl_laws spl" and fresh: "m_supply (k_token_out_mint a) = l_supply L (m_key (k_token_out_mint a))"
    and ok: "execute_take_offer_permissionless e spl st a offer amount pin dst fdst pout uo fo bo mr rr L = Ok (L', x)"
    and bo: "bo = None \<or> bo = Some ba"
    and ui: "t_key (k_user_token_in_account a) = ui"
    and S: "{ui, uo} \<inter> S = {}" "ui \<noteq> uo" "buffer_vaults ba \<union> {dst, fdst, t_key (k_vault_token_out_account a),
      get_associated_token_address_with_program_id e (pda e [Seed ''redemption_offer_vault_authority''])
        (m_key (k_token_in_mint a)) (k_token_in_program a)} \<subseteq> S"
  shows "\<exists>pre t. permissionless_events e spl st a offer amount fo bo mr L =
      Ok (pre @ [Exchange (OfferTakenPermissionlessEvent t)]) \<and> ot_user t = k_user a \<and> traded ui uo amount t L L'"
proof -
  from ok obtain r should mo accr bo1 L1 rdst refill where
    prep: "prepare_permissionless e st a offer amount fo bo mr = Ok (r, should, mo)"
    and acc: "(case bo of None \<Rightarrow> Ok (None, None, L)
       | Some ba \<Rightarrow> and_then (accrue_before_mint e spl st a should mo ba L) (\<lambda>(accrual, ba, L). Ok (accrual, Some ba, L))) =
       Ok (accr, bo1, L1)"
    and rf: "permissionless_refill_amount e a mr rr (op_token_in_net_amount r) L1 = Ok (rdst, refill)"
    and route: "route_permissionless spl st a r (if accr \<noteq> None then reload L1 (k_token_out_mint a)
        else k_token_out_mint a) amount pin dst fdst pout rdst refill uo L1 = Ok L'"
    unfolding execute_take_offer_permissionless_def Let_def by (auto split del: if_split)
  from prep have r: "process_offer_core e offer amount (k_token_in_mint a) (k_token_out_mint a)
      (case fo of Some bps \<Rightarrow> bps | None \<Rightarrow> o_fee_basis_points offer) = Ok r"
    unfolding prepare_permissionless_def by (auto split del: if_split split: option.splits)
  note pays = process_offer_core_pays [OF r]
  have keep: "x \<notin> buffer_vaults ba \<Longrightarrow> l_bal L1 x = l_bal L x" for x
    using acc bo accrue_before_mint_balances [OF laws fresh] by (auto split: option.splits)
  note eff = route_permissionless_effect(1) [OF laws _ _ pays route, unfolded ui]
  have bal: "x \<notin> buffer_vaults ba \<Longrightarrow> int (l_bal L' x) = int (l_bal L x)
      - part (x = ui) amount
      + part (\<not> program_controls_mint (k_token_in_mint a) (k_mint_authority a) \<and> rdst = Some x) refill
      + part (\<not> program_controls_mint (k_token_in_mint a) (k_mint_authority a) \<and> x = dst)
          (op_token_in_net_amount r - refill)
      + part (x = fdst) (op_token_in_fee_amount r)
      - part (\<not> program_controls_mint (k_token_out_mint a) (k_mint_authority a) \<and>
          x = t_key (k_vault_token_out_account a)) (op_token_out_amount r)
      + part (x = uo) (op_token_out_amount r)" for x
    using eff [of x] keep [of x] by simp
  have rdst: "set_option rdst \<subseteq> S"
    using rf S(3) redemption_refill_Ok
    by (fastforce simp: permissionless_refill_amount_def split: option.splits)
  have "traded ui uo amount (taken_at a r) L L'"
    unfolding taken_at_def by (rule traded_by_order [OF bal S(1,2) _ pays]) (use S(3) rdst in auto)
  moreover have "permissionless_events e spl st a offer amount fo bo mr L =
      Ok (accrued mo (k_token_out_mint a) accr @ [Exchange (OfferTakenPermissionlessEvent (taken_at a r))])"
    using acc prep by (cases bo) (auto simp: permissionless_events_def)
  ultimately show ?thesis by auto
qed

lemma check_permissionless_accounts_Ok:
  assumes "check_permissionless_accounts e st boss a = Ok offer"
  shows "t_key (k_user_token_in_account a) = get_associated_token_address_with_program_id e
      (k_user a) (m_key (k_token_in_mint a)) (k_token_in_program a)"
    and "t_key (k_vault_token_out_account a) = get_associated_token_address_with_program_id e
      (k_vault_authority a) (m_key (k_token_out_mint a)) (k_token_out_program a)"
    and "boss = Some b \<Longrightarrow> b = s_boss st"
  using assms unfolding check_permissionless_accounts_def Let_def by (auto simp: get_associated_token_account_Ok)

lemma take_offer_permissionless_traded:
  fixes ba :: buffer_accrual_accounts
  assumes laws: "spl_laws spl" and fresh: "m_supply (k_token_out_mint a) = l_supply L (m_key (k_token_out_mint a))"
    and ok: "take_offer_permissionless e spl st a amount approval L = Ok L'"
  defines "ui \<equiv> get_associated_token_address_with_program_id e (k_user a) (m_key (k_token_in_mint a)) (k_token_in_program a)"
    and "uo \<equiv> get_associated_token_address_with_program_id e (k_user a) (m_key (k_token_out_mint a)) (k_token_out_program a)"
    and "S \<equiv> program_accounts e st ba (m_key (k_token_in_mint a)) (k_token_in_program a)
      (m_key (k_token_out_mint a)) (k_token_out_program a)"
  assumes out: "{ui, uo} \<inter> S = {}" "ui \<noteq> uo"
  shows "\<exists>pre t. take_offer_permissionless_events e spl st a amount L =
      Ok (pre @ [Exchange (OfferTakenPermissionlessEvent t)]) \<and> ot_user t = k_user a \<and> traded ui uo amount t L L'"
proof -
  from ok obtain offer pin boss_in pout user_out x where
    chk: "check_permissionless_accounts e st (Some (kp_boss a)) a = Ok offer"
    and va: "k_vault_authority a = pda e [Seed ''offer_vault_authority'']"
    and bi: "get_associated_token_account e (kp_boss_token_in_account a) (kp_boss a)
         (m_key (k_token_in_mint a)) (k_token_in_program a) InvalidBossTokenInAccount = Ok boss_in"
    and uo': "get_or_create_associated_token_account e (k_user_token_out_account a) (k_user a)
         (m_key (k_token_out_mint a)) (k_token_out_program a) InvalidUserTokenOutAccount = Ok user_out"
    and ex: "execute_take_offer_permissionless e spl st a offer amount pin boss_in boss_in pout user_out
         None None None None L = Ok (L', x)"
    unfolding take_offer_permissionless_def by auto
  note c = check_permissionless_accounts_Ok [OF chk]
  have keys: "user_out = uo" "t_key (k_user_token_in_account a) = ui"
    using get_or_create_associated_token_account_Ok [OF uo'] c(1) by (simp_all add: ui_def uo_def)
  have "boss_in = get_associated_token_address_with_program_id e (s_boss st) (m_key (k_token_in_mint a)) (k_token_in_program a)"
    using bi c(3) [OF refl] by (simp add: get_associated_token_account_Ok)
  then have "buffer_vaults ba \<union> {boss_in, boss_in, t_key (k_vault_token_out_account a),
      get_associated_token_address_with_program_id e (pda e [Seed ''redemption_offer_vault_authority''])
        (m_key (k_token_in_mint a)) (k_token_in_program a)} \<subseteq> S"
    using c(2) by (auto simp: S_def program_accounts_def Let_def va)
  from permissionless_traded [OF laws fresh ex [unfolded keys] _ keys(2) out this] show ?thesis
    by (simp add: take_offer_permissionless_events_def chk)
qed

lemma take_offer_permissionless_v2_traded:
  assumes laws: "spl_laws spl"
    and fresh: "m_supply (k_token_out_mint a) = l_supply (ow_ledger w) (m_key (k_token_out_mint a))"
    and ok: "take_offer_permissionless_v2 e spl st a amount w = Ok w'"
  defines "ui \<equiv> get_associated_token_address_with_program_id e (k_user a) (m_key (k_token_in_mint a)) (k_token_in_program a)"
    and "uo \<equiv> get_associated_token_address_with_program_id e (k_user a) (m_key (k_token_out_mint a)) (k_token_out_program a)"
    and "S \<equiv> program_accounts e st (ow_buffer_accounts w) (m_key (k_token_in_mint a)) (k_token_in_program a)
      (m_key (k_token_out_mint a)) (k_token_out_program a)"
  assumes out: "{ui, uo} \<inter> S = {}" "ui \<noteq> uo"
  shows "\<exists>pre t. take_offer_permissionless_v2_events e spl st a amount w =
      Ok (pre @ [Exchange (OfferTakenPermissionlessEvent t)]) \<and> ot_user t = k_user a \<and>
      traded ui uo amount t (ow_ledger w) (ow_ledger w')"
proof -
  let ?mr = "Some \<lparr>pr_market_stats = ow_market_stats w, pr_excluded_balance = kp2_excluded_balance a,
    pr_main_offer = kp2_main_offer a\<rparr>"
  from ok obtain offer proceeds pv fee fv pin pout user_out rr x where
    chk: "check_permissionless_accounts e st None a = Ok offer"
    and pr: "get_or_create_configurable_vault_token_account e OfferProceeds (ow_proceeds_vault w)
         (kp2_offer_proceeds_token_in_account a) (m_key (k_token_in_mint a)) (k_token_in_program a) = Ok (proceeds, pv)"
    and fe: "get_or_create_configurable_vault_token_account e PermissionlessOfferFee (ow_fee_vault w)
         (kp2_permissionless_offer_fee_token_in_account a) (m_key (k_token_in_mint a)) (k_token_in_program a) = Ok (fee, fv)"
    and uo': "get_or_create_associated_token_account e (k_user_token_out_account a) (k_user a)
         (m_key (k_token_out_mint a)) (k_token_out_program a) InvalidUserTokenOutAccount = Ok user_out"
    and ex: "execute_take_offer_permissionless e spl st a offer amount pin proceeds fee pout user_out
         (Some (permissionless_fee_basis_points offer)) (Some (ow_buffer_accounts w)) ?mr rr (ow_ledger w) =
       Ok (ow_ledger w', x)"
    unfolding take_offer_permissionless_v2_def by (auto split del: if_split)
  note c = check_permissionless_accounts_Ok [OF chk]
  have keys: "user_out = uo" "t_key (k_user_token_in_account a) = ui"
    using get_or_create_associated_token_account_Ok [OF uo'] c(1) by (simp_all add: ui_def uo_def)
  have va: "k_vault_authority a = pda e [Seed ''offer_vault_authority'']"
    using ex by (auto simp: execute_take_offer_permissionless_def prepare_permissionless_def split del: if_split)
  have "buffer_vaults (ow_buffer_accounts w) \<union> {proceeds, fee, t_key (k_vault_token_out_account a),
      get_associated_token_address_with_program_id e (pda e [Seed ''redemption_offer_vault_authority''])
        (m_key (k_token_in_mint a)) (k_token_in_program a)} \<subseteq> S"
    using c(2) configurable_vault_token_account_Ok [OF pr] configurable_vault_token_account_Ok [OF fe]
    by (auto simp: S_def program_accounts_def Let_def va)
  from permissionless_traded [OF laws fresh ex [unfolded keys] _ keys(2) out this] show ?thesis
    by (simp add: take_offer_permissionless_v2_events_def chk)
qed

section \<open>Selling on the Prop AMM\<close>

lemma open_swap_sell_traded:
  assumes laws: "spl_laws spl"
    and fresh: "m_supply (ys_token_in_mint a) = l_supply (sw_ledger w) (m_key (ys_token_in_mint a))"
    and ok: "open_swap_sell e spl st a amount mn w = Ok w'"
  defines "ui \<equiv> get_associated_token_address_with_program_id e (ys_user a) (m_key (ys_token_in_mint a)) (ys_token_in_program a)"
    and "uo \<equiv> get_associated_token_address_with_program_id e (ys_user a) (m_key (ys_token_out_mint a)) (ys_token_out_program a)"
    and "S \<equiv> program_accounts e st (sw_buffer_accounts w) (m_key (ys_token_in_mint a)) (ys_token_in_program a)
      (m_key (ys_token_out_mint a)) (ys_token_out_program a)"
  assumes out: "{ui, uo} \<inter> S = {}" "ui \<noteq> uo"
  shows "\<exists>pre t. open_swap_sell_events e spl st a amount mn w = Ok (pre @ [Exchange (OfferTakenEvent t)]) \<and>
    ot_user t = ys_user a \<and> traded ui uo amount t (sw_ledger w) (sw_ledger w')"
proof -
  from ok obtain offer ps mo ms vault_out liq tk where
    chk: "check_open_swap_sell_accounts e st a w = Ok (offer, ps)"
    and ref: "refresh_before_sell e st a offer w = Ok (mo, ms, vault_out, liq)"
    and tk: "prepare_swap_sell_tokens e st a w = Ok tk"
    and settle: "settle_swap_sell e spl st a offer ps mo ms vault_out liq tk amount mn w = Ok w'"
    unfolding open_swap_sell_def execute_open_swap_sell_def by auto
  from settle_swap_sell_effect [OF laws fresh settle] obtain r n where
    price: "price_swap_sell e offer (ys_token_in_mint a) (ys_token_out_mint a) liq ps amount mn = Ok (r, n)"
    and bal: "\<And>x. x \<notin> buffer_vaults (sw_buffer_accounts w) \<Longrightarrow>
      int (l_bal (sw_ledger w') x) = int (l_bal (sw_ledger w) x)
        - part (x = st_user_in tk) amount
        + part (\<not> program_controls_mint (ys_token_in_mint a) (ys_mint_authority a) \<and> x = st_proceeds tk)
            (rp_token_in_net_amount r)
        + part (x = st_fee tk) (rp_token_in_fee_amount r) - part (x = vault_out) n + part (x = st_user_out tk) n"
    unfolding buffer_vaults_def by blast
  from settle obtain accr ba1 L1 where
    acc: "accrue_before_sell e spl st a mo (sw_buffer_accounts w) (sw_ledger w) = Ok (accr, ba1, L1)"
    unfolding settle_swap_sell_def by auto
  note keys = prepare_swap_sell_tokens_Ok [OF tk]
  have vo: "vault_out = get_associated_token_address_with_program_id e
      (pda e [Seed ''redemption_offer_vault_authority'']) (m_key (ys_token_out_mint a)) (ys_token_out_program a)"
    using ref by (auto simp: refresh_before_sell_def get_associated_token_account_Ok)
  have u: "st_user_in tk = ui" "st_user_out tk = uo" by (simp_all add: keys ui_def uo_def)
  let ?t = "taken (a_key (ys_offer a)) (rp_token_in_net_amount r) n (rp_token_in_fee_amount r) (ys_user a)"
  have "traded ui uo amount ?t (sw_ledger w) (sw_ledger w')"
    by (rule traded_by_order [where rdst = None and refill = 0 and mints = False and S = S, simplified, OF bal [unfolded u]])
      (use out vo keys price_swap_sell_Ok(4) [OF price] in \<open>auto simp: S_def program_accounts_def Let_def\<close>)
  moreover have "price_swap_sell e offer (if accr \<noteq> None then reload L1 (ys_token_in_mint a) else ys_token_in_mint a)
      (ys_token_out_mint a) liq ps amount mn = Ok (r, n)"
    using price by (simp add: price_swap_sell_def)
  then have "open_swap_sell_events e spl st a amount mn w =
      Ok (accrued (Some mo) (ys_token_in_mint a) accr @ [Exchange (OfferTakenEvent ?t)])"
    by (simp add: open_swap_sell_events_def chk ref acc)
  ultimately show ?thesis by auto
qed

section \<open>All exchanges\<close>

text \<open>The exchanges that are reported: user, amount, and the mint and token program of both sides.\<close>

fun exchange_of :: "instruction \<Rightarrow> (pubkey \<times> u64 \<times> pubkey \<times> pubkey \<times> pubkey \<times> pubkey) option" where
  "exchange_of (TakeOffer sv a amount approval) = Some (k_user a, amount, m_key (k_token_in_mint a),
     k_token_in_program a, m_key (k_token_out_mint a), k_token_out_program a)"
| "exchange_of (TakeOfferV2 sv a amount approval) = Some (k_user a, amount, m_key (k_token_in_mint a),
     k_token_in_program a, m_key (k_token_out_mint a), k_token_out_program a)"
| "exchange_of (TakeOfferPermissionless a amount approval) = Some (k_user a, amount, m_key (k_token_in_mint a),
     k_token_in_program a, m_key (k_token_out_mint a), k_token_out_program a)"
| "exchange_of (TakeOfferPermissionlessV2 a amount) = Some (k_user a, amount, m_key (k_token_in_mint a),
     k_token_in_program a, m_key (k_token_out_mint a), k_token_out_program a)"
| "exchange_of (OpenSwapSell a amount mn) = Some (ys_user a, amount, m_key (ys_token_in_mint a),
     ys_token_in_program a, m_key (ys_token_out_mint a), ys_token_out_program a)"
| "exchange_of _ = None"

fun taken_of :: "program_event \<Rightarrow> offer_taken option" where
  "taken_of (Exchange (OfferTakenEvent t)) = Some t"
| "taken_of (Exchange (OfferTakenPermissionlessEvent t)) = Some t"
| "taken_of _ = None"

lemma events_ofI: "\<exists>pre t. x = Ok (pre @ [Exchange (OfferTakenEvent t)]) \<and> P t \<Longrightarrow>
    \<exists>pre ev t. events_of x = pre @ [ev] \<and> taken_of ev = Some t \<and> P t"
  "\<exists>pre t. x = Ok (pre @ [Exchange (OfferTakenPermissionlessEvent t)]) \<and> P t \<Longrightarrow>
    \<exists>pre ev t. events_of x = pre @ [ev] \<and> taken_of ev = Some t \<and> P t"
  by (metis events_of_Ok taken_of.simps(1)) (metis events_of_Ok taken_of.simps(2))

lemma buffer_accounts_views [simp]:
  "ow_buffer_accounts (offer_view kind p) = pw_buffer_accounts p" "ow_ledger (offer_view kind p) = pw_ledger p"
  "sw_buffer_accounts (swap_view kind p) = pw_buffer_accounts p" "sw_ledger (swap_view kind p) = pw_ledger p"
  "pw_ledger (put_offer kind p w) = ow_ledger w" "pw_ledger (put_swap kind p sw) = sw_ledger sw"
  "pw_ledger (put_ledger p L) = L"
  by (simp_all add: view_defs put_defs)

lemma protocol_traded:
  assumes laws: "spl_laws spl" and ok: "exec_protocol spl env (now, ix) p = Ok p'"
    and ex: "exchange_of ix = Some (user, amount, tin, pin, tout, pout)"
  defines "e \<equiv> env\<lparr>unix_timestamp := now\<rparr>"
  defines "ui \<equiv> get_associated_token_address_with_program_id e user tin pin"
    and "uo \<equiv> get_associated_token_address_with_program_id e user tout pout"
  assumes out: "{ui, uo} \<inter> program_accounts e (pw_state p) (pw_buffer_accounts p) tin pin tout pout = {}" "ui \<noteq> uo"
  shows "\<exists>pre ev t. protocol_events spl env (now, ix) p = pre @ [ev] \<and> taken_of ev = Some t \<and>
    ot_user t = user \<and> traded ui uo amount t (pw_ledger p) (pw_ledger p')"
proof (cases ix)
  case (TakeOffer sv a n approval)
  let ?a = "a\<lparr>k_token_in_mint := reload (pw_ledger p) (k_token_in_mint a),
    k_token_out_mint := reload (pw_ledger p) (k_token_out_mint a)\<rparr>"
  from TakeOffer ok have "take_offer e spl sv (pw_state p) ?a n approval (pw_ledger p) = Ok (pw_ledger p')"
    by (auto simp: update_Ok Let_def e_def put_ledger_def)
  from take_offer_traded [OF laws this] obtain t where
    "take_offer_events e (pw_state p) ?a n = Ok [Exchange (OfferTakenEvent t)]" "ot_user t = user"
    "traded ui uo amount t (pw_ledger p) (pw_ledger p')"
    using ex out TakeOffer by (auto simp: ui_def uo_def)
  then show ?thesis using TakeOffer
    by (intro exI [of _ "[]"] exI [of _ "Exchange (OfferTakenEvent t)"] exI [of _ t]) (simp add: Let_def e_def)
next
  case (TakeOfferV2 sv a n approval)
  let ?a = "a\<lparr>k_token_in_mint := reload (pw_ledger p) (k_token_in_mint a),
    k_token_out_mint := reload (pw_ledger p) (k_token_out_mint a)\<rparr>" and ?w = "offer_view OfferFee p"
  from TakeOfferV2 ok obtain w' where x: "take_offer_v2 e spl sv (pw_state p) ?a n approval ?w = Ok w'"
    and p': "pw_ledger p' = ow_ledger w'" by (auto simp: update_Ok Let_def e_def)
  have "m_supply (k_token_out_mint ?a) = l_supply (ow_ledger ?w) (m_key (k_token_out_mint ?a))" by simp
  from events_ofI(1) [OF take_offer_v2_traded [OF laws this x]] show ?thesis
    using ex out TakeOfferV2 by (simp add: ui_def uo_def p') (simp add: Let_def e_def)
next
  case (TakeOfferPermissionless a n approval)
  let ?a = "a\<lparr>k_token_in_mint := reload (pw_ledger p) (k_token_in_mint a),
    k_token_out_mint := reload (pw_ledger p) (k_token_out_mint a)\<rparr>"
  from TakeOfferPermissionless ok have
    x: "take_offer_permissionless e spl (pw_state p) ?a n approval (pw_ledger p) = Ok (pw_ledger p')"
    by (auto simp: update_Ok Let_def e_def put_ledger_def)
  have "m_supply (k_token_out_mint ?a) = l_supply (pw_ledger p) (m_key (k_token_out_mint ?a))" by simp
  from events_ofI(2) [OF take_offer_permissionless_traded [OF laws this x, of "pw_buffer_accounts p"]] show ?thesis
    using ex out TakeOfferPermissionless by (simp add: ui_def uo_def) (simp add: Let_def e_def)
next
  case (TakeOfferPermissionlessV2 a n)
  let ?a = "a\<lparr>k_token_in_mint := reload (pw_ledger p) (k_token_in_mint a),
    k_token_out_mint := reload (pw_ledger p) (k_token_out_mint a)\<rparr>" and ?w = "offer_view PermissionlessOfferFee p"
  from TakeOfferPermissionlessV2 ok obtain w' where
    x: "take_offer_permissionless_v2 e spl (pw_state p) ?a n ?w = Ok w'"
    and p': "pw_ledger p' = ow_ledger w'" by (auto simp: update_Ok Let_def e_def)
  have "m_supply (k_token_out_mint ?a) = l_supply (ow_ledger ?w) (m_key (k_token_out_mint ?a))" by simp
  from events_ofI(2) [OF take_offer_permissionless_v2_traded [OF laws this x]] show ?thesis
    using ex out TakeOfferPermissionlessV2 by (simp add: ui_def uo_def p') (simp add: Let_def e_def)
next
  case (OpenSwapSell a n mn)
  let ?a = "a\<lparr>ys_token_in_mint := reload (pw_ledger p) (ys_token_in_mint a),
    ys_token_out_mint := reload (pw_ledger p) (ys_token_out_mint a)\<rparr>" and ?w = "swap_view PropAmmSellFee p"
  from OpenSwapSell ok obtain w' where x: "open_swap_sell e spl (pw_state p) ?a n mn ?w = Ok w'"
    and p': "pw_ledger p' = sw_ledger w'" by (auto simp: update_Ok Let_def e_def)
  have "m_supply (ys_token_in_mint ?a) = l_supply (sw_ledger ?w) (m_key (ys_token_in_mint ?a))" by simp
  from events_ofI(1) [OF open_swap_sell_traded [OF laws this x]] show ?thesis
    using ex out OpenSwapSell by (simp add: ui_def uo_def p') (simp add: Let_def e_def)
qed (use ex in simp_all)

lemma bind_exchange: "bind_accounts e P ix = Ok ix' \<Longrightarrow> exchange_of ix' = exchange_of ix"
  by (cases "(e, P, ix)" rule: bind_governance.cases) (auto simp: bind_accounts_def bind_take_def)

text \<open>
  C19: The event of an exchange is true. Whenever a direct or permissionless offer, in either version,
  or a sell on the Prop AMM goes through, the last event of the call names the user, and its net
  amount and fee together are what left the user's account of the paid token, its output what
  arrived in the user's account of the other one: the accruals, refills and detours of the
  execution do not show in it. The user's two accounts are distinct and none of the program's own.
\<close>

theorem exchange_event_is_true:
  assumes laws: "spl_laws (rt_spl rt)" and ok: "exec_entry rt (now, Existing ix) P = Ok P'"
    and ex: "exchange_of ix = Some (user, amount, tin, pin, tout, pout)"
  defines "e \<equiv> runtime_at rt now"
  defines "ui \<equiv> get_associated_token_address_with_program_id e user tin pin"
    and "uo \<equiv> get_associated_token_address_with_program_id e user tout pout"
    and "L \<equiv> pw_ledger (pg_core P)" and "L' \<equiv> pw_ledger (pg_core P')"
  assumes out: "{ui, uo} \<inter> program_accounts e (pw_state (pg_core P)) (pw_buffer_accounts (pg_core P)) tin pin tout pout = {}"
    and "ui \<noteq> uo"
  shows "\<exists>pre ev t. program_events rt (now, Existing ix) P = pre @ [ev] \<and> taken_of ev = Some t \<and> ot_user t = user \<and>
    ot_token_in_amount t + ot_fee_amount t = amount \<and> l_bal L ui = l_bal L' ui + amount \<and>
    l_bal L' uo = l_bal L uo + ot_token_out_amount t"
proof -
  from ok obtain ix' p where ix': "bind_accounts e P ix = Ok ix'"
    and p: "exec_protocol (rt_spl rt) (rt_env rt) (now, ix') (pg_core P) = Ok p" and P': "P' = P\<lparr>pg_core := p\<rparr>"
    by (auto simp: entry_existing_def Let_def e_def simp del: exec_protocol.simps)
  have ex': "exchange_of ix' = Some (user, amount, tin, pin, tout, pout)" using bind_exchange [OF ix'] ex by simp
  have ev: "program_events rt (now, Existing ix) P = protocol_events (rt_spl rt) (rt_env rt) (now, ix') (pg_core P)"
    using ix' by (simp add: e_def del: protocol_events.simps)
  show ?thesis
    using protocol_traded [OF laws p ex'] out \<open>ui \<noteq> uo\<close>
    unfolding ev by (simp add: traded_def e_def runtime_at_def ui_def uo_def L_def L'_def P' del: protocol_events.simps)
qed

theorem exchange_event_is_true_witness:
  "\<exists>P' (t :: offer_taken). exec_entry sample_runtime (5000, Existing (TakeOffer sample_sysvar sample_direct 1000 None)) sample_market = Ok P' \<and>
     ot_token_in_amount t + ot_fee_amount t = 1000 \<and> l_bal (pw_ledger (pg_core P')) 1081 = 0 \<and>
     l_bal (pw_ledger (pg_core P')) 1082 = ot_token_out_amount t"
proof -
  obtain P' where ok: "exec_entry sample_runtime (5000, Existing (TakeOffer sample_sysvar sample_direct 1000 None))
      sample_market = Ok P'"
    using sample_market_take by blast
  have laws: "spl_laws (rt_spl sample_runtime)" using plain_token_program_laws by (simp add: sample_runtime_def)
  have e: "runtime_at sample_runtime 5000 = sample_env" by (simp add: runtime_at_def sample_runtime_def sample_env_def)
  have ex: "exchange_of (TakeOffer sample_sysvar sample_direct 1000 None) = Some (6, 1000, 21, 9, 22, 9)"
    by (simp add: sample_direct_def)
  have out: "{1081, 1082} \<inter> program_accounts sample_env (pw_state (pg_core sample_market))
      (pw_buffer_accounts (pg_core sample_market)) 21 9 22 9 = {}"
    by (auto simp: program_accounts_def buffer_vaults_def Let_def sample_market_def sample_live_def sample_opened_def
        sample_deployment_def sample_protocol_def sample_world_def sample_token_def sample_config_def zero_state_def)
  have bal: "l_bal (pw_ledger (pg_core sample_market)) 1081 = 1000" "l_bal (pw_ledger (pg_core sample_market)) 1082 = 0"
    by (simp_all add: sample_market_def)
  have "\<exists>pre ev t. program_events sample_runtime (5000, Existing (TakeOffer sample_sysvar sample_direct 1000 None))
      sample_market = pre @ [ev] \<and> taken_of ev = Some t \<and> ot_user t = 6 \<and> ot_token_in_amount t + ot_fee_amount t = 1000 \<and>
      1000 = l_bal (pw_ledger (pg_core P')) 1081 + 1000 \<and> l_bal (pw_ledger (pg_core P')) 1082 = 0 + ot_token_out_amount t"
    using exchange_event_is_true [OF laws ok ex, unfolded e] out
    by (simp add: bal del: exec_entry.simps program_events.simps)
  then show ?thesis using ok by (simp del: exec_entry.simps program_events.simps) blast
qed

end
