(* ===== verification/Pricing_Bounds.thy ===== *)
theory Pricing_Bounds
  imports Offer_Admin
begin

text \<open>
  When a price exists. Every multiplication of the price computation (\<open>offer/offer_utils.rs\<close>) and of
  the power loop under it (\<open>utils/math_utils.rs\<close>) is checked, and a failed check leaves an offer
  without a price. The theory shows that the loop always runs to its result as long as the
  compounded growth stays below a fixed factor, and derives limits on yield, age and base price
  within which every vector has a price.
\<close>

section \<open>The power loop runs to its result\<close>

text \<open>
  A fixed-point value, enlarged by half a unit in the last place. Enlarged values are
  submultiplicative under the rounding multiplication, so the enlarged exact power bounds every
  intermediate product of the loop.
\<close>

definition enlarged :: "nat \<Rightarrow> nat \<Rightarrow> real" where
  "enlarged s a = real a / real s * (1 + half_ulp s)"

lemma enlarged_ge:
  assumes "0 < s"
  shows "real a / real s \<le> enlarged s a" and "s \<le> a \<Longrightarrow> 1 \<le> enlarged s a"
proof -
  have h: "1 \<le> 1 + half_ulp s" using assms by simp
  show ge: "real a / real s \<le> enlarged s a"
    unfolding enlarged_def using h mult_left_mono [OF h, of "real a / real s"] by simp
  assume "s \<le> a"
  then have "1 \<le> real a / real s" using assms by simp
  then show "1 \<le> enlarged s a" using ge by linarith
qed

lemma enlarged_mul:
  assumes "mul_div_round_u128 a b s = Some r" and "s \<le> a" and "s \<le> b" and "even s" and "0 < s"
  shows "enlarged s r \<le> enlarged s a * enlarged s b"
proof -
  have "real r / real s \<le> real a * (real b / real s) * (1 + half_ulp s) / real s"
    by (rule divide_right_mono [OF mul_div_round_relative_error(2) [OF assms(1-4)]]) simp
  then have "enlarged s r \<le> real a * (real b / real s) * (1 + half_ulp s) / real s * (1 + half_ulp s)"
    unfolding enlarged_def using assms(5) by (intro mult_right_mono) simp_all
  also have "\<dots> = enlarged s a * enlarged s b" by (simp add: enlarged_def)
  finally show ?thesis .
qed

text \<open>The factor below which all products fit.\<close>

definition growth_fits :: "nat \<Rightarrow> real \<Rightarrow> bool" where
  "growth_fits s K \<longleftrightarrow> even s \<and> 0 < s \<and> K * real s * real s + real s / 2 \<le> real u128_max"

lemma mul_round_total:
  assumes "growth_fits s K" and "enlarged s a * enlarged s b \<le> K" and "s \<le> a" and "s \<le> b"
  obtains r where "mul_div_round_u128 a b s = Some r" and "s \<le> r" and "a \<le> r"
    and "enlarged s r \<le> enlarged s a * enlarged s b"
proof -
  have s: "even s" "0 < s" and fits: "K * real s * real s + real s / 2 \<le> real u128_max"
    using assms(1) by (auto simp: growth_fits_def)
  have "real a / real s * (real b / real s) \<le> enlarged s a * enlarged s b"
    using enlarged_ge(1) [OF s(2)] enlarged_ge(2) [OF s(2)] assms(3,4) by (intro mult_mono) (simp_all add: order_trans [of 0 1])
  with assms(2) have "real a / real s * (real b / real s) \<le> K" by linarith
  then have "real a * real b \<le> K * real s * real s" using s(2) by (simp add: field_simps)
  with fits have "real (a * b + s div 2) \<le> real u128_max"
    using s(1) by (simp add: real_of_nat_div)
  then have "a * b + s div 2 \<le> u128_max" by (simp only: of_nat_le_iff)
  then have r: "mul_div_round_u128 a b s = Some ((a * b + s div 2) div s)"
    using s(2) by (simp add: mul_div_round_eq_Some)
  show ?thesis
    by (rule that [OF r _ mul_div_round_ge [OF r assms(4)] enlarged_mul [OF r assms(3,4) s]])
      (rule le_trans [OF assms(3) mul_div_round_ge [OF r assms(4)]])
qed

lemma pow_loop_total:
  assumes K: "growth_fits s K"
  shows "s \<le> acc \<Longrightarrow> s \<le> base \<Longrightarrow> enlarged s acc * enlarged s base ^ e \<le> K \<Longrightarrow>
    \<exists>r. pow_fixed_loop s acc base e = Some r \<and> enlarged s r \<le> enlarged s acc * enlarged s base ^ e"
proof (induction e arbitrary: acc base rule: less_induct)
  case (less e)
  have s: "0 < s" using K by (simp add: growth_fits_def)
  let ?A = "enlarged s acc" and ?B = "enlarged s base" and ?h = "e div 2"
  have one: "1 \<le> ?A" "1 \<le> ?B" using enlarged_ge(2) [OF s] less.prems by simp_all
  show ?case
  proof (cases "e = 0")
    case False
    define o' where "o' = e mod 2"
    have e: "e = 2 * ?h + o'" by (simp add: o'_def)
    have bound: "?A * ?B ^ k \<le> K" if "k \<le> e" for k
      using less.prems(3) mult_left_mono [OF power_increasing [OF that one(2)], of ?A] one(1) by linarith
    obtain acc' where acc': "(if odd e then mul_div_round_u128 acc base s else Some acc) = Some acc'" "s \<le> acc'"
      "enlarged s acc' \<le> ?A * ?B ^ o'"
    proof (cases "odd e")
      case True
      then have "o' = 1" by (simp add: o'_def odd_iff_mod_2_eq_one)
      with True that mul_round_total [OF K _ less.prems(1,2)] bound [of 1] False show ?thesis by auto
    qed (use that less.prems(1) in \<open>simp add: o'_def even_iff_mod_2_eq_zero\<close>)
    obtain base' where base': "(if ?h > 0 then mul_div_round_u128 base base s else Some base) = Some base'" "s \<le> base'"
      "enlarged s base' ^ ?h \<le> (?B * ?B) ^ ?h"
    proof (cases "?h > 0")
      case True
      have "?B * ?B \<le> ?A * ?B ^ 2" using one by (simp add: power2_eq_square mult_le_cancel_right1)
      also have "\<dots> \<le> K" using bound [of 2] True by simp
      finally obtain b' where "mul_div_round_u128 base base s = Some b'" "s \<le> b'" "enlarged s b' \<le> ?B * ?B"
        using mul_round_total [OF K _ less.prems(2,2)] by metis
      moreover from this have "enlarged s b' ^ ?h \<le> (?B * ?B) ^ ?h"
        using enlarged_ge(2) [OF s, of b'] by (intro power_mono) simp_all
      ultimately show ?thesis using that True by simp
    qed (use that less.prems(2) in simp)
    have "enlarged s acc' * enlarged s base' ^ ?h \<le> ?A * ?B ^ o' * (?B * ?B) ^ ?h"
      using acc'(3) base'(3) one enlarged_ge(2) [OF s base'(2)] by (intro mult_mono) simp_all
    also have "\<dots> = ?A * ?B ^ e"
      using arg_cong [OF e, of "\<lambda>k. ?B ^ k"] by (simp add: power_add power_mult power2_eq_square)
    finally have step: "enlarged s acc' * enlarged s base' ^ ?h \<le> ?A * ?B ^ e" .
    have "?h < e" using False by simp
    then obtain r where "pow_fixed_loop s acc' base' ?h = Some r"
      "enlarged s r \<le> enlarged s acc' * enlarged s base' ^ ?h"
      using less.IH [OF _ acc'(2) base'(2)] order_trans [OF step less.prems(3)] by blast
    then show ?thesis using acc'(1) base'(1) False step by (subst pow_fixed_loop.simps) auto
  qed simp
qed

lemma pow_fixed_total:
  assumes K: "growth_fits s K" and "s \<le> base" and "enlarged s s * enlarged s base ^ e \<le> K"
  obtains r where "pow_fixed base e s = Some r" and "s \<le> r" and "real r \<le> K * real s"
proof -
  have s: "0 < s" using K by (simp add: growth_fits_def)
  obtain r where r: "pow_fixed base e s = Some r" "enlarged s r \<le> K"
    using pow_loop_total [OF K le_refl assms(2,3)] assms(3) by (auto simp: pow_fixed_def)
  have "real r / real s \<le> K" using enlarged_ge(1) [OF s, of r] r(2) by linarith
  then show ?thesis
    using that [OF r(1) pow_fixed_ge_scale [OF r(1) assms(2)]] s by (simp add: field_simps)
qed

section \<open>Prices exist\<close>

text \<open>Five years of 365 days; the growth of a yield of 100 percent over that time, rounded up.\<close>

definition FIVE_YEARS_IN_DAYS :: nat where "FIVE_YEARS_IN_DAYS = 1825"

definition MAX_GROWTH :: nat where "MAX_GROWTH = 148"

lemma daily_factor_small:
  assumes "daily_factor_of apr = Ok f" and "apr \<le> 1000000"
  shows "INT_SCALE \<le> f" and "f \<le> 1002739726027397261"
proof -
  show "INT_SCALE \<le> f" by (rule daily_factor_Ok(2) [OF assms(1)])
  have "INT_SCALE * apr + 182500000 \<le> 1000000000000000182500000" using assms(2) by (simp add: INT_SCALE_def)
  then have "(INT_SCALE * apr + 182500000) div 365000000 \<le> 1000000000000000182500000 div 365000000"
    by (rule div_le_mono)
  then show "f \<le> 1002739726027397261" using daily_factor_Ok(1) [OF assms(1)] by (simp add: INT_SCALE_def)
qed

lemma enlarged_factor_small: "f \<le> 1002739726027397261 \<Longrightarrow> enlarged INT_SCALE f \<le> 50137 / 50000"
  by (simp add: enlarged_def INT_SCALE_def)

lemma five_year_growth: "(50137 / 50000 :: real) ^ 1825 \<le> 14775 / 100"
proof -
  have "(50137 / 50000 :: real) ^ 25 \<le> 107081 / 100000" by (simp add: power_divide)
  then have "((50137 / 50000 :: real) ^ 25) ^ 73 \<le> (107081 / 100000) ^ 73" by (intro power_mono) simp_all
  also have "\<dots> \<le> 14775 / 100" by (simp add: power_divide)
  finally show ?thesis by (simp flip: power_mult)
qed

lemma price_growth_fits: "growth_fits INT_SCALE (real MAX_GROWTH)"
  by (simp add: growth_fits_def MAX_GROWTH_def INT_SCALE_def int_defs)

lemma full_day_factor_total:
  assumes f: "daily_factor_of apr = Ok f" and "apr \<le> 1000000" and "days \<le> FIVE_YEARS_IN_DAYS"
  obtains fdf where "pow_fixed f days INT_SCALE = Some fdf" and "INT_SCALE \<le> fdf" and "fdf \<le> MAX_GROWTH * INT_SCALE"
proof -
  let ?B = "enlarged INT_SCALE f"
  have B: "1 \<le> ?B" using enlarged_ge(2) [of INT_SCALE f] daily_factor_small(1) [OF f assms(2)] by simp
  have "?B ^ days \<le> ?B ^ 1825" using assms(3) B by (intro power_increasing) (simp_all add: FIVE_YEARS_IN_DAYS_def)
  also have "\<dots> \<le> (50137 / 50000) ^ 1825"
    using enlarged_factor_small [OF daily_factor_small(2) [OF f assms(2)]] B by (intro power_mono) simp_all
  also note five_year_growth
  finally have P: "?B ^ days \<le> 14775 / 100" .
  have "enlarged INT_SCALE INT_SCALE \<le> 1001 / 1000" by (simp add: enlarged_def INT_SCALE_def)
  then have "enlarged INT_SCALE INT_SCALE * ?B ^ days \<le> 1001 / 1000 * (14775 / 100)"
    using P B by (intro mult_mono) simp_all
  also have "\<dots> \<le> real MAX_GROWTH" by (simp add: MAX_GROWTH_def)
  finally obtain r where "pow_fixed f days INT_SCALE = Some r" "INT_SCALE \<le> r" "real r \<le> real MAX_GROWTH * real INT_SCALE"
    by (rule pow_fixed_total [OF price_growth_fits daily_factor_small(1) [OF f assms(2)]])
  then show ?thesis by (intro that) (simp_all flip: of_nat_mult)
qed

lemma mul_round_up:
  assumes "a * b + s div 2 \<le> u128_max" and "0 < s"
  shows "mul_div_round_u128 a b s = Some ((a * b + s div 2) div s)"
  using assms by (simp add: mul_div_round_eq_Some)

text \<open>The price at the start of a day, and the price a day later.\<close>

lemma full_day_price_total:
  assumes "fdf \<le> MAX_GROWTH * INT_SCALE" and "bp \<le> 100000000000000000"
  obtains fdp where "mul_div_round_u128 bp fdf INT_SCALE = Some fdp" and "fdp \<le> 14800000000000000000"
proof -
  have "bp * fdf \<le> 100000000000000000 * (MAX_GROWTH * INT_SCALE)" using assms by (intro mult_le_mono)
  then have n: "bp * fdf + INT_SCALE div 2 \<le> 14800000000000000000500000000000000000"
    by (simp add: MAX_GROWTH_def INT_SCALE_def)
  then have "mul_div_round_u128 bp fdf INT_SCALE = Some ((bp * fdf + INT_SCALE div 2) div INT_SCALE)"
    by (intro mul_round_up) (simp_all add: int_defs)
  moreover have "(bp * fdf + INT_SCALE div 2) div INT_SCALE \<le> 14800000000000000000500000000000000000 div INT_SCALE"
    using n by (rule div_le_mono)
  ultimately show ?thesis by (intro that) (simp_all add: INT_SCALE_def)
qed

lemma next_day_price_total:
  assumes "fdp \<le> 14800000000000000000" and "INT_SCALE \<le> f" and "f \<le> 1002739726027397261"
  obtains ndp where "mul_div_round_u128 fdp f INT_SCALE = Some ndp" and "fdp \<le> ndp" and "ndp \<le> u64_max"
proof -
  have "fdp * f \<le> 14800000000000000000 * 1002739726027397261" using assms by (intro mult_le_mono)
  then have n: "fdp * f + INT_SCALE div 2 \<le> 14840548445205479465000000000000000000"
    by (simp add: INT_SCALE_def)
  then have r: "mul_div_round_u128 fdp f INT_SCALE = Some ((fdp * f + INT_SCALE div 2) div INT_SCALE)"
    by (intro mul_round_up) (simp_all add: int_defs)
  have "(fdp * f + INT_SCALE div 2) div INT_SCALE \<le> 14840548445205479465000000000000000000 div INT_SCALE"
    using n by (rule div_le_mono)
  also have "\<dots> \<le> u64_max" by (simp add: INT_SCALE_def int_defs)
  finally show ?thesis by (rule that [OF r mul_div_round_ge [OF r assms(2)]])
qed

lemma vector_price_total:
  assumes "apr \<le> 1000000" and "bp \<le> 100000000000000000" and "elapsed \<le> FIVE_YEARS_IN_DAYS * SECONDS_IN_DAY"
  obtains p where "calculate_vector_price apr bp elapsed = Ok p"
proof (cases "apr = 0 \<or> elapsed = 0")
  case True
  then show ?thesis by (intro that) (auto simp: calculate_vector_price_def)
next
  case False
  let ?days = "elapsed div SECONDS_IN_DAY" and ?rest = "elapsed mod SECONDS_IN_DAY"
  obtain f where f: "daily_factor_of apr = Ok f" using daily_factor_total [of apr] assms(1) by (auto simp: int_defs)
  have "?days \<le> FIVE_YEARS_IN_DAYS * SECONDS_IN_DAY div SECONDS_IN_DAY" using assms(3) by (rule div_le_mono)
  then have "?days \<le> FIVE_YEARS_IN_DAYS" by simp
  then obtain fdf where fdf: "pow_fixed f ?days INT_SCALE = Some fdf" "fdf \<le> MAX_GROWTH * INT_SCALE"
    by (rule full_day_factor_total [OF f assms(1)])
  obtain fdp where fdp: "mul_div_round_u128 bp fdf INT_SCALE = Some fdp" "fdp \<le> 14800000000000000000"
    by (rule full_day_price_total [OF fdf(2) assms(2)])
  obtain ndp where ndp: "mul_div_round_u128 fdp f INT_SCALE = Some ndp" "fdp \<le> ndp" "ndp \<le> u64_max"
    by (rule next_day_price_total [OF fdp(2) daily_factor_small [OF f assms(1)]])
  have rest: "?rest \<le> SECONDS_IN_DAY" by simp
  have "(ndp - fdp) * ?rest \<le> u64_max * SECONDS_IN_DAY" using ndp(3) rest by (intro mult_le_mono) simp_all
  then have "(ndp - fdp) * ?rest + SECONDS_IN_DAY div 2 \<le> u128_max" by (simp add: int_defs SECONDS_IN_DAY_def)
  then have d: "mul_div_round_u128 (ndp - fdp) ?rest SECONDS_IN_DAY =
      Some (((ndp - fdp) * ?rest + SECONDS_IN_DAY div 2) div SECONDS_IN_DAY)" (is "_ = Some ?delta")
    by (intro mul_round_up) simp_all
  have "?delta \<le> ndp - fdp" by (rule mul_div_round_le [OF d rest]) simp
  then have "fdp + ?delta \<le> u64_max" using ndp(2,3) by linarith
  moreover have "u64_max \<le> u128_max" by (simp add: int_defs)
  moreover have "fdp \<le> u64_max" using ndp by linarith
  ultimately have "\<exists>p. calculate_vector_price apr bp elapsed = Ok p"
    using False f fdf(1) fdp(1) ndp(1,2) d
    by (simp add: calculate_vector_price_def Let_def checked_sub_def checked_add_def not_less)
  then show ?thesis using that by blast
qed

text \<open>
  C11: The price computation always ends in a price: at every time at which a vector is active and
  its base time has come, a yield of at most 100 percent, a base price of at most 100,000,000 (with
  nine decimals) and a current price interval that ends within five years of the base time
  guarantee a result, which is at least the base price and fits in 64 bits. No intermediate product
  of the power loop or of the interpolation overflows. (Before the base time an active vector has
  no price at all.)
\<close>

theorem price_exists_for_five_years:
  assumes "vectors_ok offer" and "find_active_vector_at offer t = Ok v" and "v_base_time v \<le> t"
    and "v_apr v \<le> 1000000" and "v_base_price v \<le> 100000000000000000"
    and "((t - v_base_time v) div v_price_fix_duration v + 1) * v_price_fix_duration v
      \<le> FIVE_YEARS_IN_DAYS * SECONDS_IN_DAY"
  shows "\<exists>p. compute_offer_current_price offer t = Ok p \<and> v_base_price v \<le> p \<and> p \<le> u64_max"
proof -
  let ?d = "v_price_fix_duration v" and ?el = "t - v_base_time v"
  have d: "0 < ?d" by (rule active_vector_ok(3) [OF assms(1,2)])
  note stp = assms(6)
  then have fits: "(?el div ?d + 1) * ?d \<le> u64_max" by (simp add: FIVE_YEARS_IN_DAYS_def SECONDS_IN_DAY_def int_defs)
  have "?el div ?d + 1 \<le> (?el div ?d + 1) * ?d" using mult_le_mono2 [of 1 ?d "?el div ?d + 1"] d by simp
  then have k: "?el div ?d + 1 \<le> u64_max" using fits by linarith
  obtain p where p: "calculate_vector_price (v_apr v) (v_base_price v) ((?el div ?d + 1) * ?d) = Ok p"
    by (rule vector_price_total [OF assms(4,5) stp])
  have "compute_vector_price_at_time v t = Ok p"
    using assms(3) d k fits p
    by (simp add: compute_vector_price_at_time_def calculate_step_price_at_def Let_def saturating_sub_def
        checked_div_def checked_add_def checked_mul_def del: add_Suc_right)
  then have "compute_offer_current_price offer t = Ok p" using assms(2) by (auto simp: current_price_Ok)
  moreover have "v_base_price v \<le> u64_max" using assms(5) by (simp add: int_defs)
  ultimately show ?thesis using vector_price_ge_base [OF p] vector_price_le_u64_max [OF p] by blast
qed

theorem price_exists_for_five_years_witness:
  "\<exists>p. compute_offer_current_price sample_offer 100001000 = Ok p \<and> 1000000000 \<le> p \<and> p \<le> u64_max"
proof -
  have "vectors_ok sample_offer"
    by (simp add: vectors_ok_def vector_ok_def sample_offer_def sample_vector_def default_vector_def)
  moreover have "find_active_vector_at sample_offer 100001000 = Ok sample_vector" by (rule sample_active) simp
  ultimately have "\<exists>p. compute_offer_current_price sample_offer 100001000 = Ok p \<and> v_base_price sample_vector \<le> p \<and>
      p \<le> u64_max"
    by (rule price_exists_for_five_years)
      (simp_all add: sample_vector_def FIVE_YEARS_IN_DAYS_def SECONDS_IN_DAY_def)
  then show ?thesis by (simp add: sample_vector_def)
qed

end
