(* ===== verification/Unit_Tests.thy ===== *)
theory Unit_Tests
  imports Offer_Exec
begin

text \<open>
  The unit tests that stand beside the functions in the sources, as predicates on the model: a
  test holds when none of its assertions fails. \<open>unwrap\<close> on an error is a failed assertion. Keys
  from \<open>Pubkey::new_unique\<close> are numbers that differ from each other; the clock that
  \<open>process_offer_core_at\<close> reads besides its argument is arbitrary.
\<close>

section \<open>Pricing and the offer core\<close>

definition offer_for_test :: "pubkey \<Rightarrow> pubkey \<Rightarrow> u16 \<Rightarrow> offer_vector \<Rightarrow> offer" where
  "offer_for_test token_in_mint token_out_mint fee_basis_points vector =
     zero_offer\<lparr>o_token_in_mint := token_in_mint, o_token_out_mint := token_out_mint,
       o_fee_basis_points := fee_basis_points, o_vectors := (o_vectors zero_offer)[0 := vector]\<rparr>"

definition active_vector_for_test :: offer_vector where
  "active_vector_for_test = \<lparr>v_start_time = 1, v_base_time = 1, v_base_price = 1000000000, v_apr = 0,
     v_price_fix_duration = SECONDS_IN_DAY\<rparr>"

definition process_offer_core_rejects_invalid_token_in_mint :: "env \<Rightarrow> bool" where
  "process_offer_core_rejects_invalid_token_in_mint e \<longleftrightarrow>
     (let offer = offer_for_test 1 2 0 active_vector_for_test in
      \<not> is_ok (process_offer_core_at e offer 1000000 3 6 2 6 1 (o_fee_basis_points offer)))"

definition process_offer_core_rejects_invalid_token_out_mint :: "env \<Rightarrow> bool" where
  "process_offer_core_rejects_invalid_token_out_mint e \<longleftrightarrow>
     (let offer = offer_for_test 1 2 0 active_vector_for_test in
      \<not> is_ok (process_offer_core_at e offer 1000000 1 6 3 6 1 (o_fee_basis_points offer)))"

definition process_offer_core_rejects_invalid_fee_basis_points :: "env \<Rightarrow> bool" where
  "process_offer_core_rejects_invalid_fee_basis_points e \<longleftrightarrow>
     (let offer = offer_for_test 1 2 (MAX_BASIS_POINTS + 1) active_vector_for_test in
      \<not> is_ok (process_offer_core_at e offer 1000000 1 6 2 6 1 (o_fee_basis_points offer)))"

definition process_offer_core_rejects_output_that_rounds_to_zero :: "env \<Rightarrow> bool" where
  "process_offer_core_rejects_output_that_rounds_to_zero e \<longleftrightarrow>
     (let offer = offer_for_test 1 2 0 active_vector_for_test in
      \<not> is_ok (process_offer_core_at e offer 1 1 9 2 6 1 (o_fee_basis_points offer)))"

definition process_offer_core_rejects_missing_active_vector :: "env \<Rightarrow> bool" where
  "process_offer_core_rejects_missing_active_vector e \<longleftrightarrow>
     (let offer = offer_for_test 1 2 0 (active_vector_for_test\<lparr>v_start_time := 2\<rparr>) in
      \<not> is_ok (process_offer_core_at e offer 1000000 1 6 2 6 1 (o_fee_basis_points offer)))"

definition vector_price_matches_daily_compounding_on_day_boundaries :: bool where
  "vector_price_matches_daily_compounding_on_day_boundaries \<longleftrightarrow>
     calculate_vector_price 97600 1000000000 SECONDS_IN_DAY = Ok 1000267397 \<and>
     calculate_vector_price 97600 1000000000 (SECONDS_IN_DAY * 2) = Ok 1000534866"

definition vector_price_grows_with_subday_elapsed_time :: bool where
  "vector_price_grows_with_subday_elapsed_time \<longleftrightarrow>
     calculate_vector_price 97600 1000000000 3600 = Ok 1000011142 \<and>
     calculate_vector_price 97600 1000000000 21600 = Ok 1000066849 \<and>
     calculate_vector_price 97600 1000000000 SECONDS_IN_DAY = Ok 1000267397"

definition vector_price_matches_multi_day_compounding :: bool where
  "vector_price_matches_multi_day_compounding \<longleftrightarrow>
     calculate_vector_price 97600 1000000000 (SECONDS_IN_DAY * 3) = Ok 1000802406 \<and>
     calculate_vector_price 97600 1000000000 (SECONDS_IN_DAY * 3 + 21600) = Ok 1000869309"

definition vector_price_rejects_price_overflow :: bool where
  "vector_price_rejects_price_overflow \<longleftrightarrow>
     \<not> is_ok (calculate_vector_price u64_max u64_max SECONDS_IN_DAY)"

definition step_price_rejects_time_before_base_time :: bool where
  "step_price_rejects_time_before_base_time \<longleftrightarrow>
     \<not> is_ok (calculate_step_price_at 0 1000000000 2 SECONDS_IN_DAY 1)"

definition step_price_rejects_step_end_overflow :: bool where
  "step_price_rejects_step_end_overflow \<longleftrightarrow>
     \<not> is_ok (calculate_step_price_at 0 1000000000 0 1 u64_max)"

lemma not_ok [simp]: "\<not> is_ok (Err err)" "is_ok (Ok x)"
  by (simp_all add: is_ok_def)

lemma offer_for_test_sel [simp]:
  "o_token_in_mint (offer_for_test i out bps v) = i" "o_token_out_mint (offer_for_test i out bps v) = out"
  "o_fee_basis_points (offer_for_test i out bps v) = bps"
  "o_vectors (offer_for_test i out bps v) = v # replicate 9 default_vector"
  by (simp_all add: offer_for_test_def zero_offer_def MAX_VECTORS_def numeral_eq_Suc)

lemma mints_rejected:
  "process_offer_core_rejects_invalid_token_in_mint e" "process_offer_core_rejects_invalid_token_out_mint e"
  by (simp_all add: process_offer_core_rejects_invalid_token_in_mint_def
      process_offer_core_rejects_invalid_token_out_mint_def process_offer_core_at_def require_mints_def)

lemma missing_vector_rejected: "process_offer_core_rejects_missing_active_vector e"
  by (simp add: process_offer_core_rejects_missing_active_vector_def process_offer_core_at_def
      find_active_vector_at_def require_mints_def default_vector_def)

text \<open>The remaining two fail at the fee and at the output, whatever the clock says.\<close>

lemma core_needs_fee_and_output:
  assumes "is_ok (process_offer_core_at e offer amount in_key in_dec out_key out_dec t bps)"
  obtains v p fees out where "find_active_vector_at offer t = Ok v" "calculate_fees amount bps = Ok fees"
    "calculate_current_step_price (unix_timestamp e) (v_apr v) (v_base_price v) (v_base_time v)
       (v_price_fix_duration v) = Ok p"
    "calculate_token_out_amount (fr_token_in_net_amount fees) p in_dec out_dec = Ok out"
  using assms unfolding is_ok_iff process_offer_core_at_def by (auto simp del: token_out_amount_Ok)

lemma fee_rejected: "process_offer_core_rejects_invalid_fee_basis_points e"
  unfolding process_offer_core_rejects_invalid_fee_basis_points_def Let_def
  by (auto elim!: core_needs_fee_and_output simp: calculate_fees_def ceil_div_u128_def
      checked_mul_def checked_add_def checked_sub_def as_u64_def const_defs int_defs)

lemma output_rejected: "process_offer_core_rejects_output_that_rounds_to_zero e"
  unfolding process_offer_core_rejects_output_that_rounds_to_zero_def Let_def
proof (rule notI, erule core_needs_fee_and_output)
  fix v p fees out
  assume v: "find_active_vector_at (offer_for_test 1 2 0 active_vector_for_test) 1 = Ok v"
    and fees: "calculate_fees 1 (o_fee_basis_points (offer_for_test 1 2 0 active_vector_for_test)) = Ok fees"
    and p: "calculate_current_step_price (unix_timestamp e) (v_apr v) (v_base_price v) (v_base_time v)
      (v_price_fix_duration v) = Ok p"
    and out: "calculate_token_out_amount (fr_token_in_net_amount fees) p 9 6 = Ok out"
  have "v = active_vector_for_test"
    using v by (simp add: find_active_vector_at_def default_vector_def active_vector_for_test_def)
  then have "p = 1000000000"
    using p by (auto simp: active_vector_for_test_def calculate_current_step_price_def calculate_step_price_at_def
        calculate_vector_price_def Let_def)
  moreover have "fr_token_in_net_amount fees = 1"
    using fees calculate_fees_total(1) [of 1 0] by (simp add: const_defs int_defs)
  ultimately show False using out by (auto simp: token_out_amount_Ok)
qed

lemma vector_price_tests:
  "vector_price_matches_daily_compounding_on_day_boundaries" "vector_price_grows_with_subday_elapsed_time"
  "vector_price_matches_multi_day_compounding" "vector_price_rejects_price_overflow"
  by (simp_all add: vector_price_matches_daily_compounding_on_day_boundaries_def
      vector_price_grows_with_subday_elapsed_time_def vector_price_matches_multi_day_compounding_def
      vector_price_rejects_price_overflow_def price_eval_simps cong: eval_congs)

lemma step_price_tests:
  "step_price_rejects_time_before_base_time" "step_price_rejects_step_end_overflow"
  by (simp_all add: step_price_rejects_time_before_base_time_def step_price_rejects_step_end_overflow_def
      price_eval_simps)

section \<open>Market statistics\<close>

definition offer_with_vectors :: "offer_vector list \<Rightarrow> offer" where
  "offer_with_vectors vectors = zero_offer\<lparr>o_token_in_mint := 1, o_token_out_mint := 2, o_vectors := vectors,
     o_fee_basis_points := 0, o_bump := 0\<rparr>"

definition no_vectors :: "offer_vector list" where
  "no_vectors = replicate MAX_VECTORS default_vector"

definition nav_adjustment_negative_transition_matches_programv4 :: bool where
  "nav_adjustment_negative_transition_matches_programv4 \<longleftrightarrow>
     (let previous = \<lparr>v_start_time = 100, v_base_time = 100, v_base_price = 2000000000, v_apr = 0,
            v_price_fix_duration = 60\<rparr>;
          current = \<lparr>v_start_time = 200, v_base_time = 200, v_base_price = 1500000000, v_apr = 0,
            v_price_fix_duration = 60\<rparr>;
          offer = offer_with_vectors (no_vectors[0 := previous, 1 := current])
      in calculate_nav_adjustment offer current = Ok (-500000000))"

definition nav_adjustment_positive_transition_matches_programv4 :: bool where
  "nav_adjustment_positive_transition_matches_programv4 \<longleftrightarrow>
     (let previous = \<lparr>v_start_time = 100, v_base_time = 100, v_base_price = 1000000000, v_apr = 0,
            v_price_fix_duration = 60\<rparr>;
          current = \<lparr>v_start_time = 200, v_base_time = 200, v_base_price = 1500000000, v_apr = 0,
            v_price_fix_duration = 60\<rparr>;
          offer = offer_with_vectors (no_vectors[0 := previous, 1 := current])
      in calculate_nav_adjustment offer current = Ok 500000000)"

definition nav_adjustment_uses_vector_transition_time :: bool where
  "nav_adjustment_uses_vector_transition_time \<longleftrightarrow>
     (let previous = \<lparr>v_start_time = 100, v_base_time = 100, v_base_price = 1000000000, v_apr = 365000,
            v_price_fix_duration = 86400\<rparr>;
          current = \<lparr>v_start_time = 200, v_base_time = 200, v_base_price = 1100000000, v_apr = 365000,
            v_price_fix_duration = 86400\<rparr>;
          offer = offer_with_vectors (no_vectors[0 := previous, 1 := current])
      in calculate_nav_adjustment offer current = Ok 100100000)"

definition market_stats_update_preserves_positive_nav_adjustment_sign :: "env \<Rightarrow> bool" where
  "market_stats_update_preserves_positive_nav_adjustment_sign e \<longleftrightarrow>
     (let snapshot = \<lparr>mss_apy = 10, mss_circulating_supply = 20, mss_nav = 30, mss_nav_adjustment = 40,
            mss_tvl = 50\<rparr>;
          clock = e\<lparr>slot := 42, unix_timestamp := 1700000000\<rparr>;
          ms = apply_market_stats_snapshot clock snapshot (market_stats_init_value 7)
      in ms_apy ms = 10 \<and> ms_circulating_supply ms = 20 \<and> ms_nav ms = 30 \<and> ms_nav_adjustment ms = 40 \<and>
         ms_tvl ms = 50 \<and> ms_last_updated_slot ms = 42 \<and> ms_last_updated_at ms = 1700000000 \<and> ms_bump ms = 7)"

definition market_stats_update_preserves_negative_nav_adjustment_sign :: "env \<Rightarrow> bool" where
  "market_stats_update_preserves_negative_nav_adjustment_sign e \<longleftrightarrow>
     (let snapshot = \<lparr>mss_apy = 10, mss_circulating_supply = 20, mss_nav = 30, mss_nav_adjustment = -40,
            mss_tvl = 50\<rparr>;
          clock = e\<lparr>slot := 42, unix_timestamp := 1700000000\<rparr>;
          ms = apply_market_stats_snapshot clock snapshot (market_stats_init_value 7)
      in ms_nav_adjustment ms = -40 \<and> ms_nav_adjustment ms < 0 \<and> ms_last_updated_slot ms = 42 \<and>
         ms_last_updated_at ms = 1700000000 \<and> ms_bump ms = 7)"

definition tvl_uses_price_decimals_scale :: bool where
  "tvl_uses_price_decimals_scale \<longleftrightarrow> calculate_tvl 2000000000 1500000000 = Ok 3000000000"

definition tvl_overflow_is_rejected :: bool where
  "tvl_overflow_is_rejected \<longleftrightarrow> calculate_tvl u64_max u64_max = Err Overflow"

definition circulating_supply_matches_programv4_subtraction :: bool where
  "circulating_supply_matches_programv4_subtraction \<longleftrightarrow>
     calculate_circulating_supply 1000000000 250000000 = Ok 750000000"

definition circulating_supply_subtracts_cached_excluded_balance :: bool where
  "circulating_supply_subtracts_cached_excluded_balance \<longleftrightarrow>
     calculate_circulating_supply 1000000000 350000000 = Ok 650000000"

definition circulating_supply_subtracts_cached_excluded_balance_for_varied_values :: bool where
  "circulating_supply_subtracts_cached_excluded_balance_for_varied_values \<longleftrightarrow>
     list_all (\<lambda>(total_supply, excluded_amount, expected).
         calculate_circulating_supply total_supply excluded_amount = Ok expected)
       [(10000, 0, 10000), (10000, 1250, 8750), (5000000000, 2000000001, 2999999999),
        (u64_max, 20, u64_max - 20)]"

definition circulating_supply_rejects_excluded_supply_underflow :: bool where
  "circulating_supply_rejects_excluded_supply_underflow \<longleftrightarrow>
     calculate_circulating_supply 1 2 = Err ArithmeticUnderflow"

definition first_vector_adjustment_matches_current_nav :: bool where
  "first_vector_adjustment_matches_current_nav \<longleftrightarrow>
     (let current = \<lparr>v_start_time = 100, v_base_time = 100, v_base_price = 1000000000, v_apr = 36500,
            v_price_fix_duration = 86400\<rparr>;
          offer = offer_with_vectors (no_vectors[0 := current])
      in calculate_nav_adjustment offer current = Ok 1000100000)"

lemma no_vectors_update: "no_vectors[0 := v] = v # replicate 9 default_vector"
  by (simp add: no_vectors_def MAX_VECTORS_def ten_slots)

lemma second_slot: "(replicate 9 v)[0 := w] = w # replicate 8 v"
  by (simp add: numeral_eq_Suc)

lemma offer_with_vectors_sel [simp]: "o_vectors (offer_with_vectors vs) = vs"
  by (simp add: offer_with_vectors_def)

lemma nav_adjustment_tests:
  "nav_adjustment_negative_transition_matches_programv4" "nav_adjustment_positive_transition_matches_programv4"
  "nav_adjustment_uses_vector_transition_time" "first_vector_adjustment_matches_current_nav"
  by (simp_all add: nav_adjustment_negative_transition_matches_programv4_def
      nav_adjustment_positive_transition_matches_programv4_def nav_adjustment_uses_vector_transition_time_def
      first_vector_adjustment_matches_current_nav_def Let_def no_vectors_update second_slot calculate_nav_adjustment_def
      get_nav_adjustment_snapshot_def find_previous_vector_def default_vector_def
      compute_vector_price_at_time_def compute_signed_price_delta_def try_from_i64_def price_eval_simps
      cong: eval_congs)

lemma market_stats_tests:
  "market_stats_update_preserves_positive_nav_adjustment_sign e"
  "market_stats_update_preserves_negative_nav_adjustment_sign e"
  by (simp_all add: market_stats_update_preserves_positive_nav_adjustment_sign_def
      market_stats_update_preserves_negative_nav_adjustment_sign_def apply_market_stats_snapshot_def
      market_stats_init_value_def Let_def)

lemma supply_tests:
  "tvl_uses_price_decimals_scale" "tvl_overflow_is_rejected"
  "circulating_supply_matches_programv4_subtraction" "circulating_supply_subtracts_cached_excluded_balance"
  "circulating_supply_subtracts_cached_excluded_balance_for_varied_values"
  "circulating_supply_rejects_excluded_supply_underflow"
  by (simp_all add: tvl_uses_price_decimals_scale_def tvl_overflow_is_rejected_def
      circulating_supply_matches_programv4_subtraction_def circulating_supply_subtracts_cached_excluded_balance_def
      circulating_supply_subtracts_cached_excluded_balance_for_varied_values_def
      circulating_supply_rejects_excluded_supply_underflow_def calculate_tvl_def calculate_circulating_supply_def
      checked_sub_def checked_mul_def checked_div_def try_from_u64_def as_u64_def const_defs int_defs)

section \<open>The BUFFER\<close>

definition HALF_YEAR_SECONDS :: u64 where [const_defs]: "HALF_YEAR_SECONDS = SECONDS_PER_YEAR div 2"

definition calculate_gross_buffer_accrual_returns_zero_for_zero_inputs :: bool where
  "calculate_gross_buffer_accrual_returns_zero_for_zero_inputs \<longleftrightarrow>
     calculate_gross_buffer_accrual 0 150000 50000 HALF_YEAR_SECONDS = Ok 0 \<and>
     calculate_gross_buffer_accrual 1000000000 50000 50000 HALF_YEAR_SECONDS = Ok 0 \<and>
     calculate_gross_buffer_accrual 1000000000 150000 50000 0 = Ok 0"

definition calculate_gross_buffer_accrual_preserves_zero_current_yield_behavior :: bool where
  "calculate_gross_buffer_accrual_preserves_zero_current_yield_behavior \<longleftrightarrow>
     calculate_gross_buffer_accrual 1000000000 100000 0 HALF_YEAR_SECONDS = Ok 50000000"

definition calculate_gross_buffer_accrual_discounts_by_target_nav_growth :: bool where
  "calculate_gross_buffer_accrual_discounts_by_target_nav_growth \<longleftrightarrow>
     list_all (\<lambda>(previous_supply, gross_yield, current_yield, seconds_elapsed, old_flat_mint_amount,
           expected_discounted_mint_amount, expected_overmint_amount).
         case calculate_gross_buffer_accrual previous_supply gross_yield current_yield seconds_elapsed of
           Err _ \<Rightarrow> False
         | Ok actual \<Rightarrow> actual = expected_discounted_mint_amount \<and>
             checked_sub old_flat_mint_amount actual = Some expected_overmint_amount)
       [(1000000000, 150000, 50000, HALF_YEAR_SECONDS, 50000000, 48780487, 1219513),
        (1000000000, 120000, 20000, SECONDS_PER_YEAR, 100000000, 98039215, 1960785),
        (2500000000, 300000, 100000, SECONDS_PER_YEAR div 4, 125000000, 121951219, 3048781),
        (1000000000, 80000, 60000, 2592000, 1643835, 1635768, 8067)]"

definition calculate_buffer_fee_split_charges_performance_fee_at_high_watermark_boundary :: bool where
  "calculate_buffer_fee_split_charges_performance_fee_at_high_watermark_boundary \<longleftrightarrow>
     calculate_buffer_fee_split 10000 100000 100 2000 1000 1000 True =
     Ok \<lparr>bd_buffer_mint_amount = 10000, bd_reserve_mint_amount = 7200, bd_management_fee_mint_amount = 1000,
       bd_performance_fee_mint_amount = 1800, bd_new_performance_fee_high_watermark = 1000\<rparr>"

definition calculate_buffer_fee_split_seeds_uninitialized_high_watermark_without_performance_fee :: bool where
  "calculate_buffer_fee_split_seeds_uninitialized_high_watermark_without_performance_fee \<longleftrightarrow>
     calculate_buffer_fee_split 10000 100000 100 2000 1000 0 True =
     Ok \<lparr>bd_buffer_mint_amount = 10000, bd_reserve_mint_amount = 9000, bd_management_fee_mint_amount = 1000,
       bd_performance_fee_mint_amount = 0, bd_new_performance_fee_high_watermark = 1000\<rparr>"

definition calculate_buffer_fee_split_skips_performance_fee_below_high_watermark :: bool where
  "calculate_buffer_fee_split_skips_performance_fee_below_high_watermark \<longleftrightarrow>
     (case calculate_buffer_fee_split 100000000 100000 100 1000 900000000 1000000000 True of
        Err _ \<Rightarrow> False
      | Ok split \<Rightarrow> bd_management_fee_mint_amount split = 10000000 \<and> bd_performance_fee_mint_amount split = 0 \<and>
          bd_reserve_mint_amount split = 90000000 \<and>
          bd_new_performance_fee_high_watermark split = 1000000000)"

definition calculate_buffer_fee_split_charges_performance_fee_below_disabled_high_watermark :: bool where
  "calculate_buffer_fee_split_charges_performance_fee_below_disabled_high_watermark \<longleftrightarrow>
     (case calculate_buffer_fee_split 100000000 100000 100 1000 900000000 1000000000 False of
        Err _ \<Rightarrow> False
      | Ok split \<Rightarrow> bd_management_fee_mint_amount split = 10000000 \<and>
          bd_performance_fee_mint_amount split = 9000000 \<and> bd_reserve_mint_amount split = 81000000 \<and>
          bd_new_performance_fee_high_watermark split = 1000000000)"

definition NAV_1_0 :: u64 where [const_defs]: "NAV_1_0 = 1000000000"
definition NAV_1_1 :: u64 where [const_defs]: "NAV_1_1 = 1100000000"

definition burn_amount_uses_circulating_supply_basis :: bool where
  "burn_amount_uses_circulating_supply_basis \<longleftrightarrow>
     (let total_supply = 1100; vault_supply = 100 in
      case calculate_circulating_supply total_supply vault_supply of Err _ \<Rightarrow> False
      | Ok circulating_supply \<Rightarrow>
          (case calculate_burn_amount circulating_supply 100 NAV_1_0 NAV_1_1 of Err _ \<Rightarrow> False
           | Ok burn_amount \<Rightarrow>
               (case checked_sub total_supply 819 of None \<Rightarrow> False
                | Some total_supply_based_burn \<Rightarrow> burn_amount = 181 \<and>
                    checked_sub total_supply_based_burn burn_amount = Some vault_supply)))"

definition burn_amount_is_zero_when_assets_already_match_target_nav :: bool where
  "burn_amount_is_zero_when_assets_already_match_target_nav \<longleftrightarrow>
     calculate_burn_amount 1000 0 NAV_1_0 NAV_1_0 = Err NoBurnNeeded"

definition accrual_accounts_for_test :: "env \<Rightarrow> buffer_state account \<Rightarrow> buffer_accrual_accounts" where
  "accrual_accounts_for_test e buffer =
     (let vault = (\<lambda>key. \<lparr>t_key = key, t_owner = program_id e, t_is_token = False\<rparr>) in
      \<lparr>ba_buffer_state = buffer, ba_reserve_vault_onyc_account = vault 1,
       ba_management_fee_vault_onyc_account = vault 2, ba_performance_fee_vault_onyc_account = vault 3\<rparr>)"

text \<open>A fresh key is not the derived address, and a fresh owner is not the program.\<close>

definition check_is_initialized_rejects_noncanonical_buffer_state_key :: "env \<Rightarrow> bool" where
  "check_is_initialized_rejects_noncanonical_buffer_state_key e \<longleftrightarrow>
     check_is_initialized e (accrual_accounts_for_test e
       \<lparr>a_key = pda e [Seed ''buffer_state''] + 1, a_owner = program_id e, a_writable = False,
        a_data = ZeroedData\<rparr>) = Err InvalidBufferStateAccount"

definition check_is_initialized_allows_uninitialized_canonical_buffer_state :: "env \<Rightarrow> bool" where
  "check_is_initialized_allows_uninitialized_canonical_buffer_state e \<longleftrightarrow>
     check_is_initialized e (accrual_accounts_for_test e
       \<lparr>a_key = pda e [Seed ''buffer_state''], a_owner = program_id e + 1, a_writable = False,
        a_data = NoData\<rparr>) = Ok False"

lemmas accrual_eval_simps =
  calculate_gross_buffer_accrual_def calculate_accrual_from_apr_delta_def saturating_sub_def
  checked_mul_def checked_add_def checked_sub_def checked_div_def as_u64_def const_defs int_defs

lemma gross_accrual_tests:
  "calculate_gross_buffer_accrual_returns_zero_for_zero_inputs"
  "calculate_gross_buffer_accrual_preserves_zero_current_yield_behavior"
  "calculate_gross_buffer_accrual_discounts_by_target_nav_growth"
  by (simp_all add: calculate_gross_buffer_accrual_returns_zero_for_zero_inputs_def
      calculate_gross_buffer_accrual_preserves_zero_current_yield_behavior_def
      calculate_gross_buffer_accrual_discounts_by_target_nav_growth_def accrual_eval_simps cong: eval_congs)

lemma fee_split_tests:
  "calculate_buffer_fee_split_charges_performance_fee_at_high_watermark_boundary"
  "calculate_buffer_fee_split_seeds_uninitialized_high_watermark_without_performance_fee"
  "calculate_buffer_fee_split_skips_performance_fee_below_high_watermark"
  "calculate_buffer_fee_split_charges_performance_fee_below_disabled_high_watermark"
  by (simp_all add: calculate_buffer_fee_split_charges_performance_fee_at_high_watermark_boundary_def
      calculate_buffer_fee_split_seeds_uninitialized_high_watermark_without_performance_fee_def
      calculate_buffer_fee_split_skips_performance_fee_below_high_watermark_def
      calculate_buffer_fee_split_charges_performance_fee_below_disabled_high_watermark_def
      calculate_buffer_fee_split_def accrual_eval_simps Let_def cong: eval_congs)

lemma burn_tests:
  "burn_amount_uses_circulating_supply_basis" "burn_amount_is_zero_when_assets_already_match_target_nav"
  by (simp_all add: burn_amount_uses_circulating_supply_basis_def
      burn_amount_is_zero_when_assets_already_match_target_nav_def calculate_burn_amount_def
      calculate_circulating_supply_def calculate_tvl_def checked_pow_def ceil_div_u128_def try_from_u64_def
      accrual_eval_simps Let_def cong: eval_congs)

lemma initialized_tests:
  "check_is_initialized_rejects_noncanonical_buffer_state_key e"
  "check_is_initialized_allows_uninitialized_canonical_buffer_state e"
  by (simp_all add: check_is_initialized_rejects_noncanonical_buffer_state_key_def
      check_is_initialized_allows_uninitialized_canonical_buffer_state_def accrual_accounts_for_test_def
      check_is_initialized_def Let_def)

section \<open>Fees\<close>

definition test_zero_fee_basis_points :: bool where
  "test_zero_fee_basis_points \<longleftrightarrow> calculate_fees 1000000000 0 =
     Ok \<lparr>fr_token_in_fee_amount = 0, fr_token_in_net_amount = 1000000000\<rparr>"

definition test_100_bps_fee :: bool where
  "test_100_bps_fee \<longleftrightarrow> calculate_fees 1000000000 100 =
     Ok \<lparr>fr_token_in_fee_amount = 10000000, fr_token_in_net_amount = 990000000\<rparr>"

definition test_max_fee_basis_points_1000 :: bool where
  "test_max_fee_basis_points_1000 \<longleftrightarrow> calculate_fees 1000000000 1000 =
     Ok \<lparr>fr_token_in_fee_amount = 100000000, fr_token_in_net_amount = 900000000\<rparr>"

definition test_fee_rounding_ceiling :: bool where
  "test_fee_rounding_ceiling \<longleftrightarrow> calculate_fees 1 100 =
     Ok \<lparr>fr_token_in_fee_amount = 1, fr_token_in_net_amount = 0\<rparr>"

definition test_fee_plus_net_equals_total :: bool where
  "test_fee_plus_net_equals_total \<longleftrightarrow>
     list_all (\<lambda>amount. list_all (\<lambda>bps.
         case calculate_fees amount bps of Err _ \<Rightarrow> False
         | Ok r \<Rightarrow> fr_token_in_fee_amount r + fr_token_in_net_amount r = amount)
       [0, 1, 50, 100, 500, 1000]) [1, 100, 999, 1000000, 1000000000]"

lemma fee_tests:
  "test_zero_fee_basis_points" "test_100_bps_fee" "test_max_fee_basis_points_1000" "test_fee_rounding_ceiling"
  "test_fee_plus_net_equals_total"
  by (simp_all add: test_zero_fee_basis_points_def test_100_bps_fee_def test_max_fee_basis_points_1000_def
      test_fee_rounding_ceiling_def test_fee_plus_net_equals_total_def calculate_fees_total const_defs int_defs)

text \<open>
  All unit tests of the sources hold of the model, at every clock: the offer core rejects foreign
  mints, excessive fees, missing vectors and empty outputs, and prices, adjustments, statistics,
  accruals, fee splits, NAV burns and fees have the values the tests state.
\<close>

theorem unit_tests_hold:
  "process_offer_core_rejects_invalid_token_in_mint e \<and>
    process_offer_core_rejects_invalid_token_out_mint e \<and>
    process_offer_core_rejects_invalid_fee_basis_points e \<and>
    process_offer_core_rejects_output_that_rounds_to_zero e \<and>
    process_offer_core_rejects_missing_active_vector e \<and>
    vector_price_matches_daily_compounding_on_day_boundaries \<and>
    vector_price_grows_with_subday_elapsed_time \<and>
    vector_price_matches_multi_day_compounding \<and>
    vector_price_rejects_price_overflow \<and>
    step_price_rejects_time_before_base_time \<and>
    step_price_rejects_step_end_overflow \<and>
    nav_adjustment_negative_transition_matches_programv4 \<and>
    nav_adjustment_positive_transition_matches_programv4 \<and>
    nav_adjustment_uses_vector_transition_time \<and>
    market_stats_update_preserves_positive_nav_adjustment_sign e \<and>
    market_stats_update_preserves_negative_nav_adjustment_sign e \<and>
    tvl_uses_price_decimals_scale \<and>
    tvl_overflow_is_rejected \<and>
    circulating_supply_matches_programv4_subtraction \<and>
    circulating_supply_subtracts_cached_excluded_balance \<and>
    circulating_supply_subtracts_cached_excluded_balance_for_varied_values \<and>
    circulating_supply_rejects_excluded_supply_underflow \<and>
    first_vector_adjustment_matches_current_nav \<and>
    calculate_gross_buffer_accrual_returns_zero_for_zero_inputs \<and>
    calculate_gross_buffer_accrual_preserves_zero_current_yield_behavior \<and>
    calculate_gross_buffer_accrual_discounts_by_target_nav_growth \<and>
    calculate_buffer_fee_split_charges_performance_fee_at_high_watermark_boundary \<and>
    calculate_buffer_fee_split_seeds_uninitialized_high_watermark_without_performance_fee \<and>
    calculate_buffer_fee_split_skips_performance_fee_below_high_watermark \<and>
    calculate_buffer_fee_split_charges_performance_fee_below_disabled_high_watermark \<and>
    burn_amount_uses_circulating_supply_basis \<and>
    burn_amount_is_zero_when_assets_already_match_target_nav \<and>
    check_is_initialized_rejects_noncanonical_buffer_state_key e \<and>
    check_is_initialized_allows_uninitialized_canonical_buffer_state e \<and>
    test_zero_fee_basis_points \<and>
    test_100_bps_fee \<and>
    test_max_fee_basis_points_1000 \<and>
    test_fee_rounding_ceiling \<and>
    test_fee_plus_net_equals_total"
  by (intro conjI mints_rejected fee_rejected output_rejected missing_vector_rejected vector_price_tests
      step_price_tests nav_adjustment_tests market_stats_tests supply_tests gross_accrual_tests fee_split_tests
      burn_tests initialized_tests fee_tests)

end
