(* ===== verification/Display.thy ===== *)
theory Display
  imports Prelude
begin

text \<open>
  The decimal display of prices and amounts in the log messages, \<open>u64_to_dec9\<close> of
  \<open>utils/token_utils.rs\<close>, with the decimal notation of the standard library that it uses, and a
  reader of that notation which recovers the number.
\<close>

section \<open>Printing\<close>

definition digit :: "nat \<Rightarrow> char" where
  "digit d = char_of (48 + d)"

fun to_string :: "nat \<Rightarrow> string" where
  "to_string n = (if n < 10 then [digit n] else to_string (n div 10) @ [digit (n mod 10)])"

declare to_string.simps [simp del]

text \<open>\<open>{:09}\<close> pads on the left with zeros to nine places.\<close>

definition format_09 :: "nat \<Rightarrow> string" where
  "format_09 n = replicate (9 - length (to_string n)) CHR ''0'' @ to_string n"

text \<open>The loop \<open>while frac.ends_with('0') { frac.pop(); }\<close>.\<close>

function pop_zeros :: "string \<Rightarrow> string" where
  "pop_zeros fraction = (if fraction \<noteq> [] \<and> last fraction = CHR ''0'' then pop_zeros (butlast fraction) else fraction)"
  by pat_completeness auto
termination by (relation "measure length") auto

declare pop_zeros.simps [simp del]

definition u64_to_dec9 :: "u64 \<Rightarrow> string" where
  "u64_to_dec9 n =
     (let int_part = n div 1000000000; frac_part = n mod 1000000000 in
      if frac_part = 0 then to_string int_part
      else to_string int_part @ ''.'' @ pop_zeros (format_09 frac_part))"

section \<open>Reading\<close>

definition digits_value :: "string \<Rightarrow> nat" where
  "digits_value = foldl (\<lambda>a c. 10 * a + (of_char c - 48)) 0"

definition read_dec9 :: "string \<Rightarrow> nat" where
  "read_dec9 s =
     (let int_part = takeWhile (\<lambda>c. c \<noteq> CHR ''.'') s; fraction = drop (Suc (length int_part)) s in
      digits_value int_part * 1000000000 +
      digits_value (fraction @ replicate (9 - length fraction) CHR ''0''))"

lemma of_char_digit: "d < 10 \<Longrightarrow> of_char (digit d) = 48 + d"
  by (simp add: digit_def)

lemma digit_not_point:
  assumes "d < 10"
  shows "digit d \<noteq> CHR ''.''"
proof
  assume "digit d = CHR ''.''"
  then have "of_char (digit d) = (46::nat)" by simp
  then show False using of_char_digit [OF assms] by simp
qed

lemma digits_value_simps [simp]:
  "digits_value [] = 0"
  "digits_value (xs @ [c]) = 10 * digits_value xs + (of_char c - 48)"
  by (simp_all add: digits_value_def)

lemma digits_value_to_string [simp]: "digits_value (to_string n) = n"
proof (induction n rule: to_string.induct)
  case (1 n)
  show ?case
  proof (cases "n < 10")
    case True
    then show ?thesis by (simp add: to_string.simps [of n] digits_value_def of_char_digit)
  next
    case False
    then show ?thesis using 1 by (simp add: to_string.simps [of n] of_char_digit)
  qed
qed

lemma digits_value_zeros: "digits_value (replicate k CHR ''0'' @ xs) = digits_value xs"
proof -
  have "foldl (\<lambda>a c. 10 * a + (of_char c - 48)) 0 (replicate k CHR ''0'') = (0::nat)"
    by (induction k) simp_all
  then show ?thesis by (simp add: digits_value_def)
qed

lemma to_string_no_point: "CHR ''.'' \<notin> set (to_string n)"
proof (induction n rule: to_string.induct)
  case (1 n)
  then show ?case
    using digit_not_point [of n] digit_not_point [of "n mod 10"]
    by (cases "n < 10") (auto simp: to_string.simps [of n])
qed

lemma length_to_string: "n < 10 ^ Suc k \<Longrightarrow> length (to_string n) \<le> Suc k"
proof (induction k arbitrary: n)
  case 0
  then show ?case by (simp add: to_string.simps [of n])
next
  case (Suc k)
  have "n div 10 < 10 ^ Suc k" using Suc.prems by (simp add: less_mult_imp_div_less mult.commute)
  from Suc.IH [OF this] show ?case by (simp add: to_string.simps [of n])
qed

text \<open>What the loop removes is a block of zeros, and it leaves no zero at the end.\<close>

lemma pop_zeros_suffix: "\<exists>k. xs = pop_zeros xs @ replicate k CHR ''0''"
proof (induction xs rule: pop_zeros.induct)
  case (1 xs)
  show ?case
  proof (cases "xs \<noteq> [] \<and> last xs = CHR ''0''")
    case True
    then obtain k where "butlast xs = pop_zeros (butlast xs) @ replicate k CHR ''0''" using 1 by blast
    moreover have "xs = butlast xs @ [CHR ''0'']" using True by (metis append_butlast_last_id)
    moreover have "pop_zeros xs = pop_zeros (butlast xs)" using True by (simp add: pop_zeros.simps [of xs])
    ultimately have "xs = (pop_zeros xs @ replicate k CHR ''0'') @ [CHR ''0'']" by simp
    then have "xs = pop_zeros xs @ replicate (Suc k) CHR ''0''"
      unfolding replicate_Suc replicate_append_same [symmetric] append.assoc .
    then show ?thesis by blast
  next
    case False
    then have "xs = pop_zeros xs @ replicate 0 CHR ''0''" by (auto simp: pop_zeros.simps [of xs])
    then show ?thesis by blast
  qed
qed

lemma pop_zeros_last: "pop_zeros xs \<noteq> [] \<Longrightarrow> last (pop_zeros xs) \<noteq> CHR ''0''"
proof (induction xs rule: pop_zeros.induct)
  case (1 xs)
  then show ?case
    by (cases "xs \<noteq> [] \<and> last xs = CHR ''0''") (auto simp: pop_zeros.simps [of xs])
qed

lemma format_09_props:
  assumes "n < 1000000000"
  shows "length (format_09 n) = 9" and "digits_value (format_09 n) = n" and "CHR ''.'' \<notin> set (format_09 n)"
  using length_to_string [of n 8] assms to_string_no_point [of n]
  by (simp_all add: format_09_def digits_value_zeros)

lemma padded_back:
  assumes "length xs = 9"
  shows "pop_zeros xs @ replicate (9 - length (pop_zeros xs)) CHR ''0'' = xs"
proof -
  obtain k where k: "xs = pop_zeros xs @ replicate k CHR ''0''" using pop_zeros_suffix by blast
  have "length xs = length (pop_zeros xs) + k" using arg_cong [OF k, of length] by simp
  then have "k = 9 - length (pop_zeros xs)" using assms by simp
  then show ?thesis using k [symmetric] by simp
qed

lemma read_int:
  assumes "CHR ''.'' \<notin> set s"
  shows "read_dec9 s = digits_value s * 1000000000"
proof -
  have tw: "takeWhile (\<lambda>c. c \<noteq> CHR ''.'') s = s" using assms by (auto simp: takeWhile_eq_all_conv)
  show ?thesis unfolding read_dec9_def Let_def tw using digits_value_zeros [of 9 "[]"] by simp
qed

lemma read_parts:
  assumes "CHR ''.'' \<notin> set s"
  shows "read_dec9 (s @ ''.'' @ fraction) =
    digits_value s * 1000000000 + digits_value (fraction @ replicate (9 - length fraction) CHR ''0'')"
proof -
  have "takeWhile (\<lambda>c. c \<noteq> CHR ''.'') (s @ ''.'' @ fraction) = s" using assms by (simp add: takeWhile_append)
  then show ?thesis by (simp add: read_dec9_def Let_def)
qed

text \<open>The examples in the documentation of the function.\<close>

lemma documented_displays:
  "u64_to_dec9 1500000000 = ''1.5''" "u64_to_dec9 123456789012 = ''123.456789012''"
  "u64_to_dec9 1000000000 = ''1''"
  by (simp_all add: u64_to_dec9_def format_09_def digit_def to_string.simps pop_zeros.simps char_of_def bit_0)

text \<open>
  The decimal display of a price determines the price: reading it back gives the number for
  every amount, so different amounts never look the same in the log. A decimal point is shown
  exactly when there is a fraction, and a fraction never ends in a zero.
\<close>

theorem display_reads_back:
  "read_dec9 (u64_to_dec9 n) = n \<and>
   (CHR ''.'' \<in> set (u64_to_dec9 n)) = (n mod 1000000000 \<noteq> 0) \<and>
   \<not> (CHR ''.'' \<in> set (u64_to_dec9 n) \<and> last (u64_to_dec9 n) = CHR ''0'')"
proof (cases "n mod 1000000000 = 0")
  case True
  then show ?thesis
    using to_string_no_point [of "n div 1000000000"] by (simp add: u64_to_dec9_def read_int minus_mod_eq_div_mult [symmetric])
next
  case False
  define fraction where "fraction = format_09 (n mod 1000000000)"
  have f: "length fraction = 9" "digits_value fraction = n mod 1000000000" "CHR ''.'' \<notin> set fraction"
    unfolding fraction_def by (simp_all add: format_09_props)
  have u: "u64_to_dec9 n = to_string (n div 1000000000) @ ''.'' @ pop_zeros fraction"
    using False by (simp add: u64_to_dec9_def fraction_def)
  have "pop_zeros fraction \<noteq> []"
  proof
    assume "pop_zeros fraction = []"
    then have "fraction = replicate 9 CHR ''0'' @ []" using padded_back [OF f(1)] by simp
    then show False using digits_value_zeros [of 9 "[]"] f(2) False by simp
  qed
  then have "last (u64_to_dec9 n) \<noteq> CHR ''0''" using pop_zeros_last [of fraction] by (simp add: u)
  moreover have "read_dec9 (u64_to_dec9 n) = n"
    unfolding u read_parts [OF to_string_no_point] padded_back [OF f(1)] f(2) by simp
  ultimately show ?thesis using False by (simp add: u)
qed

end
