(* ===== verification/Spec2Isabelle.thy ===== *)
theory Spec2Isabelle
  imports Entry_Points Approval Fuzz_Start Event_Amounts Pricing_Bounds Unit_Tests Display
begin

text \<open>
  A verification of the ONyc program under \<open>src/programs/onreapp\<close>, an Anchor program on Solana
  that sells and redeems the yield-bearing token ONyc.

  \<^bold>\<open>The program.\<close> A global state account (\<open>state.rs\<close>) holds the boss, admins, approvers, worker, ONyc
  mint, main offer, caps and a kill switch. An offer (\<open>offer/offer_state.rs\<close>) prices one mint in
  another by up to ten vectors, each a base price that grows in steps at an APR. Users take offers
  (\<open>offer/take_offer*.rs\<close>), directly with an approval or through the permissionless authority; the
  payment is burned or split between vaults, the output minted or paid from a vault
  (\<open>utils/token_utils.rs\<close>). Redemptions (\<open>redemption/\<close>) queue ONyc and pay the asset back. The BUFFER
  (\<open>buffer/\<close>) mints the difference between a gross and the current yield into three vaults before
  every change of the ONyc supply but those of the legacy takes, and remembers the supply after it
  as its baseline. The Prop AMM
  (\<open>prop_amm/\<close>) buys like a permissionless take and sells along a curve that dampens the output
  with utilization, sell pressure and trade cadence. Market statistics (\<open>market_info/\<close>) cache NAV,
  TVL and APY, which refills and the sell curve read.

  \<^bold>\<open>Theories.\<close>
  \<^item> \<open>Prelude\<close>: integer widths, the error type of \<open>errors.rs\<close>, the result monad and its simplification
    rules, the interfaces \<open>guarded_machine\<close> and \<open>invariant_machine\<close> (invariants of runs in which
    failing instructions change nothing).
  \<^item> \<open>Math_Utils\<close>: \<open>utils/math_utils.rs\<close>; rounding, totality and accuracy of fixed-point powers.
  \<^item> \<open>Governance\<close>: \<open>state.rs\<close>, \<open>initialization/initialize.rs\<close>, \<open>state_operations/\<close>, \<open>targeted_disable.rs\<close>;
    the two-step hand-over (who proposed, who accepted, in which order), the authority over the kill
    switch, well-formed states.
  \<^item> \<open>Offer_Pricing\<close>: vector selection and stepped prices of \<open>offer/offer_utils.rs\<close>, \<open>market_info/get_apy.rs\<close>,
    \<open>market_info/offer_valuation_utils.rs\<close>; refinement of exact daily compounding.
  \<^item> \<open>Offer_Admin\<close>: the instructions that create and change offers; well-formed vectors, and
    which vectors are accepted.
  \<^item> \<open>Token_Ops\<close>: conversion, fees, caps and the exchange of \<open>utils/token_utils.rs\<close>; exact effects.
  \<^item> \<open>Accounts\<close>: \<open>utils/account_init.rs\<close>, associated token accounts, \<open>configurable_vault/{accounts,init}.rs\<close>.
  \<^item> \<open>Market_Stats\<close>: stored statistics, excluded balances, query instructions.
  \<^item> \<open>Buffer\<close>: accrual, fee split, settlement, configuration, NAV burn.
  \<^item> \<open>Redemption\<close>: redemption offers, the request queue, fulfilment.
  \<^item> \<open>Approval\<close>: the Ed25519 parser and the approval check.
  \<^item> \<open>Offer_Exec\<close>: the four instructions that take an offer, with approval, accrual and refill.
  \<^item> \<open>Hard_Wall\<close>: \<open>prop_amm/hard_wall_math.rs\<close> and the curve of \<open>prop_amm/pricing.rs\<close>; totality of the
    sell curve, refinement of integer powers, transparency of the volume tracker.
  \<^item> \<open>Prop_Amm\<close>: configuration, validation, reserve and quotes. \<open>Swap_Exec\<close>: the two swaps; each pays
    exactly what its quote says.
  \<^item> \<open>Treasury\<close>: vault and reserve movements, configurable vaults, minting, the mint authority,
    closing the state, the permissionless authority.
  \<^item> \<open>Protocol\<close>: the instructions of \<open>lib.rs\<close> that move tokens or configure their accounts as one machine
    on a shared state: the kill switch, the BUFFER's baseline and the component invariants under
    every interleaving.
  \<^item> \<open>Entry_Points\<close>: the whole program, from a deployment on which nothing exists: every entry point of
    \<open>lib.rs\<close> on accounts looked up by address, creation and closing of accounts, offer
    administration, queries; the same invariants for all interleavings of all entry points (the
    baseline: of all but the calls that \<open>entry_keeps_books\<close> excludes).
  \<^item> \<open>Pricing_Bounds\<close>: when a price exists: no product of the power loop or of the interpolation
    overflows for yields up to 100 percent within five years.
  \<^item> \<open>Fuzz_Harness\<close>: \<open>trident-tests/fuzz_0/{invariants,utility,test_fuzz}.rs\<close>; for each assertion of the
    harness the runs of the program that it accepts. \<open>Fuzz_Start\<close>: its set-up, with \<open>fuzz_accounts.rs\<close>; it
    panics for every random choice, because the client sends the accounts of the vault deposit in
    another order than the program declares.
  \<^item> \<open>Event_Log\<close>: the events of governance, offers and redemptions and the interface \<open>observed_machine\<close>, which
    extends \<open>guarded_machine\<close> by a log and an observer: whoever reads only the log knows the state.
    \<open>Buffer_Events\<close>: the events of the BUFFER pool (\<open>buffer/events.rs\<close>) and its observer.
  \<^item> \<open>Program_Events\<close>: the remaining events, the log of the whole program and the events of the queries;
    runs without events change nothing, two account creations and Prop AMM buys apart; whoever reads
    the events of the BUFFER and of its reserve knows the pool.
    \<open>Event_Amounts\<close>: the amounts in the event of an exchange are those that moved.
  \<^item> \<open>Unit_Tests\<close>: the unit tests inside the sources as predicates, all of which hold of the model.
  \<^item> \<open>Display\<close>: the decimal display of prices, \<open>u64_to_dec9\<close>; a price can be read back from it.
  \<^item> This theory: a property that spans offers, redemptions and swaps.

  \<^bold>\<open>Conventions.\<close> A handler is a function from the environment, its accounts and arguments, and the
  state it changes to a result: \<open>Err\<close> with the error of the source, or \<open>Ok\<close> with the new state. A
  failed instruction is rolled back by the runtime, so an error carries no state. Account
  constraints of the Anchor structs come first, in the order of the struct; accounts are passed by
  name, in \<open>Fuzz_Start\<close> by position where a client's order differs. Integers are naturals or
  integers with the width written out at each checked, wrapping or saturating operation. A public
  key is a number; \<open>pda\<close> and associated addresses are the functions of \<open>env\<close>, a parameter. A bump
  that a struct only compares with the canonical one is checked through the derived address. An
  account is its key, owner, writability and data, the data possibly absent, zeroed or malformed.

  \<^bold>\<open>Parameters.\<close> The token program is the record \<open>spl_token\<close>; what the proofs use of it is \<open>spl_laws\<close>: a
  successful transfer, mint or burn has exactly its documented effect. The change of a mint
  authority is a parameter with \<open>set_authority_law\<close>. The instructions sysvar, the Borsh decoding of
  approval messages, address derivation and account creation are parameters without laws. The
  record \<open>runtime\<close> of \<open>Entry_Points\<close> bundles them with the upgradeable loader and the bytes of a
  serialized state account, of which \<open>serializes_boss\<close> says where the boss is. Error codes reported
  to the harness are the numbers of the interface description under \<open>target/idl\<close>. The framework of the
  harness is the record \<open>trident\<close> with \<open>trident_laws\<close>. Each
  witness instantiates them with concrete functions.

  \<^bold>\<open>Bounds.\<close> All loops of the program are bounded (vectors, admins, bits of an exponent, terms of a
  series) and are structural recursions here; no fuel is used. Prices on day boundaries carry a
  stated rounding error against exact compounding; the bounds on clock values are those of \<open>i64\<close>.

  \<^bold>\<open>Not modelled.\<close> Log messages (\<open>msg!\<close>) and the bytes of events; rent and lamports except in \<open>close_state\<close>; the
  (de)serialization bytes of accounts beyond present, zeroed or malformed (of the state account,
  that the boss comes first); the IDL and the client types generated from it
  (\<open>trident-tests/fuzz_0/types.rs\<close>) except the account list of the vault deposit; the TypeScript scripts and tests. \<open>Protocol\<close> lets the caller supply offers and the accounts an instruction only
  reads with arbitrary contents; \<open>Entry_Points\<close> replaces them by what is stored. Both follow one
  redemption offer and one Prop AMM pair.
\<close>

section \<open>Round trips\<close>

lemma redeem_at_most_paid:
  fixes net out x p q :: nat
  assumes "out = net * 10 ^ (d_out + 9) div (p * 10 ^ d_in)" and "x \<le> out" and "q \<le> p"
  shows "x * q * 10 ^ d_in div (10 ^ d_out * 1000000000) \<le> net"
proof -
  have "x * q * 10 ^ d_in \<le> out * (p * 10 ^ d_in)"
    using assms(2,3) by (simp add: mult.assoc mult_le_mono)
  also have "\<dots> \<le> net * 10 ^ (d_out + 9)" unfolding assms(1) by (rule div_times_less_eq_dividend)
  also have "\<dots> = net * (10 ^ d_out * 1000000000)" by (simp add: power_add)
  finally show ?thesis
    by (metis div_le_mono div_mult_self_is_m mult_pos_pos zero_less_numeral zero_less_power)
qed

lemma curve_never_adds:
  assumes "apply_hard_wall_liquidity_factor e amount L R ps = Ok out"
  shows "out \<le> amount"
proof -
  from assms obtain h where "out = as_u64 (amount * (HARD_WALL_SCALE - h) div HARD_WALL_SCALE)"
      "amount * (HARD_WALL_SCALE - h) div HARD_WALL_SCALE \<le> u64_max"
    unfolding apply_hard_wall_liquidity_factor_def apply_hard_wall_liquidity_factor_at_time_def Let_def
    by (auto simp: saturating_sub_def checked_div_def split: if_splits)
  then show ?thesis using mul_div_le [of "HARD_WALL_SCALE - h" HARD_WALL_SCALE amount] by (simp add: as_u64_id)
qed

text \<open>
  C8: Buying and selling back never profits. Whoever buys with an offer and sells at most what was
  received, at a price that has not risen in between, gets back at most the net payment, before
  the curve as in a redemption and after it as in a swap: every rounding and every fee goes
  against the trader.
\<close>

theorem round_trip_never_profits:
  assumes buy: "process_offer_core e offer amount m_in m_out bps = Ok r"
    and sell: "price_swap_sell e' offer' m_out m_in liquidity ps x minimum_out = Ok (rp, out)"
    and "x \<le> op_token_out_amount r" and price: "rp_price rp \<le> op_current_price r"
  shows "out \<le> rp_token_out_amount rp \<and> rp_token_out_amount rp \<le> op_token_in_net_amount r \<and>
    op_token_in_net_amount r \<le> amount"
proof -
  note s = price_swap_sell_Ok [OF sell]
  have out: "op_token_out_amount r = op_token_in_net_amount r * 10 ^ (m_decimals m_out + 9) div
      (op_current_price r * 10 ^ m_decimals m_in)"
    using process_offer_core_Ok(3) [OF buy] unfolding token_out_amount_Ok by blast
  have "rp_token_in_net_amount rp \<le> op_token_out_amount r" using s(4) assms(3) by simp
  from redeem_at_most_paid [OF out this price]
  have "rp_token_out_amount rp \<le> op_token_in_net_amount r"
    using process_redemption_core_Ok(3) [OF s(1)] by simp
  then show ?thesis using curve_never_adds [OF s(2)] process_offer_core_pays [OF buy] by simp
qed

theorem round_trip_never_profits_witness:
  "\<exists>r. process_offer_core sample_env sample_offer 1100 (sample_mint 21 None 0) sample_onyc 0 = Ok r \<and>
     999 \<le> op_token_in_net_amount r \<and> op_token_in_net_amount r \<le> 1100"
proof -
  have price: "compute_offer_current_price sample_offer 5000 = Ok 1000267397"
    by (simp add: compute_offer_current_price_def sample_price)
  have fees: "calculate_fees 1100 0 = Ok \<lparr>fr_token_in_fee_amount = 0, fr_token_in_net_amount = 1100\<rparr>"
    using calculate_fees_total(1) [of 1100 0] by (simp add: const_defs int_defs)
  have out: "calculate_token_out_amount 1100 1000267397 6 6 = Ok 1099"
    by (simp add: token_out_amount_Ok int_defs)
  have core: "process_offer_core sample_env sample_offer 1000 (sample_mint 21 None 0) sample_onyc 0 =
      Ok \<lparr>op_current_price = 1000267397, op_token_in_net_amount = 1000, op_token_in_fee_amount = 0,
        op_token_out_amount = 999\<rparr>"
    by (rule sample_core_at_fee)
      (use calculate_fees_total(1) [of 1000 0] in \<open>simp_all add: token_out_amount_Ok const_defs int_defs\<close>)
  have buy: "process_offer_core sample_env sample_offer 1100 (sample_mint 21 None 0) sample_onyc 0 =
      Ok \<lparr>op_current_price = 1000267397, op_token_in_net_amount = 1100, op_token_in_fee_amount = 0,
        op_token_out_amount = 1099\<rparr>"
    using core fees out by (auto simp: process_offer_core_def process_offer_core_at_def sample_onyc_def sample_mint_def)
  have onyc: "reload L sample_onyc = sample_onyc" if "l_supply L 22 = 5000" for L
    using that by (simp add: reload_def sample_onyc_def sample_mint_def)
  note sell = sample_sell_priced [of sample_swap_ledger]
  have sell': "price_swap_sell sample_env sample_offer sample_onyc (sample_mint 21 None 0)
     \<lparr>lq_fee_basis_points_prop_amm_sell = 0, lq_actual_liquidity = 100000, lq_hard_wall_reserve = 100000\<rparr>
     sample_pair 1000 900 =
     Ok (\<lparr>rp_price = 1000267397, rp_token_in_net_amount = 1000, rp_token_in_fee_amount = 0,
         rp_token_out_amount = 1000\<rparr>, 999)"
    using sell onyc by (simp add: sample_swap_ledger_def)
  from round_trip_never_profits [OF buy sell'] buy show ?thesis by simp
qed

end
